(* ===== verification/Prelude.thy ===== *)
theory Prelude
  imports Complex_Main "HOL-Library.Multiset" "HOL-Library.Word" "HOL-Library.Log_Nat"
begin

text \<open>
  Shared vocabulary of the development: errors as a sum type with a bind, the generic lemmas
  on lists (keyed tables, sums over filtered lists) that the components share, and the
  collections of rewrite rules their proofs are carried by.
\<close>

named_theorems qty_simps \<open>meaning of the quantity operations as rational arithmetic\<close>
named_theorems table_simps \<open>effect of the table operations on the tables of a database\<close>

section \<open>Errors as values\<close>

text \<open>
  A Go function that returns \<open>(T, error)\<close> becomes a function into \<open>'e + 'a\<close>:
  \<open>Inl\<close> is the returned error (the other result is then ignored by every caller) and
  \<open>Inr\<close> the value. \<open>bindE\<close> is the \<open>if err != nil { return err }\<close> of the source.
\<close>

definition bindE :: "'e + 'a \<Rightarrow> ('a \<Rightarrow> 'e + 'b) \<Rightarrow> 'e + 'b" where
  "bindE m f = (case m of Inl e \<Rightarrow> Inl e | Inr x \<Rightarrow> f x)"

lemma bindE_simps [simp]:
  "bindE (Inl e) f = Inl e"
  "bindE (Inr x) f = f x"
  by (simp_all add: bindE_def)

lemma bindE_Inr_iff: "bindE m f = Inr y \<longleftrightarrow> (\<exists>x. m = Inr x \<and> f x = Inr y)"
  by (cases m) auto

lemma bindE_Inl_iff: "bindE m f = Inl e \<longleftrightarrow> m = Inl e \<or> (\<exists>x. m = Inr x \<and> f x = Inl e)"
  by (cases m) auto

lemma bindE_InrE [elim!]:
  assumes "bindE m f = Inr y"
  obtains x where "m = Inr x" and "f x = Inr y"
  using assms by (auto simp: bindE_Inr_iff)

lemma bindE_cong [fundef_cong]:
  "m = m' \<Longrightarrow> (\<And>x. m' = Inr x \<Longrightarrow> f x = g x) \<Longrightarrow> bindE m f = bindE m' g"
  by (cases m') auto

definition guardE :: "bool \<Rightarrow> 'e \<Rightarrow> 'e + unit" where
  "guardE b e = (if b then Inr () else Inl e)"

lemma guardE_simps [simp]:
  "guardE b e = Inr u \<longleftrightarrow> b"
  "guardE b e = Inl e' \<longleftrightarrow> \<not> b \<and> e' = e"
  "guardE True e = Inr ()"
  "guardE False e = Inl e"
  by (auto simp: guardE_def)

text \<open>A loop whose body may return an error: \<open>for _, x := range xs { ... }\<close>.\<close>

fun foldE :: "('s \<Rightarrow> 'a \<Rightarrow> 'e + 's) \<Rightarrow> 's \<Rightarrow> 'a list \<Rightarrow> 'e + 's" where
  "foldE f s [] = Inr s"
| "foldE f s (x # xs) = bindE (f s x) (\<lambda>s'. foldE f s' xs)"

lemma foldE_invariant:
  assumes "foldE f s xs = Inr s'" and "P s"
    and "\<And>s x s'. P s \<Longrightarrow> x \<in> set xs \<Longrightarrow> f s x = Inr s' \<Longrightarrow> P s'"
  shows "P s'"
  using assms
proof (induction xs arbitrary: s)
  case Nil
  then show ?case by simp
next
  case (Cons x xs)
  from Cons.prems(1) obtain s1 where "f s x = Inr s1" and "foldE f s1 xs = Inr s'" by auto
  with Cons.IH[of s1] Cons.prems(2,3) show ?case by (metis list.set_intros)
qed

lemma foldE_append: "foldE f s (xs @ ys) = bindE (foldE f s xs) (\<lambda>s'. foldE f s' ys)"
  by (induction xs arbitrary: s) (auto simp: bindE_def split: sum.splits)

section \<open>Optional values\<close>

definition from_opt :: "'e \<Rightarrow> 'a option \<Rightarrow> 'e + 'a" where
  "from_opt e x = (case x of None \<Rightarrow> Inl e | Some y \<Rightarrow> Inr y)"

lemma from_opt_simps [simp]:
  "from_opt e (Some y) = Inr y"
  "from_opt e None = Inl e"
  "from_opt e x = Inr y \<longleftrightarrow> x = Some y"
  "from_opt e x = Inl e' \<longleftrightarrow> x = None \<and> e' = e"
  by (auto simp: from_opt_def split: option.splits)

section \<open>Lists\<close>

lemma find_Some_in: "find P xs = Some x \<Longrightarrow> x \<in> set xs \<and> P x"
  by (auto simp: find_Some_iff)

lemma find_None_all: "find P xs = None \<longleftrightarrow> (\<forall>x \<in> set xs. \<not> P x)"
  by (auto simp: find_None_iff)

lemma find_not_None: "x \<in> set xs \<Longrightarrow> P x \<Longrightarrow> \<exists>y. find P xs = Some y"
  by (cases "find P xs") (auto simp: find_None_all)

lemma sum_list_map_filter_append:
  "sum_list (map f (filter P (xs @ ys))) =
     sum_list (map f (filter P xs)) + (sum_list (map f (filter P ys)) :: 'a :: monoid_add)"
  by simp

text \<open>
  Sorting as Go's \<open>slices.SortFunc\<close> promises it: the result is a sorted permutation. Where
  keys are distinct there is only one.
\<close>

lemma sorted_key_unique:
  assumes "mset ys = mset xs" and "sorted (map k ys)" and "distinct (map k xs)"
  shows "ys = sort_key k xs"
  by (rule sym, rule sort_key_inj_key_eq) (use assms in \<open>auto simp: distinct_map\<close>)

end
