(* ===== verification/Float64.thy ===== *)
theory Float64
  imports Prelude
begin

text \<open>
  Go's \<open>float64\<close>: IEEE 754 binary64 with round-to-nearest-even. A finite value is the
  rational number it denotes; every operation computes the exact rational result and rounds
  it once (\<open>pack\<close>), as the language requires of \<open>+ - * /\<close> and \<open>math.Sqrt\<close>. The two signed
  zeros are one value here: Go tells them apart only in a division by zero, and every
  divisor of the program is positive or tested before. The lemmas give what the forecast
  relies on: rounding is monotone, keeps signs, and is exact on the representable numbers.
\<close>

section \<open>Powers of two\<close>

definition exp2r :: "int \<Rightarrow> rat" where
  "exp2r k = (if 0 \<le> k then 2 ^ nat k else 1 / 2 ^ nat (- k))"

lemma exp2r_powi: "exp2r k = power_int 2 k"
  by (cases "0 \<le> k") (simp_all add: exp2r_def power_int_def power_one_over inverse_eq_divide)

lemma exp2r_pos [simp]: "0 < exp2r k"
  by (simp add: exp2r_def)

lemma exp2r_nonneg [simp]: "0 \<le> exp2r k" and exp2r_neq0 [simp]: "exp2r k \<noteq> 0"
  using exp2r_pos[of k] by (simp_all add: less_imp_le less_imp_neq[symmetric] del: exp2r_pos)

lemma exp2r_add: "exp2r (a + b) = exp2r a * exp2r b"
  by (simp add: exp2r_powi power_int_add)

lemma exp2r_diff: "exp2r (a - b) = exp2r a / exp2r b"
  by (simp add: exp2r_powi power_int_diff)

lemma exp2r_Suc: "exp2r (a + 1) = 2 * exp2r a"
  by (simp add: exp2r_powi power_int_add)

lemma exp2r_mono: "a \<le> b \<Longrightarrow> exp2r a \<le> exp2r b"
  by (simp add: exp2r_powi power_int_increasing)

lemma exp2r_strict: "a < b \<Longrightarrow> exp2r a < exp2r b"
  by (simp add: exp2r_powi power_int_strict_increasing)

lemma exp2r_less_iff: "exp2r a < exp2r b \<longleftrightarrow> a < b"
  by (meson exp2r_mono exp2r_strict leD linorder_not_le)

lemma exp2r_0 [simp]: "exp2r 0 = 1"
  by (simp add: exp2r_def)

lemma exp2r_of_nat: "exp2r (int n) = of_int (2 ^ n)"
  by (simp add: exp2r_def)

text \<open>\<open>ilog2 r\<close> is the exponent of the leading binary digit of \<open>r > 0\<close>.\<close>

definition ilog2 :: "rat \<Rightarrow> int" where
  "ilog2 r = (if 1 \<le> r then bitlen \<lfloor>r\<rfloor> - 1 else - bitlen (\<lceil>1 / r\<rceil> - 1))"

lemma bitlen_exp2r:
  assumes "0 < p"
  shows "exp2r (bitlen p - 1) \<le> of_int p" and "of_int p + 1 \<le> exp2r (bitlen p)"
proof -
  have b: "0 < bitlen p"
    using assms by (metis bitlen_eq_zero_iff bitlen_nonneg order_le_less linorder_not_le)
  have lo: "2 ^ nat (bitlen p - 1) \<le> p" and hi: "p + 1 \<le> 2 ^ nat (bitlen p)"
    using bitlen_bounds[OF assms] by auto
  have "of_int (2 ^ nat (bitlen p - 1)) \<le> (of_int p :: rat)"
    using lo by (simp only: of_int_le_iff)
  moreover have "exp2r (bitlen p - 1) = of_int (2 ^ nat (bitlen p - 1))"
    using b by (simp only: exp2r_def of_int_power of_int_numeral if_True) auto
  ultimately show "exp2r (bitlen p - 1) \<le> of_int p" by (simp only:)
  have "of_int (p + 1) \<le> (of_int (2 ^ nat (bitlen p)) :: rat)"
    using hi by (simp only: of_int_le_iff)
  moreover have "exp2r (bitlen p) = of_int (2 ^ nat (bitlen p))"
    using b by (simp only: exp2r_def of_int_power of_int_numeral if_True) auto
  ultimately show "of_int p + 1 \<le> exp2r (bitlen p)" by (simp only: of_int_add of_int_1)
qed

lemma exp2r_minus: "exp2r (- k) = 1 / exp2r k"
  using exp2r_diff[of 0 k] by simp

lemma ilog2_bounds:
  assumes "0 < r"
  shows "exp2r (ilog2 r) \<le> r" and "r < exp2r (ilog2 r + 1)"
proof -
  have "exp2r (ilog2 r) \<le> r \<and> r < exp2r (ilog2 r + 1)"
  proof (cases "1 \<le> r")
    case True
    then have "0 < \<lfloor>r\<rfloor>" by linarith
    from bitlen_exp2r[OF this] show ?thesis
      using True floor_correct[of r] by (simp add: ilog2_def) linarith
  next
    case False
    define c where "c = \<lceil>1 / r\<rceil> - 1"
    have gt: "1 < 1 / r" using assms False by (simp add: less_divide_eq)
    have c: "of_int c < 1 / r" "1 / r \<le> of_int c + 1"
      using ceiling_correct[of "1 / r"] by (simp_all add: c_def)
    then have pos: "0 < c" using gt by linarith
    have il: "ilog2 r = - bitlen c" using False by (simp add: ilog2_def c_def)
    have "1 / r \<le> exp2r (bitlen c)" using bitlen_exp2r(2)[OF pos] c by linarith
    then have 1: "1 / exp2r (bitlen c) \<le> r" using assms by (simp add: field_simps)
    have "exp2r (bitlen c - 1) < 1 / r" using bitlen_exp2r(1)[OF pos] c by linarith
    then have "r < 1 / exp2r (bitlen c - 1)" using assms by (simp add: field_simps)
    also have "\<dots> = exp2r (- (bitlen c - 1))" by (simp only: exp2r_minus)
    finally have 2: "r < exp2r (ilog2 r + 1)" by (simp add: il add.commute)
    show ?thesis using 1 2 by (simp add: il exp2r_minus)
  qed
  then show "exp2r (ilog2 r) \<le> r" and "r < exp2r (ilog2 r + 1)" by auto
qed

lemma ilog2_mono:
  assumes "0 < r" and "r \<le> s"
  shows "ilog2 r \<le> ilog2 s"
proof -
  have "exp2r (ilog2 r) < exp2r (ilog2 s + 1)"
    using ilog2_bounds(1)[of r] ilog2_bounds(2)[of s] assms by linarith
  then show ?thesis by (simp add: exp2r_less_iff)
qed

lemma ilog2_less: "0 < r \<Longrightarrow> r < exp2r k \<Longrightarrow> ilog2 r < k"
  using ilog2_bounds(1)[of r] exp2r_less_iff by (metis order_le_less_trans)

section \<open>Rounding\<close>

text \<open>To the nearest integer, ties to even.\<close>

definition rne :: "rat \<Rightarrow> int" where
  "rne x = (let f = \<lfloor>x\<rfloor>; d = x - of_int f
     in if d < 1 / 2 then f else if 1 / 2 < d then f + 1 else if even f then f else f + 1)"

lemma rne_of_int [simp]: "rne (of_int n) = n"
  by (simp add: rne_def)

lemma rne_0 [simp]: "rne 0 = 0"
  using rne_of_int[of 0] by simp

lemma rne_bounds: "x - 1 / 2 \<le> of_int (rne x)" and "of_int (rne x) \<le> x + 1 / 2"
  unfolding rne_def Let_def by (auto simp: algebra_simps) linarith+

lemma rne_mono:
  assumes "x \<le> y"
  shows "rne x \<le> rne y"
proof -
  have "\<lfloor>x\<rfloor> \<le> \<lfloor>y\<rfloor>" using assms by (rule floor_mono)
  then consider "\<lfloor>x\<rfloor> = \<lfloor>y\<rfloor>" | "\<lfloor>x\<rfloor> + 1 \<le> \<lfloor>y\<rfloor>" by linarith
  then show ?thesis
  proof cases
    case 1
    with assms show ?thesis by (auto simp: rne_def Let_def)
  next
    case 2
    have "rne x \<le> \<lfloor>x\<rfloor> + 1" "\<lfloor>y\<rfloor> \<le> rne y" by (auto simp: rne_def Let_def)
    with 2 show ?thesis by linarith
  qed
qed

lemma rne_le_int: "x \<le> of_int n \<Longrightarrow> rne x \<le> n" and rne_ge_int: "of_int n \<le> x \<Longrightarrow> n \<le> rne x"
  using rne_mono[of x "of_int n"] rne_mono[of "of_int n" x] by simp_all

lemma rne_minus: "rne (- x) = - rne x"
proof (cases "x \<in> \<int>")
  case True
  then obtain n where "x = of_int n" by (auto elim: Ints_cases)
  then show ?thesis by (metis of_int_minus rne_of_int)
next
  case False
  have "of_int \<lfloor>x\<rfloor> \<noteq> x" using False by (metis Ints_of_int)
  then have "of_int \<lfloor>x\<rfloor> < x" using of_int_floor_le[of x] by linarith
  then have lt: "- x < of_int (- \<lfloor>x\<rfloor> - 1) + 1" by simp
  have "of_int (- \<lfloor>x\<rfloor> - 1) \<le> - x" using floor_correct[of x] by simp
  with lt have f: "\<lfloor>- x\<rfloor> = - \<lfloor>x\<rfloor> - 1" by (intro floor_unique)
  show ?thesis by (auto simp: rne_def Let_def f)
qed

text \<open>To a multiple of the unit in the last place of a 53-bit significand (or of \<open>2^-1074\<close>).\<close>

definition ulp_exp :: "rat \<Rightarrow> int" where
  "ulp_exp r = max (ilog2 r - 52) (- 1074)"

definition rnd :: "rat \<Rightarrow> rat" where
  "rnd r = (if r = 0 then 0 else
     let u = exp2r (ulp_exp \<bar>r\<bar>) in of_int (rne (r / u)) * u)"

lemma rnd_0 [simp]: "rnd 0 = 0"
  by (simp add: rnd_def)

lemma rnd_minus: "rnd (- r) = - rnd r"
  by (simp add: rnd_def Let_def rne_minus flip: minus_divide_left)


lemma exp2r_multiple: "a \<le> b \<Longrightarrow> exp2r b = of_int (2 ^ nat (b - a)) * exp2r a"
  using exp2r_add[of "b - a" a] exp2r_of_nat[of "nat (b - a)"] by simp

lemma ulp_exp_mono: "0 < r \<Longrightarrow> r \<le> s \<Longrightarrow> ulp_exp r \<le> ulp_exp s"
  using ilog2_mono[of r s] by (simp add: ulp_exp_def)

lemma rnd_pos_eq: "0 < r \<Longrightarrow> rnd r = of_int (rne (r / exp2r (ulp_exp r))) * exp2r (ulp_exp r)"
  by (simp add: rnd_def Let_def)

lemma rnd_le_grid:
  assumes "0 < r" and "r \<le> of_int n * exp2r (ulp_exp r)"
  shows "rnd r \<le> of_int n * exp2r (ulp_exp r)"
proof -
  have "r / exp2r (ulp_exp r) \<le> of_int n" using assms(2) by (simp add: pos_divide_le_eq)
  then have "rne (r / exp2r (ulp_exp r)) \<le> n" by (rule rne_le_int)
  then show ?thesis using assms(1) by (simp add: rnd_pos_eq mult_right_mono)
qed

lemma rnd_ge_grid:
  assumes "0 < r" and "of_int n * exp2r (ulp_exp r) \<le> r"
  shows "of_int n * exp2r (ulp_exp r) \<le> rnd r"
proof -
  have "of_int n \<le> r / exp2r (ulp_exp r)" using assms(2) by (simp add: pos_le_divide_eq)
  then have "n \<le> rne (r / exp2r (ulp_exp r))" by (rule rne_ge_int)
  then show ?thesis using assms(1) by (simp add: rnd_pos_eq mult_right_mono)
qed

lemma rnd_mono_pos:
  assumes "0 < x" and "x \<le> y"
  shows "rnd x \<le> rnd y"
proof -
  have y: "0 < y" using assms by simp
  have le: "ulp_exp x \<le> ulp_exp y" using assms by (rule ulp_exp_mono)
  show ?thesis
  proof (cases "ulp_exp x = ulp_exp y")
    case True
    have "rne (x / exp2r (ulp_exp x)) \<le> rne (y / exp2r (ulp_exp x))"
      using assms(2) by (intro rne_mono divide_right_mono) simp_all
    then show ?thesis using True assms y by (simp add: rnd_pos_eq mult_right_mono)
  next
    case False
    then have ey: "ulp_exp y = ilog2 y - 52" and lt: "ilog2 x < ilog2 y"
      using le by (auto simp: ulp_exp_def)
    have b1: "exp2r (ilog2 y) = of_int (2 ^ nat (ilog2 y - ulp_exp x)) * exp2r (ulp_exp x)"
      using le ey by (intro exp2r_multiple) linarith
    have b2: "exp2r (ilog2 y) = of_int (2 ^ nat (ilog2 y - ulp_exp y)) * exp2r (ulp_exp y)"
      using ey by (intro exp2r_multiple) linarith
    have "x \<le> exp2r (ilog2 y)"
      using ilog2_bounds(2)[OF assms(1)] exp2r_mono[of "ilog2 x + 1" "ilog2 y"] lt by linarith
    then have "rnd x \<le> exp2r (ilog2 y)" unfolding b1 by (intro rnd_le_grid assms(1)) simp
    also have "exp2r (ilog2 y) \<le> rnd y"
      unfolding b2 by (intro rnd_ge_grid y) (use ilog2_bounds(1)[OF y] b2 in simp)
    finally show ?thesis .
  qed
qed

lemma rnd_nonneg: "0 \<le> r \<Longrightarrow> 0 \<le> rnd r"
  using rnd_ge_grid[of r 0] by (cases "r = 0") simp_all

lemma rnd_nonpos: "r \<le> 0 \<Longrightarrow> rnd r \<le> 0"
  using rnd_nonneg[of "- r"] by (simp add: rnd_minus)

theorem rnd_mono:
  assumes "x \<le> y"
  shows "rnd x \<le> rnd y"
proof -
  consider "0 < x" | "x \<le> 0" "0 \<le> y" | "y < 0" using assms by linarith
  then show ?thesis
  proof cases
    case 1
    then show ?thesis using assms by (rule rnd_mono_pos)
  next
    case 2
    then show ?thesis using rnd_nonneg[of y] rnd_nonpos[of x] by linarith
  next
    case 3
    then show ?thesis using rnd_mono_pos[of "- y" "- x"] assms by (simp add: rnd_minus)
  qed
qed

text \<open>The numbers with a 53-bit significand are fixed points.\<close>

lemma rnd_exact_pos:
  assumes "0 < m" and "m \<le> 2 ^ 53" and "- 1074 \<le> e" and v: "v = of_int m * exp2r e"
  shows "rnd v = v"
proof -
  have pos: "0 < v" using assms by simp
  have "\<exists>n. v = of_int n * exp2r (ulp_exp v)"
  proof (cases "m = 2 ^ 53")
    case True
    have v': "v = exp2r (e + 53)"
      using exp2r_multiple[of e "e + 53"] by (simp add: v True)
    have "ulp_exp v \<le> e + 53"
      using ilog2_less[OF pos, of "e + 54"] exp2r_strict[of "e + 53" "e + 54"] assms(3)
      by (simp add: v' ulp_exp_def)
    then show ?thesis using exp2r_multiple v' by blast
  next
    case False
    have "of_int m < (of_int (2 ^ 53) :: rat)" using False assms(2) by (simp only: of_int_less_iff)
    then have "v < of_int (2 ^ 53) * exp2r e" unfolding v by (intro mult_strict_right_mono) auto
    also have "\<dots> = exp2r (e + 53)" using exp2r_multiple[of e "e + 53"] by simp
    finally have "ilog2 v < e + 53" by (rule ilog2_less[OF pos])
    then have "ulp_exp v \<le> e" using assms(3) by (simp add: ulp_exp_def)
    then have "exp2r e = of_int (2 ^ nat (e - ulp_exp v)) * exp2r (ulp_exp v)"
      by (rule exp2r_multiple)
    with v have "v = of_int (m * 2 ^ nat (e - ulp_exp v)) * exp2r (ulp_exp v)"
      by (simp only: of_int_mult mult.assoc)
    then show ?thesis by blast
  qed
  then obtain n where n: "v = of_int n * exp2r (ulp_exp v)" by blast
  then have "v / exp2r (ulp_exp v) = of_int n" by (metis exp2r_neq0 nonzero_mult_div_cancel_right)
  then show ?thesis using pos n by (simp add: rnd_pos_eq)
qed

lemma rnd_exact:
  assumes "\<bar>m\<bar> \<le> 2 ^ 53" and "- 1074 \<le> e"
  shows "rnd (of_int m * exp2r e) = of_int m * exp2r e"
proof -
  consider "0 < m" | "m = 0" | "0 < - m" by linarith
  then show ?thesis
  proof cases
    case 1
    then show ?thesis using rnd_exact_pos[of m e] assms by simp
  next
    case 3
    then have "rnd (of_int (- m) * exp2r e) = of_int (- m) * exp2r e"
      using assms by (intro rnd_exact_pos) auto
    then show ?thesis using rnd_minus[of "of_int m * exp2r e"] by simp
  qed simp
qed

lemma rnd_of_int: "\<bar>n\<bar> \<le> 2 ^ 53 \<Longrightarrow> rnd (of_int n) = of_int n"
  using rnd_exact[of n 0] by simp

lemma rnd_exp2r: "- 1074 \<le> e \<Longrightarrow> rnd (exp2r e) = exp2r e"
  using rnd_exact[of 1 e] by simp

lemma rnd_form_pos:
  assumes "0 < r"
  obtains n e where "rnd r = of_int n * exp2r e" and "0 \<le> n" and "n \<le> 2 ^ 53" and "- 1074 \<le> e"
proof
  let ?e = "ulp_exp r" and ?n = "rne (r / exp2r (ulp_exp r))"
  show "rnd r = of_int ?n * exp2r ?e" using assms by (rule rnd_pos_eq)
  show "- 1074 \<le> ?e" by (simp add: ulp_exp_def)
  show "0 \<le> ?n" using rne_ge_int[of 0] assms by simp
  have "ilog2 r + 1 \<le> ?e + 53" by (simp add: ulp_exp_def)
  then have "r < exp2r (?e + 53)"
    using ilog2_bounds(2)[OF assms] exp2r_mono by (meson order_less_le_trans)
  also have "\<dots> = of_int (2 ^ 53) * exp2r ?e" using exp2r_multiple[of ?e "?e + 53"] by simp
  finally have "r / exp2r ?e \<le> of_int (2 ^ 53)" by (simp add: pos_divide_le_eq)
  then show "?n \<le> 2 ^ 53" by (rule rne_le_int)
qed

theorem rnd_idem [simp]: "rnd (rnd r) = rnd r"
proof -
  have *: "rnd (rnd x) = rnd x" if "0 < x" for x
  proof -
    obtain n e where "rnd x = of_int n * exp2r e" "0 \<le> n" "n \<le> 2 ^ 53" "- 1074 \<le> e"
      using rnd_form_pos[OF \<open>0 < x\<close>] .
    then show ?thesis using rnd_exact[of n e] by simp
  qed
  consider "0 < r" | "r = 0" | "0 < - r" by linarith
  then show ?thesis
  proof cases
    case 3
    then show ?thesis using *[of "- r"] by (simp add: rnd_minus)
  qed (simp_all add: *)
qed

lemma rnd_le: "x \<le> b \<Longrightarrow> rnd b = b \<Longrightarrow> rnd x \<le> b"
  using rnd_mono[of x b] by simp

lemma rnd_ge: "b \<le> x \<Longrightarrow> rnd b = b \<Longrightarrow> b \<le> rnd x"
  using rnd_mono[of b x] by simp

section \<open>Values and operations\<close>

datatype f64 = NaN | PInf | NInf | Fin rat

definition pack :: "rat \<Rightarrow> f64" where
  "pack r = (let v = rnd r in
     if 2 ^ 1024 \<le> v then PInf else if v \<le> - (2 ^ 1024) then NInf else Fin v)"

definition is_double :: "rat \<Rightarrow> bool" where
  "is_double v \<longleftrightarrow> rnd v = v \<and> \<bar>v\<bar> < 2 ^ 1024"

fun f64_wf :: "f64 \<Rightarrow> bool" where
  "f64_wf (Fin v) = is_double v"
| "f64_wf _ = True"

lemma pack_double [simp]: "is_double v \<Longrightarrow> pack v = Fin v"
  by (auto simp: pack_def is_double_def Let_def)

lemma pack_wf [simp]: "f64_wf (pack r)"
  by (auto simp: pack_def is_double_def Let_def)

fun fneg :: "f64 \<Rightarrow> f64" where
  "fneg NaN = NaN" | "fneg PInf = NInf" | "fneg NInf = PInf" | "fneg (Fin a) = Fin (- a)"

fun fadd :: "f64 \<Rightarrow> f64 \<Rightarrow> f64" where
  "fadd (Fin a) (Fin b) = pack (a + b)"
| "fadd NaN _ = NaN" | "fadd _ NaN = NaN"
| "fadd PInf NInf = NaN" | "fadd NInf PInf = NaN"
| "fadd PInf _ = PInf" | "fadd _ PInf = PInf"
| "fadd NInf _ = NInf" | "fadd _ NInf = NInf"

definition fsub :: "f64 \<Rightarrow> f64 \<Rightarrow> f64" where
  "fsub a b = fadd a (fneg b)"

definition inf_of_sign :: "rat \<Rightarrow> f64" where
  "inf_of_sign s = (if s = 0 then NaN else if 0 < s then PInf else NInf)"

fun fsgn :: "f64 \<Rightarrow> rat" where
  "fsgn NaN = 0" | "fsgn PInf = 1" | "fsgn NInf = - 1" | "fsgn (Fin a) = sgn a"

fun fmul :: "f64 \<Rightarrow> f64 \<Rightarrow> f64" where
  "fmul (Fin a) (Fin b) = pack (a * b)"
| "fmul NaN _ = NaN" | "fmul _ NaN = NaN"
| "fmul a b = inf_of_sign (fsgn a * fsgn b)"

fun fdiv :: "f64 \<Rightarrow> f64 \<Rightarrow> f64" where
  "fdiv (Fin a) (Fin b) = (if b = 0 then inf_of_sign a else pack (a / b))"
| "fdiv NaN _ = NaN" | "fdiv _ NaN = NaN"
| "fdiv (Fin a) _ = Fin 0"
| "fdiv a (Fin b) = inf_of_sign (fsgn a * (if b < 0 then - 1 else 1))"
| "fdiv _ _ = NaN"

fun fabs :: "f64 \<Rightarrow> f64" where
  "fabs NaN = NaN" | "fabs PInf = PInf" | "fabs NInf = PInf" | "fabs (Fin a) = Fin \<bar>a\<bar>"

fun flt :: "f64 \<Rightarrow> f64 \<Rightarrow> bool" where
  "flt (Fin a) (Fin b) \<longleftrightarrow> a < b"
| "flt NaN _ \<longleftrightarrow> False" | "flt _ NaN \<longleftrightarrow> False"
| "flt NInf b \<longleftrightarrow> b \<noteq> NInf" | "flt _ NInf \<longleftrightarrow> False"
| "flt a PInf \<longleftrightarrow> a \<noteq> PInf" | "flt PInf _ \<longleftrightarrow> False"

fun feq :: "f64 \<Rightarrow> f64 \<Rightarrow> bool" where
  "feq NaN _ \<longleftrightarrow> False" | "feq a b \<longleftrightarrow> a = b"

definition fle :: "f64 \<Rightarrow> f64 \<Rightarrow> bool" where
  "fle a b \<longleftrightarrow> flt a b \<or> feq a b"

fun is_finite :: "f64 \<Rightarrow> bool" where
  "is_finite (Fin _) = True" | "is_finite _ = False"

lemma fle_Fin [simp]: "fle (Fin a) (Fin b) \<longleftrightarrow> a \<le> b"
  by (auto simp: fle_def)

lemma fsub_Fin [simp]: "fsub (Fin a) (Fin b) = pack (a - b)"
  by (simp add: fsub_def)

text \<open>\<open>float64(n)\<close> of an integer, \<open>math.Floor\<close>, \<open>math.Ceil\<close> and \<open>int(x)\<close>. The conversion of
  a float that is no int64 gives \<open>-2^63\<close> (the amd64 instruction; the language leaves it open).\<close>

definition f64_of_int :: "int \<Rightarrow> f64" where
  "f64_of_int n = pack (of_int n)"

fun ffloor :: "f64 \<Rightarrow> f64" where
  "ffloor (Fin a) = Fin (of_int \<lfloor>a\<rfloor>)" | "ffloor a = a"

fun fceil :: "f64 \<Rightarrow> f64" where
  "fceil (Fin a) = Fin (of_int \<lceil>a\<rceil>)" | "fceil a = a"

definition rat_trunc :: "rat \<Rightarrow> int" where
  "rat_trunc a = (if 0 \<le> a then \<lfloor>a\<rfloor> else \<lceil>a\<rceil>)"

fun int_of_f64 :: "f64 \<Rightarrow> int" where
  "int_of_f64 (Fin a) = (let t = rat_trunc a in if - (2 ^ 63) \<le> t \<and> t < 2 ^ 63 then t else - (2 ^ 63))"
| "int_of_f64 _ = - (2 ^ 63)"

lemma two53_lt: "(2::rat) ^ 53 < 2 ^ 1024"
  by (rule power_strict_increasing) simp_all

lemma f64_of_int_exact:
  assumes "\<bar>n\<bar> \<le> 2 ^ 53"
  shows "f64_of_int n = Fin (of_int n)"
proof -
  have "\<bar>of_int n :: rat\<bar> \<le> of_int (2 ^ 53)"
    using assms by (simp only: of_int_abs[symmetric] of_int_le_iff)
  then have "\<bar>of_int n :: rat\<bar> < 2 ^ 1024" using two53_lt by simp
  then show ?thesis using assms by (simp add: f64_of_int_def is_double_def rnd_of_int)
qed

text \<open>Bounds by a representable number survive an operation and exclude overflow.\<close>

lemma pack_bounded:
  assumes "\<bar>r\<bar> \<le> b" and "is_double b"
  shows "pack r = Fin (rnd r)" and "\<bar>rnd r\<bar> \<le> b"
proof -
  have b: "rnd b = b" "b < 2 ^ 1024" using assms(2) by (auto simp: is_double_def)
  have 1: "rnd r \<le> b" using assms(1) b by (intro rnd_le) auto
  have "rnd (- r) \<le> b" using assms(1) b by (intro rnd_le) auto
  then have 2: "- b \<le> rnd r" by (simp add: rnd_minus)
  show "\<bar>rnd r\<bar> \<le> b" using 1 2 by linarith
  show "pack r = Fin (rnd r)" using 1 2 b(2) by (auto simp: pack_def Let_def)
qed

lemma is_double_exp2r: "- 1074 \<le> e \<Longrightarrow> e < 1024 \<Longrightarrow> is_double (exp2r e)"
  using exp2r_strict[of e 1024] by (simp add: is_double_def rnd_exp2r exp2r_def[of 1024])

lemma is_double_0 [simp]: "is_double 0" and is_double_1 [simp]: "is_double 1"
  using is_double_exp2r[of 0] by (simp_all add: is_double_def)

section \<open>Square root\<close>

function isqrt :: "int \<Rightarrow> int" where
  "isqrt n = (if n \<le> 0 then 0 else
     let r = 2 * isqrt (n div 4) in if (r + 1) * (r + 1) \<le> n then r + 1 else r)"
  by pat_completeness auto
termination
  by (relation "measure nat") auto

declare isqrt.simps [simp del]

lemma isqrt_bounds:
  "0 \<le> n \<Longrightarrow> 0 \<le> isqrt n \<and> isqrt n * isqrt n \<le> n \<and> n < (isqrt n + 1) * (isqrt n + 1)"
proof (induction n rule: isqrt.induct)
  case (1 n)
  show ?case
  proof (cases "n = 0")
    case True
    then show ?thesis by (simp add: isqrt.simps[of 0])
  next
    case False
    define q where "q = isqrt (n div 4)"
    have q: "0 \<le> q" "q * q \<le> n div 4" "n div 4 < (q + 1) * (q + 1)"
      using 1 False by (simp_all add: q_def)
    have lo: "2 * q * (2 * q) \<le> n" using q(2) by linarith
    have "n < 4 * ((q + 1) * (q + 1))" using q(3) by linarith
    then have hi: "n < (2 * q + 2) * (2 * q + 2)" by (simp add: algebra_simps)
    have eq: "isqrt n = (if (2 * q + 1) * (2 * q + 1) \<le> n then 2 * q + 1 else 2 * q)"
      using False 1 by (simp add: isqrt.simps[of n] Let_def flip: q_def)
    show ?thesis
    proof (cases "(2 * q + 1) * (2 * q + 1) \<le> n")
      case True
      have "2 * q + 1 + 1 = 2 * q + 2" by simp
      with True hi q(1) show ?thesis unfolding eq by (simp only: if_True) simp
    next
      case False
      with lo q(1) show ?thesis unfolding eq by (simp only: if_False not_le) simp
    qed
  qed
qed

definition sqrt_rnd :: "rat \<Rightarrow> rat" where
  "sqrt_rnd x = (let u = exp2r (ilog2 x div 2 - 52);
       n = isqrt \<lfloor>x / (u * u)\<rfloor>;
       h = (of_int n + 1 / 2) * u
     in if h * h < x \<or> (h * h = x \<and> odd n) then of_int (n + 1) * u else of_int n * u)"

fun fsqrt :: "f64 \<Rightarrow> f64" where
  "fsqrt NaN = NaN" | "fsqrt PInf = PInf" | "fsqrt NInf = NaN"
| "fsqrt (Fin x) = (if x < 0 then NaN else if x = 0 then Fin 0 else Fin (sqrt_rnd x))"

lemma sqrt_rnd_nonneg:
  assumes "0 < x"
  shows "0 \<le> sqrt_rnd x"
proof -
  have "0 \<le> isqrt \<lfloor>x / (u * u)\<rfloor>" for u :: rat
    using assms isqrt_bounds[of "\<lfloor>x / (u * u)\<rfloor>"] by simp
  then show ?thesis by (auto simp: sqrt_rnd_def Let_def)
qed


section \<open>Evaluation by the simplifier\<close>

text \<open>The rules that let \<open>simp\<close> compute a rounded operation on numerals.\<close>

lemma floor_numeral_rat:
  "\<lfloor>numeral a / numeral b :: rat\<rfloor> = numeral a div numeral b"
  "\<lfloor>1 / numeral b :: rat\<rfloor> = 1 div numeral b"
  "\<lfloor>- (numeral a / numeral b) :: rat\<rfloor> = - numeral a div numeral b"
  "\<lfloor>- (1 / numeral b) :: rat\<rfloor> = - 1 div numeral b"
  using floor_divide_of_int_eq[of "numeral a" "numeral b", where ?'a = rat]
    floor_divide_of_int_eq[of 1 "numeral b", where ?'a = rat]
    floor_divide_of_int_eq[of "- numeral a" "numeral b", where ?'a = rat]
    floor_divide_of_int_eq[of "- 1" "numeral b", where ?'a = rat]
  by simp_all

lemma ceiling_numeral_rat:
  "\<lceil>numeral a / numeral b :: rat\<rceil> = - (- numeral a div numeral b)"
  "\<lceil>1 / numeral b :: rat\<rceil> = - (- 1 div numeral b)"
  "\<lceil>- (numeral a / numeral b) :: rat\<rceil> = - (numeral a div numeral b)"
  "\<lceil>- (1 / numeral b) :: rat\<rceil> = - (1 div numeral b)"
  by (simp_all add: ceiling_def floor_numeral_rat del: minus_divide_left)

lemma bitlen_step: "0 < n \<Longrightarrow> bitlen n = bitlen (n div 2) + 1"
  using compute_bitlen[of n] by simp

lemmas f64_eval = pack_def rnd_def ulp_exp_def ilog2_def bitlen_step rne_def exp2r_def
  floor_numeral_rat ceiling_numeral_rat Let_def

lemma pack_tenth: "pack (1 / 10) = Fin (3602879701896397 / 36028797018963968)"
  by (simp add: f64_eval)

end
