(* ===== verification/Decimal.thy ===== *)
theory Decimal
  imports Float64
begin

text \<open>
  The interface of \<open>github.com/shopspring/decimal\<close>, which is not part of the repository: a
  record of the functions that \<open>internal/platform/qty\<close> and the database driver call, over an
  arbitrary type \<open>'d\<close>. Every definition that computes with quantities takes this record as
  an argument. The locale \<open>decimal_api\<close> states the documented behaviour the program relies
  on, through the rational number a decimal denotes (\<open>Decimal.Rat\<close>); \<open>decimal_text\<close> adds what
  is documented of the textual form. Panics are values: \<open>None\<close>. \<open>Dec\<close> at the end is a
  coefficient-and-exponent implementation with which the witnesses instantiate the interface.
\<close>

section \<open>The interface\<close>

record 'd decimal_lib =
  dZero :: 'd
  dNewFromInt :: "int \<Rightarrow> 'd"
  dAdd :: "'d \<Rightarrow> 'd \<Rightarrow> 'd"
  dSub :: "'d \<Rightarrow> 'd \<Rightarrow> 'd"
  dMul :: "'d \<Rightarrow> 'd \<Rightarrow> 'd"
  dDiv :: "'d \<Rightarrow> 'd \<Rightarrow> 'd option"
  dNeg :: "'d \<Rightarrow> 'd"
  dAbs :: "'d \<Rightarrow> 'd"
  dCeil :: "'d \<Rightarrow> 'd"
  dRound :: "'d \<Rightarrow> int \<Rightarrow> 'd"
  dIsZero :: "'d \<Rightarrow> bool"
  dIsNegative :: "'d \<Rightarrow> bool"
  dIsPositive :: "'d \<Rightarrow> bool"
  dEqual :: "'d \<Rightarrow> 'd \<Rightarrow> bool"
  dLessThan :: "'d \<Rightarrow> 'd \<Rightarrow> bool"
  dGreaterThan :: "'d \<Rightarrow> 'd \<Rightarrow> bool"
  dNewFromFloat :: "f64 \<Rightarrow> 'd option"
  dFloat64 :: "'d \<Rightarrow> f64"
  dExponent :: "'d \<Rightarrow> int"
  dNewFromString :: "string \<Rightarrow> 'd option"
  dString :: "'d \<Rightarrow> string"
  dStringFixed :: "'d \<Rightarrow> int \<Rightarrow> string"
  dRat :: "'d \<Rightarrow> rat"
  dOfNumeric :: "rat \<Rightarrow> 'd"

text \<open>Rounding half away from zero, to an integer and to \<open>p\<close> decimal places.\<close>

definition rha :: "rat \<Rightarrow> int" where
  "rha x = (if 0 \<le> x then \<lfloor>x + 1 / 2\<rfloor> else - \<lfloor>1 / 2 - x\<rfloor>)"

definition pow10 :: "int \<Rightarrow> rat" where
  "pow10 p = (if 0 \<le> p then 10 ^ nat p else 1 / 10 ^ nat (- p))"

definition round_places :: "int \<Rightarrow> rat \<Rightarrow> rat" where
  "round_places p x = of_int (rha (x * pow10 p)) / pow10 p"

text \<open>A number with at most \<open>n\<close> digits after the point.\<close>

definition has_scale :: "nat \<Rightarrow> rat \<Rightarrow> bool" where
  "has_scale n r \<longleftrightarrow> of_int \<lfloor>r * 10 ^ n\<rfloor> = r * 10 ^ n"

abbreviation scale3 :: "rat \<Rightarrow> bool" where
  "scale3 \<equiv> has_scale 3"

text \<open>
  The laws, in the order of the package's documentation. \<open>Div\<close> rounds to
  \<open>DivisionPrecision = 16\<close> places and panics on a zero divisor; \<open>NewFromFloat\<close> panics on NaN
  and the infinities and otherwise yields a decimal that reads back as the same float;
  \<open>Float64\<close> is the nearest float. \<open>dOfNumeric\<close> is the driver's decoding of a \<open>numeric\<close>
  column of scale 3 (or 2).
\<close>

locale decimal_api =
  fixes D :: "'d decimal_lib"
  assumes rat_zero: "dRat D (dZero D) = 0"
    and rat_of_int: "dRat D (dNewFromInt D n) = of_int n"
    and rat_add: "dRat D (dAdd D a b) = dRat D a + dRat D b"
    and rat_sub: "dRat D (dSub D a b) = dRat D a - dRat D b"
    and rat_mul: "dRat D (dMul D a b) = dRat D a * dRat D b"
    and rat_neg: "dRat D (dNeg D a) = - dRat D a"
    and rat_abs: "dRat D (dAbs D a) = \<bar>dRat D a\<bar>"
    and rat_ceil: "dRat D (dCeil D a) = of_int \<lceil>dRat D a\<rceil>"
    and rat_round: "0 \<le> p \<Longrightarrow> dRat D (dRound D a p) = round_places p (dRat D a)"
    and rat_div: "dRat D b \<noteq> 0 \<Longrightarrow>
      \<exists>c. dDiv D a b = Some c \<and> dRat D c = round_places 16 (dRat D a / dRat D b)"
    and div_panics: "dRat D b = 0 \<Longrightarrow> dDiv D a b = None"
    and is_zero: "dIsZero D a \<longleftrightarrow> dRat D a = 0"
    and is_negative: "dIsNegative D a \<longleftrightarrow> dRat D a < 0"
    and is_positive: "dIsPositive D a \<longleftrightarrow> 0 < dRat D a"
    and equal_iff: "dEqual D a b \<longleftrightarrow> dRat D a = dRat D b"
    and less_iff: "dLessThan D a b \<longleftrightarrow> dRat D a < dRat D b"
    and greater_iff: "dGreaterThan D a b \<longleftrightarrow> dRat D b < dRat D a"
    and of_float: "is_double v \<Longrightarrow> \<exists>a. dNewFromFloat D (Fin v) = Some a \<and> pack (dRat D a) = Fin v"
    and of_float_panics: "\<not> is_finite f \<Longrightarrow> dNewFromFloat D f = None"
    and to_float: "dFloat64 D a = pack (dRat D a)"
    and exponent: "has_scale (nat (- dExponent D a)) (dRat D a)"
    and of_numeric: "scale3 r \<Longrightarrow> dRat D (dOfNumeric D r) = r"

text \<open>Every written digit of \<open>StringFixed\<close> is read back by \<open>NewFromString\<close>.\<close>

locale decimal_text = decimal_api +
  assumes fixed_chars: "0 \<le> p \<Longrightarrow> set (dStringFixed D a p) \<subseteq> set ''-.0123456789''"
    and string_chars: "set (dString D a) \<subseteq> set ''-.0123456789''"
    and fixed_parses: "0 \<le> p \<Longrightarrow> \<exists>b. dNewFromString D (dStringFixed D a p) = Some b
      \<and> dRat D b = round_places p (dRat D a) \<and> - p \<le> dExponent D b"

section \<open>Arithmetic of rounding\<close>

lemma pow10_pos [simp]: "0 < pow10 p"
  by (simp add: pow10_def)

lemma pow10_neq0 [simp]: "pow10 p \<noteq> 0" and pow10_not_neg [simp]: "\<not> pow10 p < 0"
  using pow10_pos[of p] by linarith+

lemma abs_pow10 [simp]: "\<bar>pow10 p\<bar> = pow10 p"
  by (simp add: less_imp_le)

lemma pow10_powi: "pow10 p = power_int 10 p"
  by (cases "0 \<le> p") (simp_all add: pow10_def power_int_def power_one_over inverse_eq_divide)

lemma pow10_add: "pow10 (a + b) = pow10 a * pow10 b"
  by (simp add: pow10_powi power_int_add)

lemma pow10_nat: "pow10 (int n) = 10 ^ n" and pow10_3 [simp]: "pow10 3 = 1000"
  and pow10_0 [simp]: "pow10 0 = 1" and pow10_16 [simp]: "pow10 16 = 10 ^ 16"
  by (simp_all add: pow10_def)

lemma rha_of_int [simp]: "rha (of_int n) = n"
  by (auto simp: rha_def floor_unique)

lemma rha_minus: "rha (- x) = - rha x"
  by (cases "x = 0") (auto simp: rha_def add.commute floor_numeral_rat)

lemma rha_bounds: "x - 1 / 2 \<le> of_int (rha x)" "of_int (rha x) \<le> x + 1 / 2"
  by (auto simp: rha_def) linarith+

lemma rha_nonneg: "0 \<le> x \<Longrightarrow> 0 \<le> rha x"
  by (simp add: rha_def)

lemma has_scale_iff: "has_scale n r \<longleftrightarrow> (\<exists>k::int. r = of_int k / 10 ^ n)"
proof
  assume "has_scale n r"
  then have "of_int \<lfloor>r * 10 ^ n\<rfloor> / 10 ^ n = r * 10 ^ n / 10 ^ n" by (simp only: has_scale_def)
  then have "r = of_int \<lfloor>r * 10 ^ n\<rfloor> / 10 ^ n" by simp
  then show "\<exists>k::int. r = of_int k / 10 ^ n" by blast
next
  assume "\<exists>k::int. r = of_int k / 10 ^ n"
  then show "has_scale n r" by (auto simp: has_scale_def)
qed

lemma scale_0 [simp, intro]: "has_scale n 0"
  by (simp add: has_scale_def)

lemma scale_of_int [simp, intro]: "has_scale n (of_int k)"
  by (auto simp: has_scale_iff intro!: exI[of _ "k * 10 ^ n"])

lemma scale_add [intro]: "has_scale n a \<Longrightarrow> has_scale n b \<Longrightarrow> has_scale n (a + b)"
  by (auto simp: has_scale_iff intro: exI[of _ "_ + _"] simp flip: add_divide_distrib of_int_add)

lemma scale_minus [intro]: "has_scale n a \<Longrightarrow> has_scale n (- a)"
  unfolding has_scale_iff by (metis minus_divide_left of_int_minus)

lemma scale_diff [intro]: "has_scale n a \<Longrightarrow> has_scale n b \<Longrightarrow> has_scale n (a - b)"
  using scale_add[of n a "- b"] by (auto intro: scale_minus)

lemma scale_abs [intro]: "has_scale n a \<Longrightarrow> has_scale n \<bar>a\<bar>"
  by (auto simp: abs_if)

lemma scale_mult_int [intro]: "has_scale n a \<Longrightarrow> has_scale n (a * of_int k)"
  by (auto simp: has_scale_iff) (metis of_int_mult times_divide_eq_left)

lemma scale_mono: "has_scale m r \<Longrightarrow> m \<le> n \<Longrightarrow> has_scale n r"
proof (unfold has_scale_iff, elim exE)
  fix k :: int
  assume r: "r = of_int k / 10 ^ m" and "m \<le> n"
  then have "10 ^ n = (10::rat) ^ m * 10 ^ (n - m)" by (simp flip: power_add)
  then have "r = of_int (k * 10 ^ (n - m)) / 10 ^ n" by (simp add: r)
  then show "\<exists>k::int. r = of_int k / 10 ^ n" by blast
qed

lemma scale_sum_list [intro]: "(\<And>x. x \<in> set xs \<Longrightarrow> has_scale n x) \<Longrightarrow> has_scale n (sum_list xs)"
  by (induction xs) auto

lemma round_places_scale [intro]: "has_scale n (round_places (int n) x)"
  by (auto simp: round_places_def pow10_nat has_scale_iff)

lemma round_places_3_scale [simp, intro]: "scale3 (round_places 3 x)"
  using round_places_scale[of 3 x] by simp

lemma round_places_id: "has_scale n x \<Longrightarrow> round_places (int n) x = x"
  by (auto simp: has_scale_iff round_places_def pow10_nat)

lemma round_places_3_id [simp]: "scale3 x \<Longrightarrow> round_places 3 x = x"
  using round_places_id[of 3 x] by simp

lemma round_places_nonneg: "0 \<le> x \<Longrightarrow> 0 \<le> round_places p x"
  by (auto simp: round_places_def less_imp_le intro!: divide_nonneg_pos rha_nonneg mult_nonneg_nonneg)

lemma round_places_bounds:
  "x - 1 / (2 * pow10 p) \<le> round_places p x" "round_places p x \<le> x + 1 / (2 * pow10 p)"
proof -
  have eq: "x - 1 / (2 * pow10 p) = (x * pow10 p - 1 / 2) / pow10 p"
    "x + 1 / (2 * pow10 p) = (x * pow10 p + 1 / 2) / pow10 p"
    by (simp_all add: diff_divide_distrib add_divide_distrib)
  show "x - 1 / (2 * pow10 p) \<le> round_places p x" "round_places p x \<le> x + 1 / (2 * pow10 p)"
    unfolding eq round_places_def
    using rha_bounds[of "x * pow10 p"] by (intro divide_right_mono; simp add: less_imp_le)+
qed


section \<open>A coefficient-and-exponent implementation\<close>

text \<open>
  \<open>Dec c e\<close> denotes \<open>c * 10^e\<close>, the representation the package documents. It instantiates
  both locales, so the laws can hold together.
\<close>

datatype dec = Dec (coef: int) (expo: int)

definition dec_val :: "dec \<Rightarrow> rat" where
  "dec_val d = of_int (coef d) * pow10 (expo d)"

definition dec_align :: "dec \<Rightarrow> int \<Rightarrow> int" where
  "dec_align d e = coef d * 10 ^ nat (expo d - e)"

definition dec_add :: "dec \<Rightarrow> dec \<Rightarrow> dec" where
  "dec_add a b = (let e = min (expo a) (expo b) in Dec (dec_align a e + dec_align b e) e)"

definition dec_mul :: "dec \<Rightarrow> dec \<Rightarrow> dec" where
  "dec_mul a b = Dec (coef a * coef b) (expo a + expo b)"

definition dec_neg :: "dec \<Rightarrow> dec" where
  "dec_neg a = Dec (- coef a) (expo a)"

definition dec_round :: "dec \<Rightarrow> int \<Rightarrow> dec" where
  "dec_round d p = Dec (rha (dec_val d * pow10 p)) (- p)"

definition dec_div :: "dec \<Rightarrow> dec \<Rightarrow> dec option" where
  "dec_div a b = (if coef b = 0 then None
     else Some (Dec (rha (dec_val a / dec_val b * pow10 16)) (- 16)))"

fun dec_of_float :: "f64 \<Rightarrow> dec option" where
  "dec_of_float (Fin v) = Some (Dec \<lfloor>v * pow10 1074\<rfloor> (- 1074))"
| "dec_of_float _ = None"

function int_digits :: "int \<Rightarrow> string" where
  "int_digits n = (if n < 10 then [char_of (48 + nat n)]
     else int_digits (n div 10) @ [char_of (48 + nat (n mod 10))])"
  by pat_completeness auto
termination
  by (relation "measure nat") auto

declare int_digits.simps [simp del]

definition is_digit :: "char \<Rightarrow> bool" where
  "is_digit c \<longleftrightarrow> c \<in> set ''0123456789''"

definition digits_val :: "string \<Rightarrow> int" where
  "digits_val s = foldl (\<lambda>a c. a * 10 + (int (of_char c) - 48)) 0 s"

definition pad_digits :: "nat \<Rightarrow> int \<Rightarrow> string" where
  "pad_digits k n = (let s = int_digits n in replicate (k - length s) CHR ''0'' @ s)"

definition dec_string_fixed :: "dec \<Rightarrow> int \<Rightarrow> string" where
  "dec_string_fixed d p = (let n = rha (dec_val d * pow10 p);
       s = pad_digits (nat p + 1) \<bar>n\<bar>; k = length s - nat p
     in (if n < 0 then ''-'' else []) @ take k s @ (if p = 0 then [] else ''.'' @ drop k s))"

definition dec_string :: "dec \<Rightarrow> string" where
  "dec_string d = (let s = dec_string_fixed d (max 0 (- expo d))
     in if CHR ''.'' \<in> set s
        then rev (dropWhile (\<lambda>c. c = CHR ''.'') (dropWhile (\<lambda>c. c = CHR ''0'') (rev s))) else s)"

fun strip_sign :: "string \<Rightarrow> bool \<times> string" where
  "strip_sign [] = (False, [])"
| "strip_sign (c # cs) = (if c = CHR ''-'' then (True, cs)
     else if c = CHR ''+'' then (False, cs) else (False, c # cs))"

definition dec_of_string :: "string \<Rightarrow> dec option" where
  "dec_of_string str = (let (neg, s) = strip_sign str;
       ip = takeWhile (\<lambda>c. c \<noteq> CHR ''.'') s; fp = drop (length ip + 1) s;
       v = digits_val (ip @ fp)
     in if ip @ fp \<noteq> [] \<and> list_all is_digit (ip @ fp)
        then Some (Dec (if neg then - v else v) (- int (length fp))) else None)"

definition dec_sub :: "dec \<Rightarrow> dec \<Rightarrow> dec" where "dec_sub a b = dec_add a (dec_neg b)"
definition dec_of_int :: "int \<Rightarrow> dec" where "dec_of_int n = Dec n 0"
definition dec_abs :: "dec \<Rightarrow> dec" where "dec_abs a = Dec \<bar>coef a\<bar> (expo a)"
definition dec_ceil :: "dec \<Rightarrow> dec" where "dec_ceil a = Dec \<lceil>dec_val a\<rceil> 0"
definition dec_is_zero :: "dec \<Rightarrow> bool" where "dec_is_zero a \<longleftrightarrow> coef a = 0"
definition dec_is_negative :: "dec \<Rightarrow> bool" where "dec_is_negative a \<longleftrightarrow> coef a < 0"
definition dec_is_positive :: "dec \<Rightarrow> bool" where "dec_is_positive a \<longleftrightarrow> 0 < coef a"
definition dec_equal :: "dec \<Rightarrow> dec \<Rightarrow> bool" where "dec_equal a b \<longleftrightarrow> dec_val a = dec_val b"
definition dec_less :: "dec \<Rightarrow> dec \<Rightarrow> bool" where "dec_less a b \<longleftrightarrow> dec_val a < dec_val b"
definition dec_greater :: "dec \<Rightarrow> dec \<Rightarrow> bool" where "dec_greater a b \<longleftrightarrow> dec_val b < dec_val a"
definition dec_float :: "dec \<Rightarrow> f64" where "dec_float a = pack (dec_val a)"
definition dec_of_numeric :: "rat \<Rightarrow> dec" where "dec_of_numeric r = Dec \<lfloor>r * pow10 3\<rfloor> (- 3)"

definition dec_lib :: "dec decimal_lib" where
  "dec_lib = \<lparr>dZero = Dec 0 0, dNewFromInt = dec_of_int, dAdd = dec_add, dSub = dec_sub, dMul = dec_mul,
     dDiv = dec_div, dNeg = dec_neg, dAbs = dec_abs, dCeil = dec_ceil, dRound = dec_round,
     dIsZero = dec_is_zero, dIsNegative = dec_is_negative, dIsPositive = dec_is_positive,
     dEqual = dec_equal, dLessThan = dec_less, dGreaterThan = dec_greater,
     dNewFromFloat = dec_of_float, dFloat64 = dec_float, dExponent = expo,
     dNewFromString = dec_of_string, dString = dec_string, dStringFixed = dec_string_fixed,
     dRat = dec_val, dOfNumeric = dec_of_numeric\<rparr>"

lemma dec_lib_eq:
  "dec_lib = \<lparr>dZero = Dec 0 0, dNewFromInt = (\<lambda>n. Dec n 0), dAdd = dec_add,
     dSub = (\<lambda>a b. dec_add a (dec_neg b)), dMul = dec_mul, dDiv = dec_div, dNeg = dec_neg,
     dAbs = (\<lambda>a. Dec \<bar>coef a\<bar> (expo a)), dCeil = (\<lambda>a. Dec \<lceil>dec_val a\<rceil> 0), dRound = dec_round,
     dIsZero = (\<lambda>a. coef a = 0), dIsNegative = (\<lambda>a. coef a < 0), dIsPositive = (\<lambda>a. 0 < coef a),
     dEqual = (\<lambda>a b. dec_val a = dec_val b), dLessThan = (\<lambda>a b. dec_val a < dec_val b),
     dGreaterThan = (\<lambda>a b. dec_val b < dec_val a), dNewFromFloat = dec_of_float,
     dFloat64 = (\<lambda>a. pack (dec_val a)), dExponent = expo, dNewFromString = dec_of_string,
     dString = dec_string, dStringFixed = dec_string_fixed, dRat = dec_val,
     dOfNumeric = (\<lambda>r. Dec \<lfloor>r * pow10 3\<rfloor> (- 3))\<rparr>"
  by (simp add: dec_lib_def fun_eq_iff dec_sub_def dec_of_int_def dec_abs_def dec_ceil_def dec_is_zero_def
      dec_is_negative_def dec_is_positive_def dec_equal_def dec_less_def dec_greater_def dec_float_def
      dec_of_numeric_def)

lemma dec_align_val: "e \<le> expo d \<Longrightarrow> of_int (dec_align d e) * pow10 e = dec_val d"
  using pow10_add[of "expo d - e" e] pow10_nat[of "nat (expo d - e)"]
  by (simp add: dec_align_def dec_val_def)

lemma dec_val_add: "dec_val (dec_add a b) = dec_val a + dec_val b"
  using dec_align_val[of "min (expo a) (expo b)" a] dec_align_val[of "min (expo a) (expo b)" b]
  by (simp add: dec_add_def Let_def dec_val_def[of "Dec _ _"] distrib_right)

lemma dec_val_neg: "dec_val (dec_neg a) = - dec_val a"
  by (simp add: dec_val_def dec_neg_def)

lemma dec_val_mul: "dec_val (dec_mul a b) = dec_val a * dec_val b"
  by (simp add: dec_val_def dec_mul_def pow10_add)

lemma dec_val_abs: "dec_val (Dec \<bar>coef a\<bar> (expo a)) = \<bar>dec_val a\<bar>"
  by (simp add: dec_val_def abs_mult)

lemma dec_val_sgn:
  "dec_val a = 0 \<longleftrightarrow> coef a = 0" "dec_val a < 0 \<longleftrightarrow> coef a < 0" "0 < dec_val a \<longleftrightarrow> 0 < coef a"
  by (simp_all add: dec_val_def mult_less_0_iff zero_less_mult_iff)

lemma pow10_minus: "pow10 (- p) = 1 / pow10 p"
  by (auto simp: pow10_def)

lemma dec_val_round: "dec_val (dec_round a p) = round_places p (dec_val a)"
  by (simp add: dec_val_def dec_round_def round_places_def pow10_minus)

lemma dec_exponent: "has_scale (nat (- expo a)) (dec_val a)"
proof (cases "0 \<le> expo a")
  case True
  then have "dec_val a = of_int (coef a * 10 ^ nat (expo a))" by (simp add: dec_val_def pow10_def)
  then show ?thesis by (simp only: scale_of_int)
next
  case False
  then show ?thesis by (auto simp: dec_val_def pow10_def has_scale_iff)
qed

lemma rnd_scale1074: "\<exists>k::int. rnd v * exp2r 1074 = of_int k"
proof -
  have pos: "\<exists>k::int. rnd v * exp2r 1074 = of_int k" if "0 < v" for v
  proof -
    from rnd_form_pos[OF that] obtain n e where "rnd v = of_int n * exp2r e" and e: "- 1074 \<le> e"
      by metis
    then have "rnd v * exp2r 1074 = of_int n * exp2r (e + 1074)" by (simp add: exp2r_add)
    also have "\<dots> = of_int (n * 2 ^ nat (e + 1074))" using e by (simp add: exp2r_def)
    finally show ?thesis by blast
  qed
  consider "0 < v" | "v = 0" | "0 < - v" by linarith
  then show ?thesis
  proof cases
    case 2
    then show ?thesis by (intro exI[of _ 0]) simp
  next
    case 3
    then obtain k where "rnd (- v) * exp2r 1074 = of_int k" using pos by blast
    then show ?thesis by (intro exI[of _ "- k"]) (simp add: rnd_minus)
  qed (rule pos)
qed

lemma pow10_exp2r: "0 \<le> p \<Longrightarrow> pow10 p = exp2r p * of_int (5 ^ nat p)"
  using power_mult_distrib[of "2::rat" 5 "nat p"] by (simp add: pow10_def exp2r_def)

lemma times_pow10_int: "0 \<le> p \<Longrightarrow> v * exp2r p = of_int k \<Longrightarrow> of_int \<lfloor>v * pow10 p\<rfloor> = v * pow10 p"
proof -
  assume "0 \<le> p" and k: "v * exp2r p = of_int k"
  then have "v * pow10 p = of_int k * of_int (5 ^ nat p)"
    by (simp only: pow10_exp2r mult.assoc flip: k)
  then have "v * pow10 p = of_int (k * 5 ^ nat p)" by (simp only: of_int_mult)
  then show ?thesis by (metis floor_of_int)
qed

lemma double_times_pow10:
  assumes "is_double v"
  shows "of_int \<lfloor>v * pow10 1074\<rfloor> = v * pow10 1074"
proof -
  obtain k :: int where "v * exp2r 1074 = of_int k"
    using rnd_scale1074[of v] assms by (auto simp only: is_double_def)
  then show ?thesis by (rule times_pow10_int[rotated]) (simp only: zero_le_numeral)
qed

lemma digit_char:
  assumes "0 \<le> d" and "d < 10"
  shows "is_digit (char_of (48 + nat d))" and "int (of_char (char_of (48 + nat d) :: char)) = 48 + d"
proof -
  have "d = 0 \<or> d = 1 \<or> d = 2 \<or> d = 3 \<or> d = 4 \<or> d = 5 \<or> d = 6 \<or> d = 7 \<or> d = 8 \<or> d = 9"
    using assms by presburger
  then show "is_digit (char_of (48 + nat d))"
    by (elim disjE) (simp_all add: is_digit_def char_of_def bit_0)
  show "int (of_char (char_of (48 + nat d) :: char)) = 48 + d"
    using assms by (simp add: of_char_of nat_add_distrib)
qed

lemma digits_val_snoc: "digits_val (s @ [c]) = digits_val s * 10 + (int (of_char c) - 48)"
  by (simp add: digits_val_def)

lemma digits_val_zeros: "digits_val (replicate k CHR ''0'' @ s) = digits_val s"
  by (induction k) (simp_all add: digits_val_def)

lemma int_digits_correct: "0 \<le> n \<Longrightarrow> list_all is_digit (int_digits n) \<and> digits_val (int_digits n) = n"
proof (induction n rule: int_digits.induct)
  case (1 n)
  show ?case
  proof (cases "n < 10")
    case True
    then show ?thesis using 1 digit_char[of n]
      by (simp add: int_digits.simps[of n] digits_val_def)
  next
    case False
    then show ?thesis using 1 digit_char[of "n mod 10"]
      by (simp add: int_digits.simps[of n] digits_val_snoc)
  qed
qed

lemma digit_facts [simp]:
  "is_digit CHR ''0''" "\<not> is_digit CHR ''.''" "\<not> is_digit CHR ''-''" "\<not> is_digit CHR ''+''"
  by (simp_all add: is_digit_def)

lemma list_all_replicate: "P c \<Longrightarrow> list_all P (replicate k c)"
  by (induction k) simp_all

lemma pad_digits_correct:
  assumes "0 \<le> n"
  shows "list_all is_digit (pad_digits k n)" and "digits_val (pad_digits k n) = n"
    and "k \<le> length (pad_digits k n)"
  using int_digits_correct[OF assms]
  by (simp_all add: pad_digits_def Let_def digits_val_zeros list_all_replicate)

lemma digit_no_point: "list_all is_digit s \<Longrightarrow> c \<in> set s \<Longrightarrow> c \<noteq> CHR ''.''"
  by (auto simp: list_all_iff)

lemma strip_sign_digits:
  "list_all is_digit s \<Longrightarrow> s \<noteq> [] \<Longrightarrow> strip_sign (s @ t) = (False, s @ t)"
  by (cases s) auto

lemma dec_fixed_chars: "set (dec_string_fixed a p) \<subseteq> set ''-.0123456789''"
proof -
  define s where "s = pad_digits (nat p + 1) \<bar>rha (dec_val a * pow10 p)\<bar>"
  have s: "set s \<subseteq> Collect is_digit"
    using pad_digits_correct(1)[of "\<bar>rha (dec_val a * pow10 p)\<bar>" "nat p + 1"]
    by (auto simp: s_def list_all_iff)
  have "set (dec_string_fixed a p) \<subseteq> {CHR ''-'', CHR ''.''} \<union> set s"
    unfolding dec_string_fixed_def Let_def s_def[symmetric]
    by (auto dest: in_set_takeD in_set_dropD)
  also have "\<dots> \<subseteq> {CHR ''-'', CHR ''.''} \<union> Collect is_digit" using s by blast
  also have "Collect is_digit = set ''0123456789''" unfolding is_digit_def by (rule Collect_mem_eq)
  finally show ?thesis by (simp add: insert_commute)
qed

lemma dec_string_chars: "set (dec_string a) \<subseteq> set ''-.0123456789''"
proof -
  have "set (dropWhile P xs) \<subseteq> set xs" for P :: "char \<Rightarrow> bool" and xs
    by (auto dest: set_dropWhileD)
  then have "set (dec_string a) \<subseteq> set (dec_string_fixed a (max 0 (- expo a)))"
    unfolding dec_string_def Let_def by (auto dest!: set_dropWhileD)
  then show ?thesis using dec_fixed_chars by (rule subset_trans)
qed

lemma dec_fixed_parses:
  assumes "0 \<le> p"
  shows "dec_of_string (dec_string_fixed a p) = Some (Dec (rha (dec_val a * pow10 p)) (- p))"
proof -
  define n where "n = rha (dec_val a * pow10 p)"
  define s where "s = pad_digits (nat p + 1) \<bar>n\<bar>"
  define k where "k = length s - nat p"
  have s: "list_all is_digit s" "digits_val s = \<bar>n\<bar>" "nat p + 1 \<le> length s"
    using pad_digits_correct[of "\<bar>n\<bar>" "nat p + 1"] by (simp_all add: s_def)
  define t where "t = (if p = 0 then [] else ''.'' @ drop k s)"
  have str: "dec_string_fixed a p = (if n < 0 then ''-'' else []) @ take k s @ t"
    by (simp add: dec_string_fixed_def Let_def t_def k_def s_def n_def)
  have tk: "list_all is_digit (take k s)" "list_all is_digit (drop k s)" "take k s \<noteq> []"
    using s by (auto simp: k_def list_all_iff dest: in_set_takeD in_set_dropD)
  have sign: "strip_sign (dec_string_fixed a p) = (n < 0, take k s @ t)"
    using strip_sign_digits[OF tk(1,3), of t] by (simp add: str)
  have ip: "takeWhile (\<lambda>c. c \<noteq> CHR ''.'') (take k s @ t) = take k s"
    using digit_no_point[OF tk(1)] by (auto simp: t_def takeWhile_append takeWhile_eq_all_conv)
  have lk: "length (take k s) = k" "length (drop k s) = nat p" using s(3) by (auto simp: k_def)
  have fp: "drop (k + 1) (take k s @ t) = drop k s"
    using assms lk by (auto simp: t_def)
  have app: "take k s @ drop k s = s" by (rule append_take_drop_id)
  have "s \<noteq> []" using s(3) by auto
  then have "dec_of_string (dec_string_fixed a p) =
      Some (Dec (if n < 0 then - digits_val s else digits_val s) (- int (nat p)))"
    using s(1) by (simp only: dec_of_string_def sign Let_def prod.case ip lk fp app) simp
  then show ?thesis using assms s(2) by (auto simp: n_def)
qed

lemma dec_of_float_val: "is_double v \<Longrightarrow> dec_val (Dec \<lfloor>v * pow10 1074\<rfloor> (- 1074)) = v"
  by (simp only: dec_val_def dec.sel double_times_pow10 pow10_minus) simp

interpretation dec: decimal_text dec_lib
proof (unfold_locales, goal_cases)
  case (9 p a) then show ?case by (simp add: dec_lib_eq dec_val_round)
next
  case (10 b a) then show ?case
    by (auto simp: dec_lib_eq dec_div_def dec_val_def[of "Dec _ _"] round_places_def pow10_minus
        dec_val_sgn)
next
  case (18 v) then show ?case
    using dec_of_float_val[of v] by (simp add: dec_lib_eq)
next
  case (19 f) then show ?case by (cases f) (simp_all add: dec_lib_eq)
next
  case (22 r) then show ?case by (simp add: dec_lib_eq dec_val_def pow10_minus has_scale_def)
next
  case (23 p a) then show ?case using dec_fixed_chars[of a p] by (simp add: dec_lib_eq)
next
  case (24 a) then show ?case using dec_string_chars[of a] by (simp add: dec_lib_eq)
next
  case (25 p a) then show ?case
    using dec_fixed_parses[of p a]
    by (simp add: dec_lib_eq dec_val_def[of "Dec _ _"] round_places_def pow10_minus)
qed (simp_all add: dec_lib_eq dec_val_add dec_val_neg dec_val_mul dec_val_abs dec_val_sgn
      dec_exponent dec_div_def dec_val_def[of "Dec _ 0"])

end
