(* ===== verification/Calendar.thy ===== *)
theory Calendar
  imports Decimal "HOL-Library.Signed_Division"
begin

text \<open>
  \<open>internal/clock\<close>: calendar days, times of day and the clock interface, with what they use of
  Go's package \<open>time\<close>. An instant is its number of nanoseconds since the Unix epoch
  (\<open>time.Time\<close> without its location, which the program always passes on its own); a location
  is a table of zone offsets with the instants from which they hold. \<open>dnum\<close> numbers the days
  from 1970-01-01; the lemmas reduce every operation on days to integer arithmetic on it.
\<close>

section \<open>The civil calendar of package time\<close>

definition is_leap :: "int \<Rightarrow> bool" where
  "is_leap y \<longleftrightarrow> y mod 4 = 0 \<and> (y mod 100 \<noteq> 0 \<or> y mod 400 = 0)"

definition month_lengths :: "int \<Rightarrow> int list" where
  "month_lengths y = [31, if is_leap y then 29 else 28, 31, 30, 31, 30, 31, 31, 30, 31, 30, 31]"

definition days_in :: "int \<Rightarrow> int \<Rightarrow> int" where
  "days_in m y = month_lengths y ! nat (m - 1)"

definition days_before_month :: "int \<Rightarrow> int \<Rightarrow> int" where
  "days_before_month m y = sum_list (take (nat (m - 1)) (month_lengths y))"

text \<open>Days from 0001-01-01 to the first of January of a year.\<close>

definition days_before_year :: "int \<Rightarrow> int" where
  "days_before_year y = (let p = y - 1 in 365 * p + p div 4 - p div 100 + p div 400)"

definition unix_day :: int where
  "unix_day = days_before_year 1970"

text \<open>The day number of \<open>time.Date(y, m, d, ...)\<close>, months outside 1..12 carried into the year.\<close>

definition civil_to_days :: "int \<Rightarrow> int \<Rightarrow> int \<Rightarrow> int" where
  "civil_to_days y m d = (let y' = y + (m - 1) div 12; m' = (m - 1) mod 12 + 1
     in days_before_year y' + days_before_month m' y' + (d - 1) - unix_day)"

text \<open>And its inverse: cycles of 400, 100 and 4 years, then the months.\<close>

definition year_of_days :: "int \<Rightarrow> int" where
  "year_of_days d0 = (let n400 = d0 div 146097; d1 = d0 mod 146097;
       n100 = d1 div 36524 - d1 div 36524 div 4; d2 = d1 - 36524 * n100;
       n4 = d2 div 1461; d3 = d2 mod 1461;
       n1 = d3 div 365 - d3 div 365 div 4
     in 400 * n400 + 100 * n100 + 4 * n4 + n1 + 1)"

fun month_day :: "int list \<Rightarrow> int \<Rightarrow> int \<Rightarrow> int \<times> int" where
  "month_day [] m d = (m, d + 1)"
| "month_day (l # ls) m d = (if d < l then (m, d + 1) else month_day ls (m + 1) (d - l))"

definition civil_of_days :: "int \<Rightarrow> int \<times> int \<times> int" where
  "civil_of_days n = (let d = n + unix_day; y = year_of_days d;
       (m, dd) = month_day (month_lengths y) 1 (d - days_before_year y) in (y, m, dd))"

lemma unix_day_eq: "unix_day = 719162"
  by (simp add: unix_day_def days_before_year_def)

lemma year_split:
  fixes p :: int
  obtains a b c e where "p = 400 * a + 100 * b + 4 * c + e" and "0 \<le> b" "b \<le> 3"
    and "0 \<le> c" "c \<le> 24" and "0 \<le> e" "e \<le> 3"
proof -
  define q where "q = p mod 400"
  define r where "r = q mod 100"
  have q: "0 \<le> q" "q < 400" and r: "0 \<le> r" "r < 100" by (simp_all add: q_def r_def)
  have p: "p = 400 * (p div 400) + 100 * (q div 100) + 4 * (r div 4) + r mod 4"
    using mult_div_mod_eq[of 400 p] mult_div_mod_eq[of 100 q] mult_div_mod_eq[of 4 r]
    by (simp add: q_def r_def)
  have "0 \<le> q div 100" "q div 100 \<le> 3" using q by presburger+
  moreover have "0 \<le> r div 4" "r div 4 \<le> 24" using r by presburger+
  moreover have "0 \<le> r mod 4" "r mod 4 \<le> 3" by presburger+
  ultimately show ?thesis using that p by blast
qed

lemma days_before_split:
  fixes a b c e :: int
  assumes "0 \<le> b" "b \<le> 3" "0 \<le> c" "c \<le> 24" "0 \<le> e" "e \<le> 3"
  shows "days_before_year (400 * a + 100 * b + 4 * c + e + 1)
      = 146097 * a + 36524 * b + 1461 * c + 365 * e"
    and "is_leap (400 * a + 100 * b + 4 * c + e + 1) \<longleftrightarrow> e = 3 \<and> (c \<noteq> 24 \<or> b = 3)"
proof -
  let ?p = "400 * a + 100 * b + 4 * c + e"
  have "?p div 4 = 100 * a + 25 * b + c" "?p div 100 = 4 * a + b" "?p div 400 = a"
    using assms by (auto intro!: int_div_pos_eq[where r = e] int_div_pos_eq[where r = "4 * c + e"]
        int_div_pos_eq[where r = "100 * b + 4 * c + e"])
  then show "days_before_year (?p + 1) = 146097 * a + 36524 * b + 1461 * c + 365 * e"
    by (simp add: days_before_year_def Let_def)
  have "(?p + 1) mod 4 = (e + 1) mod 4" "(?p + 1) mod 100 = (4 * c + e + 1) mod 100"
    "(?p + 1) mod 400 = (100 * b + 4 * c + e + 1) mod 400"
  proof -
    have "?p + 1 = (e + 1) + 4 * (100 * a + 25 * b + c)" by simp
    then show "(?p + 1) mod 4 = (e + 1) mod 4" by (simp only: mod_mult_self2)
    have "?p + 1 = (4 * c + e + 1) + 100 * (4 * a + b)" by simp
    then show "(?p + 1) mod 100 = (4 * c + e + 1) mod 100" by (simp only: mod_mult_self2)
    have "?p + 1 = (100 * b + 4 * c + e + 1) + 400 * a" by simp
    then show "(?p + 1) mod 400 = (100 * b + 4 * c + e + 1) mod 400" by (simp only: mod_mult_self2)
  qed
  moreover have "(e + 1) mod 4 = 0 \<longleftrightarrow> e = 3" using assms(5,6) by presburger
  moreover have "(4 * c + e + 1) mod 100 = 0 \<longleftrightarrow> c = 24 \<and> e = 3"
  proof -
    define v where "v = 4 * c + e + 1"
    have "v = 100 \<Longrightarrow> c = 24" "v = 100 \<Longrightarrow> e = 3" "c = 24 \<and> e = 3 \<Longrightarrow> v = 100" "0 < v" "v \<le> 100"
      using assms unfolding v_def by linarith+
    moreover have "v mod 100 = 0 \<longleftrightarrow> v = 100"
      using \<open>0 < v\<close> \<open>v \<le> 100\<close> by (cases "v = 100") (simp_all add: mod_pos_pos_trivial)
    ultimately show ?thesis unfolding v_def[symmetric] by metis
  qed
  moreover have "(100 * b + 4 * c + e + 1) mod 400 = 0 \<longleftrightarrow> b = 3 \<and> c = 24 \<and> e = 3"
  proof -
    define v where "v = 100 * b + 4 * c + e + 1"
    have "v = 400 \<Longrightarrow> b = 3" "v = 400 \<Longrightarrow> c = 24" "v = 400 \<Longrightarrow> e = 3"
      "b = 3 \<and> c = 24 \<and> e = 3 \<Longrightarrow> v = 400" "0 < v" "v \<le> 400"
      using assms unfolding v_def by linarith+
    moreover have "v mod 400 = 0 \<longleftrightarrow> v = 400"
      using \<open>0 < v\<close> \<open>v \<le> 400\<close> by (cases "v = 400") (simp_all add: mod_pos_pos_trivial)
    ultimately show ?thesis unfolding v_def[symmetric] by metis
  qed
  ultimately show "is_leap (?p + 1) \<longleftrightarrow> e = 3 \<and> (c \<noteq> 24 \<or> b = 3)"
    unfolding is_leap_def by (simp only:) blast
qed

definition year_length :: "int \<Rightarrow> int" where
  "year_length y = (if is_leap y then 366 else 365)"

lemma year_of_days_unique:
  assumes "days_before_year y \<le> d" and "d < days_before_year y + year_length y"
  shows "year_of_days d = y"
proof -
  obtain a b c e where p: "y - 1 = 400 * a + 100 * b + 4 * c + e" and r: "0 \<le> b" "b \<le> 3"
    "0 \<le> c" "c \<le> 24" "0 \<le> e" "e \<le> 3"
    by (rule year_split)
  then have y: "y = 400 * a + 100 * b + 4 * c + e + 1" by simp
  define k where "k = d - days_before_year y"
  have k: "0 \<le> k" "k \<le> (if e = 3 \<and> (c \<noteq> 24 \<or> b = 3) then 365 else 364)"
    using assms days_before_split(2)[OF r, of a]
    by (auto simp: k_def year_length_def y split: if_splits)
  have d: "d = 146097 * a + 36524 * b + 1461 * c + 365 * e + k"
    using days_before_split(1)[OF r, of a] by (simp add: k_def y)
  define d1 where "d1 = 36524 * b + 1461 * c + 365 * e + k"
  have "0 \<le> d1" "d1 < 146097" using r k by (auto simp: d1_def split: if_splits)
  then have 1: "d div 146097 = a" "d mod 146097 = d1"
    using int_div_pos_eq[of d 146097 a d1] int_mod_pos_eq[of d 146097 a d1]
    by (simp_all add: d d1_def)
  have 2: "d1 div 36524 - d1 div 36524 div 4 = b"
  proof (cases "b = 3 \<and> c = 24 \<and> e = 3 \<and> k = 365")
    case True
    then show ?thesis by (simp add: d1_def)
  next
    case False
    have "0 \<le> 1461 * c + 365 * e + k" "1461 * c + 365 * e + k < 36524"
      using r k False by (auto split: if_splits)
    then have "d1 div 36524 = b" by (simp add: d1_def add.assoc div_pos_pos_trivial)
    then show ?thesis using r by simp
  qed
  define d3 where "d3 = 365 * e + k"
  have "0 \<le> d3" "d3 < 1461" using r k by (auto simp: d3_def split: if_splits)
  then have 3: "(d1 - 36524 * b) div 1461 = c" "(d1 - 36524 * b) mod 1461 = d3"
    by (simp_all add: d1_def d3_def add.assoc div_pos_pos_trivial)
  have "d3 div 365 = e \<or> (e = 3 \<and> d3 div 365 = 4)"
    using r k unfolding d3_def by (cases "k = 365") (auto split: if_splits)
  then have 4: "d3 div 365 - d3 div 365 div 4 = e" using r by auto
  show ?thesis unfolding year_of_days_def Let_def 1 2 3 4 by (simp add: y)
qed

lemma div_pred:
  fixes y n :: int
  assumes "0 < n"
  shows "y div n = (y - 1) div n + (if y mod n = 0 then 1 else 0)"
proof -
  have y: "y = n * (y div n) + y mod n" by simp
  have r: "0 \<le> y mod n" "y mod n < n" using assms by simp_all
  show ?thesis
  proof (cases "y mod n = 0")
    case True
    then have "(y - 1) div n = y div n - 1"
      using assms y by (intro int_div_pos_eq[where r = "n - 1"]) (simp_all add: algebra_simps)
    with True show ?thesis by simp
  next
    case False
    then have "(y - 1) div n = y div n"
      using assms y r by (intro int_div_pos_eq[where r = "y mod n - 1"]) auto
    with False show ?thesis by simp
  qed
qed

lemma days_before_year_step: "days_before_year (y + 1) = days_before_year y + year_length y"
proof -
  have d1: "y mod 400 = 0 \<Longrightarrow> y mod 100 = 0" "y mod 100 = 0 \<Longrightarrow> y mod 4 = 0"
    using dvd_trans[of 100 400 y] dvd_trans[of 4 100 y] by (simp_all only: mod_eq_0_iff_dvd) simp_all
  have y: "y + 1 - 1 = y" by simp
  have *: "days_before_year (y + 1) = days_before_year y + 365
    + (if y mod 4 = 0 then 1 else 0) - (if y mod 100 = 0 then 1 else 0) + (if y mod 400 = 0 then 1 else 0)"
    unfolding days_before_year_def Let_def y div_pred[of 4 y, OF zero_less_numeral]
      div_pred[of 100 y, OF zero_less_numeral] div_pred[of 400 y, OF zero_less_numeral] by simp
  show ?thesis unfolding * year_length_def is_leap_def
    using d1 by (cases "y mod 400 = 0"; cases "y mod 100 = 0"; cases "y mod 4 = 0") simp_all
qed

lemma year_exists:
  obtains y where "days_before_year y \<le> d" and "d < days_before_year y + year_length y"
proof -
  define a where "a = d div 146097"
  have start: "days_before_year (400 * a + 1) = 146097 * a"
    using days_before_split(1)[of 0 0 0 a] by simp
  have "\<exists>y. days_before_year y \<le> d \<and> d < days_before_year y + year_length y"
    if "days_before_year x \<le> d" for x
    using that
  proof (induction "nat (d - days_before_year x)" arbitrary: x rule: less_induct)
    case less
    show ?case
    proof (cases "d < days_before_year x + year_length x")
      case False
      then have "days_before_year (x + 1) \<le> d"
        "nat (d - days_before_year (x + 1)) < nat (d - days_before_year x)"
        using less.prems days_before_year_step[of x] by (auto simp: year_length_def split: if_splits)
      then show ?thesis using less.hyps by blast
    qed (use less.prems in blast)
  qed
  moreover have "146097 * a \<le> d" by (simp add: a_def)
  ultimately show ?thesis using start that by metis
qed

lemma year_of_days_bounds:
  "days_before_year (year_of_days d) \<le> d"
  "d < days_before_year (year_of_days d) + year_length (year_of_days d)"
  using year_exists[of d] year_of_days_unique by metis+

lemma sum_month_lengths: "sum_list (month_lengths y) = year_length y"
  by (simp add: month_lengths_def year_length_def)

lemma month_day_spec:
  assumes "0 \<le> d" and "d < sum_list ls"
  shows "\<exists>i < length ls. month_day ls m d = (m + int i, d - sum_list (take i ls) + 1)
    \<and> 0 \<le> d - sum_list (take i ls) \<and> d - sum_list (take i ls) < ls ! i"
  using assms
proof (induction ls m d rule: month_day.induct)
  case (2 l ls m d)
  show ?case
  proof (cases "d < l")
    case True
    with 2 show ?thesis by (intro exI[of _ 0]) simp
  next
    case False
    with 2 obtain i where "i < length ls"
      "month_day ls (m + 1) (d - l) = (m + 1 + int i, d - l - sum_list (take i ls) + 1)"
      "0 \<le> d - l - sum_list (take i ls)" "d - l - sum_list (take i ls) < ls ! i"
      by auto
    with False show ?thesis by (intro exI[of _ "Suc i"]) simp
  qed
qed simp

lemma month_day_at:
  assumes "i < length ls" and "0 \<le> k" and "k < ls ! i" and "\<forall>l \<in> set ls. 0 \<le> l"
  shows "month_day ls m (sum_list (take i ls) + k) = (m + int i, k + 1)"
  using assms
proof (induction i arbitrary: ls m)
  case 0
  then show ?case by (cases ls) auto
next
  case (Suc i)
  then obtain l ls' where ls: "ls = l # ls'" by (cases ls) auto
  have nn: "0 \<le> sum_list (take i ls')"
    using Suc.prems(4) by (intro sum_list_nonneg) (auto simp: ls dest: in_set_takeD)
  from Suc.prems ls have "month_day ls' (m + 1) (sum_list (take i ls') + k) = (m + 1 + int i, k + 1)"
    by (intro Suc.IH) auto
  with nn Suc.prems(2) show ?case by (simp add: ls algebra_simps)
qed

definition valid_civil :: "int \<Rightarrow> int \<Rightarrow> int \<Rightarrow> bool" where
  "valid_civil y m d \<longleftrightarrow> 1 \<le> m \<and> m \<le> 12 \<and> 1 \<le> d \<and> d \<le> days_in m y"

lemma length_month_lengths [simp]: "length (month_lengths y) = 12"
  by (simp add: month_lengths_def)

lemma month_lengths_nonneg: "\<forall>l \<in> set (month_lengths y). 0 \<le> l"
  by (simp add: month_lengths_def)

lemma civil_roundtrip:
  assumes "valid_civil y m d"
  shows "civil_of_days (civil_to_days y m d) = (y, m, d)"
proof -
  have m: "(m - 1) div 12 = 0" "(m - 1) mod 12 = m - 1" "nat (m - 1) < 12"
    and d: "0 \<le> d - 1" "d - 1 < month_lengths y ! nat (m - 1)"
    using assms by (auto simp: valid_civil_def days_in_def div_pos_pos_trivial mod_pos_pos_trivial)
  define k where "k = days_before_month m y + (d - 1)"
  have "take (Suc (nat (m - 1))) (month_lengths y)
      = take (nat (m - 1)) (month_lengths y) @ [month_lengths y ! nat (m - 1)]"
    using m by (simp add: take_Suc_conv_app_nth)
  then have "k < sum_list (take (Suc (nat (m - 1))) (month_lengths y))"
    using d by (simp add: k_def days_before_month_def)
  also have "\<dots> \<le> sum_list (month_lengths y)"
    using month_lengths_nonneg sum_list_nonneg[of "drop (Suc (nat (m - 1))) (month_lengths y)"]
      sum_list_append[of "take (Suc (nat (m - 1))) (month_lengths y)"
        "drop (Suc (nat (m - 1))) (month_lengths y)"]
    by (auto dest: in_set_dropD)
  finally have hi: "k < year_length y" by (simp add: sum_month_lengths)
  have "0 \<le> days_before_month m y" unfolding days_before_month_def
    using month_lengths_nonneg by (intro sum_list_nonneg) (auto dest: in_set_takeD)
  then have lo: "0 \<le> k" using d by (simp add: k_def)
  have yr: "year_of_days (days_before_year y + k) = y"
    using lo hi by (intro year_of_days_unique) auto
  have "month_day (month_lengths y) 1 k = (1 + int (nat (m - 1)), d)"
    unfolding k_def days_before_month_def
    using month_day_at[of "nat (m - 1)" "month_lengths y" "d - 1" 1] m d month_lengths_nonneg by simp
  moreover have "int (nat (m - 1)) = m - 1" using assms by (simp add: valid_civil_def)
  ultimately show ?thesis
    using yr by (simp add: civil_of_days_def civil_to_days_def m k_def algebra_simps)
qed

lemma civil_of_days_valid:
  "case civil_of_days n of (y, m, d) \<Rightarrow> valid_civil y m d \<and> civil_to_days y m d = n"
proof -
  define y where "y = year_of_days (n + unix_day)"
  define k where "k = n + unix_day - days_before_year y"
  have k: "0 \<le> k" "k < sum_list (month_lengths y)"
    using year_of_days_bounds[of "n + unix_day"] by (simp_all add: y_def k_def sum_month_lengths)
  obtain i where i: "i < 12" and
    md: "month_day (month_lengths y) 1 k = (1 + int i, k - sum_list (take i (month_lengths y)) + 1)"
    and b: "0 \<le> k - sum_list (take i (month_lengths y))"
      "k - sum_list (take i (month_lengths y)) < month_lengths y ! i"
    using month_day_spec[OF k, of 1] by auto
  have "civil_of_days n = (y, 1 + int i, k - sum_list (take i (month_lengths y)) + 1)"
    using md by (simp add: civil_of_days_def Let_def y_def k_def)
  moreover have "valid_civil y (1 + int i) (k - sum_list (take i (month_lengths y)) + 1)"
    using i b by (simp add: valid_civil_def days_in_def)
  moreover have "civil_to_days y (1 + int i) (k - sum_list (take i (month_lengths y)) + 1) = n"
    using i by (simp add: civil_to_days_def days_before_month_def k_def div_pos_pos_trivial
        mod_pos_pos_trivial)
  ultimately show ?thesis by simp
qed

section \<open>Instants and locations\<close>

type_synonym instant = int

definition second :: int where "second = 1000000000"
definition hour :: int where "hour = 3600 * second"
definition seconds_per_day :: int where "seconds_per_day = 86400"

text \<open>The zero \<open>time.Time\<close> is midnight of 1 January of year 1.\<close>

definition zero_time :: instant where
  "zero_time = - 62135596800 * second"

text \<open>
  \<open>Location base trans\<close>: the offset \<open>base\<close> (seconds east of UTC) holds until the first
  transition; each transition \<open>(when, offset)\<close> starts a new one. \<open>zone_lookup\<close> is
  \<open>(*Location).lookup\<close>: the offset at a Unix second and the interval it holds on.
\<close>

datatype location = Location (base_offset: int) (transitions: "(int \<times> int) list")

definition UTC :: location where
  "UTC = Location 0 []"

fun zone_scan :: "int \<Rightarrow> int \<Rightarrow> int \<Rightarrow> (int \<times> int) list \<Rightarrow> int \<times> int \<times> int" where
  "zone_scan sec off start [] = (off, start, 2 ^ 63 - 1)"
| "zone_scan sec off start ((w, o') # ts) =
     (if sec < w then (off, start, w) else zone_scan sec o' w ts)"

definition zone_lookup :: "location \<Rightarrow> int \<Rightarrow> int \<times> int \<times> int" where
  "zone_lookup loc sec = zone_scan sec (base_offset loc) (- (2 ^ 63)) (transitions loc)"

definition zone_offset :: "location \<Rightarrow> int \<Rightarrow> int" where
  "zone_offset loc sec = fst (zone_lookup loc sec)"

lemma zone_UTC [simp]: "zone_lookup UTC s = (0, - (2 ^ 63), 2 ^ 63 - 1)" "zone_offset UTC s = 0"
  by (simp_all add: zone_lookup_def zone_offset_def UTC_def)

text \<open>Seconds of local time at an instant, and \<open>time.Date\<close> with its second look-up.\<close>

definition local_seconds :: "instant \<Rightarrow> location \<Rightarrow> int" where
  "local_seconds t loc = (let s = t div second in s + zone_offset loc s)"

definition time_date :: "int \<Rightarrow> int \<Rightarrow> int \<Rightarrow> int \<Rightarrow> int \<Rightarrow> int \<Rightarrow> int \<Rightarrow> location \<Rightarrow> instant" where
  "time_date y m d h mi s ns loc = (let unix = civil_to_days y m d * seconds_per_day
         + (h * 3600 + mi * 60 + s) + ns div second;
       (off, start, stop) = zone_lookup loc unix; utc = unix - off;
       off' = (if off \<noteq> 0 \<and> (utc < start \<or> stop \<le> utc) then zone_offset loc utc else off)
     in (unix - off') * second + ns mod second)"

definition local_date :: "instant \<Rightarrow> location \<Rightarrow> int \<times> int \<times> int" where
  "local_date t loc = civil_of_days (local_seconds t loc div seconds_per_day)"

definition local_hour :: "instant \<Rightarrow> location \<Rightarrow> int" where
  "local_hour t loc = local_seconds t loc mod seconds_per_day div 3600"

definition local_minute :: "instant \<Rightarrow> location \<Rightarrow> int" where
  "local_minute t loc = local_seconds t loc mod 3600 div 60"

text \<open>\<open>Time.Sub\<close> saturates at the range of \<open>time.Duration\<close>; \<open>Duration.Hours\<close> is a float.\<close>

definition time_sub :: "instant \<Rightarrow> instant \<Rightarrow> int" where
  "time_sub t u = max (- (2 ^ 63)) (min (2 ^ 63 - 1) (t - u))"

definition duration_hours :: "int \<Rightarrow> f64" where
  "duration_hours d = fadd (f64_of_int (d sdiv hour)) (fdiv (f64_of_int (d smod hour)) (Fin 3600000000000))"

lemma time_date_UTC:
  "time_date y m d h mi s ns UTC =
     (civil_to_days y m d * seconds_per_day + (h * 3600 + mi * 60 + s)) * second + ns"
  by (simp add: time_date_def Let_def distrib_right)

section \<open>Days\<close>

datatype day = Day (Year: int) (Month: int) (Date: int)

definition zero_day :: day where
  "zero_day = Day 0 0 0"

definition day_of_civil :: "int \<times> int \<times> int \<Rightarrow> day" where
  "day_of_civil = (\<lambda>(y, m, d). Day y m d)"

definition DayIn :: "instant \<Rightarrow> location \<Rightarrow> day" where
  "DayIn t loc = day_of_civil (local_date t loc)"

definition day_Time :: "day \<Rightarrow> location \<Rightarrow> instant" where
  "day_Time d loc = time_date (Year d) (Month d) (Date d) 0 0 0 0 loc"

definition AddDays :: "day \<Rightarrow> int \<Rightarrow> day" where
  "AddDays d n = (case local_date (day_Time d UTC) UTC of
     (y, m, dd) \<Rightarrow> DayIn (time_date y m (dd + n) 0 0 0 0 UTC) UTC)"

definition time_weekday :: "instant \<Rightarrow> int" where
  "time_weekday t = (t div second div seconds_per_day + 4) mod 7"

definition Weekday :: "day \<Rightarrow> int" where
  "Weekday d = (let wd = time_weekday (day_Time d UTC) in if wd = 0 then 7 else wd)"

definition Before :: "day \<Rightarrow> day \<Rightarrow> bool" where
  "Before d other \<longleftrightarrow> day_Time d UTC < day_Time other UTC"

definition After :: "day \<Rightarrow> day \<Rightarrow> bool" where
  "After d other \<longleftrightarrow> Before other d"

definition day_Equal :: "day \<Rightarrow> day \<Rightarrow> bool" where
  "day_Equal d other \<longleftrightarrow> d = other"

definition day_Sub :: "day \<Rightarrow> day \<Rightarrow> int" where
  "day_Sub d other =
     int_of_f64 (fdiv (duration_hours (time_sub (day_Time d UTC) (day_Time other UTC))) (Fin 24))"

definition IsZero :: "day \<Rightarrow> bool" where
  "IsZero d \<longleftrightarrow> d = zero_day"

text \<open>The number of a day, and the days that are dates.\<close>

definition dnum :: "day \<Rightarrow> int" where
  "dnum d = civil_to_days (Year d) (Month d) (Date d)"

definition day_of_num :: "int \<Rightarrow> day" where
  "day_of_num n = day_of_civil (civil_of_days n)"

definition valid_day :: "day \<Rightarrow> bool" where
  "valid_day d \<longleftrightarrow> valid_civil (Year d) (Month d) (Date d)"

lemma day_of_num_valid [simp]: "valid_day (day_of_num n)" and dnum_of_num [simp]: "dnum (day_of_num n) = n"
  using civil_of_days_valid[of n]
  by (auto simp: valid_day_def dnum_def day_of_num_def day_of_civil_def split: prod.splits)

lemma day_of_dnum [simp]: "valid_day d \<Longrightarrow> day_of_num (dnum d) = d"
  by (simp add: valid_day_def dnum_def day_of_num_def day_of_civil_def civil_roundtrip)

lemma dnum_inject: "valid_day a \<Longrightarrow> valid_day b \<Longrightarrow> dnum a = dnum b \<longleftrightarrow> a = b"
  by (metis day_of_dnum)

lemma not_valid_zero [simp]: "\<not> valid_day zero_day"
  by (simp add: valid_day_def valid_civil_def zero_day_def)

lemma day_Time_UTC: "day_Time d UTC = dnum d * seconds_per_day * second"
  by (simp add: day_Time_def time_date_UTC dnum_def)

lemma DayIn_UTC: "DayIn t UTC = day_of_num (t div second div seconds_per_day)"
  by (simp add: DayIn_def local_date_def local_seconds_def day_of_num_def Let_def)

lemma DayIn_valid [simp]: "valid_day (DayIn t loc)"
  using day_of_num_valid[of "local_seconds t loc div seconds_per_day"]
  by (simp add: DayIn_def local_date_def day_of_num_def)

lemma DayIn_day_Time: "valid_day d \<Longrightarrow> DayIn (day_Time d UTC) UTC = d"
  by (simp add: DayIn_UTC day_Time_UTC second_def seconds_per_day_def)

lemma civil_to_days_add: "civil_to_days y m (d + n) = civil_to_days y m d + n"
  by (simp add: civil_to_days_def Let_def)

lemma AddDays_num: "AddDays d n = day_of_num (dnum d + n)"
proof -
  obtain y m dd where c: "civil_of_days (dnum d) = (y, m, dd)" by (cases "civil_of_days (dnum d)")
  then have "civil_to_days y m dd = dnum d" using civil_of_days_valid[of "dnum d"] by simp
  moreover have "local_date (day_Time d UTC) UTC = (y, m, dd)"
    by (simp add: local_date_def local_seconds_def day_Time_UTC second_def seconds_per_day_def c)
  ultimately show ?thesis
    by (simp add: AddDays_def DayIn_UTC time_date_UTC civil_to_days_add second_def seconds_per_day_def)
qed

lemma dnum_AddDays [simp]: "dnum (AddDays d n) = dnum d + n" and AddDays_valid [simp]: "valid_day (AddDays d n)"
  by (simp_all add: AddDays_num)

lemma AddDays_0 [simp]: "valid_day d \<Longrightarrow> AddDays d 0 = d"
  by (simp add: AddDays_num)

lemma AddDays_AddDays [simp]: "AddDays (AddDays d a) b = AddDays d (a + b)"
  by (simp add: AddDays_num add.assoc)

lemma Before_num: "Before a b \<longleftrightarrow> dnum a < dnum b" and After_num: "After a b \<longleftrightarrow> dnum b < dnum a"
  by (simp_all add: After_def Before_def day_Time_UTC second_def seconds_per_day_def)

lemma Weekday_num: "Weekday d = (dnum d + 3) mod 7 + 1"
proof -
  define x where "x = (dnum d + 3) mod 7"
  have "(dnum d + 4) mod 7 = (x + 1) mod 7" using mod_add_left_eq[of "dnum d + 3" 7 1] by (simp add: x_def add.commute)
  moreover have "0 \<le> x" "x < 7" by (simp_all add: x_def)
  ultimately have "(if (dnum d + 4) mod 7 = 0 then 7 else (dnum d + 4) mod 7) = x + 1"
    by (cases "x = 6") (simp_all add: mod_pos_pos_trivial)
  then show ?thesis
    by (simp add: Weekday_def time_weekday_def day_Time_UTC second_def seconds_per_day_def Let_def
        x_def)
qed

lemma Weekday_range: "1 \<le> Weekday d" "Weekday d \<le> 7"
  using pos_mod_bound[of 7 "dnum d + 3"] pos_mod_sign[of 7 "dnum d + 3"]
  by (simp_all only: Weekday_num)

lemma int_of_f64_of_int: "\<bar>n\<bar> < 2 ^ 63 \<Longrightarrow> int_of_f64 (Fin (of_int n)) = n"
  by (auto simp: rat_trunc_def Let_def)

text \<open>\<open>Sub\<close> is exact as long as the difference fits a \<open>time.Duration\<close>, about 292 years.\<close>

lemma day_Sub_num:
  assumes "\<bar>dnum a - dnum b\<bar> \<le> 106751"
  shows "day_Sub a b = dnum a - dnum b"
proof -
  define n where "n = dnum a - dnum b"
  have n: "\<bar>n\<bar> \<le> 106751" using assms by (simp add: n_def)
  have sub: "time_sub (day_Time a UTC) (day_Time b UTC) = n * 24 * hour"
    using n by (simp add: time_sub_def day_Time_UTC second_def seconds_per_day_def hour_def n_def)
  have "(n * 24 * hour) sdiv hour = n * 24" "(n * 24 * hour) smod hour = 0"
    by (simp_all add: signed_divide_int_def signed_modulo_int_def hour_def second_def abs_mult sgn_mult
        sgn_mult_abs)
  moreover have "f64_of_int (n * 24) = Fin (of_int (n * 24))" using n by (intro f64_of_int_exact) simp
  moreover have "f64_of_int 0 = Fin 0" by (simp add: f64_of_int_def)
  moreover have p: "pack (of_int k) = Fin (of_int k)" if "\<bar>k\<bar> \<le> 2562024" for k
    using f64_of_int_exact[of k] that by (simp add: f64_of_int_def)
  ultimately have "duration_hours (n * 24 * hour) = Fin (of_int (n * 24))"
    using p[of "n * 24"] n by (simp add: duration_hours_def)
  then have "day_Sub a b = int_of_f64 (pack (of_int n))"
    by (simp add: day_Sub_def sub)
  then show ?thesis using p[of n] n int_of_f64_of_int[of n] by (simp add: n_def)
qed

text \<open>\<open>DaysBetween\<close>: the loop advances by one day and stops behind \<open>to\<close>.\<close>

function days_loop :: "day \<Rightarrow> day \<Rightarrow> day list" where
  "days_loop d to = (if After d to then [] else d # days_loop (AddDays d 1) to)"
  by pat_completeness auto
termination
  by (relation "measure (\<lambda>(d, to). nat (dnum to - dnum d + 1))") (auto simp: After_num)

declare days_loop.simps [simp del]

definition DaysBetween :: "day \<Rightarrow> day \<Rightarrow> day list" where
  "DaysBetween from to = (if Before to from then [] else days_loop from to)"

lemma days_loop_eq:
  "valid_day d \<Longrightarrow> days_loop d to = map (\<lambda>i. AddDays d (int i)) [0..<nat (dnum to - dnum d + 1)]"
proof (induction "nat (dnum to - dnum d + 1)" arbitrary: d)
  case 0
  then show ?case by (simp add: days_loop.simps[of d] After_num)
next
  case (Suc n)
  have n: "nat (dnum to - dnum d) = n" "dnum d \<le> dnum to" using Suc.hyps(2) by auto
  then have "days_loop (AddDays d 1) to = map (\<lambda>i. AddDays (AddDays d 1) (int i)) [0..<n]"
    using Suc.hyps(1)[of "AddDays d 1"] by simp
  moreover have "[0..<Suc n] = 0 # map Suc [0..<n]" by (simp add: map_Suc_upt upt_conv_Cons)
  ultimately show ?case
    unfolding Suc.hyps(2)[symmetric] using Suc.prems n
    by (simp add: days_loop.simps[of d to] After_num comp_def del: upt_Suc)
qed

lemma DaysBetween_eq:
  "valid_day from \<Longrightarrow>
    DaysBetween from to = map (\<lambda>i. AddDays from (int i)) [0..<nat (dnum to - dnum from + 1)]"
  by (auto simp: DaysBetween_def Before_num days_loop_eq)

section \<open>The order of days\<close>

instantiation day :: linorder
begin

definition less_eq_day :: "day \<Rightarrow> day \<Rightarrow> bool" where
  "less_eq_day a b \<longleftrightarrow> Year a < Year b \<or> Year a = Year b \<and>
     (Month a < Month b \<or> Month a = Month b \<and> Date a \<le> Date b)"

definition less_day :: "day \<Rightarrow> day \<Rightarrow> bool" where
  "less_day a b \<longleftrightarrow> Year a < Year b \<or> Year a = Year b \<and>
     (Month a < Month b \<or> Month a = Month b \<and> Date a < Date b)"

instance
proof
  show "x \<le> y \<Longrightarrow> y \<le> x \<Longrightarrow> x = y" for x y :: day
    by (cases x; cases y) (auto simp: less_eq_day_def)
qed (auto simp: less_eq_day_def less_day_def)

end

lemma days_before_year_mono: "0 \<le> k \<Longrightarrow> days_before_year y + 365 * k \<le> days_before_year (y + k)"
proof (induction "nat k" arbitrary: k)
  case (Suc n)
  then have "n = nat (k - 1)" "0 \<le> k - 1" by auto
  then have "days_before_year y + 365 * (k - 1) \<le> days_before_year (y + (k - 1))"
    by (rule Suc.hyps(1))
  then show ?case
    using days_before_year_step[of "y + (k - 1)"] by (auto simp: year_length_def split: if_splits)
qed simp

lemma days_before_month_Suc:
  "i < 12 \<Longrightarrow> sum_list (take i (month_lengths y)) + month_lengths y ! i
    = sum_list (take (Suc i) (month_lengths y))"
  by (simp add: take_Suc_conv_app_nth)

lemma sum_take_mono:
  "i \<le> j \<Longrightarrow> sum_list (take i (month_lengths y)) \<le> sum_list (take j (month_lengths y))"
proof -
  assume "i \<le> j"
  then have "take j (month_lengths y) = take i (month_lengths y) @ take (j - i) (drop i (month_lengths y))"
    by (metis le_add_diff_inverse take_add)
  moreover have "0 \<le> sum_list (take (j - i) (drop i (month_lengths y)))"
    using month_lengths_nonneg by (intro sum_list_nonneg) (auto dest: in_set_takeD in_set_dropD)
  ultimately show ?thesis by simp
qed

lemma days_before_month_less:
  assumes "1 \<le> m" and "m < m'" and "m \<le> 12"
  shows "days_before_month m y + days_in m y \<le> days_before_month m' y"
proof -
  have "Suc (nat (m - 1)) \<le> nat (m' - 1)" "nat (m - 1) < 12" using assms by auto
  then show ?thesis
    using sum_take_mono days_before_month_Suc by (simp add: days_before_month_def days_in_def)
qed

lemma days_before_month_year:
  assumes "valid_civil y m d"
  shows "0 \<le> days_before_month m y + (d - 1)" and "days_before_month m y + (d - 1) < year_length y"
proof -
  have "days_before_month m y + days_in m y \<le> days_before_month 13 y"
    using assms by (intro days_before_month_less) (auto simp: valid_civil_def)
  also have "\<dots> = sum_list (month_lengths y)" by (simp add: days_before_month_def)
  finally show "days_before_month m y + (d - 1) < year_length y"
    using assms by (simp add: valid_civil_def sum_month_lengths)
  have "0 \<le> days_before_month m y" unfolding days_before_month_def
    using month_lengths_nonneg by (intro sum_list_nonneg) (auto dest: in_set_takeD)
  then show "0 \<le> days_before_month m y + (d - 1)" using assms by (simp add: valid_civil_def)
qed

lemma dnum_valid: "valid_day a \<Longrightarrow>
    dnum a = days_before_year (Year a) + days_before_month (Month a) (Year a) + (Date a - 1) - unix_day"
  by (simp add: dnum_def civil_to_days_def Let_def valid_day_def valid_civil_def div_pos_pos_trivial
      mod_pos_pos_trivial)

lemma less_day_dnum:
  assumes "valid_day a" and "valid_day b" and "a < b"
  shows "dnum a < dnum b"
proof -
  consider "Year a < Year b" | "Year a = Year b" "Month a < Month b"
    | "Year a = Year b" "Month a = Month b" "Date a < Date b"
    using assms(3) by (auto simp: less_day_def)
  then show ?thesis
  proof cases
    case 1
    then have "days_before_year (Year a + 1) \<le> days_before_year (Year b)"
      using days_before_year_mono[of "Year b - Year a - 1" "Year a + 1"] by simp
    moreover have "days_before_month (Month a) (Year a) + (Date a - 1) < year_length (Year a)"
      "0 \<le> days_before_month (Month b) (Year b) + (Date b - 1)"
      using days_before_month_year assms by (simp_all add: valid_day_def)
    ultimately show ?thesis
      using days_before_year_step[of "Year a"] assms by (simp add: dnum_valid)
  next
    case 2
    then have "days_before_month (Month a) (Year a) + days_in (Month a) (Year a)
        \<le> days_before_month (Month b) (Year b)"
      using assms days_before_month_less[of "Month a" "Month b"]
      by (simp add: valid_day_def valid_civil_def)
    then show ?thesis using assms 2 by (simp add: dnum_valid) (simp add: valid_day_def valid_civil_def)
  next
    case 3
    then show ?thesis using assms by (simp add: dnum_valid)
  qed
qed

lemma Before_less: "valid_day a \<Longrightarrow> valid_day b \<Longrightarrow> Before a b \<longleftrightarrow> a < b"
  by (metis Before_num less_day_dnum linorder_cases order_less_imp_not_less)

section \<open>Text of days\<close>

datatype time_error = BadDay string | BadTimeOfDay string

text \<open>\<open>appendInt\<close> and \<open>getnum\<close> of package time.\<close>

definition append_int :: "int \<Rightarrow> nat \<Rightarrow> string" where
  "append_int x w = (if x < 0 then CHR ''-'' # pad_digits w (- x) else pad_digits w x)"

fun getnum :: "bool \<Rightarrow> string \<Rightarrow> (int \<times> string) option" where
  "getnum fixed [] = None"
| "getnum fixed (c # s) = (if \<not> is_digit c then None else
     case s of [] \<Rightarrow> if fixed then None else Some (digits_val [c], s)
     | d # r \<Rightarrow> if is_digit d then Some (digits_val [c, d], r)
                else if fixed then None else Some (digits_val [c], s))"

fun skip_char :: "char \<Rightarrow> string \<Rightarrow> string option" where
  "skip_char p [] = None"
| "skip_char p (c # s) = (if c = p then Some s else None)"

definition parse_date :: "string \<Rightarrow> (int \<times> int \<times> int) option" where
  "parse_date s = (if length s < 4 \<or> \<not> list_all is_digit (take 4 s) then None else
     case skip_char CHR ''-'' (drop 4 s) of None \<Rightarrow> None | Some s1 \<Rightarrow>
     case getnum True s1 of None \<Rightarrow> None | Some (m, s2) \<Rightarrow>
     if m \<le> 0 \<or> 12 < m then None else
     case skip_char CHR ''-'' s2 of None \<Rightarrow> None | Some s3 \<Rightarrow>
     case getnum True s3 of None \<Rightarrow> None | Some (d, s4) \<Rightarrow>
     let y = digits_val (take 4 s) in
     if s4 \<noteq> [] \<or> d < 1 \<or> days_in m y < d then None else Some (y, m, d))"

definition ParseDay :: "string \<Rightarrow> time_error + day" where
  "ParseDay s = (case parse_date s of None \<Rightarrow> Inl (BadDay s) | Some c \<Rightarrow> Inr (day_of_civil c))"

definition day_String :: "day \<Rightarrow> string" where
  "day_String d = (case local_date (day_Time d UTC) UTC of (y, m, dd) \<Rightarrow>
     append_int y 4 @ ''-'' @ append_int m 2 @ ''-'' @ append_int dd 2)"

definition day_MarshalJSON :: "day \<Rightarrow> string" where
  "day_MarshalJSON d = (if IsZero d then ''null'' else [CHR 0x22] @ day_String d @ [CHR 0x22])"

definition trimQuotes :: "string \<Rightarrow> string" where
  "trimQuotes s = (if 2 \<le> length s \<and> hd s = CHR 0x22 \<and> last s = CHR 0x22
     then butlast (tl s) else s)"

definition day_UnmarshalJSON :: "string \<Rightarrow> time_error + day" where
  "day_UnmarshalJSON b = (if b = ''null'' then Inr zero_day else ParseDay (trimQuotes b))"

lemma length_int_digits: "0 \<le> n \<Longrightarrow> n < 10 ^ k \<Longrightarrow> 0 < k \<Longrightarrow> length (int_digits n) \<le> k"
proof (induction k arbitrary: n)
  case (Suc k)
  show ?case
  proof (cases "n < 10")
    case True
    then show ?thesis by (simp add: int_digits.simps[of n])
  next
    case False
    then have "k \<noteq> 0" using Suc.prems by (cases k) auto
    moreover have "n div 10 < 10 ^ k" using Suc.prems(2) by auto
    ultimately have "length (int_digits (n div 10)) \<le> k" using Suc by simp
    then show ?thesis using False by (simp add: int_digits.simps[of n])
  qed
qed simp

lemma pad_digits_length: "0 \<le> n \<Longrightarrow> n < 10 ^ k \<Longrightarrow> 0 < k \<Longrightarrow> length (pad_digits k n) = k"
  using length_int_digits[of n k] by (simp add: pad_digits_def Let_def)

lemma getnum_pad:
  assumes "0 \<le> n" and "n < 100"
  shows "getnum fixed (pad_digits 2 n @ s) = Some (n, s)"
proof -
  have "length (pad_digits 2 n) = 2" using assms by (intro pad_digits_length) simp_all
  then obtain c d where cd: "pad_digits 2 n = [c, d]"
    by (cases "pad_digits 2 n"; cases "tl (pad_digits 2 n)") auto
  then have "is_digit c" "is_digit d" "digits_val [c, d] = n"
    using pad_digits_correct[of n 2] assms by auto
  then show ?thesis by (simp add: cd)
qed

lemma parse_date_valid: "parse_date s = Some (y, m, d) \<Longrightarrow> valid_civil y m d"
  by (auto simp: parse_date_def valid_civil_def Let_def split: if_splits option.splits)

lemma ParseDay_valid: "ParseDay s = Inr d \<Longrightarrow> valid_day d"
  using parse_date_valid by (auto simp: ParseDay_def valid_day_def day_of_civil_def split: option.splits)

lemma day_String_eq: "valid_day d \<Longrightarrow> day_String d =
    append_int (Year d) 4 @ ''-'' @ append_int (Month d) 2 @ ''-'' @ append_int (Date d) 2"
  by (simp add: day_String_def local_date_def local_seconds_def day_Time_UTC second_def
      seconds_per_day_def dnum_def civil_roundtrip valid_day_def)

lemma days_in_le: "1 \<le> m \<Longrightarrow> m \<le> 12 \<Longrightarrow> days_in m y \<le> 31"
proof -
  assume "1 \<le> m" "m \<le> 12"
  then have "days_in m y \<in> set (month_lengths y)" by (auto simp: days_in_def)
  then show ?thesis by (auto simp: month_lengths_def split: if_splits)
qed

lemma ParseDay_String:
  assumes "valid_day d" and "0 \<le> Year d" and "Year d \<le> 9999"
  shows "ParseDay (day_String d) = Inr d"
proof -
  have v: "1 \<le> Month d" "Month d \<le> 12" "1 \<le> Date d" "Date d \<le> days_in (Month d) (Year d)"
    using assms(1) by (auto simp: valid_day_def valid_civil_def)
  have d: "Date d < 100" using v days_in_le[of "Month d" "Year d"] by simp
  define Y where "Y = pad_digits 4 (Year d)"
  have Y: "length Y = 4" "list_all is_digit Y" "digits_val Y = Year d"
    using pad_digits_length[of "Year d" 4] pad_digits_correct[of "Year d" 4] assms by (simp_all add: Y_def)
  have "day_String d = Y @ CHR ''-'' # pad_digits 2 (Month d) @ CHR ''-'' # pad_digits 2 (Date d) @ []"
    using assms v by (simp add: day_String_eq append_int_def Y_def)
  moreover have "parse_date \<dots> = Some (Year d, Month d, Date d)"
    using Y v d getnum_pad[of "Month d" True] getnum_pad[of "Date d" True "[]"]
    by (simp add: parse_date_def)
  ultimately show ?thesis by (simp add: ParseDay_def day_of_civil_def)
qed

section \<open>Times of day\<close>

datatype time_of_day = TimeOfDay (tHour: int) (tMinute: int)

definition scan_hour_minute :: "string \<Rightarrow> (int \<times> int \<times> string) option" where
  "scan_hour_minute s = (case getnum False s of None \<Rightarrow> None | Some (h, s1) \<Rightarrow>
     if h < 0 \<or> 24 \<le> h then None else
     case skip_char CHR '':'' s1 of None \<Rightarrow> None | Some s2 \<Rightarrow>
     case getnum True s2 of None \<Rightarrow> None | Some (m, s3) \<Rightarrow>
     if m < 0 \<or> 60 \<le> m then None else Some (h, m, s3))"

text \<open>A fraction of a second is accepted behind the seconds although the layout has none.\<close>

definition skip_fraction :: "string \<Rightarrow> string" where
  "skip_fraction s = (case s of c # d # r \<Rightarrow>
       if (c = CHR ''.'' \<or> c = CHR '','') \<and> is_digit d then dropWhile is_digit r else s
     | _ \<Rightarrow> s)"

definition parse_15_04 :: "string \<Rightarrow> time_of_day option" where
  "parse_15_04 s = (case scan_hour_minute s of
       Some (h, m, r) \<Rightarrow> if r = [] then Some (TimeOfDay h m) else None | None \<Rightarrow> None)"

definition parse_15_04_05 :: "string \<Rightarrow> time_of_day option" where
  "parse_15_04_05 s = (case scan_hour_minute s of None \<Rightarrow> None | Some (h, m, s1) \<Rightarrow>
     case skip_char CHR '':'' s1 of None \<Rightarrow> None | Some s2 \<Rightarrow>
     case getnum True s2 of None \<Rightarrow> None | Some (sec, s3) \<Rightarrow>
     if sec < 0 \<or> 60 \<le> sec \<or> skip_fraction s3 \<noteq> [] then None else Some (TimeOfDay h m))"

definition ParseTimeOfDay :: "string \<Rightarrow> time_error + time_of_day" where
  "ParseTimeOfDay s = (case parse_15_04 s of Some t \<Rightarrow> Inr t | None \<Rightarrow>
     case parse_15_04_05 s of Some t \<Rightarrow> Inr t | None \<Rightarrow> Inl (BadTimeOfDay s))"

definition fmt_int2 :: "int \<Rightarrow> string" where
  "fmt_int2 n = (if n < 0 then CHR ''-'' # pad_digits 1 (- n) else pad_digits 2 n)"

definition tod_String :: "time_of_day \<Rightarrow> string" where
  "tod_String t = fmt_int2 (tHour t) @ '':'' @ fmt_int2 (tMinute t)"

definition On :: "time_of_day \<Rightarrow> day \<Rightarrow> location \<Rightarrow> instant" where
  "On t d loc = time_date (Year d) (Month d) (Date d) (tHour t) (tMinute t) 0 0 loc"

definition tod_Before :: "time_of_day \<Rightarrow> instant \<Rightarrow> location \<Rightarrow> bool" where
  "tod_Before t now loc \<longleftrightarrow> now < On t (DayIn now loc) loc"

definition valid_tod :: "time_of_day \<Rightarrow> bool" where
  "valid_tod t \<longleftrightarrow> 0 \<le> tHour t \<and> tHour t < 24 \<and> 0 \<le> tMinute t \<and> tMinute t < 60"

lemma ParseTimeOfDay_valid: "ParseTimeOfDay s = Inr t \<Longrightarrow> valid_tod t"
  by (auto simp: ParseTimeOfDay_def parse_15_04_def parse_15_04_05_def scan_hour_minute_def
      valid_tod_def split: option.splits if_splits)

lemma ParseTimeOfDay_String: "valid_tod t \<Longrightarrow> ParseTimeOfDay (tod_String t) = Inr t"
  using getnum_pad[of "tHour t" False] getnum_pad[of "tMinute t" True "[]"]
  by (cases t) (simp add: ParseTimeOfDay_def parse_15_04_def scan_hour_minute_def tod_String_def
      fmt_int2_def valid_tod_def)

lemma On_UTC: "On t d UTC = (dnum d * seconds_per_day + tHour t * 3600 + tMinute t * 60) * second"
  by (simp add: On_def time_date_UTC dnum_def)

section \<open>Clocks\<close>

text \<open>
  The implementations of the interface \<open>Clock\<close>. \<open>clock_Now c w\<close> is the reading of \<open>c\<close> when the
  wall clock of the machine shows \<open>w\<close>.
\<close>

datatype clock = System | Func "instant \<Rightarrow> instant" | Offset clock int | Fixed instant

fun clock_Now :: "clock \<Rightarrow> instant \<Rightarrow> instant" where
  "clock_Now System w = w"
| "clock_Now (Func f) w = f w"
| "clock_Now (Offset base off) w = clock_Now base w + off"
| "clock_Now (Fixed t) w = t"

definition NewOffset :: "clock \<Rightarrow> int \<Rightarrow> clock" where
  "NewOffset base off = Offset base off"

fun fixed_Advance :: "clock \<Rightarrow> int \<Rightarrow> clock" where
  "fixed_Advance (Fixed t) d = Fixed (t + d)"
| "fixed_Advance c d = c"

fun fixed_Set :: "clock \<Rightarrow> instant \<Rightarrow> clock" where
  "fixed_Set (Fixed t) u = Fixed u"
| "fixed_Set c u = c"

section \<open>Properties\<close>

text \<open>Days form a torsor over the integers: \<open>AddDays\<close> is addition, \<open>Sub\<close> undoes it within the
  range of \<open>time.Duration\<close>, \<open>Before\<close> is the calendar order, and weekdays advance cyclically.\<close>
theorem day_arithmetic:
  assumes "valid_day d" and "valid_day e" and "\<bar>n\<bar> \<le> 106751"
  shows "valid_day (AddDays d n) \<and> AddDays d 0 = d \<and> AddDays (AddDays d m) k = AddDays d (m + k)
    \<and> day_Sub (AddDays d n) d = n \<and> (Before d e \<longleftrightarrow> d < e) \<and> (Before d e \<longleftrightarrow> (\<exists>k > 0. e = AddDays d k))
    \<and> Weekday (AddDays d n) = (Weekday d + n - 1) mod 7 + 1"
proof (intro conjI)
  show "day_Sub (AddDays d n) d = n" using assms(3) by (simp add: day_Sub_num)
  show "Before d e \<longleftrightarrow> (\<exists>k > 0. e = AddDays d k)"
  proof
    assume "Before d e"
    then show "\<exists>k > 0. e = AddDays d k"
      using assms by (intro exI[of _ "dnum e - dnum d"]) (simp add: Before_num AddDays_num)
  qed (auto simp: Before_num)
  have "Weekday (AddDays d n) = ((dnum d + 3) + n) mod 7 + 1" by (simp add: Weekday_num algebra_simps)
  also have "\<dots> = ((dnum d + 3) mod 7 + n) mod 7 + 1" by (simp only: mod_add_left_eq)
  finally show "Weekday (AddDays d n) = (Weekday d + n - 1) mod 7 + 1" by (simp add: Weekday_num)
qed (use assms in \<open>simp_all add: Before_less\<close>)

theorem day_arithmetic_witness:
  "AddDays (Day 2024 2 28) 0 = Day 2024 2 28 \<and> day_Sub (AddDays (Day 2024 2 28) 366) (Day 2024 2 28) = 366"
  using day_arithmetic[of "Day 2024 2 28" "Day 2024 2 28" 366]
  by (simp add: valid_day_def valid_civil_def days_in_def month_lengths_def is_leap_def)

text \<open>\<open>DaysBetween\<close> lists every day from the first to the last, once and in order.\<close>
theorem DaysBetween_all:
  assumes "valid_day from" and "valid_day to"
  shows "set (DaysBetween from to) = {d. valid_day d \<and> from \<le> d \<and> d \<le> to}
    \<and> sorted_wrt (<) (DaysBetween from to)"
proof
  have le: "a \<le> b \<longleftrightarrow> dnum a \<le> dnum b" if "valid_day a" "valid_day b" for a b
    using that Before_less[of b a] by (simp add: Before_num) (metis not_less)
  show "set (DaysBetween from to) = {d. valid_day d \<and> from \<le> d \<and> d \<le> to}"
  proof (intro set_eqI iffI)
    fix d assume "d \<in> {d. valid_day d \<and> from \<le> d \<and> d \<le> to}"
    then have d: "valid_day d" "dnum from \<le> dnum d" "dnum d \<le> dnum to" using assms le by auto
    then have "d = AddDays from (int (nat (dnum d - dnum from)))" by (simp add: AddDays_num)
    moreover have "nat (dnum d - dnum from) < nat (dnum to - dnum from + 1)" using d by linarith
    ultimately show "d \<in> set (DaysBetween from to)"
      unfolding DaysBetween_eq[OF assms(1)] set_map set_upt
      by (intro image_eqI[where x = "nat (dnum d - dnum from)"]) simp_all
  qed (use assms le in \<open>auto simp: DaysBetween_eq\<close>)
  have "AddDays from (int i) < AddDays from (int j)" if "i < j" for i j
    using that Before_less[of "AddDays from (int i)" "AddDays from (int j)"] by (simp add: Before_num)
  then show "sorted_wrt (<) (DaysBetween from to)"
    using assms by (simp add: DaysBetween_eq sorted_wrt_map sorted_wrt_iff_nth_less)
qed

theorem DaysBetween_all_witness:
  "set (DaysBetween (Day 2024 2 28) (Day 2024 3 1)) =
     {d. valid_day d \<and> Day 2024 2 28 \<le> d \<and> d \<le> Day 2024 3 1}"
  using DaysBetween_all[of "Day 2024 2 28" "Day 2024 3 1"]
  by (simp add: valid_day_def valid_civil_def days_in_def month_lengths_def is_leap_def)

text \<open>Days and times of day are read back from what they are written as, in the API's JSON
  too, and the parsers accept nothing but dates and times.\<close>
theorem time_text_roundtrip:
  assumes "valid_day d" and "0 \<le> Year d" and "Year d \<le> 9999" and "valid_tod t"
  shows "ParseDay (day_String d) = Inr d \<and> day_UnmarshalJSON (day_MarshalJSON d) = Inr d
    \<and> day_UnmarshalJSON (day_MarshalJSON zero_day) = Inr zero_day
    \<and> ParseTimeOfDay (tod_String t) = Inr t
    \<and> pred_sum (\<lambda>_. True) valid_day (ParseDay s) \<and> pred_sum (\<lambda>_. True) valid_tod (ParseTimeOfDay s)"
proof (intro conjI)
  show p: "ParseDay (day_String d) = Inr d" using assms by (intro ParseDay_String)
  have "d \<noteq> zero_day" using assms(1) not_valid_zero by auto
  then show "day_UnmarshalJSON (day_MarshalJSON d) = Inr d"
    using p by (simp add: day_MarshalJSON_def day_UnmarshalJSON_def trimQuotes_def IsZero_def butlast_append)
  show "pred_sum (\<lambda>_. True) valid_day (ParseDay s)" "pred_sum (\<lambda>_. True) valid_tod (ParseTimeOfDay s)"
    by (cases "ParseDay s"; cases "ParseTimeOfDay s"; simp add: ParseDay_valid ParseTimeOfDay_valid)+
qed (use assms in \<open>simp_all add: ParseTimeOfDay_String day_MarshalJSON_def day_UnmarshalJSON_def IsZero_def\<close>)

theorem time_text_roundtrip_witness:
  "ParseDay (day_String (Day 2024 2 29)) = Inr (Day 2024 2 29)
    \<and> ParseTimeOfDay (tod_String (TimeOfDay 9 5)) = Inr (TimeOfDay 9 5)"
  using time_text_roundtrip[of "Day 2024 2 29" "TimeOfDay 9 5"]
  by (simp add: valid_day_def valid_civil_def days_in_def month_lengths_def is_leap_def valid_tod_def)

end
