(* ===== verification/Tenant.thy ===== *)
theory Tenant
  imports Calendar
begin

text \<open>
  \<open>internal/tenant/tenant.go\<close>: the tenant with its time zone, its virtual clock and its quiet
  hours. UUIDs are natural numbers. A request context is modelled by the value it holds under
  the key of this package. Reading the settings from \<open>jsonb\<close> is not modelled.
\<close>

type_synonym uuid = nat

section \<open>Settings and tenants\<close>

record settings =
  DigestAt :: time_of_day
  QuietFrom :: time_of_day
  QuietTo :: time_of_day
  TelegramEnabled :: bool
  EmailEnabled :: bool

definition DefaultSettings :: settings where
  "DefaultSettings = \<lparr>DigestAt = TimeOfDay 9 0, QuietFrom = TimeOfDay 22 0, QuietTo = TimeOfDay 8 0,
     TelegramEnabled = True, EmailEnabled = True\<rparr>"

record tenant =
  tenantID :: uuid
  tenantName :: string
  tenantLocation :: "location option"
  IsSandbox :: bool
  ClockOffset :: int
  ExpiresAt :: "instant option"
  Autopilot :: bool
  Seed :: int
  tenantSettings :: settings

definition tenant_Clock :: "tenant \<Rightarrow> clock \<Rightarrow> clock" where
  "tenant_Clock t base = (if ClockOffset t = 0 then base else NewOffset base (ClockOffset t))"

definition tenant_Now :: "tenant \<Rightarrow> clock \<Rightarrow> instant \<Rightarrow> instant" where
  "tenant_Now t base w = clock_Now (tenant_Clock t base) w"

definition Loc :: "tenant \<Rightarrow> location" where
  "Loc t = (case tenantLocation t of None \<Rightarrow> UTC | Some l \<Rightarrow> l)"

definition Today :: "tenant \<Rightarrow> clock \<Rightarrow> instant \<Rightarrow> day" where
  "Today t base w = DayIn (tenant_Now t base w) (Loc t)"

definition IsQuietHours :: "tenant \<Rightarrow> instant \<Rightarrow> bool" where
  "IsQuietHours t now = (let s = tenantSettings t in
     if QuietFrom s = QuietTo s then False else
     let minutes = local_hour now (Loc t) * 60 + local_minute now (Loc t);
         from = tHour (QuietFrom s) * 60 + tMinute (QuietFrom s);
         to = tHour (QuietTo s) * 60 + tMinute (QuietTo s)
     in if from < to then from \<le> minutes \<and> minutes < to else from \<le> minutes \<or> minutes < to)"

text \<open>\<open>db\<close> is \<open>time.LoadLocation\<close>, the tz database of the host.\<close>

definition LoadLocation :: "(string \<Rightarrow> location option) \<Rightarrow> string \<Rightarrow> location" where
  "LoadLocation db nm = (if nm = [] then UTC else case db nm of None \<Rightarrow> UTC | Some l \<Rightarrow> l)"

section \<open>The tenant of a request\<close>

datatype tenant_error = ErrNoTenant

type_synonym ctx = "tenant option"

definition WithTenant :: "ctx \<Rightarrow> tenant \<Rightarrow> ctx" where
  "WithTenant c t = Some t"

definition FromContext :: "ctx \<Rightarrow> tenant_error + tenant" where
  "FromContext c = (case c of None \<Rightarrow> Inl ErrNoTenant | Some t \<Rightarrow> Inr t)"

text \<open>\<open>None\<close> is the panic.\<close>

definition MustFromContext :: "ctx \<Rightarrow> tenant option" where
  "MustFromContext c = (case FromContext c of Inl _ \<Rightarrow> None | Inr t \<Rightarrow> Some t)"

section \<open>Lemmas\<close>

lemma FromContext_WithTenant [simp]:
  "FromContext (WithTenant c t) = Inr t" "MustFromContext (WithTenant c t) = Some t"
  by (simp_all add: FromContext_def WithTenant_def MustFromContext_def)

lemma tenant_Now_offset: "tenant_Now t base w = clock_Now base w + ClockOffset t"
  by (simp add: tenant_Now_def tenant_Clock_def NewOffset_def)

lemma Today_valid [simp]: "valid_day (Today t base w)"
  by (simp add: Today_def)

definition minute_of_day :: "time_of_day \<Rightarrow> int" where
  "minute_of_day t = tHour t * 60 + tMinute t"

lemma minute_of_day_range: "valid_tod t \<Longrightarrow> 0 \<le> minute_of_day t \<and> minute_of_day t < 1440"
  by (simp add: minute_of_day_def valid_tod_def)

lemma minute_of_day_inject:
  assumes "valid_tod a" "valid_tod b" "minute_of_day a = minute_of_day b"
  shows "a = b"
proof -
  have "minute_of_day x div 60 = tHour x" if "valid_tod x" for x
    using that by (intro int_div_pos_eq[where r = "tMinute x"]) (auto simp: minute_of_day_def valid_tod_def)
  then have "tHour a = tHour b" using assms by metis
  moreover from this have "tMinute a = tMinute b" using assms(3) by (simp add: minute_of_day_def)
  ultimately show ?thesis by (simp add: time_of_day.expand)
qed

lemma local_minutes:
  "local_hour now loc * 60 + local_minute now loc = local_seconds now loc mod seconds_per_day div 60"
proof -
  define s where "s = local_seconds now loc mod 86400"
  have "local_seconds now loc mod 3600 = s mod 3600"
    using mod_mod_cancel[of 3600 86400 "local_seconds now loc"] by (simp add: s_def)
  moreover have "s div 3600 * 60 + s mod 3600 div 60 = s div 60"
  proof -
    have "s = 60 * (s div 3600 * 60 + s mod 3600 div 60) + s mod 3600 mod 60"
    proof -
      define q r where "q = s div 3600" and "r = s mod 3600"
      have "3600 * q + r = s" "60 * (r div 60) + r mod 60 = r" by (simp_all add: q_def r_def)
      then show ?thesis by (simp only: flip: q_def r_def) simp
    qed
    moreover have "0 \<le> s mod 3600 mod 60" "s mod 3600 mod 60 < 60" by simp_all
    ultimately show ?thesis by (intro int_div_pos_eq[symmetric])
  qed
  ultimately show ?thesis
    by (simp add: local_hour_def local_minute_def seconds_per_day_def s_def)
qed

lemma cyclic_interval:
  fixes m a b :: int
  assumes "0 \<le> m" "m < N" "0 \<le> a" "a < N" "0 \<le> b" "b < N" "a \<noteq> b"
  shows "(if a < b then a \<le> m \<and> m < b else a \<le> m \<or> m < b) \<longleftrightarrow> (m - a) mod N < (b - a) mod N"
proof -
  have "(x - a) mod N = (if a \<le> x then x - a else x - a + N)" if "0 \<le> x" "x < N" for x
    using that assms mod_pos_pos_trivial[of "x - a + N" N] by (auto simp: mod_pos_pos_trivial)
  then show ?thesis using assms by auto
qed

text \<open>The quiet hours are the half-open cyclic interval of the day from \<open>QuietFrom\<close> to
  \<open>QuietTo\<close> in the tenant's zone, through midnight or not; equal ends switch them off.\<close>
theorem quiet_hours_cyclic:
  assumes "valid_tod (QuietFrom (tenantSettings t))" and "valid_tod (QuietTo (tenantSettings t))"
  shows "IsQuietHours t now \<longleftrightarrow>
    (local_seconds now (Loc t) mod seconds_per_day div 60 - minute_of_day (QuietFrom (tenantSettings t))) mod 1440
    < (minute_of_day (QuietTo (tenantSettings t)) - minute_of_day (QuietFrom (tenantSettings t))) mod 1440"
proof -
  define m where "m = local_seconds now (Loc t) mod seconds_per_day div 60"
  define a where "a = minute_of_day (QuietFrom (tenantSettings t))"
  define b where "b = minute_of_day (QuietTo (tenantSettings t))"
  have "0 \<le> local_seconds now (Loc t) mod seconds_per_day" "local_seconds now (Loc t) mod seconds_per_day < 86400"
    by (simp_all add: seconds_per_day_def)
  then have m: "0 \<le> m" "m < 1440" by (simp_all add: m_def)
  have ab: "0 \<le> a" "a < 1440" "0 \<le> b" "b < 1440"
    using assms minute_of_day_range by (simp_all add: a_def b_def)
  have eq: "QuietFrom (tenantSettings t) = QuietTo (tenantSettings t) \<longleftrightarrow> a = b"
    using minute_of_day_inject[OF assms] by (auto simp: a_def b_def)
  have "IsQuietHours t now \<longleftrightarrow> a \<noteq> b \<and> (if a < b then a \<le> m \<and> m < b else a \<le> m \<or> m < b)"
    unfolding IsQuietHours_def Let_def eq local_minutes
    by (simp add: m_def a_def b_def minute_of_day_def)
  also have "\<dots> \<longleftrightarrow> (m - a) mod 1440 < (b - a) mod 1440"
    using cyclic_interval[OF m ab] m by (cases "a = b") auto
  finally show ?thesis by (simp only: m_def a_def b_def)
qed

definition sample_tenant :: tenant where
  "sample_tenant = \<lparr>tenantID = 1, tenantName = [], tenantLocation = None, IsSandbox = False,
     ClockOffset = 0, ExpiresAt = None, Autopilot = False, Seed = 0, tenantSettings = DefaultSettings\<rparr>"

theorem quiet_hours_cyclic_witness:
  "IsQuietHours sample_tenant (23 * hour) \<and> IsQuietHours sample_tenant (hour)
    \<and> \<not> IsQuietHours sample_tenant (8 * hour)"
  by (simp add: quiet_hours_cyclic sample_tenant_def DefaultSettings_def valid_tod_def Loc_def
      local_seconds_def hour_def second_def seconds_per_day_def minute_of_day_def)

end
