(* ===== verification/Quantity.thy ===== *)
theory Quantity
  imports Decimal
begin

text \<open>
  \<open>internal/platform/qty/qty.go\<close>: quantities in the base unit of an item, over the decimal
  interface of \<open>Decimal\<close>. A Go string is its list of bytes. The \<open>context\<close> block gives the
  meaning of every operation on the rational number behind a quantity (\<open>qval\<close>) and the type
  invariant \<open>wfq\<close>: no operation of the package produces more than three decimal places.
\<close>

section \<open>The type and its operations\<close>

datatype 'd qty = Qty (qdec: 'd)

definition Scale :: int where
  "Scale = 3"

datatype qty_error = NotANumber string | TooManyDigits string | ExpectedNumberOrString

definition qZero :: "'d decimal_lib \<Rightarrow> 'd qty" where
  "qZero D = Qty (dZero D)"

definition qFromDecimal :: "'d decimal_lib \<Rightarrow> 'd \<Rightarrow> 'd qty" where
  "qFromDecimal D d = Qty (dRound D d Scale)"

definition qFromInt :: "'d decimal_lib \<Rightarrow> int \<Rightarrow> 'd qty" where
  "qFromInt D n = Qty (dNewFromInt D n)"

text \<open>
  The rune loop of \<open>Parse\<close> on the UTF-8 bytes: the separators it drops are the space and
  U+00A0, which is the byte pair C2 A0 wherever it occurs.
\<close>

fun parse_normalize :: "string \<Rightarrow> string" where
  "parse_normalize [] = []"
| "parse_normalize (c # cs) =
     (if c = CHR '','' then CHR ''.'' # parse_normalize cs
      else if c = CHR '' '' then parse_normalize cs
      else if c = CHR 0xC2 then
        (case cs of [] \<Rightarrow> [c]
         | d # ds \<Rightarrow> if d = CHR 0xA0 then parse_normalize ds else c # parse_normalize cs)
      else c # parse_normalize cs)"

definition qParse :: "'d decimal_lib \<Rightarrow> string \<Rightarrow> qty_error + 'd qty" where
  "qParse D s = (case dNewFromString D (parse_normalize s) of
       None \<Rightarrow> Inl (NotANumber s)
     | Some d \<Rightarrow> if dExponent D d < - Scale then Inl (TooManyDigits s) else Inr (Qty d))"

definition qString :: "'d decimal_lib \<Rightarrow> 'd qty \<Rightarrow> string" where
  "qString D q = dStringFixed D (qdec q) Scale"

definition nbsp :: string where
  "nbsp = [CHR 0xC2, CHR 0xA0]"

definition trim_right_zeros :: "string \<Rightarrow> string" where
  "trim_right_zeros s = rev (dropWhile (\<lambda>c. c = CHR ''0'') (rev s))"

definition trim_suffix_point :: "string \<Rightarrow> string" where
  "trim_suffix_point s = (if s \<noteq> [] \<and> last s = CHR ''.'' then butlast s else s)"

definition replace_point :: "string \<Rightarrow> string" where
  "replace_point s = (let i = takeWhile (\<lambda>c. c \<noteq> CHR ''.'') s; r = dropWhile (\<lambda>c. c \<noteq> CHR ''.'') s
     in i @ (case r of [] \<Rightarrow> [] | _ # f \<Rightarrow> CHR '','' # f))"

fun group_digits :: "bool \<Rightarrow> string \<Rightarrow> string" where
  "group_digits first [] = []"
| "group_digits first (c # cs) =
     (if \<not> first \<and> length (c # cs) mod 3 = 0 then nbsp else []) @ c # group_digits False cs"

definition human_text :: "string \<Rightarrow> string" where
  "human_text s = (let t = (if CHR ''.'' \<in> set s
         then replace_point (trim_suffix_point (trim_right_zeros s)) else s);
       ip = takeWhile (\<lambda>c. c \<noteq> CHR '','') t; r = dropWhile (\<lambda>c. c \<noteq> CHR '','') t;
       neg = (ip \<noteq> [] \<and> hd ip = CHR ''-'')
     in (if neg then ''-'' else []) @ group_digits True (if neg then tl ip else ip)
        @ (case r of [] \<Rightarrow> [] | _ # fp \<Rightarrow> CHR '','' # fp))"

definition qHuman :: "'d decimal_lib \<Rightarrow> 'd qty \<Rightarrow> string" where
  "qHuman D q = human_text (dString D (dRound D (qdec q) Scale))"

definition qAdd :: "'d decimal_lib \<Rightarrow> 'd qty \<Rightarrow> 'd qty \<Rightarrow> 'd qty" where
  "qAdd D q other = Qty (dAdd D (qdec q) (qdec other))"

definition qSub :: "'d decimal_lib \<Rightarrow> 'd qty \<Rightarrow> 'd qty \<Rightarrow> 'd qty" where
  "qSub D q other = Qty (dSub D (qdec q) (qdec other))"

definition qNeg :: "'d decimal_lib \<Rightarrow> 'd qty \<Rightarrow> 'd qty" where
  "qNeg D q = Qty (dNeg D (qdec q))"

definition qMulInt :: "'d decimal_lib \<Rightarrow> 'd qty \<Rightarrow> int \<Rightarrow> 'd qty" where
  "qMulInt D q n = Qty (dMul D (qdec q) (dNewFromInt D n))"

text \<open>\<open>None\<close> is the panic of \<open>decimal.NewFromFloat\<close> on NaN and the infinities.\<close>

definition qMulFloat :: "'d decimal_lib \<Rightarrow> 'd qty \<Rightarrow> f64 \<Rightarrow> 'd qty option" where
  "qMulFloat D q f = (case dNewFromFloat D f of
       None \<Rightarrow> None
     | Some d \<Rightarrow> Some (Qty (dRound D (dMul D (qdec q) d) Scale)))"

definition qFloat64 :: "'d decimal_lib \<Rightarrow> 'd qty \<Rightarrow> f64" where
  "qFloat64 D q = dFloat64 D (qdec q)"

definition qIsZero :: "'d decimal_lib \<Rightarrow> 'd qty \<Rightarrow> bool" where
  "qIsZero D q = dIsZero D (qdec q)"

definition qIsNegative :: "'d decimal_lib \<Rightarrow> 'd qty \<Rightarrow> bool" where
  "qIsNegative D q = dIsNegative D (qdec q)"

definition qIsPositive :: "'d decimal_lib \<Rightarrow> 'd qty \<Rightarrow> bool" where
  "qIsPositive D q = dIsPositive D (qdec q)"

definition qEqual :: "'d decimal_lib \<Rightarrow> 'd qty \<Rightarrow> 'd qty \<Rightarrow> bool" where
  "qEqual D q other = dEqual D (qdec q) (qdec other)"

definition qLessThan :: "'d decimal_lib \<Rightarrow> 'd qty \<Rightarrow> 'd qty \<Rightarrow> bool" where
  "qLessThan D q other = dLessThan D (qdec q) (qdec other)"

definition qGreaterThan :: "'d decimal_lib \<Rightarrow> 'd qty \<Rightarrow> 'd qty \<Rightarrow> bool" where
  "qGreaterThan D q other = dGreaterThan D (qdec q) (qdec other)"

definition qAbs :: "'d decimal_lib \<Rightarrow> 'd qty \<Rightarrow> 'd qty" where
  "qAbs D q = Qty (dAbs D (qdec q))"

definition qMax :: "'d decimal_lib \<Rightarrow> 'd qty \<Rightarrow> 'd qty \<Rightarrow> 'd qty" where
  "qMax D a b = (if qLessThan D a b then b else a)"

definition qClampZero :: "'d decimal_lib \<Rightarrow> 'd qty \<Rightarrow> 'd qty" where
  "qClampZero D q = (if qIsNegative D q then qZero D else q)"

text \<open>\<open>None\<close> is the panic of a division by zero.\<close>

definition qCeilTo :: "'d decimal_lib \<Rightarrow> 'd qty \<Rightarrow> 'd qty \<Rightarrow> 'd qty option" where
  "qCeilTo D q step = (if \<not> qIsPositive D step then Some q
     else case dDiv D (qdec q) (qdec step) of
            None \<Rightarrow> None
          | Some ratio \<Rightarrow> Some (Qty (dRound D (dMul D (dCeil D ratio) (qdec step)) Scale)))"

definition qWhole :: "'d decimal_lib \<Rightarrow> 'd qty \<Rightarrow> 'd qty" where
  "qWhole D q = Qty (dRound D (qdec q) 0)"

definition qSum :: "'d decimal_lib \<Rightarrow> 'd qty list \<Rightarrow> 'd qty" where
  "qSum D qs = foldl (qAdd D) (qZero D) qs"

text \<open>\<open>MustParse\<close> is for constants: \<open>None\<close> is its panic.\<close>

definition MustParse :: "'d decimal_lib \<Rightarrow> string \<Rightarrow> 'd qty option" where
  "MustParse D s = (case qParse D s of Inl _ \<Rightarrow> None | Inr q \<Rightarrow> Some q)"

text \<open>
  JSON: the value as the decoder classifies it. A \<open>null\<close> leaves the target string empty, so
  it is parsed as the empty string.
\<close>

datatype json_value = JString string | JNumber string | JNull | JOther

definition qMarshalJSON :: "'d decimal_lib \<Rightarrow> 'd qty \<Rightarrow> json_value" where
  "qMarshalJSON D q = JString (qString D q)"

fun qUnmarshalJSON :: "'d decimal_lib \<Rightarrow> json_value \<Rightarrow> qty_error + 'd qty" where
  "qUnmarshalJSON D (JString s) = qParse D s"
| "qUnmarshalJSON D JNull = qParse D []"
| "qUnmarshalJSON D (JNumber n) = qParse D n"
| "qUnmarshalJSON D JOther = Inl ExpectedNumberOrString"

section \<open>Meaning\<close>

definition qval :: "'d decimal_lib \<Rightarrow> 'd qty \<Rightarrow> rat" where
  "qval D q = dRat D (qdec q)"

definition wfq :: "'d decimal_lib \<Rightarrow> 'd qty \<Rightarrow> bool" where
  "wfq D q \<longleftrightarrow> scale3 (qval D q)"

context decimal_api
begin

lemma qval_ops [simp, qty_simps]:
  "qval D (qZero D) = 0"
  "qval D (qFromInt D n) = of_int n"
  "qval D (qFromDecimal D d) = round_places 3 (dRat D d)"
  "qval D (qAdd D a b) = qval D a + qval D b"
  "qval D (qSub D a b) = qval D a - qval D b"
  "qval D (qNeg D a) = - qval D a"
  "qval D (qMulInt D a n) = qval D a * of_int n"
  "qval D (qAbs D a) = \<bar>qval D a\<bar>"
  "qval D (qMax D a b) = max (qval D a) (qval D b)"
  "qval D (qClampZero D a) = max 0 (qval D a)"
  "qval D (qWhole D a) = of_int (rha (qval D a))"
  by (auto simp: qval_def qZero_def qFromInt_def qFromDecimal_def qAdd_def qSub_def qNeg_def
      qMulInt_def qAbs_def qMax_def qClampZero_def qLessThan_def qIsNegative_def qWhole_def Scale_def
      rat_zero rat_of_int rat_add rat_sub rat_mul rat_neg rat_abs rat_round is_negative less_iff
      round_places_def)

lemma qtest_ops [simp, qty_simps]:
  "qIsZero D a \<longleftrightarrow> qval D a = 0"
  "qIsNegative D a \<longleftrightarrow> qval D a < 0"
  "qIsPositive D a \<longleftrightarrow> 0 < qval D a"
  "qEqual D a b \<longleftrightarrow> qval D a = qval D b"
  "qLessThan D a b \<longleftrightarrow> qval D a < qval D b"
  "qGreaterThan D a b \<longleftrightarrow> qval D b < qval D a"
  by (simp_all add: qval_def qIsZero_def qIsNegative_def qIsPositive_def qEqual_def qLessThan_def
      qGreaterThan_def is_zero is_negative is_positive equal_iff less_iff greater_iff)

lemma qval_foldl: "qval D (foldl (qAdd D) q qs) = qval D q + sum_list (map (qval D) qs)"
  by (induction qs arbitrary: q) simp_all

lemma qval_sum [simp, qty_simps]: "qval D (qSum D qs) = sum_list (map (qval D) qs)"
  by (simp add: qSum_def qval_foldl)

lemma qFloat64_val [simp]: "qFloat64 D a = pack (qval D a)"
  by (simp add: qFloat64_def qval_def to_float)

lemma qMulFloat_Some:
  assumes "is_double v"
  shows "\<exists>q d. qMulFloat D a (Fin v) = Some q \<and> pack d = Fin v
    \<and> qval D q = round_places 3 (qval D a * d)"
  using of_float[OF assms]
  by (force simp: qMulFloat_def qval_def rat_round rat_mul Scale_def)

lemma qMulFloat_None: "\<not> is_finite f \<Longrightarrow> qMulFloat D a f = None"
  by (simp add: qMulFloat_def of_float_panics)

lemma qMulFloat_wf: "qMulFloat D a f = Some q \<Longrightarrow> wfq D q"
  by (auto simp: qMulFloat_def wfq_def qval_def rat_round Scale_def split: option.splits)

lemma qCeilTo_pos:
  assumes "0 < qval D step"
  obtains q where "qCeilTo D a step = Some q"
    and "qval D q = round_places 3 (of_int \<lceil>round_places 16 (qval D a / qval D step)\<rceil> * qval D step)"
proof -
  obtain c where "dDiv D (qdec a) (qdec step) = Some c"
    and "dRat D c = round_places 16 (qval D a / qval D step)"
    using rat_div[of "qdec step" "qdec a"] assms by (auto simp: qval_def)
  then show ?thesis using that assms
    by (simp add: qCeilTo_def) (simp add: qval_def rat_round rat_mul rat_ceil Scale_def)
qed

lemma qCeilTo_total: "\<exists>q. qCeilTo D a step = Some q"
proof (cases "0 < qval D step")
  case True
  then show ?thesis by (metis qCeilTo_pos)
qed (simp add: qCeilTo_def)

lemma qCeilTo_wf: "wfq D a \<Longrightarrow> qCeilTo D a step = Some q \<Longrightarrow> wfq D q"
  by (auto simp: qCeilTo_def wfq_def qval_def rat_round Scale_def split: if_splits option.splits)

lemma qParse_wf:
  assumes "qParse D s = Inr q"
  shows "wfq D q"
proof -
  obtain d where "q = Qty d" and "- 3 \<le> dExponent D d"
    using assms by (auto simp: qParse_def Scale_def split: option.splits if_splits)
  then show ?thesis
    using scale_mono[OF exponent[of d], of 3] by (simp add: wfq_def qval_def)
qed

end

section \<open>Rounding up to a pack\<close>

text \<open>
  \<open>CeilTo\<close> divides with 16 places. A quotient of two numbers with three decimals that is no
  integer keeps a distance of \<open>1 / (1000 * step)\<close> from every integer, so for steps below
  \<open>10^11\<close> (the range of \<open>numeric(14,3)\<close>) the rounded quotient has the same ceiling.
\<close>

lemma ceiling_round16:
  assumes b: "0 < b" "b < 10 ^ 14"
  shows "\<lceil>round_places 16 (of_int a / of_int b)\<rceil> = \<lceil>of_int a / of_int b :: rat\<rceil>"
proof -
  define x :: rat where "x = of_int a / of_int b"
  define n where "n = \<lceil>x\<rceil>"
  show ?thesis
  proof (cases "x = of_int n")
    case True
    then have "has_scale 16 x" by (simp only: scale_of_int)
    then show ?thesis using round_places_id[of 16 x] by (simp flip: x_def)
  next
    case False
    have n: "of_int n - 1 < x" "x \<le> of_int n"
      using ceiling_correct[of x] by (simp_all add: n_def)
    have ab: "x * of_int b = of_int a" using b by (simp add: x_def)
    have gap: "1 \<le> m * b - a" if "x < of_int m" for m :: int
    proof -
      have "x * of_int b < of_int m * of_int b" using that b by simp
      then have "of_int a < (of_int (m * b) :: rat)" by (simp add: ab)
      then show ?thesis by (simp only: of_int_less_iff)
    qed
    have gap': "1 \<le> a - m * b" if "of_int m < x" for m :: int
    proof -
      have "of_int m * of_int b < x * of_int b" using that b by simp
      then have "of_int (m * b) < (of_int a :: rat)" by (simp add: ab)
      then show ?thesis by (simp only: of_int_less_iff)
    qed
    have B: "0 < (of_int b :: rat)" "(of_int b :: rat) < 10 ^ 14"
    proof -
      show "0 < (of_int b :: rat)" using b(1) by simp
      have "(of_int b :: rat) < of_int (10 ^ 14)" using b(2) by (simp only: of_int_less_iff)
      then show "(of_int b :: rat) < 10 ^ 14" by simp
    qed
    have inv: "1 / 10 ^ 14 \<le> 1 / (of_int b :: rat)" using B by (intro divide_left_mono) auto
    have "of_int 1 \<le> (of_int (n * b - a) :: rat)" using gap[of n] False n by (simp only: of_int_le_iff)
    then have "1 / of_int b \<le> (of_int n * of_int b - of_int a) / (of_int b :: rat)"
      using B by (intro divide_right_mono) simp_all
    then have up: "1 / of_int b \<le> of_int n - x" using B by (simp add: x_def diff_divide_distrib)
    have "1 \<le> a - (n - 1) * b" using gap'[of "n - 1"] n by simp
    then have "of_int 1 \<le> (of_int (a - (n - 1) * b) :: rat)" by (simp only: of_int_le_iff)
    then have "1 / of_int b \<le> (of_int a - (of_int n - 1) * of_int b) / (of_int b :: rat)"
      using B by (intro divide_right_mono) simp_all
    then have lo: "1 / of_int b \<le> x - (of_int n - 1)" using B by (simp add: x_def diff_divide_distrib)
    have "of_int n - 1 < round_places 16 x" "round_places 16 x \<le> of_int n"
      using round_places_bounds[where x = x and p = 16] up lo inv by simp_all
    then have "\<lceil>round_places 16 x\<rceil> = n" by (intro ceiling_unique) simp_all
    then show ?thesis by (simp add: n_def flip: x_def)
  qed
qed

context decimal_api
begin

lemma qCeilTo_least:
  assumes wf: "wfq D a" "wfq D step" and step: "0 < qval D step" "qval D step < 10 ^ 11"
  obtains q k where "qCeilTo D a step = Some q" and "qval D q = of_int k * qval D step"
    and "qval D a \<le> qval D q" and "qval D q < qval D a + qval D step"
proof -
  obtain A B :: int where A: "qval D a = of_int A / 1000" and B: "qval D step = of_int B / 1000"
    using wf by (auto simp: wfq_def has_scale_iff)
  have "0 < (of_int B :: rat)" "(of_int B :: rat) < of_int (10 ^ 14)" using step by (simp_all add: B)
  then have Bb: "0 < B" "B < 10 ^ 14" by (simp_all only: of_int_less_iff of_int_0_less_iff)
  define k where "k = \<lceil>of_int A / of_int B :: rat\<rceil>"
  have ratio: "qval D a / qval D step = of_int A / of_int B" by (simp add: A B)
  obtain q where q: "qCeilTo D a step = Some q" and
    "qval D q = round_places 3 (of_int \<lceil>round_places 16 (qval D a / qval D step)\<rceil> * qval D step)"
    using step(1) by (rule qCeilTo_pos)
  then have "qval D q = round_places 3 (of_int k * qval D step)"
    using ceiling_round16[OF Bb, of A] by (simp add: ratio k_def)
  moreover have "scale3 (of_int k * qval D step)"
    using wf(2) by (auto simp: wfq_def mult.commute[of "of_int k"])
  ultimately have val: "qval D q = of_int k * qval D step" by simp
  have "of_int A / of_int B \<le> (of_int k :: rat)" "of_int k < of_int A / of_int B + (1 :: rat)"
    using ceiling_correct[of "of_int A / of_int B :: rat"] by (simp_all add: k_def)
  then have "qval D a / qval D step \<le> of_int k" "of_int k < qval D a / qval D step + 1"
    by (simp_all add: ratio)
  then have "qval D a \<le> of_int k * qval D step" "of_int k * qval D step < qval D a + qval D step"
    using step(1) by (simp_all add: field_simps)
  with that q val show ?thesis by metis
qed

end

section \<open>Properties\<close>

text \<open>The characters a decimal is written with.\<close>

definition plain_char :: "char \<Rightarrow> bool" where
  "plain_char c \<longleftrightarrow> c \<in> set ''-.0123456789''"

lemma plain_char_simps [simp]:
  "plain_char CHR ''-''" "plain_char CHR ''.''"
  "\<not> plain_char CHR '',''" "\<not> plain_char CHR '' ''" "\<not> plain_char CHR 0xC2"
  by (simp_all add: plain_char_def)

lemma plain_chars_iff: "set s \<subseteq> set ''-.0123456789'' \<longleftrightarrow> list_all plain_char s"
  unfolding list_all_iff plain_char_def by blast

lemma list_all_mono_set: "list_all P s \<Longrightarrow> set t \<subseteq> set s \<Longrightarrow> list_all P t"
  by (auto simp: list_all_iff)

lemma parse_normalize_plain: "list_all plain_char s \<Longrightarrow> parse_normalize (s @ t) = s @ parse_normalize t"
proof (induction s)
  case (Cons c s)
  then have "c \<noteq> CHR '',''" "c \<noteq> CHR '' ''" "c \<noteq> CHR 0xC2" by auto
  with Cons show ?case by simp
qed simp

lemma parse_normalize_id: "list_all plain_char s \<Longrightarrow> parse_normalize s = s"
  using parse_normalize_plain[of s "[]"] by simp

lemma parse_normalize_group:
  "list_all plain_char s \<Longrightarrow> parse_normalize (group_digits b s @ t) = s @ parse_normalize t"
proof (induction b s rule: group_digits.induct)
  case (2 b c cs)
  have "parse_normalize ([c] @ group_digits False cs @ t) = [c] @ parse_normalize (group_digits False cs @ t)"
    using 2 by (intro parse_normalize_plain) simp
  with 2 show ?case by (simp add: nbsp_def)
qed simp

text \<open>\<open>CeilTo\<close> returns (it never divides by zero) the least multiple of the pack that is not
  below the quantity, for any pack in the range of \<open>numeric(14,3)\<close>, although it divides with
  16 places only.\<close>
theorem qCeilTo_least_multiple:
  assumes "decimal_api D" and "wfq D a" and "wfq D step"
    and "0 < qval D step" and "qval D step < 10 ^ 11"
  shows "\<exists>q k. qCeilTo D a step = Some q \<and> qval D q = of_int k * qval D step
    \<and> qval D a \<le> qval D q \<and> qval D q < qval D a + qval D step"
  using decimal_api.qCeilTo_least[OF assms] by metis

theorem qCeilTo_least_multiple_witness:
  "\<exists>q k. qCeilTo dec_lib (Qty (Dec 12001 (- 3))) (Qty (Dec 12 0)) = Some q
     \<and> qval dec_lib q = of_int k * qval dec_lib (Qty (Dec 12 0))
     \<and> qval dec_lib (Qty (Dec 12001 (- 3))) \<le> qval dec_lib q
     \<and> qval dec_lib q < qval dec_lib (Qty (Dec 12001 (- 3))) + qval dec_lib (Qty (Dec 12 0))"
  by (rule qCeilTo_least_multiple[OF dec.decimal_api_axioms])
    (simp_all add: wfq_def qval_def dec_lib_eq dec_val_def pow10_def has_scale_def)

text \<open>The JSON form of a quantity, the string with three decimals, is read back as the same
  quantity.\<close>
theorem qty_json_roundtrip:
  assumes "decimal_text D" and "wfq D q"
  shows "\<exists>q'. qUnmarshalJSON D (qMarshalJSON D q) = Inr q' \<and> qval D q' = qval D q"
proof -
  obtain b where "dNewFromString D (qString D q) = Some b" and "dRat D b = qval D q"
    and "- 3 \<le> dExponent D b"
    using decimal_text.fixed_parses[OF assms(1), of 3 "qdec q"] assms(2)
    by (auto simp: qString_def Scale_def wfq_def qval_def)
  moreover have "list_all plain_char (qString D q)"
    using decimal_text.fixed_chars[OF assms(1), of 3 "qdec q"]
    by (simp only: qString_def Scale_def plain_chars_iff)
  ultimately show ?thesis
    by (simp add: qMarshalJSON_def qParse_def parse_normalize_id Scale_def qval_def)
qed

theorem qty_json_roundtrip_witness:
  "\<exists>q'. qUnmarshalJSON dec_lib (qMarshalJSON dec_lib (Qty (Dec (- 1500500) (- 3)))) = Inr q'
     \<and> qval dec_lib q' = qval dec_lib (Qty (Dec (- 1500500) (- 3)))"
  by (rule qty_json_roundtrip[OF dec.decimal_text_axioms])
    (simp add: wfq_def qval_def dec_lib_eq dec_val_def pow10_def has_scale_def)

lemma replace_point_parts:
  assumes "list_all plain_char t"
  shows "takeWhile (\<lambda>c. c \<noteq> CHR '','') (replace_point t) = takeWhile (\<lambda>c. c \<noteq> CHR ''.'') t"
    and "dropWhile (\<lambda>c. c \<noteq> CHR '','') (replace_point t) =
      (case dropWhile (\<lambda>c. c \<noteq> CHR ''.'') t of [] \<Rightarrow> [] | _ # f \<Rightarrow> CHR '','' # f)"
proof -
  have "\<forall>c \<in> set (takeWhile (\<lambda>c. c \<noteq> CHR ''.'') t). c \<noteq> CHR '',''"
    using assms by (auto simp: list_all_iff dest!: set_takeWhileD)
  then show "takeWhile (\<lambda>c. c \<noteq> CHR '','') (replace_point t) = takeWhile (\<lambda>c. c \<noteq> CHR ''.'') t"
    "dropWhile (\<lambda>c. c \<noteq> CHR '','') (replace_point t) =
      (case dropWhile (\<lambda>c. c \<noteq> CHR ''.'') t of [] \<Rightarrow> [] | _ # f \<Rightarrow> CHR '','' # f)"
    by (auto simp: replace_point_def Let_def takeWhile_append dropWhile_append takeWhile_eq_all_conv
        split: list.split)
qed

lemma replace_point_no_point: "CHR ''.'' \<notin> set s \<Longrightarrow> replace_point s = s"
proof -
  assume "CHR ''.'' \<notin> set s"
  then have "\<forall>c \<in> set s. c \<noteq> CHR ''.''" by auto
  then have "takeWhile (\<lambda>c. c \<noteq> CHR ''.'') s = s" "dropWhile (\<lambda>c. c \<noteq> CHR ''.'') s = []"
    by (simp_all add: takeWhile_eq_all_conv dropWhile_eq_Nil_conv)
  then show ?thesis by (simp only: replace_point_def Let_def) simp
qed

lemma human_parts:
  assumes "list_all plain_char t"
  defines "ip \<equiv> takeWhile (\<lambda>c. c \<noteq> CHR ''.'') t" and "r \<equiv> dropWhile (\<lambda>c. c \<noteq> CHR ''.'') t"
  shows "parse_normalize ((if ip \<noteq> [] \<and> hd ip = CHR ''-'' then ''-'' else [])
    @ group_digits True (if ip \<noteq> [] \<and> hd ip = CHR ''-'' then tl ip else ip)
    @ (case r of [] \<Rightarrow> [] | _ # f \<Rightarrow> CHR '','' # f)) = t"
proof -
  have ip: "list_all plain_char ip"
    using assms(1) by (auto simp: ip_def list_all_iff dest!: set_takeWhileD)
  then have tl: "list_all plain_char (tl ip)" by (cases ip) auto
  have f: "parse_normalize (case r of [] \<Rightarrow> [] | _ # f \<Rightarrow> CHR '','' # f) = r"
  proof (cases r)
    case (Cons c f)
    then have "c = CHR ''.''" using hd_dropWhile[of "\<lambda>c. c \<noteq> CHR ''.''" t] by (auto simp: r_def)
    moreover have "list_all plain_char (c # f)"
      using assms(1) unfolding Cons[symmetric] r_def
      by (rule list_all_mono_set) (auto dest: set_dropWhileD)
    ultimately show ?thesis using Cons by (simp add: parse_normalize_id)
  qed simp
  have t: "ip @ r = t" by (simp add: ip_def r_def)
  show ?thesis
  proof (cases "ip \<noteq> [] \<and> hd ip = CHR ''-''")
    case True
    then have "ip = CHR ''-'' # tl ip" by (cases ip) auto
    then have "''-'' @ tl ip @ r = t" using t by (metis append_Cons append_Nil)
    then show ?thesis using True parse_normalize_group[OF tl, of True] f by simp
  next
    case False
    then show ?thesis unfolding if_not_P[OF False] using parse_normalize_group[OF ip, of True] f t
      by simp
  qed
qed

text \<open>What \<open>Human\<close> writes, with no-break spaces between groups of three digits and a decimal
  comma, \<open>Parse\<close> normalises back to the decimal text without its trailing zeros.\<close>
theorem qHuman_normalizes_back:
  assumes "decimal_text D"
  shows "parse_normalize (qHuman D q) =
    (let s = dString D (dRound D (qdec q) Scale)
     in if CHR ''.'' \<in> set s then trim_suffix_point (trim_right_zeros s) else s)"
proof -
  define s where "s = dString D (dRound D (qdec q) Scale)"
  have s: "list_all plain_char s"
    using decimal_text.string_chars[OF assms(1)] by (simp only: s_def plain_chars_iff)
  define t where "t = (if CHR ''.'' \<in> set s then trim_suffix_point (trim_right_zeros s) else s)"
  have "set (trim_suffix_point u) \<subseteq> set u" for u
    by (auto simp: trim_suffix_point_def dest: in_set_butlastD)
  moreover have "set (trim_right_zeros s) \<subseteq> set s"
    by (auto simp: trim_right_zeros_def dest: set_dropWhileD)
  ultimately have "set (trim_suffix_point (trim_right_zeros s)) \<subseteq> set s" by (rule subset_trans)
  then have t: "list_all plain_char t" using s by (auto simp: t_def elim: list_all_mono_set)
  have u: "(if CHR ''.'' \<in> set s then replace_point (trim_suffix_point (trim_right_zeros s)) else s)
      = replace_point t"
    by (simp add: t_def replace_point_no_point)
  have "human_text s = (let ip = takeWhile (\<lambda>c. c \<noteq> CHR ''.'') t;
       r = dropWhile (\<lambda>c. c \<noteq> CHR ''.'') t; neg = (ip \<noteq> [] \<and> hd ip = CHR ''-'')
     in (if neg then ''-'' else []) @ group_digits True (if neg then tl ip else ip)
        @ (case r of [] \<Rightarrow> [] | _ # fp \<Rightarrow> CHR '','' # fp))"
    unfolding human_text_def u Let_def replace_point_parts[OF t]
    by (cases "dropWhile (\<lambda>c. c \<noteq> CHR ''.'') t") (simp_all only: list.case)
  then have "parse_normalize (human_text s) = t"
    using human_parts[OF t] by (simp only: Let_def)
  then show ?thesis by (simp only: qHuman_def t_def s_def Let_def)
qed

theorem qHuman_normalizes_back_witness:
  "parse_normalize (qHuman dec_lib (Qty (Dec (- 1500500) (- 3)))) =
    (let s = dString dec_lib (dRound dec_lib (qdec (Qty (Dec (- 1500500) (- 3)))) Scale)
     in if CHR ''.'' \<in> set s then trim_suffix_point (trim_right_zeros s) else s)"
  by (rule qHuman_normalizes_back[OF dec.decimal_text_axioms])

lemma sum_wfq:
  assumes "decimal_api D" and "\<forall>q \<in> set qs. wfq D q"
  shows "wfq D (qSum D qs)"
proof -
  note v = decimal_api.qval_ops[OF assms(1)]
  have add: "wfq D (qAdd D x y)" if "wfq D x" "wfq D y" for x y using that by (auto simp: wfq_def v)
  have "wfq D x \<Longrightarrow> \<forall>q \<in> set qs. wfq D q \<Longrightarrow> wfq D (foldl (qAdd D) x qs)" for x
    by (induction qs arbitrary: x) (simp_all add: add)
  moreover have "wfq D (qZero D)" by (simp add: wfq_def v)
  ultimately show ?thesis using assms(2) by (simp add: qSum_def)
qed

text \<open>(C40) Every operation of the package that yields a quantity yields one of three decimals: the
  constructors and parsing (also from JSON) whatever they are given, the arithmetic, the rounding up and
  the sum of a list whenever their operands are of three decimals.\<close>
theorem qty_scale_invariant:
  assumes "decimal_api D" and "wfq D a" and "wfq D b" and "\<forall>q \<in> set qs. wfq D q"
  shows "wfq D (qZero D) \<and> wfq D (qFromInt D n) \<and> wfq D (qFromDecimal D d) \<and> wfq D (qAdd D a b)
    \<and> wfq D (qSub D a b) \<and> wfq D (qNeg D a) \<and> wfq D (qMulInt D a n) \<and> wfq D (qAbs D a)
    \<and> wfq D (qMax D a b) \<and> wfq D (qClampZero D a) \<and> wfq D (qWhole D a) \<and> wfq D (qSum D qs)
    \<and> pred_option (wfq D) (qMulFloat D a f) \<and> pred_option (wfq D) (qCeilTo D a b)
    \<and> pred_sum (\<lambda>_. True) (wfq D) (qParse D s) \<and> pred_option (wfq D) (MustParse D s)
    \<and> pred_sum (\<lambda>_. True) (wfq D) (qUnmarshalJSON D j)"
proof -
  note v = decimal_api.qval_ops[OF assms(1)]
  have a: "scale3 (qval D a)" and b: "scale3 (qval D b)" using assms(2,3) by (simp_all add: wfq_def)
  have "wfq D (qZero D)" "wfq D (qFromInt D n)" "wfq D (qFromDecimal D d)" "wfq D (qAdd D a b)"
    "wfq D (qSub D a b)" "wfq D (qNeg D a)" "wfq D (qMulInt D a n)" "wfq D (qAbs D a)"
    "wfq D (qMax D a b)" "wfq D (qClampZero D a)" "wfq D (qWhole D a)"
    using a b by (auto simp: wfq_def v max_def)
  moreover have "wfq D (qSum D qs)" by (rule sum_wfq[OF assms(1,4)])
  moreover have "pred_option (wfq D) (qMulFloat D a f)"
    by (cases "qMulFloat D a f") (auto intro: decimal_api.qMulFloat_wf[OF assms(1)])
  moreover have "pred_option (wfq D) (qCeilTo D a b)"
    using assms(2) decimal_api.qCeilTo_wf[OF assms(1,2)] by (cases "qCeilTo D a b") auto
  moreover have parse: "pred_sum (\<lambda>_. True) (wfq D) (qParse D x)" for x
    by (cases "qParse D x") (auto intro: decimal_api.qParse_wf[OF assms(1)])
  moreover have "pred_option (wfq D) (MustParse D s)" using parse[of s] by (cases "qParse D s") (simp_all add: MustParse_def)
  moreover have "pred_sum (\<lambda>_. True) (wfq D) (qUnmarshalJSON D j)"
    using parse by (cases j) simp_all
  ultimately show ?thesis by blast
qed

theorem qty_scale_invariant_witness:
  "pred_option (wfq dec_lib) (qCeilTo dec_lib (Qty (Dec 15 (- 1))) (Qty (Dec 12 0)))
     \<and> wfq dec_lib (qSum dec_lib [Qty (Dec 15 (- 1)), Qty (Dec 12 0)])"
proof -
  have w: "wfq dec_lib (Qty (Dec 15 (- 1)))" "wfq dec_lib (Qty (Dec 12 0))"
    by (simp_all add: wfq_def qval_def dec_lib_eq dec_val_def pow10_def has_scale_def)
  then have "\<forall>q \<in> set [Qty (Dec 15 (- 1)), Qty (Dec 12 0)]. wfq dec_lib q" by simp
  with w show ?thesis using qty_scale_invariant[OF dec.decimal_api_axioms] by blast
qed

end
