(* ===== verification/Forecast.thy ===== *)
theory Forecast
  imports Calendar Quantity
begin

text \<open>
  \<open>internal/forecast\<close> (forecast.go, series.go, models.go, backtest.go): the demand forecast. The
  arithmetic is the float64 arithmetic of \<open>Float64\<close>, operation by operation and in the order
  of the source. A predictor is the function its method \<open>Predict\<close> computes and a fitter maps a
  series to a predictor. \<open>slices.SortFunc\<close> is \<open>sort_key\<close>: the order of equal days, which Go
  leaves open, does not arise for series with one observation per day.
\<close>

section \<open>Floats as a linear order\<close>

text \<open>The order of \<open>slices.Sort\<close>: NaN first, then the order of the values.\<close>

fun f64_rank :: "f64 \<Rightarrow> nat \<times> rat" where
  "f64_rank NaN = (0, 0)" | "f64_rank NInf = (1, 0)" | "f64_rank (Fin a) = (2, a)" | "f64_rank PInf = (3, 0)"

instantiation f64 :: linorder
begin

definition less_eq_f64 :: "f64 \<Rightarrow> f64 \<Rightarrow> bool" where
  "less_eq_f64 a b \<longleftrightarrow> fst (f64_rank a) < fst (f64_rank b) \<or>
     fst (f64_rank a) = fst (f64_rank b) \<and> snd (f64_rank a) \<le> snd (f64_rank b)"

definition less_f64 :: "f64 \<Rightarrow> f64 \<Rightarrow> bool" where
  "less_f64 a b \<longleftrightarrow> fst (f64_rank a) < fst (f64_rank b) \<or>
     fst (f64_rank a) = fst (f64_rank b) \<and> snd (f64_rank a) < snd (f64_rank b)"

instance
proof
  show "x \<le> y \<Longrightarrow> y \<le> x \<Longrightarrow> x = y" for x y :: f64
    by (cases x; cases y) (auto simp: less_eq_f64_def)
qed (auto simp: less_eq_f64_def less_f64_def)

end

lemma Fin_le [simp]: "Fin a \<le> Fin b \<longleftrightarrow> a \<le> b"
  by (simp add: less_eq_f64_def)

section \<open>Data\<close>

definition HorizonDays :: int where "HorizonDays = 14"
definition BacktestDays :: nat where "BacktestDays = 28"
definition BacktestHorizon :: nat where "BacktestHorizon = 7"
definition SeasonWeeks :: nat where "SeasonWeeks = 8"
definition OutlierWeeks :: nat where "OutlierWeeks = 8"
definition HistoryDays :: int where "HistoryDays = 90"
definition MinDaysForM1 :: nat where "MinDaysForM1 = 7"
definition MinDaysForM2 :: nat where "MinDaysForM2 = 28"

definition AlphaGrid :: "f64 list" where
  "AlphaGrid = [pack (1 / 10), pack (2 / 10), pack (3 / 10), pack (4 / 10), pack (5 / 10)]"

type_synonym model = string

definition ModelM0 :: model where "ModelM0 = ''M0''"
definition ModelM1 :: model where "ModelM1 = ''M1''"
definition ModelM2 :: model where "ModelM2 = ''M2''"

record 'd observation =
  obsDay :: day
  obsQty :: "'d qty"
  HasData :: bool
  Stockout :: bool

record 'd fpoint =
  fpDay :: day
  fpQty :: "'d qty"

record metrics =
  metModel :: model
  WAPE :: f64
  Bias :: f64
  Sigma :: f64
  Alpha :: f64
  WindowDays :: nat
  DaysWithData :: nat

record 'd forecast_result =
  resModel :: model
  resPoints :: "'d fpoint list"
  resMetrics :: metrics

record point =
  pday :: day
  pqty :: f64

type_synonym predictor = "day \<Rightarrow> f64"
type_synonym fitter = "point list \<Rightarrow> predictor"

definition Accuracy :: "metrics \<Rightarrow> f64" where
  "Accuracy m = (let acc = fsub (Fin 1) (WAPE m) in if flt acc (Fin 0) then Fin 0 else acc)"

definition Total :: "'d decimal_lib \<Rightarrow> 'd forecast_result \<Rightarrow> 'd qty" where
  "Total D r = foldl (\<lambda>total p. qAdd D total (fpQty p)) (qZero D) (resPoints r)"

definition result_On :: "'d decimal_lib \<Rightarrow> 'd forecast_result \<Rightarrow> day \<Rightarrow> 'd qty" where
  "result_On D r d = (case find (\<lambda>p. day_Equal (fpDay p) d) (resPoints r) of
     Some p \<Rightarrow> fpQty p | None \<Rightarrow> qZero D)"

section \<open>Series\<close>

definition mean :: "f64 list \<Rightarrow> f64" where
  "mean values = (if values = [] then Fin 0
     else fdiv (foldl fadd (Fin 0) values) (f64_of_int (int (length values))))"

text \<open>Only called on sorted lists of at least eight values with \<open>0 \<le> p \<le> 1\<close>, where the two
  indices are in range.\<close>

definition quantile :: "f64 list \<Rightarrow> f64 \<Rightarrow> f64" where
  "quantile xs p = (if xs = [] then Fin 0 else if length xs = 1 then xs ! 0 else
     let pos = fmul p (f64_of_int (int (length xs) - 1));
         lo = int_of_f64 (ffloor pos); hi = int_of_f64 (fceil pos)
     in if lo = hi then xs ! nat lo
        else let frac = fsub pos (f64_of_int lo)
             in fadd (fmul (xs ! nat lo) (fsub (Fin 1) frac)) (fmul (xs ! nat hi) frac))"

definition clip_window :: "point list \<Rightarrow> point list" where
  "clip_window window = (let values = sort (map pqty window);
       q1 = quantile values (Fin (1 / 4)); q3 = quantile values (Fin (3 / 4))
     in if fle q3 (Fin 0) then window
        else let threshold = fadd q3 (fmul (Fin 3) (fsub q3 q1))
             in map (\<lambda>p. if flt threshold (pqty p) then p\<lparr>pqty := threshold\<rparr> else p) window)"

definition clipOutliers :: "point list \<Rightarrow> point list" where
  "clipOutliers pts = (if length pts < 8 then pts
     else let k = length pts - OutlierWeeks * 7 in take k pts @ clip_window (drop k pts))"

definition usable :: "'d decimal_lib \<Rightarrow> day \<Rightarrow> 'd observation \<Rightarrow> bool" where
  "usable D asOf obs \<longleftrightarrow> HasData obs \<and> \<not> Stockout obs \<and> Before (obsDay obs) asOf
     \<and> \<not> qIsNegative D (obsQty obs)"

definition cleanSeries :: "'d decimal_lib \<Rightarrow> 'd observation list \<Rightarrow> day \<Rightarrow> point list" where
  "cleanSeries D series asOf = clipOutliers (sort_key (\<lambda>p. day_Time (pday p) UTC)
     (map (\<lambda>obs. \<lparr>pday = obsDay obs, pqty = qFloat64 D (obsQty obs)\<rparr>) (filter (usable D asOf) series)))"

section \<open>Models\<close>

text \<open>Go arrays \<open>[8]T\<close> indexed by the weekday 1..7 are lists of length 8.\<close>

record m1 =
  byWeekday :: "f64 list"
  fallback :: f64
  known :: "bool list"

definition recent_qtys :: "nat \<Rightarrow> int \<Rightarrow> point list \<Rightarrow> f64 list" where
  "recent_qtys lookback wd pts = take lookback (map pqty (filter (\<lambda>p. Weekday (pday p) = wd) (rev pts)))"

definition fitM1_step :: "point list \<Rightarrow> m1 \<Rightarrow> int \<Rightarrow> m1" where
  "fitM1_step pts m wd = (let recent = recent_qtys 4 wd pts in
     if recent = [] then m
     else m\<lparr>byWeekday := (byWeekday m)[nat wd := mean recent], known := (known m)[nat wd := True]\<rparr>)"

definition fitM1 :: "point list \<Rightarrow> m1" where
  "fitM1 pts = foldl (fitM1_step pts)
     \<lparr>byWeekday = replicate 8 (Fin 0), fallback = mean (map pqty pts), known = replicate 8 False\<rparr> [1..7]"

definition m1_Predict :: "m1 \<Rightarrow> predictor" where
  "m1_Predict m d = (let wd = nat (Weekday d) in if known m ! wd then byWeekday m ! wd else fallback m)"

record m2 =
  level :: f64
  seasonal :: "f64 list"

definition seasonalIndex :: "point list \<Rightarrow> f64 list" where
  "seasonalIndex pts = (let idx = replicate 8 (Fin 1);
       window = drop (length pts - SeasonWeeks * 7) pts;
       overall = mean (map pqty window)
     in if fle overall (Fin 0) then idx
        else foldl (\<lambda>idx wd. let vs = map pqty (filter (\<lambda>p. Weekday (pday p) = wd) window) in
             if vs = [] then idx
             else let s = fdiv (mean vs) overall
                  in idx[nat wd := if flt s (pack (5 / 100)) then pack (5 / 100) else s])
           idx [1..7])"

definition fitM2 :: "f64 \<Rightarrow> point list \<Rightarrow> m2" where
  "fitM2 alpha pts = (let s = seasonalIndex pts;
       deseason = (\<lambda>p. fdiv (pqty p) (s ! nat (Weekday (pday p))));
       l0 = mean (map deseason (take 7 pts))
     in \<lparr>level = foldl (\<lambda>l p. fadd (fmul alpha (deseason p)) (fmul (fsub (Fin 1) alpha) l)) l0 pts,
         seasonal = s\<rparr>)"

definition m2_Predict :: "m2 \<Rightarrow> predictor" where
  "m2_Predict m d = (let v = fmul (level m) (seasonal m ! nat (Weekday d))
     in if flt v (Fin 0) then Fin 0 else v)"

definition fitterM1 :: fitter where
  "fitterM1 pts = m1_Predict (fitM1 pts)"

definition fitterM2 :: "f64 \<Rightarrow> fitter" where
  "fitterM2 alpha pts = m2_Predict (fitM2 alpha pts)"

section \<open>Backtest\<close>

definition zero_metrics :: metrics where
  "zero_metrics = \<lparr>metModel = [], WAPE = Fin 0, Bias = Fin 0, Sigma = Fin 0, Alpha = Fin 0,
     WindowDays = 0, DaysWithData = 0\<rparr>"

definition stddev :: "f64 list \<Rightarrow> f64" where
  "stddev values = (if length values < 2 then Fin 0 else
     let m = mean values;
         s = foldl (\<lambda>s v. let d = fsub v m in fadd s (fmul d d)) (Fin 0) values
     in fsqrt (fdiv s (f64_of_int (int (length values) - 1))))"

record backtest_sums =
  sumAbsErr :: f64
  sumActual :: f64
  sumErr :: f64
  errors :: "f64 list"

definition backtest_step :: "(day \<Rightarrow> f64 option) \<Rightarrow> predictor \<Rightarrow> backtest_sums \<Rightarrow> day \<Rightarrow> backtest_sums" where
  "backtest_step actual predict s d = (case actual d of None \<Rightarrow> s
     | Some act \<Rightarrow> let e = fsub (predict d) act
         in \<lparr>sumAbsErr = fadd (sumAbsErr s) (fabs e), sumActual = fadd (sumActual s) act,
             sumErr = fadd (sumErr s) e, errors = errors s @ [e]\<rparr>)"

definition backtest_origin :: "(day \<Rightarrow> f64 option) \<Rightarrow> point list \<Rightarrow> fitter \<Rightarrow> backtest_sums \<Rightarrow> nat \<Rightarrow> backtest_sums" where
  "backtest_origin actual pts fit s i = (let predict = fit (take i pts); origin = pday (pts ! (i - 1))
     in foldl (backtest_step actual predict) s (map (\<lambda>h. AddDays origin (int h)) [1..<Suc BacktestHorizon]))"

definition backtest_metrics :: "nat \<Rightarrow> backtest_sums \<Rightarrow> metrics" where
  "backtest_metrics n s = (let m = zero_metrics\<lparr>WindowDays := BacktestDays, DaysWithData := n\<rparr>;
       m' = (if errors s = [] then m\<lparr>WAPE := Fin 1\<rparr>
             else if fle (sumActual s) (Fin 0)
             then m\<lparr>WAPE := if feq (sumAbsErr s) (Fin 0) then Fin 0 else Fin 1\<rparr>
             else m\<lparr>WAPE := fdiv (sumAbsErr s) (sumActual s), Bias := fdiv (sumErr s) (sumActual s)\<rparr>)
     in m'\<lparr>Sigma := stddev (errors s)\<rparr>)"

definition backtest :: "point list \<Rightarrow> fitter \<Rightarrow> metrics" where
  "backtest pts fit = (if length pts < MinDaysForM1
     then zero_metrics\<lparr>WAPE := Fin 1, WindowDays := BacktestDays, DaysWithData := length pts\<rparr>
     else let actual = map_of (rev (map (\<lambda>p. (pday p, pqty p)) pts));
              firstOrigin = max MinDaysForM1 (length pts - BacktestDays);
              s0 = \<lparr>sumAbsErr = Fin 0, sumActual = Fin 0, sumErr = Fin 0, errors = []\<rparr>
          in backtest_metrics (length pts)
               (foldl (backtest_origin actual pts fit) s0 [firstOrigin..<length pts]))"

section \<open>The forecast\<close>

text \<open>\<open>None\<close> is the panic of \<open>MulFloat\<close>: this \<open>fromFloat\<close> does not test for NaN or infinity.\<close>

definition fromFloat :: "'d decimal_lib \<Rightarrow> f64 \<Rightarrow> 'd qty option" where
  "fromFloat D v = (if fle v (Fin 0) then Some (qZero D) else qMulFloat D (qFromInt D 1) v)"

definition zeroPoints :: "'d decimal_lib \<Rightarrow> day list \<Rightarrow> 'd fpoint list" where
  "zeroPoints D days = map (\<lambda>d. \<lparr>fpDay = d, fpQty = qZero D\<rparr>) days"

definition try_alpha :: "point list \<Rightarrow> model \<times> fitter \<times> metrics \<Rightarrow> f64 \<Rightarrow> model \<times> fitter \<times> metrics" where
  "try_alpha clean = (\<lambda>(best, bestFit, bestMetrics) alpha.
     let m = backtest clean (fitterM2 alpha)
     in if flt (WAPE m) (WAPE bestMetrics) then (ModelM2, fitterM2 alpha, m\<lparr>Alpha := alpha\<rparr>)
        else (best, bestFit, bestMetrics))"

definition choose_model :: "point list \<Rightarrow> model \<times> fitter \<times> metrics" where
  "choose_model clean = (let first = (ModelM1, fitterM1, backtest clean fitterM1)
     in if MinDaysForM2 \<le> length clean then foldl (try_alpha clean) first AlphaGrid else first)"

definition predict_points :: "'d decimal_lib \<Rightarrow> predictor \<Rightarrow> day list \<Rightarrow> 'd fpoint list option" where
  "predict_points D predict days =
     those (map (\<lambda>d. map_option (\<lambda>q. \<lparr>fpDay = d, fpQty = q\<rparr>) (fromFloat D (predict d))) days)"

definition horizon_days :: "day \<Rightarrow> int \<Rightarrow> day list" where
  "horizon_days asOf horizon = (let h = (if horizon \<le> 0 then HorizonDays else horizon)
     in map (\<lambda>i. AddDays asOf (int i)) [0..<nat h])"

definition Compute :: "'d decimal_lib \<Rightarrow> 'd observation list \<Rightarrow> day \<Rightarrow> int \<Rightarrow> 'd forecast_result option" where
  "Compute D series asOf horizon = (let days = horizon_days asOf horizon; clean = cleanSeries D series asOf
     in if length clean < MinDaysForM1
        then Some \<lparr>resModel = ModelM0, resPoints = zeroPoints D days,
                   resMetrics = zero_metrics\<lparr>metModel := ModelM0, WAPE := Fin 1, DaysWithData := length clean\<rparr>\<rparr>
        else let (best, bestFit, bestMetrics) = choose_model clean
             in case predict_points D (bestFit clean) days of None \<Rightarrow> None
                | Some points \<Rightarrow> Some \<lparr>resModel = best, resPoints = points,
                    resMetrics = bestMetrics\<lparr>metModel := best, WindowDays := BacktestDays,
                                             DaysWithData := length clean\<rparr>\<rparr>)"

end
