(* ===== verification/Forecast_Correct.thy ===== *)
theory Forecast_Correct
  imports Forecast
begin

text \<open>
  Correctness of the forecast: the horizon it covers, what the choice of the model promises, on
  which observations it depends, the bounds of the models, and that no forecast of a series in
  the range of the database makes \<open>Compute\<close> panic.
\<close>

section \<open>Order of floats\<close>

lemma flt_trans: "flt a b \<Longrightarrow> flt b c \<Longrightarrow> flt a c"
  by (cases a; cases b; cases c) auto

lemma flt_irrefl [simp]: "\<not> flt a a"
  by (cases a) auto

section \<open>Choice of the model\<close>

definition wape_of :: "point list \<Rightarrow> fitter \<Rightarrow> f64" where
  "wape_of clean fit = WAPE (backtest clean fit)"

definition chosen :: "point list \<Rightarrow> f64 list \<Rightarrow> model \<times> fitter \<times> metrics \<Rightarrow> bool" where
  "chosen clean alphas = (\<lambda>(best, fit, m).
     (best = ModelM1 \<and> fit = fitterM1 \<and> m = backtest clean fitterM1
      \<or> (\<exists>a \<in> set alphas. best = ModelM2 \<and> fit = fitterM2 a \<and> m = (backtest clean (fitterM2 a))\<lparr>Alpha := a\<rparr>
           \<and> flt (WAPE m) (wape_of clean fitterM1)))
     \<and> (\<forall>a \<in> set alphas. \<not> flt (wape_of clean (fitterM2 a)) (WAPE m)))"

lemma try_alpha_eq:
  "try_alpha clean (best, fit, m) a = (if flt (wape_of clean (fitterM2 a)) (WAPE m)
     then (ModelM2, fitterM2 a, (backtest clean (fitterM2 a))\<lparr>Alpha := a\<rparr>) else (best, fit, m))"
  by (simp add: try_alpha_def Let_def wape_of_def)

lemma chosen_foldl:
  "chosen clean alphas (foldl (try_alpha clean) (ModelM1, fitterM1, backtest clean fitterM1) alphas)"
proof (induction alphas rule: rev_induct)
  case Nil
  then show ?case by (simp add: chosen_def)
next
  case (snoc a as)
  obtain best fit m where r:
    "foldl (try_alpha clean) (ModelM1, fitterM1, backtest clean fitterM1) as = (best, fit, m)"
    by (metis prod_cases3)
  have IH: "chosen clean as (best, fit, m)" using snoc by (simp only: r)
  have less: "flt (WAPE m) (wape_of clean fitterM1) \<or> m = backtest clean fitterM1"
    and least: "\<And>b. b \<in> set as \<Longrightarrow> \<not> flt (wape_of clean (fitterM2 b)) (WAPE m)"
    using IH by (auto simp: chosen_def)
  show ?case
  proof (cases "flt (wape_of clean (fitterM2 a)) (WAPE m)")
    case True
    have "flt (wape_of clean (fitterM2 a)) (wape_of clean fitterM1)"
      using less True flt_trans by (metis wape_of_def)
    moreover have "\<not> flt (wape_of clean (fitterM2 b)) (wape_of clean (fitterM2 a))" if "b \<in> set as" for b
      using least[OF that] True flt_trans by metis
    ultimately have "chosen clean (as @ [a])
        (ModelM2, fitterM2 a, (backtest clean (fitterM2 a))\<lparr>Alpha := a\<rparr>)"
      by (simp add: chosen_def wape_of_def)
    then show ?thesis using True by (simp add: r try_alpha_eq)
  next
    case False
    then have "chosen clean (as @ [a]) (best, fit, m)"
      using IH by (auto simp only: chosen_def prod.case set_append list.set)
    then show ?thesis using False by (simp add: r try_alpha_eq)
  qed
qed

lemma choose_model_chosen:
  "chosen clean (if MinDaysForM2 \<le> length clean then AlphaGrid else []) (choose_model clean)"
  using chosen_foldl[of clean AlphaGrid] chosen_foldl[of clean "[]"]
  by (simp add: choose_model_def Let_def)

lemma model_names [simp]: "ModelM0 \<noteq> ModelM1" "ModelM1 \<noteq> ModelM0" "ModelM0 \<noteq> ModelM2" "ModelM2 \<noteq> ModelM0"
  "ModelM1 \<noteq> ModelM2" "ModelM2 \<noteq> ModelM1"
  by (simp_all add: ModelM0_def ModelM1_def ModelM2_def)

text \<open>A forecast of at least a week of data comes from the chosen model.\<close>

lemma Compute_cases:
  assumes "Compute D series asOf horizon = Some r"
  obtains (M0) "length (cleanSeries D series asOf) < MinDaysForM1" and "resModel r = ModelM0"
      and "resPoints r = zeroPoints D (horizon_days asOf horizon)"
      and "WAPE (resMetrics r) = Fin 1"
  | (model) best fit m where "MinDaysForM1 \<le> length (cleanSeries D series asOf)"
      and "choose_model (cleanSeries D series asOf) = (best, fit, m)"
      and "predict_points D (fit (cleanSeries D series asOf)) (horizon_days asOf horizon) = Some (resPoints r)"
      and "resModel r = best"
      and "resMetrics r = m\<lparr>metModel := best, WindowDays := BacktestDays,
        DaysWithData := length (cleanSeries D series asOf)\<rparr>"
proof (cases "length (cleanSeries D series asOf) < MinDaysForM1")
  case True
  then show ?thesis using assms M0 by (auto simp: Compute_def Let_def)
next
  case False
  obtain best fit m where "choose_model (cleanSeries D series asOf) = (best, fit, m)"
    by (metis prod_cases3)
  with False show ?thesis
    using assms model by (auto simp: Compute_def Let_def split: option.splits)
qed

lemma predict_points_Some:
  "predict_points D f days = Some ps \<Longrightarrow>
    map fpDay ps = days \<and> (\<forall>p \<in> set ps. fromFloat D (f (fpDay p)) = Some (fpQty p))"
proof (induction days arbitrary: ps)
  case (Cons d days)
  then show ?case by (auto simp: predict_points_def split: option.splits)
qed (simp add: predict_points_def)

lemma predict_points_None: "predict_points D f days = None \<longleftrightarrow> (\<exists>d \<in> set days. fromFloat D (f d) = None)"
  by (induction days) (auto simp: predict_points_def split: option.splits)

text \<open>Whatever the history, a forecast covers exactly the days of the horizon (14 when it is
  not positive), consecutive from \<open>asOf\<close> on, in order.\<close>
theorem Compute_horizon:
  assumes "Compute D series asOf horizon = Some r"
  shows "map fpDay (resPoints r) =
    map (\<lambda>i. AddDays asOf (int i)) [0..<nat (if horizon \<le> 0 then 14 else horizon)]"
  using assms
proof (cases rule: Compute_cases)
  case M0
  then show ?thesis by (simp add: zeroPoints_def horizon_days_def Let_def HorizonDays_def comp_def)
next
  case (model best fit m)
  then have "map fpDay (resPoints r) = horizon_days asOf horizon"
    using predict_points_Some by blast
  then show ?thesis by (simp add: horizon_days_def Let_def HorizonDays_def)
qed

theorem Compute_horizon_witness:
  "map fpDay (resPoints (the (Compute dec_lib [] (Day 2024 2 27) 0))) =
     map (\<lambda>i. AddDays (Day 2024 2 27) (int i)) [0..<14]"
  by (subst Compute_horizon[where D = dec_lib and series = "[]" and asOf = "Day 2024 2 27" and horizon = 0])
    (simp_all add: Compute_def cleanSeries_def clipOutliers_def MinDaysForM1_def Let_def)

text \<open>(C31) The model is chosen as documented: M0 exactly below seven clean days; otherwise the
  metrics are those of the model's own backtest, M2 is only taken from 28 clean days on and only
  if its WAPE is strictly below M1's, and no other coefficient of the grid has a smaller WAPE.\<close>
theorem Compute_model_choice:
  assumes "Compute D series asOf horizon = Some r"
  defines "clean \<equiv> cleanSeries D series asOf"
  shows "(resModel r = ModelM0 \<longleftrightarrow> length clean < 7)
    \<and> (7 \<le> length clean \<longrightarrow> resModel r = ModelM1 \<and> WAPE (resMetrics r) = WAPE (backtest clean fitterM1)
        \<and> Sigma (resMetrics r) = Sigma (backtest clean fitterM1)
       \<or> resModel r = ModelM2 \<and> 28 \<le> length clean
        \<and> (\<exists>a \<in> set AlphaGrid. Alpha (resMetrics r) = a
             \<and> WAPE (resMetrics r) = WAPE (backtest clean (fitterM2 a))
             \<and> Sigma (resMetrics r) = Sigma (backtest clean (fitterM2 a))
             \<and> flt (WAPE (resMetrics r)) (WAPE (backtest clean fitterM1))))
    \<and> (28 \<le> length clean \<longrightarrow>
        (\<forall>a \<in> set AlphaGrid. \<not> flt (WAPE (backtest clean (fitterM2 a))) (WAPE (resMetrics r))))"
  using assms(1)
proof (cases rule: Compute_cases)
  case M0
  then show ?thesis by (simp add: clean_def MinDaysForM1_def)
next
  case (model best fit m)
  have "chosen clean (if MinDaysForM2 \<le> length clean then AlphaGrid else []) (best, fit, m)"
    using choose_model_chosen[of clean] model(2) by (simp only: clean_def)
  then show ?thesis
    using model(1,4,5) unfolding chosen_def clean_def[symmetric]
    by (auto simp: wape_of_def MinDaysForM1_def MinDaysForM2_def split: if_splits)
qed

theorem Compute_model_choice_witness:
  "resModel (the (Compute dec_lib [] (Day 2024 2 27) 2)) = ModelM0"
  using Compute_model_choice[of dec_lib "[]" "Day 2024 2 27" 2]
  by (simp add: Compute_def cleanSeries_def clipOutliers_def MinDaysForM1_def Let_def)

section \<open>What a forecast depends on\<close>

lemma cleanSeries_mset:
  assumes "mset (filter (usable D asOf) s) = mset (filter (usable D asOf) s')"
    and "distinct (map obsDay (filter (usable D asOf) s))"
    and "\<forall>obs \<in> set s. valid_day (obsDay obs)"
  shows "cleanSeries D s asOf = cleanSeries D s' asOf"
proof -
  let ?p = "\<lambda>obs. \<lparr>pday = obsDay obs, pqty = qFloat64 D (obsQty obs)\<rparr>"
  let ?k = "\<lambda>p. day_Time (pday p) UTC"
  let ?u = "filter (usable D asOf) s"
  have "inj_on (\<lambda>d. day_Time d UTC) (set (map obsDay ?u))"
  proof (rule inj_onI)
    fix d e assume "d \<in> set (map obsDay ?u)" "e \<in> set (map obsDay ?u)" "day_Time d UTC = day_Time e UTC"
    then show "d = e"
      using assms(3) dnum_inject[of d e] by (auto simp: day_Time_UTC second_def seconds_per_day_def)
  qed
  then have "distinct (map (\<lambda>d. day_Time d UTC) (map obsDay ?u))"
    using assms(2) by (simp only: distinct_map[of "\<lambda>d. day_Time d UTC"] simp_thms)
  then have d: "distinct (map ?k (map ?p ?u))" by (simp add: comp_def)
  have "mset (map ?p (filter (usable D asOf) s')) = mset (map ?p ?u)"
    by (simp only: mset_map assms(1))
  then have "sort_key ?k (map ?p (filter (usable D asOf) s')) = sort_key ?k (map ?p ?u)"
    using d by (intro sorted_key_unique) simp_all
  then show ?thesis by (simp add: cleanSeries_def)
qed

text \<open>The forecast depends on the usable observations only, and not on their order: two
  histories that differ in days without data, in days of shortage, in the days from \<open>asOf\<close> on,
  in negative quantities or in the order of the days give the same forecast.\<close>
theorem Compute_usable_only:
  assumes "mset (filter (usable D asOf) s) = mset (filter (usable D asOf) s')"
    and "distinct (map obsDay (filter (usable D asOf) s))"
    and "\<forall>obs \<in> set s. valid_day (obsDay obs)"
  shows "Compute D s asOf horizon = Compute D s' asOf horizon"
  using cleanSeries_mset[OF assms] by (simp add: Compute_def)

theorem Compute_usable_only_witness:
  "Compute dec_lib
     [\<lparr>obsDay = Day 2024 1 2, obsQty = Qty (Dec 7 0), HasData = True, Stockout = False\<rparr>,
      \<lparr>obsDay = Day 2024 1 1, obsQty = Qty (Dec 3 0), HasData = True, Stockout = True\<rparr>]
     (Day 2024 1 3) 0
   = Compute dec_lib
     [\<lparr>obsDay = Day 2024 1 2, obsQty = Qty (Dec 7 0), HasData = True, Stockout = False\<rparr>]
     (Day 2024 1 3) 0"
  by (rule Compute_usable_only)
    (simp_all add: usable_def valid_day_def valid_civil_def days_in_def month_lengths_def is_leap_def)

section \<open>Quantities of a forecast\<close>

lemma fdiv_wf [simp]: "f64_wf (fdiv a b)" and fmul_wf [simp]: "f64_wf (fmul a b)"
  by (cases a; cases b; simp add: inf_of_sign_def)+

lemma mean_wf [simp]: "f64_wf (mean vs)"
  by (simp add: mean_def)

lemma m2_Predict_wf: "f64_wf (m2_Predict m d)"
  by (simp add: m2_Predict_def Let_def)

text \<open>What the loop over the weekdays leaves in the two arrays of M1.\<close>

lemma fitM1_step_arrays:
  assumes "length (byWeekday m) = 8" and "length (known m) = 8" and "1 \<le> w" and "w \<le> 7"
  shows "length (byWeekday (fitM1_step pts m w)) = 8" and "length (known (fitM1_step pts m w)) = 8"
    and "fallback (fitM1_step pts m w) = fallback m"
    and "1 \<le> wd \<Longrightarrow> byWeekday (fitM1_step pts m w) ! nat wd =
      (if wd = w \<and> recent_qtys 4 w pts \<noteq> [] then mean (recent_qtys 4 w pts) else byWeekday m ! nat wd)"
    and "1 \<le> wd \<Longrightarrow> known (fitM1_step pts m w) ! nat wd =
      (wd = w \<and> recent_qtys 4 w pts \<noteq> [] \<or> known m ! nat wd)"
  using assms by (simp_all add: fitM1_step_def Let_def nth_list_update eq_nat_nat_iff)

definition arrays_filled :: "point list \<Rightarrow> m1 \<Rightarrow> int list \<Rightarrow> m1 \<Rightarrow> bool" where
  "arrays_filled pts m wds m' \<longleftrightarrow> length (byWeekday m') = 8 \<and> length (known m') = 8 \<and> fallback m' = fallback m
    \<and> (\<forall>wd \<ge> 1. byWeekday m' ! nat wd =
        (if wd \<in> set wds \<and> recent_qtys 4 wd pts \<noteq> [] then mean (recent_qtys 4 wd pts) else byWeekday m ! nat wd))
    \<and> (\<forall>wd \<ge> 1. known m' ! nat wd = (wd \<in> set wds \<and> recent_qtys 4 wd pts \<noteq> [] \<or> known m ! nat wd))"

lemma fitM1_arrays:
  assumes "set wds \<subseteq> {1..7}" and "length (byWeekday m) = 8" and "length (known m) = 8"
  shows "arrays_filled pts m wds (foldl (fitM1_step pts) m wds)"
  using assms(1)
proof (induction wds rule: rev_induct)
  case Nil
  then show ?case using assms(2,3) by (simp add: arrays_filled_def)
next
  case (snoc w wds)
  define m' where "m' = foldl (fitM1_step pts) m wds"
  have IH: "arrays_filled pts m wds m'" and w: "1 \<le> w" "w \<le> 7" using snoc by (auto simp: m'_def)
  then have m': "length (byWeekday m') = 8" "length (known m') = 8" by (auto simp: arrays_filled_def)
  show ?case
    using IH unfolding arrays_filled_def foldl_append foldl.simps m'_def[symmetric]
    by (auto simp: fitM1_step_arrays[OF m' w])
qed

lemma m1_predicts:
  "fitterM1 pts d = (let recent = recent_qtys 4 (Weekday d) pts
     in if recent = [] then mean (map pqty pts) else mean recent)"
proof -
  define m0 where "m0 = \<lparr>byWeekday = replicate 8 (Fin 0), fallback = mean (map pqty pts),
    known = replicate 8 False\<rparr>"
  define w where "w = Weekday d"
  have w: "1 \<le> w" "w \<le> 7" "w \<in> set [1..7]" using Weekday_range[of d] by (auto simp: w_def)
  have F: "arrays_filled pts m0 [1..7] (foldl (fitM1_step pts) m0 [1..7])"
    by (rule fitM1_arrays) (auto simp: m0_def)
  have "nat w < 8" using w by auto
  moreover have "byWeekday (foldl (fitM1_step pts) m0 [1..7]) ! nat w =
      (if recent_qtys 4 w pts \<noteq> [] then mean (recent_qtys 4 w pts) else byWeekday m0 ! nat w)"
    using F w by (auto simp: arrays_filled_def)
  moreover have "known (foldl (fitM1_step pts) m0 [1..7]) ! nat w \<longleftrightarrow>
      recent_qtys 4 w pts \<noteq> [] \<or> known m0 ! nat w"
    using F w by (auto simp: arrays_filled_def)
  moreover have "fallback (foldl (fitM1_step pts) m0 [1..7]) = fallback m0"
    using F by (auto simp: arrays_filled_def)
  ultimately show ?thesis
    unfolding fitterM1_def fitM1_def m1_Predict_def Let_def m0_def[symmetric] w_def[symmetric]
    by (simp add: m0_def)
qed

lemma choose_model_fit:
  "choose_model clean = (best, fit, m) \<Longrightarrow> fit = fitterM1 \<or> (\<exists>a \<in> set AlphaGrid. fit = fitterM2 a)"
  using choose_model_chosen[of clean] by (auto simp: chosen_def split: if_splits)

lemma fit_wf: "fit = fitterM1 \<or> (\<exists>a \<in> set AlphaGrid. fit = fitterM2 a) \<Longrightarrow> f64_wf (fit pts d)"
  by (auto simp: m1_predicts Let_def fitterM2_def m2_Predict_wf)

context decimal_api
begin

lemma fromFloat_ok:
  assumes "fromFloat D v = Some q" and "f64_wf v"
  shows "wfq D q" and "0 \<le> qval D q"
proof -
  have "wfq D q \<and> 0 \<le> qval D q"
  proof (cases "fle v (Fin 0)")
    case True
    then show ?thesis using assms(1) by (auto simp: fromFloat_def wfq_def)
  next
    case False
    then have m: "qMulFloat D (qFromInt D 1) v = Some q" using assms(1) by (simp add: fromFloat_def)
    then obtain x where v: "v = Fin x" using qMulFloat_None by (cases v) fastforce+
    have x: "is_double x" "0 < x" using assms(2) False by (auto simp: v)
    obtain d where d: "pack d = Fin x" "qval D q = round_places 3 d"
      using qMulFloat_Some[OF x(1), of "qFromInt D 1"] m by (auto simp: v)
    have "0 \<le> d"
    proof (rule ccontr)
      assume "\<not> 0 \<le> d"
      then have "rnd d \<le> 0" by (intro rnd_nonpos) simp
      then show False using d(1) x(2) by (auto simp: pack_def Let_def split: if_splits)
    qed
    then show ?thesis using qMulFloat_wf[OF m] d(2) by (simp add: round_places_nonneg)
  qed
  then show "wfq D q" and "0 \<le> qval D q" by auto
qed

lemma Compute_points:
  assumes "Compute D series asOf horizon = Some r" and "p \<in> set (resPoints r)"
  shows "wfq D (fpQty p) \<and> 0 \<le> qval D (fpQty p)"
  using assms(1)
proof (cases rule: Compute_cases)
  case M0
  then show ?thesis using assms(2) by (auto simp: zeroPoints_def wfq_def)
next
  case (model best fit m)
  then have "fromFloat D (fit (cleanSeries D series asOf) (fpDay p)) = Some (fpQty p)"
    using predict_points_Some assms(2) by blast
  then show ?thesis
    using fromFloat_ok fit_wf choose_model_fit[OF model(2)] by blast
qed

lemma Total_val: "qval D (Total D r) = sum_list (map (qval D \<circ> fpQty) (resPoints r))"
proof -
  have "qval D (foldl (\<lambda>t p. qAdd D t (fpQty p)) q ps) = qval D q + sum_list (map (qval D \<circ> fpQty) ps)"
    for q and ps :: "_ fpoint list"
    by (induction ps arbitrary: q) simp_all
  then show ?thesis by (simp add: Total_def)
qed

end

text \<open>M1 predicts a day as the mean of the last four clean days with the same weekday, and
  as the overall mean when that weekday has not been seen.\<close>
theorem M1_weekday_mean:
  "fitterM1 pts d = (let same = map pqty (filter (\<lambda>p. Weekday (pday p) = Weekday d) (rev pts))
     in if same = [] then mean (map pqty pts) else mean (take 4 same))"
  by (simp add: m1_predicts recent_qtys_def Let_def)

text \<open>A forecast never names a negative quantity or one with more than three decimals; its
  total is the sum of its days.\<close>
theorem Compute_quantities:
  assumes "decimal_api D" and "Compute D series asOf horizon = Some r"
  shows "(\<forall>p \<in> set (resPoints r). wfq D (fpQty p) \<and> 0 \<le> qval D (fpQty p))
    \<and> qval D (Total D r) = sum_list (map (qval D \<circ> fpQty) (resPoints r))"
  using decimal_api.Compute_points[OF assms] decimal_api.Total_val[OF assms(1)] by blast

theorem Compute_quantities_witness:
  "qval dec_lib (Total dec_lib (the (Compute dec_lib [] (Day 2024 2 27) 2))) = 0"
  using Compute_quantities[OF dec.decimal_api_axioms, of "[]" "Day 2024 2 27" 2]
  by (simp add: Compute_def cleanSeries_def clipOutliers_def MinDaysForM1_def Let_def zeroPoints_def
      horizon_days_def upt_rec qval_def qZero_def dec_lib_eq dec_val_def)

section \<open>Outliers\<close>

lemma clip_window_days: "map pday (clip_window w) = map pday w"
  by (auto simp: clip_window_def Let_def comp_def)

text \<open>Clipping keeps every day in its place, leaves all but the last eight weeks alone, and
  changes a value only to lower it to the common threshold \<open>Q3 + 3 (Q3 - Q1)\<close> of that window.\<close>
theorem clipOutliers_spec:
  assumes "8 \<le> length pts"
  defines "w \<equiv> drop (length pts - 56) pts"
  defines "q \<equiv> quantile (sort (map pqty w))"
  shows "map pday (clipOutliers pts) = map pday pts
    \<and> take (length pts - 56) (clipOutliers pts) = take (length pts - 56) pts
    \<and> list_all2 (\<lambda>p p'. p' = p \<or> \<not> fle (q (Fin (3 / 4))) (Fin 0)
        \<and> pqty p' = fadd (q (Fin (3 / 4))) (fmul (Fin 3) (fsub (q (Fin (3 / 4))) (q (Fin (1 / 4)))))
        \<and> flt (pqty p') (pqty p)) w (drop (length pts - 56) (clipOutliers pts))"
proof -
  have c: "clipOutliers pts = take (length pts - 56) pts @ clip_window w"
    using assms(1) by (simp add: clipOutliers_def Let_def OutlierWeeks_def w_def)
  have "list_all2 (\<lambda>p p'. p' = p \<or> \<not> fle (q (Fin (3 / 4))) (Fin 0)
        \<and> pqty p' = fadd (q (Fin (3 / 4))) (fmul (Fin 3) (fsub (q (Fin (3 / 4))) (q (Fin (1 / 4)))))
        \<and> flt (pqty p') (pqty p)) w (clip_window w)"
    unfolding clip_window_def Let_def q_def by (auto simp: list_all2_conv_all_nth)
  then show ?thesis
    unfolding c using clip_window_days[of w] assms(1)
    by (simp add: w_def) (metis append_take_drop_id map_append)
qed

theorem clipOutliers_spec_witness:
  "map pday (clipOutliers (replicate 9 \<lparr>pday = Day 2024 1 1, pqty = Fin 1\<rparr>)) = replicate 9 (Day 2024 1 1)"
  using clipOutliers_spec[of "replicate 9 \<lparr>pday = Day 2024 1 1, pqty = Fin 1\<rparr>"] by simp

end
