(* ===== verification/Delivery_Window.thy ===== *)
theory Delivery_Window
  imports Calendar
begin

text \<open>
  \<open>internal/replenishment/window.go\<close>: the delivery windows of a supplier. The weekday set is
  the \<open>uint8\<close> bit mask of the source.
\<close>

unbundle bit_operations_syntax

section \<open>Model\<close>

record supplier_terms =
  LeadTimeDays :: int
  DeliveryWeekdays :: "int list"
  Cutoff :: time_of_day

record delivery_window =
  OrderDay :: day
  D1 :: day
  D2 :: day
  OrderBy :: instant
  AfterCutoff :: bool

definition CanWait :: "delivery_window \<Rightarrow> bool" where
  "CanWait w = day_Equal (D1 w) (D2 w)"

definition weekdaySet :: "int list \<Rightarrow> 8 word" where
  "weekdaySet weekdays = foldl (\<lambda>set wd. if 1 \<le> wd \<and> wd \<le> 7 then set OR push_bit (nat wd) 1 else set) 0 weekdays"

fun first_allowed :: "8 word \<Rightarrow> day \<Rightarrow> nat \<Rightarrow> nat \<Rightarrow> day" where
  "first_allowed allowed earliest i 0 = earliest"
| "first_allowed allowed earliest i (Suc n) = (let d = AddDays earliest (int i) in
     if allowed AND push_bit (nat (Weekday d)) 1 \<noteq> 0 then d
     else first_allowed allowed earliest (Suc i) n)"

definition deliveryDate :: "day \<Rightarrow> supplier_terms \<Rightarrow> day" where
  "deliveryDate orderDay s = (let earliest = AddDays orderDay (max (LeadTimeDays s) 0) in
     if DeliveryWeekdays s = [] then earliest else
     let allowed = weekdaySet (DeliveryWeekdays s) in
     if allowed = 0 then earliest else first_allowed allowed earliest 0 7)"

text \<open>A nil location is UTC.\<close>

definition ComputeWindow :: "instant \<Rightarrow> location option \<Rightarrow> supplier_terms \<Rightarrow> delivery_window" where
  "ComputeWindow now oloc s = (let loc = (case oloc of None \<Rightarrow> UTC | Some l \<Rightarrow> l);
       today = DayIn now loc; afterCutoff = (\<not> tod_Before (Cutoff s) now loc);
       orderDay = (if afterCutoff then AddDays today 1 else today)
     in \<lparr>OrderDay = orderDay, D1 = deliveryDate orderDay s, D2 = deliveryDate (AddDays orderDay 1) s,
         OrderBy = On (Cutoff s) orderDay loc, AfterCutoff = afterCutoff\<rparr>)"

section \<open>Lemmas\<close>

definition allowed_weekday :: "supplier_terms \<Rightarrow> int \<Rightarrow> bool" where
  "allowed_weekday s wd \<longleftrightarrow> wd \<in> set (DeliveryWeekdays s) \<or> (\<forall>x \<in> set (DeliveryWeekdays s). x < 1 \<or> 7 < x)"

lemma bit_weekdaySet:
  assumes "1 \<le> k" and "k \<le> 7"
  shows "bit (weekdaySet ws) (nat k) \<longleftrightarrow> k \<in> set ws"
proof (induction ws rule: rev_induct)
  case (snoc w ws)
  have "nat k = nat w \<longleftrightarrow> k = w" if "1 \<le> w" using that assms by auto
  moreover have "bit (push_bit (nat w) 1 :: 8 word) (nat k) \<longleftrightarrow> nat k = nat w" if "1 \<le> w" "w \<le> 7"
    using that assms by (auto simp: bit_simps)
  ultimately show ?case using snoc assms by (auto simp: weekdaySet_def bit_or_iff)
qed (simp add: weekdaySet_def)

lemma bit_weekdaySet_range: "bit (weekdaySet ws) n \<Longrightarrow> 1 \<le> n \<and> n \<le> 7"
proof (induction ws rule: rev_induct)
  case (snoc w ws)
  then show ?case
    by (auto simp: weekdaySet_def bit_or_iff bit_simps split: if_splits)
qed (simp add: weekdaySet_def)

lemma and_push_bit_1: "a AND push_bit n 1 \<noteq> 0 \<longleftrightarrow> bit a n" for a :: "'a :: len word"
proof
  assume "a AND push_bit n 1 \<noteq> 0"
  then obtain m where "bit (a AND push_bit n 1) m" by (metis bit_eqI bit_0_eq bot_apply bot_bool_def)
  then show "bit a n" by (auto simp: bit_and_iff bit_simps)
next
  assume "bit a n"
  then have "bit (a AND push_bit n 1) n"
    by (auto simp: bit_and_iff bit_simps dest: bit_imp_le_length)
  then show "a AND push_bit n 1 \<noteq> 0" by auto
qed

lemma weekdaySet_0: "weekdaySet ws = 0 \<longleftrightarrow> (\<forall>x \<in> set ws. x < 1 \<or> 7 < x)"
proof
  assume "weekdaySet ws = 0"
  then have "\<not> (1 \<le> x \<and> x \<le> 7)" if "x \<in> set ws" for x using bit_weekdaySet[of x ws] that by auto
  then show "\<forall>x \<in> set ws. x < 1 \<or> 7 < x" by force
next
  assume *: "\<forall>x \<in> set ws. x < 1 \<or> 7 < x"
  show "weekdaySet ws = 0"
  proof (rule bit_eqI)
    fix n
    show "bit (weekdaySet ws) n \<longleftrightarrow> bit (0 :: 8 word) n"
      using bit_weekdaySet_range[of ws n] bit_weekdaySet[of "int n" ws] * by fastforce
  qed
qed

text \<open>Every weekday occurs among seven consecutive days.\<close>

lemma weekday_within_week:
  assumes "1 \<le> k" and "k \<le> 7"
  shows "\<exists>i < 7. Weekday (AddDays d (int i)) = k"
proof -
  define j where "j = (k - 1 - (dnum d + 3)) mod 7"
  have j: "0 \<le> j" "j < 7" by (simp_all add: j_def)
  have "(dnum d + 3 + j) mod 7 = (k - 1) mod 7"
    unfolding j_def by (metis add.commute diff_add_cancel mod_add_left_eq)
  also have "\<dots> = k - 1" using assms by (intro mod_pos_pos_trivial) auto
  finally have "(dnum d + 3 + j) mod 7 + 1 = k" by simp
  moreover have "dnum d + int (nat j) + 3 = dnum d + 3 + j" using j by simp
  ultimately have "Weekday (AddDays d (int (nat j))) = k" by (simp only: Weekday_num dnum_AddDays)
  then show ?thesis using j by (intro exI[of _ "nat j"]) auto
qed

lemma first_allowed_spec:
  assumes "\<exists>j. i \<le> j \<and> j < i + n \<and> bit allowed (nat (Weekday (AddDays e (int j))))"
  shows "\<exists>j. i \<le> j \<and> j < i + n \<and> first_allowed allowed e i n = AddDays e (int j)
    \<and> bit allowed (nat (Weekday (AddDays e (int j))))
    \<and> (\<forall>k. i \<le> k \<longrightarrow> k < j \<longrightarrow> \<not> bit allowed (nat (Weekday (AddDays e (int k)))))"
  using assms
proof (induction n arbitrary: i)
  case (Suc n)
  show ?case
  proof (cases "bit allowed (nat (Weekday (AddDays e (int i))))")
    case True
    then have "first_allowed allowed e i (Suc n) = AddDays e (int i)"
      by (simp only: first_allowed.simps Let_def and_push_bit_1 if_True)
    with True show ?thesis by (intro exI[of _ i]) simp
  next
    case False
    with Suc.prems obtain j where "Suc i \<le> j" "j < Suc i + n" "bit allowed (nat (Weekday (AddDays e (int j))))"
      by (metis Suc_leI add_Suc_right add_Suc order_le_imp_less_or_eq)
    with Suc.IH[of "Suc i"] obtain j where "Suc i \<le> j" "j < Suc i + n"
      "first_allowed allowed e (Suc i) n = AddDays e (int j)"
      "bit allowed (nat (Weekday (AddDays e (int j))))"
      "\<And>k. Suc i \<le> k \<Longrightarrow> k < j \<Longrightarrow> \<not> bit allowed (nat (Weekday (AddDays e (int k))))" by blast
    moreover have "first_allowed allowed e i (Suc n) = first_allowed allowed e (Suc i) n"
      using False by (simp only: first_allowed.simps Let_def and_push_bit_1 if_False)
    moreover have "k = i \<or> Suc i \<le> k" if "i \<le> k" for k using that by auto
    ultimately show ?thesis using False by (intro exI[of _ j]) auto
  qed
qed auto

text \<open>The delivery date is the first allowed day from the earliest one on.\<close>

lemma deliveryDate_spec:
  defines "earliest \<equiv> \<lambda>d s. AddDays d (max (LeadTimeDays s) 0)"
  shows "\<exists>j < 7. deliveryDate d s = AddDays (earliest d s) (int j)
    \<and> allowed_weekday s (Weekday (deliveryDate d s))
    \<and> (\<forall>k < j. \<not> allowed_weekday s (Weekday (AddDays (earliest d s) (int k))))"
proof (cases "weekdaySet (DeliveryWeekdays s) = 0")
  case True
  then have "allowed_weekday s wd" for wd by (simp add: allowed_weekday_def weekdaySet_0)
  moreover have "deliveryDate d s = AddDays (earliest d s) (int 0)"
    using True by (simp add: deliveryDate_def earliest_def Let_def)
  ultimately show ?thesis by (intro exI[of _ 0]) simp
next
  case False
  have allowed: "bit (weekdaySet (DeliveryWeekdays s)) (nat (Weekday x)) \<longleftrightarrow> allowed_weekday s (Weekday x)" for x
    using bit_weekdaySet[OF Weekday_range, of "DeliveryWeekdays s"] False
    by (simp add: allowed_weekday_def flip: weekdaySet_0)
  obtain w where "w \<in> set (DeliveryWeekdays s)" "1 \<le> w" "w \<le> 7"
    using False unfolding weekdaySet_0 by force
  then obtain i where "i < 7" "allowed_weekday s (Weekday (AddDays (earliest d s) (int i)))"
    using weekday_within_week[of w "earliest d s"] by (auto simp: allowed_weekday_def)
  then have "\<exists>j. 0 \<le> j \<and> j < 0 + 7 \<and>
      bit (weekdaySet (DeliveryWeekdays s)) (nat (Weekday (AddDays (earliest d s) (int j))))"
    unfolding allowed by auto
  from first_allowed_spec[OF this] show ?thesis
    using False unfolding allowed
    by (auto simp: deliveryDate_def earliest_def Let_def weekdaySet_0)
qed

lemma deliveryDate_valid [simp]: "valid_day (deliveryDate d s)"
  using deliveryDate_spec[of d s] by (metis AddDays_valid)

lemma deliveryDate_least:
  assumes "valid_day e" and "dnum d + max (LeadTimeDays s) 0 \<le> dnum e" and "allowed_weekday s (Weekday e)"
  shows "dnum (deliveryDate d s) \<le> dnum e"
proof (rule ccontr)
  define m where "m = max (LeadTimeDays s) 0"
  assume "\<not> ?thesis"
  moreover obtain j where "deliveryDate d s = AddDays (AddDays d m) (int j)"
    and "\<forall>k < j. \<not> allowed_weekday s (Weekday (AddDays (AddDays d m) (int k)))"
    using deliveryDate_spec[of d s] by (auto simp: m_def)
  moreover define k where "k = nat (dnum e - dnum d - m)"
  ultimately have "k < j" "AddDays (AddDays d m) (int k) = e"
    using assms(1,2) by (auto simp: m_def AddDays_num)
  with \<open>\<forall>k < j. _ k\<close> assms(3) show False by blast
qed

section \<open>Properties\<close>

text \<open>The delivery date is the least day that is not before order day plus lead time and on
  which the supplier delivers (any day, when no valid weekday is listed); it is at most six days
  later than that bound.\<close>
theorem deliveryDate_first_allowed:
  "(let e = dnum d + max (LeadTimeDays s) 0; x = deliveryDate d s
    in valid_day x \<and> e \<le> dnum x \<and> dnum x < e + 7 \<and> allowed_weekday s (Weekday x)
       \<and> (\<forall>n. e \<le> n \<and> n < dnum x \<longrightarrow> \<not> allowed_weekday s (Weekday (day_of_num n))))"
proof -
  obtain j where "j < 7" "deliveryDate d s = AddDays (AddDays d (max (LeadTimeDays s) 0)) (int j)"
    "allowed_weekday s (Weekday (deliveryDate d s))"
    using deliveryDate_spec[of d s] by auto
  moreover have "dnum (deliveryDate d s) \<le> n"
    if "dnum d + max (LeadTimeDays s) 0 \<le> n" "allowed_weekday s (Weekday (day_of_num n))" for n
    using deliveryDate_least[of "day_of_num n" d s] that by simp
  ultimately show ?thesis by (force simp: Let_def)
qed

theorem deliveryDate_first_allowed_witness:
  "deliveryDate (Day 2024 3 6) \<lparr>LeadTimeDays = 1, DeliveryWeekdays = [1, 9], Cutoff = TimeOfDay 16 0\<rparr> = Day 2024 3 11"
proof -
  let ?s = "\<lparr>LeadTimeDays = 1, DeliveryWeekdays = [1, 9], Cutoff = TimeOfDay 16 0\<rparr>"
  let ?x = "deliveryDate (Day 2024 3 6) ?s"
  have d: "dnum (Day 2024 3 6) = 19788"
    by (simp add: dnum_def civil_to_days_def days_before_year_def unix_day_eq days_before_month_def
        month_lengths_def is_leap_def Let_def numeral_2_eq_2)
  have "valid_day ?x \<and> 19789 \<le> dnum ?x \<and> dnum ?x < 19796 \<and> (Weekday ?x = 1 \<or> Weekday ?x = 9)"
    using deliveryDate_first_allowed[of "Day 2024 3 6" ?s] by (simp add: d Let_def allowed_weekday_def)
  then have "valid_day ?x" and b: "19789 \<le> dnum ?x" "dnum ?x < 19796" and "Weekday ?x = 1"
    using Weekday_range(2)[of ?x] by linarith+
  then have "(dnum ?x + 3) mod 7 = 0" by (simp add: Weekday_num)
  then have "dnum ?x = 19793" using b by presburger
  moreover have "dnum (Day 2024 3 11) = 19793"
    by (simp add: dnum_def civil_to_days_def days_before_year_def unix_day_eq days_before_month_def
        month_lengths_def is_leap_def Let_def numeral_2_eq_2)
  ultimately show ?thesis
    using \<open>valid_day ?x\<close> dnum_inject[of ?x "Day 2024 3 11"]
    by (simp add: valid_day_def valid_civil_def days_in_def month_lengths_def)
qed

section \<open>Offsets of a zone\<close>

text \<open>The offsets a zone has had at some time, in seconds east of UTC.\<close>

definition zone_offsets :: "location \<Rightarrow> int list" where
  "zone_offsets loc = base_offset loc # map snd (transitions loc)"

lemma zone_scan_offset: "fst (zone_scan sec off start ts) \<in> insert off (snd ` set ts)"
  by (induction sec off start ts rule: zone_scan.induct) auto

lemma zone_offset_in: "zone_offset loc sec \<in> set (zone_offsets loc)"
  using zone_scan_offset[of sec "base_offset loc" "- (2 ^ 63)" "transitions loc"]
  by (simp add: zone_offset_def zone_lookup_def zone_offsets_def)

text \<open>A time of day is reached by one of the zone's offsets.\<close>

lemma On_offset:
  obtains off where "off \<in> set (zone_offsets loc)"
    and "On t d loc = (dnum d * 86400 + (tHour t * 3600 + tMinute t * 60) - off) * second"
proof -
  define unix where "unix = dnum d * 86400 + (tHour t * 3600 + tMinute t * 60)"
  obtain off start stop where z: "zone_lookup loc unix = (off, start, stop)" by (metis prod.exhaust)
  then have "off = zone_offset loc unix" by (simp add: zone_offset_def)
  then have "\<exists>off \<in> set (zone_offsets loc). On t d loc = (unix - off) * second"
    using zone_offset_in[of loc unix] zone_offset_in[of loc "unix - off"] z
    by (cases "off \<noteq> 0 \<and> (unix - off < start \<or> stop \<le> unix - off)")
      (auto simp: On_def time_date_def Let_def dnum_def seconds_per_day_def unix_def)
  then show thesis using that by (auto simp: unix_def)
qed

text \<open>A local day begins after every instant of the day before, unless the clock jumps forward between
  them by more than what the two times of day allow.\<close>

lemma next_day_later:
  assumes "\<And>a b. a \<in> set (zone_offsets loc) \<Longrightarrow> b \<in> set (zone_offsets loc) \<Longrightarrow> b - a \<le> tHour t * 3600 + tMinute t * 60"
  shows "now < On t (AddDays (DayIn now loc) 1) loc"
proof -
  obtain off where off: "off \<in> set (zone_offsets loc)"
    and on: "On t (AddDays (DayIn now loc) 1) loc = (dnum (AddDays (DayIn now loc) 1) * 86400 + (tHour t * 3600 + tMinute t * 60) - off) * second"
    by (rule On_offset)
  define l where "l = now div second + zone_offset loc (now div second)"
  have today: "dnum (DayIn now loc) = l div 86400"
    by (simp add: DayIn_def local_date_def local_seconds_def Let_def l_def seconds_per_day_def flip: day_of_num_def)
  have "l < (l div 86400 + 1) * 86400" by simp
  moreover have "off - zone_offset loc (now div second) \<le> tHour t * 3600 + tMinute t * 60"
    by (rule assms[OF zone_offset_in off])
  ultimately have "now div second + 1 \<le> dnum (AddDays (DayIn now loc) 1) * 86400 + (tHour t * 3600 + tMinute t * 60) - off"
    by (simp add: today l_def)
  then have "(now div second + 1) * second \<le> On t (AddDays (DayIn now loc) 1) loc"
    unfolding on by (intro mult_right_mono) (simp_all add: second_def)
  moreover have "now < (now div second + 1) * second" by (simp add: second_def)
  ultimately show ?thesis by linarith
qed


text \<open>Moscow: local mean time, summer time, the permanent summer time of 2011 and the hour given back in 2014
  (three of the transitions of its table), late in the evening and after the cutoff.\<close>

definition Moscow :: location where
  "Moscow = Location 9017 [(1269730800, 14400), (1288479600, 10800), (1301180400, 14400), (1414274400, 10800)]"


end
