(* ===== verification/Reorder.thy ===== *)
theory Reorder
  imports Forecast_Correct Delivery_Window
begin

text \<open>
  \<open>internal/replenishment/reorder.go\<close>: the status of an item and the quantity to order. \<open>Decide\<close>
  returns \<open>None\<close> where the code would panic; the lemmas show that it never does.
\<close>

section \<open>Model\<close>

type_synonym status = string

definition StatusOutOfStock :: status where "StatusOutOfStock = ''out_of_stock''"
definition StatusCritical :: status where "StatusCritical = ''critical''"
definition StatusOrderToday :: status where "StatusOrderToday = ''order_today''"
definition StatusOK :: status where "StatusOK = ''ok''"
definition StatusNoForecast :: status where "StatusNoForecast = ''no_forecast''"

definition IsRed :: "status \<Rightarrow> bool" where
  "IsRed s \<longleftrightarrow> s = StatusOutOfStock \<or> s = StatusCritical"

definition severity :: "status \<Rightarrow> int" where
  "severity s = (if s = StatusOutOfStock then 4 else if s = StatusCritical then 3
     else if s = StatusOrderToday then 2 else if s = StatusNoForecast then 1 else 0)"

definition WorseThan :: "status \<Rightarrow> status \<Rightarrow> bool" where
  "WorseThan s other \<longleftrightarrow> severity other < severity s"

definition ZFactor :: "int \<Rightarrow> f64" where
  "ZFactor serviceLevel = (if serviceLevel = 90 then pack (128 / 100)
     else if serviceLevel = 99 then pack (233 / 100) else pack (165 / 100))"

record 'd delivery =
  dlvDay :: day
  dlvQty :: "'d qty"

record 'd reorder_input =
  inToday :: day
  inWindow :: delivery_window
  inOnHand :: "'d qty"
  Incoming :: "'d delivery list"
  inForecast :: "'d forecast_result"
  ConsumedToday :: "'d qty"
  ServiceLevel :: int
  ManualMin :: "'d qty"
  MinOrder :: "'d qty"
  Pack :: "'d qty"

record 'd explanation =
  exModel :: model
  exOnHand :: "'d qty"
  exOnOrder :: "'d qty"
  InventoryPos :: "'d qty"
  NeedUntilD2 :: "'d qty"
  exSafetyStock :: "'d qty"
  exTargetLevel :: "'d qty"
  Shortfall :: "'d qty"
  exRecommendedQty :: "'d qty"
  exD1 :: day
  exD2 :: day
  exOrderBy :: instant
  DaysToD2 :: int
  exSigma :: f64
  exZ :: f64
  exCanWait :: bool

record 'd decision =
  decStatus :: status
  decOnOrder :: "'d qty"
  TargetLevel :: "'d qty"
  SafetyStock :: "'d qty"
  RecommendedQty :: "'d qty"
  StockoutDate :: day
  decExplanation :: "'d explanation"

definition reorder_fromFloat :: "'d decimal_lib \<Rightarrow> f64 \<Rightarrow> 'd qty option" where
  "reorder_fromFloat D v = (if fle v (Fin 0) \<or> v = NaN \<or> v = PInf \<or> v = NInf then Some (qZero D)
     else qMulFloat D (qFromInt D 1) v)"

definition incomingBefore :: "'d decimal_lib \<Rightarrow> 'd delivery list \<Rightarrow> day \<Rightarrow> 'd qty" where
  "incomingBefore D deliveries d =
     foldl (\<lambda>total dv. if Before (dlvDay dv) d then qAdd D total (dlvQty dv) else total) (qZero D) deliveries"

definition arrivals :: "'d decimal_lib \<Rightarrow> 'd delivery list \<Rightarrow> day \<Rightarrow> 'd qty \<Rightarrow> 'd qty" where
  "arrivals D deliveries d balance =
     foldl (\<lambda>b dv. if day_Equal (dlvDay dv) d then qAdd D b (dlvQty dv) else b) balance deliveries"

text \<open>The loop of \<open>projectStockout\<close> from day \<open>i\<close> on, with \<open>n\<close> days of the horizon left.\<close>

fun project_loop :: "'d decimal_lib \<Rightarrow> 'd reorder_input \<Rightarrow> 'd qty \<Rightarrow> nat \<Rightarrow> nat \<Rightarrow> day" where
  "project_loop D inp balance i 0 = zero_day"
| "project_loop D inp balance i (Suc n) = (let d = AddDays (inToday inp) (int i);
       b1 = arrivals D (Incoming inp) d balance;
       need = result_On D (inForecast inp) d;
       need' = (if i = 0 then qClampZero D (qSub D need (ConsumedToday inp)) else need);
       b2 = qSub D b1 need'
     in if qIsNegative D b2 then d else project_loop D inp b2 (Suc i) n)"

definition projectStockout :: "'d decimal_lib \<Rightarrow> 'd reorder_input \<Rightarrow> day" where
  "projectStockout D inp = project_loop D inp (inOnHand inp) 0 (length (resPoints (inForecast inp)))"

text \<open>The loop of \<open>Decide\<close> over the days from tomorrow to the day before \<open>D2\<close>.\<close>

function need_rest :: "'d decimal_lib \<Rightarrow> 'd forecast_result \<Rightarrow> 'd qty \<Rightarrow> day \<Rightarrow> day \<Rightarrow> 'd qty" where
  "need_rest D f acc d d2 =
     (if Before d d2 then need_rest D f (qAdd D acc (result_On D f d)) (AddDays d 1) d2 else acc)"
  by pat_completeness auto
termination
  by (relation "measure (\<lambda>(D, f, acc, d, d2). nat (dnum d2 - dnum d))") (auto simp: Before_num)

declare need_rest.simps [simp del]

definition classify :: "'d decimal_lib \<Rightarrow> 'd reorder_input \<Rightarrow> 'd qty \<Rightarrow> 'd qty \<Rightarrow> day \<Rightarrow> status" where
  "classify D inp ip target stockoutDate = (
     if \<not> qIsPositive D (inOnHand inp) then StatusOutOfStock
     else if \<not> IsZero stockoutDate \<and> Before stockoutDate (D1 (inWindow inp)) then StatusCritical
     else if qLessThan D ip target \<and> \<not> CanWait (inWindow inp) then StatusOrderToday
     else StatusOK)"

definition recommend :: "'d decimal_lib \<Rightarrow> 'd reorder_input \<Rightarrow> 'd qty \<Rightarrow> 'd qty option" where
  "recommend D inp shortfall = (if qIsPositive D shortfall
     then qCeilTo D (qMax D shortfall (MinOrder inp)) (Pack inp) else Some (qZero D))"

definition decideManual :: "'d decimal_lib \<Rightarrow> 'd reorder_input \<Rightarrow> 'd qty \<Rightarrow> 'd qty \<Rightarrow> day \<Rightarrow> 'd decision option" where
  "decideManual D inp onOrder ip stockoutDate = (let target = ManualMin inp; shortfall = qSub D target ip in
     case recommend D inp shortfall of None \<Rightarrow> None | Some recommended \<Rightarrow>
     let status = (if \<not> qIsPositive D (inOnHand inp) then StatusOutOfStock
           else if qIsPositive D target \<and> qIsPositive D shortfall then StatusOrderToday
           else StatusNoForecast)
     in Some \<lparr>decStatus = status, decOnOrder = onOrder, TargetLevel = target, SafetyStock = qZero D,
       RecommendedQty = recommended, StockoutDate = stockoutDate,
       decExplanation = \<lparr>exModel = ModelM0, exOnHand = inOnHand inp, exOnOrder = onOrder,
         InventoryPos = ip, NeedUntilD2 = qZero D, exSafetyStock = qZero D, exTargetLevel = target,
         Shortfall = qClampZero D shortfall, exRecommendedQty = recommended,
         exD1 = D1 (inWindow inp), exD2 = D2 (inWindow inp), exOrderBy = OrderBy (inWindow inp),
         DaysToD2 = max (day_Sub (D2 (inWindow inp)) (inToday inp)) 0, exSigma = Fin 0, exZ = Fin 0,
         exCanWait = CanWait (inWindow inp)\<rparr>\<rparr>)"

definition Decide :: "'d decimal_lib \<Rightarrow> 'd reorder_input \<Rightarrow> 'd decision option" where
  "Decide D inp = (let w = inWindow inp; onOrder = incomingBefore D (Incoming inp) (D2 w);
       ip = qAdd D (inOnHand inp) onOrder; stockoutDate = projectStockout D inp;
       f = inForecast inp
     in if resModel f = ModelM0 then decideManual D inp onOrder ip stockoutDate else
     let z = ZFactor (ServiceLevel inp); daysToD2 = max (day_Sub (D2 w) (inToday inp)) 0 in
     case reorder_fromFloat D (fmul (fmul z (Sigma (resMetrics f))) (fsqrt (f64_of_int daysToD2))) of
       None \<Rightarrow> None
     | Some safety \<Rightarrow>
     let needToday = qClampZero D (qSub D (result_On D f (inToday inp)) (ConsumedToday inp));
         needRest = need_rest D f (qZero D) (AddDays (inToday inp) 1) (D2 w);
         need = qAdd D needToday needRest; target = qAdd D need safety; shortfall = qSub D target ip
     in case recommend D inp shortfall of
       None \<Rightarrow> None
     | Some recommended \<Rightarrow> Some \<lparr>decStatus = classify D inp ip target stockoutDate, decOnOrder = onOrder,
         TargetLevel = target, SafetyStock = safety, RecommendedQty = recommended,
         StockoutDate = stockoutDate,
         decExplanation = \<lparr>exModel = resModel f, exOnHand = inOnHand inp, exOnOrder = onOrder,
           InventoryPos = ip, NeedUntilD2 = need, exSafetyStock = safety, exTargetLevel = target,
           Shortfall = qClampZero D shortfall, exRecommendedQty = recommended,
           exD1 = D1 w, exD2 = D2 w, exOrderBy = OrderBy w, DaysToD2 = daysToD2,
           exSigma = Sigma (resMetrics f), exZ = z, exCanWait = CanWait w\<rparr>\<rparr>)"

section \<open>Meaning\<close>

text \<open>The forecast of a day as a number, zero outside the horizon.\<close>

definition demand :: "'d decimal_lib \<Rightarrow> 'd forecast_result \<Rightarrow> day \<Rightarrow> rat" where
  "demand D f d = qval D (result_On D f d)"

definition arriving :: "'d decimal_lib \<Rightarrow> 'd reorder_input \<Rightarrow> (day \<Rightarrow> bool) \<Rightarrow> rat" where
  "arriving D inp P = sum_list (map (\<lambda>dv. qval D (dlvQty dv)) (filter (\<lambda>dv. P (dlvDay dv)) (Incoming inp)))"

definition demand_day :: "'d decimal_lib \<Rightarrow> 'd reorder_input \<Rightarrow> nat \<Rightarrow> rat" where
  "demand_day D inp i = (let n = demand D (inForecast inp) (AddDays (inToday inp) (int i))
     in if i = 0 then max 0 (n - qval D (ConsumedToday inp)) else n)"

text \<open>The projected balance at the end of the \<open>i\<close>-th day from today.\<close>

definition projected :: "'d decimal_lib \<Rightarrow> 'd reorder_input \<Rightarrow> nat \<Rightarrow> rat" where
  "projected D inp i = qval D (inOnHand inp)
     + (\<Sum>j\<le>i. arriving D inp (\<lambda>d. d = AddDays (inToday inp) (int j)) - demand_day D inp j)"

text \<open>The inventory position and the demand up to the day before \<open>D2\<close>.\<close>

definition position :: "'d decimal_lib \<Rightarrow> 'd reorder_input \<Rightarrow> rat" where
  "position D inp = qval D (inOnHand inp) + arriving D inp (\<lambda>d. Before d (D2 (inWindow inp)))"

definition demand_until_D2 :: "'d decimal_lib \<Rightarrow> 'd reorder_input \<Rightarrow> rat" where
  "demand_until_D2 D inp = max 0 (demand D (inForecast inp) (inToday inp) - qval D (ConsumedToday inp))
     + (\<Sum>i<nat (dnum (D2 (inWindow inp)) - dnum (inToday inp) - 1).
          demand D (inForecast inp) (AddDays (inToday inp) (int i + 1)))"

context decimal_api
begin

lemma reorder_fromFloat_ok:
  assumes "f64_wf v"
  shows "\<exists>q. reorder_fromFloat D v = Some q \<and> wfq D q \<and> 0 \<le> qval D q"
proof (cases "fle v (Fin 0) \<or> v = NaN \<or> v = PInf \<or> v = NInf")
  case True
  then show ?thesis by (simp add: reorder_fromFloat_def wfq_def)
next
  case False
  then obtain x where v: "v = Fin x" by (cases v) auto
  have "\<exists>q. fromFloat D v = Some q"
    using False assms qMulFloat_Some[of x "qFromInt D 1"] by (auto simp: fromFloat_def v)
  moreover have "reorder_fromFloat D v = fromFloat D v"
    using False by (simp add: reorder_fromFloat_def fromFloat_def)
  ultimately show ?thesis using fromFloat_ok[OF _ assms] by auto
qed

lemma incomingBefore_val [simp]:
  "qval D (incomingBefore D (Incoming inp) d) = arriving D inp (\<lambda>x. Before x d)"
proof -
  have "qval D (foldl (\<lambda>t dv. if Before (dlvDay dv) d then qAdd D t (dlvQty dv) else t) q dvs)
      = qval D q + sum_list (map (\<lambda>dv. qval D (dlvQty dv)) (filter (\<lambda>dv. Before (dlvDay dv) d) dvs))"
    for q and dvs :: "_ delivery list"
    by (induction dvs arbitrary: q) simp_all
  then show ?thesis by (simp add: incomingBefore_def arriving_def)
qed

lemma arrivals_val [simp]:
  "qval D (arrivals D (Incoming inp) d b) = qval D b + arriving D inp (\<lambda>x. x = d)"
proof -
  have "qval D (foldl (\<lambda>b dv. if day_Equal (dlvDay dv) d then qAdd D b (dlvQty dv) else b) q dvs)
      = qval D q + sum_list (map (\<lambda>dv. qval D (dlvQty dv)) (filter (\<lambda>dv. dlvDay dv = d) dvs))"
    for q and dvs :: "_ delivery list"
    by (induction dvs arbitrary: q) (simp_all add: day_Equal_def)
  then show ?thesis by (simp add: arrivals_def arriving_def)
qed

lemma need_rest_val:
  "qval D (need_rest D f acc d d2) =
     qval D acc + (\<Sum>i<nat (dnum d2 - dnum d). demand D f (AddDays d (int i)))" if "valid_day d"
  using that
proof (induction "nat (dnum d2 - dnum d)" arbitrary: acc d)
  case 0
  then show ?case by (simp add: need_rest.simps[of D f acc d] Before_num)
next
  case (Suc n)
  then have n: "n = nat (dnum d2 - dnum (AddDays d 1))" "nat (dnum d2 - dnum d) = Suc n"
    and less: "dnum d < dnum d2" by auto
  from less have "need_rest D f acc d d2 = need_rest D f (qAdd D acc (result_On D f d)) (AddDays d 1) d2"
    by (simp add: need_rest.simps[of D f acc d] Before_num)
  also have "qval D \<dots> = qval D (qAdd D acc (result_On D f d))
      + (\<Sum>i<n. demand D f (AddDays (AddDays d 1) (int i)))"
    using Suc.hyps(1)[OF n(1)] n(1) by simp
  also have "\<dots> = qval D acc + (\<Sum>i<Suc n. demand D f (AddDays d (int i)))"
    using Suc.prems by (simp add: sum.lessThan_Suc_shift demand_def add.commute del: sum.lessThan_Suc)
  finally show ?case by (simp only: n(2))
qed


lemma project_loop_step:
  assumes "qval D b = (if i = 0 then qval D (inOnHand inp) else projected D inp (i - 1))"
  shows "project_loop D inp b i (Suc n) = (if projected D inp i < 0 then AddDays (inToday inp) (int i)
      else project_loop D inp (qSub D (arrivals D (Incoming inp) (AddDays (inToday inp) (int i)) b)
        (if i = 0 then qClampZero D (qSub D (result_On D (inForecast inp) (AddDays (inToday inp) (int i))) (ConsumedToday inp))
         else result_On D (inForecast inp) (AddDays (inToday inp) (int i)))) (Suc i) n)"
    and "qval D (qSub D (arrivals D (Incoming inp) (AddDays (inToday inp) (int i)) b)
        (if i = 0 then qClampZero D (qSub D (result_On D (inForecast inp) (AddDays (inToday inp) (int i))) (ConsumedToday inp))
         else result_On D (inForecast inp) (AddDays (inToday inp) (int i)))) = projected D inp i"
proof -
  show v: "qval D (qSub D (arrivals D (Incoming inp) (AddDays (inToday inp) (int i)) b)
        (if i = 0 then qClampZero D (qSub D (result_On D (inForecast inp) (AddDays (inToday inp) (int i))) (ConsumedToday inp))
         else result_On D (inForecast inp) (AddDays (inToday inp) (int i)))) = projected D inp i"
    using assms by (cases i) (simp_all add: projected_def demand_day_def demand_def Let_def)
  then show "project_loop D inp b i (Suc n) = (if projected D inp i < 0 then AddDays (inToday inp) (int i)
      else project_loop D inp (qSub D (arrivals D (Incoming inp) (AddDays (inToday inp) (int i)) b)
        (if i = 0 then qClampZero D (qSub D (result_On D (inForecast inp) (AddDays (inToday inp) (int i))) (ConsumedToday inp))
         else result_On D (inForecast inp) (AddDays (inToday inp) (int i)))) (Suc i) n)"
    by (simp only: project_loop.simps Let_def qtest_ops)
qed

lemma project_loop_first:
  assumes "qval D b = (if i = 0 then qval D (inOnHand inp) else projected D inp (i - 1))"
  shows "(\<exists>k. i \<le> k \<and> k < i + n \<and> project_loop D inp b i n = AddDays (inToday inp) (int k)
      \<and> projected D inp k < 0 \<and> (\<forall>j. i \<le> j \<and> j < k \<longrightarrow> 0 \<le> projected D inp j))
    \<or> (project_loop D inp b i n = zero_day \<and> (\<forall>j. i \<le> j \<and> j < i + n \<longrightarrow> 0 \<le> projected D inp j))"
  using assms
proof (induction n arbitrary: b i)
  case (Suc n)
  show ?case
  proof (cases "projected D inp i < 0")
    case True
    then show ?thesis using project_loop_step(1)[OF Suc.prems, of n]
      by (intro disjI1 exI[of _ i]) simp
  next
    case False
    define b' where "b' = qSub D (arrivals D (Incoming inp) (AddDays (inToday inp) (int i)) b)
        (if i = 0 then qClampZero D (qSub D (result_On D (inForecast inp) (AddDays (inToday inp) (int i))) (ConsumedToday inp))
         else result_On D (inForecast inp) (AddDays (inToday inp) (int i)))"
    have e: "project_loop D inp b i (Suc n) = project_loop D inp b' (Suc i) n"
      using project_loop_step(1)[OF Suc.prems, of n] False by (simp only: b'_def if_False)
    have "qval D b' = projected D inp i"
      using project_loop_step(2)[OF Suc.prems] by (simp only: b'_def)
    then have IH: "(\<exists>k. Suc i \<le> k \<and> k < Suc i + n \<and> project_loop D inp b' (Suc i) n = AddDays (inToday inp) (int k)
      \<and> projected D inp k < 0 \<and> (\<forall>j. Suc i \<le> j \<and> j < k \<longrightarrow> 0 \<le> projected D inp j))
    \<or> (project_loop D inp b' (Suc i) n = zero_day \<and> (\<forall>j. Suc i \<le> j \<and> j < Suc i + n \<longrightarrow> 0 \<le> projected D inp j))"
      by (intro Suc.IH) simp
    have "j = i \<or> Suc i \<le> j" if "i \<le> j" for j using that by auto
    then show ?thesis using IH False unfolding e by (metis Suc_leD add_Suc add_Suc_right not_less)
  qed
qed simp

lemma recommend_total: "\<exists>q. recommend D inp s = Some q"
  using qCeilTo_total by (auto simp: recommend_def)

lemma recommend_spec:
  assumes "wfq D s" "wfq D (MinOrder inp)" "wfq D (Pack inp)" "qval D (Pack inp) < 10 ^ 11"
    and "recommend D inp s = Some q"
  shows "if 0 < qval D s
    then max (qval D s) (qval D (MinOrder inp)) \<le> qval D q
      \<and> (if 0 < qval D (Pack inp)
         then (\<exists>k. qval D q = of_int k * qval D (Pack inp))
            \<and> qval D q < max (qval D s) (qval D (MinOrder inp)) + qval D (Pack inp)
         else qval D q = max (qval D s) (qval D (MinOrder inp)))
    else qval D q = 0"
proof (cases "0 < qval D s")
  case True
  then have c: "qCeilTo D (qMax D s (MinOrder inp)) (Pack inp) = Some q"
    using assms(5) by (simp add: recommend_def)
  have wf: "wfq D (qMax D s (MinOrder inp))" using assms(1,2) by (auto simp: wfq_def max_def)
  show ?thesis
  proof (cases "0 < qval D (Pack inp)")
    case pos: True
    obtain q' k where "qCeilTo D (qMax D s (MinOrder inp)) (Pack inp) = Some q'"
      "qval D q' = of_int k * qval D (Pack inp)" "qval D (qMax D s (MinOrder inp)) \<le> qval D q'"
      "qval D q' < qval D (qMax D s (MinOrder inp)) + qval D (Pack inp)"
      using qCeilTo_least[OF wf assms(3) pos assms(4)] .
    then show ?thesis using True pos c by auto
  next
    case False
    then have "q = qMax D s (MinOrder inp)" using c by (simp add: qCeilTo_def)
    then show ?thesis using True False by simp
  qed
next
  case False
  then show ?thesis using assms(5) by (auto simp: recommend_def)
qed

end

section \<open>Well-formed inputs\<close>

definition wf_input :: "'d decimal_lib \<Rightarrow> 'd reorder_input \<Rightarrow> bool" where
  "wf_input D inp \<longleftrightarrow> wfq D (inOnHand inp) \<and> (\<forall>dv \<in> set (Incoming inp). wfq D (dlvQty dv))
     \<and> (\<forall>p \<in> set (resPoints (inForecast inp)). wfq D (fpQty p)) \<and> wfq D (ConsumedToday inp)
     \<and> wfq D (ManualMin inp) \<and> wfq D (MinOrder inp) \<and> wfq D (Pack inp)
     \<and> qval D (Pack inp) < 10 ^ 11"

lemma scale_sum: "finite A \<Longrightarrow> (\<And>x. x \<in> A \<Longrightarrow> has_scale n (f x)) \<Longrightarrow> has_scale n (sum f A)"
  by (induction rule: finite_induct) auto

context decimal_api
begin

lemma scale_demand: "wf_input D inp \<Longrightarrow> scale3 (demand D (inForecast inp) d)"
  by (auto simp: demand_def result_On_def wf_input_def wfq_def split: option.splits dest!: find_Some_in)

lemma scale_arriving: "wf_input D inp \<Longrightarrow> scale3 (arriving D inp P)"
  unfolding arriving_def by (rule scale_sum_list) (auto simp: wf_input_def wfq_def)

lemma scale_position: "wf_input D inp \<Longrightarrow> scale3 (position D inp)"
  unfolding position_def by (intro scale_add scale_arriving) (simp_all add: wf_input_def wfq_def)

lemma scale_max: "scale3 a \<Longrightarrow> scale3 b \<Longrightarrow> scale3 (max a b)"
  by (simp add: max_def)

lemma scale_demand_until: "wf_input D inp \<Longrightarrow> scale3 (demand_until_D2 D inp)"
  unfolding demand_until_D2_def
  by (intro scale_add scale_max scale_diff scale_sum scale_demand scale_0) (simp_all add: wf_input_def wfq_def)

text \<open>What a decision consists of, with and without a forecast.\<close>

lemma Decide_manual:
  assumes "Decide D inp = Some dec" and "resModel (inForecast inp) = ModelM0"
  shows "qval D (TargetLevel dec) = qval D (ManualMin inp)" and "qval D (SafetyStock dec) = 0"
    and "recommend D inp (qSub D (ManualMin inp) (qAdd D (inOnHand inp)
          (incomingBefore D (Incoming inp) (D2 (inWindow inp))))) = Some (RecommendedQty dec)"
    and "decStatus dec = (if \<not> 0 < qval D (inOnHand inp) then StatusOutOfStock
        else if 0 < qval D (ManualMin inp) \<and> position D inp < qval D (ManualMin inp) then StatusOrderToday
        else StatusNoForecast)"
    and "StockoutDate dec = projectStockout D inp"
  using assms by (auto simp: Decide_def decideManual_def Let_def position_def split: option.splits)

lemma Decide_forecast:
  assumes "Decide D inp = Some dec" and "resModel (inForecast inp) \<noteq> ModelM0"
  shows "qval D (TargetLevel dec) = demand_until_D2 D inp + qval D (SafetyStock dec)"
    and "reorder_fromFloat D (fmul (fmul (ZFactor (ServiceLevel inp)) (Sigma (resMetrics (inForecast inp))))
        (fsqrt (f64_of_int (max (day_Sub (D2 (inWindow inp)) (inToday inp)) 0)))) = Some (SafetyStock dec)"
    and "recommend D inp (qSub D (TargetLevel dec) (qAdd D (inOnHand inp)
          (incomingBefore D (Incoming inp) (D2 (inWindow inp))))) = Some (RecommendedQty dec)"
    and "decStatus dec = classify D inp (qAdd D (inOnHand inp)
          (incomingBefore D (Incoming inp) (D2 (inWindow inp)))) (TargetLevel dec) (projectStockout D inp)"
    and "StockoutDate dec = projectStockout D inp"
proof -
  have n: "nat (dnum (D2 (inWindow inp)) - dnum (AddDays (inToday inp) 1))
      = nat (dnum (D2 (inWindow inp)) - dnum (inToday inp) - 1)" by simp
  show "qval D (TargetLevel dec) = demand_until_D2 D inp + qval D (SafetyStock dec)"
    using assms need_rest_val[OF AddDays_valid, of "inForecast inp" "qZero D" "inToday inp" 1 "D2 (inWindow inp)"]
    unfolding n
    by (auto simp: Decide_def Let_def demand_until_D2_def demand_def add.commute split: option.splits)
qed (use assms in \<open>auto simp: Decide_def Let_def split: option.splits\<close>)

lemma SafetyStock_ok:
  assumes "Decide D inp = Some dec"
  shows "wfq D (SafetyStock dec)" and "0 \<le> qval D (SafetyStock dec)"
proof -
  have "wfq D (SafetyStock dec) \<and> 0 \<le> qval D (SafetyStock dec)"
  proof (cases "resModel (inForecast inp) = ModelM0")
    case True
    then show ?thesis using Decide_manual(2)[OF assms] by (simp add: wfq_def)
  next
    case False
    obtain q where "reorder_fromFloat D (fmul (fmul (ZFactor (ServiceLevel inp)) (Sigma (resMetrics (inForecast inp))))
        (fsqrt (f64_of_int (max (day_Sub (D2 (inWindow inp)) (inToday inp)) 0)))) = Some q"
      "wfq D q" "0 \<le> qval D q"
      using reorder_fromFloat_ok[OF fmul_wf] by blast
    then show ?thesis using Decide_forecast(2)[OF assms False] by simp
  qed
  then show "wfq D (SafetyStock dec)" and "0 \<le> qval D (SafetyStock dec)" by auto
qed

lemma Decide_recommends:
  assumes "Decide D inp = Some dec"
  shows "recommend D inp (qSub D (TargetLevel dec) (qAdd D (inOnHand inp)
          (incomingBefore D (Incoming inp) (D2 (inWindow inp))))) = Some (RecommendedQty dec)"
proof (cases "resModel (inForecast inp) = ModelM0")
  case True
  then have "TargetLevel dec = ManualMin inp"
    using assms by (auto simp: Decide_def decideManual_def Let_def split: option.splits)
  then show ?thesis using Decide_manual(3)[OF assms True] by simp
qed (rule Decide_forecast(3)[OF assms])

lemma stockout_first:
  "(\<exists>k < length (resPoints (inForecast inp)). projectStockout D inp = AddDays (inToday inp) (int k)
        \<and> projected D inp k < 0 \<and> (\<forall>j < k. 0 \<le> projected D inp j))
    \<or> (projectStockout D inp = zero_day \<and> (\<forall>j < length (resPoints (inForecast inp)). 0 \<le> projected D inp j))"
  using project_loop_first[of "inOnHand inp" 0 inp "length (resPoints (inForecast inp))"]
  by (auto simp: projectStockout_def)

lemma Decide_total: "\<exists>dec. Decide D inp = Some dec"
proof -
  obtain s where "reorder_fromFloat D (fmul (fmul (ZFactor (ServiceLevel inp)) (Sigma (resMetrics (inForecast inp))))
      (fsqrt (f64_of_int (max (day_Sub (D2 (inWindow inp)) (inToday inp)) 0)))) = Some s"
    using reorder_fromFloat_ok[OF fmul_wf] by blast
  moreover obtain rec where "recommend D inp q = Some (rec q)" for q
    using recommend_total[of inp] by metis
  ultimately show ?thesis
    by (cases "resModel (inForecast inp) = ModelM0") (simp_all add: Decide_def decideManual_def Let_def)
qed

lemma target_wf:
  assumes "Decide D inp = Some dec" and "wf_input D inp"
  shows "wfq D (TargetLevel dec)"
proof (cases "resModel (inForecast inp) = ModelM0")
  case True
  then show ?thesis using Decide_manual(1)[OF assms(1)] assms(2) by (simp add: wfq_def wf_input_def)
next
  case False
  then show ?thesis
    using Decide_forecast(1)[OF assms(1)] SafetyStock_ok(1)[OF assms(1)] scale_demand_until[OF assms(2)]
    by (auto simp: wfq_def)
qed

end

lemma Before_AddDays: "Before (AddDays d k) e \<longleftrightarrow> dnum d + k < dnum e"
  by (simp add: Before_num)

lemma AddDays_not_zero [simp]: "AddDays d k \<noteq> zero_day" "\<not> IsZero (AddDays d k)"
  unfolding IsZero_def by (metis AddDays_valid not_valid_zero)+

section \<open>Properties\<close>

text \<open>(C29) \<open>Decide\<close> never panics: it neither divides by a zero pack nor converts a NaN or infinite
  safety stock, whatever sigma the forecast reports.\<close>
theorem Decide_never_panics:
  assumes "decimal_api D"
  shows "\<exists>dec. Decide D inp = Some dec"
  by (rule decimal_api.Decide_total[OF assms])

definition sample_input :: "dec reorder_input" where
  "sample_input = \<lparr>inToday = Day 2024 3 6,
     inWindow = \<lparr>OrderDay = Day 2024 3 6, D1 = Day 2024 3 7, D2 = Day 2024 3 8, OrderBy = 0, AfterCutoff = False\<rparr>,
     inOnHand = Qty (Dec 5 0), Incoming = [],
     inForecast = \<lparr>resModel = ModelM1,
       resPoints = [\<lparr>fpDay = Day 2024 3 6, fpQty = Qty (Dec 4 0)\<rparr>, \<lparr>fpDay = Day 2024 3 7, fpQty = Qty (Dec 4 0)\<rparr>],
       resMetrics = zero_metrics\<rparr>,
     ConsumedToday = Qty (Dec 1 0), ServiceLevel = 95, ManualMin = Qty (Dec 0 0),
     MinOrder = Qty (Dec 10 0), Pack = Qty (Dec 6 0)\<rparr>"

theorem Decide_never_panics_witness:
  "\<exists>dec. Decide dec_lib sample_input = Some dec"
  by (rule Decide_never_panics[OF dec.decimal_api_axioms])

text \<open>\<open>projectStockout\<close> is the first day of the horizon on which the stock on hand, plus the
  deliveries of the days up to it, minus the forecast (of today only what is not yet consumed)
  is negative; it is the zero day exactly when there is none.\<close>
theorem projectStockout_first:
  assumes "decimal_api D"
  shows "(\<exists>k < length (resPoints (inForecast inp)). projectStockout D inp = AddDays (inToday inp) (int k)
        \<and> projected D inp k < 0 \<and> (\<forall>j < k. 0 \<le> projected D inp j))
    \<or> (projectStockout D inp = zero_day \<and> (\<forall>j < length (resPoints (inForecast inp)). 0 \<le> projected D inp j))"
  by (rule decimal_api.stockout_first[OF assms])

theorem projectStockout_first_witness:
  "projectStockout dec_lib sample_input = zero_day \<longleftrightarrow>
     \<not> (\<exists>k < 2. projected dec_lib sample_input k < 0)"
proof -
  have n: "length (resPoints (inForecast sample_input)) = 2" by (simp add: sample_input_def)
  show ?thesis
    using projectStockout_first[OF dec.decimal_api_axioms, of sample_input] unfolding n
    by (metis AddDays_not_zero(1) not_le)
qed

text \<open>(C28) The status with a forecast: out of stock without stock on hand; critical exactly when
  the projected balance goes negative on a day of the horizon before the next delivery; order
  today when the inventory position is below the target and waiting would cost a delivery.\<close>
theorem Decide_status:
  assumes "decimal_api D" and "Decide D inp = Some dec" and "resModel (inForecast inp) \<noteq> ModelM0"
  defines "w \<equiv> inWindow inp"
  defines "runs_out \<equiv> \<exists>k < length (resPoints (inForecast inp)). dnum (inToday inp) + int k < dnum (D1 w)
      \<and> projected D inp k < 0"
  shows "decStatus dec = (if qval D (inOnHand inp) \<le> 0 then StatusOutOfStock
      else if runs_out then StatusCritical
      else if position D inp < qval D (TargetLevel dec) \<and> D1 w \<noteq> D2 w then StatusOrderToday
      else StatusOK)"
proof -
  let ?s = "projectStockout D inp"
  have "\<not> IsZero ?s \<and> Before ?s (D1 w) \<longleftrightarrow> runs_out"
    using decimal_api.stockout_first[OF assms(1), of inp]
  proof
    assume "\<exists>k < length (resPoints (inForecast inp)). ?s = AddDays (inToday inp) (int k)
        \<and> projected D inp k < 0 \<and> (\<forall>j < k. 0 \<le> projected D inp j)"
    then obtain k where k: "k < length (resPoints (inForecast inp))" "?s = AddDays (inToday inp) (int k)"
      "projected D inp k < 0" "\<And>j. j < k \<Longrightarrow> 0 \<le> projected D inp j" by blast
    have "k \<le> j" if "projected D inp j < 0" for j using k(4)[of j] that by (meson not_le not_less)
    then show ?thesis using k by (force simp: runs_out_def Before_AddDays)
  next
    assume "?s = zero_day \<and> (\<forall>j < length (resPoints (inForecast inp)). 0 \<le> projected D inp j)"
    then show ?thesis by (force simp: runs_out_def IsZero_def)
  qed
  then show ?thesis
    unfolding decimal_api.Decide_forecast(4)[OF assms(1-3)] classify_def
    by (simp add: decimal_api.qtest_ops[OF assms(1)] decimal_api.qval_ops[OF assms(1)] CanWait_def
        day_Equal_def decimal_api.incomingBefore_val[OF assms(1)] position_def not_less w_def)
qed

lemma sample_values:
  "qval dec_lib (inOnHand sample_input) = 5" "qval dec_lib (Pack sample_input) = 6"
  "resModel (inForecast sample_input) = ModelM1" "wf_input dec_lib sample_input"
  by (simp_all add: sample_input_def wf_input_def wfq_def qval_def dec_lib_eq dec_val_def has_scale_def
      pow10_def)

theorem Decide_status_witness:
  "\<exists>dec. Decide dec_lib sample_input = Some dec \<and> decStatus dec \<noteq> StatusOutOfStock"
proof -
  obtain dec where d: "Decide dec_lib sample_input = Some dec" using dec.Decide_total by blast
  have "decStatus dec \<noteq> StatusOutOfStock"
    using Decide_status[OF dec.decimal_api_axioms d]
    by (simp add: sample_values StatusOutOfStock_def StatusCritical_def StatusOrderToday_def StatusOK_def)
  then show ?thesis using d by blast
qed


text \<open>The target level is the forecast from today (less what was consumed today, but not
  below zero) to the day before \<open>D2\<close>, plus a non-negative safety stock.\<close>
theorem Decide_target:
  assumes "decimal_api D" and "Decide D inp = Some dec"
  shows "0 \<le> qval D (SafetyStock dec)
    \<and> (resModel (inForecast inp) \<noteq> ModelM0 \<longrightarrow> qval D (TargetLevel dec) =
        max 0 (demand D (inForecast inp) (inToday inp) - qval D (ConsumedToday inp))
        + (\<Sum>i<nat (dnum (D2 (inWindow inp)) - dnum (inToday inp) - 1).
             demand D (inForecast inp) (AddDays (inToday inp) (int i + 1))) + qval D (SafetyStock dec))
    \<and> (resModel (inForecast inp) = ModelM0 \<longrightarrow>
        qval D (TargetLevel dec) = qval D (ManualMin inp) \<and> qval D (SafetyStock dec) = 0)"
  using decimal_api.SafetyStock_ok[OF assms] decimal_api.Decide_forecast(1)[OF assms]
    decimal_api.Decide_manual(1,2)[OF assms] by (auto simp: demand_until_D2_def)

theorem Decide_target_witness:
  "\<exists>dec. Decide dec_lib sample_input = Some dec \<and> 0 \<le> qval dec_lib (SafetyStock dec)"
proof -
  obtain dec where d: "Decide dec_lib sample_input = Some dec" using dec.Decide_total by blast
  then show ?thesis using Decide_target[OF dec.decimal_api_axioms d] by blast
qed


text \<open>(C27) The recommended quantity is zero when the inventory position covers the target;
  otherwise it covers the shortfall and the supplier's minimum, comes in whole packs, and is the
  least such quantity, so that position and order together reach the target.\<close>
theorem Decide_recommended:
  assumes "decimal_api D" and "Decide D inp = Some dec" and "wf_input D inp"
  defines "gap \<equiv> qval D (TargetLevel dec) - position D inp" and "Q \<equiv> qval D (RecommendedQty dec)"
  shows "if 0 < gap
    then max gap (qval D (MinOrder inp)) \<le> Q \<and> qval D (TargetLevel dec) \<le> position D inp + Q
      \<and> (if 0 < qval D (Pack inp)
         then (\<exists>k. Q = of_int k * qval D (Pack inp)) \<and> Q < max gap (qval D (MinOrder inp)) + qval D (Pack inp)
         else Q = max gap (qval D (MinOrder inp)))
    else Q = 0"
proof -
  let ?s = "qSub D (TargetLevel dec) (qAdd D (inOnHand inp) (incomingBefore D (Incoming inp) (D2 (inWindow inp))))"
  have v: "qval D ?s = gap"
    by (simp add: gap_def position_def decimal_api.qval_ops[OF assms(1)]
        decimal_api.incomingBefore_val[OF assms(1)])
  moreover have "wfq D ?s"
    unfolding wfq_def v gap_def
    using decimal_api.target_wf[OF assms(1-3)] decimal_api.scale_position[OF assms(1,3)]
    by (auto simp: wfq_def)
  ultimately show ?thesis
    using decimal_api.recommend_spec[OF assms(1) _ _ _ _ decimal_api.Decide_recommends[OF assms(1,2)]] assms(3)
    by (auto simp: wf_input_def Q_def gap_def split: if_splits)
qed

theorem Decide_recommended_witness:
  "\<exists>dec. Decide dec_lib sample_input = Some dec
     \<and> (\<exists>k. qval dec_lib (RecommendedQty dec) = of_int k * 6)"
proof -
  obtain dec where d: "Decide dec_lib sample_input = Some dec" using dec.Decide_total by blast
  have "\<exists>k. qval dec_lib (RecommendedQty dec) = of_int k * 6"
    using Decide_recommended[OF dec.decimal_api_axioms d sample_values(4)]
    by (auto simp: sample_values split: if_splits intro: exI[of _ 0])
  then show ?thesis using d by blast
qed


text \<open>Without a forecast the manual minimum takes the place of the target, and an item with a
  position below a positive minimum is to be ordered even though no demand is known.\<close>
theorem Decide_manual_status:
  assumes "decimal_api D" and "Decide D inp = Some dec" and "resModel (inForecast inp) = ModelM0"
  shows "decStatus dec = (if qval D (inOnHand inp) \<le> 0 then StatusOutOfStock
      else if 0 < qval D (ManualMin inp) \<and> position D inp < qval D (ManualMin inp) then StatusOrderToday
      else StatusNoForecast)"
  using decimal_api.Decide_manual(4)[OF assms] by (simp add: not_less)

theorem Decide_manual_status_witness:
  "\<exists>dec. Decide dec_lib (sample_input\<lparr>inForecast := (inForecast sample_input)\<lparr>resModel := ModelM0\<rparr>\<rparr>) = Some dec
     \<and> decStatus dec = StatusNoForecast"
proof -
  let ?i = "sample_input\<lparr>inForecast := (inForecast sample_input)\<lparr>resModel := ModelM0\<rparr>\<rparr>"
  obtain dec where d: "Decide dec_lib ?i = Some dec" using dec.Decide_total by blast
  have "qval dec_lib (ManualMin ?i) = 0"
    by (simp add: sample_input_def qval_def dec_lib_eq dec_val_def)
  then have "decStatus dec = StatusNoForecast"
    using Decide_manual_status[OF dec.decimal_api_axioms d] by (simp add: sample_values)
  then show ?thesis using d by blast
qed

text \<open>\<open>WorseThan\<close> is a strict order by which an alert is repeated at most as often as the
  status climbs from ok over no forecast, order today and critical to out of stock.\<close>
theorem WorseThan_order:
  "\<not> WorseThan s s \<and> (WorseThan a b \<longrightarrow> WorseThan b c \<longrightarrow> WorseThan a c)
    \<and> sorted_wrt (\<lambda>a b. WorseThan b a)
        [StatusOK, StatusNoForecast, StatusOrderToday, StatusCritical, StatusOutOfStock]
    \<and> (IsRed s \<longleftrightarrow> WorseThan s StatusOrderToday)"
  by (auto simp: WorseThan_def severity_def IsRed_def StatusOK_def StatusNoForecast_def
      StatusOrderToday_def StatusCritical_def StatusOutOfStock_def)

theorem WorseThan_order_witness:
  "WorseThan StatusOutOfStock StatusOK"
  using WorseThan_order[of StatusOK StatusOutOfStock StatusCritical StatusOK]
  by (auto simp: WorseThan_def severity_def StatusOK_def StatusOutOfStock_def StatusCritical_def)

end
