(* ===== verification/Database.thy ===== *)
theory Database
  imports Tenant Reorder
begin

text \<open>
  The PostgreSQL database as the services see it: the tables of \<open>migrations/\<close> that they read
  and write as lists of rows, the numeric and time codecs of
  \<open>internal/platform/postgres/types.go\<close>, and \<open>InTenantTx\<close>. Row-level security is part of the
  model: a query of a tenant's transaction sees the rows of that tenant only, while unique
  indexes and foreign keys range over all rows. A \<open>numeric(14,3)\<close> column holds a rational
  number; storing rounds to three places and fails beyond eleven integer digits. New UUIDs come
  from a counter in the state, which stands for their uniqueness.
\<close>

section \<open>Rows\<close>

record category_row =
  ca_id :: uuid
  ca_tenant :: uuid
  ca_name :: string
  ca_created_at :: instant

record item_row =
  it_id :: uuid
  it_tenant :: uuid
  it_category :: "uuid option"
  it_name :: string
  it_base_unit :: string
  it_default_supplier :: "uuid option"
  it_service_level :: int
  it_manual_min_qty :: rat
  it_archived_at :: "instant option"
  it_created_at :: instant

record warehouse_row =
  wh_id :: uuid
  wh_tenant :: uuid
  wh_name :: string
  wh_created_at :: instant

record user_row =
  us_id :: uuid
  us_tenant :: uuid
  us_email :: string
  us_password_hash :: string
  us_name :: string
  us_role :: string
  us_telegram :: "int option"
  us_created_at :: instant

record supplier_row =
  su_id :: uuid
  su_tenant :: uuid
  su_name :: string
  su_contact :: string
  su_lead_time_days :: int
  su_delivery_weekdays :: "int list"
  su_order_cutoff :: int
  su_archived_at :: "instant option"
  su_created_at :: instant

record supplier_item_row =
  si_tenant :: uuid
  si_supplier :: uuid
  si_item :: uuid
  si_purchase_unit :: string
  si_unit_factor :: rat
  si_min_order_qty :: rat
  si_pack_multiple :: rat
  si_price :: "rat option"

record movement_row =
  mv_id :: uuid
  mv_tenant :: uuid
  mv_warehouse :: uuid
  mv_item :: uuid
  mv_type :: string
  mv_qty :: rat
  mv_occurred_at :: instant
  mv_created_at :: instant
  mv_created_by :: "uuid option"
  mv_reason :: "string option"
  mv_comment :: string
  mv_order :: "uuid option"
  mv_count :: "uuid option"
  mv_reverses :: "uuid option"
  mv_idempotency_key :: "string option"

record balance_row =
  ba_tenant :: uuid
  ba_warehouse :: uuid
  ba_item :: uuid
  ba_on_hand :: rat
  ba_updated_at :: instant

record count_row =
  sc_id :: uuid
  sc_tenant :: uuid
  sc_warehouse :: uuid
  sc_status :: string
  sc_scope :: string
  sc_note :: string
  sc_created_by :: "uuid option"
  sc_posted_by :: "uuid option"
  sc_posted_at :: "instant option"
  sc_created_at :: instant

record count_line_row =
  cl_tenant :: uuid
  cl_count :: uuid
  cl_item :: uuid
  cl_expected_qty :: rat
  cl_counted_qty :: "rat option"

record order_row =
  po_id :: uuid
  po_tenant :: uuid
  po_supplier :: uuid
  po_status :: string
  po_expected_at :: "day option"
  po_sent_at :: "instant option"
  po_received_at :: "instant option"
  po_cancelled_at :: "instant option"
  po_late_notified_at :: "instant option"
  po_note :: string
  po_created_by :: "uuid option"
  po_created_at :: instant

record order_line_row =
  ol_tenant :: uuid
  ol_order :: uuid
  ol_item :: uuid
  ol_qty_ordered :: rat
  ol_qty_received :: "rat option"
  ol_purchase_unit :: string
  ol_unit_factor :: rat
  ol_price :: "rat option"

record daily_row =
  dc_tenant :: uuid
  dc_item :: uuid
  dc_day :: day
  dc_qty :: rat
  dc_has_data :: bool
  dc_stockout :: bool

record forecast_row =
  fc_tenant :: uuid
  fc_item :: uuid
  fc_day :: day
  fc_qty :: rat
  fc_model :: model
  fc_computed_at :: instant

record forecast_metrics_row =
  fm_tenant :: uuid
  fm_item :: uuid
  fm_model :: model
  fm_wape :: f64
  fm_bias :: f64
  fm_sigma :: f64
  fm_alpha :: "f64 option"
  fm_window_days :: int
  fm_days_with_data :: int
  fm_computed_at :: instant

record 'd item_status_row =
  is_tenant :: uuid
  is_item :: uuid
  is_status :: status
  is_on_order :: rat
  is_stockout_date :: "day option"
  is_order_by :: "instant option"
  is_recommended_qty :: rat
  is_target_level :: rat
  is_safety_stock :: rat
  is_supplier :: "uuid option"
  is_explanation :: "'d explanation"
  is_computed_at :: instant

text \<open>\<open>Payload\<close> of \<open>notify.go\<close>, which the rows hold as JSON.\<close>

record 'd payload_item =
  piItem :: "uuid option"
  piName :: string
  piQty :: "'d qty"
  piUnit :: string
  piNote :: string

record 'd payload =
  plTitle :: string
  plBody :: string
  plLink :: string
  plItems :: "'d payload_item list"

record 'd notification_row =
  nt_id :: uuid
  nt_tenant :: uuid
  nt_user :: "uuid option"
  nt_type :: string
  nt_payload :: "'d payload"
  nt_dedup_key :: string
  nt_read_at :: "instant option"
  nt_created_at :: instant

record 'd outbox_row =
  ob_id :: uuid
  ob_tenant :: uuid
  ob_notification :: "uuid option"
  ob_channel :: string
  ob_recipient :: string
  ob_payload :: "'d payload"
  ob_status :: string
  ob_attempts :: int
  ob_next_attempt_at :: instant
  ob_last_error :: string
  ob_created_at :: instant
  ob_sent_at :: "instant option"

record 'd db =
  categories :: "category_row list"
  items :: "item_row list"
  warehouses :: "warehouse_row list"
  users :: "user_row list"
  suppliers :: "supplier_row list"
  supplier_items :: "supplier_item_row list"
  movements :: "movement_row list"
  balances :: "balance_row list"
  counts :: "count_row list"
  count_lines :: "count_line_row list"
  purchase_orders :: "order_row list"
  order_lines :: "order_line_row list"
  daily :: "daily_row list"
  forecasts :: "forecast_row list"
  forecast_metrics :: "forecast_metrics_row list"
  item_status :: "'d item_status_row list"
  notifications :: "'d notification_row list"
  outbox :: "'d outbox_row list"
  uuid_supply :: nat

section \<open>Errors\<close>

text \<open>\<open>RowSecurity\<close> is the refusal of an \<open>ON CONFLICT DO UPDATE\<close> whose row belongs to another
  tenant, \<open>CardinalityViolation\<close> that of a bulk statement that proposes a row twice.\<close>

datatype db_error = UniqueViolation string | CheckViolation string | ForeignKeyViolation string
  | NumericOverflow | NoRows | RowSecurity | CardinalityViolation | BadEncoding

definition ConstraintName :: "db_error \<Rightarrow> string" where
  "ConstraintName e = (case e of UniqueViolation c \<Rightarrow> c | CheckViolation c \<Rightarrow> c
     | ForeignKeyViolation c \<Rightarrow> c | _ \<Rightarrow> [])"

definition IsCheckViolation :: "db_error \<Rightarrow> bool" where
  "IsCheckViolation e \<longleftrightarrow> (\<exists>c. e = CheckViolation c)"

lemma IsCheckViolation_code [code, simp]:
  "IsCheckViolation (CheckViolation c) = True" "IsCheckViolation (UniqueViolation c) = False"
  "IsCheckViolation (ForeignKeyViolation c) = False" "IsCheckViolation NumericOverflow = False"
  "IsCheckViolation NoRows = False" "IsCheckViolation RowSecurity = False"
  "IsCheckViolation CardinalityViolation = False" "IsCheckViolation BadEncoding = False"
  by (simp_all add: IsCheckViolation_def)

section \<open>Text\<close>

text \<open>What a \<open>text\<close> column takes: UTF-8 without a zero byte.\<close>

fun utf8_valid :: "nat list \<Rightarrow> bool" where
  "utf8_valid [] = True"
| "utf8_valid (a # r) = (
     if a = 0 then False
     else if a < 128 then utf8_valid r
     else if 194 \<le> a \<and> a < 224 then (case r of b # r' \<Rightarrow> 128 \<le> b \<and> b < 192 \<and> utf8_valid r' | _ \<Rightarrow> False)
     else if 224 \<le> a \<and> a < 240 then (case r of b # c # r' \<Rightarrow> (if a = 224 then 160 else 128) \<le> b
         \<and> b < (if a = 237 then 160 else 192) \<and> 128 \<le> c \<and> c < 192 \<and> utf8_valid r' | _ \<Rightarrow> False)
     else if 240 \<le> a \<and> a < 245 then (case r of b # c # d # r' \<Rightarrow> (if a = 240 then 144 else 128) \<le> b
         \<and> b < (if a = 244 then 144 else 192) \<and> 128 \<le> c \<and> c < 192 \<and> 128 \<le> d \<and> d < 192 \<and> utf8_valid r' | _ \<Rightarrow> False)
     else False)"

definition valid_text :: "string \<Rightarrow> bool" where
  "valid_text s = utf8_valid (map of_char s)"

fun nullable_text :: "string option \<Rightarrow> bool" where
  "nullable_text None = True"
| "nullable_text (Some s) = valid_text s"

lemma utf8_valid_append: "utf8_valid xs \<Longrightarrow> utf8_valid (xs @ ys) = utf8_valid ys"
proof (induction xs rule: length_induct)
  case (1 xs)
  show ?case
  proof (cases xs)
    case (Cons a r)
    note p = "1.prems"[unfolded Cons]
    have IH: "utf8_valid zs \<Longrightarrow> utf8_valid (zs @ ys) = utf8_valid ys" if "length zs \<le> length r" for zs
      using "1.IH" that by (simp add: Cons)
    consider "a \<noteq> 0" "a < 128" | "194 \<le> a" "a < 224" | "224 \<le> a" "a < 240" | "240 \<le> a" "a < 245"
      using p by (simp split: if_split_asm)
    then show ?thesis
    proof cases
      case 1
      with p IH[of r] show ?thesis by (simp add: Cons)
    next
      case 2
      then have n: "a \<noteq> 0" "\<not> a < 128" by simp_all
      from p n 2 obtain b r' where r: "r = b # r'" "128 \<le> b" "b < 192" "utf8_valid r'" by (cases r) simp_all
      with n 2 IH[of r'] show ?thesis by (simp add: Cons)
    next
      case 3
      then have n: "a \<noteq> 0" "\<not> a < 128" "\<not> a < 224" by simp_all
      from p n 3 obtain b c r' where r: "r = b # c # r'" and v: "utf8_valid r'"
        by (cases r; cases "tl r") simp_all
      from p n 3 IH[of r'] v show ?thesis by (simp add: Cons r del: if_split)
    next
      case 4
      then have n: "a \<noteq> 0" "\<not> a < 128" "\<not> a < 224" "\<not> a < 240" by simp_all
      from p n 4 obtain b c d r' where r: "r = b # c # d # r'" and v: "utf8_valid r'"
        by (cases r; cases "tl r"; cases "tl (tl r)") simp_all
      from p n 4 IH[of r'] v show ?thesis by (simp add: Cons r del: if_split)
    qed
  qed simp
qed
lemma valid_text_append: "valid_text s \<Longrightarrow> valid_text (s @ r) = valid_text r"
  by (simp add: valid_text_def utf8_valid_append)

lemma valid_text_ascii: "\<forall>c \<in> set s. (of_char c :: nat) \<noteq> 0 \<and> (of_char c :: nat) < 128 \<Longrightarrow> valid_text s"
  by (induction s) (simp_all add: valid_text_def)

section \<open>Transactions\<close>

text \<open>
  A step of a transaction maps the state to an error or to a result and the new state. An error
  returned from the body of \<open>InTenantTx\<close> rolls everything back.
\<close>

type_synonym ('s, 'e, 'a) tx = "'s \<Rightarrow> 'e + ('a \<times> 's)"

definition tx_return :: "'a \<Rightarrow> ('s, 'e, 'a) tx" where
  "tx_return x s = Inr (x, s)"

definition tx_fail :: "'e \<Rightarrow> ('s, 'e, 'a) tx" where
  "tx_fail e s = Inl e"

definition tx_bind :: "('s, 'e, 'a) tx \<Rightarrow> ('a \<Rightarrow> ('s, 'e, 'b) tx) \<Rightarrow> ('s, 'e, 'b) tx" where
  "tx_bind m f s = (case m s of Inl e \<Rightarrow> Inl e | Inr (x, s') \<Rightarrow> f x s')"

definition tx_get :: "('s \<Rightarrow> 'a) \<Rightarrow> ('s, 'e, 'a) tx" where
  "tx_get f s = Inr (f s, s)"

definition tx_modify :: "('s \<Rightarrow> 's) \<Rightarrow> ('s, 'e, unit) tx" where
  "tx_modify f s = Inr ((), f s)"

text \<open>A database error becomes an error of the caller.\<close>

definition tx_lift :: "('e \<Rightarrow> 'f) \<Rightarrow> ('s, 'e, 'a) tx \<Rightarrow> ('s, 'f, 'a) tx" where
  "tx_lift w m s = (case m s of Inl e \<Rightarrow> Inl (w e) | Inr r \<Rightarrow> Inr r)"

definition tx_guard :: "bool \<Rightarrow> 'e \<Rightarrow> ('s, 'e, unit) tx" where
  "tx_guard b e s = (if b then Inr ((), s) else Inl e)"

definition tx_of_sum :: "'e + 'a \<Rightarrow> ('s, 'e, 'a) tx" where
  "tx_of_sum r s = (case r of Inl e \<Rightarrow> Inl e | Inr x \<Rightarrow> Inr (x, s))"

fun tx_for :: "'a list \<Rightarrow> ('a \<Rightarrow> ('s, 'e, unit) tx) \<Rightarrow> ('s, 'e, unit) tx" where
  "tx_for [] f = tx_return ()"
| "tx_for (x # xs) f = tx_bind (f x) (\<lambda>_. tx_for xs f)"

definition InTenantTx :: "('s, 'e, 'a) tx \<Rightarrow> 's \<Rightarrow> ('e + 'a) \<times> 's" where
  "InTenantTx fn s = (case fn s of Inl e \<Rightarrow> (Inl e, s) | Inr (x, s') \<Rightarrow> (Inr x, s'))"

lemma tx_simps [simp]:
  "tx_return x s = Inr (x, s)"
  "tx_fail e s = Inl e"
  "tx_get f s = Inr (f s, s)"
  "tx_modify g s = Inr ((), g s)"
  "tx_of_sum (Inl e) s = Inl e"
  "tx_of_sum (Inr x) s = Inr (x, s)"
  by (simp_all add: tx_return_def tx_fail_def tx_get_def tx_modify_def tx_of_sum_def)

lemma tx_guard_Inr [simp]: "tx_guard b e s = Inr (u, s') \<longleftrightarrow> b \<and> s' = s"
  and tx_guard_Inl [simp]: "tx_guard b e s = Inl e' \<longleftrightarrow> \<not> b \<and> e' = e"
  by (auto simp: tx_guard_def)

lemma tx_lift_Inr [simp]: "tx_lift w m s = Inr r \<longleftrightarrow> m s = Inr r"
  by (simp add: tx_lift_def split: sum.split)

lemma tx_bind_Inr: "tx_bind m f s = Inr r \<longleftrightarrow> (\<exists>x s'. m s = Inr (x, s') \<and> f x s' = Inr r)"
  by (auto simp: tx_bind_def split: sum.splits)

lemma tx_bind_InrE [elim!]:
  assumes "tx_bind m f s = Inr r"
  obtains x s' where "m s = Inr (x, s')" and "f x s' = Inr r"
  using assms by (auto simp: tx_bind_Inr)

lemma tx_bind_step: "m s = Inr (x, s') \<Longrightarrow> tx_bind m f s = f x s'"
  by (simp add: tx_bind_def)

lemma tx_bind_get [simp]: "tx_bind (tx_get g) f s = f (g s) s"
  by (simp add: tx_bind_def)

lemma tx_for_invariant:
  assumes "tx_for xs f s = Inr (u, s')" and "P s"
    and "\<And>x s s' u. x \<in> set xs \<Longrightarrow> P s \<Longrightarrow> f x s = Inr (u, s') \<Longrightarrow> P s'"
  shows "P s'"
  using assms
proof (induction xs arbitrary: s)
  case (Cons x xs)
  from Cons.prems(1) obtain s1 where "f x s = Inr ((), s1)" "tx_for xs f s1 = Inr (u, s')"
    by auto
  with Cons show ?case by (meson list.set_intros)
qed simp

lemma InTenantTx_cases:
  obtains (rollback) e where "fn s = Inl e" and "InTenantTx fn s = (Inl e, s)"
  | (commit) x s' where "fn s = Inr (x, s')" and "InTenantTx fn s = (Inr x, s')"
  by (cases "fn s") (auto simp: InTenantTx_def)

lemma InTenantTx_Inr: "InTenantTx fn s = (Inr x, s') \<longleftrightarrow> fn s = Inr (x, s')"
  by (auto simp: InTenantTx_def split: sum.splits)

lemma InTenantTx_Inl: "InTenantTx fn s = (Inl e, s') \<longleftrightarrow> fn s = Inl e \<and> s' = s"
  by (auto simp: InTenantTx_def split: sum.splits)

section \<open>Codecs\<close>

definition numeric_14_3 :: "rat \<Rightarrow> db_error + rat" where
  "numeric_14_3 r = (let v = round_places 3 r in if \<bar>v\<bar> < 10 ^ 11 then Inr v else Inl NumericOverflow)"

definition numeric_14_2 :: "rat \<Rightarrow> db_error + rat" where
  "numeric_14_2 r = (let v = round_places 2 r in if \<bar>v\<bar> < 10 ^ 12 then Inr v else Inl NumericOverflow)"

definition numeric_null :: "(rat \<Rightarrow> db_error + rat) \<Rightarrow> rat option \<Rightarrow> db_error + rat option" where
  "numeric_null c r = (case r of None \<Rightarrow> Inr None | Some x \<Rightarrow> bindE (c x) (\<lambda>v. Inr (Some v)))"

definition is_numeric :: "rat \<Rightarrow> bool" where
  "is_numeric v \<longleftrightarrow> scale3 v \<and> \<bar>v\<bar> < 10 ^ 11"

lemma numeric_14_3_Inr: "numeric_14_3 r = Inr v \<longleftrightarrow> v = round_places 3 r \<and> \<bar>v\<bar> < 10 ^ 11"
  by (auto simp: numeric_14_3_def Let_def)

lemma numeric_14_3_is: "numeric_14_3 r = Inr v \<Longrightarrow> is_numeric v"
  by (auto simp: numeric_14_3_Inr is_numeric_def)

lemma numeric_14_3_id: "scale3 r \<Longrightarrow> numeric_14_3 r = (if \<bar>r\<bar> < 10 ^ 11 then Inr r else Inl NumericOverflow)"
  by (simp add: numeric_14_3_def)

text \<open>\<open>timestamptz\<close> holds microseconds.\<close>

definition pg_Time :: "instant \<Rightarrow> instant" where
  "pg_Time t = t div 1000 * 1000"

definition TimeOrZero :: "instant option \<Rightarrow> instant" where
  "TimeOrZero t = (case t of None \<Rightarrow> zero_time | Some x \<Rightarrow> x)"

definition NullDate :: "day \<Rightarrow> day option" where
  "NullDate d = (if IsZero d then None else Some (day_of_num (dnum d)))"

definition pg_Date :: "day \<Rightarrow> day" where
  "pg_Date d = day_of_num (dnum d)"

definition pg_Day :: "day option \<Rightarrow> day" where
  "pg_Day d = (case d of None \<Rightarrow> zero_day | Some x \<Rightarrow> x)"

definition pg_TimeOfDay :: "time_of_day \<Rightarrow> int" where
  "pg_TimeOfDay t = tHour t * 3600000000 + tMinute t * 60000000"

definition ClockTime :: "int \<Rightarrow> time_of_day" where
  "ClockTime us = (let total = us sdiv 60000000 in TimeOfDay (total sdiv 60) (total smod 60))"

definition pg_Qty :: "'d decimal_lib \<Rightarrow> rat \<Rightarrow> 'd qty" where
  "pg_Qty D r = qFromDecimal D (dOfNumeric D r)"

definition NullQty :: "'d decimal_lib \<Rightarrow> rat option \<Rightarrow> 'd qty option" where
  "NullQty D r = map_option (pg_Qty D) r"

definition QtyOrZero :: "'d decimal_lib \<Rightarrow> rat option \<Rightarrow> 'd qty" where
  "QtyOrZero D r = (case NullQty D r of None \<Rightarrow> qZero D | Some q \<Rightarrow> q)"

text \<open>What the driver sends for a quantity: the number it denotes.\<close>

definition DecimalOf :: "'d decimal_lib \<Rightarrow> 'd qty \<Rightarrow> rat" where
  "DecimalOf D q = dRat D (qdec q)"

lemma DecimalOf_qval: "DecimalOf D q = qval D q"
  by (simp add: DecimalOf_def qval_def)

context decimal_api
begin

lemma pg_Qty_val [simp]: "scale3 r \<Longrightarrow> qval D (pg_Qty D r) = r"
  by (simp add: pg_Qty_def of_numeric)

lemma pg_Qty_wf [simp]: "wfq D (pg_Qty D r)"
  by (simp add: pg_Qty_def wfq_def)

end

lemma ClockTime_TimeOfDay: "valid_tod t \<Longrightarrow> ClockTime (pg_TimeOfDay t) = t"
proof -
  assume v: "valid_tod t"
  then have "pg_TimeOfDay t = 60000000 * minute_of_day t"
    by (simp add: pg_TimeOfDay_def minute_of_day_def)
  moreover have m: "0 \<le> minute_of_day t" using minute_of_day_range[OF v] by simp
  ultimately have "pg_TimeOfDay t sdiv 60000000 = minute_of_day t"
    by (cases "minute_of_day t = 0") (simp_all add: signed_divide_int_def)
  moreover have "minute_of_day t sdiv 60 = minute_of_day t div 60"
    "minute_of_day t smod 60 = minute_of_day t mod 60"
    using m by (cases "minute_of_day t = 0"; simp add: signed_divide_int_def signed_modulo_int_def)+
  moreover have "minute_of_day t div 60 = tHour t" "minute_of_day t mod 60 = tMinute t"
    using v by (auto simp: minute_of_day_def valid_tod_def
        intro!: int_div_pos_eq[where r = "tMinute t"] int_mod_pos_eq[where q = "tHour t"])
  ultimately show ?thesis by (simp add: ClockTime_def Let_def)
qed

section \<open>Visibility\<close>

definition visible :: "uuid \<Rightarrow> ('r \<Rightarrow> uuid) \<Rightarrow> 'r list \<Rightarrow> 'r list" where
  "visible tid tenant_of rows = filter (\<lambda>r. tenant_of r = tid) rows"

lemma visible_set [simp]: "r \<in> set (visible tid tn rows) \<longleftrightarrow> r \<in> set rows \<and> tn r = tid"
  by (auto simp: visible_def)

text \<open>The rows of an \<open>UPDATE\<close> under row-level security.\<close>

definition update_rows :: "('r \<Rightarrow> bool) \<Rightarrow> ('r \<Rightarrow> 'r) \<Rightarrow> 'r list \<Rightarrow> 'r list" where
  "update_rows P f rows = map (\<lambda>r. if P r then f r else r) rows"

lemma find_visible_update:
  assumes "\<And>r. key (f r) = key r" and "\<And>r. tn (f r) = tn r"
  shows "find (\<lambda>r. key r = i) (visible tid tn (update_rows (\<lambda>r. tn r = tid \<and> key r = i) f rows)) =
    map_option f (find (\<lambda>r. key r = i) (visible tid tn rows))"
  using assms by (induction rows) (auto simp: visible_def update_rows_def)

text \<open>\<open>INSERT ... ON CONFLICT (key) DO UPDATE\<close>.\<close>

definition upsert_row :: "('r \<Rightarrow> bool) \<Rightarrow> ('r \<Rightarrow> 'r) \<Rightarrow> 'r \<Rightarrow> 'r list \<Rightarrow> 'r list" where
  "upsert_row P f new rows = (if list_ex P rows then update_rows P f rows else rows @ [new])"

definition upsert_tx :: "uuid \<Rightarrow> ('r \<Rightarrow> uuid) \<Rightarrow> ('r \<Rightarrow> bool) \<Rightarrow> ('r \<Rightarrow> 'r) \<Rightarrow> 'r \<Rightarrow> 'r list \<Rightarrow> db_error + 'r list" where
  "upsert_tx tid tn P f new rows = (if list_ex (\<lambda>r. P r \<and> tn r \<noteq> tid) rows then Inl RowSecurity
     else Inr (upsert_row P f new rows))"

lemma upsert_visible_other:
  assumes "upsert_tx tid tn P f new rows = Inr rows'" and "tn new = tid" and "\<And>r. tn (f r) = tn r" and "other \<noteq> tid"
  shows "visible other tn rows' = visible other tn rows"
proof -
  have own: "\<forall>r \<in> set rows. P r \<longrightarrow> tn r = tid"
    using assms(1) by (auto simp: upsert_tx_def list_ex_iff split: if_splits)
  then have "visible other tn (update_rows P f rows) = visible other tn rows"
    using assms(3,4) by (induction rows) (auto simp: visible_def update_rows_def)
  then show ?thesis
    using assms(1,2,4) by (auto simp: upsert_tx_def upsert_row_def visible_def split: if_splits)
qed

definition new_uuid :: "('d db, 'e, uuid) tx" where
  "new_uuid st = Inr (uuid_supply st, st\<lparr>uuid_supply := Suc (uuid_supply st)\<rparr>)"

end
