(* ===== verification/Stock_Db.thy ===== *)
theory Stock_Db
  imports Database "HOL-Library.Product_Lexorder" "HOL-Library.List_Lexorder"
begin

text \<open>
  The queries of \<open>queries/stock.sql\<close> (and the few of \<open>queries/catalog.sql\<close> the stock module
  uses), as sqlc compiles them into \<open>internal/platform/sqlc\<close>: each is a function on the tables,
  under the row-level security of the tenant \<open>tid\<close>, with the constraints of the migration as
  errors in the order PostgreSQL tests them (checks by name, unique indexes, foreign keys).
\<close>

section \<open>Catalogue look-ups\<close>

definition GetItem :: "uuid \<Rightarrow> uuid \<Rightarrow> 'd db \<Rightarrow> item_row option" where
  "GetItem tid iid st = find (\<lambda>r. it_id r = iid) (visible tid it_tenant (items st))"

definition GetDefaultWarehouse :: "uuid \<Rightarrow> 'd db \<Rightarrow> warehouse_row option" where
  "GetDefaultWarehouse tid st = (case sort_key wh_created_at (visible tid wh_tenant (warehouses st)) of
     [] \<Rightarrow> None | r # _ \<Rightarrow> Some r)"

definition ListActiveItemIDs :: "uuid \<Rightarrow> 'd db \<Rightarrow> uuid list" where
  "ListActiveItemIDs tid st =
     sort (map it_id (filter (\<lambda>r. it_archived_at r = None) (visible tid it_tenant (items st))))"

definition item_exists :: "uuid \<Rightarrow> uuid \<Rightarrow> 'd db \<Rightarrow> bool" where
  "item_exists tid iid st = list_ex (\<lambda>r. it_tenant r = tid \<and> it_id r = iid) (items st)"

definition warehouse_exists :: "uuid \<Rightarrow> uuid \<Rightarrow> 'd db \<Rightarrow> bool" where
  "warehouse_exists tid wid st = list_ex (\<lambda>r. wh_tenant r = tid \<and> wh_id r = wid) (warehouses st)"

definition count_exists :: "uuid \<Rightarrow> uuid \<Rightarrow> 'd db \<Rightarrow> bool" where
  "count_exists tid cid st = list_ex (\<lambda>r. sc_tenant r = tid \<and> sc_id r = cid) (counts st)"

definition order_exists :: "uuid \<Rightarrow> uuid \<Rightarrow> 'd db \<Rightarrow> bool" where
  "order_exists tid oid st = list_ex (\<lambda>r. po_tenant r = tid \<and> po_id r = oid) (purchase_orders st)"

definition movement_exists :: "uuid \<Rightarrow> uuid \<Rightarrow> 'd db \<Rightarrow> bool" where
  "movement_exists tid mid st = list_ex (\<lambda>r. mv_tenant r = tid \<and> mv_id r = mid) (movements st)"

section \<open>The journal\<close>

definition GetMovementByIdempotencyKey :: "uuid \<Rightarrow> string \<Rightarrow> 'd db \<Rightarrow> movement_row option" where
  "GetMovementByIdempotencyKey tid key st =
     find (\<lambda>r. mv_idempotency_key r = Some key) (visible tid mv_tenant (movements st))"

definition GetMovement :: "uuid \<Rightarrow> uuid \<Rightarrow> 'd db \<Rightarrow> movement_row option" where
  "GetMovement tid mid st = find (\<lambda>r. mv_id r = mid) (visible tid mv_tenant (movements st))"

definition GetReversalOf :: "uuid \<Rightarrow> uuid \<Rightarrow> 'd db \<Rightarrow> movement_row option" where
  "GetReversalOf tid mid st = find (\<lambda>r. mv_reverses r = Some mid) (visible tid mv_tenant (movements st))"

text \<open>The CHECK constraints \<open>stock_movements_sign\<close> and \<open>stock_movements_writeoff_reason\<close>.\<close>

definition movement_sign_ok :: "string \<Rightarrow> rat \<Rightarrow> bool" where
  "movement_sign_ok ty q = (if ty = ''opening'' \<or> ty = ''receipt'' then 0 < q
     else if ty = ''usage'' \<or> ty = ''writeoff'' then q < 0 else True)"

definition writeoff_reason_ok :: "string \<Rightarrow> string option \<Rightarrow> bool" where
  "writeoff_reason_ok ty reason = (ty \<noteq> ''writeoff'' \<or>
     (case reason of None \<Rightarrow> False | Some s \<Rightarrow> list_ex (\<lambda>c. c \<noteq> CHR '' '') s))"

definition movement_checks :: "movement_row \<Rightarrow> db_error + unit" where
  "movement_checks r =
     bindE (guardE (mv_qty r \<noteq> 0) (CheckViolation ''stock_movements_qty_check'')) (\<lambda>_.
     bindE (guardE ((mv_type r = ''reversal'') = (mv_reverses r \<noteq> None))
       (CheckViolation ''stock_movements_reversal_link'')) (\<lambda>_.
     bindE (guardE (movement_sign_ok (mv_type r) (mv_qty r)) (CheckViolation ''stock_movements_sign'')) (\<lambda>_.
     guardE (writeoff_reason_ok (mv_type r) (mv_reason r)) (CheckViolation ''stock_movements_writeoff_reason''))))"

definition movement_unique :: "movement_row \<Rightarrow> 'd db \<Rightarrow> db_error + unit" where
  "movement_unique r st =
     bindE (guardE (\<not> list_ex (\<lambda>x. mv_id x = mv_id r) (movements st))
       (UniqueViolation ''stock_movements_pkey'')) (\<lambda>_.
     bindE (guardE (mv_idempotency_key r = None \<or> \<not> list_ex (\<lambda>x. mv_tenant x = mv_tenant r
         \<and> mv_idempotency_key x = mv_idempotency_key r) (movements st))
       (UniqueViolation ''stock_movements_idempotency_idx'')) (\<lambda>_.
     guardE (mv_reverses r = None \<or> \<not> list_ex (\<lambda>x. mv_tenant x = mv_tenant r
         \<and> mv_reverses x = mv_reverses r) (movements st))
       (UniqueViolation ''stock_movements_reverses_idx'')))"

definition movement_references :: "movement_row \<Rightarrow> 'd db \<Rightarrow> db_error + unit" where
  "movement_references r st = (let tid = mv_tenant r;
       opt = (\<lambda>ex x. case x of None \<Rightarrow> True | Some i \<Rightarrow> ex tid i st)
     in bindE (guardE (item_exists tid (mv_item r) st) (ForeignKeyViolation ''stock_movements_item_fk'')) (\<lambda>_.
     bindE (guardE (warehouse_exists tid (mv_warehouse r) st)
       (ForeignKeyViolation ''stock_movements_warehouse_fk'')) (\<lambda>_.
     bindE (guardE (opt count_exists (mv_count r)) (ForeignKeyViolation ''stock_movements_count_fk'')) (\<lambda>_.
     bindE (guardE (opt movement_exists (mv_reverses r)) (ForeignKeyViolation ''stock_movements_reverses_fk'')) (\<lambda>_.
     guardE (opt order_exists (mv_order r)) (ForeignKeyViolation ''stock_movements_order_fk''))))))"

text \<open>The columns of free text.\<close>

definition movement_texts :: "movement_row \<Rightarrow> bool" where
  "movement_texts r \<longleftrightarrow> valid_text (mv_comment r) \<and> nullable_text (mv_reason r)
     \<and> nullable_text (mv_idempotency_key r)"

text \<open>\<open>row\<close> holds the parameters; \<open>created_at\<close> is the default \<open>now()\<close>.\<close>

definition InsertMovement :: "instant \<Rightarrow> movement_row \<Rightarrow> ('d db, db_error, movement_row) tx" where
  "InsertMovement w row st =
     bindE (guardE (movement_texts row) BadEncoding) (\<lambda>_. bindE (numeric_14_3 (mv_qty row)) (\<lambda>q.
     let r = row\<lparr>mv_qty := q, mv_created_at := pg_Time w, mv_occurred_at := pg_Time (mv_occurred_at row)\<rparr> in
     bindE (movement_checks r) (\<lambda>_. bindE (movement_unique r st) (\<lambda>_. bindE (movement_references r st) (\<lambda>_.
     Inr (r, st\<lparr>movements := movements st @ [r]\<rparr>))))))"

section \<open>Balances\<close>

definition balance_key :: "uuid \<Rightarrow> uuid \<Rightarrow> balance_row \<Rightarrow> bool" where
  "balance_key wid iid r \<longleftrightarrow> ba_warehouse r = wid \<and> ba_item r = iid"

definition LockBalance :: "uuid \<Rightarrow> uuid \<Rightarrow> uuid \<Rightarrow> ('d db, db_error, rat) tx" where
  "LockBalance tid wid iid st =
     (case find (balance_key wid iid) (visible tid ba_tenant (balances st)) of
        None \<Rightarrow> Inl NoRows | Some r \<Rightarrow> Inr (ba_on_hand r, st))"

definition EnsureBalance :: "uuid \<Rightarrow> uuid \<Rightarrow> uuid \<Rightarrow> instant \<Rightarrow> ('d db, db_error, unit) tx" where
  "EnsureBalance tid wid iid w st =
     (if list_ex (balance_key wid iid) (balances st) then Inr ((), st)
      else bindE (guardE (item_exists tid iid st) (ForeignKeyViolation ''stock_balances_item_fk'')) (\<lambda>_.
           bindE (guardE (warehouse_exists tid wid st) (ForeignKeyViolation ''stock_balances_warehouse_fk'')) (\<lambda>_.
           Inr ((), st\<lparr>balances := balances st @ [\<lparr>ba_tenant = tid, ba_warehouse = wid, ba_item = iid,
                                                 ba_on_hand = 0, ba_updated_at = pg_Time w\<rparr>]\<rparr>))))"

definition ApplyMovementToBalance :: "uuid \<Rightarrow> uuid \<Rightarrow> uuid \<Rightarrow> rat \<Rightarrow> instant \<Rightarrow> ('d db, db_error, rat) tx" where
  "ApplyMovementToBalance tid wid iid delta now st =
     (case find (balance_key wid iid) (visible tid ba_tenant (balances st)) of
        None \<Rightarrow> Inl NoRows
      | Some r \<Rightarrow> bindE (numeric_14_3 (ba_on_hand r + delta)) (\<lambda>v.
          if v < 0 then Inl (CheckViolation ''stock_balances_on_hand_check'')
          else Inr (v, st\<lparr>balances := update_rows (\<lambda>x. ba_tenant x = tid \<and> balance_key wid iid x)
             (\<lambda>x. x\<lparr>ba_on_hand := v, ba_updated_at := pg_Time now\<rparr>) (balances st)\<rparr>)))"

definition GetBalance :: "uuid \<Rightarrow> uuid \<Rightarrow> 'd db \<Rightarrow> balance_row option" where
  "GetBalance tid iid st = find (\<lambda>r. ba_item r = iid) (visible tid ba_tenant (balances st))"

definition ListBalances_q :: "uuid \<Rightarrow> 'd db \<Rightarrow> balance_row list" where
  "ListBalances_q tid st = visible tid ba_tenant (balances st)"

text \<open>The journal by item, one row per item that has movements.\<close>

definition SumMovementsByItem :: "uuid \<Rightarrow> 'd db \<Rightarrow> (uuid \<times> rat) list" where
  "SumMovementsByItem tid st = (let ms = visible tid mv_tenant (movements st) in
     map (\<lambda>i. (i, sum_list (map mv_qty (filter (\<lambda>m. mv_item m = i) ms)))) (remdups (map mv_item ms)))"

record movement_filter =
  flItem :: "uuid option"
  flType :: "string option"
  flAuthor :: "uuid option"
  flFrom :: "instant option"
  flTo :: "instant option"
  flCursor :: "(instant \<times> uuid) option"

record movement_list_row =
  lrRow :: movement_row
  lrItemName :: string
  lrBaseUnit :: string
  lrAuthorName :: "string option"

definition filter_matches :: "movement_filter \<Rightarrow> movement_row \<Rightarrow> bool" where
  "filter_matches f m \<longleftrightarrow> (flItem f = None \<or> flItem f = Some (mv_item m))
     \<and> (flType f = None \<or> flType f = Some (mv_type m))
     \<and> (flAuthor f = None \<or> (mv_created_by m \<noteq> None \<and> flAuthor f = mv_created_by m))
     \<and> (case flFrom f of None \<Rightarrow> True | Some t \<Rightarrow> pg_Time t \<le> mv_occurred_at m)
     \<and> (case flTo f of None \<Rightarrow> True | Some t \<Rightarrow> mv_occurred_at m < pg_Time t)"

definition before_cursor :: "(instant \<times> uuid) option \<Rightarrow> movement_row \<Rightarrow> bool" where
  "before_cursor c m \<longleftrightarrow> (case c of None \<Rightarrow> True | Some (t, i) \<Rightarrow> (mv_occurred_at m, mv_id m) < (pg_Time t, i))"

text \<open>The joins: an item that is not there drops the row, an author that is not there does not.\<close>

definition join_movement :: "uuid \<Rightarrow> 'd db \<Rightarrow> movement_row \<Rightarrow> movement_list_row list" where
  "join_movement tid st m = (case GetItem tid (mv_item m) st of None \<Rightarrow> []
     | Some it \<Rightarrow> [\<lparr>lrRow = m, lrItemName = it_name it, lrBaseUnit = it_base_unit it,
         lrAuthorName = map_option us_name
           (find (\<lambda>u. mv_created_by m = Some (us_id u)) (visible tid us_tenant (users st)))\<rparr>])"

definition ListMovements_q :: "uuid \<Rightarrow> movement_filter \<Rightarrow> int \<Rightarrow> 'd db \<Rightarrow> movement_list_row list" where
  "ListMovements_q tid f n st = take (nat n) (concat (map (join_movement tid st)
     (rev (sort_key (\<lambda>m. (mv_occurred_at m, mv_id m))
       (filter (\<lambda>m. filter_matches f m \<and> before_cursor (flCursor f) m)
         (visible tid mv_tenant (movements st)))))))"

section \<open>Counts\<close>

definition CreateStockCount :: "instant \<Rightarrow> count_row \<Rightarrow> ('d db, db_error, count_row) tx" where
  "CreateStockCount w row st = (let r = row\<lparr>sc_status := ''draft'', sc_posted_by := None,
       sc_posted_at := None, sc_created_at := pg_Time w\<rparr> in
     bindE (guardE (valid_text (sc_note r)) BadEncoding) (\<lambda>_.
     bindE (guardE (\<not> list_ex (\<lambda>x. sc_id x = sc_id r) (counts st)) (UniqueViolation ''stock_counts_pkey'')) (\<lambda>_.
     bindE (guardE (warehouse_exists (sc_tenant r) (sc_warehouse r) st)
       (ForeignKeyViolation ''stock_counts_warehouse_fk'')) (\<lambda>_.
     Inr (r, st\<lparr>counts := counts st @ [r]\<rparr>)))))"

text \<open>\<open>GetStockCount\<close> and \<open>GetStockCountForUpdate\<close> read the same row.\<close>

definition GetStockCount :: "uuid \<Rightarrow> uuid \<Rightarrow> 'd db \<Rightarrow> count_row option" where
  "GetStockCount tid cid st = find (\<lambda>r. sc_id r = cid) (visible tid sc_tenant (counts st))"

definition ListStockCounts :: "uuid \<Rightarrow> int \<Rightarrow> 'd db \<Rightarrow> count_row list" where
  "ListStockCounts tid n st = take (nat n) (rev (sort_key sc_created_at (visible tid sc_tenant (counts st))))"

definition PostStockCount :: "uuid \<Rightarrow> uuid \<Rightarrow> instant \<Rightarrow> uuid \<Rightarrow> ('d db, db_error, unit) tx" where
  "PostStockCount tid cid posted by_id st = Inr ((), st\<lparr>counts := update_rows (\<lambda>r. sc_tenant r = tid \<and> sc_id r = cid)
     (\<lambda>r. r\<lparr>sc_status := ''posted'', sc_posted_at := Some (pg_Time posted), sc_posted_by := Some by_id\<rparr>) (counts st)\<rparr>)"

definition UpsertStockCountLine :: "uuid \<Rightarrow> uuid \<Rightarrow> uuid \<Rightarrow> rat \<Rightarrow> rat option \<Rightarrow> ('d db, db_error, unit) tx" where
  "UpsertStockCountLine tid cid iid expected counted st =
     bindE (numeric_14_3 expected) (\<lambda>e. bindE (numeric_null numeric_14_3 counted) (\<lambda>c.
     bindE (guardE (case c of None \<Rightarrow> True | Some v \<Rightarrow> 0 \<le> v)
       (CheckViolation ''stock_count_lines_counted_qty_check'')) (\<lambda>_.
     bindE (upsert_tx tid cl_tenant (\<lambda>r. cl_count r = cid \<and> cl_item r = iid)
       (\<lambda>r. r\<lparr>cl_expected_qty := e, cl_counted_qty := c\<rparr>)
       \<lparr>cl_tenant = tid, cl_count = cid, cl_item = iid, cl_expected_qty = e, cl_counted_qty = c\<rparr>
       (count_lines st)) (\<lambda>rows.
     bindE (guardE (count_exists tid cid st) (ForeignKeyViolation ''stock_count_lines_count_fk'')) (\<lambda>_.
     bindE (guardE (item_exists tid iid st) (ForeignKeyViolation ''stock_count_lines_item_fk'')) (\<lambda>_.
     Inr ((), st\<lparr>count_lines := rows\<rparr>)))))))"

record count_line_list_row =
  llRow :: count_line_row
  llItemName :: string
  llBaseUnit :: string
  llCurrentQty :: rat

definition join_count_line :: "uuid \<Rightarrow> 'd db \<Rightarrow> count_line_row \<Rightarrow> count_line_list_row list" where
  "join_count_line tid st l = (case GetItem tid (cl_item l) st of None \<Rightarrow> []
     | Some it \<Rightarrow> (let bs = filter (\<lambda>b. ba_item b = cl_item l) (visible tid ba_tenant (balances st));
         mk = (\<lambda>v. \<lparr>llRow = l, llItemName = it_name it, llBaseUnit = it_base_unit it, llCurrentQty = v\<rparr>)
       in if bs = [] then [mk 0] else map (\<lambda>b. mk (ba_on_hand b)) bs))"

text \<open>The order of names is the byte order of their UTF-8 text (collation \<open>C\<close>).\<close>

definition name_key :: "string \<Rightarrow> nat list" where
  "name_key s = map of_char s"

definition ListStockCountLines :: "uuid \<Rightarrow> uuid \<Rightarrow> 'd db \<Rightarrow> count_line_list_row list" where
  "ListStockCountLines tid cid st = sort_key (\<lambda>r. name_key (llItemName r))
     (concat (map (join_count_line tid st)
       (filter (\<lambda>l. cl_count l = cid) (visible tid cl_tenant (count_lines st)))))"

definition ListCountedLines :: "uuid \<Rightarrow> uuid \<Rightarrow> 'd db \<Rightarrow> count_line_row list" where
  "ListCountedLines tid cid st =
     filter (\<lambda>l. cl_count l = cid \<and> cl_counted_qty l \<noteq> None) (visible tid cl_tenant (count_lines st))"

end
