(* ===== verification/Forecast_Db.thy ===== *)
theory Forecast_Db
  imports Stock_Db
begin

text \<open>
  The queries of \<open>queries/forecast.sql\<close>, with \<open>DeleteDailyConsumptionBefore\<close> of \<open>stock.sql\<close>
  and the sums over sent orders of \<open>orders.sql\<close>: what the status recalculation reads and writes.
  A zone is passed by its data; the database and the program are taken to have the same. The groups
  of a \<open>GROUP BY\<close> come in the order of their last row.
\<close>

section \<open>Days of moments\<close>

definition local_day :: "location \<Rightarrow> instant \<Rightarrow> day" where
  "local_day tz t = DayIn t tz"

definition is_consumption :: "movement_row \<Rightarrow> bool" where
  "is_consumption m \<longleftrightarrow> mv_type m = ''usage'' \<or> mv_type m = ''writeoff'' \<or> mv_type m = ''adjustment''"

section \<open>Reading for the statuses\<close>

definition left_join :: "'a list \<Rightarrow> 'a option list" where
  "left_join xs = (if xs = [] then [None] else map Some xs)"

definition or_else :: "'b \<Rightarrow> ('a \<Rightarrow> 'b) \<Rightarrow> 'a option \<Rightarrow> 'b" where
  "or_else z f x = (case x of None \<Rightarrow> z | Some y \<Rightarrow> f y)"

record status_row =
  stItem :: uuid
  stItemName :: string
  stBaseUnit :: string
  stServiceLevel :: int
  stManualMinQty :: rat
  stOnHand :: rat
  stSupplier :: "uuid option"
  stSupplierName :: "string option"
  stLeadTimeDays :: "int option"
  stDeliveryWeekdays :: "int list"
  stOrderCutoff :: "int option"
  stMinOrderQty :: rat
  stPackMultiple :: rat
  stPurchaseUnit :: string
  stUnitFactor :: rat
  stSigma :: f64
  stMetricsModel :: "model option"
  stWape :: f64
  stBias :: f64

definition status_row_of :: "item_row \<Rightarrow> balance_row option \<Rightarrow> supplier_row option \<Rightarrow> supplier_item_row option \<Rightarrow>
    forecast_metrics_row option \<Rightarrow> status_row" where
  "status_row_of i b s si fm = \<lparr>stItem = it_id i, stItemName = it_name i, stBaseUnit = it_base_unit i,
     stServiceLevel = it_service_level i, stManualMinQty = it_manual_min_qty i,
     stOnHand = or_else 0 ba_on_hand b, stSupplier = map_option su_id s, stSupplierName = map_option su_name s,
     stLeadTimeDays = map_option su_lead_time_days s, stDeliveryWeekdays = or_else [] su_delivery_weekdays s,
     stOrderCutoff = map_option su_order_cutoff s, stMinOrderQty = or_else 0 si_min_order_qty si,
     stPackMultiple = or_else 0 si_pack_multiple si, stPurchaseUnit = or_else [] si_purchase_unit si,
     stUnitFactor = or_else 1 si_unit_factor si, stSigma = or_else (Fin 0) fm_sigma fm,
     stMetricsModel = map_option fm_model fm, stWape = or_else (Fin 1) fm_wape fm,
     stBias = or_else (Fin 0) fm_bias fm\<rparr>"

definition join_status :: "uuid \<Rightarrow> 'd db \<Rightarrow> item_row \<Rightarrow> status_row list" where
  "join_status tid st i = [status_row_of i b s si fm.
     b \<leftarrow> left_join (filter (\<lambda>r. ba_item r = it_id i) (visible tid ba_tenant (balances st))),
     s \<leftarrow> left_join (filter (\<lambda>r. it_default_supplier i = Some (su_id r)) (visible tid su_tenant (suppliers st))),
     si \<leftarrow> left_join (filter (\<lambda>r. si_item r = it_id i \<and> it_default_supplier i = Some (si_supplier r))
             (visible tid si_tenant (supplier_items st))),
     fm \<leftarrow> left_join (filter (\<lambda>r. fm_item r = it_id i) (visible tid fm_tenant (forecast_metrics st)))]"

definition GetItemForStatus :: "uuid \<Rightarrow> uuid \<Rightarrow> 'd db \<Rightarrow> status_row option" where
  "GetItemForStatus tid iid st = (case concat (map (join_status tid st)
       (filter (\<lambda>i. it_id i = iid) (visible tid it_tenant (items st)))) of [] \<Rightarrow> None | r # _ \<Rightarrow> Some r)"

definition ListItemsForStatus :: "uuid \<Rightarrow> 'd db \<Rightarrow> status_row list" where
  "ListItemsForStatus tid st = concat (map (join_status tid st)
     (sort_key it_id (filter (\<lambda>i. it_archived_at i = None) (visible tid it_tenant (items st)))))"

definition GetItemStatus :: "uuid \<Rightarrow> uuid \<Rightarrow> 'd db \<Rightarrow> 'd item_status_row option" where
  "GetItemStatus tid iid st = find (\<lambda>r. is_item r = iid) (visible tid is_tenant (item_status st))"

definition ListItemStatuses :: "uuid \<Rightarrow> 'd db \<Rightarrow> 'd item_status_row list" where
  "ListItemStatuses tid st = visible tid is_tenant (item_status st)"

definition ListForecastForItem :: "uuid \<Rightarrow> uuid \<Rightarrow> day \<Rightarrow> 'd db \<Rightarrow> forecast_row list" where
  "ListForecastForItem tid iid d st = sort_key (\<lambda>r. dnum (fc_day r))
     (filter (\<lambda>r. fc_item r = iid \<and> dnum d \<le> dnum (fc_day r)) (visible tid fc_tenant (forecasts st)))"

definition ListForecastsFrom :: "uuid \<Rightarrow> day \<Rightarrow> 'd db \<Rightarrow> forecast_row list" where
  "ListForecastsFrom tid d st = sort_key (\<lambda>r. (fc_item r, dnum (fc_day r)))
     (filter (\<lambda>r. dnum d \<le> dnum (fc_day r)) (visible tid fc_tenant (forecasts st)))"

section \<open>On order\<close>

text \<open>The lines of sent orders with the expected day of their order.\<close>

definition sent_lines :: "uuid \<Rightarrow> 'd db \<Rightarrow> (order_line_row \<times> day option) list" where
  "sent_lines tid st = [(l, po_expected_at o').
     l \<leftarrow> visible tid ol_tenant (order_lines st),
     o' \<leftarrow> filter (\<lambda>r. po_id r = ol_order l \<and> po_status r = ''sent'') (visible tid po_tenant (purchase_orders st))]"

definition ListIncomingForItem :: "uuid \<Rightarrow> uuid \<Rightarrow> 'd db \<Rightarrow> (day option \<times> rat) list" where
  "ListIncomingForItem tid iid st = (let ls = filter (\<lambda>(l, e). ol_item l = iid) (sent_lines tid st) in
     map (\<lambda>e. (e, sum_list (map (\<lambda>(l, _). ol_qty_ordered l) (filter (\<lambda>(_, e'). e' = e) ls))))
       (remdups (map snd ls)))"

definition ListIncomingByItem :: "uuid \<Rightarrow> 'd db \<Rightarrow> (uuid \<times> day option \<times> rat) list" where
  "ListIncomingByItem tid st = (let ls = sent_lines tid st in
     map (\<lambda>(i, e). (i, e, sum_list (map (\<lambda>(l, _). ol_qty_ordered l) (filter (\<lambda>(l, e'). ol_item l = i \<and> e' = e) ls))))
       (remdups (map (\<lambda>(l, e). (ol_item l, e)) ls)))"

section \<open>Consumption\<close>

definition SumConsumptionForDay :: "uuid \<Rightarrow> uuid \<Rightarrow> location \<Rightarrow> day \<Rightarrow> 'd db \<Rightarrow> rat" where
  "SumConsumptionForDay tid iid tz d st = - sum_list (map mv_qty (filter (\<lambda>m. mv_item m = iid \<and> is_consumption m
     \<and> local_day tz (mv_occurred_at m) = pg_Date d) (visible tid mv_tenant (movements st))))"

definition SumConsumptionByItemForDay :: "uuid \<Rightarrow> location \<Rightarrow> day \<Rightarrow> 'd db \<Rightarrow> (uuid \<times> rat) list" where
  "SumConsumptionByItemForDay tid tz d st = (let ms = filter (\<lambda>m. is_consumption m
       \<and> local_day tz (mv_occurred_at m) = pg_Date d) (visible tid mv_tenant (movements st)) in
     map (\<lambda>i. (i, - sum_list (map mv_qty (filter (\<lambda>m. mv_item m = i) ms)))) (remdups (map mv_item ms)))"

section \<open>Writing statuses and forecasts\<close>

definition UpsertItemStatus :: "'d item_status_row \<Rightarrow> ('d db, db_error, unit) tx" where
  "UpsertItemStatus row st =
     bindE (numeric_14_3 (is_on_order row)) (\<lambda>onOrder. bindE (numeric_14_3 (is_recommended_qty row)) (\<lambda>recommended.
     bindE (numeric_14_3 (is_target_level row)) (\<lambda>target. bindE (numeric_14_3 (is_safety_stock row)) (\<lambda>safety.
     let r = row\<lparr>is_on_order := onOrder, is_recommended_qty := recommended, is_target_level := target,
       is_safety_stock := safety, is_order_by := map_option pg_Time (is_order_by row),
       is_computed_at := pg_Time (is_computed_at row)\<rparr>
     in bindE (upsert_tx (is_tenant r) is_tenant (\<lambda>x. is_item x = is_item r) (\<lambda>x. r\<lparr>is_tenant := is_tenant x, is_item := is_item x\<rparr>) r
         (item_status st)) (\<lambda>rows.
     bindE (guardE (item_exists (is_tenant r) (is_item r) st) (ForeignKeyViolation ''item_status_item_fk'')) (\<lambda>_.
     Inr ((), st\<lparr>item_status := rows\<rparr>)))))))"

definition UpsertForecastMetrics :: "forecast_metrics_row \<Rightarrow> ('d db, db_error, unit) tx" where
  "UpsertForecastMetrics row st = (let r = row\<lparr>fm_computed_at := pg_Time (fm_computed_at row)\<rparr> in
     bindE (upsert_tx (fm_tenant r) fm_tenant (\<lambda>x. fm_item x = fm_item r) (\<lambda>x. r\<lparr>fm_tenant := fm_tenant x, fm_item := fm_item x\<rparr>) r
         (forecast_metrics st)) (\<lambda>rows.
     bindE (guardE (item_exists (fm_tenant r) (fm_item r) st) (ForeignKeyViolation ''forecast_metrics_item_fk'')) (\<lambda>_.
     Inr ((), st\<lparr>forecast_metrics := rows\<rparr>))))"

definition DeleteForecastsFromForItems :: "uuid \<Rightarrow> day \<Rightarrow> uuid list \<Rightarrow> ('d db, db_error, unit) tx" where
  "DeleteForecastsFromForItems tid d ids st = Inr ((), st\<lparr>forecasts :=
     filter (\<lambda>r. \<not> (fc_tenant r = tid \<and> dnum d \<le> dnum (fc_day r) \<and> fc_item r \<in> set ids)) (forecasts st)\<rparr>)"

text \<open>The rows of a bulk insert are written in order.\<close>

fun foldM_rows :: "('r \<Rightarrow> 's \<Rightarrow> 'e + 's) \<Rightarrow> 'r list \<Rightarrow> 's \<Rightarrow> 'e + 's" where
  "foldM_rows f [] s = Inr s"
| "foldM_rows f (r # rs) s = bindE (f r s) (foldM_rows f rs)"

definition insert_forecast :: "forecast_row \<Rightarrow> 'd db \<Rightarrow> db_error + 'd db" where
  "insert_forecast row st = bindE (numeric_14_3 (fc_qty row)) (\<lambda>q.
     let r = row\<lparr>fc_qty := q, fc_day := pg_Date (fc_day row), fc_computed_at := pg_Time (fc_computed_at row)\<rparr> in
     bindE (guardE (0 \<le> q) (CheckViolation ''forecasts_qty_check'')) (\<lambda>_.
     bindE (upsert_tx (fc_tenant r) fc_tenant (\<lambda>x. fc_item x = fc_item r \<and> fc_day x = fc_day r)
         (\<lambda>x. x\<lparr>fc_qty := q, fc_model := fc_model r, fc_computed_at := fc_computed_at r\<rparr>) r (forecasts st)) (\<lambda>rows.
     bindE (guardE (item_exists (fc_tenant r) (fc_item r) st) (ForeignKeyViolation ''forecasts_item_fk'')) (\<lambda>_.
     Inr (st\<lparr>forecasts := rows\<rparr>)))))"

definition BulkUpsertForecasts :: "forecast_row list \<Rightarrow> ('d db, db_error, unit) tx" where
  "BulkUpsertForecasts rows st = bindE (guardE (distinct (map (\<lambda>r. (fc_item r, pg_Date (fc_day r))) rows)) CardinalityViolation) (\<lambda>_.
     bindE (foldM_rows insert_forecast rows st) (\<lambda>st'. Inr ((), st')))"

definition insert_daily :: "daily_row \<Rightarrow> 'd db \<Rightarrow> db_error + 'd db" where
  "insert_daily row st = bindE (numeric_14_3 (dc_qty row)) (\<lambda>q.
     let r = row\<lparr>dc_qty := q, dc_day := pg_Date (dc_day row)\<rparr> in
     bindE (upsert_tx (dc_tenant r) dc_tenant (\<lambda>x. dc_item x = dc_item r \<and> dc_day x = dc_day r)
         (\<lambda>x. x\<lparr>dc_qty := q, dc_has_data := dc_has_data r, dc_stockout := dc_stockout r\<rparr>) r (daily st)) (\<lambda>rows.
     bindE (guardE (item_exists (dc_tenant r) (dc_item r) st) (ForeignKeyViolation ''daily_consumption_item_fk'')) (\<lambda>_.
     Inr (st\<lparr>daily := rows\<rparr>))))"

definition BulkUpsertDailyConsumption :: "daily_row list \<Rightarrow> ('d db, db_error, unit) tx" where
  "BulkUpsertDailyConsumption rows st = bindE (guardE (distinct (map (\<lambda>r. (dc_item r, pg_Date (dc_day r))) rows)) CardinalityViolation) (\<lambda>_.
     bindE (foldM_rows insert_daily rows st) (\<lambda>st'. Inr ((), st')))"

definition DeleteDailyConsumptionBefore :: "uuid \<Rightarrow> day \<Rightarrow> ('d db, db_error, unit) tx" where
  "DeleteDailyConsumptionBefore tid d st = Inr ((), st\<lparr>daily :=
     filter (\<lambda>r. \<not> (dc_tenant r = tid \<and> dnum (dc_day r) < dnum d)) (daily st)\<rparr>)"

section \<open>The series\<close>

text \<open>Reversals and reversed movements are left out; \<open>(item, day, qty, by a count)\<close>.\<close>

definition ListConsumptionMovementsForSeries :: "uuid \<Rightarrow> location \<Rightarrow> instant \<Rightarrow> instant \<Rightarrow> 'd db \<Rightarrow>
    (uuid \<times> day \<times> rat \<times> uuid option) list" where
  "ListConsumptionMovementsForSeries tid tz since til st = (let ms = visible tid mv_tenant (movements st) in
     map (\<lambda>m. (mv_item m, local_day tz (mv_occurred_at m), mv_qty m, mv_count m))
       (sort_key (\<lambda>m. (mv_item m, mv_occurred_at m)) (filter (\<lambda>m. pg_Time since \<le> mv_occurred_at m
         \<and> mv_occurred_at m < pg_Time til \<and> is_consumption m \<and> mv_reverses m = None
         \<and> \<not> list_ex (\<lambda>r. mv_reverses r = Some (mv_id m)) ms) ms)))"

definition ListDaysWithUsage :: "uuid \<Rightarrow> location \<Rightarrow> instant \<Rightarrow> 'd db \<Rightarrow> day list" where
  "ListDaysWithUsage tid tz since st = sort_key dnum (remdups (
     map (\<lambda>m. local_day tz (mv_occurred_at m)) (filter (\<lambda>m. pg_Time since \<le> mv_occurred_at m \<and> is_consumption m)
       (visible tid mv_tenant (movements st))) @
     concat (map (\<lambda>c. case sc_posted_at c of None \<Rightarrow> [] | Some t \<Rightarrow>
         if sc_status c = ''posted'' \<and> pg_Time since \<le> t then [local_day tz t] else [])
       (visible tid sc_tenant (counts st)))))"

text \<open>The running balance of an item in the order of moments and ids.\<close>

fun running_days :: "rat \<Rightarrow> (day \<times> rat) list \<Rightarrow> day list" where
  "running_days b [] = []"
| "running_days b ((d, q) # ms) = (if b + q \<le> 0 then [d] else []) @ running_days (b + q) ms"

definition ListStockoutDays :: "uuid \<Rightarrow> location \<Rightarrow> instant \<Rightarrow> 'd db \<Rightarrow> (uuid \<times> day) list" where
  "ListStockoutDays tid tz til st = (let ms = sort_key (\<lambda>m. (mv_occurred_at m, mv_id m))
       (filter (\<lambda>m. mv_occurred_at m < pg_Time til) (visible tid mv_tenant (movements st))) in
     remdups (concat (map (\<lambda>i. map (Pair i) (running_days 0
         (map (\<lambda>m. (local_day tz (mv_occurred_at m), mv_qty m)) (filter (\<lambda>m. mv_item m = i) ms))))
       (remdups (map mv_item ms)))))"

end
