(* ===== verification/Order_Db.thy ===== *)
theory Order_Db
  imports Forecast_Db
begin

text \<open>
  The queries of \<open>queries/orders.sql\<close>, the suppliers and their terms of \<open>catalog.sql\<close>, and the
  suggestions of \<open>dashboard.sql\<close>.
\<close>

section \<open>Suppliers\<close>

definition GetSupplier :: "uuid \<Rightarrow> uuid \<Rightarrow> 'd db \<Rightarrow> supplier_row option" where
  "GetSupplier tid sid st = find (\<lambda>r. su_id r = sid) (visible tid su_tenant (suppliers st))"

definition GetSupplierItem :: "uuid \<Rightarrow> uuid \<Rightarrow> uuid \<Rightarrow> 'd db \<Rightarrow> supplier_item_row option" where
  "GetSupplierItem tid sid iid st =
     find (\<lambda>r. si_supplier r = sid \<and> si_item r = iid) (visible tid si_tenant (supplier_items st))"

definition supplier_exists :: "uuid \<Rightarrow> uuid \<Rightarrow> 'd db \<Rightarrow> bool" where
  "supplier_exists tid sid st = list_ex (\<lambda>r. su_tenant r = tid \<and> su_id r = sid) (suppliers st)"

record suggestion_row =
  sgSupplier :: uuid
  sgSupplierName :: string
  sgContact :: string
  sgOrderCutoff :: int
  sgItem :: uuid
  sgItemName :: string
  sgBaseUnit :: string
  sgOnHand :: rat
  sgStatus :: status
  sgStockoutDate :: "day option"
  sgOrderBy :: "instant option"
  sgRecommendedQty :: rat
  sgPurchaseUnit :: string
  sgUnitFactor :: rat
  sgPrice :: "rat option"

definition suggestion_of :: "'d item_status_row \<Rightarrow> item_row \<Rightarrow> supplier_row \<Rightarrow> balance_row option \<Rightarrow> supplier_item_row option \<Rightarrow> suggestion_row" where
  "suggestion_of r i s b si = \<lparr>sgSupplier = su_id s, sgSupplierName = su_name s, sgContact = su_contact s,
     sgOrderCutoff = su_order_cutoff s, sgItem = it_id i, sgItemName = it_name i, sgBaseUnit = it_base_unit i,
     sgOnHand = or_else 0 ba_on_hand b, sgStatus = is_status r, sgStockoutDate = is_stockout_date r,
     sgOrderBy = is_order_by r, sgRecommendedQty = is_recommended_qty r,
     sgPurchaseUnit = or_else [] si_purchase_unit si, sgUnitFactor = or_else 1 si_unit_factor si,
     sgPrice = or_else None si_price si\<rparr>"

definition suggested :: "'d item_status_row \<Rightarrow> bool" where
  "suggested r \<longleftrightarrow> (is_status r = ''order_today'' \<or> is_status r = ''critical'' \<or> is_status r = ''out_of_stock'')
     \<and> 0 < is_recommended_qty r"

definition Suggestions :: "uuid \<Rightarrow> 'd db \<Rightarrow> suggestion_row list" where
  "Suggestions tid st = sort_key (\<lambda>r. (name_key (sgSupplierName r), name_key (sgItemName r)))
     [suggestion_of r i s b si.
       r \<leftarrow> filter suggested (visible tid is_tenant (item_status st)),
       i \<leftarrow> filter (\<lambda>i. it_id i = is_item r \<and> it_archived_at i = None) (visible tid it_tenant (items st)),
       s \<leftarrow> filter (\<lambda>s. is_supplier r = Some (su_id s)) (visible tid su_tenant (suppliers st)),
       b \<leftarrow> left_join (filter (\<lambda>b. ba_item b = is_item r) (visible tid ba_tenant (balances st))),
       si \<leftarrow> left_join (filter (\<lambda>x. si_item x = is_item r \<and> is_supplier r = Some (si_supplier x))
               (visible tid si_tenant (supplier_items st)))]"

section \<open>Orders\<close>

text \<open>The CHECK constraint \<open>purchase_orders_status_times\<close>.\<close>

definition order_times_ok :: "order_row \<Rightarrow> bool" where
  "order_times_ok r \<longleftrightarrow>
     (po_status r = ''draft'' \<and> po_sent_at r = None \<and> po_received_at r = None \<and> po_cancelled_at r = None)
   \<or> (po_status r = ''sent'' \<and> po_sent_at r \<noteq> None \<and> po_received_at r = None \<and> po_cancelled_at r = None)
   \<or> (po_status r = ''received'' \<and> po_sent_at r \<noteq> None \<and> po_received_at r \<noteq> None)
   \<or> (po_status r = ''cancelled'' \<and> po_cancelled_at r \<noteq> None)"

definition CreatePurchaseOrder :: "instant \<Rightarrow> uuid \<Rightarrow> uuid \<Rightarrow> uuid \<Rightarrow> string \<Rightarrow> uuid option \<Rightarrow> ('d db, db_error, order_row) tx" where
  "CreatePurchaseOrder w tid oid sid note by_id st = (let r = \<lparr>po_id = oid, po_tenant = tid, po_supplier = sid,
       po_status = ''draft'', po_expected_at = None, po_sent_at = None, po_received_at = None,
       po_cancelled_at = None, po_late_notified_at = None, po_note = note, po_created_by = by_id,
       po_created_at = pg_Time w\<rparr> in
     bindE (guardE (valid_text note) BadEncoding) (\<lambda>_.
     bindE (guardE (\<not> list_ex (\<lambda>x. po_id x = oid) (purchase_orders st)) (UniqueViolation ''purchase_orders_pkey'')) (\<lambda>_.
     bindE (guardE (supplier_exists tid sid st) (ForeignKeyViolation ''purchase_orders_supplier_fk'')) (\<lambda>_.
     Inr (r, st\<lparr>purchase_orders := purchase_orders st @ [r]\<rparr>)))))"

text \<open>\<open>GetPurchaseOrder\<close> and \<open>GetPurchaseOrderForUpdate\<close> read the same row.\<close>

definition GetPurchaseOrder :: "uuid \<Rightarrow> uuid \<Rightarrow> 'd db \<Rightarrow> order_row option" where
  "GetPurchaseOrder tid oid st = find (\<lambda>r. po_id r = oid) (visible tid po_tenant (purchase_orders st))"

text \<open>An \<open>UPDATE\<close> of the order of that id in one of the given states.\<close>

definition update_order :: "uuid \<Rightarrow> uuid \<Rightarrow> string list \<Rightarrow> (order_row \<Rightarrow> order_row) \<Rightarrow> ('d db, db_error, unit) tx" where
  "update_order tid oid from f st = (let P = (\<lambda>r. po_tenant r = tid \<and> po_id r = oid \<and> po_status r \<in> set from) in
     if list_ex (\<lambda>r. P r \<and> \<not> order_times_ok (f r)) (purchase_orders st)
     then Inl (CheckViolation ''purchase_orders_status_times'')
     else Inr ((), st\<lparr>purchase_orders := update_rows P f (purchase_orders st)\<rparr>))"

definition SendPurchaseOrder :: "uuid \<Rightarrow> uuid \<Rightarrow> instant \<Rightarrow> day \<Rightarrow> ('d db, db_error, unit) tx" where
  "SendPurchaseOrder tid oid moment expected = update_order tid oid [''draft'']
     (\<lambda>r. r\<lparr>po_status := ''sent'', po_sent_at := Some (pg_Time moment), po_expected_at := Some (pg_Date expected)\<rparr>)"

definition CancelPurchaseOrder :: "uuid \<Rightarrow> uuid \<Rightarrow> instant \<Rightarrow> ('d db, db_error, unit) tx" where
  "CancelPurchaseOrder tid oid moment = update_order tid oid [''draft'', ''sent'']
     (\<lambda>r. r\<lparr>po_status := ''cancelled'', po_cancelled_at := Some (pg_Time moment)\<rparr>)"

definition ReceivePurchaseOrder :: "uuid \<Rightarrow> uuid \<Rightarrow> instant \<Rightarrow> ('d db, db_error, unit) tx" where
  "ReceivePurchaseOrder tid oid moment = update_order tid oid [''sent'']
     (\<lambda>r. r\<lparr>po_status := ''received'', po_received_at := Some (pg_Time moment)\<rparr>)"

definition MarkOrderLateNotified :: "uuid \<Rightarrow> uuid \<Rightarrow> instant \<Rightarrow> ('d db, db_error, unit) tx" where
  "MarkOrderLateNotified tid oid moment st = Inr ((), st\<lparr>purchase_orders := update_rows
     (\<lambda>r. po_tenant r = tid \<and> po_id r = oid) (\<lambda>r. r\<lparr>po_late_notified_at := Some (pg_Time moment)\<rparr>) (purchase_orders st)\<rparr>)"

record order_list_row =
  olrOrder :: order_row
  olrSupplierName :: string

definition join_supplier :: "uuid \<Rightarrow> 'd db \<Rightarrow> order_row \<Rightarrow> order_list_row list" where
  "join_supplier tid st o' = map (\<lambda>s. \<lparr>olrOrder = o', olrSupplierName = su_name s\<rparr>)
     (filter (\<lambda>s. su_id s = po_supplier o') (visible tid su_tenant (suppliers st)))"

definition ListPurchaseOrders :: "uuid \<Rightarrow> string option \<Rightarrow> int \<Rightarrow> 'd db \<Rightarrow> order_list_row list" where
  "ListPurchaseOrders tid status n st = take (nat n) (concat (map (join_supplier tid st)
     (rev (sort_key po_created_at (filter (\<lambda>r. status = None \<or> status = Some (po_status r))
       (visible tid po_tenant (purchase_orders st)))))))"

definition ListLateOrders :: "uuid \<Rightarrow> day \<Rightarrow> 'd db \<Rightarrow> order_list_row list" where
  "ListLateOrders tid today st = concat (map (join_supplier tid st)
     (filter (\<lambda>r. po_status r = ''sent'' \<and> po_late_notified_at r = None
         \<and> (case po_expected_at r of None \<Rightarrow> False | Some e \<Rightarrow> dnum e < dnum today))
       (visible tid po_tenant (purchase_orders st))))"

definition HasOpenOrderForSupplier :: "uuid \<Rightarrow> uuid \<Rightarrow> instant \<Rightarrow> 'd db \<Rightarrow> bool" where
  "HasOpenOrderForSupplier tid sid since st = list_ex (\<lambda>r. po_supplier r = sid \<and> po_status r = ''sent''
     \<and> (case po_sent_at r of None \<Rightarrow> False | Some t \<Rightarrow> pg_Time since \<le> t)) (visible tid po_tenant (purchase_orders st))"

section \<open>Lines\<close>

definition line_key :: "uuid \<Rightarrow> uuid \<Rightarrow> order_line_row \<Rightarrow> bool" where
  "line_key oid iid r \<longleftrightarrow> ol_order r = oid \<and> ol_item r = iid"

definition UpsertPurchaseOrderLine :: "uuid \<Rightarrow> uuid \<Rightarrow> uuid \<Rightarrow> rat \<Rightarrow> string \<Rightarrow> rat \<Rightarrow> rat option \<Rightarrow> ('d db, db_error, unit) tx" where
  "UpsertPurchaseOrderLine tid oid iid ordered purchaseUnit factor price st =
     bindE (numeric_14_3 ordered) (\<lambda>q. bindE (numeric_14_3 factor) (\<lambda>f. bindE (numeric_null numeric_14_2 price) (\<lambda>p.
     bindE (guardE (0 < q) (CheckViolation ''purchase_order_lines_qty_ordered_check'')) (\<lambda>_.
     bindE (guardE (0 < f) (CheckViolation ''purchase_order_lines_unit_factor_check'')) (\<lambda>_.
     bindE (upsert_tx tid ol_tenant (line_key oid iid)
       (\<lambda>r. r\<lparr>ol_qty_ordered := q, ol_purchase_unit := purchaseUnit, ol_unit_factor := f, ol_price := p\<rparr>)
       \<lparr>ol_tenant = tid, ol_order = oid, ol_item = iid, ol_qty_ordered = q, ol_qty_received = None,
        ol_purchase_unit = purchaseUnit, ol_unit_factor = f, ol_price = p\<rparr> (order_lines st)) (\<lambda>rows.
     bindE (guardE (order_exists tid oid st) (ForeignKeyViolation ''purchase_order_lines_order_fk'')) (\<lambda>_.
     bindE (guardE (item_exists tid iid st) (ForeignKeyViolation ''purchase_order_lines_item_fk'')) (\<lambda>_.
     Inr ((), st\<lparr>order_lines := rows\<rparr>)))))))))"

definition DeletePurchaseOrderLine :: "uuid \<Rightarrow> uuid \<Rightarrow> uuid \<Rightarrow> ('d db, db_error, unit) tx" where
  "DeletePurchaseOrderLine tid oid iid st = Inr ((), st\<lparr>order_lines :=
     filter (\<lambda>r. \<not> (ol_tenant r = tid \<and> line_key oid iid r)) (order_lines st)\<rparr>)"

definition SetPurchaseOrderLineReceived :: "uuid \<Rightarrow> uuid \<Rightarrow> uuid \<Rightarrow> rat option \<Rightarrow> ('d db, db_error, unit) tx" where
  "SetPurchaseOrderLineReceived tid oid iid got st = bindE (numeric_null numeric_14_3 got) (\<lambda>v.
     if list_ex (\<lambda>r. ol_tenant r = tid \<and> line_key oid iid r) (order_lines st)
        \<and> (case v of None \<Rightarrow> False | Some x \<Rightarrow> x < 0)
     then Inl (CheckViolation ''purchase_order_lines_qty_received_check'')
     else Inr ((), st\<lparr>order_lines := update_rows (\<lambda>r. ol_tenant r = tid \<and> line_key oid iid r)
       (\<lambda>r. r\<lparr>ol_qty_received := v\<rparr>) (order_lines st)\<rparr>))"

record order_line_list_row =
  orLine :: order_line_row
  orItemName :: string
  orBaseUnit :: string

definition ListPurchaseOrderLines :: "uuid \<Rightarrow> uuid \<Rightarrow> 'd db \<Rightarrow> order_line_list_row list" where
  "ListPurchaseOrderLines tid oid st = sort_key (\<lambda>r. name_key (orItemName r))
     [\<lparr>orLine = l, orItemName = it_name i, orBaseUnit = it_base_unit i\<rparr>.
       l \<leftarrow> filter (\<lambda>l. ol_order l = oid) (visible tid ol_tenant (order_lines st)),
       i \<leftarrow> filter (\<lambda>i. it_id i = ol_item l) (visible tid it_tenant (items st))]"

end
