(* ===== verification/Notify_Db.thy ===== *)
theory Notify_Db
  imports Order_Db
begin

text \<open>
  The queries of \<open>queries/notify.sql\<close>, with \<open>ListItems\<close> of \<open>catalog.sql\<close> as the digest uses it.
  The outbox queries run as the maintenance role and see all tenants.
\<close>

section \<open>The feed\<close>

definition InsertNotification :: "'d notification_row \<Rightarrow> ('d db, db_error, 'd notification_row) tx" where
  "InsertNotification row st = (let r = row\<lparr>nt_read_at := None, nt_created_at := pg_Time (nt_created_at row)\<rparr> in
     if list_ex (\<lambda>x. nt_tenant x = nt_tenant r \<and> nt_dedup_key x = nt_dedup_key r) (notifications st) then Inl NoRows
     else bindE (guardE (\<not> list_ex (\<lambda>x. nt_id x = nt_id r) (notifications st)) (UniqueViolation ''notifications_pkey'')) (\<lambda>_.
     Inr (r, st\<lparr>notifications := notifications st @ [r]\<rparr>)))"

definition seen_by :: "uuid \<Rightarrow> 'd notification_row \<Rightarrow> bool" where
  "seen_by uid r \<longleftrightarrow> nt_user r = None \<or> nt_user r = Some uid"

definition ListNotifications :: "uuid \<Rightarrow> uuid \<Rightarrow> (instant \<times> uuid) option \<Rightarrow> int \<Rightarrow> 'd db \<Rightarrow> 'd notification_row list" where
  "ListNotifications tid uid cursor n st = take (nat n) (rev (sort_key (\<lambda>r. (nt_created_at r, nt_id r))
     (filter (\<lambda>r. seen_by uid r \<and> (case cursor of None \<Rightarrow> True
         | Some (t, i) \<Rightarrow> (nt_created_at r, nt_id r) < (pg_Time t, i)))
       (visible tid nt_tenant (notifications st)))))"

definition CountUnreadNotifications :: "uuid \<Rightarrow> uuid \<Rightarrow> 'd db \<Rightarrow> int" where
  "CountUnreadNotifications tid uid st =
     int (length (filter (\<lambda>r. nt_read_at r = None \<and> seen_by uid r) (visible tid nt_tenant (notifications st))))"

definition read_matches :: "uuid \<Rightarrow> uuid \<Rightarrow> uuid list \<Rightarrow> 'd notification_row \<Rightarrow> bool" where
  "read_matches tid uid ids r \<longleftrightarrow> nt_tenant r = tid \<and> nt_read_at r = None \<and> seen_by uid r
     \<and> (ids = [] \<or> nt_id r \<in> set ids)"

definition MarkNotificationsRead :: "uuid \<Rightarrow> uuid \<Rightarrow> instant \<Rightarrow> uuid list \<Rightarrow> ('d db, db_error, int) tx" where
  "MarkNotificationsRead tid uid t ids st = Inr (int (length (filter (read_matches tid uid ids) (notifications st))),
     st\<lparr>notifications := update_rows (read_matches tid uid ids) (\<lambda>r. r\<lparr>nt_read_at := Some (pg_Time t)\<rparr>) (notifications st)\<rparr>)"

definition ListRecipients :: "uuid \<Rightarrow> 'd db \<Rightarrow> user_row list" where
  "ListRecipients tid st = filter (\<lambda>u. us_role u = ''owner'') (visible tid us_tenant (users st))"

section \<open>The outbox\<close>

definition InsertOutbox :: "instant \<Rightarrow> 'd outbox_row \<Rightarrow> ('d db, db_error, unit) tx" where
  "InsertOutbox w row st = (let r = row\<lparr>ob_status := ''pending'', ob_attempts := 0, ob_last_error := [],
       ob_next_attempt_at := pg_Time (ob_next_attempt_at row), ob_created_at := pg_Time w, ob_sent_at := None\<rparr> in
     bindE (guardE (\<not> list_ex (\<lambda>x. ob_id x = ob_id r) (outbox st)) (UniqueViolation ''outbox_pkey'')) (\<lambda>_.
     bindE (guardE (case ob_notification r of None \<Rightarrow> True
         | Some n \<Rightarrow> list_ex (\<lambda>x. nt_tenant x = ob_tenant r \<and> nt_id x = n) (notifications st))
       (ForeignKeyViolation ''outbox_notification_fk'')) (\<lambda>_.
     Inr ((), st\<lparr>outbox := outbox st @ [r]\<rparr>))))"

definition due :: "instant \<Rightarrow> 'd outbox_row \<Rightarrow> bool" where
  "due t r \<longleftrightarrow> ob_status r = ''pending'' \<and> ob_next_attempt_at r \<le> pg_Time t"

definition claimed_ids :: "instant \<Rightarrow> int \<Rightarrow> 'd outbox_row list \<Rightarrow> uuid list" where
  "claimed_ids t n rows = map ob_id (take (nat n) (sort_key ob_next_attempt_at (filter (due t) rows)))"

text \<open>The claimed rows come back in the order of the table; the language leaves it open.\<close>

definition ClaimOutbox :: "instant \<Rightarrow> int \<Rightarrow> ('d db, db_error, 'd outbox_row list) tx" where
  "ClaimOutbox t n st = (let ids = claimed_ids t n (outbox st);
       rows = update_rows (\<lambda>r. ob_id r \<in> set ids) (\<lambda>r. r\<lparr>ob_attempts := ob_attempts r + 1\<rparr>) (outbox st)
     in Inr (filter (\<lambda>r. ob_id r \<in> set ids) rows, st\<lparr>outbox := rows\<rparr>))"

definition update_outbox :: "uuid \<Rightarrow> ('d outbox_row \<Rightarrow> 'd outbox_row) \<Rightarrow> 'd db \<Rightarrow> 'd db" where
  "update_outbox i f st = st\<lparr>outbox := update_rows (\<lambda>r. ob_id r = i) f (outbox st)\<rparr>"

definition MarkOutboxSent :: "uuid \<Rightarrow> instant \<Rightarrow> ('d db, db_error, unit) tx" where
  "MarkOutboxSent i t st = Inr ((), update_outbox i
     (\<lambda>r. r\<lparr>ob_status := ''sent'', ob_sent_at := Some (pg_Time t), ob_last_error := []\<rparr>) st)"

definition MarkOutboxFailed :: "uuid \<Rightarrow> string \<Rightarrow> ('d db, db_error, unit) tx" where
  "MarkOutboxFailed i reason st = (if \<not> valid_text reason then Inl BadEncoding else
     Inr ((), update_outbox i (\<lambda>r. r\<lparr>ob_status := ''failed'', ob_last_error := reason\<rparr>) st))"

definition RescheduleOutbox :: "uuid \<Rightarrow> instant \<Rightarrow> string \<Rightarrow> ('d db, db_error, unit) tx" where
  "RescheduleOutbox i t reason st = (if \<not> valid_text reason then Inl BadEncoding else
     Inr ((), update_outbox i (\<lambda>r. r\<lparr>ob_next_attempt_at := pg_Time t, ob_last_error := reason\<rparr>) st))"

definition CountPendingOutbox :: "'d db \<Rightarrow> int" where
  "CountPendingOutbox st = int (length (filter (\<lambda>r. ob_status r = ''pending'') (outbox st)))"

section \<open>Items by name\<close>

record item_list_row =
  ilItem :: item_row
  ilCategoryName :: "string option"
  ilSupplierName :: "string option"

definition ListItems :: "uuid \<Rightarrow> bool \<Rightarrow> 'd db \<Rightarrow> item_list_row list" where
  "ListItems tid includeArchived st = sort_key (\<lambda>r. name_key (it_name (ilItem r)))
     [\<lparr>ilItem = i, ilCategoryName = map_option ca_name c, ilSupplierName = map_option su_name s\<rparr>.
       i \<leftarrow> filter (\<lambda>i. it_archived_at i = None \<or> includeArchived) (visible tid it_tenant (items st)),
       c \<leftarrow> left_join (filter (\<lambda>c. it_category i = Some (ca_id c)) (visible tid ca_tenant (categories st))),
       s \<leftarrow> left_join (filter (\<lambda>s. it_default_supplier i = Some (su_id s)) (visible tid su_tenant (suppliers st)))]"

end
