(* ===== verification/Catalog_Db.thy ===== *)
theory Catalog_Db
  imports Notify_Db
begin

text \<open>
  The queries of \<open>queries/catalog.sql\<close> that write categories, suppliers, items and purchase terms, with
  the constraints of \<open>migrations/20260919090100_catalog.sql\<close>, and the ones that list and find them.
  Names are unique per tenant up to \<open>lower()\<close> of the database, whose table of letters belongs to
  PostgreSQL and is the field \<open>tlLower\<close> of a parameter; \<open>strings.ToLower\<close> of the program is
  \<open>tlToLower\<close>.
\<close>

record text_lib =
  tlToLower :: "string \<Rightarrow> string"
  tlLower :: "string \<Rightarrow> string"

text \<open>\<open>length(btrim(name)) > 0\<close>.\<close>

definition not_blank :: "string \<Rightarrow> bool" where
  "not_blank s \<longleftrightarrow> list_ex (\<lambda>c. c \<noteq> CHR '' '') s"

definition opt_exists :: "(uuid \<Rightarrow> bool) \<Rightarrow> uuid option \<Rightarrow> bool" where
  "opt_exists ex x \<longleftrightarrow> (case x of None \<Rightarrow> True | Some i \<Rightarrow> ex i)"

section \<open>Categories\<close>

definition category_exists :: "uuid \<Rightarrow> 'd db \<Rightarrow> uuid \<Rightarrow> bool" where
  "category_exists tid st cid \<longleftrightarrow> list_ex (\<lambda>r. ca_tenant r = tid \<and> ca_id r = cid) (categories st)"

definition ListCategories :: "uuid \<Rightarrow> 'd db \<Rightarrow> category_row list" where
  "ListCategories tid st = sort_key (\<lambda>r. name_key (ca_name r)) (visible tid ca_tenant (categories st))"

definition CreateCategory_q :: "text_lib \<Rightarrow> instant \<Rightarrow> uuid \<Rightarrow> uuid \<Rightarrow> string \<Rightarrow> ('d db, db_error, category_row) tx" where
  "CreateCategory_q T w cid tid name st = (let r = \<lparr>ca_id = cid, ca_tenant = tid, ca_name = name, ca_created_at = pg_Time w\<rparr> in
     bindE (guardE (valid_text name) BadEncoding) (\<lambda>_.
     bindE (guardE (not_blank name) (CheckViolation ''categories_name_check'')) (\<lambda>_.
     bindE (guardE (\<not> list_ex (\<lambda>x. ca_id x = cid) (categories st)) (UniqueViolation ''categories_pkey'')) (\<lambda>_.
     bindE (guardE (\<not> list_ex (\<lambda>x. ca_tenant x = tid \<and> tlLower T (ca_name x) = tlLower T name) (categories st))
       (UniqueViolation ''categories_tenant_name_idx'')) (\<lambda>_.
     Inr (r, st\<lparr>categories := categories st @ [r]\<rparr>))))))"

section \<open>Suppliers\<close>

definition weekdays_valid :: "int list \<Rightarrow> bool" where
  "weekdays_valid ds \<longleftrightarrow> 1 \<le> length ds \<and> length ds \<le> 7 \<and> list_all (\<lambda>d. 1 \<le> d \<and> d \<le> 7) ds"

text \<open>\<open>row\<close> holds the parameters; the archive mark and the time are those of a new row.\<close>

definition CreateSupplier_q :: "text_lib \<Rightarrow> instant \<Rightarrow> supplier_row \<Rightarrow> ('d db, db_error, supplier_row) tx" where
  "CreateSupplier_q T w row st = (let r = row\<lparr>su_archived_at := None, su_created_at := pg_Time w\<rparr> in
     bindE (guardE (valid_text (su_name r) \<and> valid_text (su_contact r)) BadEncoding) (\<lambda>_.
     bindE (guardE (0 \<le> su_lead_time_days r \<and> su_lead_time_days r \<le> 60) (CheckViolation ''suppliers_lead_time_days_check'')) (\<lambda>_.
     bindE (guardE (not_blank (su_name r)) (CheckViolation ''suppliers_name_check'')) (\<lambda>_.
     bindE (guardE (weekdays_valid (su_delivery_weekdays r)) (CheckViolation ''suppliers_weekdays_valid'')) (\<lambda>_.
     bindE (guardE (\<not> list_ex (\<lambda>x. su_id x = su_id r) (suppliers st)) (UniqueViolation ''suppliers_pkey'')) (\<lambda>_.
     bindE (guardE (\<not> list_ex (\<lambda>x. su_tenant x = su_tenant r \<and> tlLower T (su_name x) = tlLower T (su_name r)) (suppliers st))
       (UniqueViolation ''suppliers_tenant_name_idx'')) (\<lambda>_.
     Inr (r, st\<lparr>suppliers := suppliers st @ [r]\<rparr>))))))))"

definition ListSuppliers_q :: "uuid \<Rightarrow> bool \<Rightarrow> 'd db \<Rightarrow> supplier_row list" where
  "ListSuppliers_q tid includeArchived st = sort_key (\<lambda>r. name_key (su_name r))
     (filter (\<lambda>r. su_archived_at r = None \<or> includeArchived) (visible tid su_tenant (suppliers st)))"

section \<open>Items\<close>

definition item_checks :: "item_row \<Rightarrow> db_error + unit" where
  "item_checks r =
     bindE (guardE (it_base_unit r \<in> set [''kg'', ''l'', ''pcs'']) (CheckViolation ''items_base_unit_check'')) (\<lambda>_.
     bindE (guardE (0 \<le> it_manual_min_qty r) (CheckViolation ''items_manual_min_qty_check'')) (\<lambda>_.
     bindE (guardE (not_blank (it_name r)) (CheckViolation ''items_name_check'')) (\<lambda>_.
     guardE (it_service_level r \<in> set [90, 95, 99]) (CheckViolation ''items_service_level_check''))))"

definition item_name_free :: "text_lib \<Rightarrow> item_row \<Rightarrow> 'd db \<Rightarrow> bool" where
  "item_name_free T r st \<longleftrightarrow> \<not> list_ex (\<lambda>x. it_id x \<noteq> it_id r \<and> it_tenant x = it_tenant r
     \<and> tlLower T (it_name x) = tlLower T (it_name r)) (items st)"

definition item_references :: "item_row \<Rightarrow> 'd db \<Rightarrow> db_error + unit" where
  "item_references r st =
     bindE (guardE (opt_exists (category_exists (it_tenant r) st) (it_category r)) (ForeignKeyViolation ''items_category_fk'')) (\<lambda>_.
     guardE (opt_exists (\<lambda>s. supplier_exists (it_tenant r) s st) (it_default_supplier r)) (ForeignKeyViolation ''items_supplier_fk''))"

definition CreateItem_q :: "text_lib \<Rightarrow> instant \<Rightarrow> item_row \<Rightarrow> ('d db, db_error, item_row) tx" where
  "CreateItem_q T w row st = bindE (guardE (valid_text (it_name row)) BadEncoding) (\<lambda>_. bindE (numeric_14_3 (it_manual_min_qty row)) (\<lambda>m.
     let r = row\<lparr>it_manual_min_qty := m, it_archived_at := None, it_created_at := pg_Time w\<rparr> in
     bindE (item_checks r) (\<lambda>_.
     bindE (guardE (\<not> list_ex (\<lambda>x. it_id x = it_id r) (items st)) (UniqueViolation ''items_pkey'')) (\<lambda>_.
     bindE (guardE (item_name_free T r st) (UniqueViolation ''items_tenant_name_idx'')) (\<lambda>_.
     bindE (item_references r st) (\<lambda>_.
     Inr (r, st\<lparr>items := items st @ [r]\<rparr>)))))))"

text \<open>\<open>COALESCE\<close>: a parameter that is not there keeps the column.\<close>

definition coalesce :: "'a option \<Rightarrow> 'a \<Rightarrow> 'a" where
  "coalesce x old = (case x of None \<Rightarrow> old | Some y \<Rightarrow> y)"

record item_params =
  ipName :: "string option"
  ipCategory :: "uuid option"
  ipSupplier :: "uuid option"
  ipServiceLevel :: "int option"
  ipManualMin :: "rat option"

definition UpdateItem_q :: "text_lib \<Rightarrow> uuid \<Rightarrow> uuid \<Rightarrow> item_params \<Rightarrow> ('d db, db_error, item_row) tx" where
  "UpdateItem_q T tid iid p st = (case GetItem tid iid st of None \<Rightarrow> Inl NoRows
     | Some old \<Rightarrow> bindE (guardE (nullable_text (ipName p)) BadEncoding) (\<lambda>_. bindE (numeric_null numeric_14_3 (ipManualMin p)) (\<lambda>m.
       let r = old\<lparr>it_name := coalesce (ipName p) (it_name old),
                   it_category := (if ipCategory p = None then it_category old else ipCategory p),
                   it_default_supplier := (if ipSupplier p = None then it_default_supplier old else ipSupplier p),
                   it_service_level := coalesce (ipServiceLevel p) (it_service_level old),
                   it_manual_min_qty := coalesce m (it_manual_min_qty old)\<rparr> in
       bindE (item_checks r) (\<lambda>_.
       bindE (guardE (item_name_free T r st) (UniqueViolation ''items_tenant_name_idx'')) (\<lambda>_.
       bindE (item_references r st) (\<lambda>_.
       Inr (r, st\<lparr>items := update_rows (\<lambda>x. it_tenant x = tid \<and> it_id x = iid) (\<lambda>_. r) (items st)\<rparr>)))))))"

definition ArchiveItem_q :: "uuid \<Rightarrow> uuid \<Rightarrow> instant \<Rightarrow> ('d db, db_error, unit) tx" where
  "ArchiveItem_q tid iid t st = Inr ((), st\<lparr>items := update_rows (\<lambda>x. it_tenant x = tid \<and> it_id x = iid)
     (\<lambda>x. x\<lparr>it_archived_at := Some (pg_Time t)\<rparr>) (items st)\<rparr>)"

section \<open>Purchase terms\<close>

definition UpsertSupplierItem :: "supplier_item_row \<Rightarrow> ('d db, db_error, supplier_item_row) tx" where
  "UpsertSupplierItem row st = bindE (guardE (valid_text (si_purchase_unit row)) BadEncoding) (\<lambda>_.
     bindE (numeric_14_3 (si_unit_factor row)) (\<lambda>f. bindE (numeric_14_3 (si_min_order_qty row)) (\<lambda>m.
     bindE (numeric_14_3 (si_pack_multiple row)) (\<lambda>p. bindE (numeric_null numeric_14_2 (si_price row)) (\<lambda>c.
     let r = row\<lparr>si_unit_factor := f, si_min_order_qty := m, si_pack_multiple := p, si_price := c\<rparr> in
     bindE (guardE (0 \<le> m) (CheckViolation ''supplier_items_min_order_qty_check'')) (\<lambda>_.
     bindE (guardE (0 \<le> p) (CheckViolation ''supplier_items_pack_multiple_check'')) (\<lambda>_.
     bindE (guardE (0 < f) (CheckViolation ''supplier_items_unit_factor_check'')) (\<lambda>_.
     bindE (upsert_tx (si_tenant r) si_tenant (\<lambda>x. si_supplier x = si_supplier r \<and> si_item x = si_item r)
       (\<lambda>x. x\<lparr>si_purchase_unit := si_purchase_unit r, si_unit_factor := f, si_min_order_qty := m,
          si_pack_multiple := p, si_price := c\<rparr>) r (supplier_items st)) (\<lambda>rows.
     bindE (guardE (supplier_exists (si_tenant r) (si_supplier r) st) (ForeignKeyViolation ''supplier_items_supplier_fk'')) (\<lambda>_.
     bindE (guardE (item_exists (si_tenant r) (si_item r) st) (ForeignKeyViolation ''supplier_items_item_fk'')) (\<lambda>_.
     Inr (r, st\<lparr>supplier_items := rows\<rparr>))))))))))))"

definition GetSupplierItemForItem :: "uuid \<Rightarrow> uuid \<Rightarrow> 'd db \<Rightarrow> supplier_item_row option" where
  "GetSupplierItemForItem tid iid st = find (\<lambda>x. si_item x = iid
     \<and> list_ex (\<lambda>i. it_id i = iid \<and> it_default_supplier i = Some (si_supplier x)) (visible tid it_tenant (items st)))
     (visible tid si_tenant (supplier_items st))"

end
