(* ===== verification/Accounts.thy ===== *)
theory Accounts
  imports Catalog_Db
begin

text \<open>
  The tables outside the work of a tenant and their queries: tenants, sessions, the audit log and the codes that
  link a Telegram chat (\<open>migrations/20260919090000_core.sql\<close>, \<open>auth.sql.go\<close>, \<open>tenants.sql.go\<close>). A \<open>site\<close> is
  the whole database: these tables beside the ones of \<open>Database\<close>. The application's role sees the rows of its
  tenant, the maintenance role all of them. \<open>now\<close> is \<open>now()\<close> of the database, for the columns that default to it.
\<close>

section \<open>Intervals\<close>

record interval =
  ivMicroseconds :: int
  ivDays :: int
  ivMonths :: int

definition pg_Interval :: "int \<Rightarrow> interval" where
  "pg_Interval d = \<lparr>ivMicroseconds = d sdiv 1000, ivDays = 0, ivMonths = 0\<rparr>"

definition pg_Duration :: "interval \<Rightarrow> int" where
  "pg_Duration i = ivMicroseconds i * 1000 + ivDays i * 24 * hour + ivMonths i * 30 * 24 * hour"

definition interval_add :: "interval \<Rightarrow> interval \<Rightarrow> interval" where
  "interval_add a b = \<lparr>ivMicroseconds = ivMicroseconds a + ivMicroseconds b, ivDays = ivDays a + ivDays b,
     ivMonths = ivMonths a + ivMonths b\<rparr>"

definition no_interval :: interval where
  "no_interval = \<lparr>ivMicroseconds = 0, ivDays = 0, ivMonths = 0\<rparr>"

lemma pg_Duration_no_interval [simp]: "pg_Duration no_interval = 0"
  by (simp add: pg_Duration_def no_interval_def)

lemma pg_Duration_add: "pg_Duration (interval_add a b) = pg_Duration a + pg_Duration b"
  by (simp add: pg_Duration_def interval_add_def algebra_simps)

lemma pg_Duration_Interval: "d mod 1000 = 0 \<Longrightarrow> pg_Duration (pg_Interval d) = d"
proof -
  assume "d mod 1000 = 0"
  then obtain k where k: "d = 1000 * k" by (auto elim: dvdE simp: mod_eq_0_iff_dvd)
  have "(1000 * k) sdiv 1000 = k"
    by (cases "k = 0") (auto simp: signed_divide_int_def sgn_mult abs_mult sgn_if)
  then show ?thesis by (simp add: pg_Duration_def pg_Interval_def k)
qed

section \<open>Rows\<close>

record tenant_row =
  tn_id :: uuid
  tn_name :: string
  tn_timezone :: string
  tn_is_sandbox :: bool
  tn_expires_at :: "instant option"
  tn_clock_offset :: interval
  tn_seed :: int
  tn_autopilot :: bool
  tn_settings :: string
  tn_created_at :: instant

record session_row =
  se_token_hash :: string
  se_user :: uuid
  se_tenant :: uuid
  se_csrf_hash :: string
  se_user_agent :: string
  se_expires_at :: instant
  se_last_seen_at :: instant
  se_created_at :: instant

record audit_row =
  au_id :: uuid
  au_tenant :: uuid
  au_user :: "uuid option"
  au_action :: string
  au_entity :: string
  au_entity_id :: "uuid option"
  au_diff :: string
  au_ip :: "string option"
  au_at :: instant

record link_code_row =
  lc_code :: string
  lc_tenant :: uuid
  lc_user :: uuid
  lc_expires_at :: instant
  lc_used_at :: "instant option"
  lc_created_at :: instant

record 'd site =
  siDb :: "'d db"
  siTenants :: "tenant_row list"
  siSessions :: "session_row list"
  siAudit :: "audit_row list"
  siCodes :: "link_code_row list"

text \<open>An operation of a service on its tables, within the site.\<close>

definition on_db :: "('d db \<Rightarrow> 'a \<times> 'd db) \<Rightarrow> 'd site \<Rightarrow> 'a \<times> 'd site" where
  "on_db f s = (case f (siDb s) of (r, st') \<Rightarrow> (r, s\<lparr>siDb := st'\<rparr>))"

definition in_db :: "('d db, 'e, 'a) tx \<Rightarrow> ('d site, 'e, 'a) tx" where
  "in_db f s = (case f (siDb s) of Inl e \<Rightarrow> Inl e | Inr (x, st') \<Rightarrow> Inr (x, s\<lparr>siDb := st'\<rparr>))"

lemma InTenantTx_in_db: "InTenantTx (in_db f) = on_db (InTenantTx f)"
  by (auto simp: fun_eq_iff InTenantTx_def in_db_def on_db_def split: sum.splits prod.splits)

definition tenant_exists :: "'d site \<Rightarrow> uuid \<Rightarrow> bool" where
  "tenant_exists s tid \<longleftrightarrow> list_ex (\<lambda>r. tn_id r = tid) (siTenants s)"

definition user_exists :: "'d site \<Rightarrow> uuid \<Rightarrow> bool" where
  "user_exists s uid \<longleftrightarrow> list_ex (\<lambda>u. us_id u = uid) (users (siDb s))"

section \<open>Tenants\<close>

text \<open>\<open>row\<close> holds the parameters.\<close>

definition CreateTenant :: "instant \<Rightarrow> tenant_row \<Rightarrow> ('d site, db_error, tenant_row) tx" where
  "CreateTenant now row s = (let r = row\<lparr>tn_clock_offset := no_interval, tn_autopilot := False, tn_created_at := pg_Time now\<rparr> in
     bindE (guardE (not_blank (tn_name r)) (CheckViolation ''tenants_name_check'')) (\<lambda>_.
     bindE (guardE (tn_is_sandbox r \<longrightarrow> tn_expires_at r \<noteq> None) (CheckViolation ''tenants_sandbox_expires'')) (\<lambda>_.
     bindE (guardE (\<not> tenant_exists s (tn_id r)) (UniqueViolation ''tenants_pkey'')) (\<lambda>_.
     Inr (r, s\<lparr>siTenants := siTenants s @ [r]\<rparr>)))))"

text \<open>The foreign keys of all tables lead to the tenant and delete with it.\<close>

definition rows_of_others :: "uuid \<Rightarrow> ('r \<Rightarrow> uuid) \<Rightarrow> 'r list \<Rightarrow> 'r list" where
  "rows_of_others tid tenant_of rows = filter (\<lambda>r. tenant_of r \<noteq> tid) rows"

definition erase_tenant :: "uuid \<Rightarrow> 'd db \<Rightarrow> 'd db" where
  "erase_tenant tid st = st\<lparr>categories := rows_of_others tid ca_tenant (categories st),
     items := rows_of_others tid it_tenant (items st), warehouses := rows_of_others tid wh_tenant (warehouses st),
     users := rows_of_others tid us_tenant (users st), suppliers := rows_of_others tid su_tenant (suppliers st),
     supplier_items := rows_of_others tid si_tenant (supplier_items st), movements := rows_of_others tid mv_tenant (movements st),
     balances := rows_of_others tid ba_tenant (balances st), counts := rows_of_others tid sc_tenant (counts st),
     count_lines := rows_of_others tid cl_tenant (count_lines st),
     purchase_orders := rows_of_others tid po_tenant (purchase_orders st), order_lines := rows_of_others tid ol_tenant (order_lines st),
     daily := rows_of_others tid dc_tenant (daily st), forecasts := rows_of_others tid fc_tenant (forecasts st),
     forecast_metrics := rows_of_others tid fm_tenant (forecast_metrics st), item_status := rows_of_others tid is_tenant (item_status st),
     notifications := rows_of_others tid nt_tenant (notifications st), outbox := rows_of_others tid ob_tenant (outbox st)\<rparr>"

definition DeleteTenant :: "uuid \<Rightarrow> 'd site \<Rightarrow> 'd site" where
  "DeleteTenant tid s = (if \<not> tenant_exists s tid then s else
     let gone = (\<lambda>uid. list_ex (\<lambda>u. us_id u = uid \<and> us_tenant u = tid) (users (siDb s))) in
     s\<lparr>siDb := erase_tenant tid (siDb s), siTenants := rows_of_others tid tn_id (siTenants s),
       siSessions := filter (\<lambda>r. se_tenant r \<noteq> tid \<and> \<not> gone (se_user r)) (siSessions s),
       siAudit := rows_of_others tid au_tenant (siAudit s),
       siCodes := filter (\<lambda>r. lc_tenant r \<noteq> tid \<and> \<not> gone (lc_user r)) (siCodes s)\<rparr>)"

definition GetTenant :: "uuid \<Rightarrow> 'd site \<Rightarrow> tenant_row option" where
  "GetTenant tid s = find (\<lambda>r. tn_id r = tid) (siTenants s)"

definition ListActiveTenants :: "instant \<Rightarrow> 'd site \<Rightarrow> tenant_row list" where
  "ListActiveTenants now s = sort_key tn_created_at
     (filter (\<lambda>r. case tn_expires_at r of None \<Rightarrow> True | Some e \<Rightarrow> now < e) (siTenants s))"

definition expired_sandbox :: "instant \<Rightarrow> tenant_row \<Rightarrow> bool" where
  "expired_sandbox now r \<longleftrightarrow> tn_is_sandbox r \<and> (case tn_expires_at r of None \<Rightarrow> False | Some e \<Rightarrow> e \<le> now)"

definition ListExpiredSandboxes :: "instant \<Rightarrow> nat \<Rightarrow> 'd site \<Rightarrow> uuid list" where
  "ListExpiredSandboxes now most s = take most (map tn_id
     (sort_key (\<lambda>r. case tn_expires_at r of None \<Rightarrow> 0 | Some e \<Rightarrow> e) (filter (expired_sandbox now) (siTenants s))))"

definition CountActiveSandboxes :: "instant \<Rightarrow> 'd site \<Rightarrow> int" where
  "CountActiveSandboxes now s = int (length (filter (\<lambda>r. tn_is_sandbox r
     \<and> (case tn_expires_at r of None \<Rightarrow> True | Some e \<Rightarrow> now < e)) (siTenants s)))"

text \<open>The updates of a tenant run under its own row-level security.\<close>

definition update_tenant :: "uuid \<Rightarrow> uuid \<Rightarrow> (tenant_row \<Rightarrow> tenant_row) \<Rightarrow> 'd site \<Rightarrow> 'd site" where
  "update_tenant tid i f s = s\<lparr>siTenants := update_rows (\<lambda>r. tn_id r = tid \<and> tn_id r = i) f (siTenants s)\<rparr>"

definition AdvanceTenantClock :: "uuid \<Rightarrow> uuid \<Rightarrow> interval \<Rightarrow> ('d site, db_error, interval) tx" where
  "AdvanceTenantClock tid i d s = (let s' = update_tenant tid i (\<lambda>r. r\<lparr>tn_clock_offset := interval_add (tn_clock_offset r) d\<rparr>) s in
     case find (\<lambda>r. tn_id r = i) (visible tid tn_id (siTenants s')) of None \<Rightarrow> Inl NoRows
     | Some r \<Rightarrow> Inr (tn_clock_offset r, s'))"

definition SetTenantAutopilot :: "uuid \<Rightarrow> uuid \<Rightarrow> bool \<Rightarrow> 'd site \<Rightarrow> 'd site" where
  "SetTenantAutopilot tid i on = update_tenant tid i (\<lambda>r. r\<lparr>tn_autopilot := on\<rparr>)"

definition ResetTenantClock :: "uuid \<Rightarrow> uuid \<Rightarrow> 'd site \<Rightarrow> 'd site" where
  "ResetTenantClock tid i = update_tenant tid i (\<lambda>r. r\<lparr>tn_clock_offset := no_interval\<rparr>)"

section \<open>Users and warehouses\<close>

definition GetUserByEmail :: "text_lib \<Rightarrow> string \<Rightarrow> 'd site \<Rightarrow> user_row option" where
  "GetUserByEmail T email s = find (\<lambda>u. us_email u = tlLower T email) (users (siDb s))"

definition GetUserByID :: "uuid \<Rightarrow> 'd site \<Rightarrow> user_row option" where
  "GetUserByID uid s = find (\<lambda>u. us_id u = uid) (users (siDb s))"

text \<open>\<open>row\<close> holds the parameters.\<close>

definition CreateUser :: "text_lib \<Rightarrow> instant \<Rightarrow> user_row \<Rightarrow> ('d site, db_error, user_row) tx" where
  "CreateUser T now row s = (let r = row\<lparr>us_email := tlLower T (us_email row), us_telegram := None, us_created_at := pg_Time now\<rparr> in
     bindE (guardE (\<not> user_exists s (us_id r)) (UniqueViolation ''users_pkey'')) (\<lambda>_.
     bindE (guardE (\<not> list_ex (\<lambda>u. us_email u = us_email r) (users (siDb s))) (UniqueViolation ''users_email_unique'')) (\<lambda>_.
     bindE (guardE (tenant_exists s (us_tenant r)) (ForeignKeyViolation ''users_tenant_id_fkey'')) (\<lambda>_.
     Inr (r, s\<lparr>siDb := (siDb s)\<lparr>users := users (siDb s) @ [r]\<rparr>\<rparr>)))))"

definition CreateWarehouse :: "instant \<Rightarrow> uuid \<Rightarrow> uuid \<Rightarrow> string \<Rightarrow> ('d site, db_error, warehouse_row) tx" where
  "CreateWarehouse now wid tid name s = (let r = \<lparr>wh_id = wid, wh_tenant = tid, wh_name = name, wh_created_at = pg_Time now\<rparr> in
     bindE (guardE (\<not> list_ex (\<lambda>x. wh_id x = wid) (warehouses (siDb s))) (UniqueViolation ''warehouses_pkey'')) (\<lambda>_.
     bindE (guardE (tenant_exists s tid) (ForeignKeyViolation ''warehouses_tenant_id_fkey'')) (\<lambda>_.
     Inr (r, s\<lparr>siDb := (siDb s)\<lparr>warehouses := warehouses (siDb s) @ [r]\<rparr>\<rparr>))))"

definition ClearUserTelegramChatID :: "int \<Rightarrow> 'd site \<Rightarrow> 'd site" where
  "ClearUserTelegramChatID chat s = s\<lparr>siDb := (siDb s)\<lparr>users :=
     update_rows (\<lambda>u. us_telegram u = Some chat) (\<lambda>u. u\<lparr>us_telegram := None\<rparr>) (users (siDb s))\<rparr>\<rparr>"

definition SetUserTelegramChatID :: "uuid \<Rightarrow> int \<Rightarrow> ('d site, db_error, unit) tx" where
  "SetUserTelegramChatID uid chat s = (if list_ex (\<lambda>u. us_id u \<noteq> uid \<and> us_telegram u = Some chat) (users (siDb s))
         \<and> user_exists s uid
       then Inl (UniqueViolation ''users_telegram_idx'')
     else Inr ((), s\<lparr>siDb := (siDb s)\<lparr>users :=
       update_rows (\<lambda>u. us_id u = uid) (\<lambda>u. u\<lparr>us_telegram := Some chat\<rparr>) (users (siDb s))\<rparr>\<rparr>))"

section \<open>Sessions\<close>

text \<open>\<open>tid\<close> is the tenant of the transaction, \<open>row\<close> holds the parameters.\<close>

definition CreateSession :: "instant \<Rightarrow> uuid \<Rightarrow> session_row \<Rightarrow> ('d site, db_error, unit) tx" where
  "CreateSession now tid row s = (let r = row\<lparr>se_last_seen_at := pg_Time now, se_created_at := pg_Time now\<rparr> in
     bindE (guardE (valid_text (se_user_agent r)) BadEncoding) (\<lambda>_.
     bindE (guardE (se_tenant r = tid) RowSecurity) (\<lambda>_.
     bindE (guardE (\<not> list_ex (\<lambda>x. se_token_hash x = se_token_hash r) (siSessions s)) (UniqueViolation ''sessions_pkey'')) (\<lambda>_.
     bindE (guardE (user_exists s (se_user r)) (ForeignKeyViolation ''sessions_user_id_fkey'')) (\<lambda>_.
     bindE (guardE (tenant_exists s tid) (ForeignKeyViolation ''sessions_tenant_id_fkey'')) (\<lambda>_.
     Inr ((), s\<lparr>siSessions := siSessions s @ [r]\<rparr>)))))))"

text \<open>The row of a session with its user and the user's tenant.\<close>

definition session_rows :: "string \<Rightarrow> instant \<Rightarrow> 'd site \<Rightarrow> (session_row \<times> user_row \<times> tenant_row) list" where
  "session_rows token_hash now s = [(r, u, t). r \<leftarrow> siSessions s, u \<leftarrow> users (siDb s), t \<leftarrow> siTenants s,
     us_id u = se_user r \<and> tn_id t = us_tenant u \<and> se_token_hash r = token_hash \<and> now < se_expires_at r]"

definition GetSession :: "string \<Rightarrow> instant \<Rightarrow> 'd site \<Rightarrow> (session_row \<times> user_row \<times> tenant_row) option" where
  "GetSession token_hash now s = (case session_rows token_hash now s of [] \<Rightarrow> None | x # _ \<Rightarrow> Some x)"

definition TouchSession :: "uuid \<Rightarrow> string \<Rightarrow> instant \<Rightarrow> instant \<Rightarrow> 'd site \<Rightarrow> 'd site" where
  "TouchSession tid token_hash seen expires s = s\<lparr>siSessions := update_rows (\<lambda>r. se_tenant r = tid \<and> se_token_hash r = token_hash)
     (\<lambda>r. r\<lparr>se_last_seen_at := seen, se_expires_at := expires\<rparr>) (siSessions s)\<rparr>"

definition DeleteSession :: "uuid \<Rightarrow> string \<Rightarrow> 'd site \<Rightarrow> 'd site" where
  "DeleteSession tid token_hash s = s\<lparr>siSessions := filter (\<lambda>r. \<not> (se_tenant r = tid \<and> se_token_hash r = token_hash)) (siSessions s)\<rparr>"

section \<open>The audit log\<close>

definition InsertAuditLog :: "instant \<Rightarrow> uuid \<Rightarrow> audit_row \<Rightarrow> ('d site, db_error, unit) tx" where
  "InsertAuditLog now tid row s = (let r = row\<lparr>au_at := pg_Time now\<rparr> in
     bindE (guardE (valid_text (au_action r) \<and> valid_text (au_entity r) \<and> valid_text (au_diff r)) BadEncoding) (\<lambda>_.
     bindE (guardE (au_tenant r = tid) RowSecurity) (\<lambda>_.
     bindE (guardE (\<not> list_ex (\<lambda>x. au_id x = au_id r) (siAudit s)) (UniqueViolation ''audit_log_pkey'')) (\<lambda>_.
     bindE (guardE (tenant_exists s tid) (ForeignKeyViolation ''audit_log_tenant_id_fkey'')) (\<lambda>_.
     Inr ((), s\<lparr>siAudit := siAudit s @ [r]\<rparr>))))))"

section \<open>Codes that link a chat\<close>

definition CreateTelegramLinkCode :: "instant \<Rightarrow> uuid \<Rightarrow> link_code_row \<Rightarrow> ('d site, db_error, unit) tx" where
  "CreateTelegramLinkCode now tid row s = (let r = row\<lparr>lc_used_at := None, lc_created_at := pg_Time now\<rparr> in
     bindE (guardE (lc_tenant r = tid) RowSecurity) (\<lambda>_.
     bindE (guardE (\<not> list_ex (\<lambda>x. lc_code x = lc_code r) (siCodes s)) (UniqueViolation ''telegram_link_codes_pkey'')) (\<lambda>_.
     bindE (guardE (tenant_exists s tid) (ForeignKeyViolation ''telegram_link_codes_tenant_id_fkey'')) (\<lambda>_.
     bindE (guardE (user_exists s (lc_user r)) (ForeignKeyViolation ''telegram_link_codes_user_id_fkey'')) (\<lambda>_.
     Inr ((), s\<lparr>siCodes := siCodes s @ [r]\<rparr>))))))"

definition UseTelegramLinkCode :: "string \<Rightarrow> instant \<Rightarrow> ('d site, db_error, uuid \<times> uuid) tx" where
  "UseTelegramLinkCode code now s = (let P = (\<lambda>r. lc_code r = code \<and> lc_used_at r = None \<and> now < lc_expires_at r) in
     case find P (siCodes s) of None \<Rightarrow> Inl NoRows
     | Some r \<Rightarrow> Inr ((lc_tenant r, lc_user r), s\<lparr>siCodes := update_rows P (\<lambda>r. r\<lparr>lc_used_at := Some now\<rparr>) (siCodes s)\<rparr>))"

section \<open>Lemmas\<close>

lemma session_rows_iff:
  "(r, u, t) \<in> set (session_rows h now s) \<longleftrightarrow> r \<in> set (siSessions s) \<and> u \<in> set (users (siDb s)) \<and> t \<in> set (siTenants s)
    \<and> us_id u = se_user r \<and> tn_id t = us_tenant u \<and> se_token_hash r = h \<and> now < se_expires_at r"
  by (auto simp: session_rows_def)

lemma GetSession_Some:
  assumes "GetSession h now s = Some (r, u, t)"
  shows "r \<in> set (siSessions s) \<and> u \<in> set (users (siDb s)) \<and> t \<in> set (siTenants s) \<and> us_id u = se_user r
    \<and> tn_id t = us_tenant u \<and> se_token_hash r = h \<and> now < se_expires_at r"
proof -
  have "(r, u, t) \<in> set (session_rows h now s)" using assms by (auto simp: GetSession_def split: list.splits)
  then show ?thesis by (simp add: session_rows_iff)
qed

lemma GetSession_None: "GetSession h now s = None \<longleftrightarrow> session_rows h now s = []"
  by (simp add: GetSession_def split: list.splits)

text \<open>The keys of the tables: a token hash names one session, a tenant and a user are one row each.\<close>

definition site_keys :: "'d site \<Rightarrow> bool" where
  "site_keys s \<longleftrightarrow> distinct (map se_token_hash (siSessions s)) \<and> distinct (map tn_id (siTenants s))
     \<and> distinct (map us_id (users (siDb s))) \<and> distinct (map us_email (users (siDb s))) \<and> distinct (map lc_code (siCodes s))"

lemma row_by_key: "distinct (map f xs) \<Longrightarrow> x \<in> set xs \<Longrightarrow> y \<in> set xs \<Longrightarrow> f x = f y \<Longrightarrow> x = y"
  by (simp add: distinct_map inj_on_def)

lemma GetSession_iff:
  assumes "site_keys s"
  shows "GetSession h now s = Some (r, u, t) \<longleftrightarrow> r \<in> set (siSessions s) \<and> u \<in> set (users (siDb s)) \<and> t \<in> set (siTenants s)
    \<and> us_id u = se_user r \<and> tn_id t = us_tenant u \<and> se_token_hash r = h \<and> now < se_expires_at r"
    (is "?a \<longleftrightarrow> ?b")
proof
  assume b: ?b
  then have "(r, u, t) \<in> set (session_rows h now s)" by (simp add: session_rows_iff)
  then have "GetSession h now s \<noteq> None" by (auto simp: GetSession_None)
  then obtain r' u' t' where g: "GetSession h now s = Some (r', u', t')" by (cases "GetSession h now s") auto
  from GetSession_Some[OF this] b assms have "r' = r"
    unfolding site_keys_def by (metis row_by_key)
  moreover from this GetSession_Some[OF g] b assms have "u' = u"
    unfolding site_keys_def by (metis row_by_key)
  moreover from this GetSession_Some[OF g] b assms have "t' = t"
    unfolding site_keys_def by (metis row_by_key)
  ultimately show ?a using g by simp
qed (rule GetSession_Some)

end
