(* ===== verification/Journal.thy ===== *)
theory Journal
  imports Stock_Db
begin

text \<open>
  The invariant that ties the journal and the balances together, and its preservation by the
  steps of which every stock operation is made: preparing a balance, inserting a movement and
  applying it.
\<close>

section \<open>The invariant\<close>

definition journal :: "'d db \<Rightarrow> uuid \<Rightarrow> uuid \<Rightarrow> rat" where
  "journal st wid iid =
     sum_list (map mv_qty (filter (\<lambda>m. mv_warehouse m = wid \<and> mv_item m = iid) (movements st)))"

definition on_hand_of :: "'d db \<Rightarrow> uuid \<Rightarrow> uuid \<Rightarrow> rat" where
  "on_hand_of st wid iid = (case find (balance_key wid iid) (balances st) of None \<Rightarrow> 0 | Some b \<Rightarrow> ba_on_hand b)"

text \<open>What a reversal refers to: an earlier movement of the same place with the opposite sign,
  itself no reversal.\<close>

definition reverses_ok :: "movement_row list \<Rightarrow> movement_row \<Rightarrow> bool" where
  "reverses_ok ms r \<longleftrightarrow> (\<forall>i. mv_reverses r = Some i \<longrightarrow>
     (\<exists>m \<in> set ms. mv_id m = i \<and> mv_tenant m = mv_tenant r \<and> mv_warehouse m = mv_warehouse r
        \<and> mv_item m = mv_item r \<and> mv_qty r = - mv_qty m \<and> mv_reverses m = None))"

definition journal_ok :: "movement_row list \<Rightarrow> bool" where
  "journal_ok ms \<longleftrightarrow> distinct (map mv_id ms)
     \<and> (\<forall>m \<in> set ms. is_numeric (mv_qty m) \<and> movement_checks m = Inr () \<and> reverses_ok ms m)
     \<and> (\<forall>m \<in> set ms. \<forall>m' \<in> set ms. mv_tenant m = mv_tenant m' \<longrightarrow> mv_idempotency_key m \<noteq> None \<longrightarrow>
          mv_idempotency_key m = mv_idempotency_key m' \<longrightarrow> mv_id m = mv_id m')
     \<and> (\<forall>m \<in> set ms. \<forall>m' \<in> set ms. mv_tenant m = mv_tenant m' \<longrightarrow> mv_reverses m \<noteq> None \<longrightarrow>
          mv_reverses m = mv_reverses m' \<longrightarrow> mv_id m = mv_id m')"

definition balances_ok :: "balance_row list \<Rightarrow> bool" where
  "balances_ok bs \<longleftrightarrow> distinct (map (\<lambda>b. (ba_warehouse b, ba_item b)) bs)
     \<and> (\<forall>b \<in> set bs. is_numeric (ba_on_hand b) \<and> 0 \<le> ba_on_hand b)"

definition stock_inv :: "'d db \<Rightarrow> bool" where
  "stock_inv st \<longleftrightarrow> journal_ok (movements st) \<and> balances_ok (balances st)
     \<and> (\<forall>w i. on_hand_of st w i = journal st w i)
     \<and> (\<forall>m \<in> set (movements st). mv_id m < uuid_supply st)"

text \<open>The tables a step leaves alone.\<close>

definition stock_frame :: "'d db \<Rightarrow> 'd db \<Rightarrow> bool" where
  "stock_frame st st' \<longleftrightarrow> movements st' = movements st \<and> balances st' = balances st
     \<and> counts st' = counts st \<and> count_lines st' = count_lines st \<and> items st' = items st
     \<and> warehouses st' = warehouses st \<and> users st' = users st \<and> suppliers st' = suppliers st
     \<and> supplier_items st' = supplier_items st \<and> purchase_orders st' = purchase_orders st
     \<and> order_lines st' = order_lines st \<and> categories st' = categories st \<and> uuid_supply st \<le> uuid_supply st'"

lemma stock_frame_refl [simp]: "stock_frame st st"
  by (simp add: stock_frame_def)

lemma stock_frame_trans [trans]: "stock_frame a b \<Longrightarrow> stock_frame b c \<Longrightarrow> stock_frame a c"
  by (simp add: stock_frame_def)

lemma stock_inv_frame: "stock_frame st st' \<Longrightarrow> stock_inv st \<Longrightarrow> stock_inv st'"
  by (auto simp: stock_frame_def stock_inv_def journal_def on_hand_of_def)

section \<open>The view of a tenant\<close>

text \<open>The rows that row-level security shows to a tenant, in every table.\<close>

definition tenant_view :: "uuid \<Rightarrow> 'd db \<Rightarrow> 'd db" where
  "tenant_view tid st = \<lparr>categories = visible tid ca_tenant (categories st), items = visible tid it_tenant (items st),
     warehouses = visible tid wh_tenant (warehouses st), users = visible tid us_tenant (users st),
     suppliers = visible tid su_tenant (suppliers st), supplier_items = visible tid si_tenant (supplier_items st),
     movements = visible tid mv_tenant (movements st), balances = visible tid ba_tenant (balances st),
     counts = visible tid sc_tenant (counts st), count_lines = visible tid cl_tenant (count_lines st),
     purchase_orders = visible tid po_tenant (purchase_orders st),
     order_lines = visible tid ol_tenant (order_lines st), daily = visible tid dc_tenant (daily st),
     forecasts = visible tid fc_tenant (forecasts st),
     forecast_metrics = visible tid fm_tenant (forecast_metrics st),
     item_status = visible tid is_tenant (item_status st),
     notifications = visible tid nt_tenant (notifications st), outbox = visible tid ob_tenant (outbox st),
     uuid_supply = 0\<rparr>"

text \<open>What every step of tenant \<open>tid\<close> may do: the journal grows at its end, no other tenant sees a
  difference, the catalogue and the lines of the counts stay and new balances belong to its items; \<open>stock_inv\<close> is kept.\<close>

definition balances_placed :: "'d db \<Rightarrow> 'd db \<Rightarrow> bool" where
  "balances_placed st st' \<longleftrightarrow> (\<forall>b \<in> set (balances st'). ba_item b \<in> ba_item ` set (balances st) \<union> it_id ` set (items st))"

lemma balances_placed_same: "balances st' = balances st \<Longrightarrow> balances_placed st st'"
  by (simp add: balances_placed_def)

lemma balances_placed_trans: "balances_placed a b \<Longrightarrow> balances_placed b c \<Longrightarrow> items b = items a \<Longrightarrow> balances_placed a c"
  by (fastforce simp: balances_placed_def)

definition advances :: "uuid \<Rightarrow> 'd db \<Rightarrow> 'd db \<Rightarrow> bool" where
  "advances tid st st' \<longleftrightarrow> (stock_inv st \<longrightarrow> stock_inv st') \<and> (\<exists>ms. movements st' = movements st @ ms)
     \<and> (\<forall>other. other \<noteq> tid \<longrightarrow> tenant_view other st' = tenant_view other st)
     \<and> items st' = items st \<and> warehouses st' = warehouses st \<and> users st' = users st
     \<and> suppliers st' = suppliers st \<and> supplier_items st' = supplier_items st
     \<and> categories st' = categories st \<and> count_lines st' = count_lines st
     \<and> balances_placed st st' \<and> uuid_supply st \<le> uuid_supply st'"

lemma advances_refl [simp]: "advances tid st st"
  by (simp add: advances_def balances_placed_same)

lemma advances_trans [trans]: "advances tid a b \<Longrightarrow> advances tid b c \<Longrightarrow> advances tid a c"
  by (auto simp: advances_def intro: balances_placed_trans[of a b c])

lemma stock_frame_advances:
  assumes "stock_frame st st'" and "\<And>other. other \<noteq> tid \<Longrightarrow> tenant_view other st' = tenant_view other st"
  shows "advances tid st st'"
  unfolding advances_def using assms stock_inv_frame[OF assms(1)] by (auto simp: stock_frame_def balances_placed_same)

text \<open>Changes of the documents only.\<close>

lemma advances_documents:
  assumes "movements st' = movements st" and "balances st' = balances st" and "items st' = items st"
    and "warehouses st' = warehouses st" and "users st' = users st" and "suppliers st' = suppliers st"
    and "supplier_items st' = supplier_items st" and "uuid_supply st \<le> uuid_supply st'"
    and "\<And>other. other \<noteq> tid \<Longrightarrow> tenant_view other st' = tenant_view other st" and "categories st' = categories st"
    and "count_lines st' = count_lines st"
  shows "advances tid st st'"
proof -
  have "stock_inv st \<Longrightarrow> stock_inv st'"
    using assms(1,2,8) by (auto simp: stock_inv_def journal_def on_hand_of_def)
  then show ?thesis using assms by (auto simp: advances_def balances_placed_same)
qed

lemma visible_append: "visible tid tn (xs @ ys) = visible tid tn xs @ visible tid tn ys"
  by (simp add: visible_def)

lemma visible_other_one [simp]: "tn r = tid \<Longrightarrow> other \<noteq> tid \<Longrightarrow> visible other tn (xs @ [r]) = visible other tn xs"
  by (simp add: visible_def)

lemma visible_update_rows_other:
  assumes "\<And>r. P r \<Longrightarrow> tn r = tid" and "\<And>r. tn (f r) = tn r" and "other \<noteq> tid"
  shows "visible other tn (update_rows P f rows) = visible other tn rows"
  using assms by (induction rows) (auto simp: visible_def update_rows_def)

lemma visible_update_own [simp]:
  assumes "\<And>r. tn (f r) = tn r" and "other \<noteq> tid"
  shows "visible other tn (update_rows (\<lambda>r. tn r = tid \<and> Q r) f rows) = visible other tn rows"
  using assms by (intro visible_update_rows_other) auto

section \<open>Balances by key\<close>

lemma find_key_unique:
  assumes "distinct (map (\<lambda>b. (ba_warehouse b, ba_item b)) bs)" and "b \<in> set bs" and "balance_key w i b"
  shows "find (balance_key w i) bs = Some b"
  using assms
proof (induction bs)
  case (Cons x bs)
  show ?case
  proof (cases "b = x")
    case False
    with Cons.prems have "b \<in> set bs" by simp
    then have "(ba_warehouse b, ba_item b) \<in> (\<lambda>b. (ba_warehouse b, ba_item b)) ` set bs" by auto
    then have "\<not> balance_key w i x" using Cons.prems by (auto simp: balance_key_def)
    with Cons False show ?thesis by auto
  qed (use Cons.prems in simp)
qed simp

lemma find_update_rows:
  assumes "\<And>b. balance_key w i (f b) = balance_key w i b"
  shows "find (balance_key w i) (update_rows P f bs) =
    map_option (\<lambda>b. if P b then f b else b) (find (balance_key w i) bs)"
  using assms by (induction bs) (auto simp: update_rows_def)

lemma find_append_one: "find P (xs @ [y]) = (case find P xs of None \<Rightarrow> if P y then Some y else None | Some x \<Rightarrow> Some x)"
  by (induction xs) auto

lemma LockBalance_Inr:
  assumes l: "LockBalance tid wid iid st = Inr (h, s1)" and inv: "stock_inv st"
  shows "s1 = st" and "h = on_hand_of st wid iid" and "is_numeric h" and "0 \<le> h"
    and "\<exists>b \<in> set (balances st). ba_tenant b = tid \<and> balance_key wid iid b \<and> ba_on_hand b = h"
proof -
  from l obtain b where f: "find (balance_key wid iid) (visible tid ba_tenant (balances st)) = Some b"
    and h: "h = ba_on_hand b" and st: "s1 = st"
    by (cases "find (balance_key wid iid) (visible tid ba_tenant (balances st))") (auto simp: LockBalance_def)
  from f have b: "b \<in> set (balances st)" "ba_tenant b = tid" "balance_key wid iid b"
    by (auto dest: find_Some_in)
  have d: "distinct (map (\<lambda>b. (ba_warehouse b, ba_item b)) (balances st))"
    and n: "is_numeric (ba_on_hand b)" "0 \<le> ba_on_hand b"
    using inv b by (auto simp: stock_inv_def balances_ok_def)
  from find_key_unique[OF d b(1,3)] show "h = on_hand_of st wid iid" by (simp add: on_hand_of_def h)
  show "s1 = st" "is_numeric h" "0 \<le> h"
    "\<exists>b \<in> set (balances st). ba_tenant b = tid \<and> balance_key wid iid b \<and> ba_on_hand b = h"
    using st n b h by auto
qed

lemma EnsureBalance_Inr:
  assumes "EnsureBalance tid wid iid w st = Inr (u, st')" and "stock_inv st"
  shows "stock_inv st'" and "\<And>a i. on_hand_of st' a i = on_hand_of st a i"
    and "\<exists>bs. st' = st\<lparr>balances := balances st @ bs\<rparr> \<and> (\<forall>b \<in> set bs. ba_tenant b = tid \<and> ba_on_hand b = 0)"
proof -
  have "stock_inv st' \<and> (\<forall>a i. on_hand_of st' a i = on_hand_of st a i)
    \<and> (\<exists>bs. st' = st\<lparr>balances := balances st @ bs\<rparr> \<and> (\<forall>b \<in> set bs. ba_tenant b = tid \<and> ba_on_hand b = 0))"
  proof (cases "list_ex (balance_key wid iid) (balances st)")
    case True
    then have "st' = st" using assms(1) by (simp add: EnsureBalance_def)
    then show ?thesis using assms(2) by (auto intro: exI[of _ "[]"])
  next
    case False
    define b where "b = \<lparr>ba_tenant = tid, ba_warehouse = wid, ba_item = iid, ba_on_hand = 0, ba_updated_at = pg_Time w\<rparr>"
    have st': "st' = st\<lparr>balances := balances st @ [b]\<rparr>"
      using assms(1) False by (auto simp: EnsureBalance_def b_def bindE_Inr_iff)
    have none: "find (balance_key wid iid) (balances st) = None"
      using False by (auto simp: find_None_iff list_ex_iff)
    have eq: "on_hand_of st' a i = on_hand_of st a i" for a i
      by (auto simp: on_hand_of_def st' find_append_one b_def split: option.splits)
    have "balances_ok (balances st')"
      using assms(2) False
      by (auto simp: stock_inv_def balances_ok_def st' b_def is_numeric_def list_ex_iff balance_key_def)
    moreover have "journal st' a i = journal st a i" for a i by (simp add: journal_def st')
    ultimately have "stock_inv st'" using assms(2) eq by (auto simp: stock_inv_def st')
    then show ?thesis using eq st' by (auto simp: b_def intro: exI[of _ "[b]"])
  qed
  then show "stock_inv st'" "\<And>a i. on_hand_of st' a i = on_hand_of st a i"
    "\<exists>bs. st' = st\<lparr>balances := balances st @ bs\<rparr> \<and> (\<forall>b \<in> set bs. ba_tenant b = tid \<and> ba_on_hand b = 0)"
    by auto
qed

lemma EnsureBalance_placed: "EnsureBalance tid wid iid w st = Inr (u, st') \<Longrightarrow> balances_placed st st'"
  by (auto simp: EnsureBalance_def balances_placed_def item_exists_def list_ex_iff split: if_splits)

lemma ApplyMovement_items:
  assumes "ApplyMovementToBalance tid wid iid q now st = Inr (v, st')"
  shows "ba_item ` set (balances st') = ba_item ` set (balances st)" and "items st' = items st"
proof -
  from assms obtain P f where b: "balances st' = update_rows P f (balances st)" and f: "\<And>x. ba_item (f x) = ba_item x" and i: "items st' = items st"
    by (auto simp: ApplyMovementToBalance_def split: option.splits if_splits)
  have "map ba_item (update_rows P f bs) = map ba_item bs" for bs by (auto simp: update_rows_def f)
  then have "set (map ba_item (balances st')) = set (map ba_item (balances st))" by (simp only: b)
  then show "ba_item ` set (balances st') = ba_item ` set (balances st)" "items st' = items st" using i by simp_all
qed

section \<open>Inserting and applying a movement\<close>

lemma InsertMovement_Inr:
  assumes "InsertMovement w row st = Inr (r, st')" and "scale3 (mv_qty row)"
  shows "r = row\<lparr>mv_created_at := pg_Time w, mv_occurred_at := pg_Time (mv_occurred_at row)\<rparr>"
    and "st' = st\<lparr>movements := movements st @ [r]\<rparr>" and "is_numeric (mv_qty row)"
    and "movement_checks r = Inr ()" and "movement_unique r st = Inr ()"
    and "movement_references r st = Inr ()" and "movement_texts row"
proof -
  obtain q where q: "numeric_14_3 (mv_qty row) = Inr q" and
    r: "r = row\<lparr>mv_qty := q, mv_created_at := pg_Time w, mv_occurred_at := pg_Time (mv_occurred_at row)\<rparr>"
    "movement_checks r = Inr ()" "movement_unique r st = Inr ()" "movement_references r st = Inr ()"
    "st' = st\<lparr>movements := movements st @ [r]\<rparr>" and t: "movement_texts row"
    using assms(1) by (auto simp: InsertMovement_def Let_def)
  have "q = mv_qty row" using q assms(2) by (simp add: numeric_14_3_Inr)
  then have "r = row\<lparr>mv_created_at := pg_Time w, mv_occurred_at := pg_Time (mv_occurred_at row)\<rparr>"
    using r(1) by simp
  then show "r = row\<lparr>mv_created_at := pg_Time w, mv_occurred_at := pg_Time (mv_occurred_at row)\<rparr>"
    and "st' = st\<lparr>movements := movements st @ [r]\<rparr>" and "is_numeric (mv_qty row)"
    and "movement_checks r = Inr ()" and "movement_unique r st = Inr ()"
    and "movement_references r st = Inr ()" and "movement_texts row"
    using r q t numeric_14_3_is \<open>q = mv_qty row\<close> by auto
qed

lemma journal_ok_append:
  assumes "journal_ok ms" and "movement_checks r = Inr ()" and "is_numeric (mv_qty r)"
    and "reverses_ok ms r" and "movement_unique r st = Inr ()" and "movements st = ms"
  shows "journal_ok (ms @ [r])"
proof -
  have u: "mv_id r \<notin> mv_id ` set ms"
    and k: "\<forall>m \<in> set ms. mv_tenant m = mv_tenant r \<longrightarrow> mv_idempotency_key r \<noteq> None \<longrightarrow>
        mv_idempotency_key m \<noteq> mv_idempotency_key r"
    and v: "\<forall>m \<in> set ms. mv_tenant m = mv_tenant r \<longrightarrow> mv_reverses r \<noteq> None \<longrightarrow> mv_reverses m \<noteq> mv_reverses r"
    using assms(5,6) by (auto simp: movement_unique_def list_ex_iff bindE_Inr_iff)
  have "reverses_ok (ms @ [r]) m" if "reverses_ok ms m" for m using that by (auto simp: reverses_ok_def)
  then have "\<forall>m \<in> set (ms @ [r]). is_numeric (mv_qty m) \<and> movement_checks m = Inr () \<and> reverses_ok (ms @ [r]) m"
    using assms(1-4) by (auto simp: journal_ok_def)
  moreover have "distinct (map mv_id (ms @ [r]))" using assms(1) u by (auto simp: journal_ok_def)
  moreover have "mv_id m = mv_id m'" if mm: "m \<in> set (ms @ [r])" "m' \<in> set (ms @ [r])" "mv_tenant m = mv_tenant m'"
      "mv_idempotency_key m \<noteq> None" "mv_idempotency_key m = mv_idempotency_key m'" for m m'
  proof -
    consider "m = r \<and> m' = r" | "m = r \<and> m' \<in> set ms" | "m \<in> set ms \<and> m' = r" | "m \<in> set ms \<and> m' \<in> set ms"
      using mm(1,2) unfolding set_append list.set by blast
    then show ?thesis using mm(3-5) k assms(1) by cases (auto simp: journal_ok_def)
  qed
  moreover have "mv_id m = mv_id m'" if mm: "m \<in> set (ms @ [r])" "m' \<in> set (ms @ [r])" "mv_tenant m = mv_tenant m'"
      "mv_reverses m \<noteq> None" "mv_reverses m = mv_reverses m'" for m m'
  proof -
    consider "m = r \<and> m' = r" | "m = r \<and> m' \<in> set ms" | "m \<in> set ms \<and> m' = r" | "m \<in> set ms \<and> m' \<in> set ms"
      using mm(1,2) unfolding set_append list.set by blast
    then show ?thesis using mm(3-5) v assms(1) by cases (auto simp: journal_ok_def)
  qed
  ultimately show ?thesis unfolding journal_ok_def by blast
qed

text \<open>A movement and its balance change together: the invariant is kept and the balance of that
  place moves by exactly the quantity.\<close>

lemma insert_apply:
  assumes inv: "stock_inv st"
    and ins: "InsertMovement w row st = Inr (r, st1)"
    and app: "ApplyMovementToBalance tid wid iid (mv_qty row) now st1 = Inr (v, st2)"
    and row: "mv_warehouse row = wid" "mv_item row = iid" "scale3 (mv_qty row)" "mv_id row < uuid_supply st"
    and rev: "reverses_ok (movements st) row"
  shows "stock_inv st2" and "v = on_hand_of st wid iid + mv_qty row" and "0 \<le> v" and "is_numeric v"
    and "on_hand_of st2 a i = (if a = wid \<and> i = iid then v else on_hand_of st a i)"
    and "movements st2 = movements st @ [r]"
    and "st2 = st\<lparr>movements := movements st2, balances := balances st2\<rparr>"
proof -
  note I = InsertMovement_Inr[OF ins row(3)]
  have rq: "mv_qty r = mv_qty row" "mv_id r = mv_id row" "mv_warehouse r = wid" "mv_item r = iid"
    by (simp_all add: I(1) row)
  have d: "distinct (map (\<lambda>b. (ba_warehouse b, ba_item b)) (balances st))"
    using inv by (simp add: stock_inv_def balances_ok_def)
  obtain b where b: "b \<in> set (balances st)" "ba_tenant b = tid" "balance_key wid iid b"
    and v: "numeric_14_3 (ba_on_hand b + mv_qty row) = Inr v" "0 \<le> v"
    and st2: "st2 = st1\<lparr>balances := update_rows (\<lambda>x. ba_tenant x = tid \<and> balance_key wid iid x)
             (\<lambda>x. x\<lparr>ba_on_hand := v, ba_updated_at := pg_Time now\<rparr>) (balances st1)\<rparr>"
    using app by (auto simp: ApplyMovementToBalance_def I(2) bindE_Inr_iff not_less split: option.splits
        if_splits dest!: find_Some_in)
  have find_b: "find (balance_key wid iid) (balances st) = Some b" using d b by (intro find_key_unique)
  then have oh: "on_hand_of st wid iid = ba_on_hand b" by (simp add: on_hand_of_def)
  have "scale3 (ba_on_hand b)" using inv b by (auto simp: stock_inv_def balances_ok_def is_numeric_def)
  then have veq: "v = ba_on_hand b + mv_qty row" using v(1) row(3) scale_add[of 3 "ba_on_hand b" "mv_qty row"] by (simp add: numeric_14_3_Inr)
  have upd: "update_rows (\<lambda>x. ba_tenant x = tid \<and> balance_key wid iid x) g (balances st)
      = update_rows (balance_key wid iid) g (balances st)" for g
  proof -
    have "(ba_tenant x = tid \<and> balance_key wid iid x) = balance_key wid iid x" if "x \<in> set (balances st)" for x
      using find_key_unique[OF d that] find_b b(2) by fastforce
    then show ?thesis unfolding update_rows_def by (intro map_cong) simp_all
  qed
  have bal: "balances st2 = update_rows (balance_key wid iid) (\<lambda>x. x\<lparr>ba_on_hand := v, ba_updated_at := pg_Time now\<rparr>) (balances st)"
    by (simp add: st2 I(2) upd)
  have key: "balance_key a i (x\<lparr>ba_on_hand := v, ba_updated_at := pg_Time now\<rparr>) = balance_key a i x" for a i x
    by (simp add: balance_key_def)
  have oh2: "on_hand_of st2 a i = (if a = wid \<and> i = iid then v else on_hand_of st a i)" for a i
  proof (cases "a = wid \<and> i = iid")
    case True
    then show ?thesis unfolding on_hand_of_def bal find_update_rows[OF key] using find_b b by simp
  next
    case False
    then have "\<not> balance_key wid iid x" if "balance_key a i x" for x using that by (auto simp: balance_key_def)
    then show ?thesis unfolding on_hand_of_def bal find_update_rows[OF key] using False
      by (auto split: option.splits dest!: find_Some_in)
  qed
  have mv: "movements st2 = movements st @ [r]" by (simp add: st2 I(2))
  have jo: "journal st2 a i = journal st a i + (if a = wid \<and> i = iid then mv_qty row else 0)" for a i
    by (auto simp: journal_def mv rq)
  have num: "is_numeric v" using v(1) by (rule numeric_14_3_is)
  have "map (\<lambda>b. (ba_warehouse b, ba_item b)) (balances st2) = map (\<lambda>b. (ba_warehouse b, ba_item b)) (balances st)"
    by (simp add: bal update_rows_def comp_def)
  then have "distinct (map (\<lambda>b. (ba_warehouse b, ba_item b)) (balances st2))" using d by (simp only:)
  moreover have "is_numeric (ba_on_hand x) \<and> 0 \<le> ba_on_hand x" if "x \<in> set (balances st2)" for x
    using that inv num v(2) by (auto simp: bal update_rows_def stock_inv_def balances_ok_def)
  ultimately have "balances_ok (balances st2)" by (simp add: balances_ok_def)
  moreover have "journal_ok (movements st2)"
    unfolding mv using inv I rq rev
    by (intro journal_ok_append[where st = st]) (simp_all add: stock_inv_def reverses_ok_def I(1))
  moreover have "on_hand_of st2 a i = journal st2 a i" for a i
    using inv oh veq by (auto simp: oh2 jo stock_inv_def)
  moreover have "uuid_supply st2 = uuid_supply st" by (simp add: st2 I(2))
  ultimately show "stock_inv st2"
    using inv row(4) by (auto simp: stock_inv_def mv rq)
  show "v = on_hand_of st wid iid + mv_qty row" "0 \<le> v" "is_numeric v"
    "on_hand_of st2 a i = (if a = wid \<and> i = iid then v else on_hand_of st a i)"
    "movements st2 = movements st @ [r]" "st2 = st\<lparr>movements := movements st2, balances := balances st2\<rparr>"
    using oh veq v(2) num oh2 mv by (simp_all add: st2 I(2))
qed

end
