(* ===== verification/Stock.thy ===== *)
theory Stock
  imports Journal
begin

text \<open>
  \<open>internal/stock/stock.go\<close>, \<open>service.go\<close> and \<open>mapping.go\<close>: movement types, the errors of the
  module, \<open>Record\<close>, \<open>RecordInTx\<close> and \<open>Reverse\<close>. Text in Russian is given by its code points;
  an error that wraps another keeps it under a tag that stands for the message.
\<close>

section \<open>Texts\<close>

definition utf8_char :: "nat \<Rightarrow> nat list" where
  "utf8_char c = (if c < 128 then [c] else if c < 2048 then [192 + c div 64, 128 + c mod 64]
     else [224 + c div 4096, 128 + c div 64 mod 64, 128 + c mod 64])"

definition utf8 :: "nat list \<Rightarrow> string" where
  "utf8 cs = map char_of (concat (map utf8_char cs))"

section \<open>Movement types and reasons\<close>

type_synonym movement_type = string

definition TypeOpening :: movement_type where "TypeOpening = ''opening''"
definition TypeReceipt :: movement_type where "TypeReceipt = ''receipt''"
definition TypeUsage :: movement_type where "TypeUsage = ''usage''"
definition TypeWriteoff :: movement_type where "TypeWriteoff = ''writeoff''"
definition TypeAdjustment :: movement_type where "TypeAdjustment = ''adjustment''"
definition TypeReversal :: movement_type where "TypeReversal = ''reversal''"

definition type_Valid :: "movement_type \<Rightarrow> bool" where
  "type_Valid t \<longleftrightarrow> t = TypeOpening \<or> t = TypeReceipt \<or> t = TypeUsage \<or> t = TypeWriteoff
     \<or> t = TypeAdjustment \<or> t = TypeReversal"

definition UserCreatable :: "movement_type \<Rightarrow> bool" where
  "UserCreatable t \<longleftrightarrow> t = TypeReceipt \<or> t = TypeUsage \<or> t = TypeWriteoff"

definition Increases :: "movement_type \<Rightarrow> bool" where
  "Increases t \<longleftrightarrow> t = TypeOpening \<or> t = TypeReceipt"

definition Decreases :: "movement_type \<Rightarrow> bool" where
  "Decreases t \<longleftrightarrow> t = TypeUsage \<or> t = TypeWriteoff"

definition CountsAsConsumption :: "movement_type \<Rightarrow> bool" where
  "CountsAsConsumption t \<longleftrightarrow> t = TypeUsage \<or> t = TypeWriteoff \<or> t = TypeAdjustment"

definition type_Label :: "movement_type \<Rightarrow> string" where
  "type_Label t = (if t = TypeOpening then utf8 [1053, 1072, 1095, 1072, 1083, 1100, 1085, 1099, 1081, 32, 1086, 1089, 1090, 1072, 1090,
       1086, 1082]
     else if t = TypeReceipt then utf8 [1055, 1088, 1080, 1093, 1086, 1076]
     else if t = TypeUsage then utf8 [1056, 1072, 1089, 1093, 1086, 1076]
     else if t = TypeWriteoff then utf8 [1057, 1087, 1080, 1089, 1072, 1085, 1080, 1077]
     else if t = TypeAdjustment then utf8 [1050, 1086, 1088, 1088, 1077, 1082, 1090, 1080, 1088, 1086, 1074, 1082, 1072]
     else if t = TypeReversal then utf8 [1057, 1090, 1086, 1088, 1085, 1086]
     else t)"

definition ReasonSpoiled :: string where "ReasonSpoiled = ''spoiled''"
definition ReasonBroken :: string where "ReasonBroken = ''broken''"
definition ReasonExpired :: string where "ReasonExpired = ''expired''"
definition ReasonTasting :: string where "ReasonTasting = ''tasting''"
definition ReasonOther :: string where "ReasonOther = ''other''"

definition ValidReason :: "string \<Rightarrow> bool" where
  "ValidReason r \<longleftrightarrow> r = ReasonSpoiled \<or> r = ReasonBroken \<or> r = ReasonExpired \<or> r = ReasonTasting
     \<or> r = ReasonOther"

definition reason_Label :: "string \<Rightarrow> string" where
  "reason_Label r = (if r = ReasonSpoiled then utf8 [1048, 1089, 1087, 1086, 1088, 1090, 1080, 1083, 1086, 1089, 1100]
     else if r = ReasonBroken then utf8 [1041, 1086, 1081]
     else if r = ReasonExpired then utf8 [1048, 1089, 1090, 1105, 1082, 32, 1089, 1088, 1086, 1082]
     else if r = ReasonTasting then utf8 [1055, 1088, 1086, 1083, 1080, 1074, 1099, 32, 1080, 32, 1076, 1077, 1075, 1091, 1089,
       1090, 1072, 1094, 1080, 1080]
     else if r = ReasonOther then utf8 [1044, 1088, 1091, 1075, 1086, 1077]
     else r)"

definition MaxBackdateDays :: int where "MaxBackdateDays = 7"

lemmas type_names = TypeOpening_def TypeReceipt_def TypeUsage_def TypeWriteoff_def TypeAdjustment_def
  TypeReversal_def

section \<open>Data\<close>

record 'd movement =
  mID :: uuid
  mItem :: uuid
  mItemName :: string
  mBaseUnit :: string
  mType :: movement_type
  mTypeLabel :: string
  mQty :: "'d qty"
  mOccurredAt :: instant
  mCreatedAt :: instant
  mCreatedBy :: "uuid option"
  mAuthorName :: string
  mReason :: string
  mReasonLabel :: string
  mComment :: string
  mOrder :: "uuid option"
  mCount :: "uuid option"
  mReverses :: "uuid option"
  mReversed :: bool

record 'd balance =
  blItem :: uuid
  blOnHand :: "'d qty"
  blOnOrder :: "'d qty"
  blUpdatedAt :: instant

definition InventoryPosition :: "'d decimal_lib \<Rightarrow> 'd balance \<Rightarrow> 'd qty" where
  "InventoryPosition D b = qAdd D (blOnHand b) (blOnOrder b)"

record 'd count_line =
  clnItem :: uuid
  clnItemName :: string
  clnBaseUnit :: string
  ExpectedQty :: "'d qty"
  CurrentQty :: "'d qty"
  CountedQty :: "'d qty option"
  clnDiff :: "'d qty option"

record 'd status_snapshot =
  snCode :: string
  snStockoutDate :: "string option"
  snOrderBy :: "string option"
  snRecommendedQty :: "'d qty"

record 'd record_request =
  rqItem :: uuid
  rqType :: movement_type
  rqQty :: "'d qty"
  rqOccurredAt :: instant
  rqReason :: string
  rqComment :: string
  rqOrder :: "uuid option"
  rqCount :: "uuid option"
  rqKey :: string
  rqCreatedBy :: "uuid option"

record 'd record_result =
  rrMovement :: "'d movement"
  rrBalance :: "'d balance"
  rrStatus :: "'d status_snapshot"
  rrDuplicate :: bool

text \<open>The errors of the stock and order modules. \<open>Panicked\<close> is a Go panic: the transaction is
  rolled back as well.\<close>

datatype 'd app_error =
    InsufficientStock "'d qty" "'d qty"
  | ErrItemNotFound | ErrItemArchived | ErrAlreadyReversed | ErrCannotReverse
  | ErrOccurredTooOld | ErrOccurredInFuture | ErrCountPosted | ErrDuplicateKey
  | CountChanged "'d count_line list"
  | ErrUnknownType movement_type | ErrZeroQty | ErrNoReason | ErrSign
  | ErrNegativeCount uuid | ErrBadCursor
  | ErrNotFound | ErrEmptyOrder | ErrWrongStatus | ErrAlreadySent | ErrAlreadyReceived
  | ErrNegativeReceived string
  | Unmarshalable | DB db_error | Wrapped string "'d app_error" | Panicked

type_synonym ('d, 'a) stock_tx = "('d db, 'd app_error, 'a) tx"

text \<open>\<open>StatusRecalculator\<close>: what is called inside the transaction of a movement. The first argument
  is the reading of the wall clock.\<close>

type_synonym 'd recalculator = "instant \<Rightarrow> tenant \<Rightarrow> uuid \<Rightarrow> ('d, 'd status_snapshot) stock_tx"

record 'd stock_service =
  ssClock :: clock
  ssLocal :: location
  ssStatus :: "'d recalculator"

definition noopRecalculator :: "'d decimal_lib \<Rightarrow> 'd recalculator" where
  "noopRecalculator D w t iid = tx_return \<lparr>snCode = ''no_forecast'', snStockoutDate = None,
     snOrderBy = None, snRecommendedQty = qZero D\<rparr>"

text \<open>\<open>time.Local\<close>, the zone the driver gives to timestamps it reads, is \<open>ssLocal\<close>.\<close>

definition NewStockService :: "'d decimal_lib \<Rightarrow> clock \<Rightarrow> location \<Rightarrow> 'd recalculator option \<Rightarrow> 'd stock_service" where
  "NewStockService D cl local status = \<lparr>ssClock = cl, ssLocal = local,
     ssStatus = (case status of None \<Rightarrow> noopRecalculator D | Some r \<Rightarrow> r)\<rparr>"

definition dbtx :: "string \<Rightarrow> ('d db, db_error, 'a) tx \<Rightarrow> ('d, 'a) stock_tx" where
  "dbtx tag m = tx_lift (\<lambda>e. Wrapped tag (DB e)) m"

section \<open>Rows and values\<close>

definition signedQty :: "'d decimal_lib \<Rightarrow> movement_type \<Rightarrow> 'd qty \<Rightarrow> 'd qty" where
  "signedQty D t q = (if Decreases t then qNeg D (qAbs D q) else if Increases t then qAbs D q else q)"

definition nullString :: "string \<Rightarrow> string option" where
  "nullString s = (if s = [] then None else Some s)"

definition movementFromRow :: "'d decimal_lib \<Rightarrow> movement_row \<Rightarrow> 'd movement" where
  "movementFromRow D r = \<lparr>mID = mv_id r, mItem = mv_item r, mItemName = [], mBaseUnit = [],
     mType = mv_type r, mTypeLabel = type_Label (mv_type r), mQty = pg_Qty D (mv_qty r),
     mOccurredAt = mv_occurred_at r, mCreatedAt = mv_created_at r, mCreatedBy = mv_created_by r,
     mAuthorName = [],
     mReason = (case mv_reason r of None \<Rightarrow> [] | Some x \<Rightarrow> x),
     mReasonLabel = (case mv_reason r of None \<Rightarrow> [] | Some x \<Rightarrow> reason_Label x),
     mComment = mv_comment r, mOrder = mv_order r, mCount = mv_count r, mReverses = mv_reverses r,
     mReversed = False\<rparr>"

definition movementFromListRow :: "'d decimal_lib \<Rightarrow> movement_list_row \<Rightarrow> 'd movement" where
  "movementFromListRow D l = (let r = lrRow l in
     \<lparr>mID = mv_id r, mItem = mv_item r, mItemName = lrItemName l, mBaseUnit = lrBaseUnit l,
     mType = mv_type r, mTypeLabel = type_Label (mv_type r), mQty = pg_Qty D (mv_qty r),
     mOccurredAt = mv_occurred_at r, mCreatedAt = mv_created_at r, mCreatedBy = mv_created_by r,
     mAuthorName = (case lrAuthorName l of None \<Rightarrow> [] | Some x \<Rightarrow> x),
     mReason = (case mv_reason r of None \<Rightarrow> [] | Some x \<Rightarrow> x),
     mReasonLabel = (case mv_reason r of None \<Rightarrow> [] | Some x \<Rightarrow> reason_Label x),
     mComment = mv_comment r, mOrder = mv_order r, mCount = mv_count r, mReverses = mv_reverses r,
     mReversed = False\<rparr>)"

definition readBalance :: "'d decimal_lib \<Rightarrow> uuid \<Rightarrow> uuid \<Rightarrow> ('d, 'd balance) stock_tx" where
  "readBalance D tid iid = tx_get (\<lambda>st. case GetBalance tid iid st of
       None \<Rightarrow> \<lparr>blItem = iid, blOnHand = qZero D, blOnOrder = qZero D, blUpdatedAt = zero_time\<rparr>
     | Some r \<Rightarrow> \<lparr>blItem = ba_item r, blOnHand = pg_Qty D (ba_on_hand r), blOnOrder = qZero D,
                 blUpdatedAt = ba_updated_at r\<rparr>)"

definition wrapInsertError :: "db_error \<Rightarrow> 'd app_error" where
  "wrapInsertError e = (let c = ConstraintName e in
     if c = ''stock_movements_idempotency_idx'' then ErrDuplicateKey
     else if c = ''stock_movements_reverses_idx'' then ErrAlreadyReversed
     else if c = ''stock_movements_writeoff_reason'' then ErrNoReason
     else if c = ''stock_movements_sign'' then ErrSign
     else Wrapped ''insert'' (DB e))"

definition wrapBalanceError :: "db_error \<Rightarrow> 'd qty \<Rightarrow> 'd qty \<Rightarrow> 'd app_error" where
  "wrapBalanceError e onHand requested =
     (if IsCheckViolation e then InsufficientStock onHand requested else Wrapped ''apply'' (DB e))"

section \<open>Record\<close>

definition validate :: "'d decimal_lib \<Rightarrow> 'd stock_service \<Rightarrow> instant \<Rightarrow> tenant \<Rightarrow> 'd record_request \<Rightarrow>
    'd app_error + 'd record_request" where
  "validate D s w t req =
     bindE (guardE (type_Valid (rqType req)) (ErrUnknownType (rqType req))) (\<lambda>_.
     bindE (guardE (\<not> qIsZero D (rqQty req)) ErrZeroQty) (\<lambda>_.
     bindE (guardE (\<not> (rqType req = TypeWriteoff \<and> \<not> ValidReason (rqReason req))) ErrNoReason) (\<lambda>_.
     let now = tenant_Now t (ssClock s) w;
         req' = (if rqOccurredAt req = zero_time then req\<lparr>rqOccurredAt := now\<rparr> else req)
     in
     bindE (guardE (\<not> now + 5 * 60 * second < rqOccurredAt req') ErrOccurredInFuture) (\<lambda>_.
     bindE (guardE (\<not> rqOccurredAt req' < now - MaxBackdateDays * 24 * hour) ErrOccurredTooOld) (\<lambda>_.
     Inr req')))))"

text \<open>
  The statements that \<open>recordTx\<close> and \<open>Reverse\<close> have in common, steps 2 to 5 of the source: the
  balance is prepared and locked, the change may not make it negative, the movement is inserted
  and the balance moves with it. \<open>asked\<close> and \<open>asked'\<close> are the quantities of the two error values.
\<close>

definition book :: "'d decimal_lib \<Rightarrow> instant \<Rightarrow> uuid \<Rightarrow> uuid \<Rightarrow> uuid \<Rightarrow> 'd qty \<Rightarrow> instant \<Rightarrow> (uuid \<Rightarrow> movement_row) \<Rightarrow>
    'd qty \<Rightarrow> 'd qty \<Rightarrow> ('d, movement_row \<times> rat) stock_tx" where
  "book D w tid wid iid delta now mk asked asked' =
     tx_bind (dbtx ''ensure'' (EnsureBalance tid wid iid w)) (\<lambda>_.
     tx_bind (dbtx ''lock'' (LockBalance tid wid iid)) (\<lambda>onHandRaw.
     let onHand = pg_Qty D onHandRaw in
     tx_bind (tx_guard (\<not> qIsNegative D (qAdd D onHand delta)) (InsufficientStock onHand asked)) (\<lambda>_.
     tx_bind new_uuid (\<lambda>newid.
     tx_bind (tx_lift wrapInsertError (InsertMovement w (mk newid))) (\<lambda>row.
     tx_bind (tx_lift (\<lambda>e. wrapBalanceError e onHand asked')
       (ApplyMovementToBalance tid wid iid (DecimalOf D delta) now)) (\<lambda>newOnHand.
     tx_return (row, newOnHand)))))))"

definition movement_of_request :: "'d decimal_lib \<Rightarrow> uuid \<Rightarrow> uuid \<Rightarrow> 'd record_request \<Rightarrow> 'd qty \<Rightarrow> uuid \<Rightarrow> movement_row" where
  "movement_of_request D tid wid req delta newid = \<lparr>mv_id = newid, mv_tenant = tid, mv_warehouse = wid,
     mv_item = rqItem req, mv_type = rqType req, mv_qty = DecimalOf D delta,
     mv_occurred_at = rqOccurredAt req, mv_created_at = 0, mv_created_by = rqCreatedBy req,
     mv_reason = nullString (rqReason req), mv_comment = rqComment req, mv_order = rqOrder req,
     mv_count = rqCount req, mv_reverses = None, mv_idempotency_key = nullString (rqKey req)\<rparr>"

definition record_new :: "'d decimal_lib \<Rightarrow> 'd stock_service \<Rightarrow> instant \<Rightarrow> tenant \<Rightarrow> 'd record_request \<Rightarrow>
    ('d, 'd record_result) stock_tx" where
  "record_new D s w t req = (let tid = tenantID t; delta = signedQty D (rqType req) (rqQty req) in
     tx_bind (tx_get (GetItem tid (rqItem req))) (\<lambda>found.
     tx_bind (tx_of_sum (from_opt ErrItemNotFound found)) (\<lambda>item.
     tx_bind (tx_guard (it_archived_at item = None) ErrItemArchived) (\<lambda>_.
     tx_bind (tx_get (GetDefaultWarehouse tid)) (\<lambda>wh.
     tx_bind (tx_of_sum (from_opt (Wrapped ''warehouse'' (DB NoRows)) wh)) (\<lambda>warehouse.
     tx_bind (book D w tid (wh_id warehouse) (rqItem req) delta (clock_Now (ssClock s) w)
        (movement_of_request D tid (wh_id warehouse) req delta) (qAbs D (rqQty req)) (rqQty req)) (\<lambda>(row, newOnHand).
     tx_bind (tx_lift (Wrapped ''status'') (ssStatus s w t (rqItem req))) (\<lambda>status.
     tx_return \<lparr>rrMovement = (movementFromRow D row)\<lparr>mItemName := it_name item, mBaseUnit := it_base_unit item\<rparr>,
       rrBalance = \<lparr>blItem = rqItem req, blOnHand = pg_Qty D newOnHand, blOnOrder = qZero D,
                    blUpdatedAt = clock_Now (ssClock s) w\<rparr>,
       rrStatus = status, rrDuplicate = False\<rparr>))))))))"

definition recordTx :: "'d decimal_lib \<Rightarrow> 'd stock_service \<Rightarrow> instant \<Rightarrow> tenant \<Rightarrow> 'd record_request \<Rightarrow>
    ('d, 'd record_result) stock_tx" where
  "recordTx D s w t req =
     tx_bind (tx_get (\<lambda>st. if rqKey req = [] then None
       else GetMovementByIdempotencyKey (tenantID t) (rqKey req) st)) (\<lambda>existing.
     case existing of
       Some m \<Rightarrow> tx_bind (readBalance D (tenantID t) (mv_item m)) (\<lambda>b.
         tx_return \<lparr>rrMovement = movementFromRow D m, rrBalance = b,
           rrStatus = \<lparr>snCode = [], snStockoutDate = None, snOrderBy = None, snRecommendedQty = qZero D\<rparr>,
           rrDuplicate = True\<rparr>)
     | None \<Rightarrow> record_new D s w t req)"

definition RecordInTx :: "'d decimal_lib \<Rightarrow> 'd stock_service \<Rightarrow> instant \<Rightarrow> tenant \<Rightarrow> 'd record_request \<Rightarrow>
    ('d, 'd record_result) stock_tx" where
  "RecordInTx D s w t req = tx_bind (tx_of_sum (validate D s w t req)) (recordTx D s w t)"

definition Record :: "'d decimal_lib \<Rightarrow> 'd stock_service \<Rightarrow> instant \<Rightarrow> tenant \<Rightarrow> 'd record_request \<Rightarrow> 'd db \<Rightarrow>
    ('d app_error + 'd record_result) \<times> 'd db" where
  "Record D s w t req st = (case validate D s w t req of
       Inl e \<Rightarrow> (Inl e, st)
     | Inr req' \<Rightarrow> InTenantTx (recordTx D s w t req') st)"

section \<open>Reverse\<close>

text \<open>\<open>Format("02.01.2006 15:04")\<close>.\<close>

definition format_minute :: "instant \<Rightarrow> location \<Rightarrow> string" where
  "format_minute i loc = (case local_date i loc of (y, m, d) \<Rightarrow>
     append_int d 2 @ ''.'' @ append_int m 2 @ ''.'' @ append_int y 4 @ '' '' @
     append_int (local_hour i loc) 2 @ '':'' @ append_int (local_minute i loc) 2)"

definition reversal_prefix :: string where
  "reversal_prefix = utf8 [1057, 1090, 1086, 1088, 1085, 1086, 32, 1076, 1074, 1080, 1078, 1077, 1085, 1080, 1103,
       32, 1086, 1090, 32]"

definition reversal_of :: "'d decimal_lib \<Rightarrow> 'd stock_service \<Rightarrow> uuid \<Rightarrow> movement_row \<Rightarrow> 'd qty \<Rightarrow> instant \<Rightarrow> uuid \<Rightarrow> uuid \<Rightarrow> movement_row" where
  "reversal_of D s tid original delta now by_id newid = \<lparr>mv_id = newid, mv_tenant = tid,
     mv_warehouse = mv_warehouse original, mv_item = mv_item original, mv_type = TypeReversal,
     mv_qty = DecimalOf D delta, mv_occurred_at = now, mv_created_at = 0, mv_created_by = Some by_id,
     mv_reason = mv_reason original,
     mv_comment = reversal_prefix @ format_minute (mv_occurred_at original) (ssLocal s),
     mv_order = None, mv_count = None, mv_reverses = Some (mv_id original), mv_idempotency_key = None\<rparr>"

definition reverseTx :: "'d decimal_lib \<Rightarrow> 'd stock_service \<Rightarrow> instant \<Rightarrow> tenant \<Rightarrow> uuid \<Rightarrow> uuid \<Rightarrow> bool \<Rightarrow>
    ('d, 'd record_result) stock_tx" where
  "reverseTx D s w t movementID by_id canReverseOthers = (let tid = tenantID t; now = clock_Now (ssClock s) w in
     tx_bind (tx_get (GetMovement tid movementID)) (\<lambda>found.
     tx_bind (tx_of_sum (from_opt ErrItemNotFound found)) (\<lambda>original.
     tx_bind (tx_guard (mv_type original \<noteq> TypeReversal) ErrCannotReverse) (\<lambda>_.
     tx_bind (tx_guard (canReverseOthers \<or> mv_created_by original = Some by_id) ErrCannotReverse) (\<lambda>_.
     tx_bind (tx_get (GetReversalOf tid movementID)) (\<lambda>prev.
     tx_bind (tx_guard (prev = None) ErrAlreadyReversed) (\<lambda>_.
     let delta = qNeg D (pg_Qty D (mv_qty original)) in
     tx_bind (book D w tid (mv_warehouse original) (mv_item original) delta now
        (reversal_of D s tid original delta now by_id) (qAbs D delta) (qAbs D delta)) (\<lambda>(row, newOnHand).
     tx_bind (tx_lift (Wrapped ''status'') (ssStatus s w t (mv_item original))) (\<lambda>status.
     tx_return \<lparr>rrMovement = movementFromRow D row,
       rrBalance = \<lparr>blItem = mv_item original, blOnHand = pg_Qty D newOnHand, blOnOrder = qZero D,
                    blUpdatedAt = now\<rparr>,
       rrStatus = status, rrDuplicate = False\<rparr>)))))))))"

definition Reverse :: "'d decimal_lib \<Rightarrow> 'd stock_service \<Rightarrow> instant \<Rightarrow> tenant \<Rightarrow> uuid \<Rightarrow> uuid \<Rightarrow> bool \<Rightarrow> 'd db \<Rightarrow>
    ('d app_error + 'd record_result) \<times> 'd db" where
  "Reverse D s w t movementID by_id canReverseOthers =
     InTenantTx (reverseTx D s w t movementID by_id canReverseOthers)"

end
