(* ===== verification/Cursor.thy ===== *)
theory Cursor
  imports Calendar
begin

text \<open>
  The cursor of the movement journal, \<open>encodeCursor\<close> and \<open>decodeCursor\<close> of
  \<open>internal/stock/query.go\<close>, with what they use of the standard library: raw URL base64,
  the layout RFC 3339 with nanoseconds in UTC, and \<open>strings.Cut\<close>. The text of UUIDs belongs to
  the package google/uuid and is a parameter.
\<close>

section \<open>Raw URL base64\<close>

definition b64_alphabet :: string where
  "b64_alphabet = ''ABCDEFGHIJKLMNOPQRSTUVWXYZabcdefghijklmnopqrstuvwxyz0123456789-_''"

fun b64_groups :: "nat list \<Rightarrow> nat list" where
  "b64_groups [] = []"
| "b64_groups [a] = [a div 4, a mod 4 * 16]"
| "b64_groups [a, b] = [a div 4, a mod 4 * 16 + b div 16, b mod 16 * 4]"
| "b64_groups (a # b # c # r) =
     a div 4 # (a mod 4 * 16 + b div 16) # (b mod 16 * 4 + c div 64) # c mod 64 # b64_groups r"

text \<open>The last group may be short, but not a single character; its spare bits are not looked at.\<close>

fun b64_bytes :: "nat list \<Rightarrow> nat list option" where
  "b64_bytes [] = Some []"
| "b64_bytes [x] = None"
| "b64_bytes [x, y] = Some [x * 4 + y div 16]"
| "b64_bytes [x, y, z] = Some [x * 4 + y div 16, y mod 16 * 16 + z div 4]"
| "b64_bytes (x # y # z # w # r) = (case b64_bytes r of None \<Rightarrow> None
     | Some bs \<Rightarrow> Some ((x * 4 + y div 16) # (y mod 16 * 16 + z div 4) # (z mod 4 * 64 + w) # bs))"

definition EncodeToString :: "string \<Rightarrow> string" where
  "EncodeToString s = map ((!) b64_alphabet) (b64_groups (map of_char s))"

fun position_of :: "char \<Rightarrow> string \<Rightarrow> nat option" where
  "position_of c [] = None"
| "position_of c (x # xs) = (if x = c then Some 0 else map_option Suc (position_of c xs))"

fun all_positions :: "string \<Rightarrow> nat list option" where
  "all_positions [] = Some []"
| "all_positions (c # cs) = (case position_of c b64_alphabet of None \<Rightarrow> None
     | Some n \<Rightarrow> map_option ((#) n) (all_positions cs))"

text \<open>Line ends are skipped.\<close>

definition DecodeString :: "string \<Rightarrow> string option" where
  "DecodeString s = (case all_positions (filter (\<lambda>c. c \<noteq> CHR 0x0A \<and> c \<noteq> CHR 0x0D) s) of
       None \<Rightarrow> None | Some ns \<Rightarrow> map_option (map char_of) (b64_bytes ns))"

lemma b64_split: "y < n \<Longrightarrow> (x * n + y) div n = x" "y < n \<Longrightarrow> (x * n + y) mod n = (y :: nat)"
  by simp_all

lemma b64_groups_bytes: "\<forall>x \<in> set bs. x < 256 \<Longrightarrow> b64_bytes (b64_groups bs) = Some bs"
proof (induction bs rule: b64_groups.induct)
  case (3 a b)
  then have "b div 16 < 16" by (simp add: div_less_iff_less_mult)
  then show ?case by (simp add: b64_split)
next
  case (4 a b c r)
  then have "b div 16 < 16" "c div 64 < 4" by (simp_all add: div_less_iff_less_mult)
  with 4 show ?case by (simp add: b64_split)
qed simp_all

lemma b64_groups_less: "\<forall>x \<in> set bs. x < 256 \<Longrightarrow> \<forall>n \<in> set (b64_groups bs). n < 64"
proof (induction bs rule: b64_groups.induct)
  case (4 a b c r)
  then show ?case by auto
qed auto

lemma position_alphabet: "n < 64 \<Longrightarrow> position_of (b64_alphabet ! n) b64_alphabet = Some n"
proof -
  have "\<forall>n \<in> set [0..<64]. position_of (b64_alphabet ! n) b64_alphabet = Some n" by code_simp
  moreover assume "n < 64"
  ultimately show ?thesis by simp
qed

lemma alphabet_no_line_end: "n < 64 \<Longrightarrow> b64_alphabet ! n \<noteq> CHR 0x0A \<and> b64_alphabet ! n \<noteq> CHR 0x0D"
proof -
  have "\<forall>n \<in> set [0..<64]. b64_alphabet ! n \<noteq> CHR 0x0A \<and> b64_alphabet ! n \<noteq> CHR 0x0D" by code_simp
  moreover assume "n < 64"
  ultimately show ?thesis by simp
qed

lemma all_positions_alphabet:
  "\<forall>n \<in> set ns. n < 64 \<Longrightarrow>
     all_positions (filter (\<lambda>c. c \<noteq> CHR 0x0A \<and> c \<noteq> CHR 0x0D) (map ((!) b64_alphabet) ns)) = Some ns"
  by (induction ns) (simp_all add: position_alphabet alphabet_no_line_end)

lemma Decode_Encode: "DecodeString (EncodeToString s) = Some s"
proof -
  have b: "\<forall>x \<in> set (map of_char s). (x :: nat) < 256" by auto
  then have "all_positions (filter (\<lambda>c. c \<noteq> CHR 0x0A \<and> c \<noteq> CHR 0x0D) (EncodeToString s)) = Some (b64_groups (map of_char s))"
    unfolding EncodeToString_def by (intro all_positions_alphabet b64_groups_less)
  then show ?thesis by (simp add: DecodeString_def b64_groups_bytes[OF b] comp_def)
qed

lemma Encode_nonempty: "s \<noteq> [] \<Longrightarrow> EncodeToString s \<noteq> []"
  by (cases "map of_char s :: nat list" rule: b64_groups.cases) (auto simp: EncodeToString_def)

section \<open>RFC 3339 with nanoseconds\<close>

definition format_fraction :: "int \<Rightarrow> string" where
  "format_fraction ns = (if ns = 0 then []
     else CHR ''.'' # rev (dropWhile (\<lambda>c. c = CHR ''0'') (rev (pad_digits 9 ns))))"

definition local_second :: "instant \<Rightarrow> location \<Rightarrow> int" where
  "local_second t loc = local_seconds t loc mod 60"

definition FormatRFC3339Nano :: "instant \<Rightarrow> string" where
  "FormatRFC3339Nano t = (case local_date t UTC of (y, m, d) \<Rightarrow>
     append_int y 4 @ ''-'' @ append_int m 2 @ ''-'' @ append_int d 2 @ ''T'' @
     append_int (local_hour t UTC) 2 @ '':'' @ append_int (local_minute t UTC) 2 @ '':'' @
     append_int (local_second t UTC) 2 @ format_fraction (t mod second) @ ''Z'')"

text \<open>\<open>parse_date\<close> without the end of the text.\<close>

definition parse_date_prefix :: "string \<Rightarrow> ((int \<times> int \<times> int) \<times> string) option" where
  "parse_date_prefix s = (if length s < 4 \<or> \<not> list_all is_digit (take 4 s) then None else
     case skip_char CHR ''-'' (drop 4 s) of None \<Rightarrow> None | Some s1 \<Rightarrow>
     case getnum True s1 of None \<Rightarrow> None | Some (m, s2) \<Rightarrow>
     if m \<le> 0 \<or> 12 < m then None else
     case skip_char CHR ''-'' s2 of None \<Rightarrow> None | Some s3 \<Rightarrow>
     case getnum True s3 of None \<Rightarrow> None | Some (d, s4) \<Rightarrow>
     Some ((digits_val (take 4 s), m, d), s4))"

definition parse_time_prefix :: "string \<Rightarrow> ((int \<times> int \<times> int) \<times> string) option" where
  "parse_time_prefix s = (case getnum False s of None \<Rightarrow> None | Some (h, s1) \<Rightarrow>
     if h < 0 \<or> 24 \<le> h then None else
     case skip_char CHR '':'' s1 of None \<Rightarrow> None | Some s2 \<Rightarrow>
     case getnum True s2 of None \<Rightarrow> None | Some (m, s3) \<Rightarrow>
     if m < 0 \<or> 60 \<le> m then None else
     case skip_char CHR '':'' s3 of None \<Rightarrow> None | Some s4 \<Rightarrow>
     case getnum True s4 of None \<Rightarrow> None | Some (sec, s5) \<Rightarrow>
     if sec < 0 \<or> 60 \<le> sec then None else Some ((h, m, sec), s5))"

text \<open>A fraction of any length, of which nine digits count.\<close>

definition parse_fraction :: "string \<Rightarrow> int \<times> string" where
  "parse_fraction s = (case s of
       p # d # r \<Rightarrow> if (p = CHR ''.'' \<or> p = CHR '','') \<and> is_digit d then
          (let ds = takeWhile is_digit (d # r); used = take 9 ds
           in (digits_val used * 10 ^ (9 - length used), drop (length ds) (d # r)))
          else (0, s)
     | _ \<Rightarrow> (0, s))"

text \<open>\<open>Z07:00\<close>: \<open>Z\<close> or a signed offset; the offset in seconds.\<close>

definition parse_zone :: "string \<Rightarrow> (int \<times> string) option" where
  "parse_zone s = (case s of
       [] \<Rightarrow> None
     | c # r \<Rightarrow> if c = CHR ''Z'' then Some (0, r) else
         if length s < 6 \<or> s ! 3 \<noteq> CHR '':'' then None else
         case getnum True (take 2 r) of None \<Rightarrow> None | Some (h, _) \<Rightarrow>
         case getnum True (take 2 (drop 4 s)) of None \<Rightarrow> None | Some (m, _) \<Rightarrow>
         if 24 < h \<or> 60 < m then None else
         if c = CHR ''+'' then Some ((h * 60 + m) * 60, drop 6 s)
         else if c = CHR ''-'' then Some (- ((h * 60 + m) * 60), drop 6 s) else None)"

definition ParseRFC3339Nano :: "string \<Rightarrow> instant option" where
  "ParseRFC3339Nano s = (case parse_date_prefix s of None \<Rightarrow> None | Some ((y, m, d), s1) \<Rightarrow>
     case skip_char CHR ''T'' s1 of None \<Rightarrow> None | Some s2 \<Rightarrow>
     case parse_time_prefix s2 of None \<Rightarrow> None | Some ((h, mi, sec), s3) \<Rightarrow>
     let (ns, s4) = parse_fraction s3 in
     case parse_zone s4 of None \<Rightarrow> None | Some (off, s5) \<Rightarrow>
     if s5 \<noteq> [] \<or> d < 1 \<or> days_in m y < d then None
     else Some (time_date y m d h mi sec ns UTC - off * second))"

section \<open>The cursor\<close>

record uuid_lib =
  uString :: "nat \<Rightarrow> string"
  uParse :: "string \<Rightarrow> nat option"

definition encodeCursor :: "uuid_lib \<Rightarrow> instant \<Rightarrow> nat \<Rightarrow> string" where
  "encodeCursor U t i = EncodeToString (FormatRFC3339Nano t @ ''|'' @ uString U i)"

text \<open>\<open>None\<close> is the returned \<open>ErrBadCursor\<close>; the empty cursor gives no bound.\<close>

definition decodeCursor :: "uuid_lib \<Rightarrow> string \<Rightarrow> (instant \<times> nat) option option" where
  "decodeCursor U cursor = (if cursor = [] then Some None else
     case DecodeString cursor of None \<Rightarrow> None | Some raw \<Rightarrow>
     if CHR ''|'' \<notin> set raw then None else
     let t = takeWhile (\<lambda>c. c \<noteq> CHR ''|'') raw; idStr = drop (length t + 1) raw in
     case ParseRFC3339Nano t of None \<Rightarrow> None | Some t' \<Rightarrow>
     case uParse U idStr of None \<Rightarrow> None | Some i \<Rightarrow> Some (Some (t', i)))"

section \<open>Round trip\<close>

lemma digits_val_append_zeros: "digits_val (xs @ replicate k CHR ''0'') = digits_val xs * 10 ^ k"
proof (induction k)
  case (Suc k)
  have "xs @ replicate (Suc k) CHR ''0'' = (xs @ replicate k CHR ''0'') @ ''0''"
    by (metis append_assoc replicate_Suc replicate_append_same)
  then have "digits_val (xs @ replicate (Suc k) CHR ''0'') = digits_val (xs @ replicate k CHR ''0'') * 10"
    by (simp only: digits_val_def foldl_append) simp
  with Suc show ?case by simp
qed simp

lemma strip_zeros:
  obtains k where "s = rev (dropWhile (\<lambda>c. c = CHR ''0'') (rev s)) @ replicate k CHR ''0''"
proof -
  let ?t = "takeWhile (\<lambda>c. c = CHR ''0'') (rev s)"
  have "takeWhile (\<lambda>c. c = CHR ''0'') xs = replicate (length (takeWhile (\<lambda>c. c = CHR ''0'') xs)) CHR ''0''" for xs
    by (induction xs) auto
  then have "?t = replicate (length ?t) CHR ''0''" .
  moreover have "s = rev (?t @ dropWhile (\<lambda>c. c = CHR ''0'') (rev s))" by simp
  ultimately have "s = rev (dropWhile (\<lambda>c. c = CHR ''0'') (rev s)) @ replicate (length ?t) CHR ''0''"
    by (metis rev_append rev_replicate)
  then show thesis by (rule that)
qed

lemma takeWhile_digits: "list_all is_digit xs \<Longrightarrow> \<not> is_digit c \<Longrightarrow> takeWhile is_digit (xs @ c # r) = xs"
  by (induction xs) auto

lemma parse_format_fraction:
  assumes "0 \<le> ns" and "ns < 10 ^ 9"
  shows "parse_fraction (format_fraction ns @ ''Z'') = (ns, ''Z'')"
proof (cases "ns = 0")
  case True
  then show ?thesis by (simp add: format_fraction_def parse_fraction_def)
next
  case False
  define s where "s = pad_digits 9 ns"
  define ds where "ds = rev (dropWhile (\<lambda>c. c = CHR ''0'') (rev s))"
  obtain k where k: "s = ds @ replicate k CHR ''0''" unfolding ds_def by (rule strip_zeros)
  have s: "list_all is_digit s" "digits_val s = ns" "length s = 9"
    using pad_digits_correct[of ns 9] pad_digits_length[of ns 9] assms by (simp_all add: s_def)
  have len: "length ds + k = 9" using s(3) k by (metis length_append length_replicate)
  have dig: "list_all is_digit ds" using s(1) k by simp
  have val: "digits_val ds * 10 ^ (9 - length ds) = ns"
    using s(2) len unfolding k digits_val_append_zeros by (simp flip: len)
  have "ds \<noteq> []"
  proof
    assume "ds = []"
    then have "ns = 0" using val by (simp add: digits_val_def)
    with False show False by simp
  qed
  then obtain d r where dr: "ds = d # r" by (cases ds) auto
  have tw: "takeWhile is_digit (ds @ ''Z'') = ds" by (rule takeWhile_digits[OF dig]) (simp add: is_digit_def)
  have "format_fraction ns @ ''Z'' = CHR ''.'' # ds @ ''Z''"
    using False by (simp add: format_fraction_def ds_def s_def)
  also have "parse_fraction \<dots> = (digits_val (take 9 ds) * 10 ^ (9 - length (take 9 ds)), drop (length ds) (ds @ ''Z''))"
    using tw dig by (simp add: parse_fraction_def dr Let_def)
  also have "\<dots> = (ns, ''Z'')" using val len by simp
  finally show ?thesis .
qed

lemma div_below:
  fixes x :: int
  assumes "0 \<le> x" and "x < k * n" and "0 < n"
  shows "0 \<le> x div n \<and> x div n < k"
proof -
  have "x div n * n \<le> x"
    using pos_mod_sign[OF assms(3), of x] div_mult_mod_eq[of x n] by linarith
  then have "x div n * n < k * n" using assms(2) by linarith
  then show ?thesis using assms by (simp add: pos_imp_zdiv_nonneg_iff)
qed

lemma seconds_split:
  fixes s :: int
  shows "s mod 86400 div 3600 * 3600 + s mod 3600 div 60 * 60 + s mod 60 = s mod 86400"
proof -
  have a: "s mod 86400 mod 3600 = s mod 3600" by (simp add: mod_mod_cancel)
  have b: "s mod 3600 mod 60 = s mod 60" by (simp add: mod_mod_cancel)
  have "s mod 86400 div 3600 * 3600 + s mod 3600 = s mod 86400"
    using div_mult_mod_eq[of "s mod 86400" 3600] by (simp only: a)
  moreover have "s mod 3600 div 60 * 60 + s mod 60 = s mod 3600"
    using div_mult_mod_eq[of "s mod 3600" 60] by (simp only: b)
  ultimately show ?thesis by simp
qed

text \<open>The instants whose year has four digits.\<close>

definition cursor_time :: "instant \<Rightarrow> bool" where
  "cursor_time t \<longleftrightarrow> 0 \<le> fst (local_date t UTC) \<and> fst (local_date t UTC) \<le> 9999"

lemma Format_shape:
  assumes "cursor_time t"
  obtains y m d h mi sec ns where
    "FormatRFC3339Nano t = pad_digits 4 y @ CHR ''-'' # pad_digits 2 m @ CHR ''-'' # pad_digits 2 d @ CHR ''T'' #
      pad_digits 2 h @ CHR '':'' # pad_digits 2 mi @ CHR '':'' # pad_digits 2 sec @ format_fraction ns @ ''Z''"
    and "0 \<le> y" "y \<le> 9999" "1 \<le> m" "m \<le> 12" "1 \<le> d" "d \<le> days_in m y" "d < 100"
    and "0 \<le> h" "h < 24" "0 \<le> mi" "mi < 60" "0 \<le> sec" "sec < 60" "0 \<le> ns" "ns < 10 ^ 9"
    and "time_date y m d h mi sec ns UTC = t"
proof -
  define s where "s = t div second"
  define h where "h = s mod 86400 div 3600"
  define mi where "mi = s mod 3600 div 60"
  define sec where "sec = s mod 60"
  define ns where "ns = t mod second"
  obtain y m d where c: "civil_of_days (s div 86400) = (y, m, d)" by (cases "civil_of_days (s div 86400)") auto
  have ls: "local_seconds t UTC = s" by (simp add: local_seconds_def s_def)
  have ld: "local_date t UTC = (y, m, d)" by (simp add: local_date_def ls seconds_per_day_def c)
  have y: "0 \<le> y" "y \<le> 9999" using assms by (simp_all add: cursor_time_def ld)
  have v: "valid_civil y m d" and cd: "civil_to_days y m d = s div 86400"
    using civil_of_days_valid[of "s div 86400"] by (simp_all add: c)
  have md: "1 \<le> m" "m \<le> 12" "1 \<le> d" "d \<le> days_in m y" "d < 100"
    using v days_in_le[of m y] by (auto simp: valid_civil_def)
  have r1: "0 \<le> h \<and> h < 24" unfolding h_def by (rule div_below) simp_all
  have r2: "0 \<le> mi \<and> mi < 60" unfolding mi_def by (rule div_below) simp_all
  have r3: "0 \<le> sec \<and> sec < 60" unfolding sec_def by simp
  have r4: "0 \<le> ns \<and> ns < 10 ^ 9" unfolding ns_def second_def by simp
  note r = r1[THEN conjunct1] r1[THEN conjunct2] r2[THEN conjunct1] r2[THEN conjunct2]
    r3[THEN conjunct1] r3[THEN conjunct2] r4[THEN conjunct1] r4[THEN conjunct2]
  have f: "FormatRFC3339Nano t = pad_digits 4 y @ CHR ''-'' # pad_digits 2 m @ CHR ''-'' # pad_digits 2 d @ CHR ''T'' #
      pad_digits 2 h @ CHR '':'' # pad_digits 2 mi @ CHR '':'' # pad_digits 2 sec @ format_fraction ns @ ''Z''"
    using y md r by (simp add: FormatRFC3339Nano_def ld append_int_def local_hour_def local_minute_def
        local_second_def ls seconds_per_day_def h_def mi_def sec_def ns_def)
  have "time_date y m d h mi sec ns UTC = (s div 86400 * 86400 + (h * 3600 + mi * 60 + sec)) * second + ns"
    by (simp add: time_date_UTC cd seconds_per_day_def)
  also have "h * 3600 + mi * 60 + sec = s mod 86400" unfolding h_def mi_def sec_def by (rule seconds_split)
  also have "s div 86400 * 86400 + s mod 86400 = s" by simp
  also have "s * second + ns = t" by (simp add: s_def ns_def)
  finally have td: "time_date y m d h mi sec ns UTC = t" .
  from f y md r td show thesis by (rule that)
qed

lemma Parse_Format:
  assumes "cursor_time t"
  shows "ParseRFC3339Nano (FormatRFC3339Nano t) = Some t"
proof (rule Format_shape[OF assms])
  fix y m d h mi sec ns
  assume f: "FormatRFC3339Nano t = pad_digits 4 y @ CHR ''-'' # pad_digits 2 m @ CHR ''-'' # pad_digits 2 d @ CHR ''T'' #
      pad_digits 2 h @ CHR '':'' # pad_digits 2 mi @ CHR '':'' # pad_digits 2 sec @ format_fraction ns @ ''Z''"
    and y: "0 \<le> y" "y \<le> 9999" and md: "1 \<le> m" "m \<le> 12" "1 \<le> d" "d \<le> days_in m y" "d < 100"
    and r: "0 \<le> h" "h < 24" "0 \<le> mi" "mi < 60" "0 \<le> sec" "sec < 60" "0 \<le> ns" "ns < 10 ^ 9"
    and td: "time_date y m d h mi sec ns UTC = t"
  define Y where "Y = pad_digits 4 y"
  have Y: "length Y = 4" "list_all is_digit Y" "digits_val Y = y"
    using pad_digits_length[of y 4] pad_digits_correct[of y 4] y by (simp_all add: Y_def)
  have p1: "parse_date_prefix (Y @ CHR ''-'' # pad_digits 2 m @ CHR ''-'' # pad_digits 2 d @ rest) = Some ((y, m, d), rest)" for rest
    using Y md getnum_pad[of m True] getnum_pad[of d True rest] by (simp add: parse_date_prefix_def)
  have p2: "parse_time_prefix (pad_digits 2 h @ CHR '':'' # pad_digits 2 mi @ CHR '':'' # pad_digits 2 sec @ rest)
      = Some ((h, mi, sec), rest)" for rest
    using r getnum_pad[of h False] getnum_pad[of mi True] getnum_pad[of sec True rest]
    by (simp add: parse_time_prefix_def)
  show "ParseRFC3339Nano (FormatRFC3339Nano t) = Some t"
    unfolding f Y_def[symmetric] ParseRFC3339Nano_def p1
    using md r p2 parse_format_fraction[OF r(7,8)] td by (simp add: parse_zone_def)
qed

lemma pad_digits_set: "0 \<le> n \<Longrightarrow> c \<in> set (pad_digits k n) \<Longrightarrow> is_digit c"
  using pad_digits_correct[of n k] by (auto simp: list_all_iff)

lemma format_fraction_set: "0 \<le> n \<Longrightarrow> c \<in> set (format_fraction n) \<Longrightarrow> is_digit c \<or> c = CHR ''.''"
  using pad_digits_set by (auto simp: format_fraction_def dest!: set_dropWhileD split: if_splits)

lemma Format_no_bar:
  assumes "cursor_time t"
  shows "CHR ''|'' \<notin> set (FormatRFC3339Nano t)"
proof (rule Format_shape[OF assms])
  fix y m d h mi sec ns
  assume f: "FormatRFC3339Nano t = pad_digits 4 y @ CHR ''-'' # pad_digits 2 m @ CHR ''-'' # pad_digits 2 d @ CHR ''T'' #
      pad_digits 2 h @ CHR '':'' # pad_digits 2 mi @ CHR '':'' # pad_digits 2 sec @ format_fraction ns @ ''Z''"
    and n: "0 \<le> y" "1 \<le> m" "1 \<le> d" "0 \<le> h" "0 \<le> mi" "0 \<le> sec" "0 \<le> ns"
  have "\<not> is_digit CHR ''|''" by code_simp
  then have "CHR ''|'' \<notin> set (pad_digits k x)" if "0 \<le> x" for k x using pad_digits_set[OF that] by blast
  moreover have "CHR ''|'' \<notin> set (format_fraction ns)"
    using format_fraction_set[OF n(7), of "CHR ''|''"] \<open>\<not> is_digit CHR ''|''\<close> by auto
  ultimately show "CHR ''|'' \<notin> set (FormatRFC3339Nano t)" unfolding f using n by simp
qed

text \<open>The law of google/uuid that the cursor relies on.\<close>

definition uuid_text :: "uuid_lib \<Rightarrow> bool" where
  "uuid_text U \<longleftrightarrow> (\<forall>i. uParse U (uString U i) = Some i)"

lemma uString_inject: "uuid_text U \<Longrightarrow> uString U i = uString U j \<longleftrightarrow> i = j"
  by (metis option.inject uuid_text_def)

lemma decode_encode:
  assumes "uuid_text U" and "cursor_time t"
  shows "decodeCursor U (encodeCursor U t i) = Some (Some (t, i))"
proof -
  let ?f = "FormatRFC3339Nano t"
  have bar: "CHR ''|'' \<notin> set ?f" by (rule Format_no_bar[OF assms(2)])
  then have tw: "takeWhile (\<lambda>c. c \<noteq> CHR ''|'') (?f @ ''|'' @ uString U i) = ?f"
    by (induction ?f) (auto simp: takeWhile_append)
  have "encodeCursor U t i \<noteq> []" unfolding encodeCursor_def by (rule Encode_nonempty) simp
  then show ?thesis
    using assms(1) tw Parse_Format[OF assms(2)]
    by (simp add: decodeCursor_def encodeCursor_def Decode_Encode uuid_text_def Let_def)
qed

end
