(* ===== verification/Replenish.thy ===== *)
theory Replenish
  imports Forecast_Db Stock Cursor
begin

text \<open>
  \<open>internal/replenishment/service.go\<close> and \<open>batch.go\<close>: the recalculation of the status of one
  item inside a transaction, and of all items of a tenant. The service that sends alerts is an
  interface of the source (\<open>Alerter\<close>) and a field here; \<open>nil\<close> is \<open>None\<close>.

  The explanation is stored as a value and not as JSON; of \<open>json.Marshal\<close> its refusal of numbers
  that are not finite is kept.
\<close>

section \<open>Model\<close>

record 'd red_alert =
  raItem :: uuid
  raItemName :: string
  raBaseUnit :: string
  raStatus :: status
  raPreviousStatus :: status
  raOnHand :: "'d qty"
  raStockoutDate :: day
  raSupplierName :: string
  raNextDelivery :: day

type_synonym 'd alerter = "instant \<Rightarrow> tenant \<Rightarrow> 'd red_alert \<Rightarrow> ('d, unit) stock_tx"

record 'd replenish_service =
  rsClock :: clock
  rsAlerter :: "'d alerter option"

definition NewReplenishService :: "clock \<Rightarrow> 'd alerter option \<Rightarrow> 'd replenish_service" where
  "NewReplenishService cl al = \<lparr>rsClock = cl, rsAlerter = al\<rparr>"

section \<open>The input of a decision\<close>

definition weekdaysFromDB :: "int list \<Rightarrow> int list" where
  "weekdaysFromDB days = map (\<lambda>d. d) days"

text \<open>Both the single and the batch path take the window of the supplier, or the one of an item
  without a supplier.\<close>

definition windowFor :: "status_row \<Rightarrow> instant \<Rightarrow> day \<Rightarrow> tenant \<Rightarrow> delivery_window" where
  "windowFor row now today t = (if stSupplier row = None then
       \<lparr>OrderDay = today, D1 = AddDays today 1, D2 = AddDays today 1, OrderBy = now, AfterCutoff = False\<rparr>
     else ComputeWindow now (Some (Loc t))
       \<lparr>LeadTimeDays = or_else 0 (\<lambda>x. x) (stLeadTimeDays row),
        DeliveryWeekdays = weekdaysFromDB (stDeliveryWeekdays row),
        Cutoff = or_else (TimeOfDay 0 0) ClockTime (stOrderCutoff row)\<rparr>)"

definition forecast_points :: "'d decimal_lib \<Rightarrow> forecast_row list \<Rightarrow> 'd fpoint list" where
  "forecast_points D rows = map (\<lambda>r. \<lparr>fpDay = pg_Day (Some (fc_day r)), fpQty = pg_Qty D (fc_qty r)\<rparr>) rows"

definition row_metrics :: "status_row \<Rightarrow> model \<Rightarrow> metrics" where
  "row_metrics row m = \<lparr>metModel = m, WAPE = stWape row, Bias = stBias row, Sigma = stSigma row,
     Alpha = Fin 0, WindowDays = 0, DaysWithData = 0\<rparr>"

definition row_result :: "'d decimal_lib \<Rightarrow> status_row \<Rightarrow> forecast_row list \<Rightarrow> 'd forecast_result" where
  "row_result D row rows = (let points = forecast_points D rows;
       m = (if points = [] then ModelM0 else or_else ModelM0 (\<lambda>x. x) (stMetricsModel row))
     in \<lparr>resModel = m, resPoints = points, resMetrics = row_metrics row m\<rparr>)"

fun deliveries :: "'d decimal_lib \<Rightarrow> (day option \<times> rat) list \<Rightarrow> 'd delivery list" where
  "deliveries D [] = []"
| "deliveries D ((None, _) # rows) = deliveries D rows"
| "deliveries D ((Some d, q) # rows) = \<lparr>dlvDay = d, dlvQty = pg_Qty D q\<rparr> # deliveries D rows"

definition buildInput :: "'d decimal_lib \<Rightarrow> 'd replenish_service \<Rightarrow> instant \<Rightarrow> tenant \<Rightarrow> status_row \<Rightarrow> 'd db \<Rightarrow> 'd reorder_input" where
  "buildInput D s w t row st = (let today = Today t (rsClock s) w; now = tenant_Now t (rsClock s) w; tid = tenantID t in
     \<lparr>inToday = today, inWindow = windowFor row now today t, inOnHand = pg_Qty D (stOnHand row),
      Incoming = deliveries D (ListIncomingForItem tid (stItem row) st),
      inForecast = row_result D row (ListForecastForItem tid (stItem row) today st),
      ConsumedToday = pg_Qty D (SumConsumptionForDay tid (stItem row) (Loc t) today st),
      ServiceLevel = stServiceLevel row, ManualMin = pg_Qty D (stManualMinQty row),
      MinOrder = pg_Qty D (stMinOrderQty row), Pack = pg_Qty D (stPackMultiple row)\<rparr>)"

section \<open>Storing a decision\<close>

definition marshals :: "'d explanation \<Rightarrow> bool" where
  "marshals e \<longleftrightarrow> is_finite (exSigma e) \<and> is_finite (exZ e)"

definition status_params :: "'d decimal_lib \<Rightarrow> 'd replenish_service \<Rightarrow> instant \<Rightarrow> tenant \<Rightarrow> status_row \<Rightarrow> 'd decision \<Rightarrow>
    'd item_status_row" where
  "status_params D s w t row d = \<lparr>is_tenant = tenantID t, is_item = stItem row, is_status = decStatus d,
     is_on_order = DecimalOf D (decOnOrder d), is_stockout_date = NullDate (StockoutDate d),
     is_order_by = (if stSupplier row \<noteq> None \<and> decStatus d = StatusOrderToday then Some (exOrderBy (decExplanation d)) else None),
     is_recommended_qty = DecimalOf D (RecommendedQty d), is_target_level = DecimalOf D (TargetLevel d),
     is_safety_stock = DecimalOf D (SafetyStock d), is_supplier = stSupplier row,
     is_explanation = decExplanation d, is_computed_at = clock_Now (rsClock s) w\<rparr>"

definition persist :: "'d decimal_lib \<Rightarrow> 'd replenish_service \<Rightarrow> instant \<Rightarrow> tenant \<Rightarrow> status_row \<Rightarrow> 'd decision \<Rightarrow>
    ('d, unit) stock_tx" where
  "persist D s w t row d = tx_bind (tx_guard (marshals (decExplanation d)) (Wrapped ''explanation'' Unmarshalable)) (\<lambda>_.
     dbtx ''status'' (UpsertItemStatus (status_params D s w t row d)))"

definition persistBatch :: "'d decimal_lib \<Rightarrow> 'd replenish_service \<Rightarrow> instant \<Rightarrow> tenant \<Rightarrow> status_row \<Rightarrow> 'd decision \<Rightarrow>
    ('d, unit) stock_tx" where
  "persistBatch D s w t row d = tx_bind (tx_guard (marshals (decExplanation d)) (Wrapped ''explanation'' Unmarshalable)) (\<lambda>_.
     tx_lift DB (UpsertItemStatus (status_params D s w t row d)))"

definition red_alert_of :: "'d decimal_lib \<Rightarrow> status_row \<Rightarrow> 'd reorder_input \<Rightarrow> 'd decision \<Rightarrow> status \<Rightarrow> 'd red_alert" where
  "red_alert_of D row inp d previous = \<lparr>raItem = stItem row, raItemName = stItemName row, raBaseUnit = stBaseUnit row,
     raStatus = decStatus d, raPreviousStatus = previous, raOnHand = pg_Qty D (stOnHand row),
     raStockoutDate = StockoutDate d, raSupplierName = or_else [] (\<lambda>x. x) (stSupplierName row),
     raNextDelivery = D1 (inWindow inp)\<rparr>"

definition alert_red :: "'d decimal_lib \<Rightarrow> 'd replenish_service \<Rightarrow> instant \<Rightarrow> tenant \<Rightarrow> status_row \<Rightarrow> 'd reorder_input \<Rightarrow>
    'd decision \<Rightarrow> status \<Rightarrow> ('d, unit) stock_tx" where
  "alert_red D s w t row inp d previous = (case rsAlerter s of
       None \<Rightarrow> tx_return ()
     | Some alert \<Rightarrow> if IsRed (decStatus d) \<and> WorseThan (decStatus d) previous
         then tx_lift (Wrapped ''alert'') (alert w t (red_alert_of D row inp d previous))
         else tx_return ())"

section \<open>One item\<close>

text \<open>\<open>Format(time.RFC3339)\<close>.\<close>

definition format_offset :: "int \<Rightarrow> string" where
  "format_offset off = (if off = 0 then ''Z'' else
     let z = \<bar>off\<bar> div 60 in
     (if off < 0 then ''-'' else ''+'') @ append_int (z div 60) 2 @ '':'' @ append_int (z mod 60) 2)"

definition FormatRFC3339 :: "instant \<Rightarrow> location \<Rightarrow> string" where
  "FormatRFC3339 t loc = (case local_date t loc of (y, m, d) \<Rightarrow>
     append_int y 4 @ ''-'' @ append_int m 2 @ ''-'' @ append_int d 2 @ ''T'' @
     append_int (local_hour t loc) 2 @ '':'' @ append_int (local_minute t loc) 2 @ '':'' @
     append_int (local_second t loc) 2 @ format_offset (local_seconds t loc - t div second))"

definition snapshot :: "'d decision \<Rightarrow> tenant \<Rightarrow> 'd status_snapshot" where
  "snapshot d t = \<lparr>snCode = decStatus d,
     snStockoutDate = (if IsZero (StockoutDate d) then None else Some (day_String (StockoutDate d))),
     snOrderBy = (if decStatus d = StatusOrderToday \<and> exOrderBy (decExplanation d) \<noteq> zero_time
       then Some (FormatRFC3339 (exOrderBy (decExplanation d)) (Loc t)) else None),
     snRecommendedQty = RecommendedQty d\<rparr>"

definition previous_status :: "uuid \<Rightarrow> uuid \<Rightarrow> 'd db \<Rightarrow> status" where
  "previous_status tid iid st = (case GetItemStatus tid iid st of None \<Rightarrow> StatusOK | Some r \<Rightarrow> is_status r)"

definition Recalculate :: "'d decimal_lib \<Rightarrow> 'd replenish_service \<Rightarrow> 'd recalculator" where
  "Recalculate D s w t iid = (let tid = tenantID t in
     tx_bind (tx_get (GetItemForStatus tid iid)) (\<lambda>found.
     tx_bind (tx_of_sum (from_opt ErrItemNotFound found)) (\<lambda>row.
     tx_bind (tx_get (previous_status tid iid)) (\<lambda>previous.
     tx_bind (tx_get (buildInput D s w t row)) (\<lambda>inp.
     tx_bind (tx_of_sum (from_opt Panicked (Decide D inp))) (\<lambda>decision.
     tx_bind (persist D s w t row decision) (\<lambda>_.
     tx_bind (alert_red D s w t row inp decision previous) (\<lambda>_.
     tx_return (snapshot decision t)))))))))"

section \<open>All items\<close>

definition batch_input :: "'d decimal_lib \<Rightarrow> instant \<Rightarrow> day \<Rightarrow> tenant \<Rightarrow> (uuid \<Rightarrow> forecast_row list) \<Rightarrow> (uuid \<Rightarrow> 'd delivery list) \<Rightarrow>
    (uuid \<Rightarrow> 'd qty) \<Rightarrow> status_row \<Rightarrow> 'd reorder_input" where
  "batch_input D now today t fcs incoming consumed row = \<lparr>inToday = today, inWindow = windowFor row now today t,
     inOnHand = pg_Qty D (stOnHand row), Incoming = incoming (stItem row),
     inForecast = row_result D row (fcs (stItem row)), ConsumedToday = consumed (stItem row),
     ServiceLevel = stServiceLevel row, ManualMin = pg_Qty D (stManualMinQty row),
     MinOrder = pg_Qty D (stMinOrderQty row), Pack = pg_Qty D (stPackMultiple row)\<rparr>"

text \<open>The maps that the batch loads once; a missing key reads as the zero value.\<close>

definition loadForecasts :: "uuid \<Rightarrow> day \<Rightarrow> 'd db \<Rightarrow> uuid \<Rightarrow> forecast_row list" where
  "loadForecasts tid today st iid = filter (\<lambda>r. fc_item r = iid) (ListForecastsFrom tid today st)"

definition loadIncoming :: "'d decimal_lib \<Rightarrow> uuid \<Rightarrow> 'd db \<Rightarrow> uuid \<Rightarrow> 'd delivery list" where
  "loadIncoming D tid st iid = deliveries D (map snd (filter (\<lambda>r. fst r = iid) (ListIncomingByItem tid st)))"

definition loadConsumedToday :: "'d decimal_lib \<Rightarrow> uuid \<Rightarrow> location \<Rightarrow> day \<Rightarrow> 'd db \<Rightarrow> uuid \<Rightarrow> 'd qty" where
  "loadConsumedToday D tid tz today st iid = (case map_of (rev (SumConsumptionByItemForDay tid tz today st)) iid of
     None \<Rightarrow> qZero D | Some r \<Rightarrow> pg_Qty D r)"

definition loadPreviousStatuses :: "uuid \<Rightarrow> 'd db \<Rightarrow> uuid \<Rightarrow> status" where
  "loadPreviousStatuses tid st iid = (case map_of (rev (map (\<lambda>r. (is_item r, is_status r)) (ListItemStatuses tid st))) iid of
     None \<Rightarrow> [] | Some s \<Rightarrow> s)"

definition batch_item :: "'d decimal_lib \<Rightarrow> 'd replenish_service \<Rightarrow> instant \<Rightarrow> tenant \<Rightarrow> (status_row \<Rightarrow> 'd reorder_input) \<Rightarrow>
    (uuid \<Rightarrow> status) \<Rightarrow> status_row \<Rightarrow> ('d, unit) stock_tx" where
  "batch_item D s w t mk previous row = (let inp = mk row in
     tx_bind (tx_of_sum (from_opt Panicked (Decide D inp))) (\<lambda>decision.
     tx_bind (persistBatch D s w t row decision) (\<lambda>_.
     alert_red D s w t row inp decision (previous (stItem row)))))"

definition recalculateAllTx :: "'d decimal_lib \<Rightarrow> 'd replenish_service \<Rightarrow> instant \<Rightarrow> tenant \<Rightarrow> ('d, unit) stock_tx" where
  "recalculateAllTx D s w t = (let today = Today t (rsClock s) w; now = tenant_Now t (rsClock s) w; tid = tenantID t in
     tx_bind (tx_get (ListItemsForStatus tid)) (\<lambda>rows.
     if rows = [] then tx_return () else
     tx_bind (tx_get (loadForecasts tid today)) (\<lambda>fcs.
     tx_bind (tx_get (loadIncoming D tid)) (\<lambda>incoming.
     tx_bind (tx_get (loadConsumedToday D tid (Loc t) today)) (\<lambda>consumed.
     tx_bind (tx_get (loadPreviousStatuses tid)) (\<lambda>previous.
     tx_for rows (batch_item D s w t (batch_input D now today t fcs incoming consumed) previous)))))))"

definition RecalculateAll :: "'d decimal_lib \<Rightarrow> 'd replenish_service \<Rightarrow> instant \<Rightarrow> tenant \<Rightarrow> 'd db \<Rightarrow> ('d app_error + unit) \<times> 'd db" where
  "RecalculateAll D s w t = InTenantTx (recalculateAllTx D s w t)"

end
