(* ===== verification/Pipeline.thy ===== *)
theory Pipeline
  imports Forecast_Correct Forecast_Db Replenish
begin

text \<open>
  \<open>internal/forecast/pipeline\<close> (series.go, pipeline.go, store.go): the nightly run. The series of
  daily consumption is rebuilt from the journal, every item gets a forecast, and the forecasts and
  their metrics are stored; then the statuses are recalculated. A Go map that is ranged over is a
  list of its entries, in one of the orders Go may take; \<open>map[clock.Day]qty.Qty\<close> is only read at
  keys and is a function, zero where nothing was stored.
\<close>

section \<open>The series\<close>

record 'd raw_movement =
  rmItem :: uuid
  rmDay :: day
  rmQty :: "'d qty"
  FromCount :: bool

type_synonym 'd daily = "day \<Rightarrow> 'd qty"

definition add_on :: "'d decimal_lib \<Rightarrow> day \<Rightarrow> 'd qty \<Rightarrow> 'd daily \<Rightarrow> 'd daily" where
  "add_on D d q m = m(d := qAdd D (m d) q)"

text \<open>The loop that gives each day before the last one its share.\<close>

function spread_shares :: "'d decimal_lib \<Rightarrow> 'd qty \<Rightarrow> day \<Rightarrow> day \<Rightarrow> 'd daily \<Rightarrow> 'd qty \<Rightarrow> 'd daily \<times> 'd qty" where
  "spread_shares D share d last_day m spread =
     (if Before d last_day then spread_shares D share (AddDays d 1) last_day (add_on D d share m) (qAdd D spread share)
      else (m, spread))"
  by pat_completeness auto
termination
  by (relation "measure (\<lambda>(D, share, d, last_day, m, spread). nat (dnum last_day - dnum d))") (auto simp: Before_num)

declare spread_shares.simps [simp del]

text \<open>The first day of the interval a count speaks for.\<close>

definition count_start :: "day \<Rightarrow> day \<Rightarrow> day" where
  "count_start from_day prevCount = (let start = AddDays prevCount 1 in
     if IsZero prevCount \<or> Before start from_day then from_day else start)"

text \<open>One movement: the series so far and the day of the previous count. \<open>None\<close> is a panic.\<close>

definition distribute_one :: "'d decimal_lib \<Rightarrow> day \<Rightarrow> 'd daily \<times> day \<Rightarrow> 'd raw_movement \<Rightarrow> ('d daily \<times> day) option" where
  "distribute_one D from_day s mv = (case s of (m, prevCount) \<Rightarrow>
     let consumed = qNeg D (rmQty mv) in
     if \<not> FromCount mv then Some (add_on D (rmDay mv) consumed m, prevCount) else
     let start = count_start from_day prevCount in
     if qIsNegative D consumed \<or> After start (rmDay mv) then Some (add_on D (rmDay mv) consumed m, rmDay mv) else
     let days = day_Sub (rmDay mv) start + 1 in
     if days \<le> 1 then Some (add_on D (rmDay mv) consumed m, rmDay mv) else
     (case qMulFloat D consumed (fdiv (Fin 1) (f64_of_int days)) of
        None \<Rightarrow> None
      | Some share \<Rightarrow> (case spread_shares D share start (rmDay mv) m (qZero D) of
          (m', spread) \<Rightarrow> Some (add_on D (rmDay mv) (qSub D consumed spread) m', rmDay mv))))"

fun distribute_all :: "'d decimal_lib \<Rightarrow> day \<Rightarrow> 'd daily \<times> day \<Rightarrow> 'd raw_movement list \<Rightarrow> ('d daily \<times> day) option" where
  "distribute_all D from_day s [] = Some s"
| "distribute_all D from_day s (mv # mvs) = (case distribute_one D from_day s mv of
     None \<Rightarrow> None | Some s' \<Rightarrow> distribute_all D from_day s' mvs)"

definition distribute :: "'d decimal_lib \<Rightarrow> 'd raw_movement list \<Rightarrow> day \<Rightarrow> 'd daily option" where
  "distribute D mvs from_day = map_option fst (distribute_all D from_day (\<lambda>_. qZero D, zero_day) mvs)"

text \<open>The days from the first to the last.\<close>

function day_range :: "day \<Rightarrow> day \<Rightarrow> day list" where
  "day_range d til = (if After d til then [] else d # day_range (AddDays d 1) til)"
  by pat_completeness auto
termination
  by (relation "measure (\<lambda>(d, til). nat (dnum til + 1 - dnum d))") (auto simp: After_num)

declare day_range.simps [simp del]

type_synonym 'd series = "(uuid \<times> 'd observation list) list"

definition observe :: "'d daily \<Rightarrow> day list \<Rightarrow> (uuid \<times> day) list \<Rightarrow> uuid \<Rightarrow> day \<Rightarrow> 'd observation" where
  "observe m daysWithData stockoutDays iid d =
     \<lparr>obsDay = d, obsQty = m d, HasData = d \<in> set daysWithData, Stockout = (iid, d) \<in> set stockoutDays\<rparr>"

definition by_item :: "'d raw_movement list \<Rightarrow> (uuid \<times> 'd raw_movement list) list" where
  "by_item mvs = map (\<lambda>i. (i, filter (\<lambda>m. rmItem m = i) mvs)) (remdups (map rmItem mvs))"

text \<open>A negative capacity of the slice of observations is a panic as well.\<close>

definition buildSeries :: "'d decimal_lib \<Rightarrow> 'd raw_movement list \<Rightarrow> day list \<Rightarrow> (uuid \<times> day) list \<Rightarrow> day \<Rightarrow> day \<Rightarrow>
    'd series option" where
  "buildSeries D mvs daysWithData stockoutDays from_day to_day = those (map (\<lambda>(i, ms).
     Option.bind (distribute D ms from_day) (\<lambda>m. if day_Sub to_day from_day + 1 < 0 then None
       else Some (i, map (observe m daysWithData stockoutDays i) (day_range from_day to_day)))) (by_item mvs))"

section \<open>Rebuilding\<close>

definition saveSeries :: "tenant \<Rightarrow> 'd decimal_lib \<Rightarrow> 'd series \<Rightarrow> ('d, unit) stock_tx" where
  "saveSeries t D series = (let rows = concat (map (\<lambda>(i, obs). map (\<lambda>x. \<lparr>dc_tenant = tenantID t, dc_item = i,
       dc_day = obsDay x, dc_qty = DecimalOf D (obsQty x), dc_has_data = HasData x, dc_stockout = Stockout x\<rparr>) obs) series) in
     if rows = [] then tx_return () else dbtx ''daily'' (BulkUpsertDailyConsumption rows))"

definition raw_movement_of :: "'d decimal_lib \<Rightarrow> uuid \<times> day \<times> rat \<times> uuid option \<Rightarrow> 'd raw_movement" where
  "raw_movement_of D r = (case r of (i, d, q, c) \<Rightarrow> \<lparr>rmItem = i, rmDay = d, rmQty = pg_Qty D q, FromCount = c \<noteq> None\<rparr>)"

text \<open>Items without a movement have an empty series.\<close>

definition with_all_items :: "uuid list \<Rightarrow> 'd series \<Rightarrow> 'd series" where
  "with_all_items ids series = series @ map (\<lambda>i. (i, [])) (remdups (filter (\<lambda>i. i \<notin> fst ` set series) ids))"

definition rebuildSeriesTx :: "'d decimal_lib \<Rightarrow> tenant \<Rightarrow> day \<Rightarrow> day \<Rightarrow> ('d, 'd series) stock_tx" where
  "rebuildSeriesTx D t from_day today = (let tid = tenantID t; tz = Loc t;
       since = day_Time from_day tz; til = day_Time today tz in
     tx_bind (tx_get (ListConsumptionMovementsForSeries tid tz since til)) (\<lambda>rows.
     tx_bind (tx_get (ListDaysWithUsage tid tz since)) (\<lambda>dayRows.
     tx_bind (tx_get (ListStockoutDays tid tz til)) (\<lambda>stockoutRows.
     tx_bind (tx_get (ListActiveItemIDs tid)) (\<lambda>ids.
     tx_bind (tx_of_sum (from_opt Panicked (buildSeries D (map (raw_movement_of D) rows) dayRows stockoutRows
       from_day (AddDays today (- 1))))) (\<lambda>built.
     let series = with_all_items ids built in
     tx_bind (saveSeries t D series) (\<lambda>_.
     tx_bind (dbtx ''old'' (DeleteDailyConsumptionBefore tid from_day)) (\<lambda>_.
     tx_return series))))))))"

definition rebuildSeries :: "'d decimal_lib \<Rightarrow> tenant \<Rightarrow> day \<Rightarrow> day \<Rightarrow> 'd db \<Rightarrow> ('d app_error + 'd series) \<times> 'd db" where
  "rebuildSeries D t from_day today = InTenantTx (rebuildSeriesTx D t from_day today)"

section \<open>Storing the forecasts\<close>

definition int16 :: "nat \<Rightarrow> int" where
  "int16 n = sint (of_nat n :: 16 word)"

definition metrics_row :: "tenant \<Rightarrow> instant \<Rightarrow> uuid \<Rightarrow> 'd forecast_result \<Rightarrow> forecast_metrics_row" where
  "metrics_row t now i r = (let m = resMetrics r in \<lparr>fm_tenant = tenantID t, fm_item = i, fm_model = resModel r,
     fm_wape = WAPE m, fm_bias = Bias m, fm_sigma = Sigma m,
     fm_alpha = (if flt (Fin 0) (Alpha m) then Some (Alpha m) else None),
     fm_window_days = int16 (WindowDays m), fm_days_with_data = int16 (DaysWithData m), fm_computed_at = now\<rparr>)"

definition without_model :: "'d forecast_result \<Rightarrow> bool" where
  "without_model r \<longleftrightarrow> resModel r = ModelM0 \<or> resPoints r = []"

definition point_rows :: "'d decimal_lib \<Rightarrow> tenant \<Rightarrow> instant \<Rightarrow> uuid \<times> 'd forecast_result \<Rightarrow> forecast_row list" where
  "point_rows D t now ir = (case ir of (i, r) \<Rightarrow> map (\<lambda>p. \<lparr>fc_tenant = tenantID t, fc_item = i, fc_day = fpDay p,
     fc_qty = DecimalOf D (fpQty p), fc_model = resModel r, fc_computed_at = now\<rparr>) (resPoints r))"

definition storeAllTx :: "'d decimal_lib \<Rightarrow> tenant \<Rightarrow> (uuid \<times> 'd forecast_result) list \<Rightarrow> day \<Rightarrow> instant \<Rightarrow> ('d, unit) stock_tx" where
  "storeAllTx D t results today now = (
     let withoutModel = map fst (filter (\<lambda>(i, r). without_model r) results);
         rows = concat (map (point_rows D t now) (filter (\<lambda>(i, r). \<not> without_model r) results)) in
     tx_bind (tx_for results (\<lambda>(i, r). dbtx ''metrics'' (UpsertForecastMetrics (metrics_row t now i r)))) (\<lambda>_.
     tx_bind (if withoutModel = [] then tx_return ()
              else dbtx ''clear'' (DeleteForecastsFromForItems (tenantID t) (pg_Date today) withoutModel)) (\<lambda>_.
     if rows = [] then tx_return () else dbtx ''forecasts'' (BulkUpsertForecasts rows))))"

definition storeAll :: "'d decimal_lib \<Rightarrow> tenant \<Rightarrow> (uuid \<times> 'd forecast_result) list \<Rightarrow> day \<Rightarrow> instant \<Rightarrow> 'd db \<Rightarrow>
    ('d app_error + unit) \<times> 'd db" where
  "storeAll D t results today now = InTenantTx (storeAllTx D t results today now)"

section \<open>The run\<close>

text \<open>\<open>StatusRefresher\<close> is an interface of the source; \<open>nil\<close> is \<open>None\<close>.\<close>

type_synonym 'd refresher = "instant \<Rightarrow> tenant \<Rightarrow> 'd db \<Rightarrow> ('d app_error + unit) \<times> 'd db"

record 'd pipeline_service =
  ppClock :: clock
  ppStatuses :: "'d refresher option"

record run_result =
  runItems :: nat
  WithModel :: nat
  AvgWAPE :: f64
  ComputedAt :: instant

definition NewPipelineService :: "clock \<Rightarrow> 'd refresher option \<Rightarrow> 'd pipeline_service" where
  "NewPipelineService cl statuses = \<lparr>ppClock = cl, ppStatuses = statuses\<rparr>"

definition compute_all :: "'d decimal_lib \<Rightarrow> day \<Rightarrow> 'd series \<Rightarrow> (uuid \<times> 'd forecast_result) list option" where
  "compute_all D today series = those (map (\<lambda>(i, obs). map_option (Pair i) (Compute D obs today HorizonDays)) series)"

definition run_totals :: "instant \<Rightarrow> (uuid \<times> 'd forecast_result) list \<Rightarrow> run_result" where
  "run_totals now computed = (let modelled = filter (\<lambda>(i, r). resModel r \<noteq> ModelM0) computed;
       wapeSum = foldl (\<lambda>s (i, r). fadd s (WAPE (resMetrics r))) (Fin 0) modelled in
     \<lparr>runItems = length computed, WithModel = length modelled,
      AvgWAPE = (if modelled = [] then Fin 0 else fdiv wapeSum (f64_of_int (int (length modelled)))), ComputedAt = now\<rparr>)"

text \<open>The series and the forecasts are committed one after the other, and the statuses last: an error
  of a later step leaves what the earlier steps have stored.\<close>

definition Run :: "'d decimal_lib \<Rightarrow> 'd pipeline_service \<Rightarrow> instant \<Rightarrow> tenant \<Rightarrow> 'd db \<Rightarrow> ('d app_error + run_result) \<times> 'd db" where
  "Run D s w t st = (let now = tenant_Now t (ppClock s) w; today = Today t (ppClock s) w;
       from_day = AddDays today (- HistoryDays) in
     (case rebuildSeries D t from_day today st of
        (Inl e, st1) \<Rightarrow> (Inl e, st1)
      | (Inr series, st1) \<Rightarrow> (case compute_all D today series of
          None \<Rightarrow> (Inl Panicked, st1)
        | Some computed \<Rightarrow> (case storeAll D t computed today now st1 of
            (Inl e, st2) \<Rightarrow> (Inl e, st2)
          | (Inr _, st2) \<Rightarrow> (case ppStatuses s of
              None \<Rightarrow> (Inr (run_totals now computed), st2)
            | Some refresh \<Rightarrow> (case refresh w t st2 of
                (Inl e, st3) \<Rightarrow> (Inl (Wrapped ''statuses'' e), st3)
              | (Inr _, st3) \<Rightarrow> (Inr (run_totals now computed), st3)))))))"

end
