(* ===== verification/Catalog.thy ===== *)
theory Catalog
  imports Catalog_Db Pipeline
begin

text \<open>
  \<open>internal/catalog\<close> (catalog.go, service.go, mapping.go): items, categories, suppliers and their
  purchase terms. The module has errors of its own; \<open>strings.TrimSpace\<close> works on the bytes of UTF-8.
\<close>

section \<open>Trimming\<close>

text \<open>The runes of \<open>unicode.IsSpace\<close>.\<close>

definition space_runes :: "string list" where
  "space_runes = map (\<lambda>r. utf8 [r]) ([9, 10, 11, 12, 13, 32, 0x85, 0xA0, 0x1680] @ [0x2000..<0x200B]
     @ [0x2028, 0x2029, 0x202F, 0x205F, 0x3000])"

fun starts_with :: "string \<Rightarrow> string \<Rightarrow> bool" where
  "starts_with [] s = True"
| "starts_with (p # ps) [] = False"
| "starts_with (p # ps) (c # s) = (p = c \<and> starts_with ps s)"

function trim_start :: "string list \<Rightarrow> string \<Rightarrow> string" where
  "trim_start spaces s = (case find (\<lambda>p. p \<noteq> [] \<and> starts_with p s) spaces of
     None \<Rightarrow> s | Some p \<Rightarrow> trim_start spaces (drop (length p) s))"
  by pat_completeness auto
termination
proof (relation "measure (\<lambda>(spaces, s). length s)")
  show "wf (measure (\<lambda>(spaces :: string list, s :: string). length s))" by simp
  fix spaces :: "string list" and s p
  assume "find (\<lambda>p. p \<noteq> [] \<and> starts_with p s) spaces = Some p"
  then have "p \<noteq> []" "starts_with p s" by (auto simp: find_Some_iff)
  then show "((spaces, drop (length p) s), spaces, s) \<in> measure (\<lambda>(spaces, s). length s)" by (cases p; cases s) auto
qed

declare trim_start.simps [simp del]

definition TrimSpace :: "string \<Rightarrow> string" where
  "TrimSpace s = rev (trim_start (map rev space_runes) (rev (trim_start space_runes s)))"

section \<open>Data\<close>

type_synonym base_unit = string

definition UnitKg :: base_unit where "UnitKg = ''kg''"
definition UnitLiter :: base_unit where "UnitLiter = ''l''"
definition UnitPcs :: base_unit where "UnitPcs = ''pcs''"

definition unit_Valid :: "base_unit \<Rightarrow> bool" where
  "unit_Valid u \<longleftrightarrow> u = UnitKg \<or> u = UnitLiter \<or> u = UnitPcs"

definition unit_Label :: "base_unit \<Rightarrow> string" where
  "unit_Label u = (if u = UnitKg then utf8 [1082, 1075] else if u = UnitLiter then utf8 [1083]
     else if u = UnitPcs then utf8 [1096, 1090] else u)"

definition defaultCutoff :: time_of_day where
  "defaultCutoff = TimeOfDay 16 0"

definition ServiceLevels :: "int list" where
  "ServiceLevels = [90, 95, 99]"

definition ValidServiceLevel :: "int \<Rightarrow> bool" where
  "ValidServiceLevel lv \<longleftrightarrow> list_ex (\<lambda>l. l = lv) ServiceLevels"

datatype catalog_error = CatNotFound | ErrNameTaken | ErrInvalidUnit | ErrInvalidService | ErrBadWeekdays
  | ErrEmptyName | ErrLeadTime | ErrBadFactor | ErrItemExists string | CatDB string db_error

type_synonym ('d, 'a) catalog_tx = "('d db, catalog_error, 'a) tx"

record 'd catalog_item =
  ctID :: uuid
  ctName :: string
  ctBaseUnit :: base_unit
  ctUnitLabel :: string
  ctCategory :: "uuid option"
  ctCategoryName :: string
  ctSupplier :: "uuid option"
  ctSupplierName :: string
  ctServiceLevel :: int
  ctManualMin :: "'d qty"
  ctArchivedAt :: "instant option"

definition Archived :: "'d catalog_item \<Rightarrow> bool" where
  "Archived i \<longleftrightarrow> ctArchivedAt i \<noteq> None"

record category =
  cgID :: uuid
  cgName :: string

record catalog_supplier =
  spID :: uuid
  spName :: string
  spContact :: string
  spLeadTimeDays :: int
  spDeliveryWeekdays :: "int list"
  spOrderCutoff :: time_of_day
  spArchivedAt :: "instant option"

record 'd purchase_terms =
  tmSupplier :: uuid
  tmItem :: uuid
  tmPurchaseUnit :: string
  tmUnitFactor :: "'d qty"
  tmMinOrder :: "'d qty"
  tmPack :: "'d qty"
  tmPrice :: "'d qty option"

definition terms_InPurchaseUnits :: "'d decimal_lib \<Rightarrow> 'd purchase_terms \<Rightarrow> 'd qty \<Rightarrow> 'd qty option" where
  "terms_InPurchaseUnits D t base = (if \<not> qIsPositive D (tmUnitFactor t) then Some base
     else map_option (qFromDecimal D) (dDiv D (qdec base) (qdec (tmUnitFactor t))))"

fun weekdays_loop :: "int set \<Rightarrow> int list \<Rightarrow> bool" where
  "weekdays_loop seen [] = True"
| "weekdays_loop seen (d # ds) = (if d < 1 \<or> 7 < d \<or> d \<in> seen then False else weekdays_loop (insert d seen) ds)"

definition ValidWeekdays :: "int list \<Rightarrow> bool" where
  "ValidWeekdays days = (if days = [] \<or> 7 < length days then False else weekdays_loop {} days)"

section \<open>Rows and values\<close>

definition itemFromRow :: "'d decimal_lib \<Rightarrow> item_row \<Rightarrow> 'd catalog_item" where
  "itemFromRow D r = \<lparr>ctID = it_id r, ctName = it_name r, ctBaseUnit = it_base_unit r, ctUnitLabel = unit_Label (it_base_unit r),
     ctCategory = it_category r, ctCategoryName = [], ctSupplier = it_default_supplier r, ctSupplierName = [],
     ctServiceLevel = it_service_level r, ctManualMin = pg_Qty D (it_manual_min_qty r), ctArchivedAt = it_archived_at r\<rparr>"

definition toInt16 :: "int list \<Rightarrow> int list" where
  "toInt16 days = map (\<lambda>d. sint (word_of_int d :: 16 word)) days"

definition fromInt16 :: "int list \<Rightarrow> int list" where
  "fromInt16 days = map (\<lambda>d. d) days"

definition supplierFromRow :: "supplier_row \<Rightarrow> catalog_supplier" where
  "supplierFromRow r = \<lparr>spID = su_id r, spName = su_name r, spContact = su_contact r, spLeadTimeDays = su_lead_time_days r,
     spDeliveryWeekdays = fromInt16 (su_delivery_weekdays r), spOrderCutoff = ClockTime (su_order_cutoff r),
     spArchivedAt = su_archived_at r\<rparr>"

definition termsFromRow :: "'d decimal_lib \<Rightarrow> supplier_item_row \<Rightarrow> 'd purchase_terms" where
  "termsFromRow D r = \<lparr>tmSupplier = si_supplier r, tmItem = si_item r, tmPurchaseUnit = si_purchase_unit r,
     tmUnitFactor = pg_Qty D (si_unit_factor r), tmMinOrder = pg_Qty D (si_min_order_qty r),
     tmPack = pg_Qty D (si_pack_multiple r), tmPrice = NullQty D (si_price r)\<rparr>"

section \<open>Items\<close>

definition catdb :: "string \<Rightarrow> ('d db, db_error, 'a) tx \<Rightarrow> ('d, 'a) catalog_tx" where
  "catdb tag m = tx_lift (CatDB tag) m"

text \<open>A violation of a unique index is reported as a name that is taken.\<close>

definition name_error :: "string \<Rightarrow> db_error \<Rightarrow> catalog_error" where
  "name_error tag e = (case e of UniqueViolation _ \<Rightarrow> ErrNameTaken | _ \<Rightarrow> CatDB tag e)"

record 'd create_item_input =
  cnName :: string
  cnBaseUnit :: base_unit
  cnCategory :: "uuid option"
  cnSupplier :: "uuid option"
  cnServiceLevel :: int
  cnManualMin :: "'d qty"

definition new_item_row :: "'d decimal_lib \<Rightarrow> uuid \<Rightarrow> uuid \<Rightarrow> 'd create_item_input \<Rightarrow> item_row" where
  "new_item_row D tid iid inp = \<lparr>it_id = iid, it_tenant = tid, it_category = cnCategory inp, it_name = cnName inp,
     it_base_unit = cnBaseUnit inp, it_default_supplier = cnSupplier inp,
     it_service_level = sint (word_of_int (cnServiceLevel inp) :: 16 word),
     it_manual_min_qty = DecimalOf D (cnManualMin inp), it_archived_at = None, it_created_at = 0\<rparr>"

definition createItemTx :: "'d decimal_lib \<Rightarrow> text_lib \<Rightarrow> instant \<Rightarrow> tenant \<Rightarrow> 'd create_item_input \<Rightarrow> ('d, 'd catalog_item) catalog_tx" where
  "createItemTx D T w t inp = (let tid = tenantID t in
     tx_bind (tx_get (GetDefaultWarehouse tid)) (\<lambda>wh.
     tx_bind (tx_of_sum (from_opt (CatDB ''warehouse'' NoRows) wh)) (\<lambda>warehouse.
     tx_bind new_uuid (\<lambda>newid.
     tx_bind (tx_lift (name_error ''item'') (CreateItem_q T w (new_item_row D tid newid inp))) (\<lambda>row.
     tx_bind (catdb ''balance'' (EnsureBalance tid (wh_id warehouse) (it_id row) w)) (\<lambda>_.
     tx_return (itemFromRow D row)))))))"

definition CreateItem :: "'d decimal_lib \<Rightarrow> text_lib \<Rightarrow> instant \<Rightarrow> tenant \<Rightarrow> 'd create_item_input \<Rightarrow> 'd db \<Rightarrow>
    (catalog_error + 'd catalog_item) \<times> 'd db" where
  "CreateItem D T w t inp0 st = (let inp1 = inp0\<lparr>cnName := TrimSpace (cnName inp0)\<rparr> in
     if cnName inp1 = [] then (Inl ErrEmptyName, st) else
     if \<not> unit_Valid (cnBaseUnit inp1) then (Inl ErrInvalidUnit, st) else
     let inp = (if cnServiceLevel inp1 = 0 then inp1\<lparr>cnServiceLevel := 95\<rparr> else inp1) in
     if \<not> ValidServiceLevel (cnServiceLevel inp) then (Inl ErrInvalidService, st) else
     InTenantTx (createItemTx D T w t inp) st)"

record 'd update_item_input =
  upName :: "string option"
  upCategory :: "uuid option"
  upSupplier :: "uuid option"
  upServiceLevel :: "int option"
  upManualMin :: "'d qty option"

definition update_params :: "'d decimal_lib \<Rightarrow> 'd update_item_input \<Rightarrow> catalog_error + item_params" where
  "update_params D inp =
     bindE (guardE (case upServiceLevel inp of None \<Rightarrow> True | Some l \<Rightarrow> ValidServiceLevel l) ErrInvalidService) (\<lambda>_.
     bindE (case upName inp of None \<Rightarrow> Inr None
       | Some n \<Rightarrow> if TrimSpace n = [] then Inl ErrEmptyName else Inr (Some (TrimSpace n))) (\<lambda>name.
     Inr \<lparr>ipName = name, ipCategory = upCategory inp, ipSupplier = upSupplier inp,
          ipServiceLevel = map_option (\<lambda>l. sint (word_of_int l :: 16 word)) (upServiceLevel inp),
          ipManualMin = map_option (DecimalOf D) (upManualMin inp)\<rparr>))"

definition update_error :: "db_error \<Rightarrow> catalog_error" where
  "update_error e = (case e of NoRows \<Rightarrow> CatNotFound | _ \<Rightarrow> name_error ''update'' e)"

definition UpdateItem :: "'d decimal_lib \<Rightarrow> text_lib \<Rightarrow> tenant \<Rightarrow> uuid \<Rightarrow> 'd update_item_input \<Rightarrow> 'd db \<Rightarrow>
    (catalog_error + 'd catalog_item) \<times> 'd db" where
  "UpdateItem D T t iid inp st = (case update_params D inp of Inl e \<Rightarrow> (Inl e, st)
     | Inr p \<Rightarrow> InTenantTx (tx_bind (tx_lift update_error (UpdateItem_q T (tenantID t) iid p)) (\<lambda>row.
         tx_return (itemFromRow D row))) st)"

definition catalog_ArchiveItem :: "clock \<Rightarrow> instant \<Rightarrow> tenant \<Rightarrow> uuid \<Rightarrow> 'd db \<Rightarrow> (catalog_error + unit) \<times> 'd db" where
  "catalog_ArchiveItem cl w t iid = InTenantTx (
     tx_bind (tx_get (GetItem (tenantID t) iid)) (\<lambda>found.
     tx_bind (tx_of_sum (from_opt CatNotFound found)) (\<lambda>_.
     catdb [] (ArchiveItem_q (tenantID t) iid (clock_Now cl w)))))"

definition catalog_GetItem :: "'d decimal_lib \<Rightarrow> tenant \<Rightarrow> uuid \<Rightarrow> 'd db \<Rightarrow> (catalog_error + 'd catalog_item) \<times> 'd db" where
  "catalog_GetItem D t iid = InTenantTx (
     tx_bind (tx_get (GetItem (tenantID t) iid)) (\<lambda>found.
     tx_bind (tx_of_sum (from_opt CatNotFound found)) (\<lambda>row. tx_return (itemFromRow D row))))"

definition listed_item :: "'d decimal_lib \<Rightarrow> item_list_row \<Rightarrow> 'd catalog_item" where
  "listed_item D r = (itemFromRow D (ilItem r))\<lparr>ctCategoryName := or_else [] (\<lambda>x. x) (ilCategoryName r),
     ctSupplierName := or_else [] (\<lambda>x. x) (ilSupplierName r)\<rparr>"

definition catalog_ListItems :: "'d decimal_lib \<Rightarrow> tenant \<Rightarrow> bool \<Rightarrow> 'd db \<Rightarrow> (catalog_error + 'd catalog_item list) \<times> 'd db" where
  "catalog_ListItems D t includeArchived = InTenantTx (
     tx_bind (tx_get (ListItems (tenantID t) includeArchived)) (\<lambda>rows. tx_return (map (listed_item D) rows)))"

section \<open>Categories, suppliers, terms\<close>

definition catalog_ListCategories :: "tenant \<Rightarrow> 'd db \<Rightarrow> (catalog_error + category list) \<times> 'd db" where
  "catalog_ListCategories t = InTenantTx (
     tx_bind (tx_get (ListCategories (tenantID t))) (\<lambda>rows. tx_return (map (\<lambda>r. \<lparr>cgID = ca_id r, cgName = ca_name r\<rparr>) rows)))"

definition CreateCategory :: "text_lib \<Rightarrow> instant \<Rightarrow> tenant \<Rightarrow> string \<Rightarrow> 'd db \<Rightarrow> (catalog_error + category) \<times> 'd db" where
  "CreateCategory T w t name0 st = (let name = TrimSpace name0 in
     if name = [] then (Inl ErrEmptyName, st) else
     InTenantTx (tx_bind new_uuid (\<lambda>newid.
       tx_bind (tx_lift (name_error ''category'') (CreateCategory_q T w newid (tenantID t) name)) (\<lambda>row.
       tx_return \<lparr>cgID = ca_id row, cgName = ca_name row\<rparr>))) st)"

record create_supplier_input =
  csName :: string
  csContact :: string
  csLeadTimeDays :: int
  csDeliveryWeekdays :: "int list"
  csOrderCutoff :: time_of_day

definition new_supplier_row :: "uuid \<Rightarrow> uuid \<Rightarrow> create_supplier_input \<Rightarrow> supplier_row" where
  "new_supplier_row tid sid inp = \<lparr>su_id = sid, su_tenant = tid, su_name = csName inp, su_contact = csContact inp,
     su_lead_time_days = sint (word_of_int (csLeadTimeDays inp) :: 16 word),
     su_delivery_weekdays = toInt16 (csDeliveryWeekdays inp), su_order_cutoff = pg_TimeOfDay (csOrderCutoff inp),
     su_archived_at = None, su_created_at = 0\<rparr>"

definition CreateSupplier :: "text_lib \<Rightarrow> instant \<Rightarrow> tenant \<Rightarrow> create_supplier_input \<Rightarrow> 'd db \<Rightarrow>
    (catalog_error + catalog_supplier) \<times> 'd db" where
  "CreateSupplier T w t inp0 st = (let inp = inp0\<lparr>csName := TrimSpace (csName inp0)\<rparr> in
     if csName inp = [] then (Inl ErrEmptyName, st) else
     if \<not> ValidWeekdays (csDeliveryWeekdays inp) then (Inl ErrBadWeekdays, st) else
     if csLeadTimeDays inp < 0 \<or> 60 < csLeadTimeDays inp then (Inl ErrLeadTime, st) else
     InTenantTx (tx_bind new_uuid (\<lambda>newid.
       tx_bind (tx_lift (name_error ''supplier'') (CreateSupplier_q T w (new_supplier_row (tenantID t) newid inp))) (\<lambda>row.
       tx_return (supplierFromRow row)))) st)"

definition catalog_ListSuppliers :: "tenant \<Rightarrow> bool \<Rightarrow> 'd db \<Rightarrow> (catalog_error + catalog_supplier list) \<times> 'd db" where
  "catalog_ListSuppliers t includeArchived = InTenantTx (
     tx_bind (tx_get (ListSuppliers_q (tenantID t) includeArchived)) (\<lambda>rows. tx_return (map supplierFromRow rows)))"

definition catalog_GetSupplier :: "tenant \<Rightarrow> uuid \<Rightarrow> 'd db \<Rightarrow> (catalog_error + catalog_supplier) \<times> 'd db" where
  "catalog_GetSupplier t sid = InTenantTx (
     tx_bind (tx_get (GetSupplier (tenantID t) sid)) (\<lambda>found.
     tx_bind (tx_of_sum (from_opt CatNotFound found)) (\<lambda>row. tx_return (supplierFromRow row))))"

definition terms_error :: "db_error \<Rightarrow> catalog_error" where
  "terms_error e = (case e of ForeignKeyViolation _ \<Rightarrow> CatNotFound | _ \<Rightarrow> CatDB ''terms'' e)"

definition terms_row :: "'d decimal_lib \<Rightarrow> uuid \<Rightarrow> 'd purchase_terms \<Rightarrow> supplier_item_row" where
  "terms_row D tid inp = \<lparr>si_tenant = tid, si_supplier = tmSupplier inp, si_item = tmItem inp,
     si_purchase_unit = tmPurchaseUnit inp, si_unit_factor = DecimalOf D (tmUnitFactor inp),
     si_min_order_qty = DecimalOf D (tmMinOrder inp), si_pack_multiple = DecimalOf D (tmPack inp),
     si_price = map_option (DecimalOf D) (tmPrice inp)\<rparr>"

definition SetTerms :: "'d decimal_lib \<Rightarrow> tenant \<Rightarrow> 'd purchase_terms \<Rightarrow> 'd db \<Rightarrow> (catalog_error + 'd purchase_terms) \<times> 'd db" where
  "SetTerms D t inp st = (if \<not> qIsPositive D (tmUnitFactor inp) then (Inl ErrBadFactor, st) else
     InTenantTx (tx_bind (tx_lift terms_error (UpsertSupplierItem (terms_row D (tenantID t) inp))) (\<lambda>row.
       tx_return (termsFromRow D row))) st)"

text \<open>Terms that are not there are no error: the second result says whether they were found.\<close>

definition GetTermsForItem :: "'d decimal_lib \<Rightarrow> tenant \<Rightarrow> uuid \<Rightarrow> 'd db \<Rightarrow> (catalog_error + 'd purchase_terms option) \<times> 'd db" where
  "GetTermsForItem D t iid = InTenantTx (
     tx_bind (tx_get (GetSupplierItemForItem (tenantID t) iid)) (\<lambda>found. tx_return (map_option (termsFromRow D) found)))"

end
