(* ===== verification/Csv.thy ===== *)
theory Csv
  imports Catalog
begin

text \<open>
  \<open>internal/catalog/csv.go\<close>: reading a file of items. The reader of \<open>encoding/csv\<close> is modelled as the
  source sets it up (a delimiter, spaces trimmed at the start of a field, records of any length, strict
  quotes, no comments). The code page of Windows is a parameter; what a row error says is a value and not
  a text.
\<close>

section \<open>Records\<close>

datatype csv_error = ErrBareQuote | ErrQuote

definition quote_char :: char where "quote_char = CHR 0x22"
definition newline :: char where "newline = CHR 0x0A"
definition carriage_return :: char where "carriage_return = CHR 0x0D"

text \<open>The lines of a text with their ends; a carriage return at the end of a line is dropped.\<close>

definition line_end :: "string \<Rightarrow> string" where
  "line_end li = (if li \<noteq> [] \<and> last li = carriage_return then butlast li else li)"

function csv_lines :: "string \<Rightarrow> string list" where
  "csv_lines s = (if s = [] then [] else
     (case dropWhile (\<lambda>c. c \<noteq> newline) s of
        [] \<Rightarrow> [line_end s]
      | _ # rest \<Rightarrow> (line_end (takeWhile (\<lambda>c. c \<noteq> newline) s) @ [newline]) # csv_lines rest))"
  by pat_completeness auto
termination
proof (relation "measure length")
  show "wf (measure (length :: string \<Rightarrow> nat))" by simp
  fix s x rest assume "dropWhile (\<lambda>c. c \<noteq> newline) s = x # rest"
  then have "length (x # rest) \<le> length s" by (metis length_dropWhile_le)
  then show "(rest, s) \<in> measure length" by simp
qed

declare csv_lines.simps [simp del]

definition lengthNL :: "string \<Rightarrow> nat" where
  "lengthNL li = (if li \<noteq> [] \<and> last li = newline then 1 else 0)"

definition left_to_read :: "string \<Rightarrow> string list \<Rightarrow> nat" where
  "left_to_read li rest = length li + sum_list (map (\<lambda>r. length r + 1) rest)"

text \<open>A quoted field: its text, what follows on its line if a delimiter does, and the lines after it.\<close>

function csv_quoted :: "char \<Rightarrow> string \<Rightarrow> string list \<Rightarrow> string \<Rightarrow> csv_error + (string \<times> string option \<times> string list)" where
  "csv_quoted comma li rest buf = (case dropWhile (\<lambda>c. c \<noteq> quote_char) li of
     q # li1 \<Rightarrow> (let buf1 = buf @ takeWhile (\<lambda>c. c \<noteq> quote_char) li in
       (case li1 of
          [] \<Rightarrow> Inr (buf1, None, rest)
        | c # li2 \<Rightarrow> if c = quote_char then csv_quoted comma li2 rest (buf1 @ [quote_char])
            else if c = comma then Inr (buf1, Some li2, rest)
            else if lengthNL li1 = length li1 then Inr (buf1, None, rest)
            else Inl ErrQuote))
   | [] \<Rightarrow> if li = [] then Inl ErrQuote else
       (case rest of [] \<Rightarrow> csv_quoted comma [] [] (buf @ li) | r # rs \<Rightarrow> csv_quoted comma r rs (buf @ li)))"
  by pat_completeness auto
termination
proof (relation "measure (\<lambda>(comma, li, rest, buf). left_to_read li rest)")
  show "wf (measure (\<lambda>(comma :: char, li, rest, buf :: string). left_to_read li rest))" by simp
  fix comma li rest buf q li1 buf1 c li2
  assume "dropWhile (\<lambda>c. c \<noteq> quote_char) li = q # li1" and "li1 = c # li2"
  then have "length (q # c # li2) \<le> length li" by (metis length_dropWhile_le)
  then show "((comma, li2, rest, buf1 @ [quote_char]), comma, li, rest, buf) \<in> measure (\<lambda>(comma, li, rest, buf). left_to_read li rest)"
    by (simp add: left_to_read_def)
qed (auto simp: left_to_read_def)

declare csv_quoted.simps [simp del]

lemma csv_quoted_reads: "csv_quoted comma li rest buf = Inr (f, tail, rest') \<Longrightarrow>
    (\<exists>n. rest' = drop n rest) \<and> (\<forall>li'. tail = Some li' \<longrightarrow> left_to_read li' rest' < left_to_read li rest)"
proof (induction comma li rest buf rule: csv_quoted.induct)
  case (1 comma li rest buf)
  show ?case
  proof (cases "dropWhile (\<lambda>c. c \<noteq> quote_char) li")
    case Nil
    with "1.prems" have li: "li \<noteq> []" by (subst (asm) csv_quoted.simps) auto
    show ?thesis
    proof (cases rest)
      case Nil': Nil
      then have "csv_quoted comma [] [] (buf @ li) = Inr (f, tail, rest')"
        using "1.prems" Nil li by (subst (asm) csv_quoted.simps) simp
      from "1.IH"(1)[OF Nil li Nil' this] li show ?thesis by (auto simp: left_to_read_def Nil')
    next
      case (Cons r rs)
      then have "csv_quoted comma r rs (buf @ li) = Inr (f, tail, rest')"
        using "1.prems" Nil li by (subst (asm) csv_quoted.simps) simp
      from "1.IH"(2)[OF Nil li Cons this] obtain n where n: "rest' = drop n rs"
        "\<forall>li'. tail = Some li' \<longrightarrow> left_to_read li' rest' < left_to_read r rs" by blast
      then have "\<exists>n. rest' = drop n rest" by (intro exI[of _ "Suc n"]) (simp add: Cons)
      with n(2) li show ?thesis by (fastforce simp: left_to_read_def Cons)
    qed
  next
    case (Cons q li1)
    have len: "length (q # li1) \<le> length li" using Cons by (metis length_dropWhile_le)
    show ?thesis
    proof (cases li1)
      case Nil
      with "1.prems" Cons have "tail = None" "rest' = rest" by (subst (asm) csv_quoted.simps, simp add: Let_def)+
      then show ?thesis by (auto intro: exI[of _ 0])
    next
      case Cons': (Cons c li2)
      show ?thesis
      proof (cases "c = quote_char")
        case True
        have "csv_quoted comma li2 rest ((buf @ takeWhile (\<lambda>c. c \<noteq> quote_char) li) @ [quote_char]) = Inr (f, tail, rest')"
          using "1.prems" Cons Cons' True by (subst (asm) csv_quoted.simps) (simp add: Let_def)
        from "1.IH"(3)[OF Cons refl Cons' True this] len show ?thesis by (auto simp: left_to_read_def Cons')
      next
        case False
        with "1.prems" Cons Cons' have "rest' = rest \<and> (tail = None \<or> tail = Some li2)"
          by (subst (asm) csv_quoted.simps) (auto simp: Let_def split: if_splits)
        with len show ?thesis by (auto simp: left_to_read_def Cons' intro: exI[of _ 0])
      qed
    qed
  qed
qed

lemma trim_start_length: "length (trim_start spaces s) \<le> length s"
proof (induction spaces s rule: trim_start.induct)
  case (1 spaces s)
  then show ?case by (subst trim_start.simps) (auto split: option.split)
qed

text \<open>The fields of a record that begins on the line, and the lines after it.\<close>

function csv_fields :: "char \<Rightarrow> string \<Rightarrow> string list \<Rightarrow> string list \<Rightarrow> csv_error + (string list \<times> string list)" where
  "csv_fields comma li0 rest acc = (let li = trim_start space_runes li0 in
     if li = [] \<or> hd li \<noteq> quote_char then
       (let field = takeWhile (\<lambda>c. c \<noteq> comma) li in
        case dropWhile (\<lambda>c. c \<noteq> comma) li of
          [] \<Rightarrow> (let last_field = take (length li - lengthNL li) li in
            if quote_char \<in> set last_field then Inl ErrBareQuote else Inr (acc @ [last_field], rest))
        | _ # li1 \<Rightarrow> if quote_char \<in> set field then Inl ErrBareQuote else csv_fields comma li1 rest (acc @ [field]))
     else (case csv_quoted comma (tl li) rest [] of
          Inl e \<Rightarrow> Inl e
        | Inr (f, None, rest1) \<Rightarrow> Inr (acc @ [f], rest1)
        | Inr (f, Some li1, rest1) \<Rightarrow> csv_fields comma li1 rest1 (acc @ [f])))"
  by pat_completeness auto
termination
proof (relation "measure (\<lambda>(comma, li, rest, acc). left_to_read li rest)")
  show "wf (measure (\<lambda>(comma :: char, li, rest, acc :: string list). left_to_read li rest))" by simp
next
  fix comma li0 rest and acc :: "string list" and li field x li1
  assume li: "li = trim_start space_runes li0" and "dropWhile (\<lambda>c. c \<noteq> comma) li = x # li1"
  then have "length (x # li1) \<le> length li" by (metis length_dropWhile_le)
  then have "length li1 < length li0" using trim_start_length[of space_runes li0] li by simp
  then show "((comma, li1, rest, acc @ [field]), comma, li0, rest, acc) \<in> measure (\<lambda>(comma, li, rest, acc). left_to_read li rest)"
    by (simp add: left_to_read_def)
next
  fix comma li0 rest and acc :: "string list" and li b f y li1 rest1 and z :: "string option \<times> string list" and o1
  assume li: "li = trim_start space_runes li0" and "csv_quoted comma (tl li) rest [] = Inr b"
    and b: "(f, z) = b" "(o1, rest1) = z" "o1 = Some li1"
  then have "left_to_read li1 rest1 < left_to_read (tl li) rest" using csv_quoted_reads by blast
  then show "((comma, li1, rest1, acc @ [f]), comma, li0, rest, acc) \<in> measure (\<lambda>(comma, li, rest, acc). left_to_read li rest)"
    using trim_start_length[of space_runes li0] li by (simp add: left_to_read_def)
qed

declare csv_fields.simps [simp del]

section \<open>The text\<close>

definition blank_line :: "string \<Rightarrow> bool" where
  "blank_line li \<longleftrightarrow> length li = lengthNL li"

lemma csv_fields_reads: "csv_fields comma li rest acc = Inr (r, rest') \<Longrightarrow> \<exists>n. rest' = drop n rest"
proof (induction comma li rest acc rule: csv_fields.induct)
  case (1 comma li0 rest acc)
  define li where "li = trim_start space_runes li0"
  note eq = "1.prems"[unfolded csv_fields.simps[of comma li0] Let_def, folded li_def]
  show ?case
  proof (cases "li = [] \<or> hd li \<noteq> quote_char")
    case True
    show ?thesis
    proof (cases "dropWhile (\<lambda>c. c \<noteq> comma) li")
      case Nil
      with eq True have "rest' = rest" by (simp split: if_splits)
      then show ?thesis by (intro exI[of _ 0]) simp
    next
      case (Cons x li1)
      with eq True have q: "quote_char \<notin> set (takeWhile (\<lambda>c. c \<noteq> comma) li)"
        "csv_fields comma li1 rest (acc @ [takeWhile (\<lambda>c. c \<noteq> comma) li]) = Inr (r, rest')" by (simp_all split: if_splits)
      show ?thesis by (rule "1.IH"(1)[OF li_def True refl Cons q])
    qed
  next
    case False
    then obtain f tail rest1 where c: "csv_quoted comma (tl li) rest [] = Inr (f, tail, rest1)"
      using eq by (auto split: sum.splits)
    from csv_quoted_reads[OF c] obtain n where n: "rest1 = drop n rest" by blast
    show ?thesis
    proof (cases tail)
      case None
      with eq False c n show ?thesis by auto
    next
      case (Some li1)
      with eq False c have "csv_fields comma li1 rest1 (acc @ [f]) = Inr (r, rest')" by simp
      from "1.IH"(2)[OF li_def False c refl refl Some this] obtain m where "rest' = drop m rest1" by blast
      then show ?thesis using n by auto
    qed
  qed
qed

text \<open>All records; empty lines before a record are skipped.\<close>

function csv_records :: "char \<Rightarrow> string list \<Rightarrow> csv_error + string list list" where
  "csv_records comma lines = (case dropWhile blank_line lines of
     [] \<Rightarrow> Inr []
   | li # rest \<Rightarrow> (case csv_fields comma li rest [] of
       Inl e \<Rightarrow> Inl e
     | Inr (r, rest1) \<Rightarrow> bindE (csv_records comma rest1) (\<lambda>rs. Inr (r # rs))))"
  by pat_completeness auto
termination
proof (relation "measure (\<lambda>(comma, lines). length lines)")
  show "wf (measure (\<lambda>(comma :: char, lines :: string list). length lines))" by simp
  fix comma :: char and lines li rest b r rest1
  assume d: "dropWhile blank_line lines = li # rest" and f: "csv_fields comma li rest [] = Inr b" "(r, rest1) = b"
  then obtain n where "rest1 = drop n rest" using csv_fields_reads by blast
  moreover have "length (li # rest) \<le> length lines" using d by (metis length_dropWhile_le)
  ultimately show "((comma, rest1), comma, lines) \<in> measure (\<lambda>(comma, lines). length lines)" by simp
qed

declare csv_records.simps [simp del]

definition count_char :: "char \<Rightarrow> string \<Rightarrow> nat" where
  "count_char c s = length (filter (\<lambda>x. x = c) s)"

definition detectDelimiter :: "string \<Rightarrow> char" where
  "detectDelimiter s = (let first = takeWhile (\<lambda>c. c \<noteq> newline) s in
     if count_char CHR '','' first < count_char CHR '';'' first then CHR '';'' else CHR '','')"

definition bytes :: "nat list \<Rightarrow> string" where
  "bytes ns = map char_of ns"

datatype 'd csv_failure = ErrTooLarge | ErrNotText | ErrNoRows | ErrCsv csv_error | ErrNoNameColumn | ErrNoUnitColumn

text \<open>\<open>cp1251\<close> is \<open>charmap.Windows1251.NewDecoder().Bytes\<close>.\<close>

definition decodeText :: "(string \<Rightarrow> string option) \<Rightarrow> string \<Rightarrow> 'd csv_failure + string" where
  "decodeText cp1251 raw = (
     if starts_with (bytes [0xFF, 0xFE]) raw \<or> starts_with (bytes [0xFE, 0xFF]) raw then Inl ErrNotText else
     if char_of (0 :: nat) \<in> set raw then Inl ErrNotText else
     let raw1 = (if starts_with (bytes [0xEF, 0xBB, 0xBF]) raw then drop 3 raw else raw) in
     if valid_text raw1 then Inr raw1 else
     (case cp1251 raw1 of None \<Rightarrow> Inl ErrNotText
      | Some decoded \<Rightarrow> if valid_text decoded then Inr decoded else Inl ErrNotText))"

section \<open>Columns\<close>

definition columnAliases :: "(string \<times> string list) list" where
  "columnAliases = [
     (''name'', [utf8 [1085, 1072, 1079, 1074, 1072, 1085, 1080, 1077],
       utf8 [1087, 1086, 1079, 1080, 1094, 1080, 1103],
       ''name'']),
     (''category'', [utf8 [1082, 1072, 1090, 1077, 1075, 1086, 1088, 1080, 1103],
       ''category'']),
     (''base_unit'', [utf8 [1077, 1076, 1080, 1085, 1080, 1094, 1072],
       utf8 [1077, 1076],
       ''base_unit'',
       ''unit'']),
     (''supplier'', [utf8 [1087, 1086, 1089, 1090, 1072, 1074, 1097, 1080, 1082],
       ''supplier'']),
     (''opening_qty'', [utf8 [1086, 1089, 1090, 1072, 1090, 1086, 1082],
       utf8 [1085, 1072, 1095, 1072, 1083, 1100, 1085, 1099, 1081, 32, 1086, 1089, 1090, 1072, 1090, 1086, 1082],
       ''opening'',
       ''opening_qty'']),
     (''service_level'', [utf8 [1091, 1088, 1086, 1074, 1077, 1085, 1100, 32, 1089, 1077, 1088, 1074, 1080, 1089, 1072],
       ''service_level'']),
     (''manual_min'', [utf8 [1084, 1080, 1085, 1080, 1084, 1091, 1084],
       utf8 [1084, 1080, 1085, 46, 32, 1086, 1089, 1090, 1072, 1090, 1086, 1082],
       ''manual_min'',
       ''min'']),
     (''purchase_unit'', [utf8 [1077, 1076, 1080, 1085, 1080, 1094, 1072, 32, 1079, 1072, 1082, 1091, 1087, 1082, 1080],
       ''purchase_unit'']),
     (''unit_factor'', [utf8 [1082, 1086, 1101, 1092, 1092, 1080, 1094, 1080, 1077, 1085, 1090],
       ''unit_factor'',
       ''factor'']),
     (''pack_multiple'', [utf8 [1082, 1088, 1072, 1090, 1085, 1086, 1089, 1090, 1100],
       utf8 [1091, 1087, 1072, 1082, 1086, 1074, 1082, 1072],
       ''pack'',
       ''pack_multiple'']),
     (''min_order'', [utf8 [1084, 1080, 1085, 1080, 1084, 1072, 1083, 1100, 1085, 1072, 1103, 32, 1087, 1072, 1088, 1090, 1080, 1103],
       ''min_order'',
       ''min_order_qty'']),
     (''price'', [utf8 [1094, 1077, 1085, 1072],
       ''price''])]"

definition unitAliases :: "(string \<times> base_unit) list" where
  "unitAliases = [(utf8 [1082, 1075], UnitKg),
     (''kg'', UnitKg),
     (utf8 [1082, 1080, 1083, 1086, 1075, 1088, 1072, 1084, 1084], UnitKg),
     (utf8 [1083], UnitLiter),
     (''l'', UnitLiter),
     (utf8 [1083, 1080, 1090, 1088], UnitLiter),
     (utf8 [1096, 1090], UnitPcs),
     (''pcs'', UnitPcs),
     (utf8 [1096, 1090, 1091, 1082], UnitPcs),
     (utf8 [1096, 1090, 1091, 1082, 1072], UnitPcs)]"

text \<open>The last cell of the header that has one of the names of the column.\<close>

definition column_index :: "text_lib \<Rightarrow> string list \<Rightarrow> string \<Rightarrow> nat option" where
  "column_index T header column = (case map_of columnAliases column of None \<Rightarrow> None
     | Some aliases \<Rightarrow> map_option fst (find (\<lambda>(i, cell). tlToLower T (TrimSpace cell) \<in> set aliases)
         (rev (enumerate 0 header))))"

definition mapColumns :: "text_lib \<Rightarrow> string list \<Rightarrow> 'd csv_failure + (string \<Rightarrow> nat option)" where
  "mapColumns T header = (let out = column_index T header in
     if out ''name'' = None then Inl ErrNoNameColumn else
     if out ''base_unit'' = None then Inl ErrNoUnitColumn else Inr out)"

section \<open>Rows\<close>

record 'd import_row =
  irLine :: int
  irName :: string
  irCategory :: string
  irBaseUnit :: base_unit
  irSupplier :: string
  irServiceLevel :: int
  irManualMin :: "'d qty"
  irPurchaseUnit :: string
  irUnitFactor :: "'d qty"
  irPack :: "'d qty"
  irMinOrder :: "'d qty"
  irPrice :: "'d qty option"
  irOpening :: "'d qty"

datatype row_message = MsgEmpty | MsgUnits | MsgNoNumber | MsgNegative | MsgFactor | MsgServiceLevel
  | MsgTooManyRows | MsgDuplicate string int

record row_error =
  reLine :: int
  reColumn :: string
  reMessage :: row_message

record 'd parse_result =
  prRows :: "'d import_row list"
  prErrors :: "row_error list"

definition parse_OK :: "'d parse_result \<Rightarrow> bool" where
  "parse_OK r \<longleftrightarrow> prErrors r = [] \<and> prRows r \<noteq> []"

definition MaxCSVSize :: nat where "MaxCSVSize = 5242880"
definition MaxCSVRows :: nat where "MaxCSVRows = 2000"

definition row_cell :: "string list \<Rightarrow> (string \<Rightarrow> nat option) \<Rightarrow> string \<Rightarrow> string" where
  "row_cell rec columns column = (case columns column of None \<Rightarrow> []
     | Some i \<Rightarrow> if length rec \<le> i then [] else TrimSpace (rec ! i))"

definition parseServiceLevel :: "string \<Rightarrow> int option" where
  "parseServiceLevel raw0 = (let raw1 = TrimSpace raw0;
       raw = (if raw1 \<noteq> [] \<and> last raw1 = CHR 0x25 then butlast raw1 else raw1) in
     if raw = ''90'' then Some 90 else if raw = ''95'' then Some 95 else if raw = ''99'' then Some 99 else None)"

text \<open>A number column: an empty cell is zero.\<close>

definition number_cell :: "'d decimal_lib \<Rightarrow> int \<Rightarrow> string \<Rightarrow> string \<Rightarrow> row_error list \<times> 'd qty" where
  "number_cell D line label raw = (if raw = [] then ([], qZero D) else
     (case qParse D raw of
        Inl _ \<Rightarrow> ([\<lparr>reLine = line, reColumn = label, reMessage = MsgNoNumber\<rparr>], qZero D)
      | Inr v \<Rightarrow> if qIsNegative D v then ([\<lparr>reLine = line, reColumn = label, reMessage = MsgNegative\<rparr>], qZero D)
          else ([], v)))"

definition factor_cell :: "'d decimal_lib \<Rightarrow> int \<Rightarrow> string \<Rightarrow> row_error list \<times> 'd qty" where
  "factor_cell D line raw = (let err = ([\<lparr>reLine = line, reColumn = utf8 [1082, 1086, 1101, 1092, 1092, 1080, 1094, 1080, 1077, 1085, 1090], reMessage = MsgFactor\<rparr>], qFromInt D 1) in
     if raw = [] then ([], qFromInt D 1) else
     (case qParse D raw of Inl _ \<Rightarrow> err | Inr v \<Rightarrow> if \<not> qIsPositive D v then err else ([], v)))"

definition price_cell :: "'d decimal_lib \<Rightarrow> int \<Rightarrow> string \<Rightarrow> row_error list \<times> 'd qty option" where
  "price_cell D line raw = (let err = ([\<lparr>reLine = line, reColumn = utf8 [1094, 1077, 1085, 1072], reMessage = MsgNoNumber\<rparr>], None) in
     if raw = [] then ([], None) else
     (case qParse D raw of Inl _ \<Rightarrow> err | Inr v \<Rightarrow> if qIsNegative D v then err else ([], Some v)))"

definition level_cell :: "int \<Rightarrow> string \<Rightarrow> row_error list \<times> int" where
  "level_cell line raw = (if raw = [] then ([], 95) else
     (case parseServiceLevel raw of
        None \<Rightarrow> ([\<lparr>reLine = line, reColumn = utf8 [1091, 1088, 1086, 1074, 1077, 1085, 1100, 32, 1089, 1077, 1088, 1074, 1080, 1089, 1072], reMessage = MsgServiceLevel\<rparr>], 95)
      | Some l \<Rightarrow> ([], l)))"

definition parseRow :: "'d decimal_lib \<Rightarrow> text_lib \<Rightarrow> int \<Rightarrow> string list \<Rightarrow> (string \<Rightarrow> nat option) \<Rightarrow> 'd import_row \<times> row_error list" where
  "parseRow D T line rec columns = (let cell = row_cell rec columns;
       nameErr = (if cell ''name'' = [] then [\<lparr>reLine = line, reColumn = utf8 [1085, 1072, 1079, 1074, 1072, 1085, 1080, 1077], reMessage = MsgEmpty\<rparr>] else []);
       unit = map_of unitAliases (tlToLower T (cell ''base_unit''));
       unitErr = (if unit = None then [\<lparr>reLine = line, reColumn = utf8 [1077, 1076, 1080, 1085, 1080, 1094, 1072], reMessage = MsgUnits\<rparr>] else []);
       (e1, opening) = number_cell D line (utf8 [1086, 1089, 1090, 1072, 1090, 1086, 1082]) (cell ''opening_qty'');
       (e2, manualMin) = number_cell D line (utf8 [1084, 1080, 1085, 1080, 1084, 1091, 1084]) (cell ''manual_min'');
       (e3, pack') = number_cell D line (utf8 [1082, 1088, 1072, 1090, 1085, 1086, 1089, 1090, 1100]) (cell ''pack_multiple'');
       (e4, minOrder) = number_cell D line (utf8 [1084, 1080, 1085, 1080, 1084, 1072, 1083, 1100, 1085, 1072, 1103, 32, 1087, 1072, 1088, 1090, 1080, 1103]) (cell ''min_order'');
       (e5, factor) = factor_cell D line (cell ''unit_factor'');
       (e6, price) = price_cell D line (cell ''price'');
       (e7, lv) = level_cell line (cell ''service_level'')
     in (\<lparr>irLine = line, irName = cell ''name'', irCategory = cell ''category'',
           irBaseUnit = (case unit of None \<Rightarrow> [] | Some u \<Rightarrow> u), irSupplier = cell ''supplier'', irServiceLevel = lv,
           irManualMin = manualMin, irPurchaseUnit = cell ''purchase_unit'', irUnitFactor = factor, irPack = pack',
           irMinOrder = minOrder, irPrice = price, irOpening = opening\<rparr>,
         nameErr @ unitErr @ e1 @ e2 @ e3 @ e4 @ e5 @ e6 @ e7))"

definition isBlank :: "string list \<Rightarrow> bool" where
  "isBlank rec \<longleftrightarrow> \<not> list_ex (\<lambda>cell. TrimSpace cell \<noteq> []) rec"

text \<open>The loop over the records: the rows so far, the errors so far, the names seen with their lines.\<close>

fun parse_rows :: "'d decimal_lib \<Rightarrow> text_lib \<Rightarrow> (string \<Rightarrow> nat option) \<Rightarrow> int \<Rightarrow> string list list \<Rightarrow>
    'd import_row list \<Rightarrow> row_error list \<Rightarrow> (string \<times> int) list \<Rightarrow> 'd parse_result" where
  "parse_rows D T columns line [] rows errs seen = \<lparr>prRows = rows, prErrors = errs\<rparr>"
| "parse_rows D T columns line (rec # recs) rows errs seen = (
     if isBlank rec then parse_rows D T columns (line + 1) recs rows errs seen else
     if MaxCSVRows \<le> length rows
     then \<lparr>prRows = rows, prErrors = errs @ [\<lparr>reLine = line, reColumn = [], reMessage = MsgTooManyRows\<rparr>]\<rparr> else
     (case parseRow D T line rec columns of (row, es) \<Rightarrow>
       if es \<noteq> [] then parse_rows D T columns (line + 1) recs rows (errs @ es) seen else
       let key = tlToLower T (irName row) in
       (case map_of seen key of
          Some first \<Rightarrow> parse_rows D T columns (line + 1) recs rows
            (errs @ [\<lparr>reLine = line, reColumn = utf8 [1085, 1072, 1079, 1074, 1072, 1085, 1080, 1077], reMessage = MsgDuplicate (irName row) first\<rparr>]) seen
        | None \<Rightarrow> parse_rows D T columns (line + 1) recs (rows @ [row]) errs ((key, line) # seen))))"

definition ParseCSV :: "'d decimal_lib \<Rightarrow> text_lib \<Rightarrow> (string \<Rightarrow> string option) \<Rightarrow> string \<Rightarrow> 'd csv_failure + 'd parse_result" where
  "ParseCSV D T cp1251 raw = (if MaxCSVSize < length raw then Inl ErrTooLarge else
     bindE (decodeText cp1251 raw) (\<lambda>s.
     bindE (guardE (TrimSpace s \<noteq> []) ErrNoRows) (\<lambda>_.
     (case csv_records (detectDelimiter s) (csv_lines s) of
        Inl e \<Rightarrow> Inl (ErrCsv e)
      | Inr [] \<Rightarrow> Inl ErrNoRows
      | Inr (header # recs) \<Rightarrow> if recs = [] then Inl ErrNoRows else
          bindE (mapColumns T header) (\<lambda>columns.
          let result = parse_rows D T columns 2 recs [] [] [] in
          if prRows result = [] \<and> prErrors result = [] then Inl ErrNoRows else Inr result)))))"

end
