(* ===== verification/Csv_Correct.thy ===== *)
theory Csv_Correct
  imports Csv
begin

text \<open>
  Correctness of reading a file: the reader gives back every table that was written with its fields in quotes
  (with the termination of its loops in Csv), and the rows that parsing lets through are importable as they stand.
\<close>

section \<open>Reading back what was written\<close>

text \<open>A field in quotes, its quotes doubled; a record on a line of its own (or several, where a field has line ends).\<close>

fun quoted_text :: "string \<Rightarrow> string" where
  "quoted_text [] = [quote_char]"
| "quoted_text (c # f) = (if c = quote_char then [quote_char, quote_char] else [c]) @ quoted_text f"

definition write_field :: "string \<Rightarrow> string" where
  "write_field f = quote_char # quoted_text f"

fun write_record :: "char \<Rightarrow> string list \<Rightarrow> string" where
  "write_record comma [] = [newline]"
| "write_record comma [f] = write_field f @ [newline]"
| "write_record comma (f # fs) = write_field f @ [comma] @ write_record comma fs"

definition write_table :: "char \<Rightarrow> string list list \<Rightarrow> string" where
  "write_table comma rs = concat (map (write_record comma) rs)"

lemma special_chars [simp]:
  "quote_char \<noteq> newline" "newline \<noteq> quote_char" "quote_char \<noteq> carriage_return" "carriage_return \<noteq> quote_char"
  "newline \<noteq> carriage_return" "carriage_return \<noteq> newline"
  by (simp_all add: quote_char_def newline_def carriage_return_def)

lemma csv_lines_Nil [simp]: "csv_lines [] = []"
  by (simp add: csv_lines.simps)

lemma csv_lines_newline: "csv_lines (newline # s) = [newline] # csv_lines s"
  by (simp add: csv_lines.simps[of "newline # s"] line_end_def)

lemma line_end_Cons: "c \<noteq> carriage_return \<Longrightarrow> line_end (c # s) = c # line_end s"
  by (simp add: line_end_def)

text \<open>A character that ends no line goes to the first line of what follows.\<close>

lemma csv_lines_Cons:
  assumes "c \<noteq> newline" and "c \<noteq> carriage_return" and "csv_lines s = li # rest"
  shows "csv_lines (c # s) = (c # li) # rest"
proof -
  have s: "s \<noteq> []" using assms(3) by auto
  show ?thesis
  proof (cases "dropWhile (\<lambda>c. c \<noteq> newline) s")
    case Nil
    from assms(3)[unfolded csv_lines.simps[of s] Nil] s have "li = line_end s" "rest = []" by auto
    then show ?thesis using assms(1,2) Nil by (simp add: csv_lines.simps[of "c # s"] line_end_Cons del: dropWhile_eq_Nil_conv)
  next
    case (Cons x r)
    from assms(3)[unfolded csv_lines.simps[of s] Cons] s
    have "li = line_end (takeWhile (\<lambda>c. c \<noteq> newline) s) @ [newline]" "rest = csv_lines r" by auto
    then show ?thesis using assms(1,2) Cons by (simp add: csv_lines.simps[of "c # s"] line_end_Cons)
  qed
qed

lemma csv_lines_nonempty: "s \<noteq> [] \<Longrightarrow> \<exists>li rest. csv_lines s = li # rest"
  by (simp add: csv_lines.simps[of s] split: list.split)

lemma csv_lines_first:
  assumes "csv_lines (x # y) = li # rest" and "x \<noteq> carriage_return"
  shows "\<exists>li'. li = x # li'"
proof (cases "x = newline")
  case False
  show ?thesis
  proof (cases "csv_lines y")
    case Nil
    then have "y = []" using csv_lines_nonempty by fastforce
    then show ?thesis using assms False by (auto simp: csv_lines.simps[of "[x]"] line_end_def)
  next
    case (Cons a b)
    from csv_lines_Cons[OF False assms(2) this] show ?thesis using assms(1) by simp
  qed
qed (use assms csv_lines_newline in auto)

lemma csv_lines_first_ne: "csv_lines (x # y) = li # rest \<Longrightarrow> x \<noteq> carriage_return \<Longrightarrow> li \<noteq> []"
  using csv_lines_first by fastforce

lemma csv_quoted_char:
  assumes "c \<noteq> quote_char" and "li \<noteq> []"
  shows "csv_quoted comma (c # li) rest buf = csv_quoted comma li rest (buf @ [c])"
proof (cases "dropWhile (\<lambda>c. c \<noteq> quote_char) li")
  case Nil
  then show ?thesis using assms by (subst (1 2) csv_quoted.simps) (simp del: dropWhile_eq_Nil_conv split: list.split)
next
  case (Cons q l)
  then show ?thesis using assms by (subst (1 2) csv_quoted.simps) (simp add: Let_def split: list.split)
qed

lemma csv_quoted_newline: "csv_quoted comma [newline] (r # rs) buf = csv_quoted comma r rs (buf @ [newline])"
  by (subst csv_quoted.simps) simp

lemma csv_quoted_double: "csv_quoted comma (quote_char # quote_char # li) rest buf = csv_quoted comma li rest (buf @ [quote_char])"
  by (subst csv_quoted.simps) simp

text \<open>A written field is read up to its closing quote.\<close>

lemma read_quoted:
  assumes "carriage_return \<notin> set f" and "csv_lines (quoted_text f @ s) = li # rest" and "s \<noteq> []"
    and "csv_lines (quote_char # s) = (quote_char # li') # rest'"
  shows "csv_quoted comma li rest buf = csv_quoted comma (quote_char # li') rest' (buf @ f)"
  using assms
proof (induction f arbitrary: li rest buf)
  case (Cons c f)
  obtain l2 r2 where l2: "csv_lines (quoted_text f @ s) = l2 # r2"
    using csv_lines_nonempty[of "quoted_text f @ s"] Cons.prems(3) by auto
  have IH: "csv_quoted comma l2 r2 b = csv_quoted comma (quote_char # li') rest' (b @ f)" for b
    by (rule Cons.IH) (use Cons.prems l2 in auto)
  have l2': "l2 \<noteq> []"
  proof (cases f)
    case Nil
    then show ?thesis using csv_lines_first[of quote_char] l2 by fastforce
  next
    case (Cons a g)
    then have "a \<noteq> carriage_return" using Cons.prems(1) by auto
    then show ?thesis using csv_lines_first[of quote_char] csv_lines_first[of a] l2 Cons by (fastforce split: if_splits)
  qed
  consider "c = quote_char" | "c = newline" | "c \<noteq> quote_char" "c \<noteq> newline" by blast
  then show ?case
  proof cases
    case 1
    then have "csv_lines (quote_char # quote_char # quoted_text f @ s) = li # rest" using Cons.prems(2) by simp
    moreover have "csv_lines (quote_char # quoted_text f @ s) = (quote_char # l2) # r2" by (rule csv_lines_Cons[OF _ _ l2]) simp_all
    from csv_lines_Cons[OF _ _ this, of quote_char] have "csv_lines (quote_char # quote_char # quoted_text f @ s) = (quote_char # quote_char # l2) # r2" by simp
    ultimately show ?thesis using IH 1 by (auto simp: csv_quoted_double)
  next
    case 2
    then have "li = [newline]" "rest = l2 # r2" using Cons.prems(2) l2 by (auto simp: csv_lines_newline)
    then show ?thesis using IH 2 by (simp add: csv_quoted_newline)
  next
    case 3
    have "c \<noteq> carriage_return" using Cons.prems(1) by auto
    from csv_lines_Cons[OF 3(2) this l2] have "li = c # l2" "rest = r2" using Cons.prems(2) 3 by auto
    then show ?thesis using IH 3 l2' by (simp add: csv_quoted_char)
  qed
qed auto

definition ascii_visible :: "char \<Rightarrow> bool" where
  "ascii_visible c \<longleftrightarrow> 32 < (of_char c :: nat) \<and> (of_char c :: nat) < 128"

lemma utf8_not_plain:
  assumes "r \<le> 32 \<or> 128 \<le> r" and "r < 65536"
  shows "utf8 [r] \<noteq> [] \<and> (\<forall>c \<in> set (utf8 [r]). \<not> ascii_visible c)"
proof -
  have "\<not> ascii_visible (char_of b)" if "b < 256" "b \<le> 32 \<or> 128 \<le> b" for b :: nat
    using that by (auto simp: ascii_visible_def)
  moreover have "224 + r div 4096 < 256" using div_le_mono[of r 65535 4096] assms(2) by simp
  moreover have "r < 2048 \<Longrightarrow> 192 + r div 64 < 256" using div_le_mono[of r 2047 64] by simp
  moreover have "128 + x mod 64 < 256" for x :: nat using mod_less_divisor[of 64 x] by linarith
  ultimately show ?thesis using assms by (auto simp: utf8_def utf8_char_def)
qed

lemma space_runes_bytes: "p \<in> set space_runes \<Longrightarrow> p \<noteq> [] \<and> (\<forall>c \<in> set p. \<not> ascii_visible c)"
proof -
  assume "p \<in> set space_runes"
  then obtain r where "p = utf8 [r]" "r \<le> 32 \<or> 128 \<le> r" "r < 65536" by (auto simp: space_runes_def)
  with utf8_not_plain[of r] show ?thesis by auto
qed

lemma utf8_cyrillic: "128 \<le> r \<Longrightarrow> r < 65536 \<Longrightarrow> ascii_visible c \<Longrightarrow> c # s \<noteq> utf8 (r # rs)"
proof
  assume r: "128 \<le> r" "r < 65536" and c: "ascii_visible c" and e: "c # s = utf8 (r # rs)"
  have "utf8 (r # rs) = utf8 [r] @ utf8 rs" by (simp add: utf8_def)
  with e have "c \<in> set (utf8 [r])" using utf8_not_plain[of r] r by (cases "utf8 [r]") auto
  then show False using utf8_not_plain[of r] r c by auto
qed

lemma starts_with_head: "starts_with p (c # s) \<Longrightarrow> p = [] \<or> c \<in> set p"
  by (cases p) auto

lemma trim_start_plain:
  assumes "ascii_visible c"
  shows "trim_start space_runes (c # s) = c # s" and "trim_start (map rev space_runes) (c # s) = c # s"
proof -
  have "find (\<lambda>p. p \<noteq> [] \<and> starts_with p (c # s)) space_runes = None"
    "find (\<lambda>p. p \<noteq> [] \<and> starts_with p (c # s)) (map rev space_runes) = None"
    using assms space_runes_bytes by (auto simp: find_None_all dest!: starts_with_head)
  then show "trim_start space_runes (c # s) = c # s" "trim_start (map rev space_runes) (c # s) = c # s"
    by (simp_all add: trim_start.simps[of space_runes] trim_start.simps[of "map rev space_runes"])
qed

lemma starts_with_append: "starts_with p s \<Longrightarrow> s = p @ drop (length p) s"
  by (induction p s rule: starts_with.induct) auto

lemma trim_start_keeps:
  assumes "ascii_visible c" and "\<forall>p \<in> set spaces. \<forall>x \<in> set p. \<not> ascii_visible x" and "c \<in> set s"
  shows "c \<in> set (trim_start spaces s)"
  using assms(2,3)
proof (induction spaces s rule: trim_start.induct)
  case (1 spaces s)
  show ?case
  proof (cases "find (\<lambda>p. p \<noteq> [] \<and> starts_with p s) spaces")
    case None
    then show ?thesis using "1.prems" by (subst trim_start.simps) simp
  next
    case (Some p)
    then have p: "p \<in> set spaces" "starts_with p s" by (auto dest: find_Some_in)
    have "c \<notin> set p" using p(1) "1.prems"(1) assms(1) by auto
    then have "c \<in> set (drop (length p) s)"
      using "1.prems"(2) starts_with_append[OF p(2)] by (metis Un_iff set_append)
    then show ?thesis using "1.IH"[OF Some "1.prems"(1)] Some by (subst trim_start.simps) simp
  qed
qed

lemma TrimSpace_not_empty: "ascii_visible c \<Longrightarrow> c \<in> set s \<Longrightarrow> TrimSpace s \<noteq> []"
proof -
  assume c: "ascii_visible c" "c \<in> set s"
  have "c \<in> set (trim_start space_runes s)"
    by (rule trim_start_keeps[OF c(1) _ c(2)]) (use space_runes_bytes in blast)
  then have "c \<in> set (trim_start (map rev space_runes) (rev (trim_start space_runes s)))"
    by (intro trim_start_keeps[OF c(1)]) (use space_runes_bytes in auto)
  then show ?thesis by (auto simp: TrimSpace_def)
qed

text \<open>Nothing is trimmed from a text that begins and ends with a visible character of ASCII.\<close>

lemma TrimSpace_plain: "ascii_visible c \<Longrightarrow> ascii_visible (last (c # s)) \<Longrightarrow> TrimSpace (c # s) = c # s"
proof -
  assume c: "ascii_visible c" and l: "ascii_visible (last (c # s))"
  have r: "rev (c # s) = last (c # s) # tl (rev (c # s))"
    by (metis hd_rev list.collapse list.distinct(1) rev_is_Nil_conv)
  have "trim_start (map rev space_runes) (rev (c # s)) = rev (c # s)"
    by (subst (1 2) r) (rule trim_start_plain(2)[OF l])
  then show ?thesis by (simp only: TrimSpace_def trim_start_plain(1)[OF c] rev_rev_ident)
qed

lemma plain_quote [simp]: "ascii_visible quote_char"
  by (simp add: ascii_visible_def quote_char_def)

lemmas trim_start_quote [simp] = trim_start_plain(1)[OF plain_quote]

lemma csv_fields_quoted: "csv_fields comma (quote_char # l) rest acc = (case csv_quoted comma l rest [] of
     Inl e \<Rightarrow> Inl e | Inr (f, None, rest1) \<Rightarrow> Inr (acc @ [f], rest1)
   | Inr (f, Some li1, rest1) \<Rightarrow> csv_fields comma li1 rest1 (acc @ [f]))"
  by (subst csv_fields.simps) (simp add: Let_def)

lemma csv_lines_field:
  assumes "csv_lines (write_field f @ s) = li # rest" and "s \<noteq> []"
  obtains l where "li = quote_char # l" and "csv_lines (quoted_text f @ s) = l # rest"
proof -
  obtain l r where l: "csv_lines (quoted_text f @ s) = l # r"
    using csv_lines_nonempty[of "quoted_text f @ s"] assms(2) by auto
  from csv_lines_Cons[OF _ _ l, of quote_char] show thesis
    using assms(1) l by (intro that[of l]) (auto simp: write_field_def)
qed

lemma write_record_first: "fs \<noteq> [] \<Longrightarrow> \<exists>y. write_record comma fs = quote_char # y"
  by (cases "(comma, fs)" rule: write_record.cases) (simp_all add: write_field_def)

text \<open>One record is read field by field, and the lines after it are left.\<close>

lemma read_record:
  assumes "fs \<noteq> []" and "\<forall>f \<in> set fs. carriage_return \<notin> set f" and "comma \<notin> {quote_char, newline, carriage_return}"
    and "csv_lines (write_record comma fs @ s) = li # rest"
  shows "csv_fields comma li rest acc = Inr (acc @ fs, csv_lines s)"
  using assms(1,2,4)
proof (induction fs arbitrary: li rest acc)
  case (Cons f fs)
  have cr: "carriage_return \<notin> set f" using Cons.prems(2) by simp
  show ?case
  proof (cases fs)
    case Nil
    have "csv_lines (write_field f @ newline # s) = li # rest" using Cons.prems(3) Nil by simp
    then obtain l where l: "li = quote_char # l" "csv_lines (quoted_text f @ newline # s) = l # rest" by (rule csv_lines_field) simp
    have "csv_lines (quote_char # newline # s) = [quote_char, newline] # csv_lines s"
      by (rule csv_lines_Cons) (simp_all add: csv_lines_newline)
    from read_quoted[OF cr l(2) _ this, of comma "[]"] have "csv_quoted comma l rest [] = csv_quoted comma [quote_char, newline] (csv_lines s) f"
      by simp
    also have "\<dots> = Inr (f, None, csv_lines s)"
      by (subst csv_quoted.simps) (use assms(3) in \<open>auto simp: Let_def lengthNL_def\<close>)
    finally show ?thesis by (simp add: l(1) csv_fields_quoted Nil)
  next
    case (Cons g gs)
    let ?more = "write_record comma fs @ s"
    have "csv_lines (write_field f @ comma # ?more) = li # rest" using Cons.prems(3) Cons by simp
    then obtain l where l: "li = quote_char # l" "csv_lines (quoted_text f @ comma # ?more) = l # rest" by (rule csv_lines_field) simp
    obtain l3 r3 where l3: "csv_lines ?more = l3 # r3"
      using csv_lines_nonempty[of ?more] write_record_first[of fs comma] Cons by auto
    have "csv_lines (comma # ?more) = (comma # l3) # r3" by (rule csv_lines_Cons[OF _ _ l3]) (use assms(3) in auto)
    then have "csv_lines (quote_char # comma # ?more) = (quote_char # comma # l3) # r3" by (rule csv_lines_Cons[rotated 2]) simp_all
    from read_quoted[OF cr l(2) _ this, of comma "[]"] have "csv_quoted comma l rest [] = csv_quoted comma (quote_char # comma # l3) r3 f"
      by simp
    also have "\<dots> = Inr (f, Some l3, r3)"
      by (subst csv_quoted.simps) (use assms(3) in \<open>simp add: Let_def\<close>)
    finally have "csv_fields comma li rest acc = csv_fields comma l3 r3 (acc @ [f])" by (simp add: l(1) csv_fields_quoted)
    also have "\<dots> = Inr ((acc @ [f]) @ fs, csv_lines s)" by (rule Cons.IH[OF _ _ l3]) (use Cons Cons.prems(2) in auto)
    finally show ?thesis by simp
  qed
qed simp

lemma read_table_append:
  assumes "comma \<notin> {quote_char, newline, carriage_return}"
    and "\<forall>fs \<in> set rs. fs \<noteq> [] \<and> (\<forall>f \<in> set fs. carriage_return \<notin> set f)"
  shows "csv_records comma (csv_lines (write_table comma rs @ s)) = bindE (csv_records comma (csv_lines s)) (\<lambda>r. Inr (rs @ r))"
  using assms(2)
proof (induction rs)
  case Nil
  then show ?case by (simp add: write_table_def bindE_def split: sum.split)
next
  case (Cons fs rs)
  let ?s = "write_table comma rs @ s"
  have t: "write_table comma (fs # rs) @ s = write_record comma fs @ ?s" by (simp add: write_table_def)
  obtain y where y: "write_record comma fs = quote_char # y" using write_record_first[of fs comma] Cons.prems by auto
  obtain li rest where l: "csv_lines (write_record comma fs @ ?s) = li # rest"
    using csv_lines_nonempty[of "write_record comma fs @ ?s"] y by auto
  obtain l2 where l2: "li = quote_char # l2" using csv_lines_first[of quote_char "y @ ?s" li rest] l y by auto
  then have "\<not> blank_line li" by (auto simp: blank_line_def lengthNL_def split: if_splits)
  moreover have "csv_fields comma li rest [] = Inr (fs, csv_lines ?s)"
    using read_record[OF _ _ assms(1) l, of "[]"] Cons.prems by simp
  ultimately have "csv_records comma (csv_lines (write_record comma fs @ ?s)) = bindE (csv_records comma (csv_lines ?s)) (\<lambda>r. Inr (fs # r))"
    by (subst csv_records.simps) (simp add: l)
  then show ?case using Cons.IH Cons.prems by (simp add: t bindE_def split: sum.splits)
qed

lemma csv_reads_table:
  assumes "comma \<notin> {quote_char, newline, carriage_return}"
    and "\<forall>fs \<in> set rs. fs \<noteq> [] \<and> (\<forall>f \<in> set fs. carriage_return \<notin> set f)"
  shows "csv_records comma (csv_lines (write_table comma rs)) = Inr rs"
  using read_table_append[OF assms, of "[]"] by (simp add: csv_records.simps[of comma "[]"])

text \<open>An empty line between two records is no record.\<close>

lemma skip_empty_line: "csv_records comma (csv_lines (newline # s)) = csv_records comma (csv_lines s)"
proof -
  have "blank_line [newline]" by (simp add: blank_line_def lengthNL_def)
  then show ?thesis by (subst (1 2) csv_records.simps) (simp add: csv_lines_newline)
qed


section \<open>The rows a file yields\<close>

definition row_valid :: "'d decimal_lib \<Rightarrow> 'd import_row \<Rightarrow> bool" where
  "row_valid D row \<longleftrightarrow> irName row \<noteq> [] \<and> unit_Valid (irBaseUnit row) \<and> ValidServiceLevel (irServiceLevel row)
     \<and> (\<forall>q \<in> {irOpening row, irManualMin row, irPack row, irMinOrder row}. wfq D q \<and> 0 \<le> qval D q)
     \<and> wfq D (irUnitFactor row) \<and> 0 < qval D (irUnitFactor row) \<and> pred_option (\<lambda>q. wfq D q \<and> 0 \<le> qval D q) (irPrice row)"

context decimal_api
begin

lemma wf_consts: "wfq D (qZero D)" "wfq D (qFromInt D n)"
  by (simp_all add: wfq_def qty_simps)

lemma number_cell_valid: "number_cell D line label raw = (es, q) \<Longrightarrow> wfq D q \<and> 0 \<le> qval D q"
  using wf_consts by (auto simp: number_cell_def qty_simps not_less intro: qParse_wf split: if_splits sum.splits)

lemma factor_cell_valid: "factor_cell D line raw = (es, q) \<Longrightarrow> wfq D q \<and> 0 < qval D q"
  using wf_consts by (auto simp: factor_cell_def Let_def qty_simps intro: qParse_wf split: if_splits sum.splits)

lemma price_cell_valid: "price_cell D line raw = (es, q) \<Longrightarrow> pred_option (\<lambda>q. wfq D q \<and> 0 \<le> qval D q) q"
  by (auto simp: price_cell_def Let_def qty_simps not_less intro: qParse_wf split: if_splits sum.splits)

end

lemma level_cell_valid: "level_cell line raw = (es, l) \<Longrightarrow> ValidServiceLevel l"
  by (auto simp: level_cell_def parseServiceLevel_def Let_def ValidServiceLevel_def ServiceLevels_def split: if_splits option.splits)

lemma unitAliases_valid: "map_of unitAliases s = Some u \<Longrightarrow> unit_Valid u"
  by (drule map_of_SomeD) (auto simp: unitAliases_def unit_Valid_def)

lemma parseRow_valid:
  assumes "decimal_api D" and "parseRow D T line rec columns = (row, [])"
  shows "row_valid D row \<and> irLine row = line"
proof -
  let ?cell = "row_cell rec columns"
  obtain e1 o1 e2 m e3 p e4 mo e5 f e6 pr e7 lv where
    c: "number_cell D line (utf8 [1086, 1089, 1090, 1072, 1090, 1086, 1082]) (?cell ''opening_qty'') = (e1, o1)"
    "number_cell D line (utf8 [1084, 1080, 1085, 1080, 1084, 1091, 1084]) (?cell ''manual_min'') = (e2, m)"
    "number_cell D line (utf8 [1082, 1088, 1072, 1090, 1085, 1086, 1089, 1090, 1100]) (?cell ''pack_multiple'') = (e3, p)"
    "number_cell D line (utf8 [1084, 1080, 1085, 1080, 1084, 1072, 1083, 1100, 1085, 1072, 1103, 32, 1087, 1072, 1088, 1090, 1080, 1103]) (?cell ''min_order'') = (e4, mo)"
    "factor_cell D line (?cell ''unit_factor'') = (e5, f)" "price_cell D line (?cell ''price'') = (e6, pr)"
    "level_cell line (?cell ''service_level'') = (e7, lv)"
    by (metis surj_pair)
  note v = decimal_api.number_cell_valid[OF assms(1) c(1)] decimal_api.number_cell_valid[OF assms(1) c(2)]
    decimal_api.number_cell_valid[OF assms(1) c(3)] decimal_api.number_cell_valid[OF assms(1) c(4)]
    decimal_api.factor_cell_valid[OF assms(1) c(5)] decimal_api.price_cell_valid[OF assms(1) c(6)] level_cell_valid[OF c(7)]
  show ?thesis
    using assms(2) v unitAliases_valid unfolding parseRow_def Let_def c
    by (auto simp: row_valid_def split: if_splits option.splits)
qed

definition rows_valid :: "'d decimal_lib \<Rightarrow> text_lib \<Rightarrow> 'd import_row list \<Rightarrow> bool" where
  "rows_valid D T rows \<longleftrightarrow> (\<forall>row \<in> set rows. row_valid D row) \<and> distinct (map (\<lambda>row. tlToLower T (irName row)) rows)
     \<and> length rows \<le> MaxCSVRows \<and> sorted_wrt (<) (map irLine rows)"

lemma parse_rows_valid:
  assumes "decimal_api D" and "rows_valid D T rows" and "\<forall>row \<in> set rows. tlToLower T (irName row) \<in> fst ` set seen \<and> irLine row < line"
  shows "rows_valid D T (prRows (parse_rows D T columns line recs rows errs seen))
    \<and> (\<forall>e \<in> set errs. e \<in> set (prErrors (parse_rows D T columns line recs rows errs seen)))"
  using assms(2,3)
proof (induction recs arbitrary: line rows errs seen)
  case (Cons rec recs)
  obtain row es where r: "parseRow D T line rec columns = (row, es)" by fastforce
  let ?key = "tlToLower T (irName row)"
  consider (blank) "isBlank rec" | (full) "\<not> isBlank rec" "MaxCSVRows \<le> length rows"
    | (bad) "\<not> isBlank rec" "\<not> MaxCSVRows \<le> length rows" "es \<noteq> []"
    | (dup) f where "\<not> isBlank rec" "\<not> MaxCSVRows \<le> length rows" "es = []" "map_of seen ?key = Some f"
    | (new) "\<not> isBlank rec" "\<not> MaxCSVRows \<le> length rows" "es = []" "map_of seen ?key = None"
    by (cases "map_of seen ?key") auto
  then show ?case
  proof cases
    case new
    from parseRow_valid[OF assms(1)] r new(3) have row: "row_valid D row" "irLine row = line" by auto
    have "?key \<notin> (\<lambda>row. tlToLower T (irName row)) ` set rows"
      using new(4) Cons.prems(2) by (auto simp: map_of_eq_None_iff)
    then have "rows_valid D T (rows @ [row])"
      using Cons.prems row new(2) by (auto simp: rows_valid_def sorted_wrt_append)
    moreover have "\<forall>x \<in> set (rows @ [row]). tlToLower T (irName x) \<in> fst ` set ((?key, line) # seen) \<and> irLine x < line + 1"
      using Cons.prems(2) row by force
    ultimately show ?thesis using Cons.IH[of "rows @ [row]" "(?key, line) # seen" "line + 1" errs] new r by (simp add: Let_def)
  next
    case bad
    have "\<forall>x \<in> set rows. tlToLower T (irName x) \<in> fst ` set seen \<and> irLine x < line + 1" using Cons.prems(2) by force
    from Cons.IH[OF Cons.prems(1) this] show ?thesis using bad r by (auto simp: Let_def)
  next
    case dup
    have "\<forall>x \<in> set rows. tlToLower T (irName x) \<in> fst ` set seen \<and> irLine x < line + 1" using Cons.prems(2) by force
    from Cons.IH[OF Cons.prems(1) this] show ?thesis using dup r by (auto simp: Let_def)
  next
    case blank
    have "\<forall>x \<in> set rows. tlToLower T (irName x) \<in> fst ` set seen \<and> irLine x < line + 1" using Cons.prems(2) by force
    from Cons.IH[OF Cons.prems(1) this] show ?thesis using blank by simp
  next
    case full
    then show ?thesis using Cons.prems(1) by simp
  qed
qed simp



definition sample_text :: text_lib where
  "sample_text = \<lparr>tlToLower = (\<lambda>s. s), tlLower = (\<lambda>s. s)\<rparr>"

definition sample_file :: string where
  "sample_file = write_table CHR '','' [[''name'', ''unit''], [''milk'', ''l'']]"

lemma sample_file_text: "sample_file = [quote_char] @ ''name'' @ [quote_char, CHR '','', quote_char] @ ''unit'' @ [quote_char, newline, quote_char]
    @ ''milk'' @ [quote_char, CHR '','', quote_char] @ ''l'' @ [quote_char, newline]"
  by (simp add: sample_file_def write_table_def write_field_def quote_char_def)

lemma sample_decode: "decodeText (\<lambda>_. None) sample_file = Inr sample_file" 
  by (simp add: sample_file_text decodeText_def quote_char_def newline_def bytes_def valid_text_def char_of_eq_iff)

lemma sample_records: "csv_records CHR '','' (csv_lines sample_file) = Inr [[''name'', ''unit''], [''milk'', ''l'']]"
  unfolding sample_file_def by (rule csv_reads_table) (simp_all add: quote_char_def newline_def carriage_return_def)

lemma sample_delimiter: "detectDelimiter sample_file = CHR '',''"
  by (simp add: detectDelimiter_def sample_file_text count_char_def quote_char_def newline_def)

lemma sample_not_blank: "TrimSpace sample_file \<noteq> []"
  by (rule TrimSpace_not_empty[of quote_char]) (simp_all add: sample_file_text)

abbreviation sample_columns :: "string \<Rightarrow> nat option" where
  "sample_columns \<equiv> column_index sample_text [''name'', ''unit'']"

lemma sample_column [simp]:
  "sample_columns ''name'' = Some 0" "sample_columns ''base_unit'' = Some 1" "sample_columns ''supplier'' = None"
  "sample_columns ''category'' = None" "sample_columns ''opening_qty'' = None" "sample_columns ''service_level'' = None"
  "sample_columns ''manual_min'' = None" "sample_columns ''purchase_unit'' = None" "sample_columns ''unit_factor'' = None"
  "sample_columns ''pack_multiple'' = None" "sample_columns ''min_order'' = None" "sample_columns ''price'' = None"
  by (simp_all add: column_index_def TrimSpace_plain columnAliases_def sample_text_def ascii_visible_def utf8_cyrillic)

lemma sample_map: "mapColumns sample_text [''name'', ''unit''] = Inr sample_columns"
  by (simp add: mapColumns_def Let_def)

text \<open>The row of the sample file.\<close>

definition sample_import :: "dec import_row" where
  "sample_import = \<lparr>irLine = 2, irName = ''milk'', irCategory = [], irBaseUnit = ''l'', irSupplier = [], irServiceLevel = 95,
     irManualMin = qZero dec_lib, irPurchaseUnit = [], irUnitFactor = qFromInt dec_lib 1, irPack = qZero dec_lib,
     irMinOrder = qZero dec_lib, irPrice = None, irOpening = qZero dec_lib\<rparr>"

lemma empty_cells: "number_cell D n label [] = ([], qZero D)" "factor_cell D n [] = ([], qFromInt D 1)"
    "price_cell D n [] = ([], None)" "level_cell n [] = ([], 95)"
  by (simp_all add: number_cell_def factor_cell_def price_cell_def level_cell_def Let_def)

lemma sample_units: "map_of unitAliases ''l'' = Some UnitLiter" "map_of unitAliases ''x'' = None"
  by (simp_all add: unitAliases_def utf8_cyrillic ascii_visible_def)

lemma sample_cells: "row_cell [a, b] sample_columns ''name'' = TrimSpace a" "row_cell [a, b] sample_columns ''base_unit'' = TrimSpace b"
    "sample_columns c = None \<Longrightarrow> row_cell [a, b] sample_columns c = []"
  by (simp_all add: row_cell_def)

lemma sample_lower: "tlToLower sample_text s = s"
  by (simp add: sample_text_def)

lemma sample_trims: "TrimSpace ''milk'' = ''milk''" "TrimSpace ''l'' = ''l''" "TrimSpace ''rice'' = ''rice''" "TrimSpace ''x'' = ''x''"
  by (simp_all add: TrimSpace_plain ascii_visible_def)

lemma sample_row_parsed: "parseRow dec_lib sample_text 2 [''milk'', ''l''] sample_columns = (sample_import, [])"
  unfolding parseRow_def Let_def by (simp add: sample_cells sample_trims sample_lower sample_units empty_cells sample_import_def UnitLiter_def)

lemma sample_row_refused: "\<exists>row. parseRow dec_lib sample_text n [''rice'', ''x''] sample_columns =
    (row, [\<lparr>reLine = n, reColumn = utf8 [1077, 1076, 1080, 1085, 1080, 1094, 1072], reMessage = MsgUnits\<rparr>])"
  unfolding parseRow_def Let_def by (simp add: sample_cells sample_trims sample_lower sample_units empty_cells)

lemma sample_parsed: "ParseCSV dec_lib sample_text (\<lambda>_. None) sample_file = Inr \<lparr>prRows = [sample_import], prErrors = []\<rparr>"
proof -
  have "\<not> MaxCSVSize < length sample_file" by (simp add: sample_file_text MaxCSVSize_def)
  moreover have "parse_rows dec_lib sample_text sample_columns 2 [[''milk'', ''l'']] [] [] [] = \<lparr>prRows = [sample_import], prErrors = []\<rparr>"
    by (simp add: sample_row_parsed isBlank_def TrimSpace_plain ascii_visible_def MaxCSVRows_def Let_def)
  ultimately show ?thesis
    by (simp add: ParseCSV_def sample_decode sample_not_blank sample_delimiter sample_records sample_map Let_def)
qed


section \<open>Line numbers\<close>

definition gap_file :: string where
  "gap_file = sample_file @ [newline] @ write_table CHR '','' [[''rice'', ''x'']]"

lemma gap_text: "gap_file = sample_file @ [newline] @ [quote_char] @ ''rice'' @ [quote_char, CHR '','', quote_char, CHR ''x'', quote_char, newline]"
  by (simp add: gap_file_def write_table_def write_field_def quote_char_def)

lemma gap_records: "csv_records CHR '','' (csv_lines gap_file) = Inr [[''name'', ''unit''], [''milk'', ''l''], [''rice'', ''x'']]"
proof -
  have ok: "CHR '','' \<notin> {quote_char, newline, carriage_return}"
    "\<forall>fs \<in> set [[''name'', ''unit''], [''milk'', ''l'']]. fs \<noteq> [] \<and> (\<forall>f \<in> set fs. carriage_return \<notin> set f)"
    "\<forall>fs \<in> set [[''rice'', ''x'']]. fs \<noteq> [] \<and> (\<forall>f \<in> set fs. carriage_return \<notin> set f)"
    by (simp_all add: quote_char_def newline_def carriage_return_def)
  show ?thesis
    unfolding gap_file_def sample_file_def read_table_append[OF ok(1,2)] append_Cons append_Nil skip_empty_line
    by (simp add: csv_reads_table[OF ok(1,3)])
qed

text \<open>Row errors are numbered by records, and empty lines are no records: the fourth line of a file whose third
  line is empty is reported as line 3.\<close>
theorem error_line_is_not_file_line:
  "drop 3 (csv_lines gap_file) = csv_lines (write_table CHR '','' [[''rice'', ''x'']])
   \<and> (\<exists>res. ParseCSV dec_lib sample_text (\<lambda>_. None) gap_file = Inr res \<and> map reLine (prErrors res) = [3])"
proof
  have "csv_lines gap_file = [[quote_char] @ ''name'' @ [quote_char, CHR '','', quote_char] @ ''unit'' @ [quote_char, newline],
      [quote_char] @ ''milk'' @ [quote_char, CHR '','', quote_char] @ ''l'' @ [quote_char, newline], [newline]]
      @ csv_lines (write_table CHR '','' [[''rice'', ''x'']])"
    by (simp add: gap_file_def sample_file_text csv_lines.simps quote_char_def newline_def line_end_def carriage_return_def)
  then show "drop 3 (csv_lines gap_file) = csv_lines (write_table CHR '','' [[''rice'', ''x'']])" by simp
  have d: "decodeText (\<lambda>_. None) gap_file = Inr gap_file" 
    by (simp add: gap_text sample_file_text decodeText_def quote_char_def newline_def bytes_def valid_text_def char_of_eq_iff)
  have b: "TrimSpace gap_file \<noteq> []" by (rule TrimSpace_not_empty[of quote_char]) (simp_all add: gap_text)
  have l: "\<not> MaxCSVSize < length gap_file" "detectDelimiter gap_file = CHR '',''"
    by (simp_all add: gap_text sample_file_text MaxCSVSize_def detectDelimiter_def count_char_def quote_char_def newline_def)
  obtain row where "parseRow dec_lib sample_text 3 [''rice'', ''x''] sample_columns =
    (row, [\<lparr>reLine = 3, reColumn = utf8 [1077, 1076, 1080, 1085, 1080, 1094, 1072], reMessage = MsgUnits\<rparr>])"
    using sample_row_refused by blast
  then have "parse_rows dec_lib sample_text sample_columns 2 [[''milk'', ''l''], [''rice'', ''x'']] [] [] [] =
    \<lparr>prRows = [sample_import], prErrors = [\<lparr>reLine = 3, reColumn = utf8 [1077, 1076, 1080, 1085, 1080, 1094, 1072], reMessage = MsgUnits\<rparr>]\<rparr>"
    by (simp add: sample_row_parsed isBlank_def sample_trims MaxCSVRows_def Let_def)
  then show "\<exists>res. ParseCSV dec_lib sample_text (\<lambda>_. None) gap_file = Inr res \<and> map reLine (prErrors res) = [3]"
    by (simp add: ParseCSV_def d b l gap_records sample_map Let_def del: parse_rows.simps)
qed

end
