(* ===== verification/Password.thy ===== *)
theory Password
  imports Csv_Correct
begin

text \<open>
  \<open>internal/auth/password.go\<close>, \<open>session.go\<close> and \<open>role.go\<close>: hashes of passwords in the PHC format, tokens and
  roles, with what they use of the standard library: standard base64 without padding and strict, \<open>fmt.Sscanf\<close>
  with \<open>%d\<close>, \<open>strings.Split\<close> and the number of runes. Argon2id belongs to the package \<open>x/crypto\<close> and is a
  parameter, as SHA-256 is; random bytes are arguments.
\<close>

section \<open>Cryptographic functions\<close>

text \<open>\<open>argon2.IDKey\<close> of password, salt, rounds, memory, threads and length of the key; it panics without a round or
  a thread. \<open>sha256.Sum256\<close>.\<close>

record crypto_lib =
  crIDKey :: "string \<Rightarrow> string \<Rightarrow> nat \<Rightarrow> nat \<Rightarrow> nat \<Rightarrow> nat \<Rightarrow> string option"
  crSum256 :: "string \<Rightarrow> string"

definition argon_ok :: "crypto_lib \<Rightarrow> bool" where
  "argon_ok C \<longleftrightarrow> (\<forall>pw salt t m p n. (t = 0 \<or> p = 0 \<longrightarrow> crIDKey C pw salt t m p n = None)
     \<and> (0 < t \<and> 0 < p \<longrightarrow> (\<exists>k. crIDKey C pw salt t m p n = Some k \<and> length k = n)))"

section \<open>Standard base64\<close>

definition std_char :: "char \<Rightarrow> char" where
  "std_char c = (if c = CHR ''-'' then CHR ''+'' else if c = CHR ''_'' then CHR ''/'' else c)"

definition url_char :: "char \<Rightarrow> char" where
  "url_char c = (if c = CHR ''+'' then CHR ''-'' else if c = CHR ''/'' then CHR ''_'' else c)"

definition EncodeStd :: "string \<Rightarrow> string" where
  "EncodeStd s = map std_char (EncodeToString s)"

text \<open>\<open>Strict\<close> demands that the spare bits of the last group are zero.\<close>

fun spare_zero :: "nat list \<Rightarrow> bool" where
  "spare_zero [x, y] = (y mod 16 = 0)"
| "spare_zero [x, y, z] = (z mod 4 = 0)"
| "spare_zero (x # y # z # w # r) = spare_zero r"
| "spare_zero _ = True"

definition DecodeStd :: "string \<Rightarrow> string option" where
  "DecodeStd s = (if CHR ''-'' \<in> set s \<or> CHR ''_'' \<in> set s then None
     else case all_positions (filter (\<lambda>c. c \<noteq> CHR 0x0A \<and> c \<noteq> CHR 0x0D) (map url_char s)) of
       None \<Rightarrow> None | Some ns \<Rightarrow> if spare_zero ns then map_option (map char_of) (b64_bytes ns) else None)"

section \<open>Scanning numbers\<close>

text \<open>\<open>SkipSpace\<close> of \<open>Sscanf\<close>: spaces are passed over, a line end is an error (\<open>None\<close>).\<close>

function skip_space :: "string \<Rightarrow> string option" where
  "skip_space s = (if starts_with [CHR 0x0A] s then None
     else case find (\<lambda>p. p \<noteq> [] \<and> starts_with p s) space_runes of
       None \<Rightarrow> Some s | Some p \<Rightarrow> skip_space (drop (length p) s))"
  by pat_completeness auto
termination
proof (relation "measure length")
  fix s p
  assume "find (\<lambda>p. p \<noteq> [] \<and> starts_with p s) space_runes = Some p"
  then have "p \<noteq> []" "starts_with p s" by (auto simp: find_Some_iff)
  then show "(drop (length p) s, s) \<in> measure length" by (cases p; cases s) auto
qed simp

declare skip_space.simps [simp del]

text \<open>An optional sign (of signed numbers), decimal digits, and the bounds of the type.\<close>

definition scan_number :: "bool \<Rightarrow> int \<Rightarrow> int \<Rightarrow> string \<Rightarrow> (int \<times> string) option" where
  "scan_number sg lo hi s = (case skip_space s of None \<Rightarrow> None
     | Some s1 \<Rightarrow> (let neg = sg \<and> starts_with ''-'' s1;
           s2 = (if sg \<and> (starts_with ''-'' s1 \<or> starts_with ''+'' s1) then drop 1 s1 else s1);
           ds = takeWhile is_digit s2; v = (if neg then - digits_val ds else digits_val ds)
         in if ds = [] \<or> v < lo \<or> hi < v then None else Some (v, dropWhile is_digit s2)))"

definition scan_literal :: "string \<Rightarrow> string \<Rightarrow> string option" where
  "scan_literal lit s = (if take (length lit) s = lit then Some (drop (length lit) s) else None)"

text \<open>\<open>Sscanf(s, "v=%d", &version)\<close> and \<open>Sscanf(s, "m=%d,t=%d,p=%d", ...)\<close>; what follows is not looked at.\<close>

definition scan_version :: "string \<Rightarrow> int option" where
  "scan_version s = (case scan_literal ''v='' s of None \<Rightarrow> None
     | Some s1 \<Rightarrow> map_option fst (scan_number True (- (2 ^ 63)) (2 ^ 63 - 1) s1))"

definition scan_params :: "string \<Rightarrow> (nat \<times> nat \<times> nat) option" where
  "scan_params s = (case scan_literal ''m='' s of None \<Rightarrow> None | Some s1 \<Rightarrow>
     case scan_number False 0 (2 ^ 32 - 1) s1 of None \<Rightarrow> None | Some (m, s2) \<Rightarrow>
     case scan_literal '',t='' s2 of None \<Rightarrow> None | Some s3 \<Rightarrow>
     case scan_number False 0 (2 ^ 32 - 1) s3 of None \<Rightarrow> None | Some (t, s4) \<Rightarrow>
     case scan_literal '',p='' s4 of None \<Rightarrow> None | Some s5 \<Rightarrow>
     case scan_number False 0 (2 ^ 8 - 1) s5 of None \<Rightarrow> None | Some (p, _) \<Rightarrow> Some (nat m, nat t, nat p))"

text \<open>\<open>strings.Split\<close> at a character.\<close>

fun split_at :: "char \<Rightarrow> string \<Rightarrow> string list" where
  "split_at d [] = [[]]"
| "split_at d (c # s) = (if c = d then [] # split_at d s
     else (case split_at d s of [] \<Rightarrow> [[c]] | p # ps \<Rightarrow> (c # p) # ps))"

section \<open>Passwords\<close>

definition argonTime :: nat where "argonTime = 2"
definition argonMemory :: nat where "argonMemory = 64 * 1024"
definition argonThreads :: nat where "argonThreads = 2"
definition argonKeyLen :: nat where "argonKeyLen = 32"
definition saltLen :: nat where "saltLen = 16"
definition argonVersion :: int where "argonVersion = 19"

definition MinPasswordLen :: nat where "MinPasswordLen = 10"
definition MaxPasswordLen :: nat where "MaxPasswordLen = 256"

datatype password_error = ErrPasswordTooShort | ErrPasswordTooLong | ErrInvalidHash | ErrVersion int | ErrRandom | PasswordPanic

text \<open>\<open>len([]rune(s))\<close>: the letters of UTF-8, where every byte that starts no letter counts for one.\<close>

fun rune_count :: "nat list \<Rightarrow> nat" where
  "rune_count [] = 0"
| "rune_count (a # r) = Suc (
     if 194 \<le> a \<and> a < 224 then (case r of b # r1 \<Rightarrow> if 128 \<le> b \<and> b < 192 then rune_count r1 else rune_count r | _ \<Rightarrow> rune_count r)
     else if 224 \<le> a \<and> a < 240 then (case r of b # c # r2 \<Rightarrow>
         if (if a = 224 then 160 else 128) \<le> b \<and> b < (if a = 237 then 160 else 192) \<and> 128 \<le> c \<and> c < 192 then rune_count r2 else rune_count r
       | _ \<Rightarrow> rune_count r)
     else if 240 \<le> a \<and> a < 245 then (case r of b # c # e # r3 \<Rightarrow>
         if (if a = 240 then 144 else 128) \<le> b \<and> b < (if a = 244 then 144 else 192) \<and> 128 \<le> c \<and> c < 192 \<and> 128 \<le> e \<and> e < 192
         then rune_count r3 else rune_count r
       | _ \<Rightarrow> rune_count r)
     else rune_count r)"

definition ValidatePassword :: "string \<Rightarrow> password_error + unit" where
  "ValidatePassword password = (let n = rune_count (map of_char password) in
     if n < MinPasswordLen then Inl ErrPasswordTooShort else if MaxPasswordLen < n then Inl ErrPasswordTooLong else Inr ())"

definition phc_text :: "int \<Rightarrow> nat \<Rightarrow> nat \<Rightarrow> nat \<Rightarrow> string \<Rightarrow> string \<Rightarrow> string" where
  "phc_text v m t p salt key = ''$argon2id$v='' @ int_digits v @ ''$m='' @ int_digits (int m) @ '',t='' @ int_digits (int t)
     @ '',p='' @ int_digits (int p) @ ''$'' @ EncodeStd salt @ ''$'' @ EncodeStd key"

text \<open>\<open>salt\<close> are the bytes that \<open>rand.Read\<close> gives, if it does.\<close>

definition HashPassword :: "crypto_lib \<Rightarrow> string option \<Rightarrow> string \<Rightarrow> password_error + string" where
  "HashPassword C salt password = (case ValidatePassword password of Inl e \<Rightarrow> Inl e
     | Inr _ \<Rightarrow> (case salt of None \<Rightarrow> Inl ErrRandom
         | Some s \<Rightarrow> (case crIDKey C password s argonTime argonMemory argonThreads argonKeyLen of None \<Rightarrow> Inl PasswordPanic
             | Some key \<Rightarrow> Inr (phc_text argonVersion argonMemory argonTime argonThreads s key))))"

record argon_params =
  apMemory :: nat
  apTime :: nat
  apThreads :: nat

definition decodeHash :: "string \<Rightarrow> password_error + (argon_params \<times> string \<times> string)" where
  "decodeHash encoded = (let parts = split_at (CHR ''$'') encoded in
     if length parts \<noteq> 6 \<or> parts ! 1 \<noteq> ''argon2id'' then Inl ErrInvalidHash else
     case scan_version (parts ! 2) of None \<Rightarrow> Inl ErrInvalidHash | Some version \<Rightarrow>
     if version \<noteq> argonVersion then Inl (ErrVersion version) else
     case scan_params (parts ! 3) of None \<Rightarrow> Inl ErrInvalidHash | Some (m, t, p) \<Rightarrow>
     case DecodeStd (parts ! 4) of None \<Rightarrow> Inl ErrInvalidHash | Some salt \<Rightarrow>
     case DecodeStd (parts ! 5) of None \<Rightarrow> Inl ErrInvalidHash | Some key \<Rightarrow>
       Inr (\<lparr>apMemory = m, apTime = t, apThreads = p\<rparr>, salt, key))"

text \<open>\<open>subtle.ConstantTimeCompare\<close> gives one for equal contents.\<close>

definition VerifyPassword :: "crypto_lib \<Rightarrow> string \<Rightarrow> string \<Rightarrow> password_error + bool" where
  "VerifyPassword C password encoded = (case decodeHash encoded of Inl e \<Rightarrow> Inl e
     | Inr (params, salt, key) \<Rightarrow>
         (case crIDKey C password salt (apTime params) (apMemory params) (apThreads params) (length key) of
            None \<Rightarrow> Inl PasswordPanic | Some candidate \<Rightarrow> Inr (key = candidate)))"

section \<open>Tokens\<close>

definition TokenBytes :: nat where "TokenBytes = 32"

definition HashToken :: "crypto_lib \<Rightarrow> string \<Rightarrow> string" where
  "HashToken C token = crSum256 C token"

definition EqualTokens :: "string \<Rightarrow> string \<Rightarrow> bool" where
  "EqualTokens a b \<longleftrightarrow> a = b"

text \<open>\<open>NewToken\<close> and \<open>NewCSRFToken\<close> from the random bytes.\<close>

definition NewToken :: "crypto_lib \<Rightarrow> string option \<Rightarrow> (string \<times> string) option" where
  "NewToken C raw = map_option (\<lambda>r. (EncodeToString r, HashToken C (EncodeToString r))) raw"

section \<open>Roles\<close>

type_synonym role = string

definition RoleOwner :: role where "RoleOwner = ''owner''"
definition RoleStaff :: role where "RoleStaff = ''staff''"

definition role_Valid :: "role \<Rightarrow> bool" where
  "role_Valid r \<longleftrightarrow> r = RoleOwner \<or> r = RoleStaff"

definition role_Label :: "role \<Rightarrow> string" where
  "role_Label r = (if r = RoleOwner then utf8 [1042, 1083, 1072, 1076, 1077, 1083, 1077, 1094]
     else if r = RoleStaff then utf8 [1057, 1086, 1090, 1088, 1091, 1076, 1085, 1080, 1082] else r)"

definition CanManageCatalog :: "role \<Rightarrow> bool" where "CanManageCatalog r \<longleftrightarrow> r = RoleOwner"
definition CanManageSettings :: "role \<Rightarrow> bool" where "CanManageSettings r \<longleftrightarrow> r = RoleOwner"
definition CanManageOrders :: "role \<Rightarrow> bool" where "CanManageOrders r \<longleftrightarrow> r = RoleOwner"
definition CanExportMovements :: "role \<Rightarrow> bool" where "CanExportMovements r \<longleftrightarrow> r = RoleOwner"
definition CanReverseOthers :: "role \<Rightarrow> bool" where "CanReverseOthers r \<longleftrightarrow> r = RoleOwner"

section \<open>Hashes are read back\<close>

lemma std_chars:
  assumes "n < 64"
  shows "url_char (std_char (b64_alphabet ! n)) = b64_alphabet ! n" "std_char (b64_alphabet ! n) \<noteq> CHR ''-''"
    "std_char (b64_alphabet ! n) \<noteq> CHR ''_''" "std_char (b64_alphabet ! n) \<noteq> CHR ''$''"
proof -
  have "\<forall>n \<in> set [0..<64]. url_char (std_char (b64_alphabet ! n)) = b64_alphabet ! n \<and> std_char (b64_alphabet ! n) \<noteq> CHR ''-''
      \<and> std_char (b64_alphabet ! n) \<noteq> CHR ''_'' \<and> std_char (b64_alphabet ! n) \<noteq> CHR ''$''" by code_simp
  then show "url_char (std_char (b64_alphabet ! n)) = b64_alphabet ! n" "std_char (b64_alphabet ! n) \<noteq> CHR ''-''"
    "std_char (b64_alphabet ! n) \<noteq> CHR ''_''" "std_char (b64_alphabet ! n) \<noteq> CHR ''$''" using assms by simp_all
qed

lemma spare_groups: "spare_zero (b64_groups bs)"
  by (induction bs rule: b64_groups.induct) simp_all

lemma byte_groups:
  fixes s :: string
  shows "\<forall>n \<in> set (b64_groups (map of_char s)). n < 64" and "b64_bytes (b64_groups (map of_char s)) = Some (map of_char s)"
proof -
  have "\<forall>x \<in> set (map of_char s). (x :: nat) < 256" by auto
  then show "\<forall>n \<in> set (b64_groups (map of_char s)). n < 64" "b64_bytes (b64_groups (map of_char s)) = Some (map of_char s)"
    by (rule b64_groups_less, rule b64_groups_bytes)
qed

lemma DecodeStd_Encode: "DecodeStd (EncodeStd s) = Some s"
proof -
  have "map url_char (EncodeStd s) = EncodeToString s"
    using byte_groups(1)[of s] by (auto simp: EncodeStd_def EncodeToString_def std_chars)
  moreover have "CHR ''-'' \<notin> set (EncodeStd s)" "CHR ''_'' \<notin> set (EncodeStd s)"
    using byte_groups(1)[of s] std_chars(2,3) by (force simp: EncodeStd_def EncodeToString_def)+
  moreover have "all_positions (filter (\<lambda>c. c \<noteq> CHR 0x0A \<and> c \<noteq> CHR 0x0D) (EncodeToString s)) = Some (b64_groups (map of_char s))"
    unfolding EncodeToString_def by (rule all_positions_alphabet[OF byte_groups(1)])
  ultimately show ?thesis by (simp add: DecodeStd_def spare_groups byte_groups(2) comp_def)
qed

lemma EncodeStd_no_dollar: "CHR ''$'' \<notin> set (EncodeStd s)"
  using byte_groups(1)[of s] std_chars(4) by (force simp: EncodeStd_def EncodeToString_def)

lemma split_at_append: "d \<notin> set p \<Longrightarrow> split_at d (p @ d # s) = p # split_at d s"
  by (induction p) auto

lemma split_at_last: "d \<notin> set p \<Longrightarrow> split_at d p = [p]"
  by (induction p) auto

lemma int_digits_are: "0 \<le> n \<Longrightarrow> list_all is_digit (int_digits n) \<and> digits_val (int_digits n) = n \<and> int_digits n \<noteq> []"
  using int_digits_correct[of n] by (simp add: int_digits.simps[of n])

lemma digit_chars: "is_digit c \<Longrightarrow> ascii_visible c \<and> c \<noteq> CHR 0x0A \<and> c \<noteq> CHR ''-'' \<and> c \<noteq> CHR ''+'' \<and> c \<noteq> CHR ''$''"
  by (auto simp: is_digit_def ascii_visible_def)

lemma skip_space_digit:
  assumes "is_digit c"
  shows "skip_space (c # s) = Some (c # s)"
proof -
  have c: "ascii_visible c" "c \<noteq> CHR 0x0A" using digit_chars[OF assms] by simp_all
  have "\<not> starts_with p (c # s)" if "p \<in> set space_runes" "p \<noteq> []" for p
    using space_runes_bytes[OF that(1)] that(2) c(1) by (cases p) auto
  then have "find (\<lambda>p. p \<noteq> [] \<and> starts_with p (c # s)) space_runes = None" by (auto simp: find_None_iff)
  then show ?thesis using c(2) by (simp add: skip_space.simps[of "c # s"])
qed

lemma scan_digits:
  assumes "0 \<le> n" and "lo \<le> n" and "n \<le> hi" and "r = [] \<or> \<not> is_digit (hd r)"
  shows "scan_number sg lo hi (int_digits n @ r) = Some (n, r)"
proof -
  note d = int_digits_are[OF assms(1)]
  obtain c cs where cs: "int_digits n = c # cs" using d by (cases "int_digits n") auto
  then have c: "is_digit c" using d by simp
  have sign: "c \<noteq> CHR ''-''" "c \<noteq> CHR ''+''" using digit_chars[OF c] by simp_all
  have "takeWhile is_digit (int_digits n @ r) = int_digits n" "dropWhile is_digit (int_digits n @ r) = r"
    using d assms(4) by (cases r; auto simp: list_all_iff takeWhile_append dropWhile_append)+
  then show ?thesis
    using skip_space_digit[OF c, of "cs @ r"] d assms(2,3) sign cs by (simp add: scan_number_def Let_def)
qed

lemma scan_literal_append [simp]: "scan_literal l (l @ s) = Some s"
  by (simp add: scan_literal_def)

lemma scan_version_text: "0 \<le> v \<Longrightarrow> v < 2 ^ 63 \<Longrightarrow> scan_version (''v='' @ int_digits v) = Some v"
  using scan_digits[of v "- (2 ^ 63)" "2 ^ 63 - 1" "[]" True] by (simp add: scan_version_def del: append.simps)

lemma scan_params_text:
  assumes "m < 2 ^ 32" and "t < 2 ^ 32" and "p < 2 ^ 8"
  shows "scan_params (''m='' @ int_digits (int m) @ '',t='' @ int_digits (int t) @ '',p='' @ int_digits (int p)) = Some (m, t, p)"
proof -
  have comma: "\<not> is_digit (CHR '','')" by (simp add: is_digit_def)
  have b: "int m \<le> 2 ^ 32 - 1" "int t \<le> 2 ^ 32 - 1" "int p \<le> 2 ^ 8 - 1" using assms by simp_all
  have 1: "scan_number False 0 (2 ^ 32 - 1) (int_digits (int m) @ '',t='' @ r) = Some (int m, '',t='' @ r)" for r
    by (rule scan_digits) (use b comma in auto)
  have 2: "scan_number False 0 (2 ^ 32 - 1) (int_digits (int t) @ '',p='' @ r) = Some (int t, '',p='' @ r)" for r
    by (rule scan_digits) (use b comma in auto)
  have 3: "scan_number False 0 (2 ^ 8 - 1) (int_digits (int p)) = Some (int p, [])"
    using scan_digits[of "int p" 0 "2 ^ 8 - 1" "[]" False] b by simp
  show ?thesis by (simp only: scan_params_def scan_literal_append option.case 1 2 3 prod.case nat_int)
qed

lemma digits_no_dollar: "0 \<le> n \<Longrightarrow> CHR ''$'' \<notin> set (int_digits n)"
  using int_digits_are[of n] digit_chars by (auto simp: list_all_iff)

lemma decodeHash_text:
  assumes "m < 2 ^ 32" and "t < 2 ^ 32" and "p < 2 ^ 8"
  shows "decodeHash (phc_text argonVersion m t p salt key) = Inr (\<lparr>apMemory = m, apTime = t, apThreads = p\<rparr>, salt, key)"
proof -
  let ?v = "''v='' @ int_digits argonVersion"
  let ?p = "''m='' @ int_digits (int m) @ '',t='' @ int_digits (int t) @ '',p='' @ int_digits (int p)"
  have v: "CHR ''$'' \<notin> set ?v" using digits_no_dollar[of argonVersion] by (simp add: argonVersion_def)
  have ps: "CHR ''$'' \<notin> set ?p" using digits_no_dollar by simp
  have id: "CHR ''$'' \<notin> set ''argon2id''" by simp
  have whole: "phc_text argonVersion m t p salt key
      = CHR ''$'' # ''argon2id'' @ CHR ''$'' # ?v @ CHR ''$'' # ?p @ CHR ''$'' # EncodeStd salt @ CHR ''$'' # EncodeStd key"
    by (simp add: phc_text_def)
  have "split_at (CHR ''$'') (phc_text argonVersion m t p salt key) = [[], ''argon2id'', ?v, ?p, EncodeStd salt, EncodeStd key]"
    unfolding whole split_at.simps if_P[OF refl] split_at_append[OF id] split_at_append[OF v] split_at_append[OF ps]
      split_at_append[OF EncodeStd_no_dollar] split_at_last[OF EncodeStd_no_dollar] by (rule refl)
  then show ?thesis
    using scan_version_text[of argonVersion] scan_params_text[OF assms]
    by (simp add: decodeHash_def Let_def DecodeStd_Encode argonVersion_def numeral_nat del: append.simps)
qed

text \<open>A stored hash lets in exactly the passwords with its key.\<close>

lemma VerifyPassword_phc:
  assumes "crIDKey C pw salt argonTime argonMemory argonThreads (length key) = Some k"
  shows "VerifyPassword C pw (phc_text argonVersion argonMemory argonTime argonThreads salt key) = Inr (key = k)"
proof -
  have "decodeHash (phc_text argonVersion argonMemory argonTime argonThreads salt key)
      = Inr (\<lparr>apMemory = argonMemory, apTime = argonTime, apThreads = argonThreads\<rparr>, salt, key)"
    by (rule decodeHash_text) (simp_all add: argonMemory_def argonTime_def argonThreads_def)
  then show ?thesis using assms by (simp add: VerifyPassword_def)
qed

text \<open>A password of a permitted length is hashed, whatever the salt, and the hash lets in exactly the passwords with
  the same Argon2 key for that salt, the password itself among them; a password that is too short or too long is refused.\<close>
theorem password_roundtrip:
  assumes "argon_ok C"
  shows "(ValidatePassword pw = Inr () \<longrightarrow> (\<exists>h. HashPassword C (Some salt) pw = Inr h \<and> VerifyPassword C pw h = Inr True
       \<and> VerifyPassword C pw' h = Inr (crIDKey C pw' salt argonTime argonMemory argonThreads argonKeyLen
           = crIDKey C pw salt argonTime argonMemory argonThreads argonKeyLen)))
     \<and> (\<forall>e. ValidatePassword pw = Inl e \<longrightarrow> HashPassword C (Some salt) pw = Inl e)"
proof -
  have a: "\<exists>k. crIDKey C x salt argonTime argonMemory argonThreads argonKeyLen = Some k \<and> length k = argonKeyLen" for x
    using assms by (simp add: argon_ok_def argonTime_def argonThreads_def)
  obtain k where k: "crIDKey C pw salt argonTime argonMemory argonThreads argonKeyLen = Some k" "length k = argonKeyLen"
    using a by blast
  obtain k' where k': "crIDKey C pw' salt argonTime argonMemory argonThreads argonKeyLen = Some k'" using a by blast
  have v: "VerifyPassword C x (phc_text argonVersion argonMemory argonTime argonThreads salt k) = Inr (k = y)"
    if "crIDKey C x salt argonTime argonMemory argonThreads argonKeyLen = Some y" for x y
    by (rule VerifyPassword_phc) (use that k in simp)
  show ?thesis using k k' v[OF k(1)] v[OF k'] by (auto simp: HashPassword_def)
qed

section \<open>A sample password\<close>

definition sample_crypto :: crypto_lib where
  "sample_crypto = \<lparr>crIDKey = (\<lambda>pw salt t m p n. if t = 0 \<or> p = 0 then None else Some (take n (pw @ replicate n (CHR 0x00)))),
     crSum256 = (\<lambda>s. s)\<rparr>"

lemma sample_argon: "argon_ok sample_crypto"
  by (auto simp: argon_ok_def sample_crypto_def)

theorem password_roundtrip_witness:
  "\<exists>h. HashPassword sample_crypto (Some ''0123456789abcdef'') ''correct horse'' = Inr h
     \<and> VerifyPassword sample_crypto ''correct horse'' h = Inr True \<and> VerifyPassword sample_crypto ''battery staple'' h = Inr False"
proof -
  have v: "ValidatePassword ''correct horse'' = Inr ()" by code_simp
  have "crIDKey sample_crypto ''battery staple'' s argonTime argonMemory argonThreads argonKeyLen
      \<noteq> crIDKey sample_crypto ''correct horse'' s argonTime argonMemory argonThreads argonKeyLen" for s
    by (simp add: sample_crypto_def argonTime_def argonThreads_def argonKeyLen_def)
  then show ?thesis using v password_roundtrip[OF sample_argon, of "''correct horse''" "''0123456789abcdef''" "''battery staple''"] by auto
qed

end
