(* ===== verification/Ratelimit.thy ===== *)
theory Ratelimit
  imports Float64
begin

text \<open>
  \<open>internal/platform/ratelimit\<close>: a limit by a sliding window over the marks of the calls, one sorted set of Redis
  per key. The scores are doubles, as Redis keeps them; the bound that is passed as text is read back as the double
  nearest to it. That Redis lets a key expire once its last mark is older than the window changes no answer and is
  left out.
\<close>

section \<open>Redis\<close>

text \<open>The member of a mark is the text of the time and of the random suffix, kept as the pair.\<close>

record mark =
  mkScore :: f64
  mkMember :: "int \<times> string"

record redis =
  rdUp :: bool
  rdKeys :: "string \<Rightarrow> mark list"

definition ZRemRangeByScore :: "f64 \<Rightarrow> f64 \<Rightarrow> mark list \<Rightarrow> mark list" where
  "ZRemRangeByScore lo hi ms = filter (\<lambda>m. \<not> (fle lo (mkScore m) \<and> fle (mkScore m) hi)) ms"

definition ZAdd :: "mark \<Rightarrow> mark list \<Rightarrow> mark list" where
  "ZAdd m ms = filter (\<lambda>x. mkMember x \<noteq> mkMember m) ms @ [m]"

definition ZCount :: "f64 \<Rightarrow> mark list \<Rightarrow> nat" where
  "ZCount lo ms = length (filter (\<lambda>m. fle lo (mkScore m)) ms)"

section \<open>The limiter\<close>

text \<open>A limiter without a client lets everything pass.\<close>

datatype limiter = NoLimit | OnRedis

datatype ratelimit_error = RedisFailed

record limit_result =
  Allowed :: bool
  Remaining :: int
  RetryAfter :: int

definition redis_key :: "string \<Rightarrow> string" where
  "redis_key key = ''rl:'' @ key"

text \<open>\<open>now\<close> is \<open>time.Now\<close>, \<open>suffix\<close> what \<open>randSuffix\<close> gives.\<close>

definition Allow :: "limiter \<Rightarrow> int \<Rightarrow> string \<Rightarrow> string \<Rightarrow> int \<Rightarrow> int \<Rightarrow> redis \<Rightarrow> (ratelimit_error + limit_result) \<times> redis" where
  "Allow l now suffix key limit window rd = (if l = NoLimit then (Inr \<lparr>Allowed = True, Remaining = limit, RetryAfter = 0\<rparr>, rd)
     else if \<not> rdUp rd then (Inl RedisFailed, rd)
     else (let k = redis_key key;
         marks = ZAdd \<lparr>mkScore = f64_of_int now, mkMember = (now, suffix)\<rparr>
           (ZRemRangeByScore (Fin 0) (f64_of_int (now - window)) (rdKeys rd k));
         used = int (length marks)
       in (Inr (if limit < used then \<lparr>Allowed = False, Remaining = 0, RetryAfter = window\<rparr>
             else \<lparr>Allowed = True, Remaining = limit - used, RetryAfter = 0\<rparr>),
           rd\<lparr>rdKeys := (rdKeys rd)(k := marks)\<rparr>)))"

definition limit_Reset :: "limiter \<Rightarrow> string \<Rightarrow> redis \<Rightarrow> (ratelimit_error + unit) \<times> redis" where
  "limit_Reset l key rd = (if l = NoLimit then (Inr (), rd) else if \<not> rdUp rd then (Inl RedisFailed, rd)
     else (Inr (), rd\<lparr>rdKeys := (rdKeys rd)(redis_key key := [])\<rparr>))"

definition limit_Count :: "limiter \<Rightarrow> int \<Rightarrow> string \<Rightarrow> int \<Rightarrow> redis \<Rightarrow> ratelimit_error + nat" where
  "limit_Count l now key window rd = (if l = NoLimit then Inr 0 else if \<not> rdUp rd then Inl RedisFailed
     else Inr (ZCount (f64_of_int (now - window)) (rdKeys rd (redis_key key))))"

section \<open>A run of calls\<close>

fun allow_run :: "string \<Rightarrow> int \<Rightarrow> int \<Rightarrow> (int \<times> string) list \<Rightarrow> redis \<Rightarrow> (ratelimit_error + limit_result) list" where
  "allow_run key limit window [] rd = []"
| "allow_run key limit window ((now, suffix) # calls) rd = (case Allow OnRedis now suffix key limit window rd of
     (r, rd') \<Rightarrow> r # allow_run key limit window calls rd')"

text \<open>Time \<open>s\<close> is younger than the window at time \<open>t\<close>, in the precision of the scores.\<close>

definition younger :: "int \<Rightarrow> int \<Rightarrow> int \<Rightarrow> bool" where
  "younger window t s \<longleftrightarrow> flt (f64_of_int (t - window)) (f64_of_int s)"

lemma score_Fin:
  assumes "\<bar>n\<bar> < 2 ^ 63"
  shows "f64_of_int n = Fin (rnd (of_int n))"
proof -
  have b: "is_double (2 ^ 63)" using is_double_exp2r[of 63] by (simp add: exp2r_def)
  have "\<bar>of_int n :: rat\<bar> \<le> of_int (2 ^ 63)" using assms by (simp only: of_int_abs[symmetric] of_int_le_iff)
  then show ?thesis unfolding f64_of_int_def by (intro pack_bounded(1)[OF _ b]) simp
qed

definition clock_ok :: "int \<Rightarrow> (int \<times> string) list \<Rightarrow> bool" where
  "clock_ok window calls \<longleftrightarrow> sorted (map fst calls) \<and> distinct calls \<and> 0 \<le> window
     \<and> (\<forall>c \<in> set calls. window \<le> fst c \<and> fst c < 2 ^ 63)"

text \<open>The rounded times.\<close>

definition stamp :: "int \<Rightarrow> rat" where
  "stamp t = rnd (of_int t)"

lemma stamp_mono: "s \<le> t \<Longrightarrow> stamp s \<le> stamp t"
  unfolding stamp_def by (rule rnd_mono) simp

lemma score_stamp: "0 \<le> t \<Longrightarrow> t < 2 ^ 63 \<Longrightarrow> f64_of_int t = Fin (stamp t)"
  using score_Fin[of t] by (simp add: stamp_def)

definition mark_of :: "int \<times> string \<Rightarrow> mark" where
  "mark_of c = \<lparr>mkScore = Fin (stamp (fst c)), mkMember = c\<rparr>"

text \<open>After the calls \<open>past\<close>, the last of which cut at \<open>edge\<close>, the set holds their marks above every later cut.\<close>

definition marks_of :: "rat \<Rightarrow> (int \<times> string) list \<Rightarrow> mark list \<Rightarrow> bool" where
  "marks_of edge past ms \<longleftrightarrow> (\<forall>m \<in> set ms. m \<in> mark_of ` set past)
     \<and> (\<forall>c \<ge> edge. filter (\<lambda>m. flt (Fin c) (mkScore m)) ms = map mark_of (filter (\<lambda>x. c < stamp (fst x)) past))"

definition young_calls :: "int \<Rightarrow> (int \<times> string) list \<Rightarrow> nat \<Rightarrow> nat" where
  "young_calls window calls i = card {j. j < i \<and> younger window (fst (calls ! i)) (fst (calls ! j))}"

lemma Allow_step:
  assumes ms: "marks_of edge past (rdKeys rd (redis_key key))" and up: "rdUp rd" and edge: "edge \<le> stamp (t - window)"
    and t: "0 \<le> window" "window \<le> t" "t < 2 ^ 63" and new: "(t, s) \<notin> set past" and past: "\<forall>x \<in> set past. 0 \<le> fst x"
    and a: "Allow OnRedis t s key limit window rd = (r, rd')"
  shows "rdUp rd' \<and> marks_of (stamp (t - window)) (past @ [(t, s)]) (rdKeys rd' (redis_key key))
    \<and> (\<exists>x. r = Inr x \<and> (Allowed x \<longleftrightarrow> int (Suc (length (filter (\<lambda>x. stamp (t - window) < stamp (fst x)) past))) \<le> limit))"
proof -
  let ?ms = "rdKeys rd (redis_key key)" and ?c = "stamp (t - window)"
  have sc: "f64_of_int t = Fin (stamp t)" "f64_of_int (t - window) = Fin ?c" using t by (simp_all add: score_stamp)
  have m: "\<exists>x. m = mark_of x \<and> x \<in> set past" if "m \<in> set ?ms" for m
    using ms that unfolding marks_of_def by blast
  have pos: "0 \<le> stamp (fst x)" if "x \<in> set past" for x using past that by (auto simp: stamp_def intro: rnd_nonneg)
  have "ZRemRangeByScore (Fin 0) (Fin ?c) ?ms = filter (\<lambda>m. flt (Fin ?c) (mkScore m)) ?ms"
    unfolding ZRemRangeByScore_def by (rule filter_cong[OF refl]) (use m pos in \<open>force simp: mark_of_def\<close>)
  also have "\<dots> = map mark_of (filter (\<lambda>x. ?c < stamp (fst x)) past)" using ms edge by (simp add: marks_of_def)
  finally have rem: "ZRemRangeByScore (Fin 0) (Fin ?c) ?ms = map mark_of (filter (\<lambda>x. ?c < stamp (fst x)) past)" .
  have "ZAdd (mark_of (t, s)) (map mark_of (filter (\<lambda>x. ?c < stamp (fst x)) past)) = map mark_of (filter (\<lambda>x. ?c < stamp (fst x)) past) @ [mark_of (t, s)]"
    unfolding ZAdd_def using new by (auto simp: filter_id_conv mark_of_def)
  then have marks: "ZAdd \<lparr>mkScore = Fin (stamp t), mkMember = (t, s)\<rparr> (ZRemRangeByScore (Fin 0) (Fin ?c) ?ms)
      = map mark_of (filter (\<lambda>x. ?c < stamp (fst x)) past) @ [mark_of (t, s)]"
    by (simp add: rem mark_of_def)
  have r: "rd' = rd\<lparr>rdKeys := (rdKeys rd)(redis_key key := map mark_of (filter (\<lambda>x. ?c < stamp (fst x)) past) @ [mark_of (t, s)])\<rparr>"
    "\<exists>x. r = Inr x \<and> (Allowed x \<longleftrightarrow> int (Suc (length (filter (\<lambda>x. ?c < stamp (fst x)) past))) \<le> limit)"
    using a up unfolding Allow_def Let_def sc marks by (auto split: if_splits)
  have "marks_of ?c (past @ [(t, s)]) (map mark_of (filter (\<lambda>x. ?c < stamp (fst x)) past) @ [mark_of (t, s)])"
  proof -
    have "filter (\<lambda>m. flt (Fin c) (mkScore m)) (map mark_of (filter (\<lambda>x. ?c < stamp (fst x)) past))
        = map mark_of (filter (\<lambda>x. c < stamp (fst x)) past)" if "?c \<le> c" for c
      using that by (induction past) (auto simp: mark_of_def)
    then show ?thesis by (auto simp: marks_of_def mark_of_def)
  qed
  then show ?thesis using r up by simp
qed

lemma allow_run_exact:
  assumes "clock_ok window (past @ calls)" and "marks_of edge past (rdKeys rd (redis_key key))" and "rdUp rd"
    and "\<forall>c \<in> set calls. edge \<le> stamp (fst c - window)" and "k < length calls"
  shows "\<exists>x. allow_run key limit window calls rd ! k = Inr x \<and> (Allowed x \<longleftrightarrow>
    int (Suc (length (filter (\<lambda>x. stamp (fst (calls ! k) - window) < stamp (fst x)) (past @ take k calls)))) \<le> limit)"
  using assms
proof (induction calls arbitrary: past edge rd k)
  case (Cons c calls)
  obtain t s where c: "c = (t, s)" by (cases c)
  obtain r rd' where a: "Allow OnRedis t s key limit window rd = (r, rd')" by (cases "Allow OnRedis t s key limit window rd")
  note ok = Cons.prems(1)[unfolded clock_ok_def c]
  have "0 \<le> window" "\<forall>x \<in> set past. window \<le> fst x" using ok by simp_all
  then have past: "\<forall>x \<in> set past. 0 \<le> fst x" by (meson order_trans)
  note step = Allow_step[OF Cons.prems(2,3) _ _ _ _ _ past a]
  have step: "rdUp rd' \<and> marks_of (stamp (t - window)) (past @ [(t, s)]) (rdKeys rd' (redis_key key))
    \<and> (\<exists>x. r = Inr x \<and> (Allowed x \<longleftrightarrow> int (Suc (length (filter (\<lambda>x. stamp (t - window) < stamp (fst x)) past))) \<le> limit))"
    by (rule step) (use ok Cons.prems(4) in \<open>auto simp: c\<close>)
  show ?case
  proof (cases k)
    case 0
    then show ?thesis using step a by (simp add: c)
  next
    case (Suc j)
    have later: "\<forall>x \<in> set calls. stamp (t - window) \<le> stamp (fst x - window)"
      using ok by (auto simp: sorted_append intro!: stamp_mono)
    have "\<exists>x. allow_run key limit window calls rd' ! j = Inr x \<and> (Allowed x \<longleftrightarrow>
        int (Suc (length (filter (\<lambda>x. stamp (fst (calls ! j) - window) < stamp (fst x)) ((past @ [(t, s)]) @ take j calls)))) \<le> limit)"
      by (rule Cons.IH[of _ "stamp (t - window)"]) (use step later Cons.prems(1,5) Suc c in auto)
    then show ?thesis using a Suc by (simp add: c)
  qed
qed simp

text \<open>(C39) The window slides exactly: of calls with growing times the one at \<open>i\<close> is allowed if and only if it and the
  earlier calls younger than the window, allowed or not, are at most \<open>limit\<close>. So at most \<open>limit\<close> calls are allowed in
  any window, also across the borders of minutes. Ages are compared in the precision of the scores.\<close>
theorem Allow_slides:
  fixes limit :: int and key :: string
  assumes "clock_ok window calls" and "rdUp rd" and "rdKeys rd (redis_key key) = []" and "i < length calls"
  defines "answers \<equiv> allow_run key limit window calls rd"
  shows "(\<exists>x. answers ! i = Inr x \<and> (Allowed x \<longleftrightarrow> int (Suc (young_calls window calls i)) \<le> limit))
    \<and> int (card {j. j \<le> i \<and> (j = i \<or> younger window (fst (calls ! i)) (fst (calls ! j))) \<and> (\<exists>x. answers ! j = Inr x \<and> Allowed x)}) \<le> max 0 limit"
proof -
  have ok: "\<forall>c \<in> set calls. window \<le> fst c \<and> fst c < 2 ^ 63" "0 \<le> window" "sorted (map fst calls)"
    using assms(1) by (simp_all add: clock_ok_def)
  have yg: "younger window (fst (calls ! k)) (fst (calls ! j)) \<longleftrightarrow> stamp (fst (calls ! k) - window) < stamp (fst (calls ! j))"
    if "k < length calls" "j < length calls" for j k
  proof -
    have "window \<le> fst (calls ! k)" "fst (calls ! k) < 2 ^ 63" "0 \<le> fst (calls ! j)" "fst (calls ! j) < 2 ^ 63"
      using ok that nth_mem by (metis order_trans)+
    then show ?thesis using ok(2) by (simp add: younger_def score_stamp)
  qed
  have count: "length (filter (\<lambda>x. stamp (fst (calls ! k) - window) < stamp (fst x)) (take k calls)) = young_calls window calls k"
    if k: "k < length calls" for k
  proof -
    have "{j. j < k \<and> younger window (fst (calls ! k)) (fst (calls ! j))}
        = {j. j < length (take k calls) \<and> stamp (fst (calls ! k) - window) < stamp (fst (take k calls ! j))}"
      using k yg by auto
    then show ?thesis by (simp add: young_calls_def length_filter_conv_card)
  qed
  have exact: "\<exists>x. answers ! k = Inr x \<and> (Allowed x \<longleftrightarrow> int (Suc (young_calls window calls k)) \<le> limit)" if "k < length calls" for k
  proof -
    define edge where "edge = Min (insert 0 ((\<lambda>c. stamp (fst c - window)) ` set calls))"
    have "marks_of edge [] (rdKeys rd (redis_key key))" using assms(3) by (simp add: marks_of_def)
    moreover have "\<forall>c \<in> set calls. edge \<le> stamp (fst c - window)" by (simp add: edge_def)
    ultimately show ?thesis
      using allow_run_exact[of window "[]" calls edge rd key k limit] assms(1,2) that count[OF that] by (simp add: answers_def)
  qed
  let ?S = "{j. j \<le> i \<and> (j = i \<or> younger window (fst (calls ! i)) (fst (calls ! j))) \<and> (\<exists>x. answers ! j = Inr x \<and> Allowed x)}"
  have fin: "finite ?S" by simp
  have "int (card ?S) \<le> max 0 limit"
  proof (cases "?S = {}")
    case False
    define k where "k = Max ?S"
    have kS: "k \<in> ?S" unfolding k_def by (rule Max_in[OF fin False])
    then have k: "k < length calls" "k \<le> i" using assms(4) by simp_all
    have "j = k \<or> j < k \<and> younger window (fst (calls ! k)) (fst (calls ! j))" if j: "j \<in> ?S" for j
    proof -
      have jk: "j \<le> k" unfolding k_def by (rule Max_ge[OF fin j])
      show ?thesis
      proof (cases "j = k")
        case False
        then have "j < k" using jk by simp
        then have "younger window (fst (calls ! i)) (fst (calls ! j))" using j k by auto
        then have "stamp (fst (calls ! i) - window) < stamp (fst (calls ! j))" using yg[of i j] assms(4) k jk by simp
        moreover have "fst (calls ! k) \<le> fst (calls ! i)" using ok(3) k assms(4) sorted_nth_mono[of "map fst calls" k i] by simp
        then have "stamp (fst (calls ! k) - window) \<le> stamp (fst (calls ! i) - window)" by (intro stamp_mono) simp
        ultimately show ?thesis using yg[of k j] k jk \<open>j < k\<close> by simp
      qed simp
    qed
    then have "?S \<subseteq> insert k {j. j < k \<and> younger window (fst (calls ! k)) (fst (calls ! j))}" by blast
    then have "card ?S \<le> card (insert k {j. j < k \<and> younger window (fst (calls ! k)) (fst (calls ! j))})" by (intro card_mono) simp_all
    also have "\<dots> = Suc (young_calls window calls k)" by (simp add: young_calls_def)
    finally have "int (card ?S) \<le> int (Suc (young_calls window calls k))" by simp
    moreover have "int (Suc (young_calls window calls k)) \<le> limit" using exact[OF k(1)] kS by auto
    ultimately show ?thesis by simp
  next
    case True
    show ?thesis unfolding True by simp
  qed
  then show ?thesis using exact[OF assms(4)] by blast
qed

section \<open>Three calls in two seconds\<close>

abbreviation sample_calls :: "(int \<times> string) list" where
  "sample_calls \<equiv> [(100000000000, ''a''), (101000000000, ''b''), (102000000000, ''c'')]"

definition sample_redis :: redis where
  "sample_redis = \<lparr>rdUp = True, rdKeys = (\<lambda>_. [])\<rparr>"

theorem Allow_slides_witness:
  "\<exists>x. allow_run ''login'' 2 60000000000 sample_calls sample_redis ! 2 = Inr x \<and> \<not> Allowed x"
proof -
  have ok: "clock_ok 60000000000 sample_calls" "rdUp sample_redis" "rdKeys sample_redis (redis_key ''login'') = []"
    by (simp_all add: clock_ok_def sample_redis_def)
  have "{j. j < 2 \<and> younger 60000000000 (fst (sample_calls ! 2)) (fst (sample_calls ! j))} = {0, 1 :: nat}"
    by (auto simp: younger_def f64_of_int_exact less_2_cases_iff)
  then have "young_calls 60000000000 sample_calls 2 = 2" by (simp add: young_calls_def)
  then show ?thesis using Allow_slides[OF ok, of 2 2] by auto
qed

end
