(* ===== verification/Order_Model.thy ===== *)
theory Order_Model
  imports Order_Db Stock
begin

text \<open>
  \<open>internal/orders/orders.go\<close> and the text of an order from \<open>service.go\<close>: statuses, the order
  with its lines, purchase units, the mismatch of a receipt. Division by zero and an index outside a
  table are panics, \<open>None\<close> here.
\<close>

section \<open>Statuses\<close>

type_synonym order_status = string

definition StatusDraft :: order_status where "StatusDraft = ''draft''"
definition StatusSent :: order_status where "StatusSent = ''sent''"
definition StatusReceived :: order_status where "StatusReceived = ''received''"
definition StatusCancelled :: order_status where "StatusCancelled = ''cancelled''"

definition order_Label :: "order_status \<Rightarrow> string" where
  "order_Label s = (if s = StatusDraft then utf8 [1063, 1077, 1088, 1085, 1086, 1074, 1080, 1082]
     else if s = StatusSent then utf8 [1054, 1090, 1087, 1088, 1072, 1074, 1083, 1077, 1085]
     else if s = StatusReceived then utf8 [1055, 1088, 1080, 1085, 1103, 1090]
     else if s = StatusCancelled then utf8 [1054, 1090, 1084, 1077, 1085, 1105, 1085]
     else s)"

lemmas order_statuses = StatusDraft_def StatusSent_def StatusReceived_def StatusCancelled_def

section \<open>Orders\<close>

record 'd order_line =
  lnItem :: uuid
  lnItemName :: string
  lnBaseUnit :: string
  QtyOrdered :: "'d qty"
  QtyReceived :: "'d qty option"
  lnPurchaseUnit :: string
  lnUnitFactor :: "'d qty"
  lnPrice :: "'d qty option"

record 'd order =
  orID :: uuid
  orSupplier :: uuid
  orSupplierName :: string
  orStatus :: order_status
  orStatusLabel :: string
  orExpectedAt :: day
  orSentAt :: "instant option"
  orReceivedAt :: "instant option"
  orCancelledAt :: "instant option"
  orNote :: string
  orCreatedBy :: "uuid option"
  orCreatedAt :: instant
  orLines :: "'d order_line list"
  orText :: string
  orLate :: bool

definition InPurchaseUnits :: "'d decimal_lib \<Rightarrow> 'd order_line \<Rightarrow> 'd qty \<Rightarrow> 'd qty option" where
  "InPurchaseUnits D l base = (if \<not> qIsPositive D (lnUnitFactor l) then Some base
     else map_option (qFromDecimal D) (dDiv D (qdec base) (qdec (lnUnitFactor l))))"

definition Mismatch :: "'d decimal_lib \<Rightarrow> 'd order_line \<Rightarrow> 'd qty" where
  "Mismatch D l = (case QtyReceived l of None \<Rightarrow> qZero D | Some r \<Rightarrow> qSub D r (QtyOrdered l))"

definition MismatchThreshold :: f64 where
  "MismatchThreshold = pack (5 / 100)"

definition mismatch_sums :: "'d decimal_lib \<Rightarrow> 'd order_line list \<Rightarrow> 'd qty \<times> 'd qty" where
  "mismatch_sums D = foldl (\<lambda>(ordered, received) l. (qAdd D ordered (QtyOrdered l),
     case QtyReceived l of None \<Rightarrow> received | Some r \<Rightarrow> qAdd D received r)) (qZero D, qZero D)"

definition HasSignificantMismatch :: "'d decimal_lib \<Rightarrow> 'd order \<Rightarrow> bool" where
  "HasSignificantMismatch D ord = (case mismatch_sums D (orLines ord) of (ordered, received) \<Rightarrow>
     if \<not> qIsPositive D ordered then False
     else flt MismatchThreshold (fdiv (qFloat64 D (qAbs D (qSub D received ordered))) (qFloat64 D ordered)))"

section \<open>The text of an order\<close>

definition decimal_text_of :: "int \<Rightarrow> string" where
  "decimal_text_of n = append_int n 0"

text \<open>\<open>order_unit_label\<close> is \<open>unitLabel\<close>, of which \<open>orders\<close> and \<open>notify\<close> have a copy each.\<close>

definition order_unit_label :: "string \<Rightarrow> string" where
  "order_unit_label u = (if u = ''kg'' then utf8 [1082, 1075] else if u = ''l'' then utf8 [1083]
     else if u = ''pcs'' then utf8 [1096, 1090] else u)"

definition monthsGenitive :: "string list" where
  "monthsGenitive = [[], utf8 [1103, 1085, 1074, 1072, 1088, 1103],
     utf8 [1092, 1077, 1074, 1088, 1072, 1083, 1103],
     utf8 [1084, 1072, 1088, 1090, 1072],
     utf8 [1072, 1087, 1088, 1077, 1083, 1103],
     utf8 [1084, 1072, 1103],
     utf8 [1080, 1102, 1085, 1103],
     utf8 [1080, 1102, 1083, 1103],
     utf8 [1072, 1074, 1075, 1091, 1089, 1090, 1072],
     utf8 [1089, 1077, 1085, 1090, 1103, 1073, 1088, 1103],
     utf8 [1086, 1082, 1090, 1103, 1073, 1088, 1103],
     utf8 [1085, 1086, 1103, 1073, 1088, 1103],
     utf8 [1076, 1077, 1082, 1072, 1073, 1088, 1103]]"

definition index_text :: "string list \<Rightarrow> int \<Rightarrow> string option" where
  "index_text xs i = (if 0 \<le> i \<and> i < int (length xs) then Some (xs ! nat i) else None)"

definition formatDay :: "day \<Rightarrow> string option" where
  "formatDay d = map_option (\<lambda>m. decimal_text_of (Date d) @ '' '' @ m) (index_text monthsGenitive (Month d))"

definition dash :: string where
  "dash = utf8 [32, 8212, 32]"

definition bullet :: string where
  "bullet = utf8 [8226, 32]"

definition line_text :: "'d decimal_lib \<Rightarrow> 'd order_line \<Rightarrow> string option" where
  "line_text D l = (let base = qHuman D (QtyOrdered l) @ '' '' @ order_unit_label (lnBaseUnit l) in
     map_option (\<lambda>t. bullet @ lnItemName l @ dash @ t @ [CHR 0x0A])
       (if lnPurchaseUnit l \<noteq> [] \<and> qIsPositive D (lnUnitFactor l)
        then map_option (\<lambda>packs. qHuman D packs @ '' '' @ lnPurchaseUnit l @ '' ('' @ base @ '')'')
               (InPurchaseUnits D l (QtyOrdered l))
        else Some base))"

fun concat_texts :: "string option list \<Rightarrow> string option" where
  "concat_texts [] = Some []"
| "concat_texts (t # ts) = (case t of None \<Rightarrow> None | Some x \<Rightarrow> map_option ((@) x) (concat_texts ts))"

definition OrderText :: "'d decimal_lib \<Rightarrow> string \<Rightarrow> 'd order \<Rightarrow> day \<Rightarrow> string option" where
  "OrderText D tenant_name ord expected = concat_texts (
     [Some (utf8 [1047, 1072, 1082, 1072, 1079, 32, 1086, 1090, 32, 171] @ tenant_name @ utf8 [187] @ [CHR 0x0A]),
      (if IsZero expected then Some [] else map_option (\<lambda>x. utf8 [1055, 1086, 1089, 1090, 1072, 1074, 1082, 1072, 58, 32] @ x @ [CHR 0x0A]) (formatDay expected)),
      Some [CHR 0x0A]] @
     map (line_text D) (orLines ord) @
     [Some (if orNote ord = [] then [] else [CHR 0x0A] @ orNote ord @ [CHR 0x0A])])"

section \<open>Reading orders\<close>

definition isLate :: "'d order \<Rightarrow> day \<Rightarrow> bool" where
  "isLate ord today \<longleftrightarrow> orStatus ord = StatusSent \<and> \<not> IsZero (orExpectedAt ord) \<and> Before (orExpectedAt ord) today"

definition orderFromRow :: "order_row \<Rightarrow> 'd order" where
  "orderFromRow r = \<lparr>orID = po_id r, orSupplier = po_supplier r, orSupplierName = [], orStatus = po_status r,
     orStatusLabel = order_Label (po_status r), orExpectedAt = pg_Day (po_expected_at r), orSentAt = po_sent_at r,
     orReceivedAt = po_received_at r, orCancelledAt = po_cancelled_at r, orNote = po_note r,
     orCreatedBy = po_created_by r, orCreatedAt = po_created_at r, orLines = [], orText = [], orLate = False\<rparr>"

definition line_of_row :: "'d decimal_lib \<Rightarrow> order_line_list_row \<Rightarrow> 'd order_line" where
  "line_of_row D l = (let r = orLine l in \<lparr>lnItem = ol_item r, lnItemName = orItemName l, lnBaseUnit = orBaseUnit l,
     QtyOrdered = pg_Qty D (ol_qty_ordered r), QtyReceived = NullQty D (ol_qty_received r),
     lnPurchaseUnit = ol_purchase_unit r, lnUnitFactor = pg_Qty D (ol_unit_factor r),
     lnPrice = NullQty D (ol_price r)\<rparr>)"

end
