(* ===== verification/Messages.thy ===== *)
theory Messages
  imports Order_Model Cursor "HOL-Library.Word" "HOL-Library.Signed_Division"
begin

text \<open>
  \<open>internal/notify/notify.go\<close> and \<open>message.go\<close>: the kinds of notifications, their keys against
  duplicates, and their texts. A month outside the calendar is an index out of range, \<open>None\<close> here.
\<close>

section \<open>Kinds and keys\<close>

type_synonym notification_type = string

definition TypeDailyDigest :: notification_type where "TypeDailyDigest = ''daily_digest''"
definition TypeCritical :: notification_type where "TypeCritical = ''critical''"
definition TypeCutoffReminder :: notification_type where "TypeCutoffReminder = ''cutoff_reminder''"
definition TypeOrderLate :: notification_type where "TypeOrderLate = ''order_late''"
definition TypeReceiptMismatch :: notification_type where "TypeReceiptMismatch = ''receipt_mismatch''"
definition ChannelTelegram :: string where "ChannelTelegram = ''telegram''"
definition ChannelEmail :: string where "ChannelEmail = ''email''"
definition MaxAttempts :: int where "MaxAttempts = 5"

text \<open>\<open>minutes\<close> is an \<open>int\<close> of 64 bits; the loop runs \<open>attempt - 1\<close> times.\<close>

fun backoff_loop :: "nat \<Rightarrow> 64 word \<Rightarrow> 64 word" where
  "backoff_loop 0 minutes = minutes"
| "backoff_loop (Suc n) minutes = backoff_loop n (minutes * 5)"

definition backoff :: "int \<Rightarrow> int" where
  "backoff attempt = (let minutes = sint (backoff_loop (nat (attempt - 1)) 1) in
     if 24 * 60 < minutes then 24 * 60 else minutes)"

fun DedupKey :: "string list \<Rightarrow> string" where
  "DedupKey [] = []"
| "DedupKey [p] = p"
| "DedupKey (p # ps) = p @ '':'' @ DedupKey ps"

definition CriticalKey :: "uuid_lib \<Rightarrow> uuid \<Rightarrow> day \<Rightarrow> string" where
  "CriticalKey U iid d = DedupKey [''critical'', uString U iid, day_String d]"

definition DigestKey :: "day \<Rightarrow> string" where
  "DigestKey d = DedupKey [''digest'', day_String d]"

definition CutoffKey :: "uuid_lib \<Rightarrow> uuid \<Rightarrow> day \<Rightarrow> string" where
  "CutoffKey U sid d = DedupKey [''cutoff'', uString U sid, day_String d]"

definition LateKey :: "uuid_lib \<Rightarrow> uuid \<Rightarrow> string" where
  "LateKey U oid = DedupKey [''late'', uString U oid]"

definition MismatchKey :: "uuid_lib \<Rightarrow> uuid \<Rightarrow> string" where
  "MismatchKey U oid = DedupKey [''mismatch'', uString U oid]"

definition notification_Label :: "notification_type \<Rightarrow> string" where
  "notification_Label t = (if t = TypeDailyDigest then utf8 [1057, 1074, 1086, 1076, 1082, 1072]
     else if t = TypeCritical then utf8 [1057, 1088, 1086, 1095, 1085, 1086]
     else if t = TypeCutoffReminder then utf8 [1053, 1072, 1087, 1086, 1084, 1080, 1085, 1072, 1085, 1080, 1077]
     else if t = TypeOrderLate then utf8 [1054, 1087, 1086, 1079, 1076, 1072, 1085, 1080, 1077]
     else if t = TypeReceiptMismatch then utf8 [1056, 1072, 1089, 1093, 1086, 1078, 1076, 1077, 1085, 1080, 1077]
     else t)"

section \<open>Dates\<close>

definition weekdaysShort :: "string list" where
  "weekdaysShort = [[], utf8 [1087, 1085],
     utf8 [1074, 1090],
     utf8 [1089, 1088],
     utf8 [1095, 1090],
     utf8 [1087, 1090],
     utf8 [1089, 1073],
     utf8 [1074, 1089]]"

definition weekdaysLong :: "string list" where
  "weekdaysLong = [[], utf8 [1087, 1086, 1085, 1077, 1076, 1077, 1083, 1100, 1085, 1080, 1082],
     utf8 [1074, 1090, 1086, 1088, 1085, 1080, 1082],
     utf8 [1089, 1088, 1077, 1076, 1072],
     utf8 [1095, 1077, 1090, 1074, 1077, 1088, 1075],
     utf8 [1087, 1103, 1090, 1085, 1080, 1094, 1072],
     utf8 [1089, 1091, 1073, 1073, 1086, 1090, 1072],
     utf8 [1074, 1086, 1089, 1082, 1088, 1077, 1089, 1077, 1085, 1100, 1077]]"

definition monthsShort :: "string list" where
  "monthsShort = [[], utf8 [1103, 1085, 1074],
     utf8 [1092, 1077, 1074],
     utf8 [1084, 1072, 1088],
     utf8 [1072, 1087, 1088],
     utf8 [1084, 1072, 1103],
     utf8 [1080, 1102, 1085],
     utf8 [1080, 1102, 1083],
     utf8 [1072, 1074, 1075],
     utf8 [1089, 1077, 1085],
     utf8 [1086, 1082, 1090],
     utf8 [1085, 1086, 1103],
     utf8 [1076, 1077, 1082]]"

definition longDate :: "day \<Rightarrow> string option" where
  "longDate d = (if IsZero d then Some [] else
     map_option (\<lambda>m. weekdaysLong ! nat (Weekday d) @ '', '' @ decimal_text_of (Date d) @ '' '' @ m)
       (index_text monthsGenitive (Month d)))"

definition shortDate :: "day \<Rightarrow> string option" where
  "shortDate d = (if IsZero d then Some [] else
     map_option (\<lambda>m. decimal_text_of (Date d) @ '' '' @ m) (index_text monthsShort (Month d)))"

definition weekdayShort :: "day \<Rightarrow> string" where
  "weekdayShort d = (if IsZero d then [] else weekdaysShort ! nat (Weekday d))"

definition stockoutPhrase :: "day \<Rightarrow> day \<Rightarrow> string" where
  "stockoutPhrase stockout today = (if IsZero stockout then utf8 [1079, 1072, 1087, 1072, 1089, 32, 1085, 1072, 32, 1080, 1089, 1093, 1086, 1076, 1077]
     else if day_Sub stockout today = 0 then utf8 [1093, 1074, 1072, 1090, 1080, 1090, 32, 1090, 1086, 1083, 1100, 1082, 1086, 32, 1085, 1072, 32, 1089, 1077, 1075, 1086, 1076, 1085, 1103]
     else if day_Sub stockout today = 1 then utf8 [1093, 1074, 1072, 1090, 1080, 1090, 32, 1090, 1086, 1083, 1100, 1082, 1086, 32, 1076, 1086, 32, 1079, 1072, 1074, 1090, 1088, 1072]
     else utf8 [1093, 1074, 1072, 1090, 1080, 1090, 32, 1090, 1086, 1083, 1100, 1082, 1086, 32, 1076, 1086, 32] @ weekdayShort stockout)"

text \<open>The remainder of Go takes the sign of the dividend.\<close>

definition pluralItems :: "int \<Rightarrow> string" where
  "pluralItems n = (let abs' = n smod 100; last' = abs' smod 10; num = decimal_text_of n @ '' '' in
     if 10 < abs' \<and> abs' < 20 then num @ utf8 [1087, 1086, 1079, 1080, 1094, 1080, 1081]
     else if 1 < last' \<and> last' < 5 then num @ utf8 [1087, 1086, 1079, 1080, 1094, 1080, 1080]
     else if last' = 1 then num @ utf8 [1087, 1086, 1079, 1080, 1094, 1080, 1103]
     else num @ utf8 [1087, 1086, 1079, 1080, 1094, 1080, 1081])"

section \<open>The digest\<close>

record 'd digest_line =
  dlName :: string
  dlQty :: "'d qty"
  dlUnit :: string
  dlPurchaseQty :: "'d qty option"
  dlPurchaseUnit :: string
  dlStockoutDate :: day

record 'd digest_supplier =
  dsName :: string
  dsCutoff :: time_of_day
  dsDeliveryAt :: day
  dsLines :: "'d digest_line list"

record digest_critical =
  dcrName :: string
  dcrStockoutDate :: day
  dcrNextDelivery :: day

record 'd digest_data =
  ddTenantName :: string
  ddDay :: day
  ddSuppliers :: "'d digest_supplier list"
  ddCritical :: "digest_critical list"
  ddDashboardURL :: string

definition OrderCount :: "'d digest_data \<Rightarrow> nat" where
  "OrderCount d = sum_list (map (\<lambda>s. length (dsLines s)) (ddSuppliers d))"

definition digest_Empty :: "'d digest_data \<Rightarrow> bool" where
  "digest_Empty d \<longleftrightarrow> OrderCount d = 0 \<and> ddCritical d = []"

definition formatOrderQty :: "'d decimal_lib \<Rightarrow> 'd digest_line \<Rightarrow> string" where
  "formatOrderQty D l = (let base = qHuman D (dlQty l) @ '' '' @ order_unit_label (dlUnit l) in
     case dlPurchaseQty l of
       Some p \<Rightarrow> if dlPurchaseUnit l \<noteq> [] then qHuman D p @ '' '' @ dlPurchaseUnit l @ '' ('' @ base @ '')'' else base
     | None \<Rightarrow> base)"

definition digest_line_text :: "'d decimal_lib \<Rightarrow> 'd digest_line \<Rightarrow> string" where
  "digest_line_text D l = ''  '' @ bullet @ dlName l @ dash @ formatOrderQty D l @
     (if IsZero (dlStockoutDate l) then [] else utf8 [44, 32, 1089, 1077, 1081, 1095, 1072, 1089, 32, 1093, 1074, 1072, 1090, 1080, 1090, 32, 1076, 1086, 32] @ weekdayShort (dlStockoutDate l)) @ [CHR 0x0A]"

definition digest_supplier_text :: "'d decimal_lib \<Rightarrow> 'd digest_supplier \<Rightarrow> string" where
  "digest_supplier_text D s = dsName s @ utf8 [32, 8212, 32, 1076, 1086, 32] @ tod_String (dsCutoff s) @
     (if IsZero (dsDeliveryAt s) then [] else utf8 [44, 32, 1087, 1086, 1089, 1090, 1072, 1074, 1082, 1072, 32, 1074, 32] @ weekdayShort (dsDeliveryAt s)) @ [CHR 0x0A] @
     concat (map (digest_line_text D) (dsLines s))"

definition digest_critical_text :: "day \<Rightarrow> digest_critical \<Rightarrow> string" where
  "digest_critical_text today c = ''  '' @ bullet @ dcrName c @ dash @ stockoutPhrase (dcrStockoutDate c) today @
     (if IsZero (dcrNextDelivery c) then [] else utf8 [44, 32, 1073, 1083, 1080, 1078, 1072, 1081, 1096, 1072, 1103, 32, 1087, 1086, 1089, 1090, 1072, 1074, 1082, 1072, 32, 1074, 32] @ weekdayShort (dcrNextDelivery c)) @ [CHR 0x0A]"

definition digest_items :: "'d digest_data \<Rightarrow> 'd payload_item list" where
  "digest_items d = concat (map (\<lambda>s. map (\<lambda>l. \<lparr>piItem = None, piName = dlName l, piQty = dlQty l, piUnit = dlUnit l,
     piNote = dsName s\<rparr>) (dsLines s)) (ddSuppliers d))"

definition RenderDigest :: "'d decimal_lib \<Rightarrow> 'd digest_data \<Rightarrow> 'd payload option" where
  "RenderDigest D d = (case (longDate (ddDay d), shortDate (ddDay d)) of
       (Some long, Some short) \<Rightarrow> Some \<lparr>
         plTitle = utf8 [1057, 1074, 1086, 1076, 1082, 1072, 32, 1085, 1072, 32] @ short,
         plBody = ddTenantName d @ utf8 [32, 183, 32] @ long @ [CHR 0x0A] @
           (if OrderCount d = 0 then [] else [CHR 0x0A] @ utf8 [1047, 1072, 1082, 1072, 1079, 1072, 1090, 1100, 32, 1089, 1077, 1075, 1086, 1076, 1085, 1103, 32, 40] @ decimal_text_of (int (OrderCount d)) @ '')'' @ [CHR 0x0A] @
              concat (map (digest_supplier_text D) (ddSuppliers d))) @
           (if ddCritical d = [] then [] else [CHR 0x0A] @ utf8 [1050, 1088, 1080, 1090, 1080, 1095, 1085, 1086, 32, 40] @ decimal_text_of (int (length (ddCritical d))) @ '')'' @ [CHR 0x0A] @
              concat (map (digest_critical_text (ddDay d)) (ddCritical d))) @
           (if ddDashboardURL d = [] then [] else [CHR 0x0A] @ utf8 [1054, 1090, 1082, 1088, 1099, 1090, 1100, 32, 1076, 1072, 1096, 1073, 1086, 1088, 1076, 32, 8594] @ [CHR 0x0A]),
         plLink = ddDashboardURL d,
         plItems = digest_items d\<rparr>
     | _ \<Rightarrow> None)"

section \<open>The other messages\<close>

record 'd critical_data =
  cdItemName :: string
  cdOnHand :: "'d qty"
  cdUnit :: string
  cdStockoutDate :: day
  cdToday :: day
  cdNextDelivery :: day
  cdSupplierName :: string
  cdLink :: string

definition RenderCritical :: "'d decimal_lib \<Rightarrow> 'd critical_data \<Rightarrow> 'd payload" where
  "RenderCritical D d = \<lparr>
     plTitle = utf8 [1057, 1088, 1086, 1095, 1085, 1086, 58, 32] @ cdItemName d,
     plBody = cdItemName d @ dash @
       (if \<not> qIsPositive D (cdOnHand d) then utf8 [1079, 1072, 1082, 1086, 1085, 1095, 1080, 1083, 1086, 1089, 1100]
        else stockoutPhrase (cdStockoutDate d) (cdToday d) @ utf8 [32, 40, 1089, 1077, 1081, 1095, 1072, 1089, 32] @ qHuman D (cdOnHand d) @ '' '' @
          order_unit_label (cdUnit d) @ '')'') @
       (if IsZero (cdNextDelivery d) then [] else
          utf8 [46, 32, 1041, 1083, 1080, 1078, 1072, 1081, 1096, 1072, 1103, 32, 1087, 1086, 1089, 1090, 1072, 1074, 1082, 1072, 32, 1074, 32] @ weekdayShort (cdNextDelivery d) @
          (if cdSupplierName d = [] then [] else utf8 [32, 1086, 1090, 32, 171] @ cdSupplierName d @ utf8 [187]) @
          utf8 [32, 8212, 32, 1085, 1091, 1078, 1085, 1072, 32, 1089, 1088, 1086, 1095, 1085, 1072, 1103, 32, 1079, 1072, 1082, 1091, 1087, 1082, 1072, 46]),
     plLink = cdLink d, plItems = []\<rparr>"

record cutoff_data =
  cfSupplierName :: string
  cfCutoff :: time_of_day
  cfItemCount :: int
  cfLink :: string

definition RenderCutoff :: "cutoff_data \<Rightarrow> 'd payload" where
  "RenderCutoff d = \<lparr>
     plTitle = utf8 [1057, 1082, 1086, 1088, 1086, 32, 1086, 1090, 1089, 1077, 1095, 1082, 1072, 58, 32] @ cfSupplierName d,
     plBody = utf8 [171] @ cfSupplierName d @ utf8 [187, 32, 1087, 1088, 1080, 1085, 1080, 1084, 1072, 1077, 1090, 32, 1079, 1072, 1082, 1072, 1079, 1099, 32, 1076, 1086, 32] @ tod_String (cfCutoff d) @ ''. '' @ pluralItems (cfItemCount d) @
       utf8 [32, 1074, 1089, 1105, 32, 1077, 1097, 1105, 32, 1085, 1077, 32, 1079, 1072, 1082, 1072, 1079, 1072, 1085, 1086, 46],
     plLink = cfLink d, plItems = []\<rparr>"

record late_data =
  ltSupplierName :: string
  ltExpectedAt :: day
  ltItemCount :: int
  ltLink :: string

definition RenderLate :: "late_data \<Rightarrow> 'd payload option" where
  "RenderLate d = map_option (\<lambda>short. \<lparr>
     plTitle = utf8 [1055, 1086, 1089, 1090, 1072, 1074, 1082, 1072, 32, 1086, 1087, 1072, 1079, 1076, 1099, 1074, 1072, 1077, 1090, 58, 32] @ ltSupplierName d,
     plBody = utf8 [1055, 1086, 1089, 1090, 1072, 1074, 1082, 1072, 32, 1086, 1090, 32, 171] @ ltSupplierName d @ utf8 [187, 32, 1086, 1078, 1080, 1076, 1072, 1083, 1072, 1089, 1100, 32] @ short @
       utf8 [32, 1080, 32, 1085, 1077, 32, 1087, 1088, 1080, 1085, 1103, 1090, 1072, 46, 32] @ pluralItems (ltItemCount d) @
       utf8 [32, 1078, 1076, 1091, 1090, 32, 1087, 1088, 1080, 1105, 1084, 1082, 1080, 46],
     plLink = ltLink d, plItems = []\<rparr>) (shortDate (ltExpectedAt d))"

record 'd mismatch_line =
  mlName :: string
  mlOrdered :: "'d qty"
  mlReceived :: "'d qty"
  mlUnit :: string

definition mismatch_line_text :: "'d decimal_lib \<Rightarrow> 'd mismatch_line \<Rightarrow> string" where
  "mismatch_line_text D l = (let diff = qSub D (mlReceived l) (mlOrdered l) in
     if qIsZero D diff then [] else ''  '' @ bullet @ mlName l @ utf8 [32, 8212, 32, 1079, 1072, 1082, 1072, 1079, 1072, 1085, 1086, 32] @
       qHuman D (mlOrdered l) @ '' '' @ order_unit_label (mlUnit l) @ utf8 [44, 32, 1087, 1088, 1080, 1085, 1103, 1090, 1086, 32] @
       qHuman D (mlReceived l) @ '' '' @ order_unit_label (mlUnit l) @ '' ('' @
       (if qIsPositive D diff then ''+'' else []) @ qHuman D diff @ '')'' @ [CHR 0x0A])"

record 'd mismatch_data =
  mdSupplierName :: string
  mdLines :: "'d mismatch_line list"
  mdLink :: string

definition RenderMismatch :: "'d decimal_lib \<Rightarrow> 'd mismatch_data \<Rightarrow> 'd payload" where
  "RenderMismatch D d = \<lparr>
     plTitle = utf8 [1056, 1072, 1089, 1093, 1086, 1078, 1076, 1077, 1085, 1080, 1077, 32, 1087, 1088, 1080, 32, 1087, 1088, 1080, 1105, 1084, 1082, 1077],
     plBody = utf8 [1055, 1088, 1080, 1105, 1084, 1082, 1072, 32, 1086, 1090, 32, 171] @ mdSupplierName d @ utf8 [187, 32, 1088, 1072, 1089, 1093, 1086, 1076, 1080, 1090, 1089, 1103, 32, 1089, 32, 1079, 1072, 1082, 1072, 1079, 1086, 1084, 58] @ [CHR 0x0A] @
       concat (map (mismatch_line_text D) (mdLines d)),
     plLink = mdLink d, plItems = []\<rparr>"

end
