(* ===== verification/Stock_Correct.thy ===== *)
theory Stock_Correct
  imports Stock
begin

text \<open>
  Correctness of \<open>Record\<close> and \<open>Reverse\<close>. The status recalculation that both call is known to
  them by the contract \<open>status_recalculator\<close> only.
\<close>

section \<open>The interface of the status recalculation\<close>

text \<open>What the stock module relies on: a recalculation does not touch the tables of the stock
  module, the catalogue or the orders, and no row of another tenant.\<close>

locale status_recalculator =
  fixes recalc :: "'d recalculator"
  assumes recalc_frame: "recalc w t iid st = Inr (x, st') \<Longrightarrow> stock_frame st st'"
    and recalc_isolated: "recalc w t iid st = Inr (x, st') \<Longrightarrow> other \<noteq> tenantID t \<Longrightarrow>
      tenant_view other st' = tenant_view other st"
begin

lemma recalc_advances: "recalc w t iid st = Inr (x, st') \<Longrightarrow> advances (tenantID t) st st'"
  by (rule stock_frame_advances[OF recalc_frame recalc_isolated])

end

interpretation noop: status_recalculator "noopRecalculator D" for D
  by unfold_locales (auto simp: noopRecalculator_def)

section \<open>Booking a movement\<close>

lemma dbtx_Inr [simp]: "dbtx tag m st = Inr r \<longleftrightarrow> m st = Inr r"
  by (simp add: dbtx_def)

lemma stock_inv_supply [simp]:
  "stock_inv (st\<lparr>uuid_supply := n\<rparr>) \<longleftrightarrow> journal_ok (movements st) \<and> balances_ok (balances st)
     \<and> (\<forall>w i. on_hand_of st w i = journal st w i) \<and> (\<forall>m \<in> set (movements st). mv_id m < n)"
  by (simp add: stock_inv_def on_hand_of_def journal_def)

text \<open>What a successful booking did, whoever called it.\<close>

definition booked :: "'d db \<Rightarrow> uuid \<Rightarrow> uuid \<Rightarrow> uuid \<Rightarrow> rat \<Rightarrow> movement_row \<Rightarrow> rat \<Rightarrow> 'd db \<Rightarrow> bool" where
  "booked st tid wid iid q row v st' \<longleftrightarrow> stock_inv st'
     \<and> movements st' = movements st @ [row]
     \<and> v = on_hand_of st wid iid + q \<and> 0 \<le> v \<and> is_numeric v
     \<and> (\<forall>a i. on_hand_of st' a i = (if a = wid \<and> i = iid then v else on_hand_of st a i))
     \<and> (\<forall>other. other \<noteq> tid \<longrightarrow> visible other ba_tenant (balances st') = visible other ba_tenant (balances st))
     \<and> balances_placed st st'
     \<and> st' = st\<lparr>movements := movements st', balances := balances st', uuid_supply := Suc (uuid_supply st)\<rparr>"

lemma Apply_visible_other:
  assumes "ApplyMovementToBalance tid wid iid q now st = Inr (v, st')" and "other \<noteq> tid"
  shows "visible other ba_tenant (balances st') = visible other ba_tenant (balances st)"
proof -
  from assms(1) obtain f where bal: "balances st' = update_rows (\<lambda>x. ba_tenant x = tid \<and> balance_key wid iid x) f (balances st)"
    and f: "\<And>x. ba_tenant (f x) = ba_tenant x"
    by (auto simp: ApplyMovementToBalance_def split: option.splits if_splits)
  show ?thesis unfolding bal by (rule visible_update_rows_other[where tid = tid]) (use f assms(2) in simp_all)
qed

lemma Ensure_visible_other:
  assumes "EnsureBalance tid wid iid w st = Inr (u, st')" and "stock_inv st" and "other \<noteq> tid"
  shows "visible other ba_tenant (balances st') = visible other ba_tenant (balances st)"
proof -
  obtain bs where "st' = st\<lparr>balances := balances st @ bs\<rparr>" "\<forall>b \<in> set bs. ba_tenant b = tid \<and> ba_on_hand b = 0"
    using EnsureBalance_Inr(3)[OF assms(1,2)] by blast
  with assms(3) show ?thesis by (auto simp: visible_def filter_empty_conv)
qed

lemma booked_advances:
  assumes b: "booked st tid wid iid q row v st'" and t: "mv_tenant row = tid"
  shows "advances tid st st'"
proof -
  have s: "st' = st\<lparr>movements := movements st', balances := balances st', uuid_supply := Suc (uuid_supply st)\<rparr>"
    and m: "movements st' = movements st @ [row]" and i: "stock_inv st'"
    and v: "\<And>other. other \<noteq> tid \<Longrightarrow> visible other ba_tenant (balances st') = visible other ba_tenant (balances st)"
    and p: "balances_placed st st'"
    using b unfolding booked_def by blast+
  have "categories st' = categories st" "items st' = items st" "warehouses st' = warehouses st"
    "users st' = users st" "suppliers st' = suppliers st" "supplier_items st' = supplier_items st"
    "counts st' = counts st" "count_lines st' = count_lines st" "purchase_orders st' = purchase_orders st"
    "order_lines st' = order_lines st" "daily st' = daily st" "forecasts st' = forecasts st"
    "forecast_metrics st' = forecast_metrics st" "item_status st' = item_status st"
    "notifications st' = notifications st" "outbox st' = outbox st" "uuid_supply st' = Suc (uuid_supply st)"
    by (subst s; simp)+
  then show ?thesis using m i v t p by (simp add: advances_def tenant_view_def)
qed

context decimal_api
begin

lemma wfq_scale: "wfq D q \<longleftrightarrow> scale3 (DecimalOf D q)"
  by (simp add: wfq_def DecimalOf_qval)

lemma steps_booked:
  assumes e: "EnsureBalance tid wid iid w st = Inr ((), st1)"
    and l: "LockBalance tid wid iid st1 = Inr (h, st2)"
    and i: "InsertMovement w (mk (uuid_supply st2)) (st2\<lparr>uuid_supply := Suc (uuid_supply st2)\<rparr>) = Inr (row, st4)"
    and a: "ApplyMovementToBalance tid wid iid (DecimalOf D delta) now st4 = Inr (v, st')"
    and inv: "stock_inv st" and wf: "wfq D delta"
    and mk: "\<And>n. mv_id (mk n) = n" "\<And>n. mv_warehouse (mk n) = wid" "\<And>n. mv_item (mk n) = iid"
      "\<And>n. mv_qty (mk n) = DecimalOf D delta"
    and rev: "\<And>n. reverses_ok (movements st) (mk n)"
  shows "booked st tid wid iid (qval D delta) row v st'"
    and "row = (mk (uuid_supply st))\<lparr>mv_created_at := pg_Time w, mv_occurred_at := pg_Time (mv_occurred_at (mk (uuid_supply st)))\<rparr>"
proof -
  let ?m = "mk (uuid_supply st)"
  note E = EnsureBalance_Inr[OF e inv]
  have st2: "st2 = st1" by (rule LockBalance_Inr(1)[OF l E(1)])
  obtain bs where st1: "st1 = st\<lparr>balances := balances st @ bs\<rparr>" using E(3) by blast
  let ?s = "st1\<lparr>uuid_supply := Suc (uuid_supply st)\<rparr>"
  have sup: "uuid_supply st1 = uuid_supply st" and mv1: "movements st1 = movements st" by (simp_all add: st1)
  have oh: "on_hand_of ?s x y = on_hand_of st x y" for x y using E(2) by (simp add: on_hand_of_def)
  have inv1: "stock_inv ?s" using E(1) by (auto simp: stock_inv_def on_hand_of_def journal_def sup)
  have i': "InsertMovement w ?m ?s = Inr (row, st4)" using i by (simp add: st2 sup)
  have a': "ApplyMovementToBalance tid wid iid (mv_qty ?m) now st4 = Inr (v, st')" using a by (simp add: mk)
  have s3: "scale3 (mv_qty ?m)" using wf by (simp add: mk wfq_scale)
  have lt: "mv_id ?m < uuid_supply ?s" by (simp add: mk)
  have rv: "reverses_ok (movements ?s) ?m" using rev by (simp add: mv1)
  note A = insert_apply[OF inv1 i' a' mk(2) mk(3) s3 lt rv]
  have bal4: "balances st4 = balances st1"
    using InsertMovement_Inr(2)[OF i' s3] by simp
  have vis: "visible other ba_tenant (balances st') = visible other ba_tenant (balances st)" if "other \<noteq> tid" for other
    using Apply_visible_other[OF a' that] Ensure_visible_other[OF e inv that] by (simp add: bal4)
  have placed: "balances_placed st st'"
    unfolding balances_placed_def
  proof
    fix b assume "b \<in> set (balances st')"
    then have "ba_item b \<in> ba_item ` set (balances st1)" using ApplyMovement_items(1)[OF a'] bal4 by (metis image_eqI)
    then show "ba_item b \<in> ba_item ` set (balances st) \<union> it_id ` set (items st)"
      using EnsureBalance_placed[OF e] by (auto simp: balances_placed_def)
  qed
  have q: "mv_qty ?m = qval D delta" by (simp add: mk DecimalOf_qval)
  have shape: "st' = st\<lparr>movements := movements st', balances := balances st', uuid_supply := Suc (uuid_supply st)\<rparr>"
    by (rule trans[OF A(7)]) (cases st; simp add: st1)
  show "booked st tid wid iid (qval D delta) row v st'"
    unfolding booked_def using A(1-6) oh vis placed shape q mv1 by auto
  show "row = ?m\<lparr>mv_created_at := pg_Time w, mv_occurred_at := pg_Time (mv_occurred_at ?m)\<rparr>"
    by (rule InsertMovement_Inr(1)[OF i' s3])
qed

lemma book_booked:
  assumes bk: "book D w tid wid iid delta now mk asked asked' st = Inr ((row, v), st')"
    and inv: "stock_inv st" and wf: "wfq D delta"
    and mk: "\<And>n. mv_id (mk n) = n" "\<And>n. mv_warehouse (mk n) = wid" "\<And>n. mv_item (mk n) = iid"
      "\<And>n. mv_qty (mk n) = DecimalOf D delta"
    and rev: "\<And>n. reverses_ok (movements st) (mk n)"
  shows "booked st tid wid iid (qval D delta) row v st'"
    and "row = (mk (uuid_supply st))\<lparr>mv_created_at := pg_Time w, mv_occurred_at := pg_Time (mv_occurred_at (mk (uuid_supply st)))\<rparr>"
proof -
  from bk obtain st1 h st2 st4 where e: "EnsureBalance tid wid iid w st = Inr ((), st1)"
    and l: "LockBalance tid wid iid st1 = Inr (h, st2)"
    and i: "InsertMovement w (mk (uuid_supply st2)) (st2\<lparr>uuid_supply := Suc (uuid_supply st2)\<rparr>) = Inr (row, st4)"
    and a: "ApplyMovementToBalance tid wid iid (DecimalOf D delta) now st4 = Inr (v, st')"
    by (auto simp: book_def Let_def new_uuid_def)
  show "booked st tid wid iid (qval D delta) row v st'"
    and "row = (mk (uuid_supply st))\<lparr>mv_created_at := pg_Time w, mv_occurred_at := pg_Time (mv_occurred_at (mk (uuid_supply st)))\<rparr>"
    by (rule steps_booked[OF e l i a inv wf mk rev])+
qed

section \<open>Record\<close>

lemma signedQty_wfq [simp, intro]: "wfq D q \<Longrightarrow> wfq D (signedQty D ty q)"
  by (auto simp: signedQty_def wfq_def qty_simps)

lemma record_new_booked:
  assumes rc: "status_recalculator (ssStatus s)"
    and r: "record_new D s w t req st = Inr (res, st')"
    and inv: "stock_inv st" and wf: "wfq D (rqQty req)"
  obtains item wh row v st1 where
    "GetItem (tenantID t) (rqItem req) st = Some item" and "it_archived_at item = None"
    and "GetDefaultWarehouse (tenantID t) st = Some wh"
    and "booked st (tenantID t) (wh_id wh) (rqItem req) (qval D (signedQty D (rqType req) (rqQty req))) row v st1"
    and "row = (movement_of_request D (tenantID t) (wh_id wh) req (signedQty D (rqType req) (rqQty req)) (uuid_supply st))
           \<lparr>mv_created_at := pg_Time w, mv_occurred_at := pg_Time (rqOccurredAt req)\<rparr>"
    and "stock_frame st1 st'" and "rrDuplicate res = False" and "mID (rrMovement res) = mv_id row"
    and "blOnHand (rrBalance res) = pg_Qty D v"
    and "\<forall>other. other \<noteq> tenantID t \<longrightarrow> tenant_view other st' = tenant_view other st1"
proof -
  let ?tid = "tenantID t" and ?d = "signedQty D (rqType req) (rqQty req)"
  from r obtain item wh row v st1 status where
    i: "GetItem ?tid (rqItem req) st = Some item" "it_archived_at item = None"
    and g: "GetDefaultWarehouse ?tid st = Some wh"
    and b: "book D w ?tid (wh_id wh) (rqItem req) ?d (clock_Now (ssClock s) w)
        (movement_of_request D ?tid (wh_id wh) req ?d) (qAbs D (rqQty req)) (rqQty req) st = Inr ((row, v), st1)"
    and f: "ssStatus s w t (rqItem req) st1 = Inr (status, st')"
    and res: "rrDuplicate res = False" "mID (rrMovement res) = mv_id row" "blOnHand (rrBalance res) = pg_Qty D v"
    by (auto simp: record_new_def Let_def movementFromRow_def from_opt_def split: prod.splits option.splits)
  have rev: "reverses_ok (movements st) (movement_of_request D ?tid (wh_id wh) req ?d n)" for n
    by (simp add: reverses_ok_def movement_of_request_def)
  note B = book_booked[OF b inv signedQty_wfq[OF wf] _ _ _ _ rev]
  show thesis
    by (rule that[OF i g _ _ status_recalculator.recalc_frame[OF rc f] res]; (rule B(1) | use status_recalculator.recalc_isolated[OF rc f] in blast)?)
      (use B(2) in \<open>simp_all add: movement_of_request_def\<close>)
qed

end

lemma InTenantTx_Inr_iff: "InTenantTx m st = (Inr x, st') \<longleftrightarrow> m st = Inr (x, st')"
  by (rule InTenantTx_Inr)

lemma validate_Inr:
  "validate D s w t req = Inr req' \<Longrightarrow> rqItem req' = rqItem req \<and> rqType req' = rqType req \<and> rqQty req' = rqQty req
     \<and> rqKey req' = rqKey req \<and> rqOrder req' = rqOrder req \<and> rqCount req' = rqCount req \<and> rqReason req' = rqReason req
     \<and> rqOccurredAt req' = (if rqOccurredAt req = zero_time then tenant_Now t (ssClock s) w else rqOccurredAt req)
     \<and> rqCreatedBy req' = rqCreatedBy req
     \<and> type_Valid (rqType req) \<and> \<not> qIsZero D (rqQty req) \<and> (rqType req = TypeWriteoff \<longrightarrow> ValidReason (rqReason req))"
  by (auto simp: validate_def Let_def split: if_splits)

lemma Record_Inr:
  assumes "Record D s w t req st = (Inr res, st')"
  obtains req' where "validate D s w t req = Inr req'" and "recordTx D s w t req' st = Inr (res, st')"
  using assms by (auto simp: Record_def InTenantTx_Inr split: sum.splits)

lemma recordTx_cases:
  assumes "recordTx D s w t req st = Inr (res, st')"
  obtains (duplicate) m where "rqKey req \<noteq> []" and "GetMovementByIdempotencyKey (tenantID t) (rqKey req) st = Some m"
      and "st' = st" and "rrDuplicate res" and "rrMovement res = movementFromRow D m"
  | (fresh) "record_new D s w t req st = Inr (res, st')"
      and "rqKey req \<noteq> [] \<Longrightarrow> GetMovementByIdempotencyKey (tenantID t) (rqKey req) st = None"
proof -
  let ?f = "if rqKey req = [] then None else GetMovementByIdempotencyKey (tenantID t) (rqKey req) st"
  show thesis
  proof (cases ?f)
    case None
    then have "recordTx D s w t req st = record_new D s w t req st" by (simp add: recordTx_def)
    with None show thesis using assms by (intro fresh) (simp_all split: if_splits)
  next
    case (Some m)
    then have k: "rqKey req \<noteq> []" "GetMovementByIdempotencyKey (tenantID t) (rqKey req) st = Some m"
      by (simp_all split: if_splits)
    obtain b where "readBalance D (tenantID t) (mv_item m) st = Inr (b, st)" by (simp add: readBalance_def)
    then have "recordTx D s w t req st = Inr (\<lparr>rrMovement = movementFromRow D m, rrBalance = b,
           rrStatus = \<lparr>snCode = [], snStockoutDate = None, snOrderBy = None, snRecommendedQty = qZero D\<rparr>,
           rrDuplicate = True\<rparr>, st)"
      using k by (simp add: recordTx_def tx_bind_step)
    with assms show thesis by (intro duplicate[OF k]) auto
  qed
qed

lemma frame_stock:
  assumes "stock_frame st1 st'"
  shows "movements st' = movements st1" and "on_hand_of st' a i = on_hand_of st1 a i"
    and "balances st' = balances st1"
  using assms by (simp_all add: stock_frame_def on_hand_of_def)

text \<open>What \<open>Record\<close> does when it creates a movement.\<close>

lemma Record_fresh:
  assumes D: "decimal_api D" and rc: "status_recalculator (ssStatus s)" and inv: "stock_inv st"
    and wf: "wfq D (rqQty req)" and r: "Record D s w t req st = (Inr res, st')" and nd: "\<not> rrDuplicate res"
  obtains wh row v st1 where
    "GetDefaultWarehouse (tenantID t) st = Some wh"
    and "booked st (tenantID t) (wh_id wh) (rqItem req) (qval D (signedQty D (rqType req) (rqQty req))) row v st1"
    and "mv_tenant row = tenantID t" and "mv_item row = rqItem req" and "mv_warehouse row = wh_id wh"
    and "mv_type row = rqType req" and "mv_qty row = qval D (signedQty D (rqType req) (rqQty req))"
    and "mv_idempotency_key row = nullString (rqKey req)" and "mv_id row = uuid_supply st"
    and "stock_frame st1 st'" and "mID (rrMovement res) = mv_id row" and "blOnHand (rrBalance res) = pg_Qty D v"
    and "rqKey req \<noteq> [] \<Longrightarrow> GetMovementByIdempotencyKey (tenantID t) (rqKey req) st = None"
    and "\<exists>item. GetItem (tenantID t) (rqItem req) st = Some item \<and> it_archived_at item = None"
    and "mv_order row = rqOrder req" and "\<forall>other. other \<noteq> tenantID t \<longrightarrow> tenant_view other st' = tenant_view other st1"
proof -
  from r obtain req' where v: "validate D s w t req = Inr req'" and x: "recordTx D s w t req' st = Inr (res, st')"
    by (rule Record_Inr)
  note V = validate_Inr[OF v]
  from x nd have n: "record_new D s w t req' st = Inr (res, st')"
    and k: "rqKey req \<noteq> [] \<Longrightarrow> GetMovementByIdempotencyKey (tenantID t) (rqKey req) st = None"
    using V by (auto elim: recordTx_cases)
  have wf': "wfq D (rqQty req')" using wf V by simp
  obtain item wh row v st1 where i: "GetItem (tenantID t) (rqItem req') st = Some item" "it_archived_at item = None"
    and g: "GetDefaultWarehouse (tenantID t) st = Some wh"
    and b: "booked st (tenantID t) (wh_id wh) (rqItem req') (qval D (signedQty D (rqType req') (rqQty req'))) row v st1"
    and row: "row = (movement_of_request D (tenantID t) (wh_id wh) req' (signedQty D (rqType req') (rqQty req')) (uuid_supply st))
           \<lparr>mv_created_at := pg_Time w, mv_occurred_at := pg_Time (rqOccurredAt req')\<rparr>"
    and rest: "stock_frame st1 st'" "mID (rrMovement res) = mv_id row" "blOnHand (rrBalance res) = pg_Qty D v"
    and iso: "\<forall>other. other \<noteq> tenantID t \<longrightarrow> tenant_view other st' = tenant_view other st1"
    by (rule decimal_api.record_new_booked[OF D rc n inv wf'])
  have V': "rqItem req' = rqItem req" "rqType req' = rqType req" "rqQty req' = rqQty req" "rqKey req' = rqKey req"
    "rqOrder req' = rqOrder req"
    using V by blast+
  have r': "mv_tenant row = tenantID t" "mv_item row = rqItem req" "mv_warehouse row = wh_id wh"
    "mv_type row = rqType req" "mv_qty row = qval D (signedQty D (rqType req) (rqQty req))"
    "mv_idempotency_key row = nullString (rqKey req)" "mv_id row = uuid_supply st" and ord: "mv_order row = rqOrder req"
    by (simp_all add: row movement_of_request_def DecimalOf_qval V')
  show thesis
    by (rule that[OF g b[unfolded V'] r' rest k _ ord iso]) (use i V' in auto)
qed

lemma booked_inv: "booked st tid wid iid q row v st1 \<Longrightarrow> stock_frame st1 st' \<Longrightarrow> stock_inv st'"
  by (auto simp: booked_def intro: stock_inv_frame)

section \<open>Properties of Record\<close>

text \<open>(C3) Recording a movement appends exactly one row to the journal, with the quantity signed by
  its type, and moves the balance of the tenant's default warehouse by that quantity and no
  other balance; the balance it returns is the new one, and it is not negative. The invariant
  that every balance is the sum of its movements is kept.\<close>
theorem Record_books:
  assumes "decimal_api D" and "status_recalculator (ssStatus s)" and "stock_inv st"
    and "wfq D (rqQty req)" and "Record D s w t req st = (Inr res, st')" and "\<not> rrDuplicate res"
  defines "q \<equiv> qval D (signedQty D (rqType req) (rqQty req))"
  shows "\<exists>wh row. GetDefaultWarehouse (tenantID t) st = Some wh \<and> movements st' = movements st @ [row]
      \<and> mv_tenant row = tenantID t \<and> mv_item row = rqItem req \<and> mv_type row = rqType req \<and> mv_qty row = q
      \<and> mID (rrMovement res) = mv_id row
      \<and> (\<forall>a i. on_hand_of st' a i = on_hand_of st a i + (if a = wh_id wh \<and> i = rqItem req then q else 0))
      \<and> qval D (blOnHand (rrBalance res)) = on_hand_of st' (wh_id wh) (rqItem req)
      \<and> 0 \<le> on_hand_of st' (wh_id wh) (rqItem req) \<and> stock_inv st'"
proof -
  obtain wh row v st1 where f: "GetDefaultWarehouse (tenantID t) st = Some wh"
    "booked st (tenantID t) (wh_id wh) (rqItem req) q row v st1"
    "mv_tenant row = tenantID t" "mv_item row = rqItem req" "mv_type row = rqType req" "mv_qty row = q"
    "stock_frame st1 st'" "mID (rrMovement res) = mv_id row" "blOnHand (rrBalance res) = pg_Qty D v"
    unfolding q_def by (rule Record_fresh[OF assms(1-6)])
  have "scale3 v" using f(2) unfolding booked_def is_numeric_def by blast
  then have "qval D (pg_Qty D v) = v" by (rule decimal_api.pg_Qty_val[OF assms(1)])
  with f booked_inv[OF f(2,7)] show ?thesis
    by (intro exI[of _ wh] exI[of _ row]) (simp add: booked_def frame_stock[OF f(7)])
qed

definition sample_item :: item_row where
  "sample_item = \<lparr>it_id = 10, it_tenant = 1, it_category = None, it_name = ''milk'', it_base_unit = ''l'',
     it_default_supplier = None, it_service_level = 95, it_manual_min_qty = 0, it_archived_at = None,
     it_created_at = 0\<rparr>"

definition sample_db :: "dec db" where
  "sample_db = \<lparr>categories = [], items = [sample_item],
     warehouses = [\<lparr>wh_id = 20, wh_tenant = 1, wh_name = ''main'', wh_created_at = 0\<rparr>],
     users = [], suppliers = [], supplier_items = [], movements = [], balances = [], counts = [],
     count_lines = [], purchase_orders = [], order_lines = [], daily = [], forecasts = [],
     forecast_metrics = [], item_status = [], notifications = [], outbox = [], uuid_supply = 100\<rparr>"

definition sample_service :: "dec stock_service" where
  "sample_service = NewStockService dec_lib (Fixed 1000000000000) UTC None"

definition sample_request :: "movement_type \<Rightarrow> int \<Rightarrow> string \<Rightarrow> dec record_request" where
  "sample_request ty n key = \<lparr>rqItem = 10, rqType = ty, rqQty = Qty (Dec n (- 1)),
     rqOccurredAt = zero_time, rqReason = [], rqComment = [], rqOrder = None, rqCount = None,
     rqKey = key, rqCreatedBy = None\<rparr>"

lemma sample_ok:
  shows "decimal_api dec_lib" and "status_recalculator (ssStatus sample_service)" and "stock_inv sample_db"
    and "wfq dec_lib (rqQty (sample_request ty n key))"
proof -
  show "decimal_api dec_lib" by (rule dec.decimal_api_axioms)
  show "status_recalculator (ssStatus sample_service)"
    using noop.status_recalculator_axioms by (simp add: sample_service_def NewStockService_def)
  show "stock_inv sample_db"
    by (simp add: stock_inv_def journal_ok_def balances_ok_def sample_db_def on_hand_of_def journal_def)
  show "wfq dec_lib (rqQty (sample_request ty n key))"
    by (simp add: sample_request_def wfq_def qval_def dec_lib_eq dec_val_def pow10_def has_scale_def)
qed

text \<open>For evaluating the operations on concrete databases.\<close>

lemmas tx_eval = InTenantTx_def tx_bind_def dbtx_def tx_lift_def tx_guard_def new_uuid_def Let_def visible_def
lemmas stock_eval = EnsureBalance_def LockBalance_def InsertMovement_def ApplyMovementToBalance_def
  balance_key_def movement_checks_def movement_unique_def movement_references_def movement_sign_ok_def
  writeoff_reason_ok_def item_exists_def warehouse_exists_def count_exists_def order_exists_def
  movement_exists_def update_rows_def numeric_14_3_id DecimalOf_qval type_names GetItem_def
  GetDefaultWarehouse_def GetMovementByIdempotencyKey_def
lemmas sample_defs = sample_db_def sample_item_def sample_tenant_def sample_service_def NewStockService_def
  noopRecalculator_def sample_request_def

lemma pg_Qty_dec [simp]:
  "qval dec_lib (pg_Qty dec_lib (numeral n)) = numeral n" "qval dec_lib (pg_Qty dec_lib 1) = 1"
  "qval dec_lib (pg_Qty dec_lib 0) = 0" "qval dec_lib (pg_Qty dec_lib (3 / 2)) = 3 / 2"
  by (simp_all add: has_scale_def)

abbreviation sample_record where
  "sample_record ty n key \<equiv> Record dec_lib sample_service 0 sample_tenant (sample_request ty n key)"

lemma sample_receipt:
  obtains res st' where "sample_record TypeReceipt 15 ''k1'' sample_db = (Inr res, st')" and "\<not> rrDuplicate res"
proof -
  have "case fst (sample_record TypeReceipt 15 ''k1'' sample_db) of Inr r \<Rightarrow> \<not> rrDuplicate r | _ \<Rightarrow> False"
    by code_simp
  then show thesis
    by (cases "sample_record TypeReceipt 15 ''k1'' sample_db") (auto split: sum.splits intro: that)
qed

theorem Record_books_witness:
  "\<exists>res st'. sample_record TypeReceipt 15 ''k1'' sample_db = (Inr res, st') \<and> length (movements st') = 1
     \<and> stock_inv st'"
proof -
  obtain res st' where r: "sample_record TypeReceipt 15 ''k1'' sample_db = (Inr res, st')" "\<not> rrDuplicate res"
    by (rule sample_receipt)
  from Record_books[OF sample_ok(1,2,3,4) r] have "length (movements st') = 1 \<and> stock_inv st'"
    by (auto simp: sample_db_def)
  with r show ?thesis by blast
qed

section \<open>Idempotency\<close>

lemma find_filter_append:
  "find P xs = None \<Longrightarrow> P y \<Longrightarrow> find P (xs @ [y]) = Some y"
  by (simp add: find_append_one)

lemma find_key_after_Record:
  assumes "movements st' = movements st @ [row]" and "mv_tenant row = tid"
    and "mv_idempotency_key row = Some k" and "GetMovementByIdempotencyKey tid k st = None"
  shows "GetMovementByIdempotencyKey tid k st' = Some row"
  using assms by (simp add: GetMovementByIdempotencyKey_def visible_def find_append_one)

lemma Record_duplicate:
  assumes v: "validate D s w t req = Inr req'" and k: "rqKey req \<noteq> []"
    and g: "GetMovementByIdempotencyKey (tenantID t) (rqKey req) st = Some m"
  shows "\<exists>res. Record D s w t req st = (Inr res, st) \<and> rrDuplicate res \<and> rrMovement res = movementFromRow D m"
proof -
  obtain b where "readBalance D (tenantID t) (mv_item m) st = Inr (b, st)" by (simp add: readBalance_def)
  then have "\<exists>res. recordTx D s w t req' st = Inr (res, st) \<and> rrDuplicate res \<and> rrMovement res = movementFromRow D m"
    using validate_Inr[OF v] k g by (simp add: recordTx_def tx_bind_step)
  then show ?thesis using v by (auto simp: Record_def InTenantTx_Inr)
qed

text \<open>(C5) Repeating a request with the same idempotency key (whatever the rest of it says, as long
  as it is valid at that time) returns the movement of the first request, marked as a duplicate,
  and changes nothing in the database.\<close>
theorem Record_idempotent:
  assumes "decimal_api D" and "status_recalculator (ssStatus s)" and "stock_inv st"
    and "wfq D (rqQty req)" and "rqKey req \<noteq> []" and "Record D s w t req st = (Inr first, st1)"
    and "validate D s w' t again = Inr again'" and "rqKey again = rqKey req"
  shows "\<exists>res. Record D s w' t again st1 = (Inr res, st1) \<and> rrDuplicate res
      \<and> mID (rrMovement res) = mID (rrMovement first)"
proof -
  have "\<exists>m. GetMovementByIdempotencyKey (tenantID t) (rqKey req) st1 = Some m \<and> mv_id m = mID (rrMovement first)"
  proof (cases "rrDuplicate first")
    case True
    from assms(6) obtain req' where v: "validate D s w t req = Inr req'"
      and x: "recordTx D s w t req' st = Inr (first, st1)" by (rule Record_Inr)
    have key: "rqKey req' = rqKey req" using validate_Inr[OF v] by blast
    from x show ?thesis
    proof (cases rule: recordTx_cases)
      case (duplicate m)
      then show ?thesis using key by (auto simp: movementFromRow_def)
    next
      case fresh
      then have "rrDuplicate first = False" by (auto simp: record_new_def Let_def split: prod.splits)
      with True show ?thesis by simp
    qed
  next
    case False
    have "\<exists>row. movements st1 = movements st @ [row] \<and> mv_tenant row = tenantID t
        \<and> mv_idempotency_key row = nullString (rqKey req) \<and> mID (rrMovement first) = mv_id row
        \<and> GetMovementByIdempotencyKey (tenantID t) (rqKey req) st = None"
      by (rule Record_fresh[OF assms(1-4,6) False]) (use assms(5) in \<open>simp add: booked_def frame_stock(1)\<close>)
    then obtain row where mv: "movements st1 = movements st @ [row]"
      and row: "mv_tenant row = tenantID t" "mv_idempotency_key row = nullString (rqKey req)"
      and id: "mID (rrMovement first) = mv_id row"
      and none: "GetMovementByIdempotencyKey (tenantID t) (rqKey req) st = None" by blast
    from find_key_after_Record[OF mv row(1) _ none] row(2) id assms(5) show ?thesis
      by (simp add: nullString_def)
  qed
  then obtain m where m: "GetMovementByIdempotencyKey (tenantID t) (rqKey req) st1 = Some m"
    "mv_id m = mID (rrMovement first)" by blast
  from Record_duplicate[OF assms(7), of st1 m] m assms(5,8) show ?thesis by (auto simp: movementFromRow_def)
qed

theorem Record_idempotent_witness:
  "\<exists>first st1 res. sample_record TypeReceipt 15 ''k1'' sample_db = (Inr first, st1)
     \<and> sample_record TypeReceipt 99 ''k1'' st1 = (Inr res, st1) \<and> rrDuplicate res"
proof -
  obtain first st1 where r: "sample_record TypeReceipt 15 ''k1'' sample_db = (Inr first, st1)"
    by (rule sample_receipt)
  have "\<not> isl (validate dec_lib sample_service 0 sample_tenant (sample_request TypeReceipt 99 ''k1''))" by code_simp
  then obtain again where v: "validate dec_lib sample_service 0 sample_tenant (sample_request TypeReceipt 99 ''k1'') = Inr again"
    by (metis isl_def sum.exhaust)
  show ?thesis using Record_idempotent[OF sample_ok _ r v] r by (auto simp: sample_request_def)
qed

end
