(* ===== verification/Outbox.thy ===== *)
theory Outbox
  imports Messages Notify_Db Stock_Correct
begin

text \<open>
  \<open>internal/notify/outbox.go\<close>: the dispatcher of the outbox. A sender is outside of the program: it
  acts on a world \<open>'w\<close> and answers; which answers come is up to it. The stored payload is a value, so
  the branch for an unreadable one has no counterpart. Metrics and logging are left out.
\<close>

section \<open>Model\<close>

datatype send_result = SendOk | SendPermanent string | SendError string

type_synonym ('d, 'w) sender = "string \<Rightarrow> 'd payload \<Rightarrow> 'w \<Rightarrow> send_result \<times> 'w"

record ('d, 'w) dispatcher =
  dpSenders :: "string \<Rightarrow> ('d, 'w) sender option"
  dpBatch :: int

definition NewDispatcher :: "(string \<Rightarrow> ('d, 'w) sender option) \<Rightarrow> ('d, 'w) dispatcher" where
  "NewDispatcher senders = \<lparr>dpSenders = senders, dpBatch = 50\<rparr>"

datatype outcome = OutcomeSent | OutcomeRetry | OutcomeFailed

record dispatch_result =
  Claimed :: int
  Sent :: int
  Retried :: int
  Failed :: int

definition truncate :: "string \<Rightarrow> nat \<Rightarrow> string" where
  "truncate s n = (if length s \<le> n then s else take n s)"

text \<open>Each mark is a transaction of its own, whose error is only logged.\<close>

definition markSent :: "uuid \<Rightarrow> instant \<Rightarrow> 'd db \<Rightarrow> 'd db" where
  "markSent i now st = snd (InTenantTx (MarkOutboxSent i now) st)"

definition reschedule :: "uuid \<Rightarrow> instant \<Rightarrow> string \<Rightarrow> 'd db \<Rightarrow> 'd db" where
  "reschedule i t reason st = snd (InTenantTx (RescheduleOutbox i t (truncate reason 500)) st)"

definition markFailed :: "uuid \<Rightarrow> string \<Rightarrow> 'd db \<Rightarrow> 'd db" where
  "markFailed i reason st = snd (InTenantTx (MarkOutboxFailed i (truncate reason 500)) st)"

definition unconfigured :: "string \<Rightarrow> string" where
  "unconfigured channel = utf8 [1082, 1072, 1085, 1072, 1083, 32] @ channel @
     utf8 [32, 1085, 1077, 32, 1085, 1072, 1089, 1090, 1088, 1086, 1077, 1085]"

definition give_up_or_retry :: "'d outbox_row \<Rightarrow> instant \<Rightarrow> bool \<Rightarrow> string \<Rightarrow> 'd db \<Rightarrow> outcome \<times> 'd db" where
  "give_up_or_retry msg now permanent reason st = (if permanent \<or> MaxAttempts \<le> ob_attempts msg
     then (OutcomeFailed, markFailed (ob_id msg) reason st)
     else (OutcomeRetry, reschedule (ob_id msg) (now + backoff (ob_attempts msg) * 60 * second) reason st))"

definition deliver :: "('d, 'w) dispatcher \<Rightarrow> instant \<Rightarrow> 'd outbox_row \<Rightarrow> 'w \<times> 'd db \<Rightarrow> outcome \<times> ('w \<times> 'd db)" where
  "deliver d now msg ws = (case ws of (w, st) \<Rightarrow>
     case dpSenders d (ob_channel msg) of
       None \<Rightarrow> (OutcomeFailed, (w, markFailed (ob_id msg) (unconfigured (ob_channel msg)) st))
     | Some send \<Rightarrow> (case send (ob_recipient msg) (ob_payload msg) w of (answer, w') \<Rightarrow>
         (case answer of
            SendOk \<Rightarrow> (OutcomeSent, (w', markSent (ob_id msg) now st))
          | SendPermanent reason \<Rightarrow> (case give_up_or_retry msg now True reason st of (o', st') \<Rightarrow> (o', (w', st')))
          | SendError reason \<Rightarrow> (case give_up_or_retry msg now False reason st of (o', st') \<Rightarrow> (o', (w', st'))))))"

fun deliver_all :: "('d, 'w) dispatcher \<Rightarrow> instant \<Rightarrow> 'd outbox_row list \<Rightarrow> dispatch_result \<Rightarrow> 'w \<times> 'd db \<Rightarrow>
    dispatch_result \<times> ('w \<times> 'd db)" where
  "deliver_all d now [] res ws = (res, ws)"
| "deliver_all d now (msg # msgs) res ws = (case deliver d now msg ws of (o', ws') \<Rightarrow>
     deliver_all d now msgs (case o' of OutcomeSent \<Rightarrow> res\<lparr>Sent := Sent res + 1\<rparr>
       | OutcomeRetry \<Rightarrow> res\<lparr>Retried := Retried res + 1\<rparr> | OutcomeFailed \<Rightarrow> res\<lparr>Failed := Failed res + 1\<rparr>) ws')"

definition Dispatch :: "('d, 'w) dispatcher \<Rightarrow> instant \<Rightarrow> 'w \<times> 'd db \<Rightarrow> dispatch_result \<times> ('w \<times> 'd db)" where
  "Dispatch d now ws = (case ws of (w, st) \<Rightarrow>
     (case InTenantTx (ClaimOutbox now (dpBatch d)) st of
        (Inl e, st') \<Rightarrow> (\<lparr>Claimed = 0, Sent = 0, Retried = 0, Failed = 0\<rparr>, (w, st'))
      | (Inr claimed, st') \<Rightarrow> deliver_all d now claimed
          \<lparr>Claimed = int (length claimed), Sent = 0, Retried = 0, Failed = 0\<rparr> (w, st')))"

section \<open>The attempts of a message\<close>

text \<open>Errors whose first 500 bytes are a text.\<close>

definition readable :: "string \<Rightarrow> bool" where
  "readable s \<longleftrightarrow> valid_text (truncate s 500)"

definition readable_sender :: "('d, 'w) sender \<Rightarrow> bool" where
  "readable_sender send \<longleftrightarrow> (\<forall>to p w r w'. send to p w = (SendPermanent r, w') \<or> send to p w = (SendError r, w') \<longrightarrow> readable r)"

definition readable_dispatcher :: "('d, 'w) dispatcher \<Rightarrow> 'd db \<Rightarrow> bool" where
  "readable_dispatcher d st \<longleftrightarrow> (\<forall>c send. dpSenders d c = Some send \<longrightarrow> readable_sender send)
     \<and> (\<forall>r \<in> set (outbox st). dpSenders d (ob_channel r) = None \<longrightarrow> readable (unconfigured (ob_channel r)))"

text \<open>Message \<open>r\<close> becomes \<open>r'\<close> by one delivery at \<open>now\<close>.\<close>

definition delivered :: "instant \<Rightarrow> 'd outbox_row \<Rightarrow> 'd outbox_row \<Rightarrow> bool" where
  "delivered now r r' \<longleftrightarrow> ob_id r' = ob_id r \<and> ob_channel r' = ob_channel r \<and> ob_attempts r' = ob_attempts r
     \<and> (ob_status r' = ''sent'' \<or> ob_status r' = ''failed''
        \<or> (ob_attempts r < MaxAttempts \<and> ob_status r' = ob_status r
           \<and> ob_next_attempt_at r' = pg_Time (now + backoff (ob_attempts r) * 60 * second)))"

lemma update_outbox_map: "outbox (update_outbox i f st) = map (\<lambda>r. if ob_id r = i then f r else r) (outbox st)"
  by (simp add: update_outbox_def update_rows_def)

lemma marks:
  "outbox (markSent i now st) = map (\<lambda>r. if ob_id r = i then r\<lparr>ob_status := ''sent'', ob_sent_at := Some (pg_Time now), ob_last_error := []\<rparr> else r) (outbox st)"
  "readable reason \<Longrightarrow> outbox (markFailed i reason st) =
     map (\<lambda>r. if ob_id r = i then r\<lparr>ob_status := ''failed'', ob_last_error := truncate reason 500\<rparr> else r) (outbox st)"
  "readable reason \<Longrightarrow> outbox (reschedule i t reason st) =
     map (\<lambda>r. if ob_id r = i then r\<lparr>ob_next_attempt_at := pg_Time t, ob_last_error := truncate reason 500\<rparr> else r) (outbox st)"
  by (simp_all add: markSent_def markFailed_def reschedule_def MarkOutboxSent_def MarkOutboxFailed_def
      RescheduleOutbox_def InTenantTx_def update_outbox_map readable_def)

text \<open>One delivery rewrites the row of its message and no other.\<close>

lemma deliver_row:
  assumes "\<And>send. dpSenders d (ob_channel msg) = Some send \<Longrightarrow> readable_sender send"
    and "dpSenders d (ob_channel msg) = None \<Longrightarrow> readable (unconfigured (ob_channel msg))"
    and "deliver d now msg (w, st) = (res, (w', st'))"
  shows "\<exists>f. outbox st' = map (\<lambda>r. if ob_id r = ob_id msg then f r else r) (outbox st)
    \<and> (\<forall>r. ob_attempts r = ob_attempts msg \<longrightarrow> delivered now r (f r))"
proof (cases "dpSenders d (ob_channel msg)")
  case None
  then have "st' = markFailed (ob_id msg) (unconfigured (ob_channel msg)) st" using assms(3) by (simp add: deliver_def)
  then show ?thesis unfolding marks(2)[OF assms(2)[OF None]] by (auto simp: marks(2)[OF assms(2)[OF None]] delivered_def)
next
  case (Some send)
  obtain answer w1 where a: "send (ob_recipient msg) (ob_payload msg) w = (answer, w1)" by fastforce
  have rd: "answer = SendPermanent r \<or> answer = SendError r \<Longrightarrow> readable r" for r
    using assms(1)[OF Some] a by (auto simp: readable_sender_def)
  show ?thesis
  proof (cases answer)
    case SendOk
    then have "st' = markSent (ob_id msg) now st" using assms(3) Some a by (simp add: deliver_def)
    then show ?thesis by (auto simp: marks(1) delivered_def)
  next
    case (SendPermanent r)
    then have "st' = markFailed (ob_id msg) r st" using assms(3) Some a by (simp add: deliver_def give_up_or_retry_def)
    then show ?thesis using rd[of r] SendPermanent by (auto simp: marks(2) delivered_def)
  next
    case (SendError r)
    note m = marks(2)[OF rd[of r], OF disjI2[OF SendError]] marks(3)[OF rd[of r], OF disjI2[OF SendError]]
    show ?thesis
    proof (cases "MaxAttempts \<le> ob_attempts msg")
      case True
      then have "st' = markFailed (ob_id msg) r st" using assms(3) Some a SendError by (simp add: deliver_def give_up_or_retry_def)
      then show ?thesis by (auto simp: m delivered_def)
    next
      case False
      then have "st' = reschedule (ob_id msg) (now + backoff (ob_attempts msg) * 60 * second) r st"
        using assms(3) Some a SendError by (simp add: deliver_def give_up_or_retry_def)
      then show ?thesis using False by (auto simp: m delivered_def)
    qed
  qed
qed

lemma delivered_channel: "delivered now r r' \<Longrightarrow> ob_id r' = ob_id r \<and> ob_channel r' = ob_channel r"
  by (simp add: delivered_def)

lemma readable_dispatcher_rows:
  assumes "readable_dispatcher d st" and "map ob_channel (outbox st') = map ob_channel (outbox st)"
  shows "readable_dispatcher d st'"
proof -
  have "ob_channel ` set (outbox st') = ob_channel ` set (outbox st)" using assms(2) by (metis set_map)
  then have "\<forall>r \<in> set (outbox st'). \<exists>x \<in> set (outbox st). ob_channel r = ob_channel x" by (metis image_iff)
  with assms(1) show ?thesis unfolding readable_dispatcher_def by metis
qed

lemma list_all2_mono_set:
  assumes "list_all2 P xs ys" and "\<And>x y. x \<in> set xs \<Longrightarrow> P x y \<Longrightarrow> Q x y"
  shows "list_all2 Q xs ys"
  using assms by (auto simp: list_all2_conv_all_nth)

lemma deliver_all_rows:
  assumes "readable_dispatcher d st" and "distinct (map ob_id (outbox st))" and "set msgs \<subseteq> set (outbox st)"
    and "distinct (map ob_id msgs)" and "deliver_all d now msgs res (w, st) = (res', (w', st'))"
  shows "list_all2 (\<lambda>r r'. if ob_id r \<in> ob_id ` set msgs then delivered now r r' else r' = r) (outbox st) (outbox st')"
  using assms
proof (induction msgs arbitrary: st w res)
  case Nil
  then show ?case by (simp add: list_all2_refl)
next
  case (Cons msg msgs)
  obtain o' w1 st1 where dl: "deliver d now msg (w, st) = (o', (w1, st1))" by (metis prod.exhaust)
  have m: "msg \<in> set (outbox st)" using Cons.prems(3) by simp
  have "\<exists>f. outbox st1 = map (\<lambda>r. if ob_id r = ob_id msg then f r else r) (outbox st)
    \<and> (\<forall>r. ob_attempts r = ob_attempts msg \<longrightarrow> delivered now r (f r))"
    by (rule deliver_row[OF _ _ dl]) (use Cons.prems(1) m in \<open>auto simp: readable_dispatcher_def\<close>)
  then obtain f where f: "outbox st1 = map (\<lambda>r. if ob_id r = ob_id msg then f r else r) (outbox st)"
    and df: "delivered now msg (f msg)" by blast
  have only: "r = msg" if "r \<in> set (outbox st)" "ob_id r = ob_id msg" for r
    using that m Cons.prems(2) by (auto simp: distinct_map inj_on_def)
  have keep: "ob_id (if ob_id r = ob_id msg then f r else r) = ob_id r \<and>
      ob_channel (if ob_id r = ob_id msg then f r else r) = ob_channel r" if "r \<in> set (outbox st)" for r
    using only[OF that] df by (auto simp: delivered_def)
  have ids: "map ob_id (outbox st1) = map ob_id (outbox st)" "map ob_channel (outbox st1) = map ob_channel (outbox st)"
    unfolding f using keep by simp_all
  have sub: "set msgs \<subseteq> set (outbox st1)"
  proof
    fix x assume x: "x \<in> set msgs"
    then have "ob_id x \<noteq> ob_id msg" using Cons.prems(4) by (metis distinct.simps(2) image_eqI list.set_map list.simps(9))
    moreover have "x \<in> set (outbox st)" using x Cons.prems(3) by auto
    ultimately show "x \<in> set (outbox st1)" unfolding f by force
  qed
  obtain res1 where "deliver_all d now msgs res1 (w1, st1) = (res', (w', st'))"
    using Cons.prems(5) dl by simp
  from Cons.IH[OF readable_dispatcher_rows[OF Cons.prems(1) ids(2)] _ sub _ this] ids Cons.prems(2,4)
  have IH: "list_all2 (\<lambda>r r'. if ob_id r \<in> ob_id ` set msgs then delivered now r r' else r' = r) (outbox st1) (outbox st')"
    by simp
  then show ?case unfolding f list_all2_map1
  proof (rule list_all2_mono_set)
    fix r r'
    assume r: "r \<in> set (outbox st)"
      and st: "if ob_id (if ob_id r = ob_id msg then f r else r) \<in> ob_id ` set msgs
        then delivered now (if ob_id r = ob_id msg then f r else r) r' else r' = (if ob_id r = ob_id msg then f r else r)"
    have notin: "ob_id msg \<notin> ob_id ` set msgs" using Cons.prems(4) by auto
    show "if ob_id r \<in> ob_id ` set (msg # msgs) then delivered now r r' else r' = r"
      using st only[OF r] df notin by (cases "ob_id r = ob_id msg") (auto simp: delivered_def)
  qed
qed

section \<open>Draining\<close>

definition outbox_inv :: "'d db \<Rightarrow> bool" where
  "outbox_inv st \<longleftrightarrow> distinct (map ob_id (outbox st)) \<and> (\<forall>r \<in> set (outbox st). 0 \<le> ob_attempts r
     \<and> ob_attempts r \<le> MaxAttempts \<and> (ob_status r = ''pending'' \<longrightarrow> ob_attempts r < MaxAttempts))"

lemma backoff_bounds: "backoff a \<le> 24 * 60"
  by (simp add: backoff_def Let_def)

lemma claimed_due: "i \<in> set (claimed_ids now n rows) \<Longrightarrow> \<exists>r \<in> set rows. ob_id r = i \<and> due now r"
  by (auto simp: claimed_ids_def dest!: in_set_takeD)

lemma claimed_all: "length (filter (due now) rows) \<le> nat n \<Longrightarrow> r \<in> set rows \<Longrightarrow> due now r \<Longrightarrow>
    ob_id r \<in> set (claimed_ids now n rows)"
  by (simp add: claimed_ids_def)

text \<open>What one pass over the queue does to each row.\<close>

definition passed :: "instant \<Rightarrow> uuid list \<Rightarrow> 'd outbox_row \<Rightarrow> 'd outbox_row \<Rightarrow> bool" where
  "passed now ids r r' \<longleftrightarrow> (if ob_id r \<in> set ids then delivered now (r\<lparr>ob_attempts := ob_attempts r + 1\<rparr>) r' else r' = r)"

lemma Dispatch_rows:
  assumes "readable_dispatcher d st" and "distinct (map ob_id (outbox st))" and "Dispatch d now (w, st) = (res, (w', st'))"
  shows "list_all2 (passed now (claimed_ids now (dpBatch d) (outbox st))) (outbox st) (outbox st')"
proof -
  let ?ids = "claimed_ids now (dpBatch d) (outbox st)"
  let ?bump = "\<lambda>r. if ob_id r \<in> set ?ids then r\<lparr>ob_attempts := ob_attempts r + 1\<rparr> else r"
  define st1 where "st1 = st\<lparr>outbox := map ?bump (outbox st)\<rparr>"
  define msgs where "msgs = filter (\<lambda>r. ob_id r \<in> set ?ids) (outbox st1)"
  have ids: "map ob_id (outbox st1) = map ob_id (outbox st)" "map ob_channel (outbox st1) = map ob_channel (outbox st)"
    by (simp_all add: st1_def)
  obtain res0 where d: "deliver_all d now msgs res0 (w, st1) = (res, (w', st'))"
    using assms(3) by (simp add: Dispatch_def InTenantTx_def ClaimOutbox_def Let_def update_rows_def st1_def msgs_def)
  have "distinct (map ob_id msgs)" unfolding msgs_def using assms(2) ids by (intro distinct_map_filter) simp
  from deliver_all_rows[OF readable_dispatcher_rows[OF assms(1) ids(2)] _ _ this d] ids assms(2)
  have "list_all2 (\<lambda>r r'. if ob_id r \<in> ob_id ` set msgs then delivered now r r' else r' = r) (outbox st1) (outbox st')"
    by (auto simp: msgs_def)
  then have l: "list_all2 (\<lambda>r r'. if ob_id (?bump r) \<in> ob_id ` set msgs then delivered now (?bump r) r' else r' = ?bump r)
      (outbox st) (outbox st')"
    by (simp add: st1_def list_all2_map1)
  show ?thesis
  proof (rule list_all2_mono_set[OF l])
    fix r r'
    assume r: "r \<in> set (outbox st)" and st: "if ob_id (?bump r) \<in> ob_id ` set msgs then delivered now (?bump r) r' else r' = ?bump r"
    have id: "ob_id (?bump x) = ob_id x" for x :: "'a outbox_row" by simp
    have "ob_id ` set msgs = ob_id ` set (outbox st1) \<inter> set ?ids" by (auto simp: msgs_def)
    also have "ob_id ` set (outbox st1) = ob_id ` set (outbox st)" using ids(1) by (metis set_map)
    finally have "ob_id (?bump r) \<in> ob_id ` set msgs \<longleftrightarrow> ob_id r \<in> set ?ids" using r by (simp add: id)
    then show "passed now ?ids r r'" using st by (simp add: passed_def split: if_splits)
  qed
qed

lemma passed_inv:
  assumes "passed now ids r r'" and "0 \<le> ob_attempts r \<and> ob_attempts r \<le> MaxAttempts \<and>
      (ob_status r = ''pending'' \<longrightarrow> ob_attempts r < MaxAttempts)" and "ob_id r \<in> set ids \<Longrightarrow> ob_status r = ''pending''"
  shows "0 \<le> ob_attempts r' \<and> ob_attempts r' \<le> MaxAttempts \<and> (ob_status r' = ''pending'' \<longrightarrow> ob_attempts r' < MaxAttempts)"
    and "ob_id r' = ob_id r" and "ob_channel r' = ob_channel r" and "ob_attempts r \<le> ob_attempts r'"
  using assms by (auto simp: passed_def delivered_def split: if_splits)

lemma Dispatch_keeps:
  assumes "readable_dispatcher d st" and "outbox_inv st" and "Dispatch d now (w, st) = (res, (w', st'))"
  shows "outbox_inv st'" and "readable_dispatcher d st'" and "map ob_id (outbox st') = map ob_id (outbox st)"
    and "list_all2 (passed now (claimed_ids now (dpBatch d) (outbox st))) (outbox st) (outbox st')"
proof -
  let ?ids = "claimed_ids now (dpBatch d) (outbox st)"
  have dist: "distinct (map ob_id (outbox st))" using assms(2) by (simp add: outbox_inv_def)
  show l: "list_all2 (passed now ?ids) (outbox st) (outbox st')" by (rule Dispatch_rows[OF assms(1) dist assms(3)])
  have pend: "ob_status r = ''pending''" if "r \<in> set (outbox st)" "ob_id r \<in> set ?ids" for r
  proof -
    note r = that
    obtain x where "x \<in> set (outbox st)" "ob_id x = ob_id r" "due now x" using claimed_due[OF r(2)] by blast
    moreover from this have "x = r" using dist r(1) by (auto simp: distinct_map inj_on_def)
    ultimately show ?thesis by (simp add: due_def)
  qed
  have each: "(0 \<le> ob_attempts r' \<and> ob_attempts r' \<le> MaxAttempts \<and> (ob_status r' = ''pending'' \<longrightarrow> ob_attempts r' < MaxAttempts))
      \<and> ob_id r' = ob_id r \<and> ob_channel r' = ob_channel r"
    if "r \<in> set (outbox st)" "passed now ?ids r r'" for r r'
    using passed_inv[OF that(2)] pend[OF that(1)] assms(2) that(1) by (auto simp: outbox_inv_def)
  have "list_all2 (\<lambda>r r'. ob_id r' = ob_id r) (outbox st) (outbox st')"
    using each by (rule list_all2_mono_set[OF l, THEN list_all2_mono]) auto
  then show ids: "map ob_id (outbox st') = map ob_id (outbox st)" by (simp add: list_all2_conv_all_nth list_eq_iff_nth_eq)
  have "list_all2 (\<lambda>r r'. ob_channel r' = ob_channel r) (outbox st) (outbox st')"
    using each by (rule list_all2_mono_set[OF l, THEN list_all2_mono]) auto
  then have "map ob_channel (outbox st') = map ob_channel (outbox st)" by (simp add: list_all2_conv_all_nth list_eq_iff_nth_eq)
  then show "readable_dispatcher d st'" by (rule readable_dispatcher_rows[OF assms(1)])
  have "\<exists>r \<in> set (outbox st). passed now ?ids r r'" if "r' \<in> set (outbox st')" for r'
    using l that by (metis in_set_conv_nth list_all2_conv_all_nth)
  then show "outbox_inv st'" using each dist ids by (fastforce simp: outbox_inv_def)
qed

fun dispatch_at :: "('d, 'w) dispatcher \<Rightarrow> instant list \<Rightarrow> 'w \<times> 'd db \<Rightarrow> 'w \<times> 'd db" where
  "dispatch_at d [] ws = ws"
| "dispatch_at d (t # ts) ws = dispatch_at d ts (snd (Dispatch d t ws))"

text \<open>How often a day has gone by, at a pass, since the last pass that was counted.\<close>

fun days_passed :: "instant \<Rightarrow> instant list \<Rightarrow> nat" where
  "days_passed t [] = 0"
| "days_passed t (u # us) = (if t + 24 * hour \<le> u then Suc (days_passed u us) else days_passed t us)"

text \<open>The attempts a message has used up; one that no longer waits has used all.\<close>

definition used :: "'d outbox_row \<Rightarrow> int" where
  "used r = (if ob_status r = ''pending'' then ob_attempts r else MaxAttempts)"

text \<open>\<open>f\<close> full batches were claimed and \<open>k\<close> days went by without one, the last of them at \<open>t\<close>: what waits was tried
  \<open>k\<close> times, and once more since or it is due a day after \<open>t\<close>; \<open>now\<close> is the last pass.\<close>

definition draining :: "nat \<Rightarrow> nat \<Rightarrow> nat \<Rightarrow> instant \<Rightarrow> instant \<Rightarrow> 'd db \<Rightarrow> bool" where
  "draining b f k t now st \<longleftrightarrow> int (f * b) \<le> (\<Sum>r \<leftarrow> outbox st. used r)
     \<and> (\<forall>r \<in> set (outbox st). ob_status r = ''pending'' \<longrightarrow> int k \<le> ob_attempts r
          \<and> ob_next_attempt_at r \<le> pg_Time (now + 24 * hour)
          \<and> (int k < ob_attempts r \<or> ob_next_attempt_at r \<le> pg_Time (t + 24 * hour)))"

lemma pg_Time_mono: "a \<le> b \<Longrightarrow> pg_Time a \<le> pg_Time b"
  unfolding pg_Time_def by (simp add: zdiv_mono1)

lemma retry_within_day: "pg_Time (now + backoff a * 60 * second) \<le> pg_Time (now + 24 * hour)"
  using backoff_bounds[of a] by (intro pg_Time_mono) (simp add: hour_def second_def)

lemma sum_list_mono2:
  "list_all2 (\<lambda>x y. f x \<le> g y) xs ys \<Longrightarrow> (\<Sum>x \<leftarrow> xs. f x :: int) \<le> (\<Sum>y \<leftarrow> ys. g y)"
  by (induction rule: list_all2_induct) simp_all

lemma sum_list_claimed: "(\<Sum>r \<leftarrow> rows. (if P r then 1 else 0 :: int)) = int (length (filter P rows))"
  by (induction rows) simp_all

text \<open>One pass: a message that waits afterwards waited before; if it was claimed, it was tried once more and is due within
  a day; the messages claimed use up one attempt at least.\<close>

lemma Dispatch_progress:
  assumes "readable_dispatcher d st" and "outbox_inv st" and "Dispatch d now (w, st) = (res, (w', st'))"
  defines "ids \<equiv> claimed_ids now (dpBatch d) (outbox st)"
  shows "(\<Sum>r \<leftarrow> outbox st. used r) + int (length ids) \<le> (\<Sum>r \<leftarrow> outbox st'. used r)"
    and "r' \<in> set (outbox st') \<Longrightarrow> ob_status r' = ''pending'' \<Longrightarrow> \<exists>r \<in> set (outbox st). ob_status r = ''pending'' \<and>
      (if ob_id r \<in> set ids then ob_attempts r' = ob_attempts r + 1 \<and> ob_next_attempt_at r' \<le> pg_Time (now + 24 * hour)
       else r' = r)"
proof -
  have dist: "distinct (map ob_id (outbox st))" using assms(2) by (simp add: outbox_inv_def)
  note K = Dispatch_keeps[OF assms(1-3), folded ids_def]
  have due: "ob_status r = ''pending''" if "r \<in> set (outbox st)" "ob_id r \<in> set ids" for r
  proof -
    note r = that
    obtain x where "x \<in> set (outbox st)" "ob_id x = ob_id r" "due now x" using claimed_due[OF r(2)[unfolded ids_def]] by blast
    moreover from this have "x = r" using dist r(1) by (auto simp: distinct_map inj_on_def)
    ultimately show ?thesis by (simp add: due_def)
  qed
  have ids: "distinct ids" "set ids \<subseteq> ob_id ` set (outbox st)"
  proof -
    show "distinct ids" unfolding ids_def claimed_ids_def take_map[symmetric]
      using dist by (intro distinct_take) (simp add: distinct_map inj_on_def)
    show "set ids \<subseteq> ob_id ` set (outbox st)" using claimed_due unfolding ids_def by fastforce
  qed
  have "card (set ids) = length (filter (\<lambda>r. ob_id r \<in> set ids) (outbox st))"
  proof -
    have "ob_id ` set (filter (\<lambda>r. ob_id r \<in> set ids) (outbox st)) = set ids" using ids(2) by auto
    then have "card (set ids) = card (set (map ob_id (filter (\<lambda>r. ob_id r \<in> set ids) (outbox st))))" by simp
    also have "\<dots> = length (map ob_id (filter (\<lambda>r. ob_id r \<in> set ids) (outbox st)))"
      by (rule distinct_card[OF distinct_map_filter[OF dist]])
    finally show ?thesis by simp
  qed
  then have count: "int (length ids) = (\<Sum>r \<leftarrow> outbox st. (if ob_id r \<in> set ids then 1 else 0))"
    using distinct_card[OF ids(1)] by (simp add: sum_list_claimed)
  have "list_all2 (\<lambda>r r'. used r + (if ob_id r \<in> set ids then 1 else 0) \<le> used r') (outbox st) (outbox st')"
  proof (rule list_all2_mono_set[OF K(4)])
    fix r r' assume r: "r \<in> set (outbox st)" and p: "passed now ids r r'"
    then show "used r + (if ob_id r \<in> set ids then 1 else 0) \<le> used r'"
      using due[OF r] assms(2) by (auto simp: used_def passed_def delivered_def outbox_inv_def split: if_splits)
  qed
  from sum_list_mono2[OF this] show "(\<Sum>r \<leftarrow> outbox st. used r) + int (length ids) \<le> (\<Sum>r \<leftarrow> outbox st'. used r)"
    by (simp add: sum_list_addf count)
  assume r': "r' \<in> set (outbox st')" "ob_status r' = ''pending''"
  then obtain r where r: "r \<in> set (outbox st)" "passed now ids r r'"
    using K(4) by (metis in_set_conv_nth list_all2_conv_all_nth)
  then show "\<exists>r \<in> set (outbox st). ob_status r = ''pending'' \<and>
      (if ob_id r \<in> set ids then ob_attempts r' = ob_attempts r + 1 \<and> ob_next_attempt_at r' \<le> pg_Time (now + 24 * hour) else r' = r)"
    using r' due[OF r(1)] retry_within_day
    by (intro bexI[of _ r]) (auto simp: passed_def delivered_def split: if_splits)
qed

lemma draining_step:
  assumes "readable_dispatcher d st" and "outbox_inv st" and "Dispatch d u (w, st) = (res, (w', st'))"
    and dr: "draining (nat (dpBatch d)) f k t now st" and "now \<le> u"
  shows "if u < t + 24 * hour then draining (nat (dpBatch d)) f k t u st'
    else draining (nat (dpBatch d)) (Suc f) k u u st' \<or> draining (nat (dpBatch d)) f (Suc k) u u st'"
proof -
  define b where "b = nat (dpBatch d)"
  define ids where "ids = claimed_ids u (dpBatch d) (outbox st)"
  note P = Dispatch_progress[OF assms(1-3), folded ids_def]
  have sum: "int (f * b) \<le> (\<Sum>r \<leftarrow> outbox st. used r)" using dr by (simp add: draining_def b_def)
  have day: "pg_Time (now + 24 * hour) \<le> pg_Time (u + 24 * hour)" using assms(5) by (intro pg_Time_mono) simp
  have after: "int k \<le> ob_attempts r' \<and> ob_next_attempt_at r' \<le> pg_Time (u + 24 * hour)
      \<and> (int k < ob_attempts r' \<or> ob_next_attempt_at r' \<le> pg_Time (t + 24 * hour)
          \<and> (\<exists>r \<in> set (outbox st). r = r' \<and> ob_id r \<notin> set ids))"
    if r': "r' \<in> set (outbox st')" "ob_status r' = ''pending''" for r'
  proof -
    from P(2)[OF r'] obtain r where r: "r \<in> set (outbox st)" "ob_status r = ''pending''"
      and c: "if ob_id r \<in> set ids then ob_attempts r' = ob_attempts r + 1 \<and> ob_next_attempt_at r' \<le> pg_Time (u + 24 * hour) else r' = r"
      by blast
    have "int k \<le> ob_attempts r" "ob_next_attempt_at r \<le> pg_Time (now + 24 * hour)"
      "int k < ob_attempts r \<or> ob_next_attempt_at r \<le> pg_Time (t + 24 * hour)"
      using dr r by (auto simp: draining_def)
    then show ?thesis using c r day by (auto split: if_splits)
  qed
  show ?thesis
  proof (cases "u < t + 24 * hour")
    case True
    have "draining b f k t u st'" using after sum P(1) by (fastforce simp: draining_def)
    then show ?thesis using True by (simp add: b_def)
  next
    case False
    then have reach: "pg_Time (t + 24 * hour) \<le> pg_Time u" by (intro pg_Time_mono) simp
    show ?thesis
    proof (cases "length (filter (due u) (outbox st)) \<le> b")
      case True
      have "int k < ob_attempts r'" if r': "r' \<in> set (outbox st')" "ob_status r' = ''pending''" for r'
      proof (rule ccontr)
        assume "\<not> int k < ob_attempts r'"
        with after[OF r'] have w: "ob_next_attempt_at r' \<le> pg_Time (t + 24 * hour)" "r' \<in> set (outbox st)" "ob_id r' \<notin> set ids" by auto
        then have "due u r'" using r'(2) reach by (simp add: due_def)
        with w(2,3) True show False using claimed_all[of u "outbox st" "dpBatch d" r'] by (simp add: b_def ids_def)
      qed
      then have "draining b f (Suc k) u u st'" using after sum P(1) by (fastforce simp: draining_def)
      then show ?thesis using False by (simp add: b_def)
    next
      case full: False
      then have "length ids = b" by (simp add: ids_def claimed_ids_def b_def)
      then have "int (Suc f * b) \<le> (\<Sum>r \<leftarrow> outbox st'. used r)" using P(1) sum by simp
      then have "draining b (Suc f) k u u st'" using after by (fastforce simp: draining_def)
      then show ?thesis using False by (simp add: b_def)
    qed
  qed
qed

lemma dispatch_run:
  assumes "readable_dispatcher d st" and "outbox_inv st" and "draining (nat (dpBatch d)) f k t now st"
    and "sorted (now # ts)" and "dispatch_at d ts (w, st) = (w', st')"
  shows "\<exists>f' k' t' now'. outbox_inv st' \<and> map ob_id (outbox st') = map ob_id (outbox st)
    \<and> draining (nat (dpBatch d)) f' k' t' now' st' \<and> f' + k' = f + k + days_passed t ts"
  using assms
proof (induction ts arbitrary: f k t now w st)
  case Nil
  then show ?case by auto
next
  case (Cons u us)
  obtain res w1 st1 where d: "Dispatch d u (w, st) = (res, (w1, st1))" by (metis prod.exhaust)
  note K = Dispatch_keeps[OF Cons.prems(1,2) d]
  have run: "dispatch_at d us (w1, st1) = (w', st')" using Cons.prems(5) d by simp
  have s: "now \<le> u" "sorted (u # us)" using Cons.prems(4) by simp_all
  note S = draining_step[OF Cons.prems(1,2) d Cons.prems(3) s(1)]
  obtain f1 k1 t1 where "draining (nat (dpBatch d)) f1 k1 t1 u st1" "f1 + k1 + days_passed t1 us = f + k + days_passed t (u # us)"
  proof (cases "u < t + 24 * hour")
    case True
    then show thesis using S that[of f k t] by simp
  next
    case False
    then show thesis using S that[of "Suc f" k u] that[of f "Suc k" u] by auto
  qed
  from Cons.IH[OF K(2,1) this(1) s(2) run] this(2) K(3) show ?case by metis
qed


text \<open>One pass over the queue touches the rows it claimed only; each of them is then sent, given
  up, or waits for \<open>backoff\<close> minutes after its further attempt, which was not the last.\<close>
theorem Dispatch_pass:
  assumes "readable_dispatcher d st" and "outbox_inv st" and "Dispatch d now (w, st) = (res, (w', st'))"
  shows "outbox_inv st' \<and> list_all2 (\<lambda>r r'. if ob_id r \<in> set (claimed_ids now (dpBatch d) (outbox st))
      then ob_id r' = ob_id r \<and> ob_attempts r' = ob_attempts r + 1 \<and> (ob_status r' = ''sent'' \<or> ob_status r' = ''failed''
        \<or> ob_attempts r' < MaxAttempts \<and> ob_next_attempt_at r' = pg_Time (now + backoff (ob_attempts r') * 60 * second))
      else r' = r) (outbox st) (outbox st')"
proof -
  note K = Dispatch_keeps[OF assms]
  show ?thesis
  proof (rule conjI[OF K(1)], rule list_all2_mono[OF K(4)])
    fix r r' :: "'a outbox_row"
    assume "passed now (claimed_ids now (dpBatch d) (outbox st)) r r'"
    then show "if ob_id r \<in> set (claimed_ids now (dpBatch d) (outbox st))
      then ob_id r' = ob_id r \<and> ob_attempts r' = ob_attempts r + 1 \<and> (ob_status r' = ''sent'' \<or> ob_status r' = ''failed''
        \<or> ob_attempts r' < MaxAttempts \<and> ob_next_attempt_at r' = pg_Time (now + backoff (ob_attempts r') * 60 * second))
      else r' = r"
      by (auto simp: passed_def delivered_def split: if_splits)
  qed
qed

section \<open>What the queue does not guarantee\<close>

text \<open>The rows are claimed by one transaction and settled by others. In between a message stays due,
  so a second worker claims it again.\<close>

lemma claimed_ids_bump:
  "claimed_ids t n (map (\<lambda>r. if P r then r\<lparr>ob_attempts := ob_attempts r + 1\<rparr> else r) rows) = claimed_ids t n rows"
proof -
  let ?b = "\<lambda>r. if P r then r\<lparr>ob_attempts := ob_attempts r + 1\<rparr> else r"
  have f: "filter (due t) (map ?b rows) = map ?b (filter (due t) rows)"
    by (induction rows) (auto simp: due_def)
  have ins: "insort_key ob_next_attempt_at (?b r) (map ?b xs) = map ?b (insort_key ob_next_attempt_at r xs)" for r xs
    by (induction xs) auto
  have "sort_key ob_next_attempt_at (map ?b xs) = map ?b (sort_key ob_next_attempt_at xs)" for xs
    by (induction xs) (simp_all add: ins del: if_split)
  then show ?thesis by (simp add: claimed_ids_def f take_map)
qed

lemma ClaimOutbox_not_exclusive:
  assumes "ClaimOutbox t n st = Inr (msgs, st1)"
  shows "\<exists>msgs' st2. ClaimOutbox t n st1 = Inr (msgs', st2) \<and> map ob_id msgs' = map ob_id msgs"
proof -
  let ?ids = "claimed_ids t n (outbox st)"
  have st1: "outbox st1 = map (\<lambda>r. if ob_id r \<in> set ?ids then r\<lparr>ob_attempts := ob_attempts r + 1\<rparr> else r) (outbox st)"
    and m: "msgs = filter (\<lambda>r. ob_id r \<in> set ?ids) (outbox st1)"
    using assms by (auto simp: ClaimOutbox_def Let_def update_rows_def)
  have same: "claimed_ids t n (outbox st1) = ?ids" unfolding st1 by (rule claimed_ids_bump)
  have "map ob_id (filter (\<lambda>r. ob_id r \<in> S) (map (\<lambda>r. if ob_id r \<in> T then r\<lparr>ob_attempts := ob_attempts r + 1\<rparr> else r) rows))
      = map ob_id (filter (\<lambda>r. ob_id r \<in> S) rows)" for S T and rows :: "'a outbox_row list"
    by (induction rows) auto
  then show ?thesis by (simp add: ClaimOutbox_def Let_def update_rows_def same m)
qed

text \<open>\<open>truncate\<close> counts bytes. An error of Cyrillic text can be cut inside a letter; PostgreSQL then refuses
  it and the message is neither given up nor put off.\<close>

lemma cut_letter_stays:
  assumes "\<not> readable reason"
  shows "snd (give_up_or_retry msg now permanent reason st) = st"
  using assms by (simp add: give_up_or_retry_def markFailed_def reschedule_def MarkOutboxFailed_def RescheduleOutbox_def
      InTenantTx_def readable_def)

definition cyrillic_letters :: "nat \<Rightarrow> string" where
  "cyrillic_letters n = concat (replicate n (map char_of [208 :: nat, 175]))"

lemma letters_valid: "utf8_valid (map of_char (cyrillic_letters n) @ r) = utf8_valid r"
  by (induction n) (simp_all add: cyrillic_letters_def)

lemma letters_length: "length (cyrillic_letters n) = 2 * n"
  by (induction n) (simp_all add: cyrillic_letters_def)

lemma letters_Suc: "cyrillic_letters (Suc n) = cyrillic_letters n @ map char_of [208 :: nat, 175]"
  by (induction n) (simp_all add: cyrillic_letters_def)

lemma cut_letter_exists: "valid_text (CHR ''x'' # cyrillic_letters 250) \<and> \<not> readable (CHR ''x'' # cyrillic_letters 250)"
proof
  show "valid_text (CHR ''x'' # cyrillic_letters 250)"
    using letters_valid[of 250 "[]"] by (simp add: valid_text_def)
  have "cyrillic_letters 250 = cyrillic_letters 249 @ map char_of [208 :: nat, 175]"
    using letters_Suc[of 249] by simp
  then have "truncate (CHR ''x'' # cyrillic_letters 250) 500 = CHR ''x'' # cyrillic_letters 249 @ [char_of (208 :: nat)]"
    using letters_length[of 249] by (simp add: truncate_def)
  then show "\<not> readable (CHR ''x'' # cyrillic_letters 250)"
    using letters_valid[of 249 "[208]"] by (simp add: readable_def valid_text_def)
qed

section \<open>Example\<close>

definition sample_message :: "dec outbox_row" where
  "sample_message = \<lparr>ob_id = 7, ob_tenant = 1, ob_notification = None, ob_channel = ''telegram'', ob_recipient = ''5'',
     ob_payload = \<lparr>plTitle = [], plBody = [], plLink = [], plItems = []\<rparr>, ob_status = ''pending'', ob_attempts = 0,
     ob_next_attempt_at = 0, ob_last_error = [], ob_created_at = 0, ob_sent_at = None\<rparr>"

definition sample_queue :: "dec db" where
  "sample_queue = sample_db\<lparr>outbox := [sample_message]\<rparr>"

text \<open>A channel that never works.\<close>

definition sample_dispatcher :: "(dec, unit) dispatcher" where
  "sample_dispatcher = NewDispatcher (\<lambda>c. Some (\<lambda>to p w. (SendError ''timeout'', w)))"

lemma sample_queue_ok:
  "readable_dispatcher sample_dispatcher sample_queue" "outbox_inv sample_queue" "0 < dpBatch sample_dispatcher"
  "\<forall>r \<in> set (outbox sample_queue). ob_status r = ''pending'' \<longrightarrow> ob_next_attempt_at r \<le> pg_Time 0"
proof -
  have "readable ''timeout''" by code_simp
  then show "readable_dispatcher sample_dispatcher sample_queue"
    by (simp add: readable_dispatcher_def sample_dispatcher_def NewDispatcher_def readable_sender_def)
qed (simp_all add: sample_queue_def outbox_inv_def sample_message_def MaxAttempts_def sample_dispatcher_def
    NewDispatcher_def pg_Time_def hour_def)

abbreviation sample_passes :: "instant list" where
  "sample_passes \<equiv> [hour, 24 * hour, 30 * hour, 48 * hour, 72 * hour, 96 * hour]"


theorem Dispatch_pass_witness:
  "\<exists>res w' st'. Dispatch sample_dispatcher 0 ((), sample_queue) = (res, (w', st')) \<and> outbox_inv st'"
proof -
  obtain res w' st' where r: "Dispatch sample_dispatcher 0 ((), sample_queue) = (res, (w', st'))" by (metis prod.exhaust)
  show ?thesis using Dispatch_pass[OF sample_queue_ok(1,2) r] r by blast
qed

end
