(* ===== verification/Auth.thy ===== *)
theory Auth
  imports Accounts Password Ratelimit Outbox
begin

text \<open>
  \<open>internal/auth/service.go\<close> and \<open>audit.go\<close>: login behind the two limits, sessions, and the audit log. The tables of
  letters, the time zones of the host, \<open>encoding/json\<close> for the settings of a tenant and \<open>net/netip\<close> for the text of
  an address are parameters. \<open>w\<close> is the reading of the wall clock, which an operation takes once.
\<close>

section \<open>Parameters and data\<close>

record auth_lib =
  alCrypto :: crypto_lib
  alText :: text_lib
  alZones :: "string \<Rightarrow> location option"
  alUnmarshal :: "string \<Rightarrow> settings \<Rightarrow> settings option"
  alParseAddr :: "string \<Rightarrow> string option"
  alParseAddrPort :: "string \<Rightarrow> string option"

record auth_service =
  asClock :: clock
  asLimiter :: limiter
  asTtl :: int

datatype auth_error = ErrInvalidCredentials | ErrSessionNotFound | ErrTooManyAttempts | ErrSandboxRestricted
  | AuthPassword password_error | AuthRandom | AuthDb db_error

definition loginLimit :: int where "loginLimit = 5"
definition loginWindow :: int where "loginWindow = 60 * second"

record principal =
  prUserID :: uuid
  prEmail :: string
  prName :: string
  prRole :: role
  prTelegramChatID :: "int option"
  prTenant :: tenant
  prCSRFHash :: string

record login_result =
  lrPrincipal :: principal
  lrSessionToken :: string
  lrCSRFToken :: string
  lrExpiresAt :: instant

text \<open>What an operation takes from outside: the bytes of \<open>rand.Read\<close> for the two tokens, and for the two limits the
  time with the random suffix of the mark.\<close>

record login_env =
  leToken :: "string option"
  leCsrf :: "string option"
  leIpMark :: "int \<times> string"
  leEmailMark :: "int \<times> string"

section \<open>Tenants of rows\<close>

definition ParseSettings :: "auth_lib \<Rightarrow> string \<Rightarrow> settings" where
  "ParseSettings L raw = (if raw = [] then DefaultSettings
     else case alUnmarshal L raw DefaultSettings of None \<Rightarrow> DefaultSettings | Some s \<Rightarrow> s)"

definition tenant_of :: "auth_lib \<Rightarrow> tenant_row \<Rightarrow> tenant" where
  "tenant_of L t = \<lparr>tenantID = tn_id t, tenantName = tn_name t, tenantLocation = Some (LoadLocation (alZones L) (tn_timezone t)),
     IsSandbox = tn_is_sandbox t, ClockOffset = pg_Duration (tn_clock_offset t), ExpiresAt = tn_expires_at t,
     Autopilot = tn_autopilot t, Seed = tn_seed t, tenantSettings = ParseSettings L (tn_settings t)\<rparr>"

definition principal_of :: "auth_lib \<Rightarrow> session_row \<Rightarrow> user_row \<Rightarrow> tenant_row \<Rightarrow> principal" where
  "principal_of L r u t = \<lparr>prUserID = us_id u, prEmail = us_email u, prName = us_name u, prRole = us_role u,
     prTelegramChatID = us_telegram u, prTenant = tenant_of L t, prCSRFHash = se_csrf_hash r\<rparr>"

section \<open>The audit log\<close>

definition parseIP :: "auth_lib \<Rightarrow> string \<Rightarrow> string option" where
  "parseIP L ip = (case alParseAddr L ip of None \<Rightarrow> alParseAddrPort L ip | Some a \<Rightarrow> Some a)"

text \<open>\<open>diff\<close> is the encoded change. A failure is logged and leaves the operation alone.\<close>

definition audit_with :: "auth_lib \<Rightarrow> instant \<Rightarrow> uuid \<Rightarrow> uuid option \<Rightarrow> string \<Rightarrow> string \<Rightarrow> uuid option \<Rightarrow> string \<Rightarrow> string \<Rightarrow> 'd site \<Rightarrow> 'd site" where
  "audit_with L w tid uid action entity eid ip diff s = snd (InTenantTx (
     tx_bind (in_db new_uuid) (\<lambda>i.
     InsertAuditLog w tid \<lparr>au_id = i, au_tenant = tid, au_user = uid, au_action = action, au_entity = entity,
       au_entity_id = eid, au_diff = diff, au_ip = parseIP L ip, au_at = 0\<rparr>)) s)"

definition audit :: "auth_lib \<Rightarrow> instant \<Rightarrow> uuid \<Rightarrow> uuid option \<Rightarrow> string \<Rightarrow> string \<Rightarrow> uuid option \<Rightarrow> string \<Rightarrow> 'd site \<Rightarrow> 'd site" where
  "audit L w tid uid action entity eid ip = audit_with L w tid uid action entity eid ip ''{}''"

text \<open>\<open>marshal\<close> is \<open>json.Marshal\<close>, \<open>None\<close> its failure; a nil change is \<open>None\<close>.\<close>

definition AuditWithDiff :: "auth_lib \<Rightarrow> ('v \<Rightarrow> string option) \<Rightarrow> instant \<Rightarrow> uuid \<Rightarrow> uuid option \<Rightarrow> string \<Rightarrow> string \<Rightarrow>
    uuid option \<Rightarrow> string \<Rightarrow> 'v option \<Rightarrow> 'd site \<Rightarrow> 'd site" where
  "AuditWithDiff L marshal w tid uid action entity eid ip diff = audit_with L w tid uid action entity eid ip
     (case diff of None \<Rightarrow> ''{}'' | Some v \<Rightarrow> (case marshal v of None \<Rightarrow> ''{}'' | Some enc \<Rightarrow> enc))"

section \<open>Sessions\<close>

definition auth_truncate :: "string \<Rightarrow> nat \<Rightarrow> string" where
  "auth_truncate s n = (if length s \<le> n then s else take n s)"

definition auth_now :: "auth_service \<Rightarrow> instant \<Rightarrow> instant" where
  "auth_now sv w = clock_Now (asClock sv) w"

definition Resolve :: "auth_lib \<Rightarrow> auth_service \<Rightarrow> instant \<Rightarrow> string \<Rightarrow> 'd site \<Rightarrow> auth_error + principal" where
  "Resolve L sv w token s = (if token = [] then Inl ErrSessionNotFound else
     case GetSession (HashToken (alCrypto L) token) (pg_Time (auth_now sv w)) s of
       None \<Rightarrow> Inl ErrSessionNotFound
     | Some (r, u, t) \<Rightarrow>
         if tn_is_sandbox t \<and> (case tn_expires_at t of None \<Rightarrow> False | Some e \<Rightarrow> e \<le> auth_now sv w) then Inl ErrSessionNotFound
         else Inr (principal_of L r u t))"

definition new_session :: "auth_service \<Rightarrow> instant \<Rightarrow> uuid \<Rightarrow> uuid \<Rightarrow> string \<Rightarrow> string \<Rightarrow> string \<Rightarrow> session_row" where
  "new_session sv w uid tid tokenHash csrfHash ua = \<lparr>se_token_hash = tokenHash, se_user = uid, se_tenant = tid,
     se_csrf_hash = csrfHash, se_user_agent = auth_truncate ua 256, se_expires_at = pg_Time (auth_now sv w + asTtl sv),
     se_last_seen_at = pg_Time w, se_created_at = pg_Time w\<rparr>"

definition startSession :: "auth_lib \<Rightarrow> auth_service \<Rightarrow> instant \<Rightarrow> login_env \<Rightarrow> uuid \<Rightarrow> uuid \<Rightarrow> string \<Rightarrow> 'd site \<Rightarrow>
    (auth_error + login_result) \<times> 'd site" where
  "startSession L sv w env uid tid ua s = (case NewToken (alCrypto L) (leToken env) of None \<Rightarrow> (Inl AuthRandom, s)
     | Some (token, tokenHash) \<Rightarrow> (case NewToken (alCrypto L) (leCsrf env) of None \<Rightarrow> (Inl AuthRandom, s)
     | Some (csrfToken, csrfHash) \<Rightarrow>
     (case InTenantTx (tx_lift AuthDb (CreateSession w tid (new_session sv w uid tid tokenHash csrfHash ua))) s of
       (Inl e, s1) \<Rightarrow> (Inl e, s1)
     | (Inr _, s1) \<Rightarrow> (case Resolve L sv w token s1 of Inl e \<Rightarrow> (Inl e, s1)
         | Inr p \<Rightarrow> (Inr \<lparr>lrPrincipal = p, lrSessionToken = token, lrCSRFToken = csrfToken,
             lrExpiresAt = auth_now sv w + asTtl sv\<rparr>, s1)))))"

definition Touch :: "auth_lib \<Rightarrow> auth_service \<Rightarrow> instant \<Rightarrow> string \<Rightarrow> uuid \<Rightarrow> 'd site \<Rightarrow> 'd site" where
  "Touch L sv w token tid = TouchSession tid (HashToken (alCrypto L) token) (pg_Time (auth_now sv w)) (pg_Time (auth_now sv w + asTtl sv))"

definition Logout :: "auth_lib \<Rightarrow> string \<Rightarrow> uuid \<Rightarrow> 'd site \<Rightarrow> 'd site" where
  "Logout L token tid = DeleteSession tid (HashToken (alCrypto L) token)"

section \<open>Login\<close>

definition ip_key :: "string \<Rightarrow> string" where "ip_key ip = ''login:ip:'' @ ip"
definition email_key :: "string \<Rightarrow> string" where "email_key email = ''login:email:'' @ email"

fun login_limits :: "auth_service \<Rightarrow> (string \<times> int \<times> string) list \<Rightarrow> redis \<Rightarrow> (auth_error + unit) \<times> redis" where
  "login_limits sv [] rd = (Inr (), rd)"
| "login_limits sv ((key, now, suffix) # keys) rd = (case Allow (asLimiter sv) now suffix key loginLimit loginWindow rd of
     (Inl _, rd1) \<Rightarrow> login_limits sv keys rd1
   | (Inr res, rd1) \<Rightarrow> if Allowed res then login_limits sv keys rd1 else (Inl ErrTooManyAttempts, rd1))"

definition checkLoginLimit :: "auth_service \<Rightarrow> login_env \<Rightarrow> string \<Rightarrow> string \<Rightarrow> redis \<Rightarrow> (auth_error + unit) \<times> redis" where
  "checkLoginLimit sv env ip email = login_limits sv [(ip_key ip, leIpMark env), (email_key email, leEmailMark env)]"

definition Login :: "auth_lib \<Rightarrow> auth_service \<Rightarrow> instant \<Rightarrow> login_env \<Rightarrow> string \<Rightarrow> string \<Rightarrow> string \<Rightarrow> string \<Rightarrow> 'd site \<times> redis \<Rightarrow>
    (auth_error + login_result) \<times> 'd site \<times> redis" where
  "Login L sv w env email0 password ip ua sr = (case sr of (s, rd) \<Rightarrow>
     let email = tlToLower (alText L) (TrimSpace email0) in
     case checkLoginLimit sv env ip email rd of (Inl e, rd1) \<Rightarrow> (Inl e, s, rd1)
     | (Inr _, rd1) \<Rightarrow>
     if \<not> valid_text email then (Inl (AuthDb BadEncoding), s, rd1) else
     (case GetUserByEmail (alText L) email s of None \<Rightarrow> (Inl ErrInvalidCredentials, s, rd1)
     | Some u \<Rightarrow> (case VerifyPassword (alCrypto L) password (us_password_hash u) of
         Inl e \<Rightarrow> (Inl (AuthPassword e), s, rd1)
       | Inr False \<Rightarrow> (Inl ErrInvalidCredentials, s, rd1)
       | Inr True \<Rightarrow> (case startSession L sv w env (us_id u) (us_tenant u) ua s of
           (Inl e, s1) \<Rightarrow> (Inl e, s1, rd1)
         | (Inr r, s1) \<Rightarrow>
             let rd2 = snd (limit_Reset (asLimiter sv) (ip_key ip) rd1); rd3 = snd (limit_Reset (asLimiter sv) (email_key email) rd2)
             in (Inr r, audit L w (us_tenant u) (Some (us_id u)) ''login'' ''user'' (Some (us_id u)) ip s1, rd3)))))"


section \<open>Lemmas\<close>

lemma CreateSession_Inr:
  "CreateSession now tid row s = Inr (x, s') \<longleftrightarrow> (let r = row\<lparr>se_last_seen_at := pg_Time now, se_created_at := pg_Time now\<rparr> in
     valid_text (se_user_agent row) \<and> se_tenant row = tid \<and> (\<forall>x \<in> set (siSessions s). se_token_hash x \<noteq> se_token_hash row)
     \<and> user_exists s (se_user row) \<and> tenant_exists s tid \<and> s' = s\<lparr>siSessions := siSessions s @ [r]\<rparr>)"
  by (auto simp: CreateSession_def Let_def bindE_def guardE_def list_ex_iff split: sum.splits if_splits)

lemma NewToken_Some: "NewToken C raw = Some (t, h) \<Longrightarrow> h = HashToken C t"
  by (auto simp: NewToken_def)

text \<open>A session of the site: the rows that a token resolves to.\<close>

definition session_of :: "auth_lib \<Rightarrow> auth_service \<Rightarrow> instant \<Rightarrow> string \<Rightarrow> 'd site \<Rightarrow> session_row \<Rightarrow> user_row \<Rightarrow> tenant_row \<Rightarrow> bool" where
  "session_of L sv w token s r u t \<longleftrightarrow> r \<in> set (siSessions s) \<and> u \<in> set (users (siDb s)) \<and> t \<in> set (siTenants s)
     \<and> us_id u = se_user r \<and> tn_id t = us_tenant u \<and> se_token_hash r = HashToken (alCrypto L) token \<and> token \<noteq> []
     \<and> pg_Time (auth_now sv w) < se_expires_at r
     \<and> (tn_is_sandbox t \<longrightarrow> (\<forall>e. tn_expires_at t = Some e \<longrightarrow> auth_now sv w < e))"

lemma Resolve_Inr:
  assumes "site_keys s"
  shows "Resolve L sv w token s = Inr p \<longleftrightarrow> (\<exists>r u t. session_of L sv w token s r u t \<and> p = principal_of L r u t)"
proof (cases "GetSession (HashToken (alCrypto L) token) (pg_Time (auth_now sv w)) s")
  case None
  then have "session_rows (HashToken (alCrypto L) token) (pg_Time (auth_now sv w)) s = []" by (simp add: GetSession_None)
  then have "\<not> session_of L sv w token s r u t" for r u t
    unfolding session_of_def using session_rows_iff[of r u t "HashToken (alCrypto L) token" "pg_Time (auth_now sv w)" s] by auto
  with None show ?thesis by (simp add: Resolve_def)
next
  case (Some x)
  obtain r u t where x: "x = (r, u, t)" by (cases x) auto
  have g: "GetSession (HashToken (alCrypto L) token) (pg_Time (auth_now sv w)) s = Some (r', u', t') \<longleftrightarrow> r' = r \<and> u' = u \<and> t' = t" for r' u' t'
    using Some x by auto
  have "session_of L sv w token s r' u' t' \<longleftrightarrow> r' = r \<and> u' = u \<and> t' = t \<and> token \<noteq> []
      \<and> (tn_is_sandbox t \<longrightarrow> (\<forall>e. tn_expires_at t = Some e \<longrightarrow> auth_now sv w < e))" for r' u' t'
    using g[of r' u' t'] unfolding GetSession_iff[OF assms] session_of_def by auto
  then show ?thesis using Some x by (auto simp: Resolve_def split: option.splits)
qed

lemma Resolve_not_found:
  assumes "site_keys s" and "\<And>r u t. \<not> session_of L sv w token s r u t"
  shows "Resolve L sv w token s = Inl ErrSessionNotFound"
proof -
  have "\<not> (\<exists>p. Resolve L sv w token s = Inr p)" using assms by (simp add: Resolve_Inr)
  then show ?thesis by (auto simp: Resolve_def split: option.splits if_splits)
qed

lemma login_limits_refused: "fst (login_limits sv keys rd) \<in> {Inr (), Inl ErrTooManyAttempts}"
  by (induction sv keys rd rule: login_limits.induct) (auto split: prod.splits sum.splits)


lemma startSession_Inr:
  assumes st: "startSession L sv w env uid tid ua s = (Inr res, s')" and k: "site_keys s"
  shows "\<exists>row u t. row = new_session sv w uid tid (HashToken (alCrypto L) (lrSessionToken res)) (HashToken (alCrypto L) (lrCSRFToken res)) ua
    \<and> s' = s\<lparr>siSessions := siSessions s @ [row]\<rparr> \<and> site_keys s' \<and> session_of L sv w (lrSessionToken res) s' row u t
    \<and> lrPrincipal res = principal_of L row u t \<and> us_id u = uid \<and> lrExpiresAt res = auth_now sv w + asTtl sv
    \<and> tenant_exists s tid"
proof -
  obtain token th where t: "NewToken (alCrypto L) (leToken env) = Some (token, th)"
    using st by (auto simp: startSession_def split: option.splits)
  obtain csrf ch where c: "NewToken (alCrypto L) (leCsrf env) = Some (csrf, ch)"
    using st t by (auto simp: startSession_def split: option.splits)
  let ?row = "new_session sv w uid tid th ch ua"
  obtain x s1 where cs: "CreateSession w tid ?row s = Inr (x, s1)"
    using st t c by (cases "CreateSession w tid ?row s") (auto simp: startSession_def InTenantTx_def tx_lift_def split: sum.splits)
  have s1: "s1 = s\<lparr>siSessions := siSessions s @ [?row]\<rparr>" and fresh: "\<forall>x \<in> set (siSessions s). se_token_hash x \<noteq> th"
    and te: "tenant_exists s tid"
    using cs by (auto simp: CreateSession_Inr Let_def new_session_def)
  have k1: "site_keys s1" using k fresh by (auto simp: site_keys_def s1 new_session_def)
  obtain p where p: "Resolve L sv w token s1 = Inr p" "s' = s1"
    "res = \<lparr>lrPrincipal = p, lrSessionToken = token, lrCSRFToken = csrf, lrExpiresAt = auth_now sv w + asTtl sv\<rparr>"
    using st t c cs by (auto simp: startSession_def InTenantTx_def tx_lift_def split: sum.splits)
  obtain r u tn where r: "session_of L sv w token s1 r u tn" "p = principal_of L r u tn"
    using p(1) Resolve_Inr[OF k1] by blast
  have h: "th = HashToken (alCrypto L) token" "ch = HashToken (alCrypto L) csrf" using NewToken_Some t c by blast+
  have "r = ?row" using r(1) fresh by (auto simp: session_of_def s1 h)
  then show ?thesis using r p k1 s1 h te by (auto simp: session_of_def new_session_def)
qed

lemma InsertAuditLog_Inr:
  "InsertAuditLog w tid row s = Inr (x, s') \<Longrightarrow> \<exists>r. s' = s\<lparr>siAudit := siAudit s @ [r]\<rparr>"
  by (auto simp: InsertAuditLog_def Let_def bindE_def guardE_def split: sum.splits if_splits)

lemma audit_frame: "\<exists>n rows. audit_with L w tid uid action entity eid ip diff s = s\<lparr>siDb := (siDb s)\<lparr>uuid_supply := n\<rparr>, siAudit := siAudit s @ rows\<rparr>"
proof (cases "audit_with L w tid uid action entity eid ip diff s = s")
  case True
  then have "audit_with L w tid uid action entity eid ip diff s
      = s\<lparr>siDb := (siDb s)\<lparr>uuid_supply := uuid_supply (siDb s)\<rparr>, siAudit := siAudit s @ []\<rparr>" by simp
  then show ?thesis by blast
next
  case False
  let ?s = "s\<lparr>siDb := (siDb s)\<lparr>uuid_supply := Suc (uuid_supply (siDb s))\<rparr>\<rparr>"
  obtain row x s' where i: "InsertAuditLog w tid row ?s = Inr (x, s')" and a: "audit_with L w tid uid action entity eid ip diff s = s'"
    using False by (auto simp: audit_with_def InTenantTx_def tx_bind_def in_db_def new_uuid_def split: sum.splits)
  from InsertAuditLog_Inr[OF i] obtain r where "s' = ?s\<lparr>siAudit := siAudit ?s @ [r]\<rparr>" by blast
  then have "s' = s\<lparr>siDb := (siDb s)\<lparr>uuid_supply := Suc (uuid_supply (siDb s))\<rparr>, siAudit := siAudit s @ [r]\<rparr>" by simp
  with a show ?thesis by blast
qed

lemma audit_row:
  assumes "tenant_exists s tid" and "valid_text action" and "valid_text entity"
  shows "audit L w tid uid action entity eid ip s = (let i = uuid_supply (siDb s) in
     if i \<in> au_id ` set (siAudit s) then s else s\<lparr>siDb := (siDb s)\<lparr>uuid_supply := Suc i\<rparr>, siAudit := siAudit s @ [
       \<lparr>au_id = i, au_tenant = tid, au_user = uid, au_action = action, au_entity = entity,
        au_entity_id = eid, au_diff = ''{}'', au_ip = parseIP L ip, au_at = pg_Time w\<rparr>]\<rparr>)"
proof -
  have "valid_text ''{}''" by code_simp
  moreover have "list_ex (\<lambda>x. au_id x = i) (siAudit s) \<longleftrightarrow> i \<in> au_id ` set (siAudit s)" for i
    by (auto simp: list_ex_iff)
  ultimately show ?thesis using assms
    by (simp add: audit_def audit_with_def InTenantTx_def tx_bind_def in_db_def new_uuid_def InsertAuditLog_def Let_def
        bindE_def guardE_def tenant_exists_def)
qed

lemma Resolve_same_rows:
  assumes "session_rows (HashToken (alCrypto L) tok) (pg_Time (auth_now sv w)) s' = session_rows (HashToken (alCrypto L) tok) (pg_Time (auth_now sv w)) s"
  shows "Resolve L sv w tok s' = Resolve L sv w tok s"
  using assms by (simp add: Resolve_def GetSession_def)

text \<open>When a token with the row \<open>r\<close> lets in.\<close>

definition alive :: "auth_service \<Rightarrow> instant \<Rightarrow> instant \<Rightarrow> tenant_row \<Rightarrow> bool" where
  "alive sv w expires t \<longleftrightarrow> pg_Time (auth_now sv w) < expires
     \<and> (tn_is_sandbox t \<longrightarrow> (\<forall>e. tn_expires_at t = Some e \<longrightarrow> auth_now sv w < e))"

lemma Resolve_row:
  assumes k: "site_keys s" and r: "r \<in> set (siSessions s)" "u \<in> set (users (siDb s))" "t \<in> set (siTenants s)"
    "us_id u = se_user r" "tn_id t = us_tenant u" "se_token_hash r = HashToken (alCrypto L) token" "token \<noteq> []"
  shows "Resolve L sv w token s = (if alive sv w (se_expires_at r) t then Inr (principal_of L r u t) else Inl ErrSessionNotFound)"
proof (cases "alive sv w (se_expires_at r) t")
  case True
  then have "session_of L sv w token s r u t" using r by (simp add: session_of_def alive_def)
  then have "Resolve L sv w token s = Inr (principal_of L r u t)" using Resolve_Inr[OF k] by blast
  then show ?thesis using True by simp
next
  case False
  have "\<not> session_of L sv w token s r' u' t'" for r' u' t'
  proof
    assume so: "session_of L sv w token s r' u' t'"
    then have "r' = r" using r k unfolding session_of_def site_keys_def by (metis row_by_key)
    moreover from this so r k have "u' = u" unfolding session_of_def site_keys_def by (metis row_by_key)
    moreover from this so r k have "t' = t" unfolding session_of_def site_keys_def by (metis row_by_key)
    ultimately show False using so False by (simp add: session_of_def alive_def)
  qed
  then show ?thesis using False Resolve_not_found[OF k] by simp
qed

lemma session_rows_touched:
  assumes "h' \<noteq> h"
  shows "session_rows h now (TouchSession tid h' seen expires s) = session_rows h now s"
proof -
  have "concat (map (\<lambda>r. [(r, u, t). u \<leftarrow> users (siDb s), t \<leftarrow> siTenants s,
       us_id u = se_user r \<and> tn_id t = us_tenant u \<and> se_token_hash r = h \<and> now < se_expires_at r])
       (update_rows (\<lambda>r. se_tenant r = tid \<and> se_token_hash r = h') (\<lambda>r. r\<lparr>se_last_seen_at := seen, se_expires_at := expires\<rparr>) rs))
     = concat (map (\<lambda>r. [(r, u, t). u \<leftarrow> users (siDb s), t \<leftarrow> siTenants s,
       us_id u = se_user r \<and> tn_id t = us_tenant u \<and> se_token_hash r = h \<and> now < se_expires_at r]) rs)" for rs
    using assms by (induction rs) (auto simp: concat_eq_Nil_conv update_rows_def)
  then show ?thesis by (simp add: session_rows_def TouchSession_def)
qed

lemma session_rows_other:
  "\<forall>r \<in> set rs. se_token_hash r \<noteq> h \<Longrightarrow> session_rows h now (s\<lparr>siSessions := siSessions s @ rs\<rparr>) = session_rows h now s"
  "h' \<noteq> h \<Longrightarrow> session_rows h now (DeleteSession tid h' s) = session_rows h now s"
proof -
  assume "\<forall>r \<in> set rs. se_token_hash r \<noteq> h"
  then have "concat (map (\<lambda>r. [(r, u, t). u \<leftarrow> users (siDb s), t \<leftarrow> siTenants s,
     us_id u = se_user r \<and> tn_id t = us_tenant u \<and> se_token_hash r = h \<and> now < se_expires_at r]) rs) = []"
    by (auto simp: concat_eq_Nil_conv)
  then show "session_rows h now (s\<lparr>siSessions := siSessions s @ rs\<rparr>) = session_rows h now s"
    by (simp add: session_rows_def)
next
  assume "h' \<noteq> h"
  then have "concat (map (\<lambda>r. [(r, u, t). u \<leftarrow> users (siDb s), t \<leftarrow> siTenants s,
       us_id u = se_user r \<and> tn_id t = us_tenant u \<and> se_token_hash r = h \<and> now < se_expires_at r])
       (filter (\<lambda>r. \<not> (se_tenant r = tid \<and> se_token_hash r = h')) rs))
     = concat (map (\<lambda>r. [(r, u, t). u \<leftarrow> users (siDb s), t \<leftarrow> siTenants s,
       us_id u = se_user r \<and> tn_id t = us_tenant u \<and> se_token_hash r = h \<and> now < se_expires_at r]) rs)" for rs
    by (induction rs) (auto simp: concat_eq_Nil_conv)
  then show "session_rows h now (DeleteSession tid h' s) = session_rows h now s"
    by (simp add: session_rows_def DeleteSession_def)
qed

section \<open>Properties\<close>

text \<open>The marks under a key of Redis, other than one of this call, that are not older than a minute at its time.\<close>

definition recent_tries :: "string \<Rightarrow> int \<times> string \<Rightarrow> redis \<Rightarrow> nat" where
  "recent_tries key call rd = length (filter (\<lambda>m. mkMember m \<noteq> call
     \<and> \<not> (fle (Fin 0) (mkScore m) \<and> fle (mkScore m) (f64_of_int (fst call - 60 * 1000000000)))) (rdKeys rd key))"

lemma Allow_recent:
  assumes "Allow OnRedis (fst call) (snd call) key loginLimit loginWindow rd = (Inr r, rd1)"
  shows "Allowed r \<longleftrightarrow> recent_tries (''rl:'' @ key) call rd < 5"
    and "\<exists>ms. rd1 = rd\<lparr>rdKeys := (rdKeys rd)(''rl:'' @ key := ms)\<rparr>" and "rdUp rd"
proof -
  have up: "rdUp rd" using assms by (auto simp: Allow_def split: if_splits)
  then show "rdUp rd" .
  have n: "length (ZAdd \<lparr>mkScore = f64_of_int (fst call), mkMember = call\<rparr>
      (ZRemRangeByScore (Fin 0) (f64_of_int (fst call - loginWindow)) (rdKeys rd (redis_key key))))
     = Suc (recent_tries (''rl:'' @ key) call rd)"
    by (simp add: ZAdd_def ZRemRangeByScore_def recent_tries_def redis_key_def loginWindow_def second_def conj_commute)
  show "Allowed r \<longleftrightarrow> recent_tries (''rl:'' @ key) call rd < 5"
    using assms up n by (auto simp: Allow_def Let_def loginLimit_def split: if_splits)
  show "\<exists>ms. rd1 = rd\<lparr>rdKeys := (rdKeys rd)(''rl:'' @ key := ms)\<rparr>"
    using assms up by (auto simp: Allow_def Let_def redis_key_def)
qed

lemma recent_tries_other: "key' \<noteq> key \<Longrightarrow> recent_tries key call (rd\<lparr>rdKeys := (rdKeys rd)(key' := ms)\<rparr>) = recent_tries key call rd"
  by (simp add: recent_tries_def)

text \<open>With Redis at hand both keys are asked and both limits hold; without it, nothing is asked.\<close>

lemma login_limits_passed:
  assumes "checkLoginLimit sv env ip email rd = (Inr (), rd1)"
  shows "if asLimiter sv = OnRedis \<and> rdUp rd
     then recent_tries (''rl:login:ip:'' @ ip) (leIpMark env) rd < 5 \<and> recent_tries (''rl:login:email:'' @ email) (leEmailMark env) rd < 5
        \<and> (\<exists>xs ys. rd1 = rd\<lparr>rdKeys := (rdKeys rd)(''rl:login:ip:'' @ ip := xs, ''rl:login:email:'' @ email := ys)\<rparr>)
     else rd1 = rd"
proof (cases "asLimiter sv = OnRedis \<and> rdUp rd")
  case True
  obtain r1 rd2 where a: "Allow OnRedis (fst (leIpMark env)) (snd (leIpMark env)) (ip_key ip) loginLimit loginWindow rd = (Inr r1, rd2)"
    using True by (cases "Allow OnRedis (fst (leIpMark env)) (snd (leIpMark env)) (ip_key ip) loginLimit loginWindow rd")
      (auto simp: Allow_def Let_def)
  note A = Allow_recent[OF a]
  obtain xs where rd2: "rd2 = rd\<lparr>rdKeys := (rdKeys rd)(''rl:'' @ ip_key ip := xs)\<rparr>" using A(2) by blast
  then have "rdUp rd2" using True by simp
  then obtain r3 rd3 where b: "Allow OnRedis (fst (leEmailMark env)) (snd (leEmailMark env)) (email_key email) loginLimit loginWindow rd2 = (Inr r3, rd3)"
    by (cases "Allow OnRedis (fst (leEmailMark env)) (snd (leEmailMark env)) (email_key email) loginLimit loginWindow rd2")
      (auto simp: Allow_def Let_def)
  note B = Allow_recent[OF b]
  obtain ys where rd3: "rd3 = rd2\<lparr>rdKeys := (rdKeys rd2)(''rl:'' @ email_key email := ys)\<rparr>" using B(2) by blast
  have ok: "Allowed r1" "Allowed r3" "rd1 = rd3"
    using assms True a b
    by (cases "leIpMark env"; cases "leEmailMark env"; simp add: checkLoginLimit_def split: if_splits)+
  have "''rl:'' @ ip_key ip \<noteq> ''rl:'' @ email_key email" by (simp add: ip_key_def email_key_def)
  then have "recent_tries (''rl:'' @ email_key email) (leEmailMark env) rd2 = recent_tries (''rl:'' @ email_key email) (leEmailMark env) rd"
    by (simp add: rd2 recent_tries_other)
  with True ok A(1) B(1) rd2 rd3 show ?thesis by (auto simp: ip_key_def email_key_def)
next
  case False
  then have "Allow (asLimiter sv) n x k loginLimit loginWindow rd
      = (if asLimiter sv = NoLimit then Inr \<lparr>Allowed = True, Remaining = loginLimit, RetryAfter = 0\<rparr> else Inl RedisFailed, rd)" for n x k
    by (cases "asLimiter sv") (auto simp: Allow_def)
  then have "rd1 = rd" using assms
    by (cases "leIpMark env"; cases "leEmailMark env"; simp add: checkLoginLimit_def split: if_splits)
  with False show ?thesis by (simp only: if_False)
qed

lemma limits_reset:
  "if asLimiter sv = OnRedis \<and> rdUp rd
   then snd (limit_Reset (asLimiter sv) (email_key email) (snd (limit_Reset (asLimiter sv) (ip_key ip) rd)))
     = rd\<lparr>rdKeys := (rdKeys rd)(''rl:login:ip:'' @ ip := [], ''rl:login:email:'' @ email := [])\<rparr>
   else snd (limit_Reset (asLimiter sv) (email_key email) (snd (limit_Reset (asLimiter sv) (ip_key ip) rd))) = rd"
  by (cases "asLimiter sv") (auto simp: limit_Reset_def redis_key_def ip_key_def email_key_def)


text \<open>A refused login does not tell whether the e-mail is registered: with an unknown e-mail and with a wrong password
  the answer is the same, the limits move in the same way and nothing is written.\<close>
theorem Login_hides_accounts:
  assumes "GetUserByEmail (alText L) (tlToLower (alText L) (TrimSpace email)) s = None"
    and "GetUserByEmail (alText L) (tlToLower (alText L) (TrimSpace email)) s2 = Some u"
    and "VerifyPassword (alCrypto L) password (us_password_hash u) = Inr False"
  shows "\<exists>e rd'. Login L sv w env email password ip ua (s, rd) = (Inl e, s, rd')
    \<and> Login L sv w env email password ip ua (s2, rd) = (Inl e, s2, rd')"
  using assms by (auto simp: Login_def Let_def split: prod.splits sum.splits)


text \<open>(C37) The life of a session: its token lets the same principal in until the session ends, or the sandbox of its tenant
  does, and then no more; \<open>Touch\<close> sets the end anew, after \<open>Logout\<close> it never lets in again. What any other token resolves to, at any time, is the same before the session
  is started, while it lives, after \<open>Touch\<close> and after \<open>Logout\<close>.\<close>
theorem session_life:
  assumes "startSession L sv w env uid tid ua s = (Inr res, s')" and "site_keys s"
  shows "\<exists>t \<in> set (siTenants s). tn_id t = tenantID (prTenant (lrPrincipal res))
    \<and> (\<forall>w1. Resolve L sv w1 (lrSessionToken res) s'
        = (if alive sv w1 (pg_Time (lrExpiresAt res)) t then Inr (lrPrincipal res) else Inl ErrSessionNotFound))
    \<and> (\<forall>w1 w2. Resolve L sv w2 (lrSessionToken res) (Touch L sv w1 (lrSessionToken res) tid s')
        = (if alive sv w2 (pg_Time (auth_now sv w1 + asTtl sv)) t then Inr (lrPrincipal res) else Inl ErrSessionNotFound))
    \<and> (\<forall>w1. Resolve L sv w1 (lrSessionToken res) (Logout L (lrSessionToken res) tid s') = Inl ErrSessionNotFound)
    \<and> (\<forall>w1 tok. HashToken (alCrypto L) tok \<noteq> HashToken (alCrypto L) (lrSessionToken res)
        \<longrightarrow> Resolve L sv w1 tok s' = Resolve L sv w1 tok s \<and> Resolve L sv w1 tok (Logout L (lrSessionToken res) tid s') = Resolve L sv w1 tok s
          \<and> (\<forall>w2. Resolve L sv w1 tok (Touch L sv w2 (lrSessionToken res) tid s') = Resolve L sv w1 tok s))"
proof -
  let ?tok = "lrSessionToken res"
  obtain row u t where row: "row = new_session sv w uid tid (HashToken (alCrypto L) ?tok) (HashToken (alCrypto L) (lrCSRFToken res)) ua"
    and s': "s' = s\<lparr>siSessions := siSessions s @ [row]\<rparr>" and k': "site_keys s'" and so: "session_of L sv w ?tok s' row u t"
    and p: "lrPrincipal res = principal_of L row u t" and ex: "lrExpiresAt res = auth_now sv w + asTtl sv"
    using startSession_Inr[OF assms] by blast
  have e: "se_expires_at row = pg_Time (lrExpiresAt res)" "se_tenant row = tid" "se_token_hash row = HashToken (alCrypto L) ?tok"
    using ex by (simp_all add: row new_session_def)
  have live: "Resolve L sv w1 ?tok s' = (if alive sv w1 (pg_Time (lrExpiresAt res)) t then Inr (lrPrincipal res) else Inl ErrSessionNotFound)" for w1
    unfolding p e(1)[symmetric] by (rule Resolve_row[OF k']) (use so in \<open>simp_all add: session_of_def\<close>)
  have other: "\<forall>r \<in> set (siSessions s). se_token_hash r \<noteq> HashToken (alCrypto L) ?tok"
    using k' e(3) by (simp add: site_keys_def s') (metis imageI)
  have touched: "Resolve L sv w2 ?tok (Touch L sv w1 ?tok tid s')
      = (if alive sv w2 (pg_Time (auth_now sv w1 + asTtl sv)) t then Inr (lrPrincipal res) else Inl ErrSessionNotFound)" for w1 w2
  proof -
    let ?t = "Touch L sv w1 ?tok tid s'"
    let ?row = "row\<lparr>se_last_seen_at := pg_Time (auth_now sv w1), se_expires_at := pg_Time (auth_now sv w1 + asTtl sv)\<rparr>"
    have same: "map se_token_hash (siSessions ?t) = map se_token_hash (siSessions s')"
      by (simp add: Touch_def TouchSession_def update_rows_def)
    then have "site_keys ?t" using k' by (simp add: site_keys_def Touch_def TouchSession_def)
    moreover have "?row \<in> set (siSessions ?t)" using e by (auto simp: Touch_def TouchSession_def update_rows_def s' image_iff)
    ultimately have "Resolve L sv w2 ?tok ?t = (if alive sv w2 (se_expires_at ?row) t then Inr (principal_of L ?row u t) else Inl ErrSessionNotFound)"
      by (intro Resolve_row) (use so in \<open>simp_all add: session_of_def Touch_def TouchSession_def\<close>)
    then show ?thesis by (simp add: p principal_of_def)
  qed
  have out: "Resolve L sv w1 ?tok (Logout L ?tok tid s') = Inl ErrSessionNotFound" for w1
  proof -
    let ?o = "Logout L ?tok tid s'"
    have ss: "siSessions ?o = siSessions s" using other e by (auto simp: Logout_def DeleteSession_def s' filter_id_conv)
    then have "site_keys ?o" using assms(2) by (simp add: site_keys_def Logout_def DeleteSession_def s')
    moreover have "\<not> session_of L sv w1 ?tok ?o r u' t'" for r u' t' using other by (auto simp: session_of_def ss)
    ultimately show ?thesis by (rule Resolve_not_found)
  qed
  have unaffected: "Resolve L sv w1 tok s' = Resolve L sv w1 tok s" "Resolve L sv w1 tok (Logout L ?tok tid s') = Resolve L sv w1 tok s"
      "Resolve L sv w1 tok (Touch L sv w2 ?tok tid s') = Resolve L sv w1 tok s"
    if "HashToken (alCrypto L) tok \<noteq> HashToken (alCrypto L) ?tok" for w1 w2 tok
  proof -
    show 1: "Resolve L sv w1 tok s' = Resolve L sv w1 tok s"
      by (rule Resolve_same_rows) (use that e(3) in \<open>auto simp: s' intro!: session_rows_other(1)\<close>)
    have "Resolve L sv w1 tok (Logout L ?tok tid s') = Resolve L sv w1 tok s'"
      by (rule Resolve_same_rows) (use that in \<open>auto simp: Logout_def intro!: session_rows_other(2)\<close>)
    with 1 show "Resolve L sv w1 tok (Logout L ?tok tid s') = Resolve L sv w1 tok s" by simp
    have "Resolve L sv w1 tok (Touch L sv w2 ?tok tid s') = Resolve L sv w1 tok s'"
      by (rule Resolve_same_rows) (use that in \<open>auto simp: Touch_def intro!: session_rows_touched\<close>)
    with 1 show "Resolve L sv w1 tok (Touch L sv w2 ?tok tid s') = Resolve L sv w1 tok s" by simp
  qed
  show ?thesis
    using live touched out unaffected so p
    by (intro bexI[of _ t]) (auto simp: session_of_def principal_of_def tenant_of_def s')
qed


text \<open>A user agent that is cut inside a letter is no text for the database, and the login fails with its error.\<close>

lemma cut_agent_refused:
  assumes "\<not> valid_text (auth_truncate ua 256)"
  shows "\<exists>e. startSession L sv w env uid tid ua s = (Inl e, s)"
  using assms by (auto simp: startSession_def InTenantTx_def tx_lift_def CreateSession_def Let_def new_session_def bindE_def guardE_def
      split: option.splits)

lemma cut_agent_exists: "valid_text (CHR ''x'' # cyrillic_letters 128) \<and> \<not> valid_text (auth_truncate (CHR ''x'' # cyrillic_letters 128) 256)"
proof
  show "valid_text (CHR ''x'' # cyrillic_letters 128)"
    using letters_valid[of 128 "[]"] by (simp add: valid_text_def)
  have "cyrillic_letters 128 = cyrillic_letters 127 @ map char_of [208 :: nat, 175]"
    using letters_Suc[of 127] by simp
  then have "auth_truncate (CHR ''x'' # cyrillic_letters 128) 256 = CHR ''x'' # cyrillic_letters 127 @ [char_of (208 :: nat)]"
    using letters_length[of 127] by (simp add: auth_truncate_def)
  then show "\<not> valid_text (auth_truncate (CHR ''x'' # cyrillic_letters 128) 256)"
    using letters_valid[of 127 "[208]"] by (simp add: valid_text_def)
qed

section \<open>A sample site\<close>

definition sample_auth_lib :: auth_lib where
  "sample_auth_lib = \<lparr>alCrypto = sample_crypto, alText = sample_text, alZones = (\<lambda>_. None), alUnmarshal = (\<lambda>_ _. None),
     alParseAddr = (\<lambda>_. None), alParseAddrPort = (\<lambda>_. None)\<rparr>"

definition sample_auth :: auth_service where
  "sample_auth = \<lparr>asClock = System, asLimiter = OnRedis, asTtl = 720 * hour\<rparr>"

definition sample_env :: login_env where
  "sample_env = \<lparr>leToken = Some ''t'', leCsrf = Some ''c'', leIpMark = (5, ''x''), leEmailMark = (6, ''y'')\<rparr>"

definition sample_hash :: string where
  "sample_hash = phc_text argonVersion argonMemory argonTime argonThreads ''salt'' (take 32 (''correct horse'' @ replicate 32 (CHR 0x00)))"

definition sample_user :: user_row where
  "sample_user = \<lparr>us_id = 10, us_tenant = 1, us_email = ''a@b'', us_password_hash = sample_hash, us_name = ''Anna'',
     us_role = RoleOwner, us_telegram = None, us_created_at = 0\<rparr>"

definition sample_tenant_row :: tenant_row where
  "sample_tenant_row = \<lparr>tn_id = 1, tn_name = ''shop'', tn_timezone = [], tn_is_sandbox = False, tn_expires_at = None,
     tn_clock_offset = no_interval, tn_seed = 0, tn_autopilot = False, tn_settings = ''{}'', tn_created_at = 0\<rparr>"

definition blank_db :: "'d db" where
  "blank_db = \<lparr>categories = [], items = [], warehouses = [], users = [], suppliers = [], supplier_items = [], movements = [],
     balances = [], counts = [], count_lines = [], purchase_orders = [], order_lines = [], daily = [], forecasts = [],
     forecast_metrics = [], item_status = [], notifications = [], outbox = [], uuid_supply = 100\<rparr>"

definition sample_site :: "'d db \<Rightarrow> 'd site" where
  "sample_site st = \<lparr>siDb = st\<lparr>users := [sample_user]\<rparr>, siTenants = [sample_tenant_row], siSessions = [], siAudit = [], siCodes = []\<rparr>"

lemma sample_site_keys: "site_keys (sample_site st)"
  by (simp add: site_keys_def sample_site_def)

lemma sample_verify: "VerifyPassword sample_crypto pw sample_hash = Inr (take 32 (''correct horse'' @ replicate 32 (CHR 0x00)) = take 32 (pw @ replicate 32 (CHR 0x00)))"
proof -
  have "crIDKey sample_crypto pw ''salt'' argonTime argonMemory argonThreads (length (take 32 (''correct horse'' @ replicate 32 (CHR 0x00))))
      = Some (take 32 (pw @ replicate 32 (CHR 0x00)))"
    by (simp add: sample_crypto_def argonTime_def argonThreads_def del: append.simps)
  from VerifyPassword_phc[OF this] show ?thesis by (simp only: sample_hash_def)
qed

lemma sample_login_text:
  "valid_text ''a@b''" "valid_text ''x@y''" "valid_text ''ua''" "EncodeToString ''t'' \<noteq> []"
  by code_simp+

lemma sample_trim: "TrimSpace ''a@b'' = ''a@b''" "TrimSpace ''x@y'' = ''x@y''"
  by (rule TrimSpace_plain; simp add: ascii_visible_def)+


definition sample_limits :: redis where
  "sample_limits = \<lparr>rdUp = True, rdKeys = (\<lambda>_. [])\<rparr>"

lemma sample_check: "\<exists>rd. checkLoginLimit sample_auth sample_env ''ip'' e sample_limits = (Inr (), rd)"
  by (simp add: checkLoginLimit_def Allow_def sample_auth_def sample_env_def sample_limits_def Let_def ZAdd_def
      ZRemRangeByScore_def loginLimit_def ip_key_def email_key_def redis_key_def)

lemma sample_start: "\<exists>res s'. startSession sample_auth_lib sample_auth 0 sample_env 10 1 ''ua'' (sample_site st) = (Inr res, s')"
proof -
  let ?row = "new_session sample_auth 0 10 1 (HashToken sample_crypto (EncodeToString ''t'')) (HashToken sample_crypto (EncodeToString ''c'')) ''ua''"
  let ?s = "(sample_site st)\<lparr>siSessions := [?row]\<rparr>"
  have c: "CreateSession 0 1 ?row (sample_site st) = Inr ((), ?s)"
    using sample_login_text by (auto simp: CreateSession_Inr Let_def new_session_def sample_site_def sample_user_def sample_tenant_row_def
        user_exists_def tenant_exists_def auth_truncate_def)
  have "site_keys ?s" by (simp add: site_keys_def sample_site_def)
  moreover have "session_of sample_auth_lib sample_auth 0 (EncodeToString ''t'') ?s ?row sample_user sample_tenant_row"
    using sample_login_text(4)
    by (simp add: session_of_def sample_site_def sample_user_def sample_tenant_row_def new_session_def sample_auth_lib_def
        auth_now_def sample_auth_def pg_Time_def hour_def second_def)
  ultimately have "\<exists>p. Resolve sample_auth_lib sample_auth 0 (EncodeToString ''t'') ?s = Inr p" by (metis Resolve_Inr)
  then show ?thesis
    using c by (auto simp: startSession_def NewToken_def sample_env_def sample_auth_lib_def InTenantTx_def tx_lift_def)
qed

lemma sample_logs_in: "\<exists>res s' rd'. Login sample_auth_lib sample_auth 0 sample_env ''a@b'' ''correct horse'' ''ip'' ''ua'' (sample_site st, sample_limits)
    = (Inr res, s', rd')"
proof -
  note t = sample_trim(1)
  have u: "GetUserByEmail sample_text ''a@b'' (sample_site st) = Some sample_user"
    by (simp add: GetUserByEmail_def sample_site_def sample_user_def sample_text_def)
  have ids: "us_id sample_user = 10" "us_tenant sample_user = 1" "us_password_hash sample_user = sample_hash"
    by (simp_all add: sample_user_def)
  obtain rd where "checkLoginLimit sample_auth sample_env ''ip'' ''a@b'' sample_limits = (Inr (), rd)" using sample_check by blast
  moreover obtain res s' where "startSession sample_auth_lib sample_auth 0 sample_env 10 1 ''ua'' (sample_site st) = (Inr res, s')"
    using sample_start by blast
  ultimately show ?thesis
    using sample_verify[of "''correct horse''"] sample_login_text(1) t u ids
    by (simp add: Login_def Let_def sample_auth_lib_def sample_text_def)
qed


theorem Login_hides_accounts_witness:
  "\<exists>e rd'. Login sample_auth_lib sample_auth 0 sample_env ''a@b'' ''battery staple'' ''ip'' ''ua'' ((sample_site (blank_db :: 'd db))\<lparr>siDb := blank_db\<rparr>, sample_limits)
      = (Inl e, (sample_site (blank_db :: 'd db))\<lparr>siDb := blank_db\<rparr>, rd')
    \<and> Login sample_auth_lib sample_auth 0 sample_env ''a@b'' ''battery staple'' ''ip'' ''ua'' (sample_site (blank_db :: 'd db), sample_limits) = (Inl e, sample_site (blank_db :: 'd db), rd')"
proof (rule Login_hides_accounts)
  show "GetUserByEmail (alText sample_auth_lib) (tlToLower (alText sample_auth_lib) (TrimSpace ''a@b'')) ((sample_site (blank_db :: 'd db))\<lparr>siDb := blank_db\<rparr>) = None"
    by (simp add: GetUserByEmail_def blank_db_def)
  show "GetUserByEmail (alText sample_auth_lib) (tlToLower (alText sample_auth_lib) (TrimSpace ''a@b'')) (sample_site (blank_db :: 'd db)) = Some sample_user"
    by (simp add: GetUserByEmail_def sample_trim sample_auth_lib_def sample_text_def sample_site_def sample_user_def)
  show "VerifyPassword (alCrypto sample_auth_lib) ''battery staple'' (us_password_hash sample_user) = Inr False"
    using sample_verify[of "''battery staple''"] by (simp add: sample_auth_lib_def sample_user_def)
qed

theorem session_life_witness:
  "\<exists>res s'. startSession sample_auth_lib sample_auth 0 sample_env 10 1 ''ua'' (sample_site (blank_db :: 'd db)) = (Inr res, s')
    \<and> Resolve sample_auth_lib sample_auth hour (lrSessionToken res) s' = Inr (lrPrincipal res)
    \<and> Resolve sample_auth_lib sample_auth hour (lrSessionToken res) (Logout sample_auth_lib (lrSessionToken res) 1 s') = Inl ErrSessionNotFound"
proof -
  obtain res s' where l: "startSession sample_auth_lib sample_auth 0 sample_env 10 1 ''ua'' (sample_site (blank_db :: 'd db)) = (Inr res, s')"
    using sample_start by blast
  have "alive sample_auth hour (pg_Time (lrExpiresAt res)) sample_tenant_row"
    using l by (auto simp: startSession_def alive_def auth_now_def sample_auth_def pg_Time_def hour_def second_def sample_tenant_row_def
        split: option.splits sum.splits prod.splits)
  moreover have "t = sample_tenant_row" if "t \<in> set (siTenants (sample_site (blank_db :: 'd db)))" for t
    using that by (simp add: sample_site_def)
  ultimately show ?thesis using l session_life[OF l sample_site_keys] by fastforce
qed

end
