(* ===== verification/Import.thy ===== *)
theory Import
  imports Csv
begin

text \<open>
  \<open>internal/catalog/import.go\<close>: a parsed file is either only looked at, or its items, the categories and
  suppliers they name and their opening balances are written in one transaction.
\<close>

record 'd import_result =
  imDryRun :: bool
  imItems :: nat
  imCategories :: nat
  imSuppliers :: nat
  imWithOpening :: nat
  imErrors :: "row_error list"
  imPreview :: "'d import_row list"

definition import_OK :: "'d import_result \<Rightarrow> bool" where
  "import_OK r \<longleftrightarrow> imErrors r = []"

section \<open>Names\<close>

text \<open>\<open>map[string]uuid.UUID\<close> by lower-case name, with the number of rows that were created.\<close>

type_synonym names = "(string \<rightharpoonup> uuid) \<times> nat"

definition category_names :: "text_lib \<Rightarrow> category_row list \<Rightarrow> string \<rightharpoonup> uuid" where
  "category_names T rows = map_of (rev (map (\<lambda>c. (tlToLower T (ca_name c), ca_id c)) rows))"

definition supplier_names :: "text_lib \<Rightarrow> supplier_row list \<Rightarrow> string \<rightharpoonup> uuid" where
  "supplier_names T rows = map_of (rev (map (\<lambda>s. (tlToLower T (su_name s), su_id s)) rows))"

fun add_categories :: "text_lib \<Rightarrow> instant \<Rightarrow> uuid \<Rightarrow> 'd import_row list \<Rightarrow> names \<Rightarrow> ('d, names) catalog_tx" where
  "add_categories T w tid [] ns = tx_return ns"
| "add_categories T w tid (row # rows) (m, k) = (let key = tlToLower T (irCategory row) in
     if irCategory row = [] \<or> m key \<noteq> None then add_categories T w tid rows (m, k) else
     tx_bind new_uuid (\<lambda>newid.
     tx_bind (catdb ''category'' (CreateCategory_q T w newid tid (irCategory row))) (\<lambda>c.
     add_categories T w tid rows (m(key \<mapsto> ca_id c), k + 1))))"

definition resolveCategories :: "text_lib \<Rightarrow> instant \<Rightarrow> uuid \<Rightarrow> 'd import_row list \<Rightarrow> ('d, names) catalog_tx" where
  "resolveCategories T w tid rows = tx_bind (tx_get (ListCategories tid)) (\<lambda>existing.
     add_categories T w tid rows (category_names T existing, 0))"

definition imported_supplier :: "uuid \<Rightarrow> uuid \<Rightarrow> string \<Rightarrow> supplier_row" where
  "imported_supplier tid sid name = \<lparr>su_id = sid, su_tenant = tid, su_name = name, su_contact = [], su_lead_time_days = 1,
     su_delivery_weekdays = [1, 2, 3, 4, 5, 6, 7], su_order_cutoff = pg_TimeOfDay defaultCutoff,
     su_archived_at = None, su_created_at = 0\<rparr>"

fun add_suppliers :: "text_lib \<Rightarrow> instant \<Rightarrow> uuid \<Rightarrow> 'd import_row list \<Rightarrow> names \<Rightarrow> ('d, names) catalog_tx" where
  "add_suppliers T w tid [] ns = tx_return ns"
| "add_suppliers T w tid (row # rows) (m, k) = (let key = tlToLower T (irSupplier row) in
     if irSupplier row = [] \<or> m key \<noteq> None then add_suppliers T w tid rows (m, k) else
     tx_bind new_uuid (\<lambda>newid.
     tx_bind (catdb ''supplier'' (CreateSupplier_q T w (imported_supplier tid newid (irSupplier row)))) (\<lambda>s.
     add_suppliers T w tid rows (m(key \<mapsto> su_id s), k + 1))))"

definition resolveSuppliers :: "text_lib \<Rightarrow> instant \<Rightarrow> uuid \<Rightarrow> 'd import_row list \<Rightarrow> ('d, names) catalog_tx" where
  "resolveSuppliers T w tid rows = tx_bind (tx_get (ListSuppliers_q tid True)) (\<lambda>existing.
     add_suppliers T w tid rows (supplier_names T existing, 0))"

definition named :: "text_lib \<Rightarrow> (string \<rightharpoonup> uuid) \<Rightarrow> string \<Rightarrow> uuid option" where
  "named T m name = (if name = [] then None else m (tlToLower T name))"

section \<open>Items\<close>

definition defaultFactor :: "'d decimal_lib \<Rightarrow> 'd qty \<Rightarrow> 'd qty" where
  "defaultFactor D v = (if \<not> qIsPositive D v then qFromInt D 1 else v)"

definition imported_item :: "'d decimal_lib \<Rightarrow> uuid \<Rightarrow> uuid \<Rightarrow> uuid option \<Rightarrow> uuid option \<Rightarrow> 'd import_row \<Rightarrow> item_row" where
  "imported_item D tid iid ct sp row = \<lparr>it_id = iid, it_tenant = tid, it_category = ct, it_name = irName row,
     it_base_unit = irBaseUnit row, it_default_supplier = sp,
     it_service_level = sint (word_of_int (irServiceLevel row) :: 16 word),
     it_manual_min_qty = DecimalOf D (irManualMin row), it_archived_at = None, it_created_at = 0\<rparr>"

definition imported_terms :: "'d decimal_lib \<Rightarrow> uuid \<Rightarrow> uuid \<Rightarrow> uuid \<Rightarrow> 'd import_row \<Rightarrow> supplier_item_row" where
  "imported_terms D tid sid iid row = \<lparr>si_tenant = tid, si_supplier = sid, si_item = iid,
     si_purchase_unit = irPurchaseUnit row, si_unit_factor = DecimalOf D (defaultFactor D (irUnitFactor row)),
     si_min_order_qty = DecimalOf D (irMinOrder row), si_pack_multiple = DecimalOf D (irPack row),
     si_price = map_option (DecimalOf D) (irPrice row)\<rparr>"

definition import_item_error :: "string \<Rightarrow> db_error \<Rightarrow> catalog_error" where
  "import_item_error name e = (case e of UniqueViolation _ \<Rightarrow> ErrItemExists name | _ \<Rightarrow> CatDB ''item'' e)"

definition importItem :: "'d decimal_lib \<Rightarrow> text_lib \<Rightarrow> instant \<Rightarrow> uuid \<Rightarrow> (string \<rightharpoonup> uuid) \<Rightarrow> (string \<rightharpoonup> uuid) \<Rightarrow> 'd import_row \<Rightarrow>
    ('d, uuid) catalog_tx" where
  "importItem D T w tid cats sups row = tx_bind new_uuid (\<lambda>newid.
     tx_bind (tx_lift (import_item_error (irName row)) (CreateItem_q T w
       (imported_item D tid newid (named T cats (irCategory row)) (named T sups (irSupplier row)) row))) (\<lambda>item.
     tx_bind (case named T sups (irSupplier row) of
         None \<Rightarrow> tx_return ()
       | Some sid \<Rightarrow> tx_bind (catdb ''terms'' (UpsertSupplierItem (imported_terms D tid sid (it_id item) row))) (\<lambda>_. tx_return ())) (\<lambda>_.
     tx_return (it_id item))))"

definition import_comment :: string where
  "import_comment = utf8 [1048, 1084, 1087, 1086, 1088, 1090, 32, 1080, 1079, 32, 67, 83, 86]"

definition opening_movement :: "'d decimal_lib \<Rightarrow> instant \<Rightarrow> uuid \<Rightarrow> uuid \<Rightarrow> uuid \<Rightarrow> uuid \<Rightarrow> uuid \<Rightarrow> 'd qty \<Rightarrow> movement_row" where
  "opening_movement D now tid wid iid mid by_id q = \<lparr>mv_id = mid, mv_tenant = tid, mv_warehouse = wid, mv_item = iid,
     mv_type = TypeOpening, mv_qty = DecimalOf D q, mv_occurred_at = now, mv_created_at = 0, mv_created_by = Some by_id,
     mv_reason = None, mv_comment = import_comment, mv_order = None, mv_count = None, mv_reverses = None,
     mv_idempotency_key = None\<rparr>"

definition import_opening :: "'d decimal_lib \<Rightarrow> clock \<Rightarrow> instant \<Rightarrow> tenant \<Rightarrow> uuid \<Rightarrow> uuid \<Rightarrow> uuid \<Rightarrow> 'd qty \<Rightarrow> ('d, unit) catalog_tx" where
  "import_opening D cl w t wid by_id iid q = (let tid = tenantID t in
     if \<not> qIsPositive D q then tx_return () else
     tx_bind new_uuid (\<lambda>newid.
     tx_bind (catdb ''opening'' (InsertMovement w (opening_movement D (tenant_Now t cl w) tid wid iid newid by_id q))) (\<lambda>_.
     tx_bind (catdb ''apply'' (ApplyMovementToBalance tid wid iid (DecimalOf D q) (clock_Now cl w))) (\<lambda>_.
     tx_return ()))))"

definition import_row :: "'d decimal_lib \<Rightarrow> text_lib \<Rightarrow> clock \<Rightarrow> instant \<Rightarrow> tenant \<Rightarrow> uuid \<Rightarrow> uuid \<Rightarrow> (string \<rightharpoonup> uuid) \<Rightarrow> (string \<rightharpoonup> uuid) \<Rightarrow>
    'd import_row \<Rightarrow> ('d, unit) catalog_tx" where
  "import_row D T cl w t wid by_id cats sups row = (let tid = tenantID t in
     tx_bind (importItem D T w tid cats sups row) (\<lambda>iid.
     tx_bind (catdb ''balance'' (EnsureBalance tid wid iid w)) (\<lambda>_.
     import_opening D cl w t wid by_id iid (irOpening row))))"

definition importTx :: "'d decimal_lib \<Rightarrow> text_lib \<Rightarrow> clock \<Rightarrow> instant \<Rightarrow> tenant \<Rightarrow> uuid \<Rightarrow> 'd import_row list \<Rightarrow> ('d, nat \<times> nat) catalog_tx" where
  "importTx D T cl w t by_id rows = (let tid = tenantID t in
     tx_bind (tx_get (GetDefaultWarehouse tid)) (\<lambda>wh.
     tx_bind (tx_of_sum (from_opt (CatDB ''warehouse'' NoRows) wh)) (\<lambda>warehouse.
     tx_bind (resolveCategories T w tid rows) (\<lambda>(cats, created).
     tx_bind (resolveSuppliers T w tid rows) (\<lambda>(sups, createdSuppliers).
     tx_bind (tx_for rows (import_row D T cl w t (wh_id warehouse) by_id cats sups)) (\<lambda>_.
     tx_return (created, createdSuppliers)))))))"

definition Import :: "'d decimal_lib \<Rightarrow> text_lib \<Rightarrow> clock \<Rightarrow> instant \<Rightarrow> tenant \<Rightarrow> 'd parse_result \<Rightarrow> uuid \<Rightarrow> bool \<Rightarrow> 'd db \<Rightarrow>
    (catalog_error + 'd import_result) \<times> 'd db" where
  "Import D T cl w t parsed by_id dryRun st = (let
       result = \<lparr>imDryRun = dryRun, imItems = length (prRows parsed), imCategories = 0, imSuppliers = 0,
         imWithOpening = length (filter (\<lambda>row. qIsPositive D (irOpening row)) (prRows parsed)),
         imErrors = prErrors parsed, imPreview = prRows parsed\<rparr> in
     if prErrors parsed \<noteq> [] then (Inr (result\<lparr>imDryRun := True\<rparr>), st) else
     if dryRun then (Inr result, st) else
     (case InTenantTx (importTx D T cl w t by_id (prRows parsed)) st of
        (Inl e, st1) \<Rightarrow> (Inl e, st1)
      | (Inr (created, createdSuppliers), st1) \<Rightarrow> (Inr (result\<lparr>imCategories := created, imSuppliers := createdSuppliers\<rparr>), st1)))"

end
