(* ===== verification/Counts.thy ===== *)
theory Counts
  imports Stock_Correct
begin

text \<open>
  \<open>internal/stock/counts.go\<close>: stock counts. A count is opened with the balances of the moment,
  filled in over several saves and posted once: every line with a counted quantity gives an
  adjustment of the difference. The map of counted quantities that \<open>SetCountLines\<close> ranges over is
  a list here; the results hold for every order of it.
\<close>

section \<open>Model\<close>

definition CountDraft :: string where "CountDraft = ''draft''"
definition CountPosted :: string where "CountPosted = ''posted''"

record 'd count_doc =
  cdID :: uuid
  cdStatus :: string
  cdScope :: string
  cdNote :: string
  cdCreatedBy :: "uuid option"
  cdCreatedAt :: instant
  cdPostedAt :: "instant option"
  cdLines :: "'d count_line list"

definition DefaultPageSize :: int where "DefaultPageSize = 50"
definition MaxPageSize :: int where "MaxPageSize = 200"

definition countFromRow :: "count_row \<Rightarrow> 'd count_doc" where
  "countFromRow r = \<lparr>cdID = sc_id r, cdStatus = sc_status r, cdScope = sc_scope r, cdNote = sc_note r,
     cdCreatedBy = sc_created_by r, cdCreatedAt = sc_created_at r, cdPostedAt = sc_posted_at r, cdLines = []\<rparr>"

definition count_line_of :: "'d decimal_lib \<Rightarrow> count_line_list_row \<Rightarrow> 'd count_line" where
  "count_line_of D l = (let cur = pg_Qty D (llCurrentQty l); r = llRow l;
       counted = NullQty D (cl_counted_qty r)
     in \<lparr>clnItem = cl_item r, clnItemName = llItemName l, clnBaseUnit = llBaseUnit l,
         ExpectedQty = pg_Qty D (cl_expected_qty r), CurrentQty = cur, CountedQty = counted,
         clnDiff = map_option (\<lambda>c. qSub D c cur) counted\<rparr>)"

definition GetCount :: "'d decimal_lib \<Rightarrow> tenant \<Rightarrow> uuid \<Rightarrow> ('d, 'd count_doc) stock_tx" where
  "GetCount D t countID = (let tid = tenantID t in
     tx_bind (tx_get (GetStockCount tid countID)) (\<lambda>found.
     tx_bind (tx_of_sum (from_opt ErrItemNotFound found)) (\<lambda>row.
     tx_bind (tx_get (ListStockCountLines tid countID)) (\<lambda>lines.
     tx_return ((countFromRow row)\<lparr>cdLines := map (count_line_of D) lines\<rparr>)))))"

definition ListCounts :: "tenant \<Rightarrow> int \<Rightarrow> ('d, 'd count_doc list) stock_tx" where
  "ListCounts t limit = (let n = (if limit \<le> 0 \<or> MaxPageSize < limit then DefaultPageSize else limit) in
     tx_get (\<lambda>st. map countFromRow (ListStockCounts (tenantID t) n st)))"

text \<open>The two transactions of an operation that reads the document back after the change.\<close>

definition then_read :: "('d, 'a) stock_tx \<Rightarrow> ('a \<Rightarrow> ('d, 'b) stock_tx) \<Rightarrow> 'd db \<Rightarrow> ('d app_error + 'b) \<times> 'd db" where
  "then_read change read st = (case InTenantTx change st of
       (Inl e, st') \<Rightarrow> (Inl e, st')
     | (Inr x, st') \<Rightarrow> InTenantTx (read x) st')"

text \<open>\<open>map[uuid.UUID]qty.Qty\<close> built by assignments: the last one counts, a missing key is zero.\<close>

definition last_qty :: "'d decimal_lib \<Rightarrow> (uuid \<times> 'd qty) list \<Rightarrow> uuid \<Rightarrow> 'd qty" where
  "last_qty D kvs k = (case find (\<lambda>p. fst p = k) (rev kvs) of None \<Rightarrow> qZero D | Some p \<Rightarrow> snd p)"

definition createCountTx :: "'d decimal_lib \<Rightarrow> instant \<Rightarrow> tenant \<Rightarrow> string \<Rightarrow> string \<Rightarrow> uuid list \<Rightarrow> uuid \<Rightarrow>
    ('d, uuid) stock_tx" where
  "createCountTx D w t scope note itemIDs by_id = (let tid = tenantID t in
     tx_bind (tx_get (GetDefaultWarehouse tid)) (\<lambda>wh.
     tx_bind (tx_of_sum (from_opt (Wrapped ''warehouse'' (DB NoRows)) wh)) (\<lambda>warehouse.
     tx_bind (tx_get (\<lambda>st. if itemIDs = [] then ListActiveItemIDs tid st else itemIDs)) (\<lambda>ids.
     tx_bind new_uuid (\<lambda>newid.
     tx_bind (dbtx ''create'' (CreateStockCount w \<lparr>sc_id = newid, sc_tenant = tid, sc_warehouse = wh_id warehouse,
        sc_status = CountDraft, sc_scope = scope, sc_note = note, sc_created_by = Some by_id,
        sc_posted_by = None, sc_posted_at = None, sc_created_at = 0\<rparr>)) (\<lambda>row.
     tx_bind (tx_get (ListBalances_q tid)) (\<lambda>balances.
     let onHand = map (\<lambda>b. (ba_item b, pg_Qty D (ba_on_hand b))) balances in
     tx_bind (tx_for ids (\<lambda>iid. dbtx ''line''
        (UpsertStockCountLine tid (sc_id row) iid (DecimalOf D (last_qty D onHand iid)) None))) (\<lambda>_.
     tx_return (sc_id row)))))))))"

definition CreateCount :: "'d decimal_lib \<Rightarrow> instant \<Rightarrow> tenant \<Rightarrow> string \<Rightarrow> string \<Rightarrow> uuid list \<Rightarrow> uuid \<Rightarrow> 'd db \<Rightarrow>
    ('d app_error + 'd count_doc) \<times> 'd db" where
  "CreateCount D w t scope note itemIDs by_id =
     then_read (createCountTx D w t scope note itemIDs by_id) (GetCount D t)"

definition setCountLinesTx :: "'d decimal_lib \<Rightarrow> tenant \<Rightarrow> uuid \<Rightarrow> (uuid \<times> 'd qty) list \<Rightarrow> ('d, unit) stock_tx" where
  "setCountLinesTx D t countID lines = (let tid = tenantID t in
     tx_bind (tx_get (GetStockCount tid countID)) (\<lambda>found.
     tx_bind (tx_of_sum (from_opt ErrItemNotFound found)) (\<lambda>doc.
     tx_bind (tx_guard (sc_status doc \<noteq> CountPosted) ErrCountPosted) (\<lambda>_.
     tx_bind (tx_get (ListStockCountLines tid countID)) (\<lambda>existing.
     let expected = map (\<lambda>l. (cl_item (llRow l), pg_Qty D (cl_expected_qty (llRow l)))) existing in
     tx_for lines (\<lambda>(iid, counted).
       tx_bind (tx_guard (\<not> qIsNegative D counted) (ErrNegativeCount iid)) (\<lambda>_.
       dbtx ''line'' (UpsertStockCountLine tid countID iid (DecimalOf D (last_qty D expected iid))
         (Some (DecimalOf D counted))))))))))"

definition SetCountLines :: "'d decimal_lib \<Rightarrow> tenant \<Rightarrow> uuid \<Rightarrow> (uuid \<times> 'd qty) list \<Rightarrow> 'd db \<Rightarrow>
    ('d app_error + unit) \<times> 'd db" where
  "SetCountLines D t countID lines = InTenantTx (setCountLinesTx D t countID lines)"

definition adjustment_comment :: string where
  "adjustment_comment = utf8 [1050, 1086, 1088, 1088, 1077, 1082, 1090, 1080, 1088, 1086, 1074, 1082, 1072, 32, 1087,
       1086, 32, 1087, 1077, 1088, 1077, 1089, 1095, 1105, 1090, 1091]"

definition adjustment_of :: "'d decimal_lib \<Rightarrow> uuid \<Rightarrow> uuid \<Rightarrow> uuid \<Rightarrow> 'd qty \<Rightarrow> instant \<Rightarrow> uuid \<Rightarrow> uuid \<Rightarrow> uuid \<Rightarrow> movement_row" where
  "adjustment_of D tid wid iid delta now by_id countID newid = \<lparr>mv_id = newid, mv_tenant = tid,
     mv_warehouse = wid, mv_item = iid, mv_type = TypeAdjustment, mv_qty = DecimalOf D delta,
     mv_occurred_at = now, mv_created_at = 0, mv_created_by = Some by_id, mv_reason = None,
     mv_comment = adjustment_comment, mv_order = None, mv_count = Some countID, mv_reverses = None,
     mv_idempotency_key = None\<rparr>"

definition adjust_balance :: "'d decimal_lib \<Rightarrow> 'd stock_service \<Rightarrow> instant \<Rightarrow> tenant \<Rightarrow> count_row \<Rightarrow> uuid \<Rightarrow> uuid \<Rightarrow>
    'd qty \<Rightarrow> 'd qty \<Rightarrow> ('d, unit) stock_tx" where
  "adjust_balance D s w t doc by_id iid current delta = (let tid = tenantID t; wid = sc_warehouse doc;
       now = tenant_Now t (ssClock s) w
     in
     tx_bind new_uuid (\<lambda>newid.
     tx_bind (tx_lift wrapInsertError (InsertMovement w
       (adjustment_of D tid wid iid delta now by_id (sc_id doc) newid))) (\<lambda>_.
     tx_bind (tx_lift (\<lambda>e. wrapBalanceError e current (qAbs D delta))
       (ApplyMovementToBalance tid wid iid (DecimalOf D delta) now)) (\<lambda>_.
     tx_bind (tx_lift (Wrapped ''status'') (ssStatus s w t iid)) (\<lambda>_.
     tx_return ())))))"

text \<open>
  The body of the loop of \<open>PostCount\<close>. Its result is the line if the books moved since the count
  was opened and posting was not forced; such lines are collected in \<open>changed\<close>.
\<close>

definition post_line :: "'d decimal_lib \<Rightarrow> 'd stock_service \<Rightarrow> instant \<Rightarrow> tenant \<Rightarrow> count_row \<Rightarrow> uuid \<Rightarrow> bool \<Rightarrow>
    count_line_row \<Rightarrow> ('d, 'd count_line option) stock_tx" where
  "post_line D s w t doc by_id force line = (let tid = tenantID t; wid = sc_warehouse doc;
       iid = cl_item line; counted = QtyOrZero D (cl_counted_qty line)
     in
     tx_bind (dbtx ''ensure'' (EnsureBalance tid wid iid w)) (\<lambda>_.
     tx_bind (dbtx ''lock'' (LockBalance tid wid iid)) (\<lambda>currentRaw.
     let current = pg_Qty D currentRaw; expectedAtEntry = pg_Qty D (cl_expected_qty line) in
     if \<not> force \<and> \<not> qEqual D current expectedAtEntry then
       tx_return (Some \<lparr>clnItem = iid, clnItemName = [], clnBaseUnit = [], ExpectedQty = expectedAtEntry,
         CurrentQty = current, CountedQty = Some counted, clnDiff = None\<rparr>)
     else let delta = qSub D counted current in
     if qIsZero D delta then tx_return None
     else tx_bind (adjust_balance D s w t doc by_id iid current delta) (\<lambda>_. tx_return None))))"

fun post_lines :: "('l \<Rightarrow> ('d, 'c option) stock_tx) \<Rightarrow> 'l list \<Rightarrow> ('d, 'c list) stock_tx" where
  "post_lines f [] = tx_return []"
| "post_lines f (l # ls) = tx_bind (f l) (\<lambda>c. tx_bind (post_lines f ls) (\<lambda>cs.
     tx_return (case c of None \<Rightarrow> cs | Some x \<Rightarrow> x # cs)))"

definition postCountTx :: "'d decimal_lib \<Rightarrow> 'd stock_service \<Rightarrow> instant \<Rightarrow> tenant \<Rightarrow> uuid \<Rightarrow> uuid \<Rightarrow> bool \<Rightarrow>
    ('d, unit) stock_tx" where
  "postCountTx D s w t countID by_id force = (let tid = tenantID t in
     tx_bind (tx_get (GetStockCount tid countID)) (\<lambda>found.
     tx_bind (tx_of_sum (from_opt ErrItemNotFound found)) (\<lambda>doc.
     tx_bind (tx_guard (sc_status doc \<noteq> CountPosted) ErrCountPosted) (\<lambda>_.
     tx_bind (tx_get (ListCountedLines tid countID)) (\<lambda>lines.
     tx_bind (post_lines (post_line D s w t doc by_id force) lines) (\<lambda>changed.
     tx_bind (tx_guard (changed = []) (CountChanged changed)) (\<lambda>_.
     tx_lift DB (PostStockCount tid countID (tenant_Now t (ssClock s) w) by_id))))))))"

definition PostCount :: "'d decimal_lib \<Rightarrow> 'd stock_service \<Rightarrow> instant \<Rightarrow> tenant \<Rightarrow> uuid \<Rightarrow> uuid \<Rightarrow> bool \<Rightarrow> 'd db \<Rightarrow>
    ('d app_error + 'd count_doc) \<times> 'd db" where
  "PostCount D s w t countID by_id force =
     then_read (postCountTx D s w t countID by_id force) (\<lambda>_. GetCount D t countID)"

end
