(* ===== verification/Orders.thy ===== *)
theory Orders
  imports Order_Model Replenish Counts
begin

text \<open>
  \<open>internal/orders/service.go\<close> and \<open>receive.go\<close>: drafting an order, editing it, sending, cancelling
  and receiving it, and reading orders. The notifier of a mismatch is an interface of the source and
  a field here; \<open>nil\<close> is \<open>None\<close>. Of a Go pair of a value and an error, the error is kept.
\<close>

type_synonym 'd notifier = "instant \<Rightarrow> tenant \<Rightarrow> 'd order \<Rightarrow> ('d, unit) stock_tx"

record 'd order_service =
  osClock :: clock
  osStatuses :: "'d replenish_service option"
  osStock :: "'d stock_service"
  osNotifier :: "'d notifier option"

record 'd create_line =
  crItem :: uuid
  crQty :: "'d qty"

record 'd create_input =
  ciSupplier :: uuid
  ciNote :: string
  ciLines :: "'d create_line list"
  ciCreatedBy :: uuid

section \<open>Reading\<close>

definition supplier_name_of :: "uuid \<Rightarrow> uuid \<Rightarrow> 'd db \<Rightarrow> string" where
  "supplier_name_of tid sid st = (case GetSupplier tid sid st of None \<Rightarrow> [] | Some s \<Rightarrow> su_name s)"

definition getOrderTx :: "'d decimal_lib \<Rightarrow> 'd order_service \<Rightarrow> instant \<Rightarrow> tenant \<Rightarrow> uuid \<Rightarrow> ('d, 'd order) stock_tx" where
  "getOrderTx D s w t oid = (let tid = tenantID t in
     tx_bind (tx_get (GetPurchaseOrder tid oid)) (\<lambda>found.
     tx_bind (tx_of_sum (from_opt ErrNotFound found)) (\<lambda>row.
     tx_bind (tx_get (supplier_name_of tid (po_supplier row))) (\<lambda>supplier.
     tx_bind (tx_get (ListPurchaseOrderLines tid oid)) (\<lambda>ls.
     let out = (orderFromRow row)\<lparr>orSupplierName := supplier, orLines := map (line_of_row D) ls\<rparr> in
     tx_bind (tx_of_sum (from_opt Panicked (OrderText D (tenantName t) out (orExpectedAt out)))) (\<lambda>text.
     tx_return (out\<lparr>orText := text, orLate := isLate out (Today t (osClock s) w)\<rparr>)))))))"

definition GetOrder :: "'d decimal_lib \<Rightarrow> 'd order_service \<Rightarrow> instant \<Rightarrow> tenant \<Rightarrow> uuid \<Rightarrow> 'd db \<Rightarrow>
    ('d app_error + 'd order) \<times> 'd db" where
  "GetOrder D s w t oid = InTenantTx (getOrderTx D s w t oid)"

definition listed_order :: "day \<Rightarrow> order_list_row \<Rightarrow> 'd order" where
  "listed_order today r = (let ord = (orderFromRow (olrOrder r))\<lparr>orSupplierName := olrSupplierName r\<rparr>
     in ord\<lparr>orLate := isLate ord today\<rparr>)"

definition ListOrders :: "'d order_service \<Rightarrow> instant \<Rightarrow> tenant \<Rightarrow> order_status option \<Rightarrow> int \<Rightarrow> 'd db \<Rightarrow>
    ('d app_error + 'd order list) \<times> 'd db" where
  "ListOrders s w t status limit = (let n = (if limit \<le> 0 \<or> 200 < limit then 50 else limit) in
     InTenantTx (tx_bind (tx_get (ListPurchaseOrders (tenantID t) status n)) (\<lambda>rows.
     tx_return (map (listed_order (Today t (osClock s) w)) rows))))"

section \<open>Drafting\<close>

definition suggestionsFor :: "'d decimal_lib \<Rightarrow> uuid \<Rightarrow> uuid \<Rightarrow> 'd db \<Rightarrow> 'd create_line list" where
  "suggestionsFor D tid sid st = map (\<lambda>r. \<lparr>crItem = sgItem r, crQty = pg_Qty D (sgRecommendedQty r)\<rparr>)
     (filter (\<lambda>r. sgSupplier r = sid) (Suggestions tid st))"

text \<open>The terms a line keeps: unit, factor and price of the supplier's offer, if there is one.\<close>

definition line_terms :: "'d decimal_lib \<Rightarrow> supplier_item_row option \<Rightarrow> string \<times> 'd qty \<times> 'd qty option" where
  "line_terms D terms = (case terms of None \<Rightarrow> ([], qFromInt D 1, None)
     | Some x \<Rightarrow> (si_purchase_unit x, pg_Qty D (si_unit_factor x), NullQty D (si_price x)))"

definition create_order_line :: "'d decimal_lib \<Rightarrow> uuid \<Rightarrow> uuid \<Rightarrow> uuid \<Rightarrow> 'd create_line \<Rightarrow> ('d, unit) stock_tx" where
  "create_order_line D tid oid sid l = (if \<not> qIsPositive D (crQty l) then tx_return () else
     tx_bind (tx_get (GetSupplierItem tid sid (crItem l))) (\<lambda>terms.
     case line_terms D terms of (purchaseUnit, unitFactor, price) \<Rightarrow>
       dbtx ''line'' (UpsertPurchaseOrderLine tid oid (crItem l) (DecimalOf D (crQty l)) purchaseUnit
         (DecimalOf D unitFactor) (map_option (DecimalOf D) price))))"

definition createOrderTx :: "'d decimal_lib \<Rightarrow> instant \<Rightarrow> tenant \<Rightarrow> 'd create_input \<Rightarrow> ('d, uuid) stock_tx" where
  "createOrderTx D w t inp = (let tid = tenantID t; sid = ciSupplier inp in
     tx_bind (tx_get (GetSupplier tid sid)) (\<lambda>supplier.
     tx_bind (tx_guard (supplier \<noteq> None) ErrNotFound) (\<lambda>_.
     tx_bind (tx_get (\<lambda>st. if ciLines inp = [] then suggestionsFor D tid sid st else ciLines inp)) (\<lambda>lines.
     tx_bind (tx_guard (lines \<noteq> []) ErrEmptyOrder) (\<lambda>_.
     tx_bind new_uuid (\<lambda>newid.
     tx_bind (dbtx ''create'' (CreatePurchaseOrder w tid newid sid (ciNote inp) (Some (ciCreatedBy inp)))) (\<lambda>row.
     tx_bind (tx_for lines (create_order_line D tid (po_id row) sid)) (\<lambda>_.
     tx_return (po_id row)))))))))"

definition CreateOrder :: "'d decimal_lib \<Rightarrow> 'd order_service \<Rightarrow> instant \<Rightarrow> tenant \<Rightarrow> 'd create_input \<Rightarrow> 'd db \<Rightarrow>
    ('d app_error + 'd order) \<times> 'd db" where
  "CreateOrder D s w t inp = then_read (createOrderTx D w t inp) (getOrderTx D s w t)"

definition edit_line :: "'d decimal_lib \<Rightarrow> uuid \<Rightarrow> uuid \<Rightarrow> uuid \<Rightarrow> 'd create_line \<Rightarrow> ('d, unit) stock_tx" where
  "edit_line D tid oid sid l = (if \<not> qIsPositive D (crQty l)
     then dbtx ''delete'' (DeletePurchaseOrderLine tid oid (crItem l)) else
     tx_bind (tx_get (GetSupplierItem tid sid (crItem l))) (\<lambda>terms.
     case line_terms D terms of (purchaseUnit, unitFactor, _) \<Rightarrow>
       dbtx ''line'' (UpsertPurchaseOrderLine tid oid (crItem l) (DecimalOf D (crQty l)) purchaseUnit
         (DecimalOf D unitFactor) None)))"

definition updateLinesTx :: "'d decimal_lib \<Rightarrow> tenant \<Rightarrow> uuid \<Rightarrow> 'd create_line list \<Rightarrow> ('d, uuid) stock_tx" where
  "updateLinesTx D t oid lines = (let tid = tenantID t in
     tx_bind (tx_get (GetPurchaseOrder tid oid)) (\<lambda>found.
     tx_bind (tx_of_sum (from_opt ErrNotFound found)) (\<lambda>row.
     tx_bind (tx_guard (po_status row = StatusDraft) ErrWrongStatus) (\<lambda>_.
     tx_bind (tx_for lines (edit_line D tid oid (po_supplier row))) (\<lambda>_.
     tx_return oid)))))"

definition UpdateLines :: "'d decimal_lib \<Rightarrow> 'd order_service \<Rightarrow> instant \<Rightarrow> tenant \<Rightarrow> uuid \<Rightarrow> 'd create_line list \<Rightarrow> 'd db \<Rightarrow>
    ('d app_error + 'd order) \<times> 'd db" where
  "UpdateLines D s w t oid lines = then_read (updateLinesTx D t oid lines) (getOrderTx D s w t)"

section \<open>Sending and cancelling\<close>

definition order_weekdays :: "int list \<Rightarrow> int list" where
  "order_weekdays days = map (\<lambda>d. d) days"

definition recalculate_lines :: "'d decimal_lib \<Rightarrow> 'd order_service \<Rightarrow> instant \<Rightarrow> tenant \<Rightarrow> order_line_list_row list \<Rightarrow>
    ('d, unit) stock_tx" where
  "recalculate_lines D s w t ls = (case osStatuses s of None \<Rightarrow> tx_return ()
     | Some r \<Rightarrow> tx_for ls (\<lambda>l. tx_bind (tx_lift (Wrapped ''status'') (Recalculate D r w t (ol_item (orLine l)))) (\<lambda>_. tx_return ())))"

definition order_window :: "'d order_service \<Rightarrow> instant \<Rightarrow> tenant \<Rightarrow> supplier_row \<Rightarrow> delivery_window" where
  "order_window s w t supplier = ComputeWindow (tenant_Now t (osClock s) w) (Some (Loc t))
     \<lparr>LeadTimeDays = su_lead_time_days supplier, DeliveryWeekdays = order_weekdays (su_delivery_weekdays supplier),
      Cutoff = ClockTime (su_order_cutoff supplier)\<rparr>"

definition sendTx :: "'d decimal_lib \<Rightarrow> 'd order_service \<Rightarrow> instant \<Rightarrow> tenant \<Rightarrow> uuid \<Rightarrow> ('d, uuid) stock_tx" where
  "sendTx D s w t oid = (let tid = tenantID t in
     tx_bind (tx_get (GetPurchaseOrder tid oid)) (\<lambda>found.
     tx_bind (tx_of_sum (from_opt ErrNotFound found)) (\<lambda>row.
     tx_bind (tx_guard (po_status row \<noteq> StatusSent) ErrAlreadySent) (\<lambda>_.
     tx_bind (tx_guard (po_status row = StatusDraft) ErrWrongStatus) (\<lambda>_.
     tx_bind (tx_get (ListPurchaseOrderLines tid oid)) (\<lambda>ls.
     tx_bind (tx_guard (ls \<noteq> []) ErrEmptyOrder) (\<lambda>_.
     tx_bind (tx_get (GetSupplier tid (po_supplier row))) (\<lambda>fs.
     tx_bind (tx_of_sum (from_opt (Wrapped ''supplier'' (DB NoRows)) fs)) (\<lambda>supplier.
     tx_bind (dbtx ''send'' (SendPurchaseOrder tid oid (tenant_Now t (osClock s) w) (D1 (order_window s w t supplier)))) (\<lambda>_.
     tx_bind (recalculate_lines D s w t ls) (\<lambda>_.
     tx_return oid)))))))))))"

definition Send :: "'d decimal_lib \<Rightarrow> 'd order_service \<Rightarrow> instant \<Rightarrow> tenant \<Rightarrow> uuid \<Rightarrow> 'd db \<Rightarrow>
    ('d app_error + 'd order) \<times> 'd db" where
  "Send D s w t oid = then_read (sendTx D s w t oid) (getOrderTx D s w t)"

definition cancelTx :: "'d decimal_lib \<Rightarrow> 'd order_service \<Rightarrow> instant \<Rightarrow> tenant \<Rightarrow> uuid \<Rightarrow> ('d, uuid) stock_tx" where
  "cancelTx D s w t oid = (let tid = tenantID t in
     tx_bind (tx_get (GetPurchaseOrder tid oid)) (\<lambda>found.
     tx_bind (tx_of_sum (from_opt ErrNotFound found)) (\<lambda>row.
     tx_bind (tx_guard (po_status row \<noteq> StatusReceived) ErrAlreadyReceived) (\<lambda>_.
     if po_status row = StatusCancelled then tx_return oid else
     tx_bind (dbtx ''cancel'' (CancelPurchaseOrder tid oid (tenant_Now t (osClock s) w))) (\<lambda>_.
     tx_bind (tx_get (ListPurchaseOrderLines tid oid)) (\<lambda>ls.
     tx_bind (recalculate_lines D s w t ls) (\<lambda>_.
     tx_return oid)))))))"

definition Cancel :: "'d decimal_lib \<Rightarrow> 'd order_service \<Rightarrow> instant \<Rightarrow> tenant \<Rightarrow> uuid \<Rightarrow> 'd db \<Rightarrow>
    ('d app_error + 'd order) \<times> 'd db" where
  "Cancel D s w t oid = then_read (cancelTx D s w t oid) (getOrderTx D s w t)"

section \<open>Receiving\<close>

record 'd receive_line =
  rlItem :: uuid
  rlQty :: "'d qty"

text \<open>The quantity received: what was stated last for the item, or what was ordered.\<close>

definition received_qty :: "'d decimal_lib \<Rightarrow> 'd receive_line list \<Rightarrow> order_line_row \<Rightarrow> 'd qty" where
  "received_qty D actual l = (case map_of (rev (map (\<lambda>a. (rlItem a, rlQty a)) actual)) (ol_item l) of
     Some v \<Rightarrow> v | None \<Rightarrow> pg_Qty D (ol_qty_ordered l))"

definition receipt_key :: "uuid_lib \<Rightarrow> string \<Rightarrow> uuid \<Rightarrow> uuid \<Rightarrow> string" where
  "receipt_key U key oid iid = key @ '':'' @ uString U oid @ '':'' @ uString U iid"

definition receipt_comment :: string where
  "receipt_comment = utf8 [1055, 1088, 1080, 1105, 1084, 1082, 1072, 32, 1079, 1072, 1082, 1072, 1079, 1072]"

definition receipt_of :: "uuid_lib \<Rightarrow> uuid \<Rightarrow> instant \<Rightarrow> uuid \<Rightarrow> string \<Rightarrow> uuid \<Rightarrow> 'd qty \<Rightarrow> 'd record_request" where
  "receipt_of U oid now by_id key iid q = \<lparr>rqItem = iid, rqType = TypeReceipt, rqQty = q, rqOccurredAt = now,
     rqReason = [], rqComment = receipt_comment, rqOrder = Some oid, rqCount = None,
     rqKey = receipt_key U key oid iid, rqCreatedBy = Some by_id\<rparr>"

definition receive_one :: "'d decimal_lib \<Rightarrow> uuid_lib \<Rightarrow> 'd order_service \<Rightarrow> instant \<Rightarrow> tenant \<Rightarrow> uuid \<Rightarrow> instant \<Rightarrow>
    'd receive_line list \<Rightarrow> uuid \<Rightarrow> string \<Rightarrow> order_line_list_row \<Rightarrow> ('d, unit) stock_tx" where
  "receive_one D U s w t oid now actual by_id key l = (let tid = tenantID t; iid = ol_item (orLine l);
       received = received_qty D actual (orLine l) in
     tx_bind (tx_guard (\<not> qIsNegative D received) (ErrNegativeReceived (orItemName l))) (\<lambda>_.
     tx_bind (dbtx ''received'' (SetPurchaseOrderLineReceived tid oid iid (Some (DecimalOf D received)))) (\<lambda>_.
     if \<not> qIsPositive D received then tx_return () else
     tx_bind (tx_lift (Wrapped ''receipt'') (RecordInTx D (osStock s) w t (receipt_of U oid now by_id key iid received))) (\<lambda>_.
     tx_return ()))))"

definition receiveTx :: "'d decimal_lib \<Rightarrow> uuid_lib \<Rightarrow> 'd order_service \<Rightarrow> instant \<Rightarrow> tenant \<Rightarrow> uuid \<Rightarrow>
    'd receive_line list \<Rightarrow> uuid \<Rightarrow> string \<Rightarrow> ('d, uuid) stock_tx" where
  "receiveTx D U s w t oid actual by_id key = (let tid = tenantID t; now = tenant_Now t (osClock s) w in
     tx_bind (tx_get (GetPurchaseOrder tid oid)) (\<lambda>found.
     tx_bind (tx_of_sum (from_opt ErrNotFound found)) (\<lambda>row.
     tx_bind (tx_guard (po_status row \<noteq> StatusReceived) ErrAlreadyReceived) (\<lambda>_.
     tx_bind (tx_guard (po_status row = StatusSent) ErrWrongStatus) (\<lambda>_.
     tx_bind (tx_get (ListPurchaseOrderLines tid oid)) (\<lambda>ls.
     tx_bind (tx_guard (ls \<noteq> []) ErrEmptyOrder) (\<lambda>_.
     tx_bind (dbtx ''receive'' (ReceivePurchaseOrder tid oid now)) (\<lambda>_.
     tx_bind (tx_for ls (receive_one D U s w t oid now actual by_id key)) (\<lambda>_.
     tx_return oid)))))))))"

text \<open>The mismatch is announced in a transaction of its own, after the receipt has been committed.\<close>

definition announce :: "'d decimal_lib \<Rightarrow> 'd order_service \<Rightarrow> instant \<Rightarrow> tenant \<Rightarrow> 'd order \<Rightarrow> 'd db \<Rightarrow>
    ('d app_error + 'd order) \<times> 'd db" where
  "announce D s w t ord st = (case osNotifier s of
       None \<Rightarrow> (Inr ord, st)
     | Some notify \<Rightarrow> if \<not> HasSignificantMismatch D ord then (Inr ord, st) else
       (case InTenantTx (notify w t ord) st of
          (Inl e, st') \<Rightarrow> (Inl (Wrapped ''mismatch'' e), st')
        | (Inr _, st') \<Rightarrow> (Inr ord, st')))"

definition Receive :: "'d decimal_lib \<Rightarrow> uuid_lib \<Rightarrow> 'd order_service \<Rightarrow> instant \<Rightarrow> tenant \<Rightarrow> uuid \<Rightarrow>
    'd receive_line list \<Rightarrow> uuid \<Rightarrow> string \<Rightarrow> 'd db \<Rightarrow> ('d app_error + 'd order) \<times> 'd db" where
  "Receive D U s w t oid actual by_id key st =
     (case then_read (receiveTx D U s w t oid actual by_id key) (getOrderTx D s w t) st of
        (Inl e, st') \<Rightarrow> (Inl e, st')
      | (Inr ord, st') \<Rightarrow> announce D s w t ord st')"

end
