(* ===== verification/Notify.thy ===== *)
theory Notify
  imports Messages Notify_Db Replenish
begin

text \<open>
  \<open>internal/notify/service.go\<close>, \<open>digest.go\<close> and \<open>feed.go\<close>: writing a notification to the feed and
  the outbox, the digest and the reminders, and the feed itself. Payloads are stored as values.
\<close>

record notify_service =
  nsClock :: clock
  nsLocal :: location
  nsBaseURL :: string

section \<open>Emit\<close>

definition nextMorning :: "tenant \<Rightarrow> instant \<Rightarrow> instant" where
  "nextMorning t now = (case local_date now (Loc t) of (y, m, d) \<Rightarrow>
     let to = QuietTo (tenantSettings t);
         morning = time_date y m d (tHour to) (tMinute to) 0 0 (Loc t)
     in if now < morning then morning else
        (case local_date morning (Loc t) of (y', m', d') \<Rightarrow>
          time_date y' m' (d' + 1) (local_hour morning (Loc t)) (local_minute morning (Loc t))
            (local_second morning (Loc t)) (morning mod second) (Loc t)))"

definition enqueue :: "instant \<Rightarrow> tenant \<Rightarrow> uuid \<Rightarrow> string \<Rightarrow> string \<Rightarrow> 'd payload \<Rightarrow> instant \<Rightarrow> ('d, unit) stock_tx" where
  "enqueue w t nid channel recipient p sendAt = tx_bind new_uuid (\<lambda>newid. dbtx ''outbox'' (InsertOutbox w
     \<lparr>ob_id = newid, ob_tenant = tenantID t, ob_notification = Some nid, ob_channel = channel,
      ob_recipient = recipient, ob_payload = p, ob_status = ''pending'', ob_attempts = 0,
      ob_next_attempt_at = sendAt, ob_last_error = [], ob_created_at = 0, ob_sent_at = None\<rparr>))"

definition enqueue_for :: "instant \<Rightarrow> tenant \<Rightarrow> notification_type \<Rightarrow> uuid \<Rightarrow> 'd payload \<Rightarrow> instant \<Rightarrow> user_row \<Rightarrow> ('d, unit) stock_tx" where
  "enqueue_for w t kind nid p sendAt r = tx_bind
     (case us_telegram r of
        Some chat \<Rightarrow> if TelegramEnabled (tenantSettings t)
          then enqueue w t nid ChannelTelegram (decimal_text_of chat) p sendAt else tx_return ()
      | None \<Rightarrow> tx_return ()) (\<lambda>_.
     if EmailEnabled (tenantSettings t) \<and> kind = TypeDailyDigest \<and> us_email r \<noteq> []
     then enqueue w t nid ChannelEmail (us_email r) p sendAt else tx_return ())"

text \<open>The insertion of a known key returns no row, which is not an error.\<close>

definition insert_once :: "'d notification_row \<Rightarrow> ('d, 'd notification_row option) stock_tx" where
  "insert_once row st = (case InsertNotification row st of
       Inl NoRows \<Rightarrow> Inr (None, st)
     | Inl e \<Rightarrow> Inl (Wrapped ''feed'' (DB e))
     | Inr (r, st') \<Rightarrow> Inr (Some r, st'))"

definition send_time :: "tenant \<Rightarrow> notification_type \<Rightarrow> instant \<Rightarrow> instant" where
  "send_time t kind now = (if kind = TypeCritical \<and> IsQuietHours t now then nextMorning t now else now)"

definition Emit :: "notify_service \<Rightarrow> instant \<Rightarrow> tenant \<Rightarrow> notification_type \<Rightarrow> string \<Rightarrow> 'd payload \<Rightarrow> ('d, unit) stock_tx" where
  "Emit s w t kind key p = (let now = clock_Now (nsClock s) w in
     tx_bind new_uuid (\<lambda>newid.
     tx_bind (insert_once \<lparr>nt_id = newid, nt_tenant = tenantID t, nt_user = None, nt_type = kind,
       nt_payload = p, nt_dedup_key = key, nt_read_at = None, nt_created_at = now\<rparr>) (\<lambda>created.
     case created of None \<Rightarrow> tx_return ()
     | Some row \<Rightarrow> if IsSandbox t then tx_return () else
       tx_bind (tx_get (ListRecipients (tenantID t))) (\<lambda>recipients.
       tx_for recipients (enqueue_for w t kind (nt_id row) p (send_time t kind now))))))"

section \<open>Links and the interfaces of other modules\<close>

definition itemLink :: "uuid_lib \<Rightarrow> notify_service \<Rightarrow> uuid \<Rightarrow> string" where
  "itemLink U s iid = (if nsBaseURL s = [] then [] else nsBaseURL s @ ''/app/items/'' @ uString U iid)"

definition orderLink :: "uuid_lib \<Rightarrow> notify_service \<Rightarrow> uuid \<Rightarrow> string" where
  "orderLink U s oid = (if nsBaseURL s = [] then [] else nsBaseURL s @ ''/app/orders/'' @ uString U oid)"

definition dashboardLink :: "notify_service \<Rightarrow> string" where
  "dashboardLink s = (if nsBaseURL s = [] then [] else nsBaseURL s @ ''/app/'')"

definition ItemWentRed :: "'d decimal_lib \<Rightarrow> uuid_lib \<Rightarrow> notify_service \<Rightarrow> 'd alerter" where
  "ItemWentRed D U s w t ev = (let today = Today t (nsClock s) w in
     Emit s w t TypeCritical (CriticalKey U (raItem ev) today) (RenderCritical D
       \<lparr>cdItemName = raItemName ev, cdOnHand = raOnHand ev, cdUnit = raBaseUnit ev,
        cdStockoutDate = raStockoutDate ev, cdToday = today, cdNextDelivery = raNextDelivery ev,
        cdSupplierName = raSupplierName ev, cdLink = itemLink U s (raItem ev)\<rparr>))"

definition mismatch_lines :: "'d order_line list \<Rightarrow> 'd mismatch_line list" where
  "mismatch_lines ls = concat (map (\<lambda>l. case QtyReceived l of None \<Rightarrow> []
     | Some r \<Rightarrow> [\<lparr>mlName = lnItemName l, mlOrdered = QtyOrdered l, mlReceived = r, mlUnit = lnBaseUnit l\<rparr>]) ls)"

definition ReceiptMismatch :: "'d decimal_lib \<Rightarrow> uuid_lib \<Rightarrow> notify_service \<Rightarrow> instant \<Rightarrow> tenant \<Rightarrow> 'd order \<Rightarrow> ('d, unit) stock_tx" where
  "ReceiptMismatch D U s w t ord = Emit s w t TypeReceiptMismatch (MismatchKey U (orID ord)) (RenderMismatch D
     \<lparr>mdSupplierName = orSupplierName ord, mdLines = mismatch_lines (orLines ord), mdLink = orderLink U s (orID ord)\<rparr>)"

section \<open>The digest\<close>

definition deliveryDay :: "instant option \<Rightarrow> tenant \<Rightarrow> day" where
  "deliveryDay orderBy t = (case orderBy of None \<Rightarrow> zero_day | Some x \<Rightarrow> DayIn x (Loc t))"

definition purchase_qty :: "'d decimal_lib \<Rightarrow> suggestion_row \<Rightarrow> 'd qty \<Rightarrow> 'd qty option option" where
  "purchase_qty D r q = (let factor = pg_Qty D (sgUnitFactor r) in
     if qIsPositive D factor \<and> sgPurchaseUnit r \<noteq> []
     then map_option (\<lambda>d. Some (qFromDecimal D d)) (dDiv D (qdec q) (qdec factor)) else Some None)"

definition digest_line_of :: "'d decimal_lib \<Rightarrow> suggestion_row \<Rightarrow> 'd digest_line option" where
  "digest_line_of D r = (let q = pg_Qty D (sgRecommendedQty r) in
     map_option (\<lambda>p. \<lparr>dlName = sgItemName r, dlQty = q, dlUnit = sgBaseUnit r, dlPurchaseQty = p,
        dlPurchaseUnit = sgPurchaseUnit r, dlStockoutDate = pg_Day (sgStockoutDate r)\<rparr>) (purchase_qty D r q))"

text \<open>The suppliers in the order of their first line, with the key of the index map.\<close>

definition add_line :: "tenant \<Rightarrow> suggestion_row \<Rightarrow> 'd digest_line \<Rightarrow> (uuid \<times> 'd digest_supplier) list \<Rightarrow>
    (uuid \<times> 'd digest_supplier) list" where
  "add_line t r l groups = (if list_ex (\<lambda>g. fst g = sgSupplier r) groups
     then map (\<lambda>(k, s). if k = sgSupplier r then (k, s\<lparr>dsLines := dsLines s @ [l]\<rparr>) else (k, s)) groups
     else groups @ [(sgSupplier r, \<lparr>dsName = sgSupplierName r, dsCutoff = ClockTime (sgOrderCutoff r),
       dsDeliveryAt = deliveryDay (sgOrderBy r) t, dsLines = [l]\<rparr>)])"

fun digest_groups :: "'d decimal_lib \<Rightarrow> tenant \<Rightarrow> (uuid \<times> 'd digest_supplier) list \<Rightarrow> suggestion_row list \<Rightarrow>
    (uuid \<times> 'd digest_supplier) list option" where
  "digest_groups D t groups [] = Some groups"
| "digest_groups D t groups (r # rs) = (if sgStatus r = StatusCritical \<or> sgStatus r = StatusOutOfStock
     then digest_groups D t groups rs
     else case digest_line_of D r of None \<Rightarrow> None | Some l \<Rightarrow> digest_groups D t (add_line t r l groups) rs)"

definition itemNames :: "uuid \<Rightarrow> 'd db \<Rightarrow> uuid \<Rightarrow> string" where
  "itemNames tid st iid = (case map_of (rev (map (\<lambda>r. (it_id (ilItem r), it_name (ilItem r))) (ListItems tid False st))) iid of
     None \<Rightarrow> [] | Some n \<Rightarrow> n)"

definition explanationD1 :: "'d explanation \<Rightarrow> day" where
  "explanationD1 e = exD1 e"

definition digest_criticals :: "uuid \<Rightarrow> 'd db \<Rightarrow> digest_critical list" where
  "digest_criticals tid st = map (\<lambda>r. \<lparr>dcrName = itemNames tid st (is_item r),
       dcrStockoutDate = pg_Day (is_stockout_date r), dcrNextDelivery = explanationD1 (is_explanation r)\<rparr>)
     (filter (\<lambda>r. IsRed (is_status r)) (ListItemStatuses tid st))"

definition buildDigest :: "'d decimal_lib \<Rightarrow> notify_service \<Rightarrow> tenant \<Rightarrow> day \<Rightarrow> 'd db \<Rightarrow> 'd digest_data option" where
  "buildDigest D s t today st = map_option (\<lambda>groups. \<lparr>ddTenantName = tenantName t, ddDay = today,
       ddSuppliers = map snd groups, ddCritical = digest_criticals (tenantID t) st, ddDashboardURL = dashboardLink s\<rparr>)
     (digest_groups D t [] (Suggestions (tenantID t) st))"

definition SendDigest :: "'d decimal_lib \<Rightarrow> notify_service \<Rightarrow> instant \<Rightarrow> tenant \<Rightarrow> 'd db \<Rightarrow> ('d app_error + bool) \<times> 'd db" where
  "SendDigest D s w t = (let today = Today t (nsClock s) w in InTenantTx (
     tx_bind (tx_get (buildDigest D s t today)) (\<lambda>built.
     tx_bind (tx_of_sum (from_opt Panicked built)) (\<lambda>dd.
     if digest_Empty dd then tx_return False else
     tx_bind (tx_of_sum (from_opt Panicked (RenderDigest D dd))) (\<lambda>p.
     tx_bind (Emit s w t TypeDailyDigest (DigestKey today) p) (\<lambda>_. tx_return True))))))"

section \<open>Reminders\<close>

definition CutoffLeadTime :: int where "CutoffLeadTime = 2 * hour"

text \<open>Name, cutoff and number of positions of each supplier.\<close>

definition add_pending :: "suggestion_row \<Rightarrow> (uuid \<times> string \<times> time_of_day \<times> int) list \<Rightarrow> (uuid \<times> string \<times> time_of_day \<times> int) list" where
  "add_pending r ps = (if list_ex (\<lambda>p. fst p = sgSupplier r) ps
     then map (\<lambda>(k, n, c, i). if k = sgSupplier r then (k, n, c, i + 1) else (k, n, c, i)) ps
     else ps @ [(sgSupplier r, sgSupplierName r, ClockTime (sgOrderCutoff r), 1)])"

definition remind_supplier :: "uuid_lib \<Rightarrow> notify_service \<Rightarrow> instant \<Rightarrow> tenant \<Rightarrow> uuid \<times> string \<times> time_of_day \<times> int \<Rightarrow> ('d, int) stock_tx" where
  "remind_supplier U s w t p = (case p of (sid, name, cutoff, n) \<Rightarrow>
     let now = tenant_Now t (nsClock s) w; today = Today t (nsClock s) w; deadline = On cutoff today (Loc t) in
     if now < deadline - CutoffLeadTime \<or> \<not> now < deadline then tx_return 0 else
     tx_bind (tx_get (HasOpenOrderForSupplier (tenantID t) sid (day_Time today (Loc t)))) (\<lambda>hasOrder.
     if hasOrder then tx_return 0 else
     tx_bind (Emit s w t TypeCutoffReminder (CutoffKey U sid today) (RenderCutoff
       \<lparr>cfSupplierName = name, cfCutoff = cutoff, cfItemCount = n, cfLink = dashboardLink s\<rparr>)) (\<lambda>_. tx_return 1)))"

fun tx_sum :: "('a \<Rightarrow> ('s, 'e, int) tx) \<Rightarrow> 'a list \<Rightarrow> ('s, 'e, int) tx" where
  "tx_sum f [] = tx_return 0"
| "tx_sum f (x # xs) = tx_bind (f x) (\<lambda>n. tx_bind (tx_sum f xs) (\<lambda>m. tx_return (n + m)))"

definition SendCutoffReminders :: "uuid_lib \<Rightarrow> notify_service \<Rightarrow> instant \<Rightarrow> tenant \<Rightarrow> 'd db \<Rightarrow> ('d app_error + int) \<times> 'd db" where
  "SendCutoffReminders U s w t = InTenantTx (tx_bind (tx_get (Suggestions (tenantID t))) (\<lambda>rows.
     tx_sum (remind_supplier U s w t) (foldl (\<lambda>ps r. add_pending r ps) [] rows)))"

definition alert_late :: "uuid_lib \<Rightarrow> notify_service \<Rightarrow> instant \<Rightarrow> tenant \<Rightarrow> order_list_row \<Rightarrow> ('d, int) stock_tx" where
  "alert_late U s w t l = (let oid = po_id (olrOrder l) in
     tx_bind (tx_get (ListPurchaseOrderLines (tenantID t) oid)) (\<lambda>ls.
     tx_bind (tx_of_sum (from_opt Panicked (RenderLate \<lparr>ltSupplierName = olrSupplierName l,
       ltExpectedAt = pg_Day (po_expected_at (olrOrder l)), ltItemCount = int (length ls), ltLink = orderLink U s oid\<rparr>))) (\<lambda>p.
     tx_bind (Emit s w t TypeOrderLate (LateKey U oid) p) (\<lambda>_.
     tx_bind (dbtx ''late'' (MarkOrderLateNotified (tenantID t) oid (clock_Now (nsClock s) w))) (\<lambda>_. tx_return 1)))))"

definition SendLateAlerts :: "uuid_lib \<Rightarrow> notify_service \<Rightarrow> instant \<Rightarrow> tenant \<Rightarrow> 'd db \<Rightarrow> ('d app_error + int) \<times> 'd db" where
  "SendLateAlerts U s w t = InTenantTx (tx_bind (tx_get (ListLateOrders (tenantID t) (pg_Date (Today t (nsClock s) w)))) (\<lambda>late.
     tx_sum (alert_late U s w t) late))"

section \<open>The feed\<close>

record 'd notification =
  nfID :: uuid
  nfType :: notification_type
  nfTypeLabel :: string
  nfPayload :: "'d payload"
  nfRead :: bool
  nfCreatedAt :: string
  nfUser :: "uuid option"

record 'd feed =
  fdItems :: "'d notification list"
  fdNextCursor :: string
  fdUnread :: int

definition notificationFromRow :: "notify_service \<Rightarrow> 'd notification_row \<Rightarrow> 'd notification" where
  "notificationFromRow s r = \<lparr>nfID = nt_id r, nfType = nt_type r, nfTypeLabel = notification_Label (nt_type r),
     nfPayload = nt_payload r, nfRead = (nt_read_at r \<noteq> None),
     nfCreatedAt = FormatRFC3339 (nt_created_at r) (nsLocal s), nfUser = nt_user r\<rparr>"

definition feed_limit :: "int \<Rightarrow> int" where
  "feed_limit limit = (if limit \<le> 0 \<or> 100 < limit then 30 else limit)"

fun feed_cursor :: "uuid_lib \<Rightarrow> int \<Rightarrow> int \<Rightarrow> 'd notification_row option \<Rightarrow> 'd notification_row list \<Rightarrow> string" where
  "feed_cursor U limit i prev [] = []"
| "feed_cursor U limit i prev (r # rs) = (if i = limit
     then (case prev of None \<Rightarrow> [] | Some l \<Rightarrow> encodeCursor U (nt_created_at l) (nt_id l))
     else feed_cursor U limit (i + 1) (Some r) rs)"

definition feed_List :: "uuid_lib \<Rightarrow> notify_service \<Rightarrow> tenant \<Rightarrow> uuid \<Rightarrow> string \<Rightarrow> int \<Rightarrow> 'd db \<Rightarrow> ('d app_error + 'd feed) \<times> 'd db" where
  "feed_List U s t uid cursor limit0 st = (let limit = feed_limit limit0; tid = tenantID t in
     case decodeCursor U cursor of None \<Rightarrow> (Inl ErrBadCursor, st)
     | Some c \<Rightarrow> InTenantTx (tx_bind (tx_get (ListNotifications tid uid c (limit + 1))) (\<lambda>rows.
         tx_bind (tx_get (CountUnreadNotifications tid uid)) (\<lambda>unread.
         tx_return \<lparr>fdItems = map (notificationFromRow s) (take (nat limit) rows),
           fdNextCursor = feed_cursor U limit 0 None rows, fdUnread = unread\<rparr>))) st)"

definition MarkRead :: "notify_service \<Rightarrow> instant \<Rightarrow> tenant \<Rightarrow> uuid \<Rightarrow> uuid list \<Rightarrow> 'd db \<Rightarrow> ('d app_error + int) \<times> 'd db" where
  "MarkRead s w t uid ids = InTenantTx (dbtx ''read'' (MarkNotificationsRead (tenantID t) uid (clock_Now (nsClock s) w) ids))"

end
