(* ===== verification/Reversal.thy ===== *)
theory Reversal
  imports Stock_Correct
begin

text \<open>
  When \<open>Record\<close> accepts a request, and what \<open>Reverse\<close> does.
\<close>

section \<open>Booking, decided\<close>

text \<open>No balance row of the place belongs to another tenant.\<close>

definition own_balance :: "'d db \<Rightarrow> uuid \<Rightarrow> uuid \<Rightarrow> uuid \<Rightarrow> bool" where
  "own_balance st tid wid iid \<longleftrightarrow> (\<forall>b \<in> set (balances st). balance_key wid iid b \<longrightarrow> ba_tenant b = tid)"

lemma EnsureBalance_ok:
  assumes "item_exists tid iid st" and "warehouse_exists tid wid st"
  obtains st1 where "EnsureBalance tid wid iid w st = Inr ((), st1)"
    and "\<exists>b \<in> set (balances st1). balance_key wid iid b"
    and "own_balance st tid wid iid \<Longrightarrow> own_balance st1 tid wid iid"
proof (cases "list_ex (balance_key wid iid) (balances st)")
  case True
  then show ?thesis by (intro that[of st]) (auto simp: EnsureBalance_def list_ex_iff)
next
  case False
  let ?b = "\<lparr>ba_tenant = tid, ba_warehouse = wid, ba_item = iid, ba_on_hand = 0, ba_updated_at = pg_Time w\<rparr>"
  from False assms show ?thesis
    by (intro that[of "st\<lparr>balances := balances st @ [?b]\<rparr>"])
      (auto simp: EnsureBalance_def own_balance_def balance_key_def)
qed

lemma LockBalance_ok:
  assumes "stock_inv st" and "own_balance st tid wid iid" and "\<exists>b \<in> set (balances st). balance_key wid iid b"
  obtains b where "b \<in> set (balances st)" and "balance_key wid iid b" and "ba_tenant b = tid"
    and "find (balance_key wid iid) (visible tid ba_tenant (balances st)) = Some b"
    and "ba_on_hand b = on_hand_of st wid iid"
    and "LockBalance tid wid iid st = Inr (on_hand_of st wid iid, st)"
proof -
  from assms(2,3) obtain b0 where b0: "b0 \<in> set (visible tid ba_tenant (balances st))" "balance_key wid iid b0"
    by (auto simp: own_balance_def)
  then obtain b where f: "find (balance_key wid iid) (visible tid ba_tenant (balances st)) = Some b"
    by (cases "find (balance_key wid iid) (visible tid ba_tenant (balances st))") (auto simp: find_None_all)
  have b: "b \<in> set (balances st)" "ba_tenant b = tid" "balance_key wid iid b" using find_Some_in[OF f] by auto
  have d: "distinct (map (\<lambda>b. (ba_warehouse b, ba_item b)) (balances st))"
    using assms(1) by (simp add: stock_inv_def balances_ok_def)
  have o: "ba_on_hand b = on_hand_of st wid iid"
    using find_key_unique[OF d b(1,3)] by (simp add: on_hand_of_def)
  then have "LockBalance tid wid iid st = Inr (on_hand_of st wid iid, st)" using f by (simp add: LockBalance_def)
  with b f o show ?thesis by (intro that) auto
qed

text \<open>What the database tests of a movement, apart from the balance.\<close>

definition insertable :: "'d db \<Rightarrow> movement_row \<Rightarrow> bool" where
  "insertable st r \<longleftrightarrow> movement_texts r \<and> is_numeric (mv_qty r) \<and> movement_checks r = Inr () \<and> movement_unique r st = Inr ()
     \<and> movement_references r st = Inr ()"

lemma insertable_created [simp]:
  "insertable st (r\<lparr>mv_created_at := a, mv_occurred_at := b\<rparr>) = insertable st r"
  by (simp add: insertable_def movement_texts_def movement_checks_def movement_unique_def movement_references_def)

lemma insertable_db [simp]:
  "insertable (st\<lparr>balances := bs\<rparr>) r = insertable st r" "insertable (st\<lparr>uuid_supply := n\<rparr>) r = insertable st r"
  by (simp_all add: insertable_def movement_unique_def movement_references_def item_exists_def
      warehouse_exists_def count_exists_def movement_exists_def order_exists_def split: option.splits)

lemma InsertMovement_ok:
  assumes "insertable st row"
  shows "InsertMovement w row st = (let r = row\<lparr>mv_created_at := pg_Time w, mv_occurred_at := pg_Time (mv_occurred_at row)\<rparr>
    in Inr (r, st\<lparr>movements := movements st @ [r]\<rparr>))"
proof -
  let ?r = "row\<lparr>mv_created_at := pg_Time w, mv_occurred_at := pg_Time (mv_occurred_at row)\<rparr>"
  have i: "insertable st ?r" using assms by simp
  have "numeric_14_3 (mv_qty row) = Inr (mv_qty row)"
    using assms by (auto simp: insertable_def is_numeric_def numeric_14_3_id)
  moreover have "row\<lparr>mv_qty := mv_qty row, mv_created_at := pg_Time w, mv_occurred_at := pg_Time (mv_occurred_at row)\<rparr> = ?r"
    by simp
  moreover have "movement_texts row" using assms by (simp add: insertable_def)
  ultimately show ?thesis using i by (simp add: InsertMovement_def Let_def insertable_def bindE_def guardE_def)
qed

context decimal_api
begin

text \<open>A booking is decided by the sign of the new balance alone.\<close>

lemma book_decided:
  assumes inv: "stock_inv st" and wf: "wfq D delta" and own: "own_balance st tid wid iid"
    and ex: "item_exists tid iid st" "warehouse_exists tid wid st"
    and ins: "insertable st (mk (uuid_supply st))" and q: "mv_qty (mk (uuid_supply st)) = qval D delta"
    and big: "on_hand_of st wid iid + qval D delta < 10 ^ 11"
  shows "if on_hand_of st wid iid + qval D delta < 0
     then book D w tid wid iid delta now mk asked asked' st
        = Inl (InsufficientStock (pg_Qty D (on_hand_of st wid iid)) asked)
     else \<exists>r st'. book D w tid wid iid delta now mk asked asked' st = Inr (r, st')"
proof -
  let ?h = "on_hand_of st wid iid"
  obtain st1 where e: "EnsureBalance tid wid iid w st = Inr ((), st1)"
    and b1: "\<exists>b \<in> set (balances st1). balance_key wid iid b" and o1: "own_balance st1 tid wid iid"
    by (rule EnsureBalance_ok[OF ex]) (use own in blast)
  note E = EnsureBalance_Inr[OF e inv]
  obtain b where b: "ba_on_hand b = ?h" "find (balance_key wid iid) (visible tid ba_tenant (balances st1)) = Some b"
    and l: "LockBalance tid wid iid st1 = Inr (?h, st1)"
    by (rule LockBalance_ok[OF E(1) o1 b1]) (simp add: E(2))
  have hn: "is_numeric ?h" using LockBalance_Inr(3)[OF l E(1)] .
  then have s3: "scale3 ?h" by (simp add: is_numeric_def)
  have qv: "qval D (qAdd D (pg_Qty D ?h) delta) = ?h + qval D delta" using s3 by simp
  obtain bs where st1: "st1 = st\<lparr>balances := bs\<rparr>" using E(3) by blast
  let ?s = "st1\<lparr>uuid_supply := Suc (uuid_supply st)\<rparr>"
  let ?m = "mk (uuid_supply st)"
  let ?r = "?m\<lparr>mv_created_at := pg_Time w, mv_occurred_at := pg_Time (mv_occurred_at ?m)\<rparr>"
  have sup: "uuid_supply st1 = uuid_supply st" by (simp add: st1)
  have "insertable ?s ?m" using ins by (simp add: st1)
  then have i: "InsertMovement w ?m ?s = Inr (?r, ?s\<lparr>movements := movements ?s @ [?r]\<rparr>)"
    by (simp add: InsertMovement_ok Let_def)
  show ?thesis
  proof (cases "?h + qval D delta < 0")
    case True
    then have "book D w tid wid iid delta now mk asked asked' st
        = Inl (InsufficientStock (pg_Qty D ?h) asked)"
      using e l qv by (simp add: book_def dbtx_def tx_lift_def tx_bind_def tx_guard_def Let_def)
    with True show ?thesis by simp
  next
    case False
    have "scale3 (?h + qval D delta)" using s3 wf by (auto simp: wfq_def)
    then have "numeric_14_3 (?h + qval D delta) = Inr (?h + qval D delta)"
      using False big by (simp add: numeric_14_3_id)
    then have "\<exists>v st2. ApplyMovementToBalance tid wid iid (DecimalOf D delta) now
        (?s\<lparr>movements := movements ?s @ [?r]\<rparr>) = Inr (v, st2)"
      using b False by (simp add: ApplyMovementToBalance_def DecimalOf_qval)
    then obtain v st2 where a: "ApplyMovementToBalance tid wid iid (DecimalOf D delta) now
        (?s\<lparr>movements := movements ?s @ [?r]\<rparr>) = Inr (v, st2)" by blast
    have "book D w tid wid iid delta now mk asked asked' st = Inr ((?r, v), st2)"
      using e l qv i a False by (simp add: new_uuid_def sup book_def dbtx_def tx_lift_def tx_bind_def tx_guard_def Let_def)
    with False show ?thesis by auto
  qed
qed

end

section \<open>Acceptance\<close>

lemma GetItem_exists: "GetItem tid iid st = Some it \<Longrightarrow> item_exists tid iid st"
  by (auto simp: GetItem_def item_exists_def list_ex_iff dest!: find_Some_in)

lemma GetDefaultWarehouse_exists:
  assumes "GetDefaultWarehouse tid st = Some wh"
  shows "warehouse_exists tid (wh_id wh) st"
proof -
  obtain rest where e: "sort_key wh_created_at (visible tid wh_tenant (warehouses st)) = wh # rest"
    using assms by (auto simp: GetDefaultWarehouse_def split: list.splits)
  have "wh \<in> set (sort_key wh_created_at (visible tid wh_tenant (warehouses st)))" unfolding e by simp
  then show ?thesis by (auto simp: warehouse_exists_def list_ex_iff)
qed

lemma ValidReason_nonblank: "ValidReason r \<Longrightarrow> list_ex (\<lambda>c. c \<noteq> CHR '' '') r"
  by (auto simp: ValidReason_def ReasonSpoiled_def ReasonBroken_def ReasonExpired_def ReasonTasting_def ReasonOther_def)

lemma nullString_nonempty: "ValidReason r \<Longrightarrow> nullString r = Some r"
  using ValidReason_nonblank[of r] by (auto simp: nullString_def)

text \<open>The references of a request, apart from its item, exist.\<close>

definition request_refs_ok :: "'d db \<Rightarrow> uuid \<Rightarrow> 'd record_request \<Rightarrow> bool" where
  "request_refs_ok st tid req \<longleftrightarrow> pred_option (\<lambda>i. order_exists tid i st) (rqOrder req)
     \<and> pred_option (\<lambda>c. count_exists tid c st) (rqCount req)"

lemma qval_signedQty:
  assumes "decimal_api D"
  shows "qval D (signedQty D ty q) = (if Decreases ty then - \<bar>qval D q\<bar>
    else if Increases ty then \<bar>qval D q\<bar> else qval D q)"
  by (simp add: signedQty_def decimal_api.qval_ops[OF assms])

lemma request_checks:
  assumes D: "decimal_api D" and v: "validate D s w t req = Inr req'" and ty: "rqType req \<noteq> TypeReversal"
  shows "movement_checks (movement_of_request D tid wid req' (signedQty D (rqType req) (rqQty req)) n) = Inr ()"
proof -
  note V = validate_Inr[OF v]
  have nz: "qval D (rqQty req) \<noteq> 0" using V by (simp add: decimal_api.qtest_ops[OF D])
  let ?r = "movement_of_request D tid wid req' (signedQty D (rqType req) (rqQty req)) n"
  have "mv_qty ?r \<noteq> 0" using nz by (simp add: movement_of_request_def DecimalOf_qval qval_signedQty[OF D])
  moreover have "movement_sign_ok (mv_type ?r) (mv_qty ?r)"
    using nz V by (auto simp: movement_sign_ok_def movement_of_request_def DecimalOf_qval qval_signedQty[OF D]
        Decreases_def Increases_def type_names)
  moreover have "writeoff_reason_ok (mv_type ?r) (mv_reason ?r)"
    using V ValidReason_nonblank[of "rqReason req"] nullString_nonempty[of "rqReason req"]
    by (auto simp: writeoff_reason_ok_def movement_of_request_def type_names)
  moreover have "mv_type ?r \<noteq> ''reversal''" "mv_reverses ?r = None"
    using ty V by (auto simp: movement_of_request_def type_names)
  ultimately show ?thesis by (simp add: movement_checks_def)
qed

text \<open>The texts of a request can be stored.\<close>

definition request_texts :: "'d record_request \<Rightarrow> bool" where
  "request_texts req \<longleftrightarrow> valid_text (rqReason req) \<and> valid_text (rqComment req) \<and> valid_text (rqKey req)"

lemma request_insertable:
  assumes D: "decimal_api D" and v: "validate D s w t req = Inr req'" and ty: "rqType req \<noteq> TypeReversal"
    and texts: "request_texts req"
    and q: "wfq D (rqQty req)" "\<bar>qval D (rqQty req)\<bar> < 10 ^ 11"
    and k: "rqKey req = [] \<or> GetMovementByIdempotencyKey (tenantID t) (rqKey req) st = None"
    and ex: "item_exists (tenantID t) (rqItem req) st" "warehouse_exists (tenantID t) wid st"
    and refs: "request_refs_ok st (tenantID t) req" and inv: "stock_inv st"
  shows "insertable st (movement_of_request D (tenantID t) wid req' (signedQty D (rqType req) (rqQty req)) (uuid_supply st))"
proof -
  note V = validate_Inr[OF v]
  have C: "rqComment req' = rqComment req" using v by (auto simp: validate_def Let_def split: if_splits)
  let ?r = "movement_of_request D (tenantID t) wid req' (signedQty D (rqType req) (rqQty req)) (uuid_supply st)"
  have "scale3 (qval D (signedQty D (rqType req) (rqQty req)))"
    using decimal_api.signedQty_wfq[OF D q(1)] by (simp add: wfq_def)
  then have "is_numeric (mv_qty ?r)"
    using q(2) by (simp add: is_numeric_def movement_of_request_def DecimalOf_qval qval_signedQty[OF D])
  moreover have "movement_unique ?r st = Inr ()"
  proof -
    have "\<not> list_ex (\<lambda>x. mv_id x = mv_id ?r) (movements st)"
      using inv by (auto simp: stock_inv_def list_ex_iff movement_of_request_def)
    moreover have "mv_idempotency_key ?r = None \<or> \<not> list_ex (\<lambda>x. mv_tenant x = mv_tenant ?r
         \<and> mv_idempotency_key x = mv_idempotency_key ?r) (movements st)"
      using k V by (auto simp: movement_of_request_def nullString_def GetMovementByIdempotencyKey_def
          find_None_all list_ex_iff)
    moreover have "mv_reverses ?r = None" by (simp add: movement_of_request_def)
    ultimately show ?thesis by (simp add: movement_unique_def)
  qed
  moreover have "movement_references ?r st = Inr ()"
    using ex refs V by (auto simp: movement_references_def movement_of_request_def Let_def request_refs_ok_def
        split: option.splits)
  moreover have "movement_texts ?r"
    using texts V C by (simp add: movement_texts_def request_texts_def movement_of_request_def nullString_def)
  ultimately show ?thesis using request_checks[OF D v ty] by (simp add: insertable_def)
qed

text \<open>The result of an accepted request: the stored row, the new balance and the status.\<close>

abbreviation accepted :: "'d decimal_lib \<Rightarrow> 'd stock_service \<Rightarrow> instant \<Rightarrow> item_row \<Rightarrow> movement_row \<Rightarrow> rat \<Rightarrow>
    'd status_snapshot \<Rightarrow> 'd record_result" where
  "accepted D s w item row v status \<equiv> \<lparr>
     rrMovement = (movementFromRow D row)\<lparr>mItemName := it_name item, mBaseUnit := it_base_unit item\<rparr>,
     rrBalance = \<lparr>blItem = mv_item row, blOnHand = pg_Qty D v, blOnOrder = qZero D,
       blUpdatedAt = clock_Now (ssClock s) w\<rparr>, rrStatus = status, rrDuplicate = False\<rparr>"

text \<open>(C4) A valid request for a live item, not repeated, with references that exist, storable texts
  and numbers within the columns' range: when the balance it leaves would be negative, it fails
  with the balance at hand and the quantity asked, and nothing changes. Otherwise it is booked;
  then only the recalculation of the item's status, run on the state after the booking, can still
  refuse it, with its own error and nothing changed, and without such an error the request is
  accepted with the booked row, the new balance and the recalculated status.\<close>
theorem Record_accepts_iff:
  assumes "decimal_api D" and "stock_inv st" and "validate D s w t req = Inr req'"
    and "rqType req \<noteq> TypeReversal" and "wfq D (rqQty req)" and "\<bar>qval D (rqQty req)\<bar> < 10 ^ 11"
    and "rqKey req = [] \<or> GetMovementByIdempotencyKey (tenantID t) (rqKey req) st = None"
    and "GetItem (tenantID t) (rqItem req) st = Some item" and "it_archived_at item = None"
    and "GetDefaultWarehouse (tenantID t) st = Some wh"
    and "own_balance st (tenantID t) (wh_id wh) (rqItem req)" and "request_refs_ok st (tenantID t) req"
    and "request_texts req"
  defines "delta \<equiv> qval D (signedQty D (rqType req) (rqQty req))"
  defines "after \<equiv> on_hand_of st (wh_id wh) (rqItem req) + delta"
  assumes "after < 10 ^ 11"
  shows "if after < 0
    then Record D s w t req st = (Inl (InsufficientStock (pg_Qty D (on_hand_of st (wh_id wh) (rqItem req)))
           (qAbs D (rqQty req))), st)
    else \<exists>row v st1. booked st (tenantID t) (wh_id wh) (rqItem req) delta row v st1 \<and> mv_item row = rqItem req \<and>
      Record D s w t req st = (case ssStatus s w t (rqItem req) st1 of
          Inl e \<Rightarrow> (Inl (Wrapped ''status'' e), st)
        | Inr (status, st2) \<Rightarrow> (Inr (accepted D s w item row v status), st2))"
proof -
  note V = validate_Inr[OF assms(3)]
  let ?tid = "tenantID t" and ?d = "signedQty D (rqType req) (rqQty req)"
  let ?mk = "movement_of_request D ?tid (wh_id wh) req' ?d"
  let ?book = "book D w ?tid (wh_id wh) (rqItem req) ?d (clock_Now (ssClock s) w) ?mk (qAbs D (rqQty req)) (rqQty req) st"
  have ex: "item_exists ?tid (rqItem req) st" "warehouse_exists ?tid (wh_id wh) st"
    by (rule GetItem_exists[OF assms(8)], rule GetDefaultWarehouse_exists[OF assms(10)])
  have ins: "insertable st (?mk (uuid_supply st))"
    by (rule request_insertable[OF assms(1,3,4,13,5,6,7) ex assms(12,2)])
  have mq: "mv_qty (?mk (uuid_supply st)) = qval D ?d" by (simp add: movement_of_request_def DecimalOf_qval)
  have wfd: "wfq D ?d" by (rule decimal_api.signedQty_wfq[OF assms(1,5)])
  have B: "if after < 0 then ?book = Inl (InsufficientStock (pg_Qty D (on_hand_of st (wh_id wh) (rqItem req))) (qAbs D (rqQty req)))
      else \<exists>r st'. ?book = Inr (r, st')"
    using decimal_api.book_decided[OF assms(1,2) wfd assms(11) ex, where mk = ?mk and w = w and now = "clock_Now (ssClock s) w" and asked = "qAbs D (rqQty req)" and asked' = "rqQty req", OF ins mq]
      assms(16) by (simp add: after_def delta_def)
  have "recordTx D s w t req' st = record_new D s w t req' st" using assms(7) V by (auto simp: recordTx_def)
  then have R: "Record D s w t req st = InTenantTx (record_new D s w t req') st"
    using assms(3) by (simp add: Record_def InTenantTx_def)
  show ?thesis
  proof (cases "after < 0")
    case True
    then have "?book = Inl (InsufficientStock (pg_Qty D (on_hand_of st (wh_id wh) (rqItem req))) (qAbs D (rqQty req)))"
      using B by simp
    then have "record_new D s w t req' st = Inl (InsufficientStock (pg_Qty D (on_hand_of st (wh_id wh) (rqItem req))) (qAbs D (rqQty req)))"
      using V assms(8-10) by (simp add: record_new_def Let_def tx_guard_def tx_bind_def)
    then show ?thesis using R True by (simp add: InTenantTx_def)
  next
    case False
    then obtain row v st1 where b: "?book = Inr ((row, v), st1)" using B by auto
    have rev: "reverses_ok (movements st) (?mk n)" for n by (simp add: reverses_ok_def movement_of_request_def)
    have bk: "booked st ?tid (wh_id wh) (rqItem req) delta row v st1"
      "row = (?mk (uuid_supply st))\<lparr>mv_created_at := pg_Time w, mv_occurred_at := pg_Time (mv_occurred_at (?mk (uuid_supply st)))\<rparr>"
      unfolding delta_def by (rule decimal_api.book_booked[OF assms(1) b assms(2) wfd _ _ _ _ rev];
        simp add: movement_of_request_def V)+
    have it: "mv_item row = rqItem req" using V by (simp add: bk(2) movement_of_request_def)
    have "Record D s w t req st = (case ssStatus s w t (rqItem req) st1 of
          Inl e \<Rightarrow> (Inl (Wrapped ''status'' e), st)
        | Inr (status, st2) \<Rightarrow> (Inr (accepted D s w item row v status), st2))"
      using V assms(8-10) b it unfolding R
      by (simp add: record_new_def Let_def tx_guard_def tx_bind_def tx_lift_def InTenantTx_def split: sum.splits)
    with bk(1) it False show ?thesis by auto
  qed
qed

lemma sample_valid:
  assumes "ty = TypeUsage \<or> ty = TypeReceipt"
  obtains req' where "validate dec_lib sample_service 0 sample_tenant (sample_request ty 5 ''k2'') = Inr req'"
proof -
  have "\<not> isl (validate dec_lib sample_service 0 sample_tenant (sample_request TypeUsage 5 ''k2''))"
    "\<not> isl (validate dec_lib sample_service 0 sample_tenant (sample_request TypeReceipt 5 ''k2''))" by code_simp+
  with assms show thesis by (metis isl_def sum.exhaust that)
qed

abbreviation sample_half where "sample_half ty \<equiv> sample_request ty 5 ''k2''"

definition sample_place :: warehouse_row where
  "sample_place = \<lparr>wh_id = 20, wh_tenant = 1, wh_name = ''main'', wh_created_at = 0\<rparr>"

lemma sample_half_qval: "qval dec_lib (rqQty (sample_half ty)) = 1 / 2"
  by (simp add: sample_request_def qval_def dec_lib_eq dec_val_def pow10_def)

lemma sample_request_facts:
  shows "\<bar>qval dec_lib (rqQty (sample_half ty))\<bar> < 10 ^ 11"
    and "rqKey (sample_half ty) = []
      \<or> GetMovementByIdempotencyKey (tenantID sample_tenant) (rqKey (sample_half ty)) sample_db = None"
    and "GetItem (tenantID sample_tenant) (rqItem (sample_half ty)) sample_db = Some sample_item"
    and "it_archived_at sample_item = None"
    and "GetDefaultWarehouse (tenantID sample_tenant) sample_db = Some sample_place"
    and "own_balance sample_db (tenantID sample_tenant) (wh_id sample_place) (rqItem (sample_half ty))"
    and "request_refs_ok sample_db (tenantID sample_tenant) (sample_half ty)"
    and "request_texts (sample_half ty)"
    and "on_hand_of sample_db (wh_id sample_place) (rqItem (sample_half ty)) = 0"
    and "qval dec_lib (signedQty dec_lib ty (rqQty (sample_half ty)))
      = (if Decreases ty then - (1 / 2) else 1 / 2)"
  unfolding qval_signedQty[OF sample_ok(1)] sample_half_qval
  by (simp_all add: sample_tenant_def GetItem_def GetDefaultWarehouse_def sample_db_def visible_def sample_item_def
    GetMovementByIdempotencyKey_def own_balance_def request_refs_ok_def sample_request_def request_texts_def
    valid_text_def sample_place_def on_hand_of_def)

text \<open>On an empty stock half a litre cannot be used, but can be received; and it is not received
  when the recalculation fails.\<close>
theorem Record_accepts_iff_witness:
  "sample_record TypeUsage 5 ''k2'' sample_db
     = (Inl (InsufficientStock (pg_Qty dec_lib 0) (qAbs dec_lib (Qty (Dec 5 (- 1))))), sample_db)
   \<and> (\<exists>res st'. sample_record TypeReceipt 5 ''k2'' sample_db = (Inr res, st') \<and> on_hand_of st' 20 10 = 1 / 2)
   \<and> Record dec_lib (sample_service\<lparr>ssStatus := \<lambda>_ _ _ _. Inl Panicked\<rparr>) 0 sample_tenant
       (sample_request TypeReceipt 5 ''k2'') sample_db = (Inl (Wrapped ''status'' Panicked), sample_db)"
proof -
  let ?s' = "sample_service\<lparr>ssStatus := \<lambda>_ _ _ _. Inl Panicked\<rparr>"
  obtain u where u: "validate dec_lib sample_service 0 sample_tenant (sample_half TypeUsage) = Inr u"
    using sample_valid[of TypeUsage] by blast
  obtain r where r: "validate dec_lib sample_service 0 sample_tenant (sample_half TypeReceipt) = Inr r"
    using sample_valid[of TypeReceipt] by blast
  have r': "validate dec_lib ?s' 0 sample_tenant (sample_half TypeReceipt) = Inr r"
    using r by (simp add: validate_def Let_def)
  have ty: "rqType (sample_half TypeUsage) \<noteq> TypeReversal" "rqType (sample_half TypeReceipt) \<noteq> TypeReversal"
    "rqType (sample_half ty) = ty" "Decreases TypeUsage" "\<not> Decreases TypeReceipt" for ty
    by (simp_all add: sample_request_def type_names Decreases_def)
  note F = sample_request_facts
  note num = ty F(9,10)
  note R = Record_accepts_iff[OF sample_ok(1,3) _ _ sample_ok(4) F(1-8)]
  have "sample_record TypeUsage 5 ''k2'' sample_db
     = (Inl (InsufficientStock (pg_Qty dec_lib 0) (qAbs dec_lib (rqQty (sample_half TypeUsage)))), sample_db)"
    using R[OF u ty(1)] by (simp add: num)
  moreover have "\<exists>row v st1. booked sample_db (tenantID sample_tenant) (wh_id sample_place) (rqItem (sample_half TypeReceipt)) (1 / 2) row v st1
      \<and> sample_record TypeReceipt 5 ''k2'' sample_db = (case ssStatus sample_service 0 sample_tenant (rqItem (sample_half TypeReceipt)) st1 of
          Inl e \<Rightarrow> (Inl (Wrapped ''status'' e), sample_db)
        | Inr (status, st2) \<Rightarrow> (Inr (accepted dec_lib sample_service 0 sample_item row v status), st2))"
    using R[OF r ty(2)] by (simp add: num) blast
  then obtain row v st1 where b: "booked sample_db (tenantID sample_tenant) (wh_id sample_place) (rqItem (sample_half TypeReceipt)) (1 / 2) row v st1"
    and e: "\<exists>res. sample_record TypeReceipt 5 ''k2'' sample_db = (Inr res, st1)"
    by (auto simp: sample_service_def NewStockService_def noopRecalculator_def)
  have "on_hand_of st1 (wh_id sample_place) (rqItem (sample_half TypeReceipt)) = 1 / 2"
    using b F(9) by (simp add: booked_def)
  then have "on_hand_of st1 20 10 = 1 / 2" by (simp add: sample_place_def sample_request_def)
  with e have "\<exists>res st'. sample_record TypeReceipt 5 ''k2'' sample_db = (Inr res, st') \<and> on_hand_of st' 20 10 = 1 / 2"
    by blast
  moreover have "Record dec_lib ?s' 0 sample_tenant (sample_half TypeReceipt) sample_db = (Inl (Wrapped ''status'' Panicked), sample_db)"
    using R[OF r' ty(2)] by (auto simp: num)
  ultimately show ?thesis by (simp add: sample_request_def)
qed

section \<open>Reverse\<close>

lemma checked_reversal: "movement_checks m = Inr () \<Longrightarrow> mv_type m \<noteq> TypeReversal \<Longrightarrow> mv_reverses m = None"
  by (auto simp: movement_checks_def type_names)

lemma GetMovement_in:
  assumes "GetMovement tid i st = Some m"
  shows "m \<in> set (movements st)" and "mv_tenant m = tid" and "mv_id m = i"
  using find_Some_in[OF assms[unfolded GetMovement_def]] by auto

lemma journal_row:
  assumes "stock_inv st" and "m \<in> set (movements st)"
  shows "is_numeric (mv_qty m)" and "movement_checks m = Inr ()"
  using assms by (simp_all add: stock_inv_def journal_ok_def)

lemma reversal_ok:
  assumes "stock_inv st" and "GetMovement tid i st = Some m" and "mv_type m \<noteq> TypeReversal"
    and "DecimalOf D delta = - mv_qty m"
  shows "reverses_ok (movements st) (reversal_of D s tid m delta now by_id n)"
proof -
  note m = GetMovement_in[OF assms(2)]
  have "mv_reverses m = None" using checked_reversal[OF journal_row(2)[OF assms(1) m(1)] assms(3)] .
  with m assms(4) show ?thesis by (auto simp: reverses_ok_def reversal_of_def)
qed

lemma Reverse_booked:
  assumes D: "decimal_api D" and rc: "status_recalculator (ssStatus s)" and inv: "stock_inv st"
    and r: "Reverse D s w t mid by_id others st = (Inr res, st')"
  obtains m row v st1 where
    "GetMovement (tenantID t) mid st = Some m" and "mv_type m \<noteq> TypeReversal"
    and "others \<or> mv_created_by m = Some by_id" and "GetReversalOf (tenantID t) mid st = None"
    and "booked st (tenantID t) (mv_warehouse m) (mv_item m) (- mv_qty m) row v st1"
    and "mv_tenant row = tenantID t" and "mv_item row = mv_item m" and "mv_warehouse row = mv_warehouse m"
    and "mv_type row = TypeReversal" and "mv_qty row = - mv_qty m" and "mv_reverses row = Some mid"
    and "mv_id row = uuid_supply st" and "mv_created_by row = Some by_id"
    and "stock_frame st1 st'" and "mID (rrMovement res) = mv_id row" and "blOnHand (rrBalance res) = pg_Qty D v"
    and "\<forall>other. other \<noteq> tenantID t \<longrightarrow> tenant_view other st' = tenant_view other st1"
proof -
  let ?tid = "tenantID t" and ?now = "clock_Now (ssClock s) w"
  obtain m row v st1 status where
    m: "GetMovement ?tid mid st = Some m" and ty: "mv_type m \<noteq> TypeReversal"
    and who: "others \<or> mv_created_by m = Some by_id" and prev: "GetReversalOf ?tid mid st = None"
    and b: "book D w ?tid (mv_warehouse m) (mv_item m) (qNeg D (pg_Qty D (mv_qty m))) ?now
        (reversal_of D s ?tid m (qNeg D (pg_Qty D (mv_qty m))) ?now by_id)
        (qAbs D (qNeg D (pg_Qty D (mv_qty m)))) (qAbs D (qNeg D (pg_Qty D (mv_qty m)))) st = Inr ((row, v), st1)"
    and f: "ssStatus s w t (mv_item m) st1 = Inr (status, st')"
    and res: "mID (rrMovement res) = mv_id row" "blOnHand (rrBalance res) = pg_Qty D v"
    using r by (auto simp: Reverse_def InTenantTx_Inr reverseTx_def Let_def movementFromRow_def from_opt_def
        split: prod.splits option.splits)
  note mi = GetMovement_in[OF m]
  have s3: "scale3 (mv_qty m)" using journal_row(1)[OF inv mi(1)] by (simp add: is_numeric_def)
  have qv: "qval D (qNeg D (pg_Qty D (mv_qty m))) = - mv_qty m"
    by (simp add: decimal_api.qval_ops[OF D] decimal_api.pg_Qty_val[OF D s3])
  have wf: "wfq D (qNeg D (pg_Qty D (mv_qty m)))" using s3 by (auto simp: wfq_def qv)
  note B = decimal_api.book_booked[OF D b inv wf _ _ _ _ reversal_ok[OF inv m ty]]
  have bk: "booked st ?tid (mv_warehouse m) (mv_item m) (- mv_qty m) row v st1"
    unfolding qv[symmetric] by (rule B(1)) (simp_all add: reversal_of_def DecimalOf_qval qv)
  have row: "row = (reversal_of D s ?tid m (qNeg D (pg_Qty D (mv_qty m))) ?now by_id (uuid_supply st))
      \<lparr>mv_created_at := pg_Time w, mv_occurred_at := pg_Time ?now\<rparr>"
    using B(2) by (simp add: reversal_of_def DecimalOf_qval qv)
  show thesis
    by (rule that[OF m ty who prev bk _ _ _ _ _ _ _ _ status_recalculator.recalc_frame[OF rc f] res])
      (use status_recalculator.recalc_isolated[OF rc f] in \<open>simp_all add: row reversal_of_def DecimalOf_qval qv mi(3)\<close>)
qed

text \<open>(C6) A successful \<open>Reverse\<close> appends one movement of type reversal that refers to the original
  and carries the opposite quantity: the journal keeps the original untouched, the pair nets to
  zero, and the balance of the original's place returns to what it would be without it. A
  reversal that would leave a negative balance is not possible.\<close>
theorem Reverse_books:
  assumes "decimal_api D" and "status_recalculator (ssStatus s)" and "stock_inv st"
    and "Reverse D s w t mid by_id others st = (Inr res, st')"
  shows "\<exists>m row. m \<in> set (movements st) \<and> mv_tenant m = tenantID t \<and> mv_id m = mid
      \<and> (others \<or> mv_created_by m = Some by_id)
      \<and> movements st' = movements st @ [row] \<and> mv_type row = TypeReversal \<and> mv_reverses row = Some mid
      \<and> mv_qty row + mv_qty m = 0
      \<and> (\<forall>a i. on_hand_of st' a i = on_hand_of st a i - (if a = mv_warehouse m \<and> i = mv_item m then mv_qty m else 0))
      \<and> 0 \<le> on_hand_of st' (mv_warehouse m) (mv_item m) \<and> stock_inv st'"
proof -
  obtain m row v st1 where
    m: "GetMovement (tenantID t) mid st = Some m" "mv_type m \<noteq> TypeReversal"
    "others \<or> mv_created_by m = Some by_id" "GetReversalOf (tenantID t) mid st = None"
    and b: "booked st (tenantID t) (mv_warehouse m) (mv_item m) (- mv_qty m) row v st1"
    and row: "mv_tenant row = tenantID t" "mv_item row = mv_item m" "mv_warehouse row = mv_warehouse m"
    "mv_type row = TypeReversal" "mv_qty row = - mv_qty m" "mv_reverses row = Some mid"
    "mv_id row = uuid_supply st" "mv_created_by row = Some by_id"
    and f: "stock_frame st1 st'" "mID (rrMovement res) = mv_id row" "blOnHand (rrBalance res) = pg_Qty D v"
    "\<forall>other. other \<noteq> tenantID t \<longrightarrow> tenant_view other st' = tenant_view other st1"
    by (rule Reverse_booked[OF assms])
  show ?thesis
    by (intro exI[of _ m] exI[of _ row])
      (use b row m GetMovement_in[OF m(1)] booked_inv[OF b f(1)] in \<open>simp add: booked_def frame_stock[OF f(1)]\<close>)
qed

lemma GetMovement_unique:
  assumes "stock_inv st" and "m \<in> set (movements st)"
  shows "GetMovement (mv_tenant m) (mv_id m) st = Some m"
proof -
  have d: "distinct (map mv_id (movements st))" using assms(1) by (simp add: stock_inv_def journal_ok_def)
  obtain y where y: "find (\<lambda>r. mv_id r = mv_id m) (visible (mv_tenant m) mv_tenant (movements st)) = Some y"
    using find_not_None[of m "visible (mv_tenant m) mv_tenant (movements st)"] assms(2) by force
  then have "y \<in> set (movements st)" "mv_id y = mv_id m" using find_Some_in[OF y] by auto
  then have "y = m" using d assms(2) by (metis distinct_map inj_onD)
  with y show ?thesis by (simp add: GetMovement_def)
qed

text \<open>(C7) A movement is reversed at most once: after a successful reversal every further attempt,
  by whomever is allowed to reverse it, is refused as already reversed, and the reversal itself
  can never be reversed; the refused attempts change nothing.\<close>
theorem Reverse_once:
  assumes "decimal_api D" and "status_recalculator (ssStatus s)" and "stock_inv st"
    and "Reverse D s w t mid by_id others st = (Inr res, st')"
  shows "Reverse D s w' t mid u True st' = (Inl ErrAlreadyReversed, st')
    \<and> Reverse D s w' t (mID (rrMovement res)) u others' st' = (Inl ErrCannotReverse, st')"
proof -
  obtain m row v st1 where
    m: "GetMovement (tenantID t) mid st = Some m" "mv_type m \<noteq> TypeReversal"
    "others \<or> mv_created_by m = Some by_id" "GetReversalOf (tenantID t) mid st = None"
    and b: "booked st (tenantID t) (mv_warehouse m) (mv_item m) (- mv_qty m) row v st1"
    and row: "mv_tenant row = tenantID t" "mv_item row = mv_item m" "mv_warehouse row = mv_warehouse m"
    "mv_type row = TypeReversal" "mv_qty row = - mv_qty m" "mv_reverses row = Some mid"
    "mv_id row = uuid_supply st" "mv_created_by row = Some by_id"
    and f: "stock_frame st1 st'" "mID (rrMovement res) = mv_id row" "blOnHand (rrBalance res) = pg_Qty D v"
    "\<forall>other. other \<noteq> tenantID t \<longrightarrow> tenant_view other st' = tenant_view other st1"
    by (rule Reverse_booked[OF assms])
  have inv': "stock_inv st'" by (rule booked_inv[OF b f(1)])
  have mv: "movements st' = movements st @ [row]" using b by (simp add: booked_def frame_stock[OF f(1)])
  note mi = GetMovement_in[OF m(1)]
  have g1: "GetMovement (tenantID t) mid st' = Some m"
    using GetMovement_unique[OF inv', of m] mi by (simp add: mv)
  have g2: "GetMovement (tenantID t) (mID (rrMovement res)) st' = Some row"
    using GetMovement_unique[OF inv', of row] row f(2) by (simp add: mv)
  obtain y where "GetReversalOf (tenantID t) mid st' = Some y"
    using find_not_None[of row "visible (tenantID t) mv_tenant (movements st')"] row
    by (force simp: GetReversalOf_def mv)
  then show ?thesis
    using g1 g2 m(2) row(4)
    by (simp add: Reverse_def InTenantTx_def reverseTx_def Let_def tx_bind_def tx_guard_def)
qed

lemma on_hand_nonneg: "stock_inv st \<Longrightarrow> 0 \<le> on_hand_of st w i"
proof -
  assume "stock_inv st"
  then have "balances_ok (balances st)" by (simp add: stock_inv_def)
  then show ?thesis by (auto simp: balances_ok_def on_hand_of_def split: option.splits dest!: find_Some_in)
qed

text \<open>Whether a reversal is accepted depends on the balance alone, once the movement may be reversed.\<close>

lemma int_digits_text: "c \<in> set (int_digits n) \<Longrightarrow> (of_char c :: nat) \<noteq> 0 \<and> (of_char c :: nat) < 128"
proof (induction n rule: int_digits.induct)
  case (1 n)
  then show ?case by (cases "n < 10") (auto simp: int_digits.simps[of n])
qed

lemma append_int_text: "\<forall>c \<in> set (append_int x w). (of_char c :: nat) \<noteq> 0 \<and> (of_char c :: nat) < 128"
  by (auto simp: append_int_def pad_digits_def Let_def split: if_splits dest!: int_digits_text)

lemma reversal_comment_text: "valid_text (reversal_prefix @ format_minute i loc)"
proof -
  have "utf8_valid (map of_char reversal_prefix)" by code_simp
  then have "valid_text reversal_prefix" by (simp add: valid_text_def)
  moreover have "valid_text (format_minute i loc)"
    unfolding format_minute_def using append_int_text by (intro valid_text_ascii) (auto split: prod.splits)
  ultimately show ?thesis by (simp add: valid_text_append)
qed

lemma reversal_insertable:
  assumes D: "decimal_api D" and inv: "stock_inv st" and m: "GetMovement tid mid st = Some m"
    and prev: "GetReversalOf tid mid st = None"
    and ex: "item_exists tid (mv_item m) st" "warehouse_exists tid (mv_warehouse m) st"
    and rtext: "nullable_text (mv_reason m)"
  shows "insertable st (reversal_of D s tid m (qNeg D (pg_Qty D (mv_qty m))) now by_id (uuid_supply st))"
    and "mv_qty (reversal_of D s tid m (qNeg D (pg_Qty D (mv_qty m))) now by_id (uuid_supply st))
      = qval D (qNeg D (pg_Qty D (mv_qty m)))"
    and "qval D (qNeg D (pg_Qty D (mv_qty m))) = - mv_qty m"
proof -
  let ?d = "qNeg D (pg_Qty D (mv_qty m))"
  let ?r = "reversal_of D s tid m ?d now by_id (uuid_supply st)"
  note mi = GetMovement_in[OF m]
  have n: "is_numeric (mv_qty m)" "movement_checks m = Inr ()" using journal_row[OF inv mi(1)] by simp_all
  then have s3: "scale3 (mv_qty m)" by (simp add: is_numeric_def)
  show qv: "qval D ?d = - mv_qty m"
    by (simp add: decimal_api.qval_ops[OF D] decimal_api.pg_Qty_val[OF D s3])
  show "mv_qty ?r = qval D ?d" by (simp add: reversal_of_def DecimalOf_qval)
  have nz: "mv_qty m \<noteq> 0" using n(2) by (auto simp: movement_checks_def)
  have "is_numeric (mv_qty ?r)" using n(1) by (auto simp: is_numeric_def reversal_of_def DecimalOf_qval qv)
  moreover have "movement_checks ?r = Inr ()"
    using nz by (simp add: movement_checks_def reversal_of_def DecimalOf_qval qv movement_sign_ok_def
        writeoff_reason_ok_def type_names)
  moreover have "movement_unique ?r st = Inr ()"
  proof -
    have "\<not> list_ex (\<lambda>x. mv_id x = mv_id ?r) (movements st)"
      using inv by (auto simp: stock_inv_def list_ex_iff reversal_of_def)
    moreover have "\<not> list_ex (\<lambda>x. mv_tenant x = mv_tenant ?r \<and> mv_reverses x = mv_reverses ?r) (movements st)"
      using prev mi(3) by (auto simp: reversal_of_def GetReversalOf_def find_None_all list_ex_iff)
    moreover have "mv_idempotency_key ?r = None" by (simp add: reversal_of_def)
    ultimately show ?thesis by (simp add: movement_unique_def)
  qed
  moreover have "movement_references ?r st = Inr ()"
  proof -
    have "movement_exists tid (mv_id m) st" using mi by (auto simp: movement_exists_def list_ex_iff)
    then show ?thesis using ex by (simp add: movement_references_def reversal_of_def Let_def bindE_def)
  qed
  moreover have "movement_texts ?r"
    using rtext by (simp add: movement_texts_def reversal_of_def reversal_comment_text)
  ultimately show "insertable st ?r" by (simp add: insertable_def)
qed

lemma reverse_decided:
  assumes "decimal_api D" and "stock_inv st" and "GetMovement (tenantID t) mid st = Some m"
    and "mv_type m \<noteq> TypeReversal" and "others \<or> mv_created_by m = Some by_id"
    and "GetReversalOf (tenantID t) mid st = None"
    and "item_exists (tenantID t) (mv_item m) st" and "warehouse_exists (tenantID t) (mv_warehouse m) st"
    and "own_balance st (tenantID t) (mv_warehouse m) (mv_item m)"
    and "\<And>st. \<exists>r. ssStatus s w t (mv_item m) st = Inr r" and "nullable_text (mv_reason m)"
  defines "after \<equiv> on_hand_of st (mv_warehouse m) (mv_item m) - mv_qty m"
  assumes "after < 10 ^ 11"
  shows "if after < 0
    then \<exists>asked. qval D asked = mv_qty m \<and> Reverse D s w t mid by_id others st =
      (Inl (InsufficientStock (pg_Qty D (on_hand_of st (mv_warehouse m) (mv_item m))) asked), st)
    else \<exists>res st'. Reverse D s w t mid by_id others st = (Inr res, st')"
proof -
  let ?tid = "tenantID t" and ?d = "qNeg D (pg_Qty D (mv_qty m))" and ?now = "clock_Now (ssClock s) w"
  let ?mk = "reversal_of D s ?tid m ?d ?now by_id"
  let ?h = "on_hand_of st (mv_warehouse m) (mv_item m)"
  let ?book = "book D w ?tid (mv_warehouse m) (mv_item m) ?d ?now ?mk (qAbs D ?d) (qAbs D ?d) st"
  have I: "insertable st (?mk (uuid_supply st))" "mv_qty (?mk (uuid_supply st)) = qval D ?d" "qval D ?d = - mv_qty m"
    by (rule reversal_insertable[OF assms(1-3,6-8,11)])+
  have wf: "wfq D ?d" using journal_row(1)[OF assms(2) GetMovement_in(1)[OF assms(3)]]
    by (auto simp: wfq_def I(3) is_numeric_def)
  have B: "if after < 0 then ?book = Inl (InsufficientStock (pg_Qty D ?h) (qAbs D ?d)) else \<exists>r st'. ?book = Inr (r, st')"
    using decimal_api.book_decided[OF assms(1,2) wf assms(9,7,8), where mk = ?mk and w = w and now = ?now
        and asked = "qAbs D ?d" and asked' = "qAbs D ?d", OF I(1,2)] assms(13) by (simp add: after_def I(3))
  show ?thesis
  proof (cases "after < 0")
    case True
    then have "?book = Inl (InsufficientStock (pg_Qty D ?h) (qAbs D ?d))" using B by simp
    then have "Reverse D s w t mid by_id others st = (Inl (InsufficientStock (pg_Qty D ?h) (qAbs D ?d)), st)"
      using assms(3-6) by (simp add: Reverse_def InTenantTx_def reverseTx_def Let_def tx_bind_def tx_guard_def)
    moreover have "0 \<le> ?h" by (rule on_hand_nonneg[OF assms(2)])
    then have "qval D (qAbs D ?d) = mv_qty m"
      using True by (simp add: decimal_api.qval_ops(8)[OF assms(1)] I(3) after_def)
    ultimately show ?thesis using True by auto
  next
    case False
    then obtain row v st1 where b: "?book = Inr ((row, v), st1)" using B by auto
    obtain status st2 where s: "ssStatus s w t (mv_item m) st1 = Inr (status, st2)" using assms(10)[of st1] by auto
    have "\<exists>res. Reverse D s w t mid by_id others st = (Inr res, st2)"
      using assms(3-6) b s by (simp add: Reverse_def InTenantTx_def reverseTx_def Let_def tx_bind_def tx_guard_def tx_lift_def)
    then show ?thesis using False by auto
  qed
qed

text \<open>A movement that is no reversal, not yet reversed and within the caller's rights is
  reversed if and only if the balance stays non-negative without it; a receipt that is already
  used up is refused with the balance at hand, and nothing changes.\<close>
theorem Reverse_accepts_iff:
  assumes "decimal_api D" and "stock_inv st" and "GetMovement (tenantID t) mid st = Some m"
    and "mv_type m \<noteq> TypeReversal" and "others \<or> mv_created_by m = Some by_id"
    and "GetReversalOf (tenantID t) mid st = None"
    and "item_exists (tenantID t) (mv_item m) st" and "warehouse_exists (tenantID t) (mv_warehouse m) st"
    and "own_balance st (tenantID t) (mv_warehouse m) (mv_item m)"
    and "\<And>st. \<exists>r. ssStatus s w t (mv_item m) st = Inr r" and "nullable_text (mv_reason m)"
  defines "after \<equiv> on_hand_of st (mv_warehouse m) (mv_item m) - mv_qty m"
  assumes "after < 10 ^ 11"
  shows "if after < 0
    then \<exists>asked. qval D asked = mv_qty m \<and> Reverse D s w t mid by_id others st =
      (Inl (InsufficientStock (pg_Qty D (on_hand_of st (mv_warehouse m) (mv_item m))) asked), st)
    else \<exists>res st'. Reverse D s w t mid by_id others st = (Inr res, st')"
  unfolding after_def by (rule reverse_decided[OF assms(1-11) assms(13)[unfolded after_def]])

definition sample_movement :: movement_row where
  "sample_movement = \<lparr>mv_id = 50, mv_tenant = 1, mv_warehouse = 20, mv_item = 10, mv_type = TypeReceipt,
     mv_qty = 3 / 2, mv_occurred_at = 0, mv_created_at = 0, mv_created_by = None, mv_reason = None,
     mv_comment = [], mv_order = None, mv_count = None, mv_reverses = None, mv_idempotency_key = None\<rparr>"

definition sample_stocked :: "dec db" where
  "sample_stocked = sample_db\<lparr>movements := [sample_movement],
     balances := [\<lparr>ba_tenant = 1, ba_warehouse = 20, ba_item = 10, ba_on_hand = 3 / 2, ba_updated_at = 0\<rparr>]\<rparr>"

lemma sample_stocked_inv: "stock_inv sample_stocked"
  by (simp add: stock_inv_def journal_ok_def balances_ok_def sample_stocked_def sample_movement_def
      sample_db_def on_hand_of_def journal_def is_numeric_def has_scale_def movement_checks_def
      reverses_ok_def movement_sign_ok_def writeoff_reason_ok_def type_names balance_key_def)

abbreviation sample_reverse where
  "sample_reverse \<equiv> Reverse dec_lib sample_service 0 sample_tenant 50 7 True"

lemma sample_stocked_facts:
  shows "GetMovement (tenantID sample_tenant) 50 sample_stocked = Some sample_movement"
    and "mv_type sample_movement \<noteq> TypeReversal"
    and "True \<or> mv_created_by sample_movement = Some 7"
    and "GetReversalOf (tenantID sample_tenant) 50 sample_stocked = None"
    and "item_exists (tenantID sample_tenant) (mv_item sample_movement) sample_stocked"
    and "warehouse_exists (tenantID sample_tenant) (mv_warehouse sample_movement) sample_stocked"
    and "own_balance sample_stocked (tenantID sample_tenant) (mv_warehouse sample_movement) (mv_item sample_movement)"
    and "\<And>st. \<exists>r. ssStatus sample_service 0 sample_tenant (mv_item sample_movement) st = Inr r"
    and "nullable_text (mv_reason sample_movement)"
    and "on_hand_of sample_stocked (mv_warehouse sample_movement) (mv_item sample_movement) - mv_qty sample_movement = 0"
    and "on_hand_of sample_stocked 20 10 = 3 / 2"
  by (simp_all add: sample_tenant_def GetMovement_def GetReversalOf_def sample_db_def visible_def
      sample_item_def item_exists_def warehouse_exists_def sample_stocked_def sample_movement_def type_names
      own_balance_def sample_service_def NewStockService_def noopRecalculator_def on_hand_of_def balance_key_def)

lemma sample_reversal: obtains res st' where "sample_reverse sample_stocked = (Inr res, st')"
  using reverse_decided[OF sample_ok(1) sample_stocked_inv sample_stocked_facts(1-9)] sample_stocked_facts(10) by auto

theorem Reverse_accepts_iff_witness: "\<exists>res st'. sample_reverse sample_stocked = (Inr res, st')"
  using Reverse_accepts_iff[OF sample_ok(1) sample_stocked_inv sample_stocked_facts(1-9)] sample_stocked_facts(10) by simp

theorem Reverse_books_witness:
  "\<exists>res st'. sample_reverse sample_stocked = (Inr res, st')
     \<and> length (movements st') = 2 \<and> on_hand_of st' 20 10 = 0"
proof -
  obtain res st' where r: "sample_reverse sample_stocked = (Inr res, st')" by (rule sample_reversal)
  from Reverse_books[OF sample_ok(1,2) sample_stocked_inv r] r sample_stocked_facts(11) show ?thesis
    by (auto simp: sample_stocked_def sample_movement_def)
qed

theorem Reverse_once_witness:
  "\<exists>res st'. sample_reverse sample_stocked = (Inr res, st')
     \<and> sample_reverse st' = (Inl ErrAlreadyReversed, st')"
proof -
  obtain res st' where r: "sample_reverse sample_stocked = (Inr res, st')" by (rule sample_reversal)
  from Reverse_once[OF sample_ok(1,2) sample_stocked_inv r] r show ?thesis by blast
qed

end
