(* ===== verification/Stock_Query.thy ===== *)
theory Stock_Query
  imports Reversal Cursor
begin

text \<open>
  \<open>internal/stock/query.go\<close>: the pages of the movement journal, balances, and the reconciliation
  of the balances with the journal. Nothing here writes; the state is returned all the same,
  because every query runs in a transaction of the tenant. A map that the code ranges over is a
  list, so an order the language leaves open is the order of that list here.
\<close>

section \<open>The journal by pages\<close>

definition DefaultPageSize :: int where "DefaultPageSize = 50"
definition MaxPageSize :: int where "MaxPageSize = 200"

record list_filter =
  lfItem :: "uuid option"
  lfType :: "movement_type option"
  lfAuthor :: "uuid option"
  lfFrom :: "instant option"
  lfTo :: "instant option"
  lfCursor :: string
  lfLimit :: int

record 'd page =
  pgItems :: "'d movement list"
  NextCursor :: string

definition page_limit :: "list_filter \<Rightarrow> int" where
  "page_limit f = (let limit = (if lfLimit f \<le> 0 then DefaultPageSize else lfLimit f)
     in if MaxPageSize < limit then MaxPageSize else limit)"

definition query_filter :: "list_filter \<Rightarrow> (instant \<times> uuid) option \<Rightarrow> movement_filter" where
  "query_filter f cursor = \<lparr>flItem = lfItem f, flType = lfType f, flAuthor = lfAuthor f,
     flFrom = lfFrom f, flTo = lfTo f, flCursor = cursor\<rparr>"

text \<open>The loop over the rows; the access to the last item of an empty page would be a panic.\<close>

fun page_loop :: "'d decimal_lib \<Rightarrow> uuid_lib \<Rightarrow> int \<Rightarrow> int \<Rightarrow> 'd movement list \<Rightarrow> movement_list_row list \<Rightarrow>
    'd app_error + 'd page" where
  "page_loop D U limit i shown [] = Inr \<lparr>pgItems = shown, NextCursor = []\<rparr>"
| "page_loop D U limit i shown (row # rows) = (if i = limit then
       (if shown = [] then Inl Panicked else
        Inr \<lparr>pgItems = shown, NextCursor = encodeCursor U (mOccurredAt (last shown)) (mID (last shown))\<rparr>)
     else page_loop D U limit (i + 1) (shown @ [movementFromListRow D row]) rows)"

definition ListMovements :: "'d decimal_lib \<Rightarrow> uuid_lib \<Rightarrow> tenant \<Rightarrow> list_filter \<Rightarrow> 'd db \<Rightarrow>
    ('d app_error + 'd page) \<times> 'd db" where
  "ListMovements D U t f st = (let limit = page_limit f in
     case decodeCursor U (lfCursor f) of None \<Rightarrow> (Inl ErrBadCursor, st)
     | Some cursor \<Rightarrow>
       (case InTenantTx (tx_get (ListMovements_q (tenantID t) (query_filter f cursor) (limit + 1))) st of
          (Inl e, st') \<Rightarrow> (Inl e, st')
        | (Inr rows, st') \<Rightarrow> (page_loop D U limit 0 [] rows, st')))"

section \<open>Balances\<close>

definition stock_GetBalance :: "'d decimal_lib \<Rightarrow> tenant \<Rightarrow> uuid \<Rightarrow> 'd db \<Rightarrow> ('d app_error + 'd balance) \<times> 'd db" where
  "stock_GetBalance D t iid st = InTenantTx (readBalance D (tenantID t) iid) st"

fun balance_map :: "'d decimal_lib \<Rightarrow> balance_row list \<Rightarrow> (uuid \<rightharpoonup> 'd balance) \<Rightarrow> (uuid \<rightharpoonup> 'd balance)" where
  "balance_map D [] out = out"
| "balance_map D (row # rows) out = balance_map D rows (out(ba_item row \<mapsto>
     \<lparr>blItem = ba_item row, blOnHand = pg_Qty D (ba_on_hand row), blOnOrder = qZero D,
      blUpdatedAt = ba_updated_at row\<rparr>))"

definition ListBalances :: "'d decimal_lib \<Rightarrow> tenant \<Rightarrow> 'd db \<Rightarrow> ('d app_error + (uuid \<rightharpoonup> 'd balance)) \<times> 'd db" where
  "ListBalances D t st = InTenantTx (tx_get (\<lambda>st. balance_map D (ListBalances_q (tenantID t) st) Map.empty)) st"

section \<open>Reconciliation\<close>

record 'd drift =
  drItem :: uuid
  drJournal :: "'d qty"
  drBalance :: "'d qty"

text \<open>\<open>expected\<close> is the map from items to their sums; a missing entry reads as the zero row.\<close>

fun drift_loop :: "'d decimal_lib \<Rightarrow> (uuid \<times> rat) list \<Rightarrow> balance_row list \<Rightarrow> 'd drift list \<times> (uuid \<times> rat) list" where
  "drift_loop D expected [] = ([], expected)"
| "drift_loop D expected (b # bs) = (let
       want = (case map_of expected (ba_item b) of None \<Rightarrow> qFromDecimal D (dZero D) | Some r \<Rightarrow> pg_Qty D r);
       got = pg_Qty D (ba_on_hand b);
       (drifts, rest) = drift_loop D (filter (\<lambda>e. fst e \<noteq> ba_item b) expected) bs
     in ((if \<not> qEqual D want got then [\<lparr>drItem = ba_item b, drJournal = want, drBalance = got\<rparr>] else []) @ drifts,
         rest))"

definition rest_drifts :: "'d decimal_lib \<Rightarrow> (uuid \<times> rat) list \<Rightarrow> 'd drift list" where
  "rest_drifts D rest = map (\<lambda>(i, r). \<lparr>drItem = i, drJournal = pg_Qty D r, drBalance = qZero D\<rparr>)
     (filter (\<lambda>(i, r). \<not> qIsZero D (pg_Qty D r)) rest)"

definition Reconcile :: "'d decimal_lib \<Rightarrow> tenant \<Rightarrow> 'd db \<Rightarrow> ('d app_error + 'd drift list) \<times> 'd db" where
  "Reconcile D t = InTenantTx (tx_bind (tx_get (SumMovementsByItem (tenantID t))) (\<lambda>totals.
     tx_bind (tx_get (ListBalances_q (tenantID t))) (\<lambda>bals.
     case drift_loop D totals bals of (drifts, rest) \<Rightarrow> tx_return (drifts @ rest_drifts D rest))))"

definition drift_String :: "'d decimal_lib \<Rightarrow> uuid_lib \<Rightarrow> 'd drift \<Rightarrow> string" where
  "drift_String D U d = utf8 [1087, 1086, 1079, 1080, 1094, 1080, 1103, 32] @ uString U (drItem d) @
     utf8 [58, 32, 1078, 1091, 1088, 1085, 1072, 1083, 32] @ qString D (drJournal d) @
     utf8 [44, 32, 1086, 1089, 1090, 1072, 1090, 1086, 1082, 32] @ qString D (drBalance d)"

section \<open>What the pages contain\<close>

definition movement_key :: "movement_row \<Rightarrow> instant \<times> uuid" where
  "movement_key m = (mv_occurred_at m, mv_id m)"

text \<open>The whole list behind the pages: matching movements, latest first.\<close>

definition matching :: "uuid \<Rightarrow> list_filter \<Rightarrow> 'd db \<Rightarrow> movement_row list" where
  "matching tid f st = rev (sort_key movement_key
     (filter (filter_matches (query_filter f None)) (visible tid mv_tenant (movements st))))"

definition journal_rows :: "uuid \<Rightarrow> list_filter \<Rightarrow> 'd db \<Rightarrow> movement_list_row list" where
  "journal_rows tid f st = concat (map (join_movement tid st) (matching tid f st))"

lemma page_limit_bounds: "1 \<le> page_limit f \<and> page_limit f \<le> 200"
  by (simp add: page_limit_def Let_def DefaultPageSize_def MaxPageSize_def)

lemma lrRow_join: "r \<in> set (join_movement tid st m) \<Longrightarrow> lrRow r = m"
  by (auto simp: join_movement_def split: option.splits)

lemma filter_join:
  "filter (\<lambda>r. P (lrRow r)) (concat (map (join_movement tid st) ms)) = concat (map (join_movement tid st) (filter P ms))"
proof (induction ms)
  case (Cons m ms)
  have "filter (\<lambda>r. P (lrRow r)) (join_movement tid st m) = (if P m then join_movement tid st m else [])"
    by (auto simp: join_movement_def split: option.splits)
  with Cons show ?case by simp
qed simp

lemma query_rows:
  "ListMovements_q tid (query_filter f cursor) n st =
     take (nat n) (filter (\<lambda>r. before_cursor cursor (lrRow r)) (journal_rows tid f st))"
proof -
  have m: "filter_matches (query_filter f cursor) = filter_matches (query_filter f None)"
    by (simp add: fun_eq_iff filter_matches_def query_filter_def)
  have c: "flCursor (query_filter f cursor) = cursor" by (simp add: query_filter_def)
  have k: "(\<lambda>m. (mv_occurred_at m, mv_id m)) = movement_key" by (simp add: fun_eq_iff movement_key_def)
  have s: "rev (sort_key movement_key (filter (\<lambda>m. filter_matches (query_filter f None) m \<and> before_cursor cursor m) V))
      = filter (before_cursor cursor) (rev (sort_key movement_key (filter (filter_matches (query_filter f None)) V)))" for V
    by (simp add: filter_sort conj_commute flip: rev_filter)
  show ?thesis
    unfolding ListMovements_q_def m c k journal_rows_def filter_join matching_def s ..
qed

lemma sorted_desc_filter:
  assumes "sorted_wrt (\<lambda>a b. k b < (k a :: 'b :: linorder)) xs" and "n < length xs"
  shows "filter (\<lambda>x. k x < k (xs ! n)) xs = drop (Suc n) xs"
  using assms
proof (induction xs arbitrary: n)
  case (Cons x xs)
  show ?case
  proof (cases n)
    case 0
    then have "filter (\<lambda>y. k y < k x) xs = xs" using Cons.prems(1) by (simp add: filter_id_conv)
    then show ?thesis using 0 by simp
  next
    case (Suc m)
    then have "k (xs ! m) < k x" using Cons.prems by (simp add: nth_mem)
    then have "\<not> k x < k (xs ! m)" by (simp only: not_less order.strict_implies_order)
    then show ?thesis using Suc Cons by simp
  qed
qed simp

lemma sorted_wrt_distinct: "sorted_wrt R xs \<Longrightarrow> (\<And>x. \<not> R x x) \<Longrightarrow> distinct xs"
  by (induction xs) auto

lemma matching_sorted:
  assumes "stock_inv st"
  shows "sorted_wrt (\<lambda>a b. movement_key b < movement_key a) (matching tid f st)"
proof -
  let ?ms = "filter (filter_matches (query_filter f None)) (visible tid mv_tenant (movements st))"
  have "distinct (map mv_id (movements st))" using assms by (simp add: stock_inv_def journal_ok_def)
  then have "distinct (map movement_key (movements st))"
    by (auto simp: distinct_map inj_on_def movement_key_def)
  then have "distinct (map movement_key ?ms)" by (simp add: visible_def distinct_map_filter)
  then have "distinct (map movement_key (sort_key movement_key ?ms))"
    by (metis distinct_map distinct_sort set_sort)
  then have "sorted_wrt (<) (map movement_key (sort_key movement_key ?ms))"
    by (simp add: strict_sorted_iff)
  then show ?thesis by (simp add: matching_def sorted_wrt_rev sorted_wrt_map)
qed

lemma sorted_wrt_join:
  assumes "sorted_wrt R ms"
  shows "sorted_wrt (\<lambda>a b. R (lrRow a) (lrRow b)) (concat (map (join_movement tid st) ms))"
  using assms
proof (induction ms)
  case (Cons m ms)
  have "sorted_wrt (\<lambda>a b. R (lrRow a) (lrRow b)) (join_movement tid st m)"
    by (simp add: join_movement_def split: option.split)
  with Cons show ?case by (auto simp: sorted_wrt_append dest!: lrRow_join)
qed simp

lemma page_loop_take:
  assumes "i = int (length shown)" and "i \<le> limit" and "0 < limit"
  shows "page_loop D U limit i shown rows = Inr (let pg = shown @ map (movementFromListRow D) (take (nat (limit - i)) rows) in
     \<lparr>pgItems = pg, NextCursor = (if int (length rows) + i \<le> limit then []
        else encodeCursor U (mOccurredAt (last pg)) (mID (last pg)))\<rparr>)"
  using assms
proof (induction rows arbitrary: i shown)
  case (Cons row rows)
  show ?case
  proof (cases "i = limit")
    case True
    then show ?thesis using Cons.prems by auto
  next
    case False
    then have "nat (limit - i) = Suc (nat (limit - (i + 1)))" using Cons.prems(2) by simp
    moreover have "page_loop D U limit (i + 1) (shown @ [movementFromListRow D row]) rows = Inr (let pg =
        (shown @ [movementFromListRow D row]) @ map (movementFromListRow D) (take (nat (limit - (i + 1))) rows) in
        \<lparr>pgItems = pg, NextCursor = (if int (length rows) + (i + 1) \<le> limit then []
        else encodeCursor U (mOccurredAt (last pg)) (mID (last pg)))\<rparr>)"
      using Cons.prems False by (intro Cons.IH) auto
    ultimately show ?thesis using False by (simp add: Let_def algebra_simps)
  qed
qed (simp add: Let_def)

section \<open>The journal is covered once\<close>

text \<open>A client that follows the cursors, for at most \<open>n\<close> pages.\<close>

fun pages :: "'d decimal_lib \<Rightarrow> uuid_lib \<Rightarrow> tenant \<Rightarrow> nat \<Rightarrow> list_filter \<Rightarrow> 'd db \<Rightarrow> 'd movement list option" where
  "pages D U t 0 f st = None"
| "pages D U t (Suc n) f st = (case ListMovements D U t f st of
       (Inl e, _) \<Rightarrow> None
     | (Inr p, st') \<Rightarrow> if NextCursor p = [] then Some (pgItems p)
         else map_option ((@) (pgItems p)) (pages D U t n (f\<lparr>lfCursor := NextCursor p\<rparr>) st'))"

text \<open>Stored moments: whole microseconds of years that have four digits; and the items of the
  journal exist, which the foreign key keeps.\<close>

definition journal_stored :: "'d db \<Rightarrow> bool" where
  "journal_stored st \<longleftrightarrow> (\<forall>m \<in> set (movements st). cursor_time (mv_occurred_at m)
     \<and> pg_Time (mv_occurred_at m) = mv_occurred_at m \<and> item_exists (mv_tenant m) (mv_item m) st)"

lemma encode_nonempty: "encodeCursor U t i \<noteq> []"
  unfolding encodeCursor_def by (rule Encode_nonempty) simp

lemma ListMovements_page:
  assumes "decodeCursor U (lfCursor f) = Some cursor"
  shows "ListMovements D U t f st = (Inr (let
      rows = filter (\<lambda>r. before_cursor cursor (lrRow r)) (journal_rows (tenantID t) f st);
      pg = map (movementFromListRow D) (take (nat (page_limit f)) rows) in
     \<lparr>pgItems = pg, NextCursor = (if int (length rows) \<le> page_limit f then []
        else encodeCursor U (mOccurredAt (last pg)) (mID (last pg)))\<rparr>), st)"
proof -
  let ?rows = "filter (\<lambda>r. before_cursor cursor (lrRow r)) (journal_rows (tenantID t) f st)"
  have l: "1 \<le> page_limit f" using page_limit_bounds by blast
  have "nat (page_limit f + 1) = Suc (nat (page_limit f))" using l by simp
  then have "take (nat (page_limit f)) (take (nat (page_limit f + 1)) ?rows) = take (nat (page_limit f)) ?rows"
    by simp
  moreover have "int (length (take (nat (page_limit f + 1)) ?rows)) \<le> page_limit f \<longleftrightarrow> int (length ?rows) \<le> page_limit f"
    using l by (simp add: min_def) linarith
  ultimately show ?thesis
    using assms l by (simp add: ListMovements_def InTenantTx_def query_rows page_loop_take Let_def)
qed

lemma journal_rows_cursor [simp]: "journal_rows tid (f\<lparr>lfCursor := c\<rparr>) st = journal_rows tid f st"
  by (simp add: journal_rows_def matching_def query_filter_def)

lemma page_limit_cursor [simp]: "page_limit (f\<lparr>lfCursor := c\<rparr>) = page_limit f"
  by (simp add: page_limit_def)

text \<open>The cursor after \<open>k\<close> rows leaves the rest.\<close>

lemma rows_after:
  assumes "stock_inv st" and "journal_stored st" and "uuid_text U" and "k < length (journal_rows tid f st)"
    and "r = journal_rows tid f st ! k"
  shows "decodeCursor U (encodeCursor U (mv_occurred_at (lrRow r)) (mv_id (lrRow r))) =
      Some (Some (mv_occurred_at (lrRow r), mv_id (lrRow r)))"
    and "filter (\<lambda>x. before_cursor (Some (mv_occurred_at (lrRow r), mv_id (lrRow r))) (lrRow x)) (journal_rows tid f st)
      = drop (Suc k) (journal_rows tid f st)"
proof -
  let ?L = "journal_rows tid f st"
  have "r \<in> set ?L" using assms(4,5) by simp
  then have "lrRow r \<in> set (movements st)" by (auto simp: journal_rows_def matching_def dest!: lrRow_join)
  then have t: "cursor_time (mv_occurred_at (lrRow r))" "pg_Time (mv_occurred_at (lrRow r)) = mv_occurred_at (lrRow r)"
    using assms(2) by (auto simp: journal_stored_def)
  show "decodeCursor U (encodeCursor U (mv_occurred_at (lrRow r)) (mv_id (lrRow r))) =
      Some (Some (mv_occurred_at (lrRow r), mv_id (lrRow r)))"
    by (rule decode_encode[OF assms(3) t(1)])
  have "sorted_wrt (\<lambda>a b. movement_key (lrRow b) < movement_key (lrRow a)) ?L"
    unfolding journal_rows_def by (rule sorted_wrt_join) (rule matching_sorted[OF assms(1)])
  from sorted_desc_filter[OF this assms(4)] t(2) assms(5)
  show "filter (\<lambda>x. before_cursor (Some (mv_occurred_at (lrRow r), mv_id (lrRow r))) (lrRow x)) ?L = drop (Suc k) ?L"
    by (simp add: before_cursor_def movement_key_def)
qed

lemma pages_from:
  assumes "stock_inv st" and "journal_stored st" and "uuid_text U"
    and "decodeCursor U (lfCursor f) = Some cursor"
    and "filter (\<lambda>x. before_cursor cursor (lrRow x)) (journal_rows (tenantID t) f st) = drop k (journal_rows (tenantID t) f st)"
    and "length (journal_rows (tenantID t) f st) - k < n"
  shows "pages D U t n f st = Some (map (movementFromListRow D) (drop k (journal_rows (tenantID t) f st)))"
  using assms(4-6)
proof (induction n arbitrary: f cursor k)
  case (Suc n)
  let ?L = "journal_rows (tenantID t) f st"
  let ?l = "nat (page_limit f)"
  have l: "0 < ?l" "int ?l = page_limit f" using page_limit_bounds[of f] by linarith+
  note P = ListMovements_page[OF Suc.prems(1), of D t st, unfolded Suc.prems(2)]
  show ?case
  proof (cases "int (length (drop k ?L)) \<le> page_limit f")
    case True
    then have "length (drop k ?L) \<le> ?l" using l by linarith
    then show ?thesis using True P by (simp add: Let_def)
  next
    case False
    then have len: "k + ?l < length ?L" using l by simp
    define r where "r = ?L ! (k + ?l - 1)"
    define pg where "pg = map (movementFromListRow D) (take ?l (drop k ?L))"
    have "last pg = pg ! (?l - 1)" using len l by (subst last_conv_nth) (auto simp: pg_def)
    also have "\<dots> = movementFromListRow D r" using len l by (simp add: pg_def r_def)
    finally have last: "mOccurredAt (last pg) = mv_occurred_at (lrRow r)" "mID (last pg) = mv_id (lrRow r)"
      by (simp_all add: movementFromListRow_def Let_def)
    define c where "c = encodeCursor U (mv_occurred_at (lrRow r)) (mv_id (lrRow r))"
    have step: "ListMovements D U t f st = (Inr \<lparr>pgItems = pg, NextCursor = c\<rparr>, st)"
      using P False last by (simp add: Let_def pg_def c_def)
    have i: "k + ?l - 1 < length ?L" "Suc (k + ?l - 1) = k + ?l" using len l by simp_all
    have rr: "r = journal_rows (tenantID t) f st ! (k + ?l - 1)" by (simp add: r_def)
    note R = rows_after[OF assms(1-3) i(1) rr, unfolded i(2)]
    have "pages D U t n (f\<lparr>lfCursor := c\<rparr>) st = Some (map (movementFromListRow D) (drop (k + ?l) ?L))"
      using R Suc.prems(3) l len
      by (subst Suc.IH[where cursor = "Some (mv_occurred_at (lrRow r), mv_id (lrRow r))" and k = "k + ?l"])
        (simp_all add: c_def)
    moreover have "take ?l (drop k ?L) @ drop (k + ?l) ?L = drop k ?L"
      by (metis add.commute append_take_drop_id drop_drop)
    ultimately show ?thesis
      using step encode_nonempty by (simp add: c_def pg_def flip: map_append)
  qed
qed simp

lemma journal_rows_all:
  assumes "journal_stored st"
  shows "map lrRow (journal_rows tid f st) = matching tid f st"
proof -
  have "map lrRow (concat (map (join_movement tid st) ms)) = ms"
    if "\<forall>m \<in> set ms. m \<in> set (movements st) \<and> mv_tenant m = tid" for ms
    using that
  proof (induction ms)
    case (Cons m ms)
    then have "item_exists tid (mv_item m) st" using assms by (auto simp: journal_stored_def)
    then obtain it where "GetItem tid (mv_item m) st = Some it"
      unfolding item_exists_def GetItem_def list_ex_iff
      using find_not_None[of _ "visible tid it_tenant (items st)" "\<lambda>r. it_id r = mv_item m"] by auto
    with Cons show ?case by (simp add: join_movement_def)
  qed simp
  then show ?thesis by (simp add: journal_rows_def matching_def)
qed

text \<open>(C19) A client that starts without a cursor and follows \<open>NextCursor\<close> until it is empty is
  shown the movements that match its filter, each exactly once and latest first; it needs no more
  pages than there are movements, and one.\<close>
theorem ListMovements_covers:
  assumes "stock_inv st" and "journal_stored st" and "uuid_text U" and "lfCursor f = []"
  shows "\<exists>rows. pages D U t (Suc (length (movements st))) f st = Some (map (movementFromListRow D) rows)
     \<and> distinct (map lrRow rows)
     \<and> set (map lrRow rows) = {m \<in> set (movements st). mv_tenant m = tenantID t \<and> filter_matches (query_filter f None) m}
     \<and> sorted_wrt (\<lambda>a b. (mv_occurred_at (lrRow b), mv_id (lrRow b)) < (mv_occurred_at (lrRow a), mv_id (lrRow a))) rows"
proof -
  let ?L = "journal_rows (tenantID t) f st"
  note all = journal_rows_all[OF assms(2), of "tenantID t" f]
  have srt: "sorted_wrt (\<lambda>a b. movement_key (lrRow b) < movement_key (lrRow a)) ?L"
    unfolding journal_rows_def by (rule sorted_wrt_join) (rule matching_sorted[OF assms(1)])
  have "length (matching (tenantID t) f st) \<le> length (movements st)"
    unfolding matching_def visible_def by (simp add: le_trans[OF length_filter_le])
  then have "length ?L - 0 < Suc (length (movements st))" using all by (metis diff_zero length_map less_Suc_eq_le)
  then have "pages D U t (Suc (length (movements st))) f st = Some (map (movementFromListRow D) (drop 0 ?L))"
    using assms by (intro pages_from[where cursor = None]) (simp_all add: decodeCursor_def before_cursor_def)
  moreover have "distinct (map lrRow ?L)"
    unfolding all using matching_sorted[OF assms(1), of "tenantID t" f] by (rule sorted_wrt_distinct) simp
  moreover have "set (map lrRow ?L) = {m \<in> set (movements st). mv_tenant m = tenantID t \<and> filter_matches (query_filter f None) m}"
    unfolding all by (auto simp: matching_def)
  ultimately show ?thesis using srt by (auto simp: movement_key_def)
qed

section \<open>What the reconciliation reports\<close>

definition journal_total :: "uuid \<Rightarrow> uuid \<Rightarrow> 'd db \<Rightarrow> rat" where
  "journal_total tid i st = sum_list (map mv_qty (filter (\<lambda>m. mv_item m = i) (visible tid mv_tenant (movements st))))"

definition balance_of_item :: "uuid \<Rightarrow> uuid \<Rightarrow> 'd db \<Rightarrow> rat" where
  "balance_of_item tid i st = (case find (\<lambda>b. ba_item b = i) (visible tid ba_tenant (balances st)) of
     None \<Rightarrow> 0 | Some b \<Rightarrow> ba_on_hand b)"

text \<open>The stored quantities of a tenant have three places, and it has one warehouse: an item has at
  most one balance.\<close>

definition reconcilable :: "uuid \<Rightarrow> 'd db \<Rightarrow> bool" where
  "reconcilable tid st \<longleftrightarrow> (\<forall>m \<in> set (movements st). scale3 (mv_qty m)) \<and> (\<forall>b \<in> set (balances st). scale3 (ba_on_hand b))
     \<and> distinct (map ba_item (visible tid ba_tenant (balances st)))"

definition total_in :: "(uuid \<times> rat) list \<Rightarrow> uuid \<Rightarrow> rat" where
  "total_in es i = (case map_of es i of None \<Rightarrow> 0 | Some r \<Rightarrow> r)"

lemma map_of_filter_other: "i \<noteq> k \<Longrightarrow> map_of (filter (\<lambda>e. fst e \<noteq> k) es) i = map_of es i"
  by (induction es) auto

lemma scale_sum_all: "\<forall>x \<in> set xs. scale3 x \<Longrightarrow> scale3 (sum_list xs)"
  by (induction xs) (auto intro: scale_add simp: has_scale_def[of 3 0])

definition drift_value :: "'d decimal_lib \<Rightarrow> 'd drift \<Rightarrow> uuid \<times> rat \<times> rat" where
  "drift_value D d = (drItem d, qval D (drJournal d), qval D (drBalance d))"

context decimal_api
begin

lemma zero_row: "qval D (qFromDecimal D (dZero D)) = 0 \<and> wfq D (qFromDecimal D (dZero D))"
proof -
  have "round_places 3 0 = (0 :: rat)" by (simp add: has_scale_def)
  then show ?thesis by (simp add: wfq_def rat_zero has_scale_def)
qed

lemma drift_loop_spec:
  assumes "\<forall>e \<in> set es. scale3 (snd e)" and "\<forall>b \<in> set bs. scale3 (ba_on_hand b)" and "distinct (map ba_item bs)"
  shows "set (map (drift_value D) (fst (drift_loop D es bs))) =
      {(ba_item b, total_in es (ba_item b), ba_on_hand b) | b. b \<in> set bs \<and> total_in es (ba_item b) \<noteq> ba_on_hand b}
    \<and> distinct (map drItem (fst (drift_loop D es bs)))
    \<and> snd (drift_loop D es bs) = filter (\<lambda>e. fst e \<notin> ba_item ` set bs) es"
  using assms
proof (induction bs arbitrary: es)
  case (Cons b bs)
  let ?es = "filter (\<lambda>e. fst e \<noteq> ba_item b) es"
  let ?want = "case map_of es (ba_item b) of None \<Rightarrow> qFromDecimal D (dZero D) | Some r \<Rightarrow> pg_Qty D r"
  let ?d = "\<lparr>drItem = ba_item b, drJournal = ?want, drBalance = pg_Qty D (ba_on_hand b)\<rparr>"
  have IH: "set (map (drift_value D) (fst (drift_loop D ?es bs))) =
      {(ba_item b, total_in ?es (ba_item b), ba_on_hand b) | b. b \<in> set bs \<and> total_in ?es (ba_item b) \<noteq> ba_on_hand b}
    \<and> distinct (map drItem (fst (drift_loop D ?es bs)))
    \<and> snd (drift_loop D ?es bs) = filter (\<lambda>e. fst e \<notin> ba_item ` set bs) ?es"
    using Cons.prems by (intro Cons.IH) auto
  have want: "qval D ?want = total_in es (ba_item b)" "wfq D ?want"
    using Cons.prems(1) zero_row by (auto simp: total_in_def split: option.splits dest!: map_of_SomeD)
  have same: "total_in ?es (ba_item x) = total_in es (ba_item x)" if "x \<in> set bs" for x
  proof -
    have "ba_item x \<noteq> ba_item b" using that Cons.prems(3) by (metis distinct.simps(2) image_eqI list.set_map list.simps(9))
    then show ?thesis by (simp add: total_in_def map_of_filter_other)
  qed
  have new: "drift_loop D es (b # bs) = ((if total_in es (ba_item b) \<noteq> ba_on_hand b then [?d] else []) @
      fst (drift_loop D ?es bs), snd (drift_loop D ?es bs))"
    using want Cons.prems(2) by (simp add: Let_def case_prod_beta)
  have items: "set (map drItem (fst (drift_loop D ?es bs))) \<subseteq> ba_item ` set bs"
  proof -
    have "drItem d \<in> ba_item ` set bs" if "d \<in> set (fst (drift_loop D ?es bs))" for d
    proof -
      have "drift_value D d \<in> set (map (drift_value D) (fst (drift_loop D ?es bs)))" using that by simp
      then show ?thesis unfolding IH[THEN conjunct1] by (auto simp: drift_value_def)
    qed
    then show ?thesis by auto
  qed
  have "drift_value D ?d = (ba_item b, total_in es (ba_item b), ba_on_hand b)"
    using want Cons.prems(2) by (simp add: drift_value_def)
  moreover have "{(ba_item b, total_in ?es (ba_item b), ba_on_hand b) | b. b \<in> set bs \<and> total_in ?es (ba_item b) \<noteq> ba_on_hand b}
      = {(ba_item b, total_in es (ba_item b), ba_on_hand b) | b. b \<in> set bs \<and> total_in es (ba_item b) \<noteq> ba_on_hand b}"
    by (rule Collect_cong) (metis same)
  moreover have "{(ba_item c, total_in es (ba_item c), ba_on_hand c) | c. c \<in> set (b # bs) \<and> total_in es (ba_item c) \<noteq> ba_on_hand c}
     = (if total_in es (ba_item b) \<noteq> ba_on_hand b then {(ba_item b, total_in es (ba_item b), ba_on_hand b)} else {})
       \<union> {(ba_item c, total_in es (ba_item c), ba_on_hand c) | c. c \<in> set bs \<and> total_in es (ba_item c) \<noteq> ba_on_hand c}"
    by auto
  ultimately have 1: "set (map (drift_value D) (fst (drift_loop D es (b # bs)))) =
      {(ba_item c, total_in es (ba_item c), ba_on_hand c) | c. c \<in> set (b # bs) \<and> total_in es (ba_item c) \<noteq> ba_on_hand c}"
    using IH[THEN conjunct1] by (simp only: new fst_conv map_append set_append split: if_split) simp
  have 2: "filter (\<lambda>e. fst e \<notin> ba_item ` set bs) ?es = filter (\<lambda>e. fst e \<notin> ba_item ` set (b # bs)) es"
    by (induction es) auto
  have "ba_item b \<notin> set (map drItem (fst (drift_loop D ?es bs)))" using items Cons.prems(3) by auto
  then have 3: "distinct (map drItem (fst (drift_loop D es (b # bs))))"
    using IH unfolding new by simp
  have 4: "snd (drift_loop D es (b # bs)) = filter (\<lambda>e. fst e \<notin> ba_item ` set (b # bs)) es"
    using IH 2 unfolding new by (simp only: snd_conv)
  from 1 3 4 show ?case by blast
qed simp

lemma rest_drifts_spec:
  assumes "\<forall>e \<in> set es. scale3 (snd e)" and "distinct (map fst es)"
  shows "set (map (drift_value D) (rest_drifts D es)) = {(i, r, 0) | i r. (i, r) \<in> set es \<and> r \<noteq> 0}"
    and "distinct (map drItem (rest_drifts D es))" and "set (map drItem (rest_drifts D es)) \<subseteq> fst ` set es"
proof -
  have z: "qIsZero D (pg_Qty D r) \<longleftrightarrow> r = 0" if "(i, r) \<in> set es" for i r using assms(1) that by auto
  have v: "qval D (pg_Qty D r) = r" if "(i, r) \<in> set es" for i r using assms(1) that by auto
  show "set (map (drift_value D) (rest_drifts D es)) = {(i, r, 0) | i r. (i, r) \<in> set es \<and> r \<noteq> 0}"
  proof (intro equalityI subsetI)
    fix x
    assume "x \<in> set (map (drift_value D) (rest_drifts D es))"
    then show "x \<in> {(i, r, 0 :: rat) | i r. (i, r) \<in> set es \<and> r \<noteq> 0}"
      using z v by (auto simp: rest_drifts_def drift_value_def)
  next
    fix x
    assume "x \<in> {(i, r, 0 :: rat) | i r. (i, r) \<in> set es \<and> r \<noteq> 0}"
    then obtain i r where "x = (i, r, 0)" "(i, r) \<in> set es" "r \<noteq> 0" by blast
    then show "x \<in> set (map (drift_value D) (rest_drifts D es))"
      using z v by (force simp: rest_drifts_def drift_value_def)
  qed
  have m: "map drItem (rest_drifts D es) = map fst (filter (\<lambda>(i, r). \<not> qIsZero D (pg_Qty D r)) es)"
    by (simp add: rest_drifts_def comp_def case_prod_beta)
  show "distinct (map drItem (rest_drifts D es))" unfolding m using assms(2) by (rule distinct_map_filter)
  show "set (map drItem (rest_drifts D es)) \<subseteq> fst ` set es" unfolding m by auto
qed

end

lemma sums_of_journal:
  assumes "reconcilable tid st"
  shows "distinct (map fst (SumMovementsByItem tid st))" and "\<forall>e \<in> set (SumMovementsByItem tid st). scale3 (snd e)"
    and "total_in (SumMovementsByItem tid st) i = journal_total tid i st"
    and "(j, r) \<in> set (SumMovementsByItem tid st) \<Longrightarrow> r = journal_total tid j st"
    and "journal_total tid i st \<noteq> 0 \<Longrightarrow> (i, journal_total tid i st) \<in> set (SumMovementsByItem tid st)"
proof -
  let ?ms = "visible tid mv_tenant (movements st)"
  have eq: "SumMovementsByItem tid st = map (\<lambda>i. (i, journal_total tid i st)) (remdups (map mv_item ?ms))"
    by (simp add: SumMovementsByItem_def journal_total_def Let_def)
  show "distinct (map fst (SumMovementsByItem tid st))" by (simp add: eq comp_def)
  have "scale3 (journal_total tid k st)" for k
    unfolding journal_total_def using assms by (intro scale_sum_all) (auto simp: reconcilable_def)
  then show "\<forall>e \<in> set (SumMovementsByItem tid st). scale3 (snd e)" by (auto simp: eq)
  have zero: "i \<notin> set (map mv_item ?ms) \<Longrightarrow> journal_total tid i st = 0" for i
  proof -
    assume "i \<notin> set (map mv_item ?ms)"
    then have "filter (\<lambda>m. mv_item m = i) ?ms = []" by (auto simp: filter_empty_conv)
    then show ?thesis by (simp add: journal_total_def)
  qed
  have "map_of (map (\<lambda>i. (i, journal_total tid i st)) is) i = (if i \<in> set is then Some (journal_total tid i st) else None)" for "is"
    by (induction "is") auto
  then show "total_in (SumMovementsByItem tid st) i = journal_total tid i st"
    unfolding total_in_def eq using zero[of i] by simp
  show "(j, r) \<in> set (SumMovementsByItem tid st) \<Longrightarrow> r = journal_total tid j st" by (auto simp: eq)
  show "journal_total tid i st \<noteq> 0 \<Longrightarrow> (i, journal_total tid i st) \<in> set (SumMovementsByItem tid st)"
    using zero[of i] by (auto simp: eq)
qed

lemma balance_of_item_in:
  assumes "reconcilable tid st"
  shows "b \<in> set (visible tid ba_tenant (balances st)) \<Longrightarrow> balance_of_item tid (ba_item b) st = ba_on_hand b"
    and "i \<notin> ba_item ` set (visible tid ba_tenant (balances st)) \<Longrightarrow> balance_of_item tid i st = 0"
proof -
  let ?bs = "visible tid ba_tenant (balances st)"
  have d: "distinct (map ba_item ?bs)" using assms by (simp add: reconcilable_def)
  show "b \<in> set ?bs \<Longrightarrow> balance_of_item tid (ba_item b) st = ba_on_hand b"
  proof -
    assume "b \<in> set ?bs"
    moreover obtain c where c: "find (\<lambda>x. ba_item x = ba_item b) ?bs = Some c"
      using find_not_None[OF \<open>b \<in> set ?bs\<close>, of "\<lambda>x. ba_item x = ba_item b"] by blast
    moreover have "c \<in> set ?bs \<and> ba_item c = ba_item b" using find_Some_in[OF c] .
    ultimately have "c = b" using d by (auto simp: distinct_map inj_on_def)
    then show ?thesis using c by (simp add: balance_of_item_def)
  qed
  show "i \<notin> ba_item ` set ?bs \<Longrightarrow> balance_of_item tid i st = 0"
  proof -
    assume "i \<notin> ba_item ` set ?bs"
    then have "find (\<lambda>x. ba_item x = i) ?bs = None" by (auto simp: find_None_all)
    then show ?thesis by (simp add: balance_of_item_def)
  qed
qed

lemma reconcile_report:
  assumes D: "decimal_api D" and r: "reconcilable (tenantID t) st"
  shows "\<exists>ds. Reconcile D t st = (Inr ds, st) \<and> distinct (map drItem ds)
     \<and> set (map (drift_value D) ds) = {(i, journal_total (tenantID t) i st, balance_of_item (tenantID t) i st) | i.
         journal_total (tenantID t) i st \<noteq> balance_of_item (tenantID t) i st}"
proof -
  define tid where "tid = tenantID t"
  let ?es = "SumMovementsByItem tid st"
  let ?bs = "visible tid ba_tenant (balances st)"
  let ?J = "\<lambda>i. journal_total tid i st"
  let ?B = "\<lambda>i. balance_of_item tid i st"
  have r': "reconcilable tid st" using r by (simp add: tid_def)
  note S = sums_of_journal[OF r']
  have "\<forall>b \<in> set ?bs. scale3 (ba_on_hand b)" "distinct (map ba_item ?bs)" using r' by (auto simp: reconcilable_def)
  note L = decimal_api.drift_loop_spec[OF D S(2) this]
  define ds where "ds = fst (drift_loop D ?es ?bs)"
  define rest where "rest = snd (drift_loop D ?es ?bs)"
  have rest: "rest = filter (\<lambda>e. fst e \<notin> ba_item ` set ?bs) ?es" using L by (simp add: rest_def)
  have "\<forall>e \<in> set rest. scale3 (snd e)" "distinct (map fst rest)"
    unfolding rest using S(2) distinct_map_filter[OF S(1)] by simp_all
  note R = decimal_api.rest_drifts_spec[OF D this]
  have val: "set (map (drift_value D) ds) = {(ba_item b, ?J (ba_item b), ?B (ba_item b)) | b. b \<in> set ?bs \<and> ?J (ba_item b) \<noteq> ?B (ba_item b)}"
  proof -
    have "total_in ?es (ba_item b) = ?J (ba_item b) \<and> ba_on_hand b = ?B (ba_item b)" if "b \<in> set ?bs" for b
      using S(3) balance_of_item_in(1)[OF r' that] by simp
    then show ?thesis unfolding ds_def L[THEN conjunct1] by (intro Collect_cong) auto
  qed
  have dsd: "distinct (map drItem ds)" using L by (simp add: ds_def)
  have dsi: "set (map drItem ds) \<subseteq> ba_item ` set ?bs"
  proof -
    have "drItem d \<in> ba_item ` set ?bs" if "d \<in> set ds" for d
    proof -
      have "drift_value D d \<in> set (map (drift_value D) ds)" using that by simp
      then show ?thesis unfolding val by (auto simp: drift_value_def)
    qed
    then show ?thesis by auto
  qed
  have "fst ` set rest \<inter> ba_item ` set ?bs = {}" by (auto simp: rest)
  then have "set (map drItem ds) \<inter> set (map drItem (rest_drifts D rest)) = {}" using R(3) dsi by blast
  then have "distinct (map drItem (ds @ rest_drifts D rest))" using dsd R(2) by simp
  moreover have "set (map (drift_value D) (rest_drifts D rest)) = {(i, ?J i, ?B i) | i. i \<notin> ba_item ` set ?bs \<and> ?J i \<noteq> ?B i}"
  proof -
    have "(i, r) \<in> set rest \<and> r \<noteq> 0 \<longleftrightarrow> i \<notin> ba_item ` set ?bs \<and> r = ?J i \<and> ?J i \<noteq> 0" for i r
      using S(4)[of i r] S(5)[of i] by (auto simp: rest)
    moreover have "i \<notin> ba_item ` set ?bs \<Longrightarrow> ?B i = 0" for i using balance_of_item_in(2)[OF r'] by simp
    ultimately show ?thesis unfolding R(1) by force
  qed
  moreover have "{(ba_item b, ?J (ba_item b), ?B (ba_item b)) | b. b \<in> set ?bs \<and> ?J (ba_item b) \<noteq> ?B (ba_item b)}
      \<union> {(i, ?J i, ?B i) | i. i \<notin> ba_item ` set ?bs \<and> ?J i \<noteq> ?B i} = {(i, ?J i, ?B i) | i. ?J i \<noteq> ?B i}" by blast
  moreover have "Reconcile D t st = (Inr (ds @ rest_drifts D rest), st)"
    by (simp add: Reconcile_def InTenantTx_def tid_def[symmetric] ListBalances_q_def ds_def rest_def case_prod_beta)
  ultimately show ?thesis using val unfolding tid_def[symmetric]
    by (intro exI[of _ "ds @ rest_drifts D rest"]) (simp only: map_append set_append simp_thms)
qed

text \<open>(C20) \<open>Reconcile\<close> reports each item whose balance differs from the sum of its movements once,
  with both numbers, and nothing else; it changes nothing.\<close>
theorem Reconcile_exact:
  assumes "decimal_api D" and "reconcilable (tenantID t) st"
  shows "\<exists>ds. Reconcile D t st = (Inr ds, st) \<and> distinct (map drItem ds)
     \<and> (\<forall>i. (i \<in> set (map drItem ds)) = (journal_total (tenantID t) i st \<noteq> balance_of_item (tenantID t) i st))
     \<and> (\<forall>d \<in> set ds. qval D (drJournal d) = journal_total (tenantID t) (drItem d) st
           \<and> qval D (drBalance d) = balance_of_item (tenantID t) (drItem d) st)"
proof -
  obtain ds where ds: "Reconcile D t st = (Inr ds, st)" "distinct (map drItem ds)"
    and v: "set (map (drift_value D) ds) = {(i, journal_total (tenantID t) i st, balance_of_item (tenantID t) i st) | i.
         journal_total (tenantID t) i st \<noteq> balance_of_item (tenantID t) i st}"
    using reconcile_report[OF assms] by blast
  have "set (map drItem ds) = fst ` set (map (drift_value D) ds)" by (force simp: drift_value_def)
  then have "set (map drItem ds) = {i. journal_total (tenantID t) i st \<noteq> balance_of_item (tenantID t) i st}"
    unfolding v by force
  moreover have "qval D (drJournal d) = journal_total (tenantID t) (drItem d) st
      \<and> qval D (drBalance d) = balance_of_item (tenantID t) (drItem d) st" if "d \<in> set ds" for d
  proof -
    have "drift_value D d \<in> set (map (drift_value D) ds)" using that by simp
    then show ?thesis unfolding v by (auto simp: drift_value_def)
  qed
  ultimately show ?thesis using ds by blast
qed

text \<open>In a database whose invariant holds, for a tenant that owns its warehouse alone,
  \<open>Reconcile\<close> finds nothing.\<close>
theorem Reconcile_clean:
  assumes "decimal_api D" and "stock_inv st"
    and "\<forall>m \<in> set (movements st). mv_tenant m = tenantID t \<longleftrightarrow> mv_warehouse m = wid"
    and "\<forall>b \<in> set (balances st). ba_tenant b = tenantID t \<longleftrightarrow> ba_warehouse b = wid"
  shows "Reconcile D t st = (Inr [], st)"
proof -
  have "map ba_item (visible (tenantID t) ba_tenant (balances st)) =
      map snd (map (\<lambda>b. (ba_warehouse b, ba_item b)) (filter (\<lambda>b. ba_warehouse b = wid) (balances st)))"
    using assms(4) by (auto simp: visible_def intro!: map_cong filter_cong)
  moreover have "distinct (map (\<lambda>b. (ba_warehouse b, ba_item b)) (filter (\<lambda>b. ba_warehouse b = wid) (balances st)))"
    using assms(2) by (intro distinct_map_filter) (simp add: stock_inv_def balances_ok_def)
  ultimately have d: "distinct (map ba_item (visible (tenantID t) ba_tenant (balances st)))"
    by (auto simp: distinct_map inj_on_def)
  have r: "reconcilable (tenantID t) st"
    using assms(2) d by (auto simp: reconcilable_def stock_inv_def journal_ok_def balances_ok_def is_numeric_def)
  have "journal_total (tenantID t) i st = balance_of_item (tenantID t) i st" for i
  proof -
    have "filter (\<lambda>m. mv_item m = i) (visible (tenantID t) mv_tenant (movements st)) =
        filter (\<lambda>m. mv_warehouse m = wid \<and> mv_item m = i) (movements st)"
      using assms(3) by (auto simp: visible_def intro!: filter_cong)
    then have "journal_total (tenantID t) i st = journal st wid i" by (simp add: journal_total_def journal_def)
    also have "\<dots> = on_hand_of st wid i" using assms(2) by (simp add: stock_inv_def)
    also have "\<dots> = balance_of_item (tenantID t) i st"
    proof -
      have "find (balance_key wid i) bs = find (\<lambda>b. ba_item b = i) (visible (tenantID t) ba_tenant bs)"
        if "\<forall>b \<in> set bs. ba_tenant b = tenantID t \<longleftrightarrow> ba_warehouse b = wid" for bs
        using that by (induction bs) (auto simp: visible_def balance_key_def)
      then show ?thesis using assms(4) by (simp add: on_hand_of_def balance_of_item_def)
    qed
    finally show ?thesis .
  qed
  then show ?thesis using reconcile_report[OF assms(1) r] by auto
qed

section \<open>Examples\<close>

definition sample_uuid :: uuid_lib where
  "sample_uuid = \<lparr>uString = (\<lambda>i. replicate i CHR ''f''), uParse = (\<lambda>s. Some (length s))\<rparr>"

definition sample_filter :: list_filter where
  "sample_filter = \<lparr>lfItem = Some 10, lfType = None, lfAuthor = None, lfFrom = None, lfTo = None,
     lfCursor = [], lfLimit = 1\<rparr>"

definition sample_journal :: "dec db" where
  "sample_journal = sample_stocked\<lparr>movements := [sample_movement, sample_movement\<lparr>mv_id := 51\<rparr>],
     balances := [\<lparr>ba_tenant = 1, ba_warehouse = 20, ba_item = 10, ba_on_hand = 3, ba_updated_at = 0\<rparr>]\<rparr>"

lemma sample_journal_inv: "stock_inv sample_journal"
  by (simp add: stock_inv_def journal_ok_def balances_ok_def sample_journal_def sample_stocked_def sample_movement_def
      sample_db_def on_hand_of_def journal_def is_numeric_def has_scale_def movement_checks_def
      reverses_ok_def movement_sign_ok_def writeoff_reason_ok_def type_names balance_key_def)

lemma sample_journal_stored: "journal_stored sample_journal"
proof -
  have "cursor_time 0" by code_simp
  then show ?thesis
    by (simp add: journal_stored_def sample_journal_def sample_stocked_def sample_movement_def
      sample_db_def sample_item_def pg_Time_def item_exists_def)
qed

text \<open>Two movements of the same moment, one per page.\<close>

theorem ListMovements_covers_witness:
  "\<exists>rows. pages dec_lib sample_uuid sample_tenant 3 sample_filter sample_journal = Some (map (movementFromListRow dec_lib) rows)
     \<and> set (map lrRow rows) = {sample_movement, sample_movement\<lparr>mv_id := 51\<rparr>}"
proof -
  have u: "uuid_text sample_uuid" by (simp add: uuid_text_def sample_uuid_def)
  have c: "lfCursor sample_filter = []" by (simp add: sample_filter_def)
  have n: "Suc (length (movements sample_journal)) = 3" by (simp add: sample_journal_def)
  have "{m \<in> set (movements sample_journal). mv_tenant m = tenantID sample_tenant \<and> filter_matches (query_filter sample_filter None) m}
      = {sample_movement, sample_movement\<lparr>mv_id := 51\<rparr>}"
    by (auto simp: sample_journal_def sample_movement_def sample_tenant_def filter_matches_def query_filter_def sample_filter_def)
  then show ?thesis
    using ListMovements_covers[OF sample_journal_inv sample_journal_stored u c, of dec_lib sample_tenant] unfolding n by auto
qed

lemma sample_drifted:
  "reconcilable (tenantID sample_tenant) (sample_stocked\<lparr>balances := []\<rparr>)"
  "journal_total (tenantID sample_tenant) 10 (sample_stocked\<lparr>balances := []\<rparr>) = 3 / 2"
  "balance_of_item (tenantID sample_tenant) 10 (sample_stocked\<lparr>balances := []\<rparr>) = 0"
  by (simp_all add: reconcilable_def sample_stocked_def sample_movement_def sample_tenant_def visible_def
      has_scale_def journal_total_def balance_of_item_def)

theorem Reconcile_exact_witness:
  "\<exists>ds. Reconcile dec_lib sample_tenant (sample_stocked\<lparr>balances := []\<rparr>) = (Inr ds, sample_stocked\<lparr>balances := []\<rparr>)
     \<and> 10 \<in> set (map drItem ds)"
  using Reconcile_exact[OF sample_ok(1) sample_drifted(1)] sample_drifted(2,3) by force

theorem Reconcile_clean_witness: "Reconcile dec_lib sample_tenant sample_stocked = (Inr [], sample_stocked)"
  by (rule Reconcile_clean[OF sample_ok(1) sample_stocked_inv, where wid = 20])
    (simp_all add: sample_stocked_def sample_movement_def sample_tenant_def)

end
