(* ===== verification/Replenish_Correct.thy ===== *)
theory Replenish_Correct
  imports Replenish Stock_Correct Stock_Query
begin

text \<open>
  Correctness of the status recalculation: what it stores, when it raises an alert, that the batch
  decides on the same inputs, and that it keeps the contract the stock module relies on. The service
  that takes the alerts is known by the contract \<open>alert_channel\<close>.
\<close>

section \<open>Steps beside the stock\<close>

text \<open>A step of tenant \<open>tid\<close> that leaves the stock, the orders, the statuses and the forecasts alone.\<close>

definition feed_step :: "uuid \<Rightarrow> 'd db \<Rightarrow> 'd db \<Rightarrow> bool" where
  "feed_step tid st st' \<longleftrightarrow> stock_frame st st' \<and> item_status st' = item_status st \<and> forecasts st' = forecasts st
     \<and> forecast_metrics st' = forecast_metrics st \<and> daily st' = daily st \<and> categories st' = categories st
     \<and> (\<forall>other. other \<noteq> tid \<longrightarrow> tenant_view other st' = tenant_view other st)"

lemma feed_step_refl [simp]: "feed_step tid st st"
  by (simp add: feed_step_def)

lemma feed_step_trans [trans]: "feed_step tid a b \<Longrightarrow> feed_step tid b c \<Longrightarrow> feed_step tid a c"
  by (auto simp: feed_step_def intro: stock_frame_trans)

locale alert_channel =
  fixes alert :: "'d alerter"
  assumes alert_step: "alert w t ev st = Inr (u, st') \<Longrightarrow> feed_step (tenantID t) st st'"

definition alerts_ok :: "'d replenish_service \<Rightarrow> bool" where
  "alerts_ok s \<longleftrightarrow> (\<forall>alert. rsAlerter s = Some alert \<longrightarrow> alert_channel alert)"

section \<open>Storing a status\<close>

text \<open>The row as PostgreSQL holds it.\<close>

definition stored_status :: "'d item_status_row \<Rightarrow> 'd item_status_row" where
  "stored_status r = r\<lparr>is_on_order := round_places 3 (is_on_order r), is_recommended_qty := round_places 3 (is_recommended_qty r),
     is_target_level := round_places 3 (is_target_level r), is_safety_stock := round_places 3 (is_safety_stock r),
     is_order_by := map_option pg_Time (is_order_by r), is_computed_at := pg_Time (is_computed_at r)\<rparr>"

lemma UpsertItemStatus_Inr:
  assumes "UpsertItemStatus row st = Inr (u, st')"
  shows "\<exists>rows. st' = st\<lparr>item_status := rows\<rparr> \<and> upsert_tx (is_tenant row) is_tenant (\<lambda>x. is_item x = is_item row)
      (\<lambda>x. (stored_status row)\<lparr>is_tenant := is_tenant x, is_item := is_item x\<rparr>) (stored_status row) (item_status st) = Inr rows"
  using assms unfolding UpsertItemStatus_def Let_def
  by (auto simp: stored_status_def numeric_14_3_Inr bindE_Inr_iff)

lemma upsert_status_find:
  assumes "upsert_tx tid is_tenant (\<lambda>x. is_item x = i) (\<lambda>x. r\<lparr>is_tenant := is_tenant x, is_item := is_item x\<rparr>) r rows = Inr rows'"
    and "is_tenant r = tid" and "is_item r = i"
  shows "find (\<lambda>x. is_item x = i) (visible tid is_tenant rows') = Some r"
    and "j \<noteq> i \<Longrightarrow> find (\<lambda>x. is_item x = j) (visible tid is_tenant rows') = find (\<lambda>x. is_item x = j) (visible tid is_tenant rows)"
proof -
  have own: "\<forall>x \<in> set rows. is_item x = i \<longrightarrow> is_tenant x = tid"
    and eq: "rows' = upsert_row (\<lambda>x. is_item x = i) (\<lambda>x. r\<lparr>is_tenant := is_tenant x, is_item := is_item x\<rparr>) r rows"
    using assms(1) by (auto simp: upsert_tx_def list_ex_iff split: if_splits)
  have upd: "r\<lparr>is_tenant := is_tenant x, is_item := is_item x\<rparr> = r" if "is_item x = i" "is_tenant x = tid" for x :: "'a item_status_row"
    using that assms(2,3) by simp
  show "find (\<lambda>x. is_item x = i) (visible tid is_tenant rows') = Some r"
  proof (cases "list_ex (\<lambda>x. is_item x = i) rows")
    case True
    then have "\<exists>x \<in> set rows. is_item x = i" by (auto simp: list_ex_iff)
    then have "find (\<lambda>x. is_item x = i) (visible tid is_tenant (update_rows (\<lambda>x. is_item x = i)
        (\<lambda>x. r\<lparr>is_tenant := is_tenant x, is_item := is_item x\<rparr>) rows)) = Some r"
      using own upd assms(2,3) by (induction rows) (auto simp: visible_def update_rows_def)
    then show ?thesis using True by (simp add: eq upsert_row_def)
  next
    case False
    then have "find (\<lambda>x. is_item x = i) (visible tid is_tenant rows) = None"
      by (auto simp: find_None_all list_ex_iff)
    moreover have "visible tid is_tenant [r] = [r]" using assms(2) by (simp add: visible_def)
    ultimately show ?thesis using False assms(3) by (simp add: eq upsert_row_def visible_append find_append_one)
  qed
  assume j: "j \<noteq> i"
  have "find (\<lambda>x. is_item x = j) (visible tid is_tenant (update_rows (\<lambda>x. is_item x = i)
      (\<lambda>x. r\<lparr>is_tenant := is_tenant x, is_item := is_item x\<rparr>) rows)) = find (\<lambda>x. is_item x = j) (visible tid is_tenant rows)"
    using own upd assms(2,3) j by (induction rows) (auto simp: visible_def update_rows_def)
  moreover have "find (\<lambda>x. is_item x = j) (visible tid is_tenant (rows @ [r])) = find (\<lambda>x. is_item x = j) (visible tid is_tenant rows)"
    using assms(2,3) j by (simp add: visible_def find_append_one split: option.split)
  ultimately show "find (\<lambda>x. is_item x = j) (visible tid is_tenant rows') = find (\<lambda>x. is_item x = j) (visible tid is_tenant rows)"
    unfolding eq upsert_row_def by simp
qed

lemma persist_Inr:
  assumes "persist D s w t row d st = Inr (u, st')"
  shows "\<exists>rows. st' = st\<lparr>item_status := rows\<rparr>"
    and "GetItemStatus (tenantID t) (stItem row) st' = Some (stored_status (status_params D s w t row d))"
    and "j \<noteq> stItem row \<Longrightarrow> GetItemStatus (tenantID t) j st' = GetItemStatus (tenantID t) j st"
    and "other \<noteq> tenantID t \<Longrightarrow> tenant_view other st' = tenant_view other st"
proof -
  let ?r = "status_params D s w t row d"
  have r: "is_tenant ?r = tenantID t" "is_item ?r = stItem row" by (simp_all add: status_params_def)
  have "UpsertItemStatus ?r st = Inr ((), st')" using assms by (auto simp: persist_def)
  from UpsertItemStatus_Inr[OF this, unfolded r] obtain rows where st': "st' = st\<lparr>item_status := rows\<rparr>"
    and up: "upsert_tx (tenantID t) is_tenant (\<lambda>x. is_item x = stItem row)
      (\<lambda>x. (stored_status ?r)\<lparr>is_tenant := is_tenant x, is_item := is_item x\<rparr>) (stored_status ?r) (item_status st) = Inr rows"
    by blast
  have s: "is_tenant (stored_status ?r) = tenantID t" "is_item (stored_status ?r) = stItem row"
    by (simp_all add: stored_status_def r)
  show "\<exists>rows. st' = st\<lparr>item_status := rows\<rparr>" using st' by blast
  show "GetItemStatus (tenantID t) (stItem row) st' = Some (stored_status ?r)"
    using upsert_status_find(1)[OF up s] by (simp add: GetItemStatus_def st')
  show "j \<noteq> stItem row \<Longrightarrow> GetItemStatus (tenantID t) j st' = GetItemStatus (tenantID t) j st"
    using upsert_status_find(2)[OF up s] by (simp add: GetItemStatus_def st')
  show "other \<noteq> tenantID t \<Longrightarrow> tenant_view other st' = tenant_view other st"
    using upsert_visible_other[OF up s(1), of other] by (simp add: tenant_view_def st')
qed

lemma alert_red_Inr:
  assumes "alert_red D s w t row inp d previous st = Inr (u, st')" and "alerts_ok s"
  shows "feed_step (tenantID t) st st'"
    and "\<not> (IsRed (decStatus d) \<and> WorseThan (decStatus d) previous) \<Longrightarrow> st' = st"
    and "rsAlerter s = Some alert \<Longrightarrow> IsRed (decStatus d) \<Longrightarrow> WorseThan (decStatus d) previous \<Longrightarrow>
      alert w t (red_alert_of D row inp d previous) st = Inr ((), st')"
  using assms by (auto simp: alert_red_def alerts_ok_def split: option.splits if_splits intro: alert_channel.alert_step)

section \<open>One recalculation\<close>

lemma stItem_GetItemForStatus: "GetItemForStatus tid iid st = Some row \<Longrightarrow> stItem row = iid"
proof -
  assume "GetItemForStatus tid iid st = Some row"
  define xs where "xs = concat (map (join_status tid st) (filter (\<lambda>i. it_id i = iid) (visible tid it_tenant (items st))))"
  have "GetItemForStatus tid iid st = (case xs of [] \<Rightarrow> None | r # _ \<Rightarrow> Some r)"
    by (simp only: GetItemForStatus_def xs_def)
  with \<open>GetItemForStatus tid iid st = Some row\<close> have "row \<in> set xs" by (cases xs) auto
  then show ?thesis unfolding xs_def by (auto simp: join_status_def status_row_of_def)
qed

lemma Recalculate_Inr:
  assumes "Recalculate D s w t iid st = Inr (snap, st')"
  obtains row d st1 where "GetItemForStatus (tenantID t) iid st = Some row" and "stItem row = iid"
    and "Decide D (buildInput D s w t row st) = Some d" and "persist D s w t row d st = Inr ((), st1)"
    and "alert_red D s w t row (buildInput D s w t row st) d (previous_status (tenantID t) iid st) st1 = Inr ((), st')"
    and "snap = snapshot d t"
proof -
  from assms obtain row d st1 where *: "GetItemForStatus (tenantID t) iid st = Some row"
    "Decide D (buildInput D s w t row st) = Some d" "persist D s w t row d st = Inr ((), st1)"
    "alert_red D s w t row (buildInput D s w t row st) d (previous_status (tenantID t) iid st) st1 = Inr ((), st')"
    "snap = snapshot d t"
    by (auto simp: Recalculate_def Let_def tx_of_sum_def from_opt_def tx_bind_Inr split: option.splits)
  from stItem_GetItemForStatus[OF *(1)] * show thesis by (intro that)
qed

lemma status_only_frame: "st' = st\<lparr>item_status := rows\<rparr> \<Longrightarrow> stock_frame st st'"
  by (simp add: stock_frame_def)

text \<open>The contract of \<open>Stock_Correct\<close>.\<close>

lemma Recalculate_contract:
  assumes "alerts_ok s"
  shows "status_recalculator (Recalculate D s)"
proof
  fix w t iid st x st' other
  assume "Recalculate D s w t iid st = Inr (x, st')"
  then obtain row d st1 where p: "persist D s w t row d st = Inr ((), st1)"
    and a: "alert_red D s w t row (buildInput D s w t row st) d (previous_status (tenantID t) iid st) st1 = Inr ((), st')"
    by (rule Recalculate_Inr)
  note f = alert_red_Inr(1)[OF a assms]
  have "stock_frame st st1" using persist_Inr(1)[OF p] status_only_frame by blast
  then show "stock_frame st st'" using f by (auto simp: feed_step_def intro: stock_frame_trans)
  show "other \<noteq> tenantID t \<Longrightarrow> tenant_view other st' = tenant_view other st"
    using persist_Inr(4)[OF p, of other] f by (simp add: feed_step_def)
qed

interpretation plain_recalc: status_recalculator "Recalculate D (NewReplenishService cl None)" for D cl
  by (rule Recalculate_contract) (simp add: alerts_ok_def NewReplenishService_def)

lemma GetItemStatus_feed: "feed_step tid st st' \<Longrightarrow> GetItemStatus i j st' = GetItemStatus i j st"
  by (simp add: GetItemStatus_def feed_step_def)

text \<open>(C16) A recalculation stores the decision for the stored data of the item as its status row,
  leaves the status of every other item as it was, and returns what it stored.\<close>
theorem Recalculate_stores:
  assumes "alerts_ok s" and "Recalculate D s w t iid st = Inr (snap, st')"
  shows "\<exists>row d r. GetItemForStatus (tenantID t) iid st = Some row \<and> Decide D (buildInput D s w t row st) = Some d
     \<and> GetItemStatus (tenantID t) iid st' = Some r
     \<and> is_status r = decStatus d \<and> is_recommended_qty r = round_places 3 (qval D (RecommendedQty d))
     \<and> is_target_level r = round_places 3 (qval D (TargetLevel d)) \<and> is_stockout_date r = NullDate (StockoutDate d)
     \<and> is_explanation r = decExplanation d \<and> (is_order_by r \<noteq> None \<longrightarrow> decStatus d = StatusOrderToday)
     \<and> snCode snap = is_status r \<and> snRecommendedQty snap = RecommendedQty d
     \<and> (\<forall>j. j \<noteq> iid \<longrightarrow> GetItemStatus (tenantID t) j st' = GetItemStatus (tenantID t) j st)
     \<and> stock_frame st st'"
proof -
  from assms(2) obtain row d st1 where g: "GetItemForStatus (tenantID t) iid st = Some row" "stItem row = iid"
    "Decide D (buildInput D s w t row st) = Some d" and p: "persist D s w t row d st = Inr ((), st1)"
    and a: "alert_red D s w t row (buildInput D s w t row st) d (previous_status (tenantID t) iid st) st1 = Inr ((), st')"
    and snap: "snap = snapshot d t" by (rule Recalculate_Inr)
  note keep = GetItemStatus_feed[OF alert_red_Inr(1)[OF a assms(1)]]
  have fr: "stock_frame st st'"
    using status_recalculator.recalc_frame[OF Recalculate_contract[OF assms(1)] assms(2)] .
  have j: "GetItemStatus (tenantID t) j st' = GetItemStatus (tenantID t) j st" if "j \<noteq> iid" for j
    using persist_Inr(3)[OF p] that g(2) by (simp add: keep)
  have "GetItemStatus (tenantID t) iid st' = Some (stored_status (status_params D s w t row d))"
    using persist_Inr(2)[OF p] g(2) by (simp add: keep)
  with g(1,3) snap fr j show ?thesis
    by (intro exI[of _ row] exI[of _ d] exI[of _ "stored_status (status_params D s w t row d)"])
      (simp add: stored_status_def status_params_def snapshot_def DecimalOf_qval)
qed

text \<open>(C17) An alert is raised exactly when the new status is red and worse than the stored one; it names
  the item and both statuses. In every other case nothing is written to the feed or the outbox.\<close>
theorem Recalculate_alerts:
  assumes "rsAlerter s = Some alert" and "alert_channel alert" and "Recalculate D s w t iid st = Inr (snap, st')"
  shows "if IsRed (snCode snap) \<and> WorseThan (snCode snap) (previous_status (tenantID t) iid st)
    then \<exists>ev st1. alert w t ev st1 = Inr ((), st') \<and> notifications st1 = notifications st \<and> outbox st1 = outbox st
      \<and> raItem ev = iid \<and> raStatus ev = snCode snap \<and> raPreviousStatus ev = previous_status (tenantID t) iid st
    else notifications st' = notifications st \<and> outbox st' = outbox st"
proof -
  have ok: "alerts_ok s" using assms(1,2) by (simp add: alerts_ok_def)
  from assms(3) obtain row d st1 where g: "stItem row = iid" and p: "persist D s w t row d st = Inr ((), st1)"
    and a: "alert_red D s w t row (buildInput D s w t row st) d (previous_status (tenantID t) iid st) st1 = Inr ((), st')"
    and snap: "snap = snapshot d t" by (rule Recalculate_Inr)
  have same: "notifications st1 = notifications st" "outbox st1 = outbox st" using persist_Inr(1)[OF p] by auto
  have code: "snCode snap = decStatus d" by (simp add: snap snapshot_def)
  show ?thesis
  proof (cases "IsRed (decStatus d) \<and> WorseThan (decStatus d) (previous_status (tenantID t) iid st)")
    case True
    define ev where "ev = red_alert_of D row (buildInput D s w t row st) d (previous_status (tenantID t) iid st)"
    have "alert w t ev st1 = Inr ((), st')"
      using alert_red_Inr(3)[OF a ok assms(1)] True unfolding ev_def by blast
    moreover have "raItem ev = iid" "raStatus ev = decStatus d" "raPreviousStatus ev = previous_status (tenantID t) iid st"
      by (simp_all add: ev_def red_alert_of_def g)
    ultimately show ?thesis using True same unfolding code by (simp only: if_True simp_thms) blast
  next
    case False
    then show ?thesis using alert_red_Inr(2)[OF a ok] same unfolding code by auto
  qed
qed

section \<open>The batch\<close>

lemma sort_item_day:
  fixes g :: "forecast_row \<Rightarrow> int"
  assumes "\<forall>x \<in> set xs. fc_item x = i"
  shows "sort_key (\<lambda>r. (fc_item r, g r)) xs = sort_key g xs"
  using assms
proof (induction xs)
  case (Cons x xs)
  have "insort_key (\<lambda>r. (fc_item r, g r)) x ys = insort_key g x ys" if "\<forall>y \<in> set ys. fc_item y = fc_item x" for ys
    using that by (induction ys) auto
  then show ?case using Cons by simp
qed simp

lemma filter_sort_item:
  fixes g :: "forecast_row \<Rightarrow> int"
  shows "filter (\<lambda>r. fc_item r = i) (sort_key (\<lambda>r. (fc_item r, g r)) rows) = sort_key g (filter (\<lambda>r. fc_item r = i) rows)"
  unfolding filter_sort by (rule sort_item_day[where i = i]) simp

lemma loadForecasts_item: "loadForecasts tid today st iid = ListForecastForItem tid iid today st"
  by (simp add: loadForecasts_def ListForecastsFrom_def ListForecastForItem_def filter_sort_item conj_commute)

lemma deliveries_append: "deliveries D (xs @ ys) = deliveries D xs @ deliveries D ys"
  by (induction D xs rule: deliveries.induct) auto

text \<open>The groups of one item among the groups of all.\<close>

lemma remdups_filter_fst:
  "map snd (filter (\<lambda>e. fst e = i) (remdups xs)) = remdups (map snd (filter (\<lambda>e. fst e = i) xs))"
  by (induction xs) (auto simp: rev_image_eqI)

lemma loadIncoming_item: "loadIncoming D tid st iid = deliveries D (ListIncomingForItem tid iid st)"
proof -
  let ?ls = "sent_lines tid st"
  let ?f = "\<lambda>i e. sum_list (map (\<lambda>(l, _). ol_qty_ordered l) (filter (\<lambda>(l, e'). ol_item l = i \<and> e' = e) ?ls))"
  let ?keys = "map (\<lambda>(l, e). (ol_item l, e)) ?ls"
  have "filter (\<lambda>r. fst r = iid) (ListIncomingByItem tid st) =
      map (\<lambda>(i, e). (i, e, ?f i e)) (filter (\<lambda>k. fst k = iid) (remdups ?keys))"
    by (simp add: ListIncomingByItem_def Let_def filter_map comp_def case_prod_beta)
  then have "map snd (filter (\<lambda>r. fst r = iid) (ListIncomingByItem tid st)) =
      map (\<lambda>k. (snd k, ?f (fst k) (snd k))) (filter (\<lambda>k. fst k = iid) (remdups ?keys))"
    by (simp add: comp_def case_prod_beta)
  also have "\<dots> = map (\<lambda>e. (e, ?f iid e)) (map snd (filter (\<lambda>k. fst k = iid) (remdups ?keys)))"
    by simp
  also have "map snd (filter (\<lambda>k. fst k = iid) (remdups ?keys)) = remdups (map snd (filter (\<lambda>(l, e). ol_item l = iid) ?ls))"
    unfolding remdups_filter_fst by (simp add: filter_map comp_def split_def)
  also have "map (\<lambda>e. (e, ?f iid e)) (remdups (map snd (filter (\<lambda>(l, e). ol_item l = iid) ?ls))) = ListIncomingForItem tid iid st"
    by (simp add: ListIncomingForItem_def Let_def split_def conj_commute)
  finally show ?thesis by (simp add: loadIncoming_def)
qed

lemma map_of_find: "map_of (map (\<lambda>r. (k r, v r)) xs) i = map_option v (find (\<lambda>r. k r = i) xs)"
  by (induction xs) auto

lemma loadPrevious_item:
  assumes "distinct (map is_item (visible tid is_tenant (item_status st)))"
  shows "WorseThan c (loadPreviousStatuses tid st iid) = WorseThan c (previous_status tid iid st)"
proof -
  let ?rs = "visible tid is_tenant (item_status st)"
  have "map_of (rev (map (\<lambda>r. (is_item r, is_status r)) ?rs)) iid = map_of (map (\<lambda>r. (is_item r, is_status r)) ?rs) iid"
    using assms by (intro fun_cong[OF map_of_inject_set[THEN iffD2]]) (simp_all add: comp_def flip: rev_map)
  also have "\<dots> = map_option is_status (find (\<lambda>r. is_item r = iid) ?rs)"
    by (rule map_of_find)
  finally show ?thesis
    by (auto simp: loadPreviousStatuses_def previous_status_def ListItemStatuses_def GetItemStatus_def
        WorseThan_def severity_def StatusOK_def StatusOutOfStock_def StatusCritical_def StatusOrderToday_def
        StatusNoForecast_def split: option.splits)
qed


text \<open>The consumption of one item among the consumptions of all.\<close>

lemma map_of_groups: "map_of (rev (map (\<lambda>i. (i, f i)) (remdups ks))) i = (if i \<in> set ks then Some (f i) else None)"
proof -
  have "map_of (rev (map (\<lambda>i. (i, f i)) (remdups ks))) = map_of (map (\<lambda>i. (i, f i)) (rev (remdups ks)))"
    by (simp add: rev_map)
  then show ?thesis by (simp add: map_of_map_restrict restrict_map_def)
qed

lemma loadConsumedToday_item:
  assumes "decimal_api D" and "stock_inv st"
  shows "qval D (loadConsumedToday D tid tz day st iid) = SumConsumptionForDay tid iid tz day st"
    and "qval D (pg_Qty D (SumConsumptionForDay tid iid tz day st)) = SumConsumptionForDay tid iid tz day st"
proof -
  let ?ms = "filter (\<lambda>m. is_consumption m \<and> local_day tz (mv_occurred_at m) = pg_Date day) (visible tid mv_tenant (movements st))"
  let ?own = "filter (\<lambda>m. mv_item m = iid) ?ms"
  have sum: "SumConsumptionForDay tid iid tz day st = - sum_list (map mv_qty ?own)"
    by (simp add: SumConsumptionForDay_def conj_commute)
  have "\<forall>x \<in> set (map mv_qty ?own). scale3 x"
    using journal_row(1)[OF assms(2)] by (auto simp: visible_def is_numeric_def)
  then have s3: "scale3 (- sum_list (map mv_qty ?own))" using scale_minus scale_sum_all by blast
  then show two: "qval D (pg_Qty D (SumConsumptionForDay tid iid tz day st)) = SumConsumptionForDay tid iid tz day st"
    by (simp add: sum decimal_api.pg_Qty_val[OF assms(1)])
  have lk: "map_of (rev (SumConsumptionByItemForDay tid tz day st)) iid =
      (if iid \<in> set (map mv_item ?ms) then Some (- sum_list (map mv_qty ?own)) else None)"
    unfolding SumConsumptionByItemForDay_def Let_def by (rule map_of_groups)
  show "qval D (loadConsumedToday D tid tz day st iid) = SumConsumptionForDay tid iid tz day st"
  proof (cases "iid \<in> set (map mv_item ?ms)")
    case True
    with two show ?thesis by (simp only: loadConsumedToday_def lk if_True option.case sum)
  next
    case False
    then have "?own = []" by (auto simp: filter_empty_conv)
    moreover have "loadConsumedToday D tid tz day st iid = qZero D"
      using False by (simp only: loadConsumedToday_def lk if_False option.case)
    ultimately show ?thesis unfolding sum by (simp add: decimal_api.qval_ops[OF assms(1)])
  qed
qed


section \<open>A sample item\<close>

definition sample_statuses :: "dec alerter option \<Rightarrow> dec replenish_service" where
  "sample_statuses al = NewReplenishService System al"

definition sample_row :: status_row where
  "sample_row = status_row_of sample_item None None None None"

definition sample_idle :: "dec reorder_input" where
  "sample_idle = buildInput dec_lib (sample_statuses None) 0 sample_tenant sample_row sample_db"

lemma sample_row: "GetItemForStatus 1 10 sample_db = Some sample_row"
  by (simp add: GetItemForStatus_def join_status_def left_join_def visible_def sample_db_def sample_item_def sample_row_def)

lemma sample_input_any: "buildInput dec_lib (sample_statuses al) 0 sample_tenant sample_row sample_db = sample_idle"
  by (simp add: sample_idle_def buildInput_def sample_statuses_def NewReplenishService_def)

lemma Decide_idle:
  assumes "decimal_api D" and "resModel (inForecast inp) = ModelM0" and "Incoming inp = []"
    and "qval D (inOnHand inp) = 0" and "qval D (ManualMin inp) = 0"
  obtains d where "Decide D inp = Some d" and "marshals (decExplanation d)" and "decStatus d = StatusOutOfStock"
    and "qval D (decOnOrder d) = 0" and "qval D (TargetLevel d) = 0" and "qval D (SafetyStock d) = 0" and "qval D (RecommendedQty d) = 0"
proof -
  have o: "incomingBefore D [] x = qZero D" for x using assms(1) by (simp add: incomingBefore_def)
  obtain d where d: "Decide D inp = Some d" using decimal_api.Decide_total[OF assms(1)] by blast
  then have "d = the (Decide D inp)" by simp
  also have "\<dots> = \<lparr>decStatus = StatusOutOfStock, decOnOrder = qZero D, TargetLevel = ManualMin inp, SafetyStock = qZero D,
       RecommendedQty = qZero D, StockoutDate = projectStockout D inp, decExplanation = decExplanation d\<rparr>"
    using d by (auto simp: Decide_def decideManual_def recommend_def Let_def assms o
        decimal_api.qval_ops[OF assms(1)] decimal_api.qtest_ops[OF assms(1)])
  finally have eq: "d = \<lparr>decStatus = StatusOutOfStock, decOnOrder = qZero D, TargetLevel = ManualMin inp, SafetyStock = qZero D,
       RecommendedQty = qZero D, StockoutDate = projectStockout D inp, decExplanation = decExplanation d\<rparr>" .
  have m: "marshals (decExplanation d)"
    using d by (auto simp: Decide_def decideManual_def Let_def assms o marshals_def split: option.splits)
  show thesis
    by (rule that[OF d m]) (subst eq, simp add: decimal_api.qval_ops[OF assms(1)] assms)+
qed

lemma sample_decision:
  obtains d where "Decide dec_lib sample_idle = Some d" and "marshals (decExplanation d)" and "decStatus d = StatusOutOfStock"
    and "qval dec_lib (decOnOrder d) = 0" and "qval dec_lib (TargetLevel d) = 0" and "qval dec_lib (SafetyStock d) = 0"
    and "qval dec_lib (RecommendedQty d) = 0"
proof (rule Decide_idle[OF dec.decimal_api_axioms, of sample_idle])
  have s: "sample_idle = buildInput dec_lib (sample_statuses None) 0 sample_tenant sample_row sample_db" by (rule sample_idle_def)
  show "resModel (inForecast sample_idle) = ModelM0" "Incoming sample_idle = []"
    "qval dec_lib (inOnHand sample_idle) = 0" "qval dec_lib (ManualMin sample_idle) = 0"
    by (simp_all add: s buildInput_def Let_def row_result_def forecast_points_def ListForecastForItem_def
        ListIncomingForItem_def sent_lines_def visible_def sample_db_def sample_row_def sample_item_def
        status_row_of_def or_else_def)
qed (rule that)

lemma sample_recalculation:
  obtains d st1 where "decStatus d = StatusOutOfStock" and "persist dec_lib (sample_statuses al) 0 sample_tenant sample_row d sample_db = Inr ((), st1)"
    and "Recalculate dec_lib (sample_statuses al) 0 sample_tenant 10 sample_db =
      tx_bind (alert_red dec_lib (sample_statuses al) 0 sample_tenant sample_row sample_idle d StatusOK) (\<lambda>_. tx_return (snapshot d sample_tenant)) st1"
proof -
  obtain d where d: "Decide dec_lib sample_idle = Some d" and ok: "marshals (decExplanation d)" "decStatus d = StatusOutOfStock"
    "qval dec_lib (decOnOrder d) = 0" "qval dec_lib (TargetLevel d) = 0" "qval dec_lib (SafetyStock d) = 0"
    "qval dec_lib (RecommendedQty d) = 0" by (rule sample_decision)
  have "\<exists>st1. persist dec_lib (sample_statuses al) 0 sample_tenant sample_row d sample_db = Inr ((), st1)"
    by (simp add: persist_def tx_eval ok UpsertItemStatus_def status_params_def numeric_14_3_id DecimalOf_qval has_scale_def
        upsert_tx_def sample_db_def item_exists_def sample_tenant_def sample_row_def sample_item_def status_row_of_def)
  then obtain st1 where p: "persist dec_lib (sample_statuses al) 0 sample_tenant sample_row d sample_db = Inr ((), st1)" ..
  have t: "tenantID sample_tenant = 1" by (simp add: sample_tenant_def)
  have "previous_status 1 10 sample_db = StatusOK" by (simp add: previous_status_def GetItemStatus_def visible_def sample_db_def)
  then show thesis
    by (intro that[OF ok(2) p]) (simp add: Recalculate_def Let_def tx_bind_def tx_of_sum_def from_opt_def t sample_row sample_input_any d p del: One_nat_def)
qed

lemma plain_alerts: "alerts_ok (sample_statuses None)"
  by (simp add: alerts_ok_def sample_statuses_def NewReplenishService_def)

theorem Recalculate_stores_witness:
  "\<exists>snap st' r. Recalculate dec_lib (sample_statuses None) 0 sample_tenant 10 sample_db = Inr (snap, st')
     \<and> GetItemStatus 1 10 st' = Some r \<and> is_status r = StatusOutOfStock"
proof -
  obtain d st1 where d: "decStatus d = StatusOutOfStock" and r: "Recalculate dec_lib (sample_statuses None) 0 sample_tenant 10 sample_db =
      tx_bind (alert_red dec_lib (sample_statuses None) 0 sample_tenant sample_row sample_idle d StatusOK) (\<lambda>_. tx_return (snapshot d sample_tenant)) st1"
    by (rule sample_recalculation)
  then have "Recalculate dec_lib (sample_statuses None) 0 sample_tenant 10 sample_db = Inr (snapshot d sample_tenant, st1)"
    by (simp add: alert_red_def sample_statuses_def NewReplenishService_def tx_bind_def)
  from this Recalculate_stores[OF plain_alerts this] d show ?thesis
    by (auto simp: sample_tenant_def snapshot_def)
qed

text \<open>An alerter that counts what it is told in the supply of UUIDs.\<close>

definition counting_alerter :: "dec alerter" where
  "counting_alerter w t ev = tx_bind new_uuid (\<lambda>_. tx_return ())"

lemma counting: "alert_channel counting_alerter"
  by unfold_locales (auto simp: counting_alerter_def tx_bind_def new_uuid_def feed_step_def stock_frame_def tenant_view_def)

theorem Recalculate_alerts_witness:
  "\<exists>snap st'. Recalculate dec_lib (sample_statuses (Some counting_alerter)) 0 sample_tenant 10 sample_db = Inr (snap, st')
     \<and> (\<exists>ev st1. counting_alerter 0 sample_tenant ev st1 = Inr ((), st') \<and> raItem ev = 10)"
proof -
  let ?s = "sample_statuses (Some counting_alerter)"
  obtain d st1 where d: "decStatus d = StatusOutOfStock" and r: "Recalculate dec_lib ?s 0 sample_tenant 10 sample_db =
      tx_bind (alert_red dec_lib ?s 0 sample_tenant sample_row sample_idle d StatusOK) (\<lambda>_. tx_return (snapshot d sample_tenant)) st1"
    by (rule sample_recalculation)
  have "\<exists>st'. Recalculate dec_lib ?s 0 sample_tenant 10 sample_db = Inr (snapshot d sample_tenant, st')"
    unfolding r by (simp add: alert_red_def sample_statuses_def NewReplenishService_def tx_bind_def counting_alerter_def
        new_uuid_def tx_lift_def)
  then obtain st' where R: "Recalculate dec_lib ?s 0 sample_tenant 10 sample_db = Inr (snapshot d sample_tenant, st')" ..
  have "IsRed (snCode (snapshot d sample_tenant)) \<and> WorseThan (snCode (snapshot d sample_tenant)) (previous_status 1 10 sample_db)"
    by (simp add: snapshot_def d previous_status_def GetItemStatus_def visible_def sample_db_def IsRed_def WorseThan_def
        severity_def StatusOK_def StatusOutOfStock_def StatusCritical_def)
  with R Recalculate_alerts[OF _ counting R] show ?thesis
    by (auto simp: sample_statuses_def NewReplenishService_def sample_tenant_def)
qed


end
