(* ===== verification/Notify_Correct.thy ===== *)
theory Notify_Correct
  imports Notify Replenish_Correct
begin

text \<open>
  Correctness of the notifications: a notification is written once for its key and queued for the
  right addressees at the right time, and writing it keeps the contract \<open>alert_channel\<close> that the
  status recalculation relies on.
\<close>

section \<open>Writing\<close>

lemma visible_snoc_other: "f x = tid \<Longrightarrow> other \<noteq> tid \<Longrightarrow> visible other f (xs @ [x]) = visible other f xs"
  by (simp add: visible_def)

definition queued_for :: "tenant \<Rightarrow> notification_type \<Rightarrow> user_row \<Rightarrow> (string \<times> string) list" where
  "queued_for t kind r =
     (case us_telegram r of Some chat \<Rightarrow> if TelegramEnabled (tenantSettings t) then [(ChannelTelegram, decimal_text_of chat)] else []
       | None \<Rightarrow> [])
     @ (if EmailEnabled (tenantSettings t) \<and> kind = TypeDailyDigest \<and> us_email r \<noteq> [] then [(ChannelEmail, us_email r)] else [])"

text \<open>A message of the tenant waiting for its first attempt.\<close>

definition fresh_message :: "tenant \<Rightarrow> uuid \<Rightarrow> 'd payload \<Rightarrow> instant \<Rightarrow> 'd outbox_row \<Rightarrow> bool" where
  "fresh_message t nid p sendAt m \<longleftrightarrow> ob_tenant m = tenantID t \<and> ob_notification m = Some nid \<and> ob_payload m = p
     \<and> ob_status m = ''pending'' \<and> ob_attempts m = 0 \<and> ob_next_attempt_at m = pg_Time sendAt"

text \<open>Only the queue grows, by messages for the given addresses.\<close>

definition queues :: "tenant \<Rightarrow> uuid \<Rightarrow> 'd payload \<Rightarrow> instant \<Rightarrow> (string \<times> string) list \<Rightarrow> 'd db \<Rightarrow> 'd db \<Rightarrow> bool" where
  "queues t nid p sendAt tos st st' \<longleftrightarrow> (\<exists>ms n. st' = st\<lparr>outbox := outbox st @ ms, uuid_supply := n\<rparr> \<and> uuid_supply st \<le> n
     \<and> map (\<lambda>m. (ob_channel m, ob_recipient m)) ms = tos \<and> (\<forall>m \<in> set ms. fresh_message t nid p sendAt m))"

lemma queues_none: "queues t nid p sendAt [] st st"
  unfolding queues_def by (rule exI[of _ "[]"], rule exI[of _ "uuid_supply st"], cases st) simp

lemma queues_append:
  assumes "queues t nid p sendAt as a b" and "queues t nid p sendAt bs b c"
  shows "queues t nid p sendAt (as @ bs) a c"
proof -
  from assms(1) obtain ms n where 1: "b = a\<lparr>outbox := outbox a @ ms, uuid_supply := n\<rparr>" "uuid_supply a \<le> n"
    "map (\<lambda>m. (ob_channel m, ob_recipient m)) ms = as" "\<forall>m \<in> set ms. fresh_message t nid p sendAt m"
    by (auto simp: queues_def)
  from assms(2) obtain ms' n' where 2: "c = b\<lparr>outbox := outbox b @ ms', uuid_supply := n'\<rparr>" "uuid_supply b \<le> n'"
    "map (\<lambda>m. (ob_channel m, ob_recipient m)) ms' = bs" "\<forall>m \<in> set ms'. fresh_message t nid p sendAt m"
    by (auto simp: queues_def)
  have "c = a\<lparr>outbox := outbox a @ ms @ ms', uuid_supply := n'\<rparr>" by (simp add: 1(1) 2(1))
  then show ?thesis unfolding queues_def using 1 2 by (intro exI[of _ "ms @ ms'"] exI[of _ n']) auto
qed

lemma enqueue_queues:
  assumes "enqueue w t nid ch to p sendAt st = Inr (u, st')"
  shows "queues t nid p sendAt [(ch, to)] st st'"
proof -
  define row where "row = \<lparr>ob_id = uuid_supply st, ob_tenant = tenantID t, ob_notification = Some nid, ob_channel = ch,
      ob_recipient = to, ob_payload = p, ob_status = ''pending'', ob_attempts = 0,
      ob_next_attempt_at = pg_Time sendAt, ob_last_error = [], ob_created_at = pg_Time w, ob_sent_at = None\<rparr>"
  have "st' = st\<lparr>outbox := outbox st @ [row], uuid_supply := Suc (uuid_supply st)\<rparr>"
    using assms by (auto simp: enqueue_def new_uuid_def InsertOutbox_def Let_def bindE_Inr_iff row_def)
  then show ?thesis unfolding queues_def
    by (intro exI[of _ "[row]"] exI[of _ "Suc (uuid_supply st)"]) (simp add: row_def fresh_message_def)
qed

lemma enqueue_for_queues:
  assumes "enqueue_for w t kind nid p sendAt r st = Inr (u, st')"
  shows "queues t nid p sendAt (queued_for t kind r) st st'"
proof -
  from assms obtain st1 where a: "(case us_telegram r of
        Some chat \<Rightarrow> if TelegramEnabled (tenantSettings t)
          then enqueue w t nid ChannelTelegram (decimal_text_of chat) p sendAt else tx_return ()
      | None \<Rightarrow> tx_return ()) st = Inr ((), st1)"
    and b: "(if EmailEnabled (tenantSettings t) \<and> kind = TypeDailyDigest \<and> us_email r \<noteq> []
     then enqueue w t nid ChannelEmail (us_email r) p sendAt else tx_return ()) st1 = Inr (u, st')"
    unfolding enqueue_for_def by auto
  show ?thesis unfolding queued_for_def
  proof (rule queues_append)
    show "queues t nid p sendAt (case us_telegram r of
        Some chat \<Rightarrow> if TelegramEnabled (tenantSettings t) then [(ChannelTelegram, decimal_text_of chat)] else []
      | None \<Rightarrow> []) st st1"
      using a by (auto simp: queues_none split: option.splits if_splits intro: enqueue_queues)
    show "queues t nid p sendAt
      (if EmailEnabled (tenantSettings t) \<and> kind = TypeDailyDigest \<and> us_email r \<noteq> [] then [(ChannelEmail, us_email r)] else []) st1 st'"
      using b by (auto simp: queues_none split: if_splits intro: enqueue_queues)
  qed
qed

lemma enqueue_all_queues:
  "tx_for rs (enqueue_for w t kind nid p sendAt) st = Inr (u, st') \<Longrightarrow>
     queues t nid p sendAt (concat (map (queued_for t kind) rs)) st st'"
proof (induction rs arbitrary: st)
  case Nil
  then show ?case by (simp add: queues_none)
next
  case (Cons r rs)
  then show ?case by (auto intro: queues_append enqueue_for_queues)
qed

text \<open>What the feed knows of a key.\<close>

definition knows_key :: "uuid \<Rightarrow> string \<Rightarrow> 'd db \<Rightarrow> bool" where
  "knows_key tid key st \<longleftrightarrow> (\<exists>r \<in> set (notifications st). nt_tenant r = tid \<and> nt_dedup_key r = key)"

definition feed_row :: "notify_service \<Rightarrow> instant \<Rightarrow> tenant \<Rightarrow> notification_type \<Rightarrow> string \<Rightarrow> 'd payload \<Rightarrow> uuid \<Rightarrow> 'd notification_row" where
  "feed_row s w t kind key p i = \<lparr>nt_id = i, nt_tenant = tenantID t, nt_user = None, nt_type = kind, nt_payload = p,
     nt_dedup_key = key, nt_read_at = None, nt_created_at = pg_Time (clock_Now (nsClock s) w)\<rparr>"

definition addressees :: "tenant \<Rightarrow> notification_type \<Rightarrow> 'd db \<Rightarrow> (string \<times> string) list" where
  "addressees t kind st = (if IsSandbox t then [] else concat (map (queued_for t kind) (ListRecipients (tenantID t) st)))"

lemma insert_once_known:
  "nt_tenant r = tid \<Longrightarrow> nt_dedup_key r = key \<Longrightarrow> knows_key tid key st \<Longrightarrow> insert_once r st = Inr (None, st)"
  by (auto simp: insert_once_def InsertNotification_def knows_key_def list_ex_iff)

lemma insert_once_new:
  assumes "insert_once r st = Inr (c, st')" and "\<not> knows_key (nt_tenant r) (nt_dedup_key r) st"
  shows "c = Some (r\<lparr>nt_read_at := None, nt_created_at := pg_Time (nt_created_at r)\<rparr>)"
    and "st' = st\<lparr>notifications := notifications st @ [r\<lparr>nt_read_at := None, nt_created_at := pg_Time (nt_created_at r)\<rparr>]\<rparr>"
proof -
  define q where "q = r\<lparr>nt_read_at := None, nt_created_at := pg_Time (nt_created_at r)\<rparr>"
  have k: "nt_tenant q = nt_tenant r" "nt_dedup_key q = nt_dedup_key r" by (simp_all add: q_def)
  have no: "\<not> list_ex (\<lambda>x. nt_tenant x = nt_tenant q \<and> nt_dedup_key x = nt_dedup_key q) (notifications st)"
    using assms(2) by (simp add: knows_key_def list_ex_iff k)
  have "InsertNotification r st = bindE (guardE (\<not> list_ex (\<lambda>x. nt_id x = nt_id q) (notifications st)) (UniqueViolation ''notifications_pkey''))
      (\<lambda>_. Inr (q, st\<lparr>notifications := notifications st @ [q]\<rparr>))"
    unfolding InsertNotification_def Let_def q_def[symmetric] using no by simp
  then have "c = Some q \<and> st' = st\<lparr>notifications := notifications st @ [q]\<rparr>"
    using assms(1) by (cases "list_ex (\<lambda>x. nt_id x = nt_id q) (notifications st)") (auto simp: insert_once_def bindE_def guardE_def)
  then show "c = Some (r\<lparr>nt_read_at := None, nt_created_at := pg_Time (nt_created_at r)\<rparr>)"
    and "st' = st\<lparr>notifications := notifications st @ [r\<lparr>nt_read_at := None, nt_created_at := pg_Time (nt_created_at r)\<rparr>]\<rparr>"
    unfolding q_def by blast+
qed

lemma Emit_known:
  "knows_key (tenantID t) key st \<Longrightarrow> Emit s w t kind key p st = Inr ((), st\<lparr>uuid_supply := Suc (uuid_supply st)\<rparr>)"
  by (simp add: Emit_def Let_def tx_bind_def new_uuid_def insert_once_known[of _ "tenantID t" key] knows_key_def)

lemma Emit_new:
  assumes "Emit s w t kind key p st = Inr (u, st')" and "\<not> knows_key (tenantID t) key st"
  obtains st1 where "st1 = st\<lparr>notifications := notifications st @ [feed_row s w t kind key p (uuid_supply st)],
      uuid_supply := Suc (uuid_supply st)\<rparr>"
    and "queues t (uuid_supply st) p (send_time t kind (clock_Now (nsClock s) w)) (addressees t kind st) st1 st'"
proof -
  define st0 where "st0 = st\<lparr>uuid_supply := Suc (uuid_supply st)\<rparr>"
  define r where "r = (feed_row s w t kind key p (uuid_supply st))\<lparr>nt_created_at := clock_Now (nsClock s) w\<rparr>"
  from assms(1) obtain c st1 where i: "insert_once r st0 = Inr (c, st1)"
    and rest: "(case c of None \<Rightarrow> tx_return ()
     | Some row \<Rightarrow> if IsSandbox t then tx_return () else
       tx_bind (tx_get (ListRecipients (tenantID t))) (\<lambda>recipients.
       tx_for recipients (enqueue_for w t kind (nt_id row) p (send_time t kind (clock_Now (nsClock s) w))))) st1 = Inr (u, st')"
    unfolding Emit_def Let_def by (auto simp: new_uuid_def st0_def r_def feed_row_def)
  have "\<not> knows_key (nt_tenant r) (nt_dedup_key r) st0"
    using assms(2) by (simp add: knows_key_def st0_def r_def feed_row_def)
  note n = insert_once_new[OF i this]
  have row: "r\<lparr>nt_read_at := None, nt_created_at := pg_Time (nt_created_at r)\<rparr> = feed_row s w t kind key p (uuid_supply st)"
    by (simp add: r_def feed_row_def)
  have st1: "st1 = st\<lparr>notifications := notifications st @ [feed_row s w t kind key p (uuid_supply st)],
      uuid_supply := Suc (uuid_supply st)\<rparr>"
    by (simp add: n(2) row st0_def)
  have rc: "ListRecipients (tenantID t) st1 = ListRecipients (tenantID t) st"
    by (simp add: ListRecipients_def st1)
  show thesis
  proof (rule that[OF st1])
    show "queues t (uuid_supply st) p (send_time t kind (clock_Now (nsClock s) w)) (addressees t kind st) st1 st'"
    proof (cases "IsSandbox t")
      case True
      then show ?thesis using rest by (simp add: n(1) addressees_def queues_none)
    next
      case False
      then have "tx_for (ListRecipients (tenantID t) st)
          (enqueue_for w t kind (uuid_supply st) p (send_time t kind (clock_Now (nsClock s) w))) st1 = Inr (u, st')"
        using rest by (simp add: n(1) row rc) (simp add: feed_row_def)
      from enqueue_all_queues[OF this] show ?thesis using False by (simp add: addressees_def)
    qed
  qed
qed

lemma queues_feed: "queues t nid p sendAt tos st st' \<Longrightarrow> feed_step (tenantID t) st st'"
  by (auto simp: queues_def feed_step_def stock_frame_def tenant_view_def visible_append fresh_message_def)
    (auto simp: visible_def fresh_message_def filter_empty_conv)

lemma Emit_feed:
  assumes "Emit s w t kind key p st = Inr (u, st')"
  shows "feed_step (tenantID t) st st'"
proof (cases "knows_key (tenantID t) key st")
  case True
  have "st' = st\<lparr>uuid_supply := Suc (uuid_supply st)\<rparr>" using assms Emit_known[OF True, of s w kind p] by simp
  then show ?thesis by (simp add: feed_step_def stock_frame_def tenant_view_def)
next
  case False
  from Emit_new[OF assms this] obtain st1 where st1: "st1 = st\<lparr>notifications := notifications st @ [feed_row s w t kind key p (uuid_supply st)],
      uuid_supply := Suc (uuid_supply st)\<rparr>"
    and q: "queues t (uuid_supply st) p (send_time t kind (clock_Now (nsClock s) w)) (addressees t kind st) st1 st'" .
  have "feed_step (tenantID t) st st1"
    by (simp add: st1 feed_step_def stock_frame_def tenant_view_def visible_append)
      (simp add: visible_def feed_row_def)
  then show ?thesis using queues_feed[OF q] by (rule feed_step_trans)
qed

interpretation red: alert_channel "ItemWentRed D U s" for D U s
  by unfold_locales (auto simp: ItemWentRed_def Let_def intro: Emit_feed)

interpretation alerting: status_recalculator "Recalculate D (NewReplenishService cl (Some (ItemWentRed D U s)))" for D cl U s
  by (rule Recalculate_contract) (simp add: alerts_ok_def NewReplenishService_def red.alert_channel_axioms)

section \<open>Keys\<close>

text \<open>The text of a UUID has no colon.\<close>

definition uuid_plain :: "uuid_lib \<Rightarrow> bool" where
  "uuid_plain U \<longleftrightarrow> uuid_text U \<and> (\<forall>i. CHR '':'' \<notin> set (uString U i))"

lemma field_split:
  assumes "CHR '':'' \<notin> set a" and "CHR '':'' \<notin> set b"
  shows "a @ CHR '':'' # x = b @ CHR '':'' # y \<longleftrightarrow> a = b \<and> x = y"
  using assms
proof (induction a arbitrary: b)
  case Nil
  then show ?case by (cases b) auto
next
  case (Cons c a)
  then show ?case by (cases b) auto
qed

lemma CriticalKey_inject:
  assumes "uuid_plain U"
  shows "CriticalKey U i a = CriticalKey U j b \<longleftrightarrow> i = j \<and> day_String a = day_String b"
  using assms by (simp add: CriticalKey_def uuid_plain_def field_split uString_inject)

lemma day_String_inject:
  "valid_day a \<Longrightarrow> valid_day b \<Longrightarrow> 0 \<le> Year a \<Longrightarrow> Year a \<le> 9999 \<Longrightarrow> 0 \<le> Year b \<Longrightarrow> Year b \<le> 9999 \<Longrightarrow>
     day_String a = day_String b \<longleftrightarrow> a = b"
  by (metis ParseDay_String sum.inject(2))

text \<open>The keys keep apart what is to be told apart: a critical alert is for one item and one day, a
  reminder for one supplier and one day, a digest for one day, a late order and a mismatch for one
  order; keys of different kinds never coincide.\<close>
theorem keys_separate:
  assumes "uuid_plain U" and "valid_day a" and "valid_day b" and "0 \<le> Year a" and "Year a \<le> 9999"
    and "0 \<le> Year b" and "Year b \<le> 9999"
  shows "(CriticalKey U i a = CriticalKey U j b \<longleftrightarrow> i = j \<and> a = b) \<and> (CutoffKey U i a = CutoffKey U j b \<longleftrightarrow> i = j \<and> a = b)
     \<and> (DigestKey a = DigestKey b \<longleftrightarrow> a = b) \<and> (LateKey U i = LateKey U j \<longleftrightarrow> i = j)
     \<and> (MismatchKey U i = MismatchKey U j \<longleftrightarrow> i = j)
     \<and> distinct [CriticalKey U i a, CutoffKey U j b, DigestKey c, LateKey U k, MismatchKey U l]"
  using assms(1) day_String_inject[OF assms(2-)]
  by (simp add: CriticalKey_def CutoffKey_def DigestKey_def LateKey_def MismatchKey_def uuid_plain_def field_split uString_inject)

section \<open>The next morning\<close>

text \<open>The clock of the zone is not changed for four days around now.\<close>

definition steady_around :: "location \<Rightarrow> int \<Rightarrow> instant \<Rightarrow> bool" where
  "steady_around loc off now \<longleftrightarrow> \<bar>off\<bar> \<le> seconds_per_day
     \<and> (\<forall>s. \<bar>s - now div second\<bar> \<le> 4 * seconds_per_day \<longrightarrow> zone_offset loc s = off)"

lemma local_steady:
  "steady_around loc off now \<Longrightarrow> \<bar>x div second - now div second\<bar> \<le> 4 * seconds_per_day \<Longrightarrow> local_seconds x loc = x div second + off"
  by (simp add: local_seconds_def steady_around_def Let_def)

lemma time_date_steady:
  fixes now :: int
  assumes st: "steady_around loc off now" and "0 \<le> ns" and "ns < second"
    and "\<bar>civil_to_days y m d * seconds_per_day + (h * 3600 + mi * 60 + s) - now div second\<bar> \<le> 3 * seconds_per_day"
  shows "time_date y m d h mi s ns loc =
     (civil_to_days y m d * seconds_per_day + (h * 3600 + mi * 60 + s) - off) * second + ns"
proof -
  let ?u = "civil_to_days y m d * seconds_per_day + (h * 3600 + mi * 60 + s)"
  obtain o1 start stop where z: "zone_lookup loc ?u = (o1, start, stop)" by (metis prod.exhaust)
  have u: "zone_offset loc ?u = off" "zone_offset loc (?u - off) = off"
    using st assms(4) by (auto simp: steady_around_def)
  with z have "o1 = off" by (simp add: zone_offset_def)
  then show ?thesis using z u(2) assms(2,3) by (simp add: time_date_def Let_def)
qed

lemma civil_of_days_back: "civil_of_days n = (y, m, d) \<Longrightarrow> civil_to_days y m d = n"
  using dnum_of_num[of n] by (simp add: day_of_num_def day_of_civil_def dnum_def)

lemma tod_fields:
  assumes "local_seconds x loc = n * seconds_per_day + (h * 3600 + mi * 60)"
    and "0 \<le> h" "h \<le> 23" "0 \<le> mi" "mi \<le> 59"
  shows "local_seconds x loc div seconds_per_day = n" and "local_hour x loc = h" and "local_minute x loc = mi" and "local_second x loc = 0"
proof -
  have m: "local_seconds x loc mod seconds_per_day = h * 3600 + mi * 60"
    unfolding assms(1) using assms(2-) by (simp add: seconds_per_day_def)
  show "local_seconds x loc div seconds_per_day = n"
    unfolding assms(1) using assms(2-) by (simp add: seconds_per_day_def)
  show "local_hour x loc = h" using assms(2-) by (simp add: local_hour_def m)
  have q: "local_seconds x loc = mi * 60 + (n * 24 + h) * 3600" by (simp add: assms(1) seconds_per_day_def)
  have "local_seconds x loc mod 3600 = mi * 60" unfolding q mod_mult_self1 using assms(4,5) by simp
  then show "local_minute x loc = mi" by (simp add: local_minute_def)
  have q: "local_seconds x loc = (mi + (n * 24 + h) * 60) * 60" by (simp add: assms(1) seconds_per_day_def)
  show "local_second x loc = 0" unfolding local_second_def q by simp
qed

text \<open>The end of the quiet hours of the local day, and of the next day, as seconds.\<close>

lemma nextMorning_steady:
  fixes now :: int
  assumes st: "steady_around (Loc t) off now" and "valid_tod (QuietTo (tenantSettings t))"
  defines "n \<equiv> (now div second + off) div seconds_per_day"
  defines "m \<equiv> (n * seconds_per_day + minute_of_day (QuietTo (tenantSettings t)) * 60 - off) * second"
  shows "nextMorning t now = (if now < m then m else m + seconds_per_day * second)"
proof -
  define k where "k = minute_of_day (QuietTo (tenantSettings t)) * 60"
  have off: "\<bar>off\<bar> \<le> seconds_per_day" using st by (simp add: steady_around_def)
  have k: "0 \<le> k" "k < seconds_per_day" using minute_of_day_range[OF assms(2)] by (auto simp: k_def seconds_per_day_def)
  have n: "n * seconds_per_day \<le> now div second + off" "now div second + off < n * seconds_per_day + seconds_per_day"
    unfolding n_def by (simp_all add: seconds_per_day_def)
  have near: "\<bar>n * seconds_per_day + k - now div second\<bar> \<le> 3 * seconds_per_day"
    "\<bar>(n + 1) * seconds_per_day + k - now div second\<bar> \<le> 3 * seconds_per_day"
    using off k n by (simp_all add: algebra_simps)
  obtain y mo d where c: "local_date now (Loc t) = (y, mo, d)" by (metis prod.exhaust)
  have "local_seconds now (Loc t) = now div second + off" by (rule local_steady[OF st]) (simp add: seconds_per_day_def)
  with c have nd: "civil_to_days y mo d = n"
    by (intro civil_of_days_back) (simp add: local_date_def n_def)
  let ?to = "QuietTo (tenantSettings t)"
  have v: "0 \<le> tHour ?to" "tHour ?to \<le> 23" "0 \<le> tMinute ?to" "tMinute ?to \<le> 59"
    using assms(2) by (auto simp: valid_tod_def)
  have kk: "tHour ?to * 3600 + tMinute ?to * 60 = k" by (simp add: k_def minute_of_day_def)
  have sec: "(0::int) < second" by (simp add: second_def)
  have m: "time_date y mo d (tHour ?to) (tMinute ?to) 0 0 (Loc t) = m"
    using time_date_steady[OF st order_refl sec, of y mo d "tHour ?to" "tMinute ?to" 0] near(1) kk
    by (simp add: nd m_def k_def)
  have ms: "m div second = n * seconds_per_day + k - off" using sec by (simp add: m_def k_def)
  have loc: "local_seconds m (Loc t) = n * seconds_per_day + (tHour ?to * 3600 + tMinute ?to * 60)"
    using local_steady[OF st, of m] near(1) off k n unfolding ms kk by (simp add: abs_if split: if_splits)
  note F = tod_fields[OF loc v]
  obtain y' mo' d' where c': "local_date m (Loc t) = (y', mo', d')" by (metis prod.exhaust)
  then have n': "civil_to_days y' mo' (d' + 1) = n + 1"
    unfolding civil_to_days_add by (simp add: civil_of_days_back local_date_def F)
  have "m mod second = 0" by (simp add: m_def)
  moreover have "time_date y' mo' (d' + 1) (tHour ?to) (tMinute ?to) 0 0 (Loc t) = ((n + 1) * seconds_per_day + k - off) * second"
    using time_date_steady[OF st order_refl sec, of y' mo' "d' + 1" "tHour ?to" "tMinute ?to" 0] near(2)
    unfolding n' by (simp only: kk add_0_right simp_thms)
  ultimately have "time_date y' mo' (d' + 1) (local_hour m (Loc t)) (local_minute m (Loc t)) (local_second m (Loc t))
      (m mod second) (Loc t) = m + seconds_per_day * second"
    unfolding F by (simp add: m_def k_def algebra_simps)
  then show ?thesis by (simp add: nextMorning_def c m c' Let_def)
qed

text \<open>The moment for which the quiet hours are waited out: a time that is not quiet, before which all is quiet.\<close>

definition quiet_end :: "tenant \<Rightarrow> instant \<Rightarrow> instant \<Rightarrow> bool" where
  "quiet_end t now e \<longleftrightarrow> now < e \<and> e \<le> now + 24 * hour \<and> \<not> IsQuietHours t e
     \<and> (\<forall>u. now \<le> u \<and> u < e \<longrightarrow> IsQuietHours t u)"

lemma nextMorning_shape:
  fixes now :: int
  assumes "steady_around (Loc t) off now" and "valid_tod (QuietTo (tenantSettings t))"
  obtains j where "nextMorning t now = (j * seconds_per_day + minute_of_day (QuietTo (tenantSettings t)) * 60 - off) * second"
    and "now < nextMorning t now" and "nextMorning t now \<le> now + 24 * hour"
proof -
  define n where "n = (now div second + off) div seconds_per_day"
  define r where "r = (now div second + off) mod seconds_per_day"
  define k where "k = minute_of_day (QuietTo (tenantSettings t)) * 60"
  have sec: "(0::int) < second" by (simp add: second_def)
  have k: "0 \<le> k" "k < seconds_per_day" using minute_of_day_range[OF assms(2)] by (auto simp: k_def seconds_per_day_def)
  have r: "0 \<le> r" "r < seconds_per_day" by (simp_all add: r_def seconds_per_day_def)
  have now: "now = (n * seconds_per_day + r - off) * second + now mod second"
  proof -
    have "n * seconds_per_day + r - off = now div second" by (simp add: n_def r_def)
    then show ?thesis by simp
  qed
  have f: "0 \<le> now mod second" "now mod second < second" using sec by simp_all
  note N = nextMorning_steady[OF assms, folded n_def k_def]
  define m where "m = (n * seconds_per_day + k - off) * second"
  have day: "24 * hour = seconds_per_day * second" by (simp add: hour_def seconds_per_day_def)
  have ms: "m - now = (k - r) * second - now mod second" using now by (simp add: m_def algebra_simps)
  have up: "(k - r) * second \<le> seconds_per_day * second" using k r sec by (intro mult_right_mono) auto
  have down: "(- seconds_per_day + 1) * second \<le> (k - r) * second" using k r sec by (intro mult_right_mono) auto
  have between: "now < nextMorning t now" "nextMorning t now \<le> now + 24 * hour"
    unfolding N m_def[symmetric] day using ms up down f by (auto simp: algebra_simps)
  show thesis
  proof (cases "now < m")
    case True
    then show thesis using N that[of n] between by (simp add: m_def k_def)
  next
    case False
    then have "nextMorning t now = ((n + 1) * seconds_per_day + k - off) * second" using N by (simp add: m_def algebra_simps)
    then show thesis using that[of "n + 1"] between by (simp add: k_def)
  qed
qed

text \<open>How many minutes before \<open>QuietTo\<close> a time is decides whether it is quiet.\<close>

lemma quiet_before:
  fixes e q f g :: int
  assumes "1 \<le> e" and "e \<le> 1440"
  shows "(j * 1440 + g - e - f) mod 1440 < (g - f) mod 1440 \<longleftrightarrow> e \<le> (g - f) mod 1440"
proof -
  define q where "q = (g - f) mod 1440"
  have q: "0 \<le> q" "q < 1440" by (simp_all add: q_def)
  have "(j * 1440 + g - e - f) mod 1440 = (q - e) mod 1440"
  proof -
    have "j * 1440 + g - e - f = (g - f) - e + j * 1440" by simp
    then show ?thesis unfolding q_def by (metis mod_diff_left_eq mod_mult_self1)
  qed
  also have "\<dots> = (if e \<le> q then q - e else q - e + 1440)"
    using assms q mod_pos_pos_trivial[of "q - e + 1440" 1440] by (auto simp: mod_pos_pos_trivial)
  finally show ?thesis using assms q by (auto simp: q_def[symmetric])
qed

lemma nextMorning_quiet_end:
  fixes now :: int
  assumes st: "steady_around (Loc t) off now" and v: "valid_tod (QuietFrom (tenantSettings t))" "valid_tod (QuietTo (tenantSettings t))"
    and quiet: "IsQuietHours t now"
  shows "quiet_end t now (nextMorning t now)"
proof -
  let ?at = "nextMorning t now"
  define g where "g = minute_of_day (QuietTo (tenantSettings t))"
  define f where "f = minute_of_day (QuietFrom (tenantSettings t))"
  obtain j where at: "?at = (j * seconds_per_day + g * 60 - off) * second"
    and up: "now < ?at" "?at \<le> now + 24 * hour"
    unfolding g_def by (rule nextMorning_shape[OF st v(2)])
  have sec: "(0::int) < second" by (simp add: second_def)
  have as: "?at div second = j * seconds_per_day + g * 60 - off" unfolding at using sec by simp
  have day: "24 * hour = seconds_per_day * second" by (simp add: hour_def seconds_per_day_def)
  have span: "u div second \<le> now div second + seconds_per_day" if "u \<le> now + 24 * hour" for u
    using zdiv_mono1[OF that sec] sec by (simp add: day)
  have ls: "local_seconds u (Loc t) = u div second + off" if "now \<le> u" "u \<le> now + 24 * hour" for u
    using local_steady[OF st, of u] span[OF that(2)] zdiv_mono1[OF that(1) sec] by (simp add: seconds_per_day_def)
  define minutes where "minutes = (\<lambda>u. (u div second + off) div 60)"
  have quiet_iff: "IsQuietHours t u \<longleftrightarrow> (minutes u - f) mod 1440 < (g - f) mod 1440" if "now \<le> u" "u \<le> now + 24 * hour" for u
  proof -
    have "(u div second + off) mod seconds_per_day div 60 = minutes u mod 1440"
      using zmod_zmult2_eq[of 1440 "u div second + off" 60] by (simp add: minutes_def seconds_per_day_def)
    then show ?thesis
      unfolding quiet_hours_cyclic[OF v] ls[OF that] f_def[symmetric] g_def[symmetric] by (simp add: mod_diff_left_eq)
  qed
  have am: "minutes ?at = j * 1440 + g"
    unfolding minutes_def as by (simp add: seconds_per_day_def algebra_simps)
  have before: "minutes u < minutes ?at" "minutes ?at \<le> minutes u + 1440" if "now \<le> u" "u < ?at" for u
  proof -
    have below: "x div q < y" if "x < y * q" "0 < q" for x y q :: int
    proof (rule ccontr)
      assume "\<not> x div q < y"
      then have "y * q \<le> (x div q) * q" using that(2) by (intro mult_right_mono) simp_all
      also have "\<dots> \<le> x" using that(2) minus_mod_eq_div_mult[of x q] pos_mod_sign[of q x] by linarith
      finally show False using that(1) by simp
    qed
    have "u div second < ?at div second"
      using below[OF _ sec] that(2) sec unfolding at by simp
    then have "u div second + off < (j * 1440 + g) * 60" by (simp add: as seconds_per_day_def algebra_simps)
    then show "minutes u < minutes ?at" unfolding am unfolding minutes_def by (rule below) simp
    have "?at div second \<le> u div second + seconds_per_day"
      using span[OF up(2)] zdiv_mono1[OF that(1) sec] by simp
    then have "?at div second + off \<le> u div second + off + 1440 * 60" by (simp add: seconds_per_day_def)
    then have "(?at div second + off) div 60 \<le> (u div second + off + 1440 * 60) div 60" by (rule zdiv_mono1) simp
    then show "minutes ?at \<le> minutes u + 1440" by (simp add: minutes_def)
  qed
  have e: "IsQuietHours t u \<longleftrightarrow> minutes ?at - minutes u \<le> (g - f) mod 1440" if "now \<le> u" "u < ?at" for u
  proof -
    have m: "minutes u = j * 1440 + g - (minutes ?at - minutes u)" by (simp add: am)
    show ?thesis using quiet_iff[of u] quiet_before[of "minutes ?at - minutes u" j g f] before[OF that] that up(2) m by simp
  qed
  have "minutes ?at - minutes now \<le> (g - f) mod 1440" using e[of now] quiet up(1) by simp
  moreover have "minutes now \<le> minutes u" if "now \<le> u" for u
    unfolding minutes_def using zdiv_mono1[OF that sec] by (intro zdiv_mono1) simp_all
  ultimately have all: "IsQuietHours t u" if "now \<le> u" "u < ?at" for u using e[OF that] that by fastforce
  have "\<not> IsQuietHours t ?at" using quiet_iff[of ?at] up unfolding am by (simp add: mod_diff_left_eq add_diff_eq[symmetric])
  with all up show ?thesis by (simp add: quiet_end_def)
qed

section \<open>Once for a key\<close>

text \<open>(C15) \<open>Emit\<close> writes a notification once for its key. A key the tenant's feed knows adds nothing to
  the feed or the queue; a new one adds one row to the feed and, unless the tenant is a sandbox, for
  every owner one message to each channel that is switched on (mail only for the digest). They are due at
  once, except a critical one in the quiet hours: while the clock of the zone is not changed, it is due at the
  first moment that is not quiet.\<close>
theorem Emit_once:
  assumes "Emit s w t kind key p st = Inr (u, st')"
  defines "now \<equiv> clock_Now (nsClock s) w"
  shows "if knows_key (tenantID t) key st then notifications st' = notifications st \<and> outbox st' = outbox st
    else \<exists>i ms e. notifications st' = notifications st @ [feed_row s w t kind key p i] \<and> outbox st' = outbox st @ ms
      \<and> map (\<lambda>m. (ob_channel m, ob_recipient m)) ms = addressees t kind st \<and> (\<forall>m \<in> set ms. fresh_message t i p e m)
      \<and> (kind \<noteq> TypeCritical \<or> \<not> IsQuietHours t now \<longrightarrow> e = now)
      \<and> (kind = TypeCritical \<and> IsQuietHours t now \<and> valid_tod (QuietFrom (tenantSettings t)) \<and> valid_tod (QuietTo (tenantSettings t))
          \<and> (\<exists>off. steady_around (Loc t) off now) \<longrightarrow> quiet_end t now e)"
proof (cases "knows_key (tenantID t) key st")
  case True
  have "st' = st\<lparr>uuid_supply := Suc (uuid_supply st)\<rparr>" using assms(1) Emit_known[OF True, of s w kind p] by simp
  then show ?thesis using True by simp
next
  case False
  from Emit_new[OF assms(1) this] obtain st1 where st1: "st1 = st\<lparr>notifications := notifications st @ [feed_row s w t kind key p (uuid_supply st)],
      uuid_supply := Suc (uuid_supply st)\<rparr>"
    and q: "queues t (uuid_supply st) p (send_time t kind now) (addressees t kind st) st1 st'"
    unfolding now_def .
  from q obtain ms n where ms: "st' = st1\<lparr>outbox := outbox st1 @ ms, uuid_supply := n\<rparr>"
    "map (\<lambda>m. (ob_channel m, ob_recipient m)) ms = addressees t kind st"
    "\<forall>m \<in> set ms. fresh_message t (uuid_supply st) p (send_time t kind now) m"
    unfolding queues_def by blast
  have "kind \<noteq> TypeCritical \<or> \<not> IsQuietHours t now \<longrightarrow> send_time t kind now = now" by (auto simp: send_time_def)
  moreover have "kind = TypeCritical \<and> IsQuietHours t now \<and> valid_tod (QuietFrom (tenantSettings t)) \<and> valid_tod (QuietTo (tenantSettings t))
      \<and> (\<exists>off. steady_around (Loc t) off now) \<longrightarrow> quiet_end t now (send_time t kind now)"
    by (auto simp: send_time_def intro: nextMorning_quiet_end)
  ultimately show ?thesis using False ms st1
    by (simp only: if_False) (intro exI[of _ "uuid_supply st"] exI[of _ ms] exI[of _ "send_time t kind now"], simp)
qed

section \<open>Samples\<close>

definition sample_notify :: notify_service where
  "sample_notify = \<lparr>nsClock = System, nsLocal = UTC, nsBaseURL = []\<rparr>"

definition sample_owner :: user_row where
  "sample_owner = \<lparr>us_id = 7, us_tenant = 1, us_email = ''o@x'', us_password_hash = [], us_name = [],
     us_role = ''owner'', us_telegram = Some 5, us_created_at = 0\<rparr>"

definition sample_staffed :: "dec db" where
  "sample_staffed = sample_db\<lparr>users := [sample_owner]\<rparr>"

definition sample_payload :: "dec payload" where
  "sample_payload = \<lparr>plTitle = [], plBody = [], plLink = [], plItems = []\<rparr>"

lemma quiet_hours_cyclic_sample: "IsQuietHours sample_tenant (23 * hour)"
  by (simp add: IsQuietHours_def Let_def sample_tenant_def DefaultSettings_def Loc_def local_hour_def local_minute_def local_seconds_def
      hour_def second_def seconds_per_day_def)

theorem Emit_once_witness:
  "\<exists>st' m e. Emit sample_notify (23 * hour) sample_tenant TypeCritical ''k'' sample_payload sample_staffed = Inr ((), st')
     \<and> outbox st' = [m] \<and> ob_next_attempt_at m = pg_Time e \<and> quiet_end sample_tenant (23 * hour) e"
proof -
  have n: "\<not> knows_key (tenantID sample_tenant) ''k'' sample_staffed"
    by (simp add: knows_key_def sample_staffed_def sample_db_def)
  have to: "addressees sample_tenant TypeCritical sample_staffed = [(ChannelTelegram, decimal_text_of 5)]"
    by (simp add: addressees_def queued_for_def ListRecipients_def visible_def sample_staffed_def sample_owner_def
        sample_tenant_def DefaultSettings_def TypeCritical_def TypeDailyDigest_def)
  have "\<exists>st'. Emit sample_notify (23 * hour) sample_tenant TypeCritical ''k'' sample_payload sample_staffed = Inr ((), st')"
    by (simp add: Emit_def Let_def tx_bind_def new_uuid_def insert_once_def InsertNotification_def sample_staffed_def sample_db_def
        bindE_def guardE_def sample_tenant_def ListRecipients_def visible_def sample_owner_def enqueue_for_def enqueue_def
        InsertOutbox_def dbtx_def tx_lift_def DefaultSettings_def TypeCritical_def TypeDailyDigest_def)
  then obtain st' where r: "Emit sample_notify (23 * hour) sample_tenant TypeCritical ''k'' sample_payload sample_staffed = Inr ((), st')" ..
  have "IsQuietHours sample_tenant (23 * hour)" by (rule quiet_hours_cyclic_sample)
  moreover have "valid_tod (QuietFrom (tenantSettings sample_tenant))" "valid_tod (QuietTo (tenantSettings sample_tenant))"
    by (simp_all add: sample_tenant_def DefaultSettings_def valid_tod_def)
  moreover have "steady_around (Loc sample_tenant) 0 (23 * hour)"
    by (simp add: steady_around_def sample_tenant_def Loc_def seconds_per_day_def)
  ultimately obtain i ms e where ms: "outbox st' = outbox sample_staffed @ ms"
    "map (\<lambda>m. (ob_channel m, ob_recipient m)) ms = addressees sample_tenant TypeCritical sample_staffed"
    "\<forall>m \<in> set ms. fresh_message sample_tenant i sample_payload e m" "quiet_end sample_tenant (23 * hour) e"
    using Emit_once[OF r] n by (auto simp: sample_notify_def)
  from ms(2) obtain m where "ms = [m]" unfolding to by (cases ms) auto
  with ms(1,3,4) r show ?thesis by (auto simp: sample_staffed_def sample_db_def fresh_message_def)
qed

theorem keys_separate_witness:
  "CriticalKey sample_uuid 1 (Day 2024 3 6) \<noteq> CriticalKey sample_uuid 1 (Day 2024 3 7)"
proof -
  have "uuid_plain sample_uuid" by (simp add: uuid_plain_def uuid_text_def sample_uuid_def)
  moreover have "valid_day (Day 2024 3 6)" "valid_day (Day 2024 3 7)" by code_simp+
  ultimately show ?thesis
    using keys_separate[of sample_uuid "Day 2024 3 6" "Day 2024 3 7" 1 1 "Day 2024 3 6" 1 1] by simp
qed

end
