(* ===== verification/Orders_Correct.thy ===== *)
theory Orders_Correct
  imports Orders Notify_Correct
begin

text \<open>
  Correctness of the orders: the life of an order as a step relation that every operation refines,
  what is fixed once an order is sent, and what the operations do to the tenant's data. The status
  recalculation and the notifier are known by their contracts.
\<close>

lemma found_Inr [simp]: "tx_of_sum (from_opt e x) st = Inr (v, st') \<longleftrightarrow> x = Some v \<and> st' = st"
  by (auto simp: tx_of_sum_def from_opt_def split: option.splits)

lemma find_visible: "find P (visible tid tn xs) = Some r \<Longrightarrow> r \<in> set xs \<and> tn r = tid \<and> P r"
  by (induction xs) (auto simp: visible_def split: if_splits)

section \<open>The life of an order\<close>

inductive order_step :: "order_status \<Rightarrow> order_status \<Rightarrow> bool" where
  send: "order_step StatusDraft StatusSent"
| receive: "order_step StatusSent StatusReceived"
| cancel_draft: "order_step StatusDraft StatusCancelled"
| cancel_sent: "order_step StatusSent StatusCancelled"

inductive_cases order_stepE: "order_step a b"

inductive_simps order_step_received: "order_step StatusReceived b"
inductive_simps order_step_cancelled: "order_step StatusCancelled b"

text \<open>One row, before and after: it keeps what it is, and its status moves along the relation.\<close>

definition order_moves :: "order_row \<Rightarrow> order_row \<Rightarrow> bool" where
  "order_moves r r' \<longleftrightarrow> po_id r' = po_id r \<and> po_tenant r' = po_tenant r \<and> po_supplier r' = po_supplier r
     \<and> po_note r' = po_note r \<and> po_created_by r' = po_created_by r \<and> po_created_at r' = po_created_at r
     \<and> order_step\<^sup>*\<^sup>* (po_status r) (po_status r')
     \<and> (po_status r' = po_status r \<or> po_status r = StatusDraft \<or> po_status r = StatusSent)"

lemma order_moves_refl [simp]: "order_moves r r"
  by (simp add: order_moves_def)

lemma terminal_path:
  "order_step\<^sup>*\<^sup>* a b \<Longrightarrow> a = StatusReceived \<or> a = StatusCancelled \<Longrightarrow> b = a"
  by (induction rule: converse_rtranclp_induct) (auto simp: order_statuses elim!: order_stepE)

lemma order_moves_trans: "order_moves a b \<Longrightarrow> order_moves b c \<Longrightarrow> order_moves a c"
  unfolding order_moves_def by (metis rtranclp_trans)

text \<open>The table before and after: rows move, drafts are added.\<close>

definition order_life :: "order_row list \<Rightarrow> order_row list \<Rightarrow> bool" where
  "order_life rows rows' \<longleftrightarrow> (\<exists>rs news. rows' = rs @ news \<and> list_all2 order_moves rows rs
     \<and> (\<forall>n \<in> set news. po_status n = StatusDraft \<and> po_id n \<notin> po_id ` set rows)
     \<and> distinct (map po_id news))"

lemma order_life_refl [simp]: "order_life rows rows"
  unfolding order_life_def by (rule exI[of _ rows], rule exI[of _ "[]"]) (simp add: list_all2_refl)

lemma order_moves_ids: "list_all2 order_moves rows rs \<Longrightarrow> map po_id rs = map po_id rows"
  by (induction rule: list_all2_induct) (auto simp: order_moves_def)

lemma order_life_distinct:
  assumes "order_life rows rows'" and "distinct (map po_id rows)"
  shows "distinct (map po_id rows')"
proof -
  from assms(1) obtain rs news where l: "rows' = rs @ news" "list_all2 order_moves rows rs"
    "\<forall>n \<in> set news. po_id n \<notin> po_id ` set rows" "distinct (map po_id news)"
    unfolding order_life_def by blast
  have ids: "map po_id rs = map po_id rows" by (rule order_moves_ids[OF l(2)])
  have new: "\<forall>n \<in> set (map po_id news). n \<notin> set (map po_id rows)" using l(3) by simp
  have "map po_id rows' = map po_id rows @ map po_id news" by (simp only: l(1) map_append ids)
  with assms(2) l(4) new show ?thesis by (simp only: distinct_append) blast
qed

lemma order_life_row:
  assumes "order_life rows rows'" and "r \<in> set rows"
  shows "\<exists>r' \<in> set rows'. order_moves r r'"
proof -
  from assms(1) obtain rs news where l: "rows' = rs @ news" "list_all2 order_moves rows rs"
    unfolding order_life_def by blast
  from assms(2) obtain i where i: "i < length rows" "rows ! i = r" by (auto simp: in_set_conv_nth)
  with l(2) have "order_moves r (rs ! i)" "rs ! i \<in> set rs" by (auto simp: list_all2_conv_all_nth)
  then show ?thesis using l(1) by auto
qed

text \<open>An update of the orders of one tenant.\<close>

lemma update_order_Inr:
  assumes "update_order tid oid from f st = Inr (u, st')"
  shows "st' = st\<lparr>purchase_orders := update_rows (\<lambda>r. po_tenant r = tid \<and> po_id r = oid \<and> po_status r \<in> set from) f (purchase_orders st)\<rparr>"
    and "\<And>r. r \<in> set (purchase_orders st) \<Longrightarrow> po_tenant r = tid \<Longrightarrow> po_id r = oid \<Longrightarrow> po_status r \<in> set from \<Longrightarrow> order_times_ok (f r)"
  using assms by (auto simp: update_order_def Let_def list_ex_iff split: if_splits)

lemma update_rows_life:
  assumes "\<And>r. P r \<Longrightarrow> order_moves r (f r)"
  shows "order_life rows (update_rows P f rows)"
proof -
  have "list_all2 order_moves rows (update_rows P f rows)"
    using assms by (induction rows) (auto simp: update_rows_def)
  then show ?thesis unfolding order_life_def by (intro exI[of _ "update_rows P f rows"] exI[of _ "[]"]) simp
qed

lemma moves_by_step:
  assumes "order_step (po_status r) b" and "po_id r' = po_id r" "po_tenant r' = po_tenant r" "po_supplier r' = po_supplier r"
    "po_note r' = po_note r" "po_created_by r' = po_created_by r" "po_created_at r' = po_created_at r" "po_status r' = b"
  shows "order_moves r r'"
  using assms by (auto simp: order_moves_def order_statuses elim: order_stepE)

lemma update_order_life:
  "SendPurchaseOrder tid oid m e st = Inr (u, st') \<Longrightarrow> order_life (purchase_orders st) (purchase_orders st')"
  "CancelPurchaseOrder tid oid m st = Inr (u, st') \<Longrightarrow> order_life (purchase_orders st) (purchase_orders st')"
  "ReceivePurchaseOrder tid oid m st = Inr (u, st') \<Longrightarrow> order_life (purchase_orders st) (purchase_orders st')"
proof -
  have s: "order_step ''draft'' ''sent''" "order_step ''draft'' ''cancelled''" "order_step ''sent'' ''cancelled''"
    "order_step ''sent'' ''received''"
    using order_step.intros by (simp_all add: order_statuses)
  show "SendPurchaseOrder tid oid m e st = Inr (u, st') \<Longrightarrow> order_life (purchase_orders st) (purchase_orders st')"
    unfolding SendPurchaseOrder_def
    by (drule update_order_Inr(1)) (auto intro!: update_rows_life moves_by_step[where b = "''sent''"] simp: s)
  show "CancelPurchaseOrder tid oid m st = Inr (u, st') \<Longrightarrow> order_life (purchase_orders st) (purchase_orders st')"
    unfolding CancelPurchaseOrder_def
    by (drule update_order_Inr(1)) (auto intro!: update_rows_life moves_by_step[where b = "''cancelled''"] simp: s)
  show "ReceivePurchaseOrder tid oid m st = Inr (u, st') \<Longrightarrow> order_life (purchase_orders st) (purchase_orders st')"
    unfolding ReceivePurchaseOrder_def
    by (drule update_order_Inr(1)) (auto intro!: update_rows_life moves_by_step[where b = "''received''"] simp: s)
qed

section \<open>What stays of an order\<close>

text \<open>The lines of an order without what was received.\<close>

definition terms_of :: "uuid \<Rightarrow> order_line_row list \<Rightarrow> order_line_row list" where
  "terms_of oid rows = map (\<lambda>l. l\<lparr>ol_qty_received := None\<rparr>) (filter (\<lambda>l. ol_order l = oid) rows)"

text \<open>A step of the orders of tenant \<open>tid\<close>, with nothing else changed than orders, their lines and new UUIDs.\<close>

definition orders_step :: "uuid \<Rightarrow> 'd db \<Rightarrow> 'd db \<Rightarrow> bool" where
  "orders_step tid st st' \<longleftrightarrow> (\<exists>n. st' = st\<lparr>purchase_orders := purchase_orders st', order_lines := order_lines st', uuid_supply := n\<rparr>
       \<and> uuid_supply st \<le> n)
     \<and> (\<forall>other. other \<noteq> tid \<longrightarrow> visible other po_tenant (purchase_orders st') = visible other po_tenant (purchase_orders st)
         \<and> visible other ol_tenant (order_lines st') = visible other ol_tenant (order_lines st))"

lemma orders_step_refl [simp]: "orders_step tid st st"
  unfolding orders_step_def by (intro conjI exI[of _ "uuid_supply st"]) simp_all

lemma orders_step_trans: "orders_step tid a b \<Longrightarrow> orders_step tid b c \<Longrightarrow> orders_step tid a c"
proof -
  assume "orders_step tid a b" and "orders_step tid b c"
  then obtain n m where b: "b = a\<lparr>purchase_orders := purchase_orders b, order_lines := order_lines b, uuid_supply := n\<rparr>" "uuid_supply a \<le> n"
    and c: "c = b\<lparr>purchase_orders := purchase_orders c, order_lines := order_lines c, uuid_supply := m\<rparr>" "uuid_supply b \<le> m"
    and v: "\<forall>other. other \<noteq> tid \<longrightarrow> visible other po_tenant (purchase_orders c) = visible other po_tenant (purchase_orders a)
         \<and> visible other ol_tenant (order_lines c) = visible other ol_tenant (order_lines a)"
    by (auto simp: orders_step_def)
  have "c = a\<lparr>purchase_orders := purchase_orders c, order_lines := order_lines c, uuid_supply := m\<rparr>"
    by (subst c(1), subst b(1)) (cases a; simp)
  moreover have "uuid_supply b = n" by (subst b(1)) simp
  ultimately show ?thesis unfolding orders_step_def using b(2) c(2) v by (intro conjI exI[of _ m]) simp_all
qed

lemma orders_step_advances:
  assumes "orders_step tid st st'"
  shows "advances tid st st'"
proof -
  from assms obtain n where s: "st' = st\<lparr>purchase_orders := purchase_orders st', order_lines := order_lines st', uuid_supply := n\<rparr>"
    and n: "uuid_supply st \<le> n" and v: "\<And>other. other \<noteq> tid \<Longrightarrow> visible other po_tenant (purchase_orders st') = visible other po_tenant (purchase_orders st)"
      "\<And>other. other \<noteq> tid \<Longrightarrow> visible other ol_tenant (order_lines st') = visible other ol_tenant (order_lines st)"
    by (auto simp: orders_step_def)
  have "categories st' = categories st" "items st' = items st" "warehouses st' = warehouses st"
    "users st' = users st" "suppliers st' = suppliers st" "supplier_items st' = supplier_items st"
    "movements st' = movements st" "balances st' = balances st"
    "counts st' = counts st" "count_lines st' = count_lines st" "daily st' = daily st" "forecasts st' = forecasts st"
    "forecast_metrics st' = forecast_metrics st" "item_status st' = item_status st"
    "notifications st' = notifications st" "outbox st' = outbox st" "uuid_supply st' = n"
    by (subst s; simp)+
  with n v show ?thesis by (intro advances_documents) (simp_all add: tenant_view_def)
qed

lemma update_order_step:
  assumes "update_order tid oid from f st = Inr (u, st')" and "\<And>r. po_tenant (f r) = po_tenant r"
  shows "orders_step tid st st'" and "order_lines st' = order_lines st"
proof -
  note st' = update_order_Inr(1)[OF assms(1)]
  have "visible other po_tenant (purchase_orders st') = visible other po_tenant (purchase_orders st)" if "other \<noteq> tid" for other
    unfolding st' using assms(2) that by simp
  then show "orders_step tid st st'"
    unfolding orders_step_def by (intro conjI exI[of _ "uuid_supply st"]) (simp_all add: st')
  show "order_lines st' = order_lines st" by (simp add: st')
qed

lemma UpsertLine_Inr:
  assumes "UpsertPurchaseOrderLine tid oid iid q u f p st = Inr (x, st')"
  shows "orders_step tid st st'" and "purchase_orders st' = purchase_orders st"
    and "other \<noteq> oid \<Longrightarrow> terms_of other (order_lines st') = terms_of other (order_lines st)"
proof -
  from assms obtain rows q' f' p' where st': "st' = st\<lparr>order_lines := rows\<rparr>"
    and up: "upsert_tx tid ol_tenant (line_key oid iid)
       (\<lambda>r. r\<lparr>ol_qty_ordered := q', ol_purchase_unit := u, ol_unit_factor := f', ol_price := p'\<rparr>)
       \<lparr>ol_tenant = tid, ol_order = oid, ol_item = iid, ol_qty_ordered = q', ol_qty_received = None,
        ol_purchase_unit = u, ol_unit_factor = f', ol_price = p'\<rparr> (order_lines st) = Inr rows"
    unfolding UpsertPurchaseOrderLine_def by (auto simp: bindE_Inr_iff)
  have "visible other ol_tenant rows = visible other ol_tenant (order_lines st)" if "other \<noteq> tid" for other
    by (rule upsert_visible_other[OF up _ _ that]) simp_all
  then show "orders_step tid st st'"
    unfolding orders_step_def by (intro conjI exI[of _ "uuid_supply st"]) (simp_all add: st')
  show "purchase_orders st' = purchase_orders st" by (simp add: st')
  assume other: "other \<noteq> oid"
  have "terms_of other (update_rows (line_key oid iid) g xs) = terms_of other xs"
    if "\<And>r. ol_order (g r) = ol_order r" for g and xs :: "order_line_row list"
    using other that by (induction xs) (auto simp: terms_of_def update_rows_def line_key_def)
  then show "terms_of other (order_lines st') = terms_of other (order_lines st)"
    using up other by (auto simp: st' upsert_tx_def upsert_row_def terms_of_def split: if_splits)
qed

lemma DeleteLine_Inr:
  assumes "DeletePurchaseOrderLine tid oid iid st = Inr (x, st')"
  shows "orders_step tid st st'" and "purchase_orders st' = purchase_orders st"
    and "other \<noteq> oid \<Longrightarrow> terms_of other (order_lines st') = terms_of other (order_lines st)"
proof -
  have st': "st' = st\<lparr>order_lines := filter (\<lambda>r. \<not> (ol_tenant r = tid \<and> line_key oid iid r)) (order_lines st)\<rparr>"
    using assms by (simp add: DeletePurchaseOrderLine_def)
  have "visible other ol_tenant (filter (\<lambda>r. \<not> (ol_tenant r = tid \<and> line_key oid iid r)) rows) = visible other ol_tenant rows"
    if "other \<noteq> tid" for other and rows :: "order_line_row list"
    using that by (induction rows) (auto simp: visible_def)
  then show "orders_step tid st st'"
    unfolding orders_step_def by (intro conjI exI[of _ "uuid_supply st"]) (simp_all add: st')
  show "purchase_orders st' = purchase_orders st" by (simp add: st')
  assume other: "other \<noteq> oid"
  then show "terms_of other (order_lines st') = terms_of other (order_lines st)"
    unfolding st' by (simp add: terms_of_def line_key_def) (rule arg_cong[where f = "map _"], rule filter_cong, auto)
qed

lemma SetReceived_Inr:
  assumes "SetPurchaseOrderLineReceived tid oid iid v st = Inr (x, st')"
  shows "orders_step tid st st'" and "purchase_orders st' = purchase_orders st"
    and "terms_of other (order_lines st') = terms_of other (order_lines st)"
proof -
  from assms obtain v' where st': "st' = st\<lparr>order_lines := update_rows (\<lambda>r. ol_tenant r = tid \<and> line_key oid iid r)
       (\<lambda>r. r\<lparr>ol_qty_received := v'\<rparr>) (order_lines st)\<rparr>"
    by (auto simp: SetPurchaseOrderLineReceived_def bindE_Inr_iff split: if_splits)
  show "orders_step tid st st'"
    unfolding orders_step_def by (intro conjI exI[of _ "uuid_supply st"]) (simp_all add: st')
  show "purchase_orders st' = purchase_orders st" by (simp add: st')
  have "terms_of other (update_rows P (\<lambda>r. r\<lparr>ol_qty_received := v'\<rparr>) rows) = terms_of other rows" for P rows
    by (induction rows) (auto simp: terms_of_def update_rows_def)
  then show "terms_of other (order_lines st') = terms_of other (order_lines st)" by (simp add: st')
qed

section \<open>The operations refine the life of an order\<close>

definition order_service_ok :: "'d order_service \<Rightarrow> bool" where
  "order_service_ok s \<longleftrightarrow> status_recalculator (ssStatus (osStock s)) \<and> (\<forall>r. osStatuses s = Some r \<longrightarrow> alerts_ok r)"

text \<open>What every operation does to the orders: rows move along the relation, and the terms of an order
  change only if it is the given draft.\<close>

definition order_effect :: "uuid \<Rightarrow> uuid option \<Rightarrow> 'd db \<Rightarrow> 'd db \<Rightarrow> bool" where
  "order_effect tid draft st st' \<longleftrightarrow> advances tid st st' \<and> order_life (purchase_orders st) (purchase_orders st')
     \<and> (\<forall>oid. Some oid \<noteq> draft \<longrightarrow> terms_of oid (order_lines st') = terms_of oid (order_lines st))"

lemma effect_then_frame:
  assumes "order_effect tid d st st1" and "advances tid st1 st2" and "purchase_orders st2 = purchase_orders st1"
    and "\<And>oid. Some oid \<noteq> d \<Longrightarrow> terms_of oid (order_lines st2) = terms_of oid (order_lines st1)"
  shows "order_effect tid d st st2"
  using assms by (auto simp: order_effect_def intro: advances_trans)

lemma recalculate_lines_frame:
  assumes "recalculate_lines D s w t ls st = Inr (u, st')" and "order_service_ok s"
  shows "advances (tenantID t) st st'" and "stock_frame st st'"
proof -
  have "advances (tenantID t) st st' \<and> stock_frame st st'"
  proof (cases "osStatuses s")
    case None
    then show ?thesis using assms(1) by (simp add: recalculate_lines_def)
  next
    case (Some r)
    then have ok: "status_recalculator (Recalculate D r)"
      using assms(2) by (intro Recalculate_contract) (simp add: order_service_ok_def)
    from assms(1) have T: "tx_for ls (\<lambda>l. tx_bind (tx_lift (Wrapped ''status'') (Recalculate D r w t (ol_item (orLine l)))) (\<lambda>_. tx_return ())) st = Inr (u, st')"
      by (simp add: recalculate_lines_def Some)
    have step: "advances (tenantID t) x y \<and> stock_frame x y" if "Recalculate D r w t i x = Inr (v, y)" for i x y v
      using status_recalculator.recalc_advances[OF ok that] status_recalculator.recalc_frame[OF ok that] by simp
    from T show ?thesis
      by (rule tx_for_invariant[where P = "\<lambda>x. advances (tenantID t) st x \<and> stock_frame st x"])
        (auto dest!: step elim: advances_trans stock_frame_trans)
  qed
  then show "advances (tenantID t) st st'" and "stock_frame st st'" by blast+
qed

lemma sendTx_effect:
  assumes "sendTx D s w t oid st = Inr (u, st')" and "order_service_ok s"
  shows "order_effect (tenantID t) None st st'"
proof -
  from assms(1) obtain m e st1 ls where u: "SendPurchaseOrder (tenantID t) oid m e st = Inr ((), st1)"
    and r: "recalculate_lines D s w t ls st1 = Inr ((), st')"
    by (auto simp: sendTx_def Let_def)
  have "order_effect (tenantID t) None st st1"
    using update_order_step[OF u[unfolded SendPurchaseOrder_def]] update_order_life(1)[OF u]
    by (simp add: order_effect_def orders_step_advances)
  then show ?thesis
    by (rule effect_then_frame) (use recalculate_lines_frame[OF r assms(2)] in \<open>auto simp: stock_frame_def\<close>)
qed

lemma cancelTx_effect:
  assumes "cancelTx D s w t oid st = Inr (u, st')" and "order_service_ok s"
  shows "order_effect (tenantID t) None st st'"
proof -
  have "st' = st \<or> (\<exists>m st1 ls. CancelPurchaseOrder (tenantID t) oid m st = Inr ((), st1)
      \<and> recalculate_lines D s w t ls st1 = Inr ((), st'))"
    using assms(1) by (auto simp: cancelTx_def Let_def split: if_splits)
  then show ?thesis
  proof
    assume "st' = st"
    then show ?thesis by (simp add: order_effect_def)
  next
    assume "\<exists>m st1 ls. CancelPurchaseOrder (tenantID t) oid m st = Inr ((), st1) \<and> recalculate_lines D s w t ls st1 = Inr ((), st')"
    then obtain m st1 ls where u: "CancelPurchaseOrder (tenantID t) oid m st = Inr ((), st1)"
      and r: "recalculate_lines D s w t ls st1 = Inr ((), st')" by blast
    have "order_effect (tenantID t) None st st1"
      using update_order_step[OF u[unfolded CancelPurchaseOrder_def]] update_order_life(2)[OF u]
      by (simp add: order_effect_def orders_step_advances)
    then show ?thesis
      by (rule effect_then_frame) (use recalculate_lines_frame[OF r assms(2)] in \<open>auto simp: stock_frame_def\<close>)
  qed
qed

text \<open>A change of the lines of one order of a tenant.\<close>

definition line_change :: "uuid \<Rightarrow> uuid \<Rightarrow> 'd db \<Rightarrow> 'd db \<Rightarrow> bool" where
  "line_change tid oid a b \<longleftrightarrow> orders_step tid a b \<and> purchase_orders b = purchase_orders a
     \<and> (\<forall>other. other \<noteq> oid \<longrightarrow> terms_of other (order_lines b) = terms_of other (order_lines a))"

lemma line_change_refl [simp]: "line_change tid oid a a"
  by (simp add: line_change_def)

lemma line_change_trans: "line_change tid oid a b \<Longrightarrow> line_change tid oid b c \<Longrightarrow> line_change tid oid a c"
  by (auto simp: line_change_def elim: orders_step_trans)

lemma Upsert_change: "UpsertPurchaseOrderLine tid oid iid q u f p st = Inr (x, st') \<Longrightarrow> line_change tid oid st st'"
  by (simp add: line_change_def UpsertLine_Inr)

lemma Delete_change: "DeletePurchaseOrderLine tid oid iid st = Inr (x, st') \<Longrightarrow> line_change tid oid st st'"
  by (simp add: line_change_def DeleteLine_Inr)

lemma create_order_line_change: "create_order_line D tid oid sid l st = Inr (u, st') \<Longrightarrow> line_change tid oid st st'"
  by (auto simp: create_order_line_def split: if_splits prod.splits intro: Upsert_change)

lemma edit_line_change: "edit_line D tid oid sid l st = Inr (u, st') \<Longrightarrow> line_change tid oid st st'"
  by (auto simp: edit_line_def split: if_splits prod.splits intro: Upsert_change Delete_change)

lemma line_changes:
  assumes "tx_for ls f st = Inr (u, st')" and "\<And>l a b v. f l a = Inr (v, b) \<Longrightarrow> line_change tid oid a b"
  shows "line_change tid oid st st'"
  by (rule tx_for_invariant[OF assms(1), where P = "line_change tid oid st"])
    (auto dest: assms(2) elim: line_change_trans)

lemma createOrderTx_effect:
  assumes "createOrderTx D w t inp st = Inr (oid, st')"
  shows "order_effect (tenantID t) (Some oid) st st'" and "oid \<notin> po_id ` set (purchase_orders st)"
    and "\<exists>r \<in> set (purchase_orders st'). po_id r = oid \<and> po_tenant r = tenantID t \<and> po_status r = StatusDraft
      \<and> po_supplier r = ciSupplier inp"
proof -
  let ?tid = "tenantID t"
  from assms obtain row st1 lines where c: "CreatePurchaseOrder w ?tid (uuid_supply st) (ciSupplier inp) (ciNote inp) (Some (ciCreatedBy inp))
        (st\<lparr>uuid_supply := Suc (uuid_supply st)\<rparr>) = Inr (row, st1)"
    and l: "tx_for lines (create_order_line D ?tid (po_id row) (ciSupplier inp)) st1 = Inr ((), st')" and oid: "oid = po_id row"
    by (auto simp: createOrderTx_def Let_def new_uuid_def)
  from c have row: "po_id row = uuid_supply st" "po_tenant row = ?tid" "po_status row = StatusDraft" "po_supplier row = ciSupplier inp"
    and new: "uuid_supply st \<notin> po_id ` set (purchase_orders st)"
    and st1: "st1 = st\<lparr>purchase_orders := purchase_orders st @ [row], uuid_supply := Suc (uuid_supply st)\<rparr>"
    by (auto simp: CreatePurchaseOrder_def Let_def bindE_Inr_iff StatusDraft_def list_ex_iff)
  have s1: "orders_step ?tid st st1"
    unfolding orders_step_def by (intro conjI exI[of _ "Suc (uuid_supply st)"]) (simp_all add: st1 row)
  have "line_change ?tid (po_id row) st1 st'" using l create_order_line_change by (rule line_changes)
  then have L: "orders_step ?tid st1 st'" "purchase_orders st' = purchase_orders st1"
    "\<And>other. other \<noteq> po_id row \<Longrightarrow> terms_of other (order_lines st') = terms_of other (order_lines st1)"
    by (auto simp: line_change_def)
  have "order_life (purchase_orders st) (purchase_orders st @ [row])"
    unfolding order_life_def using new row
    by (intro exI[of _ "purchase_orders st"] exI[of _ "[row]"]) (simp add: list_all2_refl)
  then show "order_effect ?tid (Some oid) st st'"
    using L orders_step_advances[OF orders_step_trans[OF s1 L(1)]] by (simp add: order_effect_def oid st1)
  show "oid \<notin> po_id ` set (purchase_orders st)" using new by (simp add: oid row)
  show "\<exists>r \<in> set (purchase_orders st'). po_id r = oid \<and> po_tenant r = ?tid \<and> po_status r = StatusDraft
      \<and> po_supplier r = ciSupplier inp"
    using row by (auto simp: L(2) st1 oid)
qed

lemma updateLinesTx_effect:
  assumes "updateLinesTx D t oid lines st = Inr (u, st')"
  shows "order_effect (tenantID t) (Some oid) st st'"
    and "\<exists>r \<in> set (purchase_orders st). po_id r = oid \<and> po_tenant r = tenantID t \<and> po_status r = StatusDraft"
proof -
  let ?tid = "tenantID t"
  from assms obtain row where g: "GetPurchaseOrder ?tid oid st = Some row" and d: "po_status row = StatusDraft"
    and l: "tx_for lines (edit_line D ?tid oid (po_supplier row)) st = Inr ((), st')"
    by (auto simp: updateLinesTx_def Let_def)
  have "line_change ?tid oid st st'" using l edit_line_change by (rule line_changes)
  then have L: "orders_step ?tid st st'" "purchase_orders st' = purchase_orders st"
    "\<And>other. other \<noteq> oid \<Longrightarrow> terms_of other (order_lines st') = terms_of other (order_lines st)"
    by (auto simp: line_change_def)
  then show "order_effect ?tid (Some oid) st st'"
    using orders_step_advances[OF L(1)] by (simp add: order_effect_def)
  show "\<exists>r \<in> set (purchase_orders st). po_id r = oid \<and> po_tenant r = tenantID t \<and> po_status r = StatusDraft"
    using find_visible[OF g[unfolded GetPurchaseOrder_def]] d by blast
qed

section \<open>A movement inside another transaction\<close>

lemma RecordInTx_Record: "RecordInTx D s w t req st = Inr (res, st') \<longleftrightarrow> Record D s w t req st = (Inr res, st')"
  by (auto simp: RecordInTx_def Record_def InTenantTx_Inr tx_of_sum_def tx_bind_def split: sum.splits)

lemma booked_orders:
  assumes "booked st tid wid iid q row v st'"
  shows "purchase_orders st' = purchase_orders st" and "order_lines st' = order_lines st"
    and "items st' = items st" and "warehouses st' = warehouses st"
proof -
  have s: "st' = st\<lparr>movements := movements st', balances := balances st', uuid_supply := Suc (uuid_supply st)\<rparr>"
    using assms unfolding booked_def by blast
  show "purchase_orders st' = purchase_orders st" "order_lines st' = order_lines st"
    "items st' = items st" "warehouses st' = warehouses st"
    by (subst s; simp)+
qed

text \<open>A receipt that no earlier movement has the key of.\<close>

lemma RecordInTx_fresh:
  assumes D: "decimal_api D" and rc: "status_recalculator (ssStatus s)" and inv: "stock_inv st" and wf: "wfq D (rqQty req)"
    and r: "RecordInTx D s w t req st = Inr (res, st')"
    and key: "rqKey req \<noteq> []" "GetMovementByIdempotencyKey (tenantID t) (rqKey req) st = None"
  obtains wh row where "GetDefaultWarehouse (tenantID t) st = Some wh"
    and "movements st' = movements st @ [row]" and "mv_tenant row = tenantID t" and "mv_item row = rqItem req"
    and "mv_warehouse row = wh_id wh" and "mv_type row = rqType req" and "mv_order row = rqOrder req"
    and "mv_qty row = qval D (signedQty D (rqType req) (rqQty req))" and "mv_idempotency_key row = Some (rqKey req)"
    and "\<And>a i. on_hand_of st' a i = on_hand_of st a i + (if a = wh_id wh \<and> i = rqItem req then mv_qty row else 0)"
    and "advances (tenantID t) st st'" and "purchase_orders st' = purchase_orders st" and "order_lines st' = order_lines st"
proof -
  from r have R: "Record D s w t req st = (Inr res, st')" by (simp add: RecordInTx_Record)
  have nd: "\<not> rrDuplicate res"
  proof -
    from R obtain req' where v: "validate D s w t req = Inr req'" and x: "recordTx D s w t req' st = Inr (res, st')"
      by (rule Record_Inr)
    from x show ?thesis
    proof (cases rule: recordTx_cases)
      case (duplicate m)
      then show ?thesis using key validate_Inr[OF v] by simp
    next
      case fresh
      then show ?thesis by (auto simp: record_new_def Let_def split: prod.splits)
    qed
  qed
  show thesis
  proof (rule Record_fresh[OF D rc inv wf R nd])
    fix wh row v st1
    assume g: "GetDefaultWarehouse (tenantID t) st = Some wh"
      and b: "booked st (tenantID t) (wh_id wh) (rqItem req) (qval D (signedQty D (rqType req) (rqQty req))) row v st1"
      and m: "mv_tenant row = tenantID t" "mv_item row = rqItem req" "mv_warehouse row = wh_id wh"
        "mv_type row = rqType req" "mv_qty row = qval D (signedQty D (rqType req) (rqQty req))"
        "mv_idempotency_key row = nullString (rqKey req)" "mv_order row = rqOrder req"
      and f: "stock_frame st1 st'" and iso: "\<forall>other. other \<noteq> tenantID t \<longrightarrow> tenant_view other st' = tenant_view other st1"
    have mv: "movements st' = movements st @ [row]" using b f by (simp add: booked_def stock_frame_def)
    have oh: "on_hand_of st' a i = on_hand_of st a i + (if a = wh_id wh \<and> i = rqItem req then mv_qty row else 0)" for a i
      using b m(5) by (auto simp: booked_def frame_stock(2)[OF f])
    have adv: "advances (tenantID t) st st'"
      using booked_advances[OF b m(1)] stock_frame_advances[OF f iso[rule_format]] by (rule advances_trans)
    have po: "purchase_orders st' = purchase_orders st" "order_lines st' = order_lines st"
      using booked_orders[OF b] f by (simp_all add: stock_frame_def)
    show thesis
      by (rule that[OF g mv m(1-4,7,5) _ oh adv po]) (use m(6) key(1) in \<open>simp add: nullString_def\<close>)
  qed
qed

section \<open>Receiving the lines of an order\<close>

definition receipt_row :: "uuid \<Rightarrow> uuid \<Rightarrow> uuid \<Rightarrow> uuid \<times> rat \<Rightarrow> movement_row \<Rightarrow> bool" where
  "receipt_row tid wid oid p m \<longleftrightarrow> mv_tenant m = tid \<and> mv_warehouse m = wid \<and> mv_item m = fst p \<and> mv_qty m = snd p
     \<and> mv_type m = TypeReceipt \<and> mv_order m = Some oid"

definition set_received :: "uuid \<Rightarrow> uuid \<Rightarrow> uuid \<times> rat \<Rightarrow> order_line_row list \<Rightarrow> order_line_row list" where
  "set_received tid oid p = update_rows (\<lambda>r. ol_tenant r = tid \<and> line_key oid (fst p) r) (\<lambda>r. r\<lparr>ol_qty_received := Some (snd p)\<rparr>)"

definition booked_in :: "(uuid \<times> rat) list \<Rightarrow> uuid \<Rightarrow> rat" where
  "booked_in ps iid = sum_list (map snd (filter (\<lambda>p. fst p = iid) ps))"

text \<open>The quantities \<open>ps\<close> of an order received into a warehouse.\<close>

definition received_into :: "uuid \<Rightarrow> uuid \<Rightarrow> uuid \<Rightarrow> (uuid \<times> rat) list \<Rightarrow> 'd db \<Rightarrow> 'd db \<Rightarrow> bool" where
  "received_into tid wid oid ps st st' \<longleftrightarrow> advances tid st st' \<and> purchase_orders st' = purchase_orders st
     \<and> order_lines st' = fold (set_received tid oid) ps (order_lines st)
     \<and> (\<exists>rows. movements st' = movements st @ rows \<and> list_all2 (receipt_row tid wid oid) (filter (\<lambda>p. 0 < snd p) ps) rows)
     \<and> (\<forall>a i. on_hand_of st' a i = on_hand_of st a i + (if a = wid then booked_in ps i else 0))
     \<and> (\<forall>p \<in> set ps. 0 \<le> snd p)"

lemma received_into_none: "received_into tid wid oid [] st st"
  by (simp add: received_into_def booked_in_def)

lemma booked_in_simps [simp]:
  "booked_in [] i = 0" "booked_in (p # ps) i = (if fst p = i then snd p else 0) + booked_in ps i"
  "booked_in (ps @ qs) i = booked_in ps i + booked_in qs i"
  by (simp_all add: booked_in_def)

lemma received_into_append:
  assumes "received_into tid wid oid ps a b" and "received_into tid wid oid qs b c"
  shows "received_into tid wid oid (ps @ qs) a c"
proof -
  from assms obtain rows rows' where "movements b = movements a @ rows" "list_all2 (receipt_row tid wid oid) (filter (\<lambda>p. 0 < snd p) ps) rows"
    "movements c = movements b @ rows'" "list_all2 (receipt_row tid wid oid) (filter (\<lambda>p. 0 < snd p) qs) rows'"
    by (auto simp: received_into_def)
  then have "\<exists>rows. movements c = movements a @ rows
      \<and> list_all2 (receipt_row tid wid oid) (filter (\<lambda>p. 0 < snd p) (ps @ qs)) rows"
    by (intro exI[of _ "rows @ rows'"]) (simp add: list_all2_appendI)
  moreover have "advances tid a c" using assms by (auto simp: received_into_def intro: advances_trans)
  moreover have "\<forall>x i. on_hand_of c x i = on_hand_of a x i + (if x = wid then booked_in (ps @ qs) i else 0)"
    using assms by (simp add: received_into_def)
  ultimately show ?thesis using assms by (auto simp: received_into_def)
qed

lemma set_received_terms: "terms_of other (fold (set_received tid oid) ps rows) = terms_of other rows"
proof (induction ps arbitrary: rows)
  case (Cons p ps)
  have "terms_of other (set_received tid oid p rows) = terms_of other rows"
    by (induction rows) (auto simp: terms_of_def set_received_def update_rows_def)
  with Cons show ?case by simp
qed simp

definition line_received :: "'d decimal_lib \<Rightarrow> 'd receive_line list \<Rightarrow> order_line_list_row \<Rightarrow> uuid \<times> rat" where
  "line_received D actual l = (ol_item (orLine l), qval D (received_qty D actual (orLine l)))"

definition fresh_key :: "tenant \<Rightarrow> string \<Rightarrow> 'd db \<Rightarrow> bool" where
  "fresh_key t k st \<longleftrightarrow> k \<noteq> [] \<and> GetMovementByIdempotencyKey (tenantID t) k st = None"

lemma set_received_step:
  assumes D: "decimal_api D" and s: "SetPurchaseOrderLineReceived tid oid iid (Some (DecimalOf D q)) st = Inr (u, st1)"
    and wf: "wfq D q" and pos: "0 \<le> qval D q"
  shows "order_lines st1 = set_received tid oid (iid, qval D q) (order_lines st)" and "orders_step tid st st1"
    and "purchase_orders st1 = purchase_orders st" and "movements st1 = movements st" and "balances st1 = balances st"
    and "warehouses st1 = warehouses st"
proof -
  from s have "st1 = st\<lparr>order_lines := set_received tid oid (iid, qval D q) (order_lines st)\<rparr>"
    using wf by (auto simp: SetPurchaseOrderLineReceived_def numeric_null_def bindE_Inr_iff numeric_14_3_id DecimalOf_qval
        wfq_def set_received_def split: if_splits)
  then show "order_lines st1 = set_received tid oid (iid, qval D q) (order_lines st)"
    "purchase_orders st1 = purchase_orders st" "movements st1 = movements st" "balances st1 = balances st"
    "warehouses st1 = warehouses st" by simp_all
  show "orders_step tid st st1" by (rule SetReceived_Inr(1)[OF s])
qed

lemma receive_one_received:
  assumes D: "decimal_api D" and ok: "order_service_ok s" and inv: "stock_inv st"
    and wf: "wfq D (received_qty D actual (orLine l))"
    and key: "fresh_key t (receipt_key U key oid (ol_item (orLine l))) st"
    and wh: "\<forall>wh. GetDefaultWarehouse (tenantID t) st = Some wh \<longrightarrow> wh_id wh = wid"
    and r: "receive_one D U s w t oid now actual by_id key l st = Inr (u, st')"
  shows "received_into (tenantID t) wid oid [line_received D actual l] st st'"
    and "\<exists>rows. movements st' = movements st @ rows
      \<and> (\<forall>m \<in> set rows. mv_idempotency_key m = Some (receipt_key U key oid (ol_item (orLine l))))"
proof -
  let ?tid = "tenantID t" and ?iid = "ol_item (orLine l)" and ?q = "received_qty D actual (orLine l)"
  note qt = decimal_api.qtest_ops[OF D]
  from r obtain st1 where nn: "0 \<le> qval D ?q"
    and s1: "SetPurchaseOrderLineReceived ?tid oid ?iid (Some (DecimalOf D ?q)) st = Inr ((), st1)"
    and rest: "(if \<not> qIsPositive D ?q then tx_return () else
     tx_bind (tx_lift (Wrapped ''receipt'') (RecordInTx D (osStock s) w t (receipt_of U oid now by_id key ?iid ?q))) (\<lambda>_.
     tx_return ())) st1 = Inr (u, st')"
    by (auto simp: receive_one_def Let_def qt not_less)
  note S = set_received_step[OF D s1 wf nn]
  have oh: "on_hand_of st1 a i = on_hand_of st a i" for a i by (simp add: on_hand_of_def S)
  have adv1: "advances ?tid st st1" by (rule orders_step_advances[OF S(2)])
  have "received_into ?tid wid oid [line_received D actual l] st st' \<and> (\<exists>rows. movements st' = movements st @ rows
      \<and> (\<forall>m \<in> set rows. mv_idempotency_key m = Some (receipt_key U key oid ?iid)))"
  proof (cases "0 < qval D ?q")
    case False
    then have "st' = st1" and "qval D ?q = 0" using rest nn by (simp_all add: qt)
    then show ?thesis using adv1 by (simp add: received_into_def line_received_def S oh)
  next
    case True
    then obtain res where rec: "RecordInTx D (osStock s) w t (receipt_of U oid now by_id key ?iid ?q) st1 = Inr (res, st')"
      using rest by (auto simp: qt)
    have inv1: "stock_inv st1" using adv1 inv by (simp add: advances_def)
    have rc: "status_recalculator (ssStatus (osStock s))" using ok by (simp add: order_service_ok_def)
    have k: "rqKey (receipt_of U oid now by_id key ?iid ?q) \<noteq> []"
      "GetMovementByIdempotencyKey ?tid (rqKey (receipt_of U oid now by_id key ?iid ?q)) st1 = None"
      using key by (simp_all add: fresh_key_def receipt_of_def GetMovementByIdempotencyKey_def S(4))
    have wf': "wfq D (rqQty (receipt_of U oid now by_id key ?iid ?q))" using wf by (simp add: receipt_of_def)
    have sg: "qval D (signedQty D TypeReceipt ?q) = qval D ?q" using True
      by (simp add: signedQty_def Decreases_def Increases_def type_names decimal_api.qval_ops[OF D])
    show ?thesis
    proof (rule RecordInTx_fresh[OF D rc inv1 wf' rec k])
      fix wh' row
      assume g: "GetDefaultWarehouse ?tid st1 = Some wh'" and mv: "movements st' = movements st1 @ [row]"
        and m: "mv_tenant row = ?tid" "mv_item row = rqItem (receipt_of U oid now by_id key ?iid ?q)" "mv_warehouse row = wh_id wh'"
          "mv_type row = rqType (receipt_of U oid now by_id key ?iid ?q)" "mv_order row = rqOrder (receipt_of U oid now by_id key ?iid ?q)"
          "mv_qty row = qval D (signedQty D (rqType (receipt_of U oid now by_id key ?iid ?q)) (rqQty (receipt_of U oid now by_id key ?iid ?q)))"
          "mv_idempotency_key row = Some (rqKey (receipt_of U oid now by_id key ?iid ?q))"
        and o2: "\<And>a i. on_hand_of st' a i = on_hand_of st1 a i + (if a = wh_id wh' \<and> i = rqItem (receipt_of U oid now by_id key ?iid ?q) then mv_qty row else 0)"
        and adv: "advances ?tid st1 st'" and po: "purchase_orders st' = purchase_orders st1" "order_lines st' = order_lines st1"
      have wid: "wh_id wh' = wid" using wh g by (simp add: GetDefaultWarehouse_def S(6))
      have row: "receipt_row ?tid wid oid (?iid, qval D ?q) row"
        using m sg by (simp add: receipt_row_def receipt_of_def wid)
      have q: "mv_qty row = qval D ?q" using row by (simp add: receipt_row_def)
      have "received_into ?tid wid oid [line_received D actual l] st st'"
        unfolding received_into_def using advances_trans[OF adv1 adv] True row
        by (auto simp: line_received_def po S mv o2 oh wid q receipt_of_def)
      then show ?thesis using mv m(7) by (auto simp: S(4) receipt_of_def)
    qed
  qed
  then show "received_into ?tid wid oid [line_received D actual l] st st'"
    and "\<exists>rows. movements st' = movements st @ rows
      \<and> (\<forall>m \<in> set rows. mv_idempotency_key m = Some (receipt_key U key oid ?iid))" by blast+
qed

lemma fresh_key_append:
  assumes "fresh_key t k st" and "movements st' = movements st @ rows" and "\<forall>m \<in> set rows. mv_idempotency_key m \<noteq> Some k"
  shows "fresh_key t k st'"
proof -
  have "find P (xs @ ys) = None" if "find P xs = None" "\<forall>y \<in> set ys. \<not> P y" for P and xs ys :: "movement_row list"
    using that by (auto simp: find_None_iff)
  then show ?thesis
    using assms by (auto simp: fresh_key_def GetMovementByIdempotencyKey_def visible_append find_None_iff visible_def)
qed

lemma receipt_key_inject: "uuid_text U \<Longrightarrow> receipt_key U key oid i = receipt_key U key oid j \<longleftrightarrow> i = j"
  by (simp add: receipt_key_def uString_inject)

lemma receive_lines_received:
  assumes D: "decimal_api D" and ok: "order_service_ok s" and U: "uuid_text U"
    and wh: "\<forall>wh. GetDefaultWarehouse (tenantID t) st = Some wh \<longrightarrow> wh_id wh = wid"
  shows "tx_for ls (receive_one D U s w t oid now actual by_id key) st = Inr (u, st') \<Longrightarrow> stock_inv st \<Longrightarrow>
    \<forall>l \<in> set ls. wfq D (received_qty D actual (orLine l)) \<and> fresh_key t (receipt_key U key oid (ol_item (orLine l))) st \<Longrightarrow>
    distinct (map (\<lambda>l. ol_item (orLine l)) ls) \<Longrightarrow> received_into (tenantID t) wid oid (map (line_received D actual) ls) st st'"
  using wh
proof (induction ls arbitrary: st)
  case Nil
  then show ?case by (simp add: received_into_none)
next
  case (Cons l ls)
  from Cons.prems(1) obtain st1 where a: "receive_one D U s w t oid now actual by_id key l st = Inr ((), st1)"
    and b: "tx_for ls (receive_one D U s w t oid now actual by_id key) st1 = Inr (u, st')" by auto
  have lw: "wfq D (received_qty D actual (orLine l))" "fresh_key t (receipt_key U key oid (ol_item (orLine l))) st"
    using Cons.prems(3) by simp_all
  note L = receive_one_received[OF D ok Cons.prems(2) lw Cons.prems(5) a]
  have adv: "advances (tenantID t) st st1" using L(1) by (simp add: received_into_def)
  have "\<forall>l' \<in> set ls. fresh_key t (receipt_key U key oid (ol_item (orLine l'))) st1"
  proof
    fix l' assume l': "l' \<in> set ls"
    then have ne: "ol_item (orLine l') \<noteq> ol_item (orLine l)" using Cons.prems(4) by (auto simp: image_iff)
    from L(2) obtain rows where rows: "movements st1 = movements st @ rows"
      "\<forall>m \<in> set rows. mv_idempotency_key m = Some (receipt_key U key oid (ol_item (orLine l)))" by blast
    show "fresh_key t (receipt_key U key oid (ol_item (orLine l'))) st1"
      by (rule fresh_key_append[OF _ rows(1)]) (use Cons.prems(3) l' rows(2) ne receipt_key_inject[OF U] in auto)
  qed
  moreover have "\<forall>wh. GetDefaultWarehouse (tenantID t) st1 = Some wh \<longrightarrow> wh_id wh = wid"
    using Cons.prems(5) adv by (simp add: GetDefaultWarehouse_def advances_def)
  ultimately have "received_into (tenantID t) wid oid (map (line_received D actual) ls) st1 st'"
    using Cons.prems(2-4) adv by (intro Cons.IH[OF b]) (auto simp: advances_def)
  with received_into_append[OF L(1) this] show ?case by simp
qed

text \<open>A successful receipt, as the code composes it.\<close>

lemma receiveTx_Inr:
  assumes "receiveTx D U s w t oid actual by_id key st = Inr (u, st')"
  obtains row st1 where "u = oid" and "GetPurchaseOrder (tenantID t) oid st = Some row" and "po_status row = StatusSent"
    and "ListPurchaseOrderLines (tenantID t) oid st \<noteq> []"
    and "ReceivePurchaseOrder (tenantID t) oid (tenant_Now t (osClock s) w) st = Inr ((), st1)"
    and "tx_for (ListPurchaseOrderLines (tenantID t) oid st)
      (receive_one D U s w t oid (tenant_Now t (osClock s) w) actual by_id key) st1 = Inr ((), st')"
  using assms by (auto simp: receiveTx_def Let_def)

text \<open>What a receipt needs to book every line: quantities of three decimals, unused keys, one line for an item.\<close>

definition receivable :: "'d decimal_lib \<Rightarrow> uuid_lib \<Rightarrow> tenant \<Rightarrow> uuid \<Rightarrow> 'd receive_line list \<Rightarrow> string \<Rightarrow> 'd db \<Rightarrow> bool" where
  "receivable D U t oid actual key st \<longleftrightarrow> (\<forall>a \<in> set actual. wfq D (rlQty a))
     \<and> (\<forall>l \<in> set (ListPurchaseOrderLines (tenantID t) oid st). fresh_key t (receipt_key U key oid (ol_item (orLine l))) st)
     \<and> distinct (map (\<lambda>l. ol_item (orLine l)) (ListPurchaseOrderLines (tenantID t) oid st))"

definition default_warehouse :: "uuid \<Rightarrow> 'd db \<Rightarrow> uuid" where
  "default_warehouse tid st = (case GetDefaultWarehouse tid st of None \<Rightarrow> 0 | Some wh \<Rightarrow> wh_id wh)"

definition receipt_of_lines :: "'d decimal_lib \<Rightarrow> uuid \<Rightarrow> uuid \<Rightarrow> 'd receive_line list \<Rightarrow> 'd db \<Rightarrow> (uuid \<times> rat) list" where
  "receipt_of_lines D tid oid actual st = map (line_received D actual) (ListPurchaseOrderLines tid oid st)"

lemma received_qty_wf:
  assumes "decimal_api D" and "\<forall>a \<in> set actual. wfq D (rlQty a)"
  shows "wfq D (received_qty D actual l)"
  using assms by (auto simp: received_qty_def decimal_api.pg_Qty_wf split: option.splits dest!: map_of_SomeD)

lemma receiveTx_received:
  assumes D: "decimal_api D" and ok: "order_service_ok s" and U: "uuid_text U" and inv: "stock_inv st"
    and rcv: "receivable D U t oid actual key st"
    and r: "receiveTx D U s w t oid actual by_id key st = Inr (u, st')"
  obtains row st1 where "GetPurchaseOrder (tenantID t) oid st = Some row" and "po_status row = StatusSent"
    and "ReceivePurchaseOrder (tenantID t) oid (tenant_Now t (osClock s) w) st = Inr ((), st1)"
    and "received_into (tenantID t) (default_warehouse (tenantID t) st) oid (receipt_of_lines D (tenantID t) oid actual st) st1 st'"
proof (rule receiveTx_Inr[OF r])
  fix row st1
  assume g: "GetPurchaseOrder (tenantID t) oid st = Some row" "po_status row = StatusSent"
    and u: "ReceivePurchaseOrder (tenantID t) oid (tenant_Now t (osClock s) w) st = Inr ((), st1)"
    and l: "tx_for (ListPurchaseOrderLines (tenantID t) oid st)
      (receive_one D U s w t oid (tenant_Now t (osClock s) w) actual by_id key) st1 = Inr ((), st')"
  have st1: "\<exists>rows. st1 = st\<lparr>purchase_orders := rows\<rparr>"
    using update_order_Inr(1)[OF u[unfolded ReceivePurchaseOrder_def]] by blast
  then have same: "movements st1 = movements st" "stock_inv st1 \<longleftrightarrow> stock_inv st" "warehouses st1 = warehouses st"
    by (auto simp: stock_inv_def journal_def on_hand_of_def)
  have "received_into (tenantID t) (default_warehouse (tenantID t) st) oid (receipt_of_lines D (tenantID t) oid actual st) st1 st'"
    unfolding receipt_of_lines_def
  proof (rule receive_lines_received[OF D ok U _ l])
    show "\<forall>wh. GetDefaultWarehouse (tenantID t) st1 = Some wh \<longrightarrow> wh_id wh = default_warehouse (tenantID t) st"
      by (simp add: GetDefaultWarehouse_def same default_warehouse_def)
    show "stock_inv st1" using inv same by simp
    show "\<forall>l \<in> set (ListPurchaseOrderLines (tenantID t) oid st). wfq D (received_qty D actual (orLine l))
        \<and> fresh_key t (receipt_key U key oid (ol_item (orLine l))) st1"
      using rcv received_qty_wf[OF D] by (simp add: receivable_def fresh_key_def GetMovementByIdempotencyKey_def same)
    show "distinct (map (\<lambda>l. ol_item (orLine l)) (ListPurchaseOrderLines (tenantID t) oid st))"
      using rcv by (simp add: receivable_def)
  qed
  then show thesis by (rule that[OF g u])
qed

section \<open>The operations as steps\<close>

locale mismatch_channel =
  fixes announcer :: "'d notifier"
  assumes announce_step: "announcer w t ord st = Inr (u, st') \<Longrightarrow> feed_step (tenantID t) st st'"

interpretation mismatch: mismatch_channel "ReceiptMismatch D U s" for D U s
  by unfold_locales (auto simp: ReceiptMismatch_def intro: Emit_feed)

definition order_channels_ok :: "'d order_service \<Rightarrow> bool" where
  "order_channels_ok s \<longleftrightarrow> order_service_ok s \<and> (\<forall>n. osNotifier s = Some n \<longrightarrow> mismatch_channel n)"

lemma feed_step_advances: "feed_step tid st st' \<Longrightarrow> advances tid st st'"
  by (rule stock_frame_advances) (auto simp: feed_step_def)

lemma feed_step_orders: "feed_step tid st st' \<Longrightarrow> purchase_orders st' = purchase_orders st \<and> order_lines st' = order_lines st"
  by (simp add: feed_step_def stock_frame_def)

lemma getOrderTx_reads: "getOrderTx D s w t oid st = Inr (r, st') \<Longrightarrow> st' = st"
  by (auto simp: getOrderTx_def Let_def)

lemma then_get_cases:
  assumes "then_read change (getOrderTx D s w t) st = (res, st')"
  obtains (rollback) e where "change st = Inl e" and "st' = st" and "res = Inl e"
  | (commit) x where "change st = Inr (x, st')" and "res = map_sum id fst (getOrderTx D s w t x st')"
proof (cases "change st")
  case (Inl e)
  then have "st' = st \<and> res = Inl e" using assms by (auto simp: then_read_def InTenantTx_def)
  then show thesis using rollback[OF Inl] by blast
next
  case (Inr p)
  obtain x st1 where p: "p = (x, st1)" by (cases p)
  have r: "InTenantTx (getOrderTx D s w t x) st1 = (res, st')" using assms Inr p by (simp add: then_read_def InTenantTx_def)
  have "st' = st1 \<and> res = map_sum id fst (getOrderTx D s w t x st1)"
  proof (cases "getOrderTx D s w t x st1")
    case (Inl e)
    then show ?thesis using r by (simp add: InTenantTx_def)
  next
    case (Inr q)
    obtain ord st2 where q: "q = (ord, st2)" by (cases q)
    have "st2 = st1" using Inr unfolding q by (rule getOrderTx_reads)
    then show ?thesis using r Inr q by (simp add: InTenantTx_def)
  qed
  moreover have "change st = Inr (x, st1)" using Inr p by simp
  ultimately show thesis using commit by blast
qed

lemma announce_feed:
  assumes "announce D s w t ord st = (res, st')" and "order_channels_ok s"
  shows "feed_step (tenantID t) st st'"
  using assms by (auto simp: announce_def order_channels_ok_def InTenantTx_def
      split: option.splits sum.splits if_splits dest!: mismatch_channel.announce_step)

lemma Receive_cases:
  assumes "Receive D U s w t oid actual by_id key st = (res, st')" and "order_channels_ok s"
  obtains (rollback) e where "receiveTx D U s w t oid actual by_id key st = Inl e" and "st' = st" and "res = Inl e"
  | (commit) st1 where "receiveTx D U s w t oid actual by_id key st = Inr (oid, st1)" and "feed_step (tenantID t) st1 st'"
proof -
  let ?m = "then_read (receiveTx D U s w t oid actual by_id key) (getOrderTx D s w t) st"
  obtain r st1 where m: "?m = (r, st1)" by (cases ?m)
  from m show thesis
  proof (cases rule: then_get_cases)
    case (rollback e)
    then have "Receive D U s w t oid actual by_id key st = (Inl e, st)" using m by (simp add: Receive_def)
    with assms(1) rollback show thesis by (intro that(1)) auto
  next
    case (commit x)
    have x: "x = oid" using commit(1) by (rule receiveTx_Inr)
    have "feed_step (tenantID t) st1 st'"
      using assms m by (cases r) (auto simp: Receive_def intro: announce_feed)
    then show thesis using commit(1) that(2) x by blast
  qed
qed

text \<open>A movement inside the transaction of a receipt, fresh or repeated.\<close>

lemma RecordInTx_advances:
  assumes D: "decimal_api D" and rc: "status_recalculator (ssStatus s)" and inv: "stock_inv st" and wf: "wfq D (rqQty req)"
    and r: "RecordInTx D s w t req st = Inr (res, st')"
  shows "advances (tenantID t) st st'" and "purchase_orders st' = purchase_orders st" and "order_lines st' = order_lines st"
proof -
  from r have R: "Record D s w t req st = (Inr res, st')" by (simp add: RecordInTx_Record)
  have "advances (tenantID t) st st' \<and> purchase_orders st' = purchase_orders st \<and> order_lines st' = order_lines st"
  proof (cases "rrDuplicate res")
    case True
    from R obtain req' where "recordTx D s w t req' st = Inr (res, st')" by (rule Record_Inr)
    then have "st' = st"
    proof (cases rule: recordTx_cases)
      case fresh
      then have "rrDuplicate res = False" by (auto simp: record_new_def Let_def split: prod.splits)
      with True show ?thesis by simp
    qed simp
    then show ?thesis by simp
  next
    case False
    show ?thesis
    proof (rule Record_fresh[OF D rc inv wf R False])
      fix wh row v st1
      assume b: "booked st (tenantID t) (wh_id wh) (rqItem req) (qval D (signedQty D (rqType req) (rqQty req))) row v st1"
        and m: "mv_tenant row = tenantID t" and f: "stock_frame st1 st'"
        and iso: "\<forall>other. other \<noteq> tenantID t \<longrightarrow> tenant_view other st' = tenant_view other st1"
      show ?thesis
        using advances_trans[OF booked_advances[OF b m] stock_frame_advances[OF f iso[rule_format]]] booked_orders[OF b] f
        by (simp add: stock_frame_def)
    qed
  qed
  then show "advances (tenantID t) st st'" and "purchase_orders st' = purchase_orders st" and "order_lines st' = order_lines st"
    by blast+
qed

definition receipt_progress :: "uuid \<Rightarrow> 'd db \<Rightarrow> 'd db \<Rightarrow> bool" where
  "receipt_progress tid a b \<longleftrightarrow> advances tid a b \<and> purchase_orders b = purchase_orders a
     \<and> (\<forall>oid. terms_of oid (order_lines b) = terms_of oid (order_lines a))"

lemma receive_one_progress:
  assumes D: "decimal_api D" and ok: "order_service_ok s" and inv: "stock_inv st" and wf: "\<forall>a \<in> set actual. wfq D (rlQty a)"
    and r: "receive_one D U s w t oid now actual by_id key l st = Inr (u, st')"
  shows "receipt_progress (tenantID t) st st'"
proof -
  let ?tid = "tenantID t" and ?q = "received_qty D actual (orLine l)"
  from r obtain st1 where s1: "SetPurchaseOrderLineReceived ?tid oid (ol_item (orLine l)) (Some (DecimalOf D ?q)) st = Inr ((), st1)"
    and rest: "(if \<not> qIsPositive D ?q then tx_return () else
     tx_bind (tx_lift (Wrapped ''receipt'') (RecordInTx D (osStock s) w t (receipt_of U oid now by_id key (ol_item (orLine l)) ?q))) (\<lambda>_.
     tx_return ())) st1 = Inr (u, st')"
    by (auto simp: receive_one_def Let_def)
  note S = SetReceived_Inr[OF s1]
  have adv1: "advances ?tid st st1" by (rule orders_step_advances[OF S(1)])
  then have inv1: "stock_inv st1" using inv by (simp add: advances_def)
  have rc: "status_recalculator (ssStatus (osStock s))" using ok by (simp add: order_service_ok_def)
  have wq: "wfq D ?q" by (rule received_qty_wf[OF D wf])
  show ?thesis
  proof (cases "qIsPositive D ?q")
    case False
    then have "st' = st1" using rest by simp
    then show ?thesis using adv1 S by (simp add: receipt_progress_def)
  next
    case True
    then obtain res where rec: "RecordInTx D (osStock s) w t (receipt_of U oid now by_id key (ol_item (orLine l)) ?q) st1 = Inr (res, st')"
      using rest by auto
    have "wfq D (rqQty (receipt_of U oid now by_id key (ol_item (orLine l)) ?q))" using wq by (simp add: receipt_of_def)
    note R = RecordInTx_advances[OF D rc inv1 this rec]
    show ?thesis using advances_trans[OF adv1 R(1)] R(2,3) S by (simp add: receipt_progress_def)
  qed
qed

lemma receiveTx_effect:
  assumes D: "decimal_api D" and ok: "order_service_ok s" and inv: "stock_inv st" and wf: "\<forall>a \<in> set actual. wfq D (rlQty a)"
    and r: "receiveTx D U s w t oid actual by_id key st = Inr (u, st')"
  shows "order_effect (tenantID t) None st st'"
proof (rule receiveTx_Inr[OF r])
  fix row st1
  assume u: "ReceivePurchaseOrder (tenantID t) oid (tenant_Now t (osClock s) w) st = Inr ((), st1)"
    and l: "tx_for (ListPurchaseOrderLines (tenantID t) oid st)
      (receive_one D U s w t oid (tenant_Now t (osClock s) w) actual by_id key) st1 = Inr ((), st')"
  have e: "order_effect (tenantID t) None st st1"
    using update_order_step[OF u[unfolded ReceivePurchaseOrder_def]] update_order_life(3)[OF u]
    by (simp add: order_effect_def orders_step_advances)
  then have inv1: "stock_inv st1" using inv by (simp add: order_effect_def advances_def)
  have "receipt_progress (tenantID t) st1 st'"
  proof (rule tx_for_invariant[OF l])
    show "receipt_progress (tenantID t) st1 st1" by (simp add: receipt_progress_def)
    fix x a b v
    assume p: "receipt_progress (tenantID t) st1 a"
      and b: "receive_one D U s w t oid (tenant_Now t (osClock s) w) actual by_id key x a = Inr (v, b)"
    have "stock_inv a" using p inv1 by (simp add: receipt_progress_def advances_def)
    from receive_one_progress[OF D ok this wf b] p show "receipt_progress (tenantID t) st1 b"
      by (auto simp: receipt_progress_def elim: advances_trans)
  qed
  with e show ?thesis
    by (intro effect_then_frame[OF e]) (simp_all add: receipt_progress_def)
qed

end
