(* ===== verification/Order_Life.thy ===== *)
theory Order_Life
  imports Orders_Correct
begin

text \<open>
  The properties of the orders as a whole: every run of the operations is a run of the life of an
  order, what a sent order orders is fixed, a receipt books what was received once, and goods move
  from "in transit" to the stock without getting lost.
\<close>

section \<open>Runs of the operations\<close>

text \<open>Every operation with any outcome, of any tenant, at any time.\<close>

inductive order_op :: "'d decimal_lib \<Rightarrow> uuid_lib \<Rightarrow> 'd order_service \<Rightarrow> 'd db \<Rightarrow> 'd db \<Rightarrow> bool"
  for D U s where
  create: "CreateOrder D s w t inp st = (res, st') \<Longrightarrow> order_op D U s st st'"
| update: "UpdateLines D s w t oid lines st = (res, st') \<Longrightarrow> order_op D U s st st'"
| send: "Send D s w t oid st = (res, st') \<Longrightarrow> order_op D U s st st'"
| cancel: "Cancel D s w t oid st = (res, st') \<Longrightarrow> order_op D U s st st'"
| receive: "Receive D U s w t oid actual by_id key st = (res, st') \<Longrightarrow> \<forall>a \<in> set actual. wfq D (rlQty a) \<Longrightarrow> order_op D U s st st'"

text \<open>One operation: at most the terms of one draft change, existing or new.\<close>

definition order_run :: "'d db \<Rightarrow> 'd db \<Rightarrow> bool" where
  "order_run st st' \<longleftrightarrow> (\<exists>tid. advances tid st st') \<and> order_life (purchase_orders st) (purchase_orders st')
     \<and> (\<forall>r \<in> set (purchase_orders st). po_status r \<noteq> StatusDraft \<longrightarrow>
         terms_of (po_id r) (order_lines st') = terms_of (po_id r) (order_lines st))"

lemma order_run_refl: "order_run st st"
  using advances_refl by (auto simp: order_run_def)

lemma effect_run:
  assumes "order_effect tid d st st'" and "distinct (map po_id (purchase_orders st))"
    and "\<And>oid. d = Some oid \<Longrightarrow> oid \<notin> po_id ` set (purchase_orders st)
      \<or> (\<exists>r \<in> set (purchase_orders st). po_id r = oid \<and> po_status r = StatusDraft)"
  shows "order_run st st'"
proof -
  have "Some (po_id r) \<noteq> d" if r: "r \<in> set (purchase_orders st)" "po_status r \<noteq> StatusDraft" for r
  proof
    assume d: "Some (po_id r) = d"
    from assms(3)[OF d[symmetric]] obtain r' where r': "r' \<in> set (purchase_orders st)" "po_id r' = po_id r" "po_status r' = StatusDraft"
      using r(1) by blast
    then have "r' = r" using assms(2) r(1) by (auto simp: distinct_map inj_on_def)
    with r' r show False by simp
  qed
  then show ?thesis using assms(1) by (auto simp: order_effect_def order_run_def)
qed

lemma effect_none_run: "order_effect tid None st st' \<Longrightarrow> order_run st st'"
  by (auto simp: order_effect_def order_run_def)

lemma order_op_run:
  assumes "order_op D U s st st'" and D: "decimal_api D" and ok: "order_channels_ok s" and inv: "stock_inv st"
    and d: "distinct (map po_id (purchase_orders st))"
  shows "order_run st st'"
proof -
  have ok': "order_service_ok s" using ok by (simp add: order_channels_ok_def)
  from assms(1) show ?thesis
  proof cases
    case (create w t inp res)
    from create[unfolded CreateOrder_def] show ?thesis
    proof (cases rule: then_get_cases)
      case (commit x)
      show ?thesis
        by (rule effect_run[OF createOrderTx_effect(1)[OF commit(1)] d]) (use createOrderTx_effect(2)[OF commit(1)] in simp)
    qed (simp add: order_run_refl)
  next
    case (update w t oid lines res)
    from update[unfolded UpdateLines_def] show ?thesis
    proof (cases rule: then_get_cases)
      case (commit x)
      show ?thesis
        by (rule effect_run[OF updateLinesTx_effect(1)[OF commit(1)] d]) (use updateLinesTx_effect(2)[OF commit(1)] in auto)
    qed (simp add: order_run_refl)
  next
    case (send w t oid res)
    from send[unfolded Send_def] show ?thesis
      by (cases rule: then_get_cases) (auto simp: order_run_refl intro: effect_none_run sendTx_effect[OF _ ok'])
  next
    case (cancel w t oid res)
    from cancel[unfolded Cancel_def] show ?thesis
      by (cases rule: then_get_cases) (auto simp: order_run_refl intro: effect_none_run cancelTx_effect[OF _ ok'])
  next
    case (receive w t oid actual by_id key res)
    from receive(1) ok show ?thesis
    proof (cases rule: Receive_cases)
      case (commit st1)
      have e: "order_effect (tenantID t) None st st1" by (rule receiveTx_effect[OF D ok' inv receive(2) commit(1)])
      have "order_effect (tenantID t) None st st'"
        by (rule effect_then_frame[OF e feed_step_advances[OF commit(2)]]) (simp_all add: feed_step_orders[OF commit(2)])
      then show ?thesis by (rule effect_none_run)
    qed (simp add: order_run_refl)
  qed
qed

lemma never_draft_again: "order_step\<^sup>*\<^sup>* a b \<Longrightarrow> a \<noteq> StatusDraft \<Longrightarrow> b \<noteq> StatusDraft"
  by (induction rule: rtranclp_induct) (auto simp: order_statuses elim!: order_stepE)

text \<open>The tables a run keeps in order.\<close>

definition orders_wf :: "'d db \<Rightarrow> bool" where
  "orders_wf st \<longleftrightarrow> stock_inv st \<and> distinct (map po_id (purchase_orders st))"

lemma order_run_wf: "order_run st st' \<Longrightarrow> orders_wf st \<Longrightarrow> orders_wf st'"
  by (auto simp: order_run_def orders_wf_def advances_def intro: order_life_distinct)

lemma order_runs:
  assumes "(order_op D U s)\<^sup>*\<^sup>* st st'" and D: "decimal_api D" and ok: "order_channels_ok s" and wf: "orders_wf st"
    and r: "r \<in> set (purchase_orders st)"
  shows "orders_wf st' \<and> (\<exists>r' \<in> set (purchase_orders st'). order_moves r r'
     \<and> (po_status r \<noteq> StatusDraft \<longrightarrow> po_status r' \<noteq> StatusDraft \<and> terms_of (po_id r) (order_lines st') = terms_of (po_id r) (order_lines st)))"
  using assms(1)
proof (induction rule: rtranclp_induct)
  case base
  then show ?case using wf r order_moves_refl by blast
next
  case (step a b)
  then obtain r1 where wfa: "orders_wf a" and r1: "r1 \<in> set (purchase_orders a)" "order_moves r r1"
    and keep: "po_status r \<noteq> StatusDraft \<longrightarrow> po_status r1 \<noteq> StatusDraft \<and> terms_of (po_id r) (order_lines a) = terms_of (po_id r) (order_lines st)"
    by blast
  have run: "order_run a b"
    using order_op_run[OF step.hyps(2) D ok] wfa by (simp add: orders_wf_def)
  then obtain r2 where r2: "r2 \<in> set (purchase_orders b)" "order_moves r1 r2"
    using order_life_row r1(1) unfolding order_run_def by blast
  have id: "po_id r1 = po_id r" using r1(2) by (simp add: order_moves_def)
  have nd: "po_status r1 \<noteq> StatusDraft \<Longrightarrow> po_status r2 \<noteq> StatusDraft"
    using r2(2) never_draft_again by (auto simp: order_moves_def)
  have "po_status r1 \<noteq> StatusDraft \<Longrightarrow> terms_of (po_id r) (order_lines b) = terms_of (po_id r) (order_lines a)"
    using run r1(1) id unfolding order_run_def by metis
  then show ?case
    using order_run_wf[OF run wfa] r2 order_moves_trans[OF r1(2) r2(2)] keep nd by auto
qed

text \<open>(C11) Every run of the operations, of any tenants and with any outcomes, is for each order a run of
  its life: a draft is sent or cancelled, a sent order is received or cancelled, a received or
  cancelled order stays so. It keeps its supplier, and once it is no draft its lines keep their
  quantities, units, factors and prices.\<close>
theorem orders_follow_life:
  assumes "(order_op D U s)\<^sup>*\<^sup>* st st'" and "decimal_api D" and "order_channels_ok s" and "orders_wf st"
    and "r \<in> set (purchase_orders st)"
  shows "\<exists>r' \<in> set (purchase_orders st'). po_id r' = po_id r \<and> po_tenant r' = po_tenant r \<and> po_supplier r' = po_supplier r
     \<and> order_step\<^sup>*\<^sup>* (po_status r) (po_status r')
     \<and> (po_status r = StatusReceived \<or> po_status r = StatusCancelled \<longrightarrow> po_status r' = po_status r)
     \<and> (po_status r \<noteq> StatusDraft \<longrightarrow> po_status r' \<noteq> StatusDraft
         \<and> terms_of (po_id r) (order_lines st') = terms_of (po_id r) (order_lines st))"
proof -
  from order_runs[OF assms] obtain r' where r': "r' \<in> set (purchase_orders st')" "order_moves r r'"
    and k: "po_status r \<noteq> StatusDraft \<longrightarrow> po_status r' \<noteq> StatusDraft \<and> terms_of (po_id r) (order_lines st') = terms_of (po_id r) (order_lines st)"
    by blast
  have "po_status r = StatusReceived \<or> po_status r = StatusCancelled \<Longrightarrow> po_status r' = po_status r"
    using r'(2) terminal_path by (auto simp: order_moves_def)
  with r' k show ?thesis by (intro bexI[OF _ r'(1)]) (simp add: order_moves_def)
qed

section \<open>What is refused\<close>

lemma InTenantTx_fails: "m st = Inl e \<Longrightarrow> InTenantTx m st = (Inl e, st)"
  by (simp add: InTenantTx_def)

lemma then_read_fails: "change st = Inl e \<Longrightarrow> then_read change read st = (Inl e, st)"
  by (simp add: then_read_def InTenantTx_def)

text \<open>(C13) An operation that does not fit the status of the order is refused with the error for that
  status, and an order without lines is neither sent nor received; nothing is changed. Cancelling a
  cancelled order is no error and changes nothing.\<close>
theorem order_refusals:
  assumes "GetPurchaseOrder (tenantID t) oid st = row"
  defines "lines \<equiv> ListPurchaseOrderLines (tenantID t) oid st"
  shows "(case row of
       None \<Rightarrow> Send D s w t oid st = (Inl ErrNotFound, st) \<and> Cancel D s w t oid st = (Inl ErrNotFound, st)
         \<and> Receive D U s w t oid actual by_id key st = (Inl ErrNotFound, st)
         \<and> UpdateLines D s w t oid ls st = (Inl ErrNotFound, st)
     | Some r \<Rightarrow>
         (po_status r \<noteq> StatusDraft \<longrightarrow> UpdateLines D s w t oid ls st = (Inl ErrWrongStatus, st)
            \<and> Send D s w t oid st = (Inl (if po_status r = StatusSent then ErrAlreadySent else ErrWrongStatus), st))
       \<and> (po_status r \<noteq> StatusSent \<longrightarrow>
            Receive D U s w t oid actual by_id key st = (Inl (if po_status r = StatusReceived then ErrAlreadyReceived else ErrWrongStatus), st))
       \<and> (po_status r = StatusReceived \<longrightarrow> Cancel D s w t oid st = (Inl ErrAlreadyReceived, st))
       \<and> (po_status r = StatusCancelled \<longrightarrow> snd (Cancel D s w t oid st) = st)
       \<and> (lines = [] \<longrightarrow> (po_status r = StatusDraft \<longrightarrow> Send D s w t oid st = (Inl ErrEmptyOrder, st))
            \<and> (po_status r = StatusSent \<longrightarrow> Receive D U s w t oid actual by_id key st = (Inl ErrEmptyOrder, st))))"
proof (cases row)
  case None
  then have "sendTx D s w t oid st = Inl ErrNotFound" "cancelTx D s w t oid st = Inl ErrNotFound"
    "receiveTx D U s w t oid actual by_id key st = Inl ErrNotFound" "updateLinesTx D t oid ls st = Inl ErrNotFound"
    using assms(1) by (simp_all add: sendTx_def cancelTx_def receiveTx_def updateLinesTx_def Let_def tx_bind_def tx_of_sum_def from_opt_def)
  then show ?thesis
    using None by (simp add: Send_def Cancel_def Receive_def UpdateLines_def then_read_fails)
next
  case (Some r)
  note g = assms(1)[unfolded Some]
  note defs = sendTx_def cancelTx_def receiveTx_def updateLinesTx_def Let_def tx_bind_def tx_of_sum_def from_opt_def tx_guard_def g
  have "po_status r \<noteq> StatusDraft \<Longrightarrow> updateLinesTx D t oid ls st = Inl ErrWrongStatus"
    "po_status r \<noteq> StatusDraft \<Longrightarrow> sendTx D s w t oid st = Inl (if po_status r = StatusSent then ErrAlreadySent else ErrWrongStatus)"
    "po_status r \<noteq> StatusSent \<Longrightarrow> receiveTx D U s w t oid actual by_id key st = Inl (if po_status r = StatusReceived then ErrAlreadyReceived else ErrWrongStatus)"
    "po_status r = StatusReceived \<Longrightarrow> cancelTx D s w t oid st = Inl ErrAlreadyReceived"
    "po_status r = StatusDraft \<Longrightarrow> lines = [] \<Longrightarrow> sendTx D s w t oid st = Inl ErrEmptyOrder"
    "po_status r = StatusSent \<Longrightarrow> lines = [] \<Longrightarrow> receiveTx D U s w t oid actual by_id key st = Inl ErrEmptyOrder"
    by (simp_all add: defs assms(2) order_statuses)
  moreover have "snd (Cancel D s w t oid st) = st" if c: "po_status r = StatusCancelled"
  proof -
    obtain res st' where x: "Cancel D s w t oid st = (res, st')" by (cases "Cancel D s w t oid st")
    have "cancelTx D s w t oid st = Inr (oid, st)" using c by (simp add: defs order_statuses)
    with x[unfolded Cancel_def] have "st' = st" by (auto elim: then_get_cases)
    then show ?thesis using x by simp
  qed
  ultimately show ?thesis
    using Some by (simp add: Send_def Cancel_def Receive_def UpdateLines_def then_read_fails)
qed

section \<open>Receiving books what was received\<close>

lemma find_order_update:
  assumes "find (\<lambda>r. po_id r = oid) (visible tid po_tenant rows) = Some row" and "po_status row \<in> set from"
    and "\<And>r. po_id (f r) = po_id r \<and> po_tenant (f r) = po_tenant r"
  shows "find (\<lambda>r. po_id r = oid) (visible tid po_tenant
      (update_rows (\<lambda>r. po_tenant r = tid \<and> po_id r = oid \<and> po_status r \<in> set from) f rows)) = Some (f row)"
  using assms by (induction rows) (auto simp: visible_def update_rows_def split: if_splits)

text \<open>(C10) A receipt books each line of a sent order once: one receipt movement for every line of which
  something came, in the order of the lines, with the stated quantity or the ordered one; the stock of
  the default warehouse grows by these quantities and by nothing else, the lines keep what came, and
  the order is received, so that it cannot be received again. All this or, on an error of the
  receipt, nothing.\<close>
theorem Receive_books:
  assumes "decimal_api D" and "uuid_text U" and "order_channels_ok s" and "stock_inv st"
    and "receivable D U t oid actual key st" and "Receive D U s w t oid actual by_id key st = (res, st')"
  defines "tid \<equiv> tenantID t" and "ps \<equiv> receipt_of_lines D (tenantID t) oid actual st"
  shows "(st' = st \<and> isl res) \<or> (\<exists>row row' rows. GetPurchaseOrder tid oid st = Some row \<and> po_status row = StatusSent
      \<and> GetPurchaseOrder tid oid st' = Some row' \<and> po_status row' = StatusReceived
      \<and> movements st' = movements st @ rows
      \<and> list_all2 (receipt_row tid (default_warehouse tid st) oid) (filter (\<lambda>p. 0 < snd p) ps) rows
      \<and> (\<forall>a i. on_hand_of st' a i = on_hand_of st a i + (if a = default_warehouse tid st then booked_in ps i else 0))
      \<and> order_lines st' = fold (set_received tid oid) ps (order_lines st)
      \<and> stock_inv st' \<and> fst (Receive D U s w' t oid actual' by_id' key' st') = Inl ErrAlreadyReceived)"
proof -
  have ok: "order_service_ok s" using assms(3) by (simp add: order_channels_ok_def)
  from assms(6,3) show ?thesis
  proof (cases rule: Receive_cases)
    case (rollback e)
    then show ?thesis by simp
  next
    case (commit st2)
    show ?thesis
    proof (rule receiveTx_received[OF assms(1) ok assms(2,4,5) commit(1)])
      fix row st1
      assume g: "GetPurchaseOrder (tenantID t) oid st = Some row" "po_status row = StatusSent"
        and u: "ReceivePurchaseOrder (tenantID t) oid (tenant_Now t (osClock s) w) st = Inr ((), st1)"
        and r: "received_into (tenantID t) (default_warehouse (tenantID t) st) oid (receipt_of_lines D (tenantID t) oid actual st) st1 st2"
      note st1 = update_order_Inr(1)[OF u[unfolded ReceivePurchaseOrder_def]]
      have same: "movements st1 = movements st" "order_lines st1 = order_lines st" "stock_inv st1" "\<And>a i. on_hand_of st1 a i = on_hand_of st a i"
        using assms(4) by (auto simp: st1 stock_inv_def on_hand_of_def journal_def)
      have f: "movements st' = movements st2" "order_lines st' = order_lines st2" "purchase_orders st' = purchase_orders st2"
        "\<And>a i. on_hand_of st' a i = on_hand_of st2 a i" "stock_inv st2 \<Longrightarrow> stock_inv st'"
        using commit(2) stock_inv_frame by (auto simp: feed_step_def stock_frame_def on_hand_of_def)
      define row' where "row' = row\<lparr>po_status := ''received'', po_received_at := Some (pg_Time (tenant_Now t (osClock s) w))\<rparr>"
      have "po_status row \<in> set [''sent'']" using g(2) by (simp add: StatusSent_def)
      from find_order_update[OF g(1)[unfolded GetPurchaseOrder_def] this,
          of "\<lambda>r. r\<lparr>po_status := ''received'', po_received_at := Some (pg_Time (tenant_Now t (osClock s) w))\<rparr>"]
      have g': "GetPurchaseOrder (tenantID t) oid st' = Some row'"
        using r by (simp add: GetPurchaseOrder_def f received_into_def st1 row'_def)
      have rec: "po_status row' = StatusReceived" by (simp add: row'_def StatusReceived_def)
      have "receiveTx D U s w' t oid actual' by_id' key' st' = Inl ErrAlreadyReceived"
        using rec by (simp add: receiveTx_def Let_def tx_bind_def tx_of_sum_def from_opt_def tx_guard_def g')
      then have again: "fst (Receive D U s w' t oid actual' by_id' key' st') = Inl ErrAlreadyReceived"
        by (simp add: Receive_def then_read_fails)
      from r obtain rows where rows: "movements st2 = movements st1 @ rows"
        "list_all2 (receipt_row (tenantID t) (default_warehouse (tenantID t) st) oid)
           (filter (\<lambda>p. 0 < snd p) (receipt_of_lines D (tenantID t) oid actual st)) rows"
        unfolding received_into_def by blast
      have st2: "stock_inv st2" "order_lines st2 = fold (set_received (tenantID t) oid) (receipt_of_lines D (tenantID t) oid actual st) (order_lines st1)"
        "\<And>a i. on_hand_of st2 a i = on_hand_of st1 a i + (if a = default_warehouse (tenantID t) st then booked_in (receipt_of_lines D (tenantID t) oid actual st) i else 0)"
        using r same(3) unfolding received_into_def advances_def by blast+
      show ?thesis unfolding tid_def ps_def
        by (rule disjI2, intro exI[of _ row] exI[of _ row'] exI[of _ rows] conjI allI)
          (use g g' rec rows st2 same f again in simp_all)
    qed
  qed
qed

section \<open>Reading an order back\<close>

lemma index_text_Some: "0 \<le> i \<Longrightarrow> i < int (length xs) \<Longrightarrow> \<exists>x. index_text xs i = Some x"
  by (simp add: index_text_def)

lemma formatDay_total: "valid_day d \<Longrightarrow> \<exists>x. formatDay d = Some x"
  using index_text_Some[of "Month d" monthsGenitive]
  by (auto simp: formatDay_def monthsGenitive_def valid_day_def valid_civil_def)

lemma concat_texts_total: "\<forall>t \<in> set ts. \<exists>x. t = Some x \<Longrightarrow> \<exists>x. concat_texts ts = Some x"
  by (induction ts) auto

lemma line_text_total:
  assumes "decimal_api D"
  shows "\<exists>x. line_text D l = Some x"
proof -
  have "\<exists>q. InPurchaseUnits D l b = Some q" for b
    using decimal_api.rat_div[OF assms, of "qdec (lnUnitFactor l)" "qdec b"]
    by (auto simp: InPurchaseUnits_def decimal_api.qtest_ops[OF assms] qval_def)
  then show ?thesis by (auto simp: line_text_def Let_def)
qed

lemma OrderText_total:
  assumes "decimal_api D" and "IsZero e \<or> valid_day e"
  shows "\<exists>x. OrderText D n ord e = Some x"
  unfolding OrderText_def
  by (rule concat_texts_total) (use assms line_text_total[OF assms(1)] formatDay_total in auto)

lemma getOrderTx_total:
  assumes "decimal_api D" and "GetPurchaseOrder (tenantID t) oid st = Some row"
    and "po_expected_at row = None \<or> valid_day (pg_Day (po_expected_at row))"
  shows "\<exists>ord. getOrderTx D s w t oid st = Inr (ord, st)"
proof -
  have "IsZero (pg_Day (po_expected_at row)) \<or> valid_day (pg_Day (po_expected_at row))"
    using assms(3) by (auto simp: pg_Day_def IsZero_def)
  from OrderText_total[OF assms(1) this] obtain g where
    "\<And>n (ord :: 'a order). orExpectedAt ord = pg_Day (po_expected_at row) \<Longrightarrow> OrderText D n ord (orExpectedAt ord) = Some (g n ord)"
    using OrderText_total[OF assms(1) \<open>IsZero _ \<or> _\<close>] by (metis)
  then show ?thesis
    by (simp add: getOrderTx_def tx_bind_def tx_get_def tx_of_sum_def from_opt_def tx_return_def Let_def assms(2) orderFromRow_def)
qed

section \<open>A sample order\<close>

definition sample_order :: "string \<Rightarrow> order_row" where
  "sample_order status = \<lparr>po_id = 70, po_tenant = 1, po_supplier = 40, po_status = status, po_expected_at = None,
     po_sent_at = (if status = StatusDraft then None else Some 0),
     po_received_at = (if status = StatusReceived then Some 0 else None), po_cancelled_at = None, po_late_notified_at = None,
     po_note = [], po_created_by = None, po_created_at = 0\<rparr>"

definition sample_order_line :: order_line_row where
  "sample_order_line = \<lparr>ol_tenant = 1, ol_order = 70, ol_item = 10, ol_qty_ordered = 4, ol_qty_received = None,
     ol_purchase_unit = [], ol_unit_factor = 1, ol_price = None\<rparr>"

definition sample_supplier :: supplier_row where
  "sample_supplier = \<lparr>su_id = 40, su_tenant = 1, su_name = ''farm'', su_contact = [], su_lead_time_days = 1,
     su_delivery_weekdays = [], su_order_cutoff = 0, su_archived_at = None, su_created_at = 0\<rparr>"

definition sample_orders :: "string \<Rightarrow> dec db" where
  "sample_orders status = sample_db\<lparr>suppliers := [sample_supplier], purchase_orders := [sample_order status], order_lines := [sample_order_line]\<rparr>"

definition sample_order_service :: "dec order_service" where
  "sample_order_service = \<lparr>osClock = Fixed 1000000000000, osStatuses = None, osStock = sample_service, osNotifier = None\<rparr>"

lemma sample_order_ok:
  "order_channels_ok sample_order_service" "orders_wf (sample_orders status)"
  "stock_inv (sample_orders status)"
  "GetPurchaseOrder 1 70 (sample_orders status) = Some (sample_order status)"
proof -
  show s: "stock_inv (sample_orders status)"
    by (simp add: stock_inv_def journal_ok_def balances_ok_def sample_orders_def sample_db_def on_hand_of_def journal_def)
  then show "orders_wf (sample_orders status)" by (simp add: orders_wf_def sample_orders_def)
  show "order_channels_ok sample_order_service"
    using sample_ok(2) by (simp add: order_channels_ok_def order_service_ok_def sample_order_service_def)
  show "GetPurchaseOrder 1 70 (sample_orders status) = Some (sample_order status)"
    by (simp add: GetPurchaseOrder_def sample_orders_def sample_order_def visible_def)
qed

lemma sample_order_lines:
  "ListPurchaseOrderLines 1 70 (sample_orders status) = [\<lparr>orLine = sample_order_line, orItemName = ''milk'', orBaseUnit = ''l''\<rparr>]"
  by (simp add: ListPurchaseOrderLines_def sample_orders_def sample_db_def sample_item_def visible_def sample_order_line_def)

lemma sample_receivable: "receivable dec_lib sample_uuid sample_tenant 70 [] ''k'' (sample_orders status)"
proof -
  have "GetMovementByIdempotencyKey 1 k (sample_orders status) = None" for k
    by (simp add: GetMovementByIdempotencyKey_def sample_orders_def sample_db_def visible_def)
  then show ?thesis
    by (simp add: receivable_def sample_tenant_def sample_order_lines fresh_key_def receipt_key_def del: One_nat_def)
qed

lemma sample_received:
  obtains st1 where "receiveTx dec_lib sample_uuid sample_order_service 0 sample_tenant 70 [] 5 ''k'' (sample_orders StatusSent) = Inr (70, st1)"
    and "movements st1 \<noteq> []" and "\<exists>row. GetPurchaseOrder 1 70 st1 = Some row \<and> po_expected_at row = None"
proof -
  have "case receiveTx dec_lib sample_uuid sample_order_service 0 sample_tenant 70 [] 5 ''k'' (sample_orders StatusSent) of
      Inl _ \<Rightarrow> False | Inr (oid, st1) \<Rightarrow> oid = 70 \<and> movements st1 \<noteq> []
        \<and> map_option po_expected_at (GetPurchaseOrder 1 70 st1) = Some None"
    by code_simp
  then show thesis by (auto split: sum.splits intro: that)
qed

lemma sample_receipt_done:
  obtains ord st' where "Receive dec_lib sample_uuid sample_order_service 0 sample_tenant 70 [] 5 ''k'' (sample_orders StatusSent) = (Inr ord, st')"
    and "movements st' \<noteq> []"
proof -
  obtain st1 row where s: "receiveTx dec_lib sample_uuid sample_order_service 0 sample_tenant 70 [] 5 ''k'' (sample_orders StatusSent) = Inr (70, st1)"
    "movements st1 \<noteq> []" "GetPurchaseOrder 1 70 st1 = Some row" "po_expected_at row = None" using sample_received by metis
  have "GetPurchaseOrder (tenantID sample_tenant) 70 st1 = Some row" using s(3) by (simp add: sample_tenant_def)
  from getOrderTx_total[OF sample_ok(1) this] s(4)
  obtain ord where "getOrderTx dec_lib sample_order_service 0 sample_tenant 70 st1 = Inr (ord, st1)" by blast
  then show thesis
    by (intro that[of ord st1] s(2)) (simp add: Receive_def then_read_def InTenantTx_def s(1) announce_def, simp add: sample_order_service_def)
qed

theorem orders_follow_life_witness:
  "\<exists>st' r'. order_op dec_lib sample_uuid sample_order_service (sample_orders StatusReceived) st'
     \<and> r' \<in> set (purchase_orders st') \<and> po_id r' = 70 \<and> po_status r' = StatusReceived"
proof -
  obtain res st' where "Cancel dec_lib sample_order_service 0 sample_tenant 70 (sample_orders StatusReceived) = (res, st')"
    by fastforce
  then have op: "order_op dec_lib sample_uuid sample_order_service (sample_orders StatusReceived) st'" by (rule order_op.cancel)
  have "sample_order StatusReceived \<in> set (purchase_orders (sample_orders StatusReceived))" by (simp add: sample_orders_def)
  from orders_follow_life[OF r_into_rtranclp, OF op sample_ok(1) sample_order_ok(1,2) this] op
  show ?thesis by (auto simp: sample_order_def)
qed

theorem order_refusals_witness:
  "fst (Send dec_lib sample_order_service 0 sample_tenant 70 (sample_orders StatusSent)) = Inl ErrAlreadySent
   \<and> fst (Receive dec_lib sample_uuid sample_order_service 0 sample_tenant 70 [] 5 ''k'' (sample_orders StatusReceived)) = Inl ErrAlreadyReceived"
proof -
  have "GetPurchaseOrder (tenantID sample_tenant) 70 (sample_orders status) = Some (sample_order status)" for status
    using sample_order_ok(4) by (simp add: sample_tenant_def)
  note r = order_refusals[OF this, where D = dec_lib and s = sample_order_service and w = 0 and U = sample_uuid
      and actual = "[]" and by_id = 5 and key = "''k''" and ls = "[]"]
  show ?thesis using r[of StatusSent] r[of StatusReceived] by (simp add: sample_order_def order_statuses)
qed

lemma sample_terms:
  "receipt_of_lines dec_lib 1 70 [] (sample_orders status) = [(10, 4)]"
  "default_warehouse 1 (sample_orders status) = 20" "tenantID sample_tenant = 1" "uuid_text sample_uuid"
proof -
  show "receipt_of_lines dec_lib 1 70 [] (sample_orders status) = [(10, 4)]"
    by (simp add: receipt_of_lines_def sample_order_lines line_received_def received_qty_def sample_order_line_def del: One_nat_def)
  show "default_warehouse 1 (sample_orders status) = 20"
    by (simp add: default_warehouse_def GetDefaultWarehouse_def sample_orders_def sample_db_def visible_def)
qed (simp_all add: sample_tenant_def uuid_text_def sample_uuid_def)

theorem Receive_books_witness:
  "\<exists>ord st' row. Receive dec_lib sample_uuid sample_order_service 0 sample_tenant 70 [] 5 ''k'' (sample_orders StatusSent) = (Inr ord, st')
     \<and> movements st' = [row] \<and> mv_qty row = 4 \<and> on_hand_of st' 20 10 = 4"
proof -
  obtain ord st' where r: "Receive dec_lib sample_uuid sample_order_service 0 sample_tenant 70 [] 5 ''k'' (sample_orders StatusSent) = (Inr ord, st')"
    by (rule sample_receipt_done)
  have m: "movements (sample_orders StatusSent) = []" "on_hand_of (sample_orders StatusSent) 20 10 = 0"
    by (simp_all add: sample_orders_def sample_db_def on_hand_of_def)
  from Receive_books[OF sample_ok(1) sample_terms(4) sample_order_ok(1,3) sample_receivable r, of 0 "[]" 0 "[]"]
  have "list_all2 (receipt_row 1 20 70) [(10, 4)] (movements st')"
    "\<forall>a i. on_hand_of st' a i = on_hand_of (sample_orders StatusSent) a i + (if a = 20 then booked_in [(10, 4)] i else 0)"
    unfolding sample_terms m by (auto simp del: One_nat_def)
  then show ?thesis using r m(2) by (auto simp: list_all2_Cons1 receipt_row_def booked_in_def)
qed

end
