(* ===== verification/Order_Position.thy ===== *)
theory Order_Position
  imports Order_Life
begin

text \<open>
  Goods on their way: what the orders tell the reorder decision is in transit, and how sending and
  receiving move quantities between "in transit" and the stock on hand.
\<close>

section \<open>In transit\<close>

definition in_transit :: "uuid \<Rightarrow> uuid \<Rightarrow> 'd db \<Rightarrow> rat" where
  "in_transit tid iid st = sum_list (map snd (ListIncomingForItem tid iid st))"

lemma sum_by_key:
  fixes f :: "'a \<Rightarrow> rat"
  assumes "finite A" and "g ` set xs \<subseteq> A"
  shows "(\<Sum>e\<in>A. sum_list (map f (filter (\<lambda>x. g x = e) xs))) = sum_list (map f xs)"
  using assms(2)
proof (induction xs)
  case (Cons x xs)
  have "(\<Sum>e\<in>A. sum_list (map f (filter (\<lambda>y. g y = e) (x # xs)))) =
      (\<Sum>e\<in>A. (if g x = e then f x else 0) + sum_list (map f (filter (\<lambda>y. g y = e) xs)))"
    by (rule sum.cong) auto
  also have "\<dots> = f x + sum_list (map f xs)"
    using Cons assms(1) by (simp add: sum.distrib)
  finally show ?case by simp
qed simp

lemma sum_groups:
  fixes f :: "'a \<Rightarrow> rat"
  shows "sum_list (map (\<lambda>e. sum_list (map f (filter (\<lambda>x. g x = e) xs))) (remdups (map g xs))) = sum_list (map f xs)"
proof -
  have "sum_list (map h (remdups ys)) = sum h (set ys)" for h :: "'b \<Rightarrow> rat" and ys
    by (simp add: sum_list_distinct_conv_sum_set)
  then show ?thesis using sum_by_key[of "g ` set xs" g xs f] by simp
qed

lemma sum_concat: "sum_list (map f (concat (map h ls))) = sum_list (map (\<lambda>l. sum_list (map f (h l))) ls)"
  for f :: "'a \<Rightarrow> rat"
  by (induction ls) simp_all

definition sent_order :: "uuid \<Rightarrow> 'd db \<Rightarrow> uuid \<Rightarrow> bool" where
  "sent_order tid st oid \<longleftrightarrow> (\<exists>r \<in> set (purchase_orders st). po_tenant r = tid \<and> po_id r = oid \<and> po_status r = StatusSent)"

lemma filter_unique:
  assumes "distinct (map po_id rows)"
  shows "length (filter (\<lambda>r. po_id r = oid \<and> P r) (visible tid po_tenant rows)) =
    (if \<exists>r \<in> set rows. po_tenant r = tid \<and> po_id r = oid \<and> P r then 1 else 0)"
  using assms by (induction rows) (auto simp: visible_def filter_empty_conv image_iff)

text \<open>The sum of the lines of the sent orders.\<close>

definition sent_sum :: "uuid \<Rightarrow> uuid \<Rightarrow> (uuid \<Rightarrow> bool) \<Rightarrow> order_line_row list \<Rightarrow> rat" where
  "sent_sum tid iid S rows = sum_list (map (\<lambda>l. if ol_item l = iid \<and> S (ol_order l) then ol_qty_ordered l else 0) (visible tid ol_tenant rows))"

lemma in_transit_sum:
  assumes "distinct (map po_id (purchase_orders st))"
  shows "in_transit tid iid st = sent_sum tid iid (sent_order tid st) (order_lines st)"
proof -
  let ?ls = "filter (\<lambda>(l, e). ol_item l = iid) (sent_lines tid st)"
  have "in_transit tid iid st = sum_list (map (\<lambda>p. ol_qty_ordered (fst p)) ?ls)"
    using sum_groups[of "\<lambda>p. ol_qty_ordered (fst p)" snd ?ls]
    by (simp add: in_transit_def ListIncomingForItem_def Let_def comp_def split_def)
  also have "\<dots> = sum_list (map (\<lambda>p. if ol_item (fst p) = iid then ol_qty_ordered (fst p) else 0) (sent_lines tid st))"
    by (simp add: sum_list_map_filter' split_def)
  also have "\<dots> = sent_sum tid iid (sent_order tid st) (order_lines st)"
  proof -
    have const: "sum_list (map (\<lambda>x. c) xs) = (if length xs = 1 then c else 0)" if "length xs \<le> 1" for xs :: "order_row list" and c :: rat
      using that by (cases xs) auto
    have one: "sum_list (map (\<lambda>p. if ol_item (fst p) = iid then ol_qty_ordered (fst p) else (0::rat))
        (map (\<lambda>r. (l, po_expected_at r)) (filter (\<lambda>r. po_id r = ol_order l \<and> po_status r = ''sent'') (visible tid po_tenant (purchase_orders st))))) =
      (if ol_item l = iid \<and> sent_order tid st (ol_order l) then ol_qty_ordered l else 0)" for l
      using filter_unique[OF assms, of "ol_order l" "\<lambda>r. po_status r = ''sent''" tid]
      by (subst map_map, unfold comp_def fst_conv, subst const) (auto simp: sent_order_def StatusSent_def)
    show ?thesis
      unfolding sent_lines_def sent_sum_def one[symmetric] by (simp only: sum_concat)
  qed
  finally show ?thesis .
qed

lemma sent_sum_split:
  "S oid \<Longrightarrow> sent_sum tid iid S rows = sent_sum tid iid (\<lambda>x. S x \<and> x \<noteq> oid) rows + sent_sum tid iid (\<lambda>x. x = oid) rows"
  unfolding sent_sum_def sum_list_addf[symmetric] by (rule arg_cong[where f = sum_list], rule map_cong) auto

lemma sent_sum_received: "sent_sum tid iid S (fold (set_received tid' oid) ps rows) = sent_sum tid iid S rows"
proof (induction ps arbitrary: rows)
  case (Cons p ps)
  have "sent_sum tid iid S (set_received tid' oid p rows) = sent_sum tid iid S rows"
    by (induction rows) (auto simp: sent_sum_def set_received_def update_rows_def visible_def)
  with Cons show ?case by simp
qed simp

text \<open>Every line of the tenant has its item, which the join of \<open>ListPurchaseOrderLines\<close> relies on.\<close>

definition line_items_ok :: "uuid \<Rightarrow> 'd db \<Rightarrow> bool" where
  "line_items_ok tid st \<longleftrightarrow> (\<forall>l \<in> set (order_lines st). ol_tenant l = tid \<longrightarrow>
     length (filter (\<lambda>i. it_id i = ol_item l) (visible tid it_tenant (items st))) = 1)"

lemma sum_sort: "sum_list (map f (sort_key k xs)) = sum_list (map f xs)" for f :: "'a \<Rightarrow> rat"
  by (metis mset_map mset_sort sum_mset_sum_list)

lemma sum_order_lines:
  fixes g :: "order_line_row \<Rightarrow> rat"
  assumes "line_items_ok tid st"
  shows "sum_list (map (\<lambda>l. g (orLine l)) (ListPurchaseOrderLines tid oid st)) =
    sum_list (map (\<lambda>l. if ol_order l = oid then g l else 0) (visible tid ol_tenant (order_lines st)))"
proof -
  have const: "sum_list (map (\<lambda>x. c) xs) = c" if "length xs = 1" for xs :: "item_row list" and c :: rat
    using that by (cases xs) auto
  have "sum_list (map (\<lambda>l. g (orLine l)) (ListPurchaseOrderLines tid oid st)) =
      sum_list (map (\<lambda>l. sum_list (map (\<lambda>i. g l) (filter (\<lambda>i. it_id i = ol_item l) (visible tid it_tenant (items st)))))
        (filter (\<lambda>l. ol_order l = oid) (visible tid ol_tenant (order_lines st))))"
    unfolding ListPurchaseOrderLines_def sum_sort sum_concat by (simp add: comp_def)
  also have "\<dots> = sum_list (map g (filter (\<lambda>l. ol_order l = oid) (visible tid ol_tenant (order_lines st))))"
    using assms by (intro arg_cong[where f = sum_list] map_cong refl const) (auto simp: line_items_ok_def visible_def)
  finally show ?thesis by (simp add: sum_list_map_filter')
qed

section \<open>Sending\<close>

lemma sent_order_update:
  fixes f :: "order_row \<Rightarrow> order_row"
  assumes "find (\<lambda>r. po_id r = oid) (visible tid po_tenant rows) = Some row" and "distinct (map po_id rows)"
    and "\<And>r. po_id (f r) = po_id r \<and> po_tenant (f r) = po_tenant r" and "po_status row \<in> set from"
  shows "(\<exists>r \<in> set (update_rows (\<lambda>r. po_tenant r = tid \<and> po_id r = oid \<and> po_status r \<in> set from) f rows).
      po_tenant r = tid \<and> po_id r = x \<and> po_status r = StatusSent) \<longleftrightarrow>
    (if x = oid then po_status (f row) = StatusSent else \<exists>r \<in> set rows. po_tenant r = tid \<and> po_id r = x \<and> po_status r = StatusSent)"
proof -
  have row: "row \<in> set rows" "po_tenant row = tid" "po_id row = oid" using find_visible[OF assms(1)] by auto
  have uniq: "r = row" if "r \<in> set rows" "po_id r = oid" for r
    using that row assms(2) by (auto simp: distinct_map inj_on_def)
  define P where "P r \<longleftrightarrow> po_tenant r = tid \<and> po_id r = oid \<and> po_status r \<in> set from" for r :: order_row
  define h where "h r = (if P r then f r else r)" for r :: order_row
  have hid: "po_id (h r) = po_id r" "po_tenant (h r) = po_tenant r" for r using assms(3) by (simp_all add: h_def)
  have hrow: "h row = f row" using row assms(4) by (simp add: h_def P_def)
  have hother: "po_id r \<noteq> oid \<Longrightarrow> h r = r" for r by (simp add: h_def P_def)
  have set: "set (update_rows P f rows) = h ` set rows" by (auto simp: update_rows_def h_def)
  have "(\<exists>r \<in> set (update_rows P f rows). po_tenant r = tid \<and> po_id r = x \<and> po_status r = StatusSent) \<longleftrightarrow>
      (\<exists>r \<in> set rows. po_tenant r = tid \<and> po_id r = x \<and> po_status (h r) = StatusSent)"
    unfolding set by (simp only: bex_simps hid)
  also have "\<dots> \<longleftrightarrow> (if x = oid then po_status (f row) = StatusSent else \<exists>r \<in> set rows. po_tenant r = tid \<and> po_id r = x \<and> po_status r = StatusSent)"
  proof (cases "x = oid")
    case True
    have "(\<exists>r \<in> set rows. po_tenant r = tid \<and> po_id r = oid \<and> po_status (h r) = StatusSent) \<longleftrightarrow> po_status (f row) = StatusSent"
    proof
      assume "\<exists>r \<in> set rows. po_tenant r = tid \<and> po_id r = oid \<and> po_status (h r) = StatusSent"
      then obtain r where r: "r \<in> set rows" "po_id r = oid" "po_status (h r) = StatusSent" by blast
      have "r = row" by (rule uniq[OF r(1,2)])
      then show "po_status (f row) = StatusSent" using r(3) hrow by simp
    next
      assume "po_status (f row) = StatusSent"
      then show "\<exists>r \<in> set rows. po_tenant r = tid \<and> po_id r = oid \<and> po_status (h r) = StatusSent"
        using row hrow by (intro bexI[of _ row]) simp_all
    qed
    then show ?thesis using True by simp
  next
    case False
    then have "po_id r = x \<Longrightarrow> h r = r" for r using hother by simp
    then have "(\<exists>r \<in> set rows. po_tenant r = tid \<and> po_id r = x \<and> po_status (h r) = StatusSent) \<longleftrightarrow>
        (\<exists>r \<in> set rows. po_tenant r = tid \<and> po_id r = x \<and> po_status r = StatusSent)"
      by (intro bex_cong refl conj_cong) simp
    with False show ?thesis by simp
  qed
  finally show ?thesis unfolding P_def .
qed

text \<open>Sending an order puts its lines in transit: the order is sent, expected on the first delivery
  day of the window at this moment, and what is in transit of an item grows by what the order's lines
  have of it, while no balance and no movement changes.\<close>
theorem Send_in_transit:
  assumes "order_service_ok s" and "distinct (map po_id (purchase_orders st))" and "line_items_ok (tenantID t) st"
    and "sendTx D s w t oid st = Inr (u, st')"
  shows "\<exists>row row' supplier. GetPurchaseOrder (tenantID t) oid st = Some row \<and> po_status row = StatusDraft
     \<and> GetSupplier (tenantID t) (po_supplier row) st = Some supplier
     \<and> GetPurchaseOrder (tenantID t) oid st' = Some row' \<and> po_status row' = StatusSent
     \<and> po_expected_at row' = Some (pg_Date (D1 (order_window s w t supplier)))
     \<and> in_transit (tenantID t) iid st' = in_transit (tenantID t) iid st
         + sum_list (map (\<lambda>l. if ol_item (orLine l) = iid then ol_qty_ordered (orLine l) else 0) (ListPurchaseOrderLines (tenantID t) oid st))
     \<and> movements st' = movements st \<and> balances st' = balances st"
proof -
  let ?tid = "tenantID t"
  define f where "f supplier r = r\<lparr>po_status := ''sent'', po_sent_at := Some (pg_Time (tenant_Now t (osClock s) w)),
      po_expected_at := Some (pg_Date (D1 (order_window s w t supplier)))\<rparr>" for supplier and r :: order_row
  from assms(4) obtain row supplier st1 where g: "GetPurchaseOrder ?tid oid st = Some row" "po_status row = StatusDraft"
    and su: "GetSupplier ?tid (po_supplier row) st = Some supplier"
    and u: "SendPurchaseOrder ?tid oid (tenant_Now t (osClock s) w) (D1 (order_window s w t supplier)) st = Inr ((), st1)"
    and r: "recalculate_lines D s w t (ListPurchaseOrderLines ?tid oid st) st1 = Inr ((), st')"
    by (auto simp: sendTx_def Let_def)
  note st1 = update_order_Inr(1)[OF u[unfolded SendPurchaseOrder_def], folded f_def]
  note fr = recalculate_lines_frame(2)[OF r assms(1)]
  have po: "purchase_orders st' = purchase_orders st1" "order_lines st' = order_lines st" "movements st' = movements st" "balances st' = balances st"
    using fr by (simp_all add: stock_frame_def st1)
  have d: "po_status row \<in> set [''draft'']" using g(2) by (simp add: StatusDraft_def)
  note g1 = g(1)[unfolded GetPurchaseOrder_def]
  have g': "GetPurchaseOrder ?tid oid st' = Some (f supplier row)"
    unfolding GetPurchaseOrder_def po(1) st1 using find_order_update[OF g1 d, of "f supplier"] by (simp add: f_def)
  have sent: "sent_order ?tid st' x \<longleftrightarrow> x = oid \<or> sent_order ?tid st x" for x
    unfolding sent_order_def po(1) st1 using sent_order_update[OF g1 assms(2) _ d, of "f supplier" x]
    by (simp add: f_def StatusSent_def)
  have old: "\<not> sent_order ?tid st oid"
  proof
    assume "sent_order ?tid st oid"
    then obtain r where "r \<in> set (purchase_orders st)" "po_id r = oid" "po_status r = StatusSent" by (auto simp: sent_order_def)
    moreover have "row \<in> set (purchase_orders st)" "po_id row = oid" using find_visible[OF g1] by auto
    ultimately show False using g(2) assms(2) by (auto simp: distinct_map inj_on_def order_statuses)
  qed
  have d': "distinct (map po_id (purchase_orders st'))"
    unfolding po(1) using order_life_distinct[OF update_order_life(1)[OF u] assms(2)] .
  have "in_transit ?tid iid st' = sent_sum ?tid iid (sent_order ?tid st') (order_lines st)"
    unfolding in_transit_sum[OF d'] po(2) ..
  also have "\<dots> = sent_sum ?tid iid (\<lambda>x. sent_order ?tid st' x \<and> x \<noteq> oid) (order_lines st) + sent_sum ?tid iid (\<lambda>x. x = oid) (order_lines st)"
    by (rule sent_sum_split) (simp add: sent)
  also have "(\<lambda>x. sent_order ?tid st' x \<and> x \<noteq> oid) = sent_order ?tid st" using sent old by auto
  also have "sent_sum ?tid iid (sent_order ?tid st) (order_lines st) = in_transit ?tid iid st"
    unfolding in_transit_sum[OF assms(2)] ..
  also have "sent_sum ?tid iid (\<lambda>x. x = oid) (order_lines st) =
      sum_list (map (\<lambda>l. if ol_item (orLine l) = iid then ol_qty_ordered (orLine l) else 0) (ListPurchaseOrderLines ?tid oid st))"
    unfolding sum_order_lines[OF assms(3), of "\<lambda>l. if ol_item l = iid then ol_qty_ordered l else 0" oid] sent_sum_def
    by (rule arg_cong[where f = sum_list], rule map_cong) auto
  finally have tr: "in_transit ?tid iid st' = in_transit ?tid iid st
      + sum_list (map (\<lambda>l. if ol_item (orLine l) = iid then ol_qty_ordered (orLine l) else 0) (ListPurchaseOrderLines ?tid oid st))" .
  show ?thesis
    by (intro exI[of _ row] exI[of _ "f supplier row"] exI[of _ supplier] conjI)
      (use g su g' tr po in \<open>simp_all add: f_def StatusSent_def\<close>)
qed

section \<open>Receiving\<close>

text \<open>(C12) Receiving an order moves it from "in transit" to the stock: for every item, the stock of the
  default warehouse together with what is in transit changes only by the mismatches of the order's
  lines, received less ordered. An order received as ordered changes no inventory position.\<close>
theorem Receive_position:
  assumes "decimal_api D" and "uuid_text U" and "order_channels_ok s" and "orders_wf st" and "line_items_ok (tenantID t) st"
    and "receivable D U t oid actual key st" and "Receive D U s w t oid actual by_id key st = (Inr ord, st')"
  defines "tid \<equiv> tenantID t" and "wid \<equiv> default_warehouse (tenantID t) st"
  shows "on_hand_of st' wid iid + in_transit tid iid st' = on_hand_of st wid iid + in_transit tid iid st
     + sum_list (map (\<lambda>l. if ol_item (orLine l) = iid then qval D (received_qty D actual (orLine l)) - ol_qty_ordered (orLine l) else 0)
         (ListPurchaseOrderLines tid oid st))"
proof -
  have ok: "order_service_ok s" using assms(3) by (simp add: order_channels_ok_def)
  have inv: "stock_inv st" and d: "distinct (map po_id (purchase_orders st))" using assms(4) by (simp_all add: orders_wf_def)
  let ?ls = "ListPurchaseOrderLines (tenantID t) oid st"
  let ?ordered = "\<lambda>l. if ol_item l = iid then ol_qty_ordered l else 0"
  let ?received = "\<lambda>l. if ol_item l = iid then qval D (received_qty D actual l) else 0"
  from assms(7,3) show ?thesis
  proof (cases rule: Receive_cases)
    case (rollback e)
    then show ?thesis by simp
  next
    case (commit st2)
    show ?thesis
    proof (rule receiveTx_received[OF assms(1) ok assms(2) inv assms(6) commit(1)])
      fix row st1
      assume g: "GetPurchaseOrder (tenantID t) oid st = Some row" "po_status row = StatusSent"
        and u: "ReceivePurchaseOrder (tenantID t) oid (tenant_Now t (osClock s) w) st = Inr ((), st1)"
        and r: "received_into (tenantID t) (default_warehouse (tenantID t) st) oid (receipt_of_lines D (tenantID t) oid actual st) st1 st2"
      define f where "f r = r\<lparr>po_status := ''received'', po_received_at := Some (pg_Time (tenant_Now t (osClock s) w))\<rparr>" for r :: order_row
      note st1 = update_order_Inr(1)[OF u[unfolded ReceivePurchaseOrder_def], folded f_def]
      have po: "purchase_orders st' = purchase_orders st1"
        "order_lines st' = fold (set_received tid oid) (receipt_of_lines D tid oid actual st) (order_lines st)"
        using r feed_step_orders[OF commit(2)] by (simp_all add: received_into_def st1 tid_def)
      have oh: "on_hand_of st' wid iid = on_hand_of st wid iid + booked_in (receipt_of_lines D tid oid actual st) iid"
        using r commit(2) by (simp add: received_into_def wid_def tid_def feed_step_def stock_frame_def on_hand_of_def st1)
      have dd: "po_status row \<in> set [''sent'']" using g(2) by (simp add: StatusSent_def)
      note g1 = g(1)[unfolded GetPurchaseOrder_def]
      have sent: "sent_order tid st' x \<longleftrightarrow> sent_order tid st x \<and> x \<noteq> oid" for x
        unfolding sent_order_def po(1) st1 tid_def using sent_order_update[OF g1 d _ dd, of f x]
        by (simp add: f_def StatusSent_def)
      have old: "sent_order tid st oid"
        using find_visible[OF g1] g(2) by (auto simp: sent_order_def tid_def)
      have d': "distinct (map po_id (purchase_orders st'))"
        unfolding po(1) using order_life_distinct[OF update_order_life(3)[OF u] d] .
      have "in_transit tid iid st = sent_sum tid iid (sent_order tid st) (order_lines st)" by (rule in_transit_sum[OF d])
      also have "\<dots> = sent_sum tid iid (\<lambda>x. sent_order tid st x \<and> x \<noteq> oid) (order_lines st) + sent_sum tid iid (\<lambda>x. x = oid) (order_lines st)"
        using old by (rule sent_sum_split)
      also have "(\<lambda>x. sent_order tid st x \<and> x \<noteq> oid) = sent_order tid st'" using sent by auto
      also have "sent_sum tid iid (sent_order tid st') (order_lines st) = in_transit tid iid st'"
        unfolding in_transit_sum[OF d'] po(2) sent_sum_received ..
      also have "sent_sum tid iid (\<lambda>x. x = oid) (order_lines st) = sum_list (map (\<lambda>l. ?ordered (orLine l)) ?ls)"
        unfolding sum_order_lines[OF assms(5), of ?ordered oid] sent_sum_def tid_def
        by (rule arg_cong[where f = sum_list], rule map_cong) auto
      finally have tr: "in_transit tid iid st = in_transit tid iid st' + sum_list (map (\<lambda>l. ?ordered (orLine l)) ?ls)" .
      have bk: "booked_in (receipt_of_lines D tid oid actual st) iid = sum_list (map (\<lambda>l. ?received (orLine l)) ?ls)"
        by (simp add: booked_in_def receipt_of_lines_def line_received_def filter_map comp_def sum_list_map_filter' tid_def)
      have "sum_list (map (\<lambda>l. if ol_item (orLine l) = iid then qval D (received_qty D actual (orLine l)) - ol_qty_ordered (orLine l) else 0) ?ls) =
          sum_list (map (\<lambda>l. ?received (orLine l) - ?ordered (orLine l)) ?ls)"
        by (rule arg_cong[where f = sum_list], rule map_cong) auto
      also have "\<dots> = sum_list (map (\<lambda>l. ?received (orLine l)) ?ls) - sum_list (map (\<lambda>l. ?ordered (orLine l)) ?ls)"
        by (rule sum_list_subtractf)
      finally show ?thesis using oh tr bk by (simp add: tid_def)
    qed
  qed
qed

section \<open>Examples\<close>

lemma sample_line_items: "line_items_ok 1 (sample_orders status)"
  by (simp add: line_items_ok_def sample_orders_def sample_order_line_def sample_db_def sample_item_def visible_def)

lemma sample_in_transit: "in_transit 1 10 (sample_orders status) = (if status = StatusSent then 4 else 0)"
proof -
  have "distinct (map po_id (purchase_orders (sample_orders status)))" by (simp add: sample_orders_def)
  from in_transit_sum[OF this] show ?thesis
    by (simp add: sent_sum_def sent_order_def sample_orders_def sample_order_def sample_order_line_def visible_def)
qed

lemma sample_sent:
  obtains st' where "sendTx dec_lib sample_order_service 0 sample_tenant 70 (sample_orders StatusDraft) = Inr (70, st')"
proof -
  have t: "tenantID sample_tenant = 1" by (simp add: sample_tenant_def)
  have su: "GetSupplier 1 40 (sample_orders StatusDraft) = Some sample_supplier"
    by (simp add: GetSupplier_def sample_orders_def sample_supplier_def visible_def)
  have row: "po_status (sample_order StatusDraft) = StatusDraft" "po_supplier (sample_order StatusDraft) = 40"
    by (simp_all add: sample_order_def)
  have "\<exists>st'. SendPurchaseOrder 1 70 m d (sample_orders StatusDraft) = Inr ((), st')" for m d
    by (simp add: SendPurchaseOrder_def update_order_def order_times_ok_def sample_orders_def sample_order_def order_statuses)
  then obtain f where send: "\<And>m d. SendPurchaseOrder 1 70 m d (sample_orders StatusDraft) = Inr ((), f m d)" by metis
  have none: "osStatuses sample_order_service = None" by (simp add: sample_order_service_def)
  have "StatusDraft \<noteq> StatusSent" by (simp add: order_statuses)
  then have "\<exists>st'. sendTx dec_lib sample_order_service 0 sample_tenant 70 (sample_orders StatusDraft) = Inr (70, st')"
    unfolding sendTx_def Let_def t
    by (simp add: tx_bind_def tx_of_sum_def from_opt_def tx_guard_def dbtx_def sample_order_ok(4) sample_order_lines su
        row send recalculate_lines_def none tx_lift_def del: One_nat_def)
  then show thesis using that by blast
qed

theorem Send_in_transit_witness:
  "\<exists>st'. sendTx dec_lib sample_order_service 0 sample_tenant 70 (sample_orders StatusDraft) = Inr (70, st')
     \<and> in_transit 1 10 (sample_orders StatusDraft) = 0 \<and> in_transit 1 10 st' = 4"
proof -
  obtain st' where s: "sendTx dec_lib sample_order_service 0 sample_tenant 70 (sample_orders StatusDraft) = Inr (70, st')"
    by (rule sample_sent)
  have d: "distinct (map po_id (purchase_orders (sample_orders StatusDraft)))" by (simp add: sample_orders_def)
  have ok: "order_service_ok sample_order_service" using sample_order_ok(1) by (simp add: order_channels_ok_def)
  have "in_transit 1 10 st' = in_transit 1 10 (sample_orders StatusDraft) + 4"
    using Send_in_transit[OF ok d _ s, of 10]
    unfolding sample_terms sample_order_lines by (auto simp: sample_line_items sample_order_line_def simp del: One_nat_def)
  moreover have "in_transit 1 10 (sample_orders StatusDraft) = 0" unfolding sample_in_transit by (simp add: order_statuses)
  ultimately show ?thesis using s by simp
qed

theorem Receive_position_witness:
  "\<exists>ord st'. Receive dec_lib sample_uuid sample_order_service 0 sample_tenant 70 [] 5 ''k'' (sample_orders StatusSent) = (Inr ord, st')
     \<and> on_hand_of st' 20 10 + in_transit 1 10 st' = 4"
proof -
  obtain ord st' where r: "Receive dec_lib sample_uuid sample_order_service 0 sample_tenant 70 [] 5 ''k'' (sample_orders StatusSent) = (Inr ord, st')"
    by (rule sample_receipt_done)
  have "line_items_ok (tenantID sample_tenant) (sample_orders StatusSent)"
    using sample_line_items by (simp add: sample_tenant_def)
  from Receive_position[OF sample_ok(1) sample_terms(4) sample_order_ok(1,2) this sample_receivable r, of 10]
  have "on_hand_of st' 20 10 + in_transit 1 10 st' = on_hand_of (sample_orders StatusSent) 20 10 + 4"
    unfolding sample_terms sample_order_lines sample_in_transit
    by (simp add: received_qty_def sample_order_line_def del: One_nat_def)
  then show ?thesis using r by (simp add: on_hand_of_def sample_orders_def sample_db_def)
qed

end
