(* ===== verification/Catalog_Correct.thy ===== *)
theory Catalog_Correct
  imports Import Csv_Correct Order_Position
begin

text \<open>
  Correctness of the catalogue: its own invariant (names unique per tenant, every reference in place,
  every row within its constraints), kept by every operation together with the invariant of the stock;
  and what an import of a parsed file does.
\<close>

section \<open>Steps that may change the catalogue\<close>

text \<open>Like \<open>advances\<close>, with the tables of the catalogue free to change and the orders fixed.\<close>

definition grows :: "uuid \<Rightarrow> 'd db \<Rightarrow> 'd db \<Rightarrow> bool" where
  "grows tid st st' \<longleftrightarrow> (stock_inv st \<longrightarrow> stock_inv st') \<and> (\<exists>ms. movements st' = movements st @ ms)
     \<and> (\<forall>other. other \<noteq> tid \<longrightarrow> tenant_view other st' = tenant_view other st)
     \<and> purchase_orders st' = purchase_orders st \<and> order_lines st' = order_lines st
     \<and> count_lines st' = count_lines st \<and> uuid_supply st \<le> uuid_supply st'"

lemma grows_refl [simp]: "grows tid st st"
  by (simp add: grows_def)

lemma grows_trans [trans]: "grows tid a b \<Longrightarrow> grows tid b c \<Longrightarrow> grows tid a c"
  by (auto simp: grows_def)

lemma grows_tables:
  assumes "movements st' = movements st" and "balances st' = balances st" and "uuid_supply st \<le> uuid_supply st'"
    and "purchase_orders st' = purchase_orders st" and "order_lines st' = order_lines st" and "count_lines st' = count_lines st"
    and "\<And>other. other \<noteq> tid \<Longrightarrow> tenant_view other st' = tenant_view other st"
  shows "grows tid st st'"
proof -
  have "stock_inv st \<Longrightarrow> stock_inv st'"
    using assms(1,2,3) by (auto simp: stock_inv_def journal_def on_hand_of_def)
  then show ?thesis using assms by (auto simp: grows_def)
qed

section \<open>The invariant\<close>

definition categories_ok :: "text_lib \<Rightarrow> category_row list \<Rightarrow> bool" where
  "categories_ok T rows \<longleftrightarrow> distinct (map ca_id rows) \<and> distinct (map (\<lambda>r. (ca_tenant r, tlLower T (ca_name r))) rows)
     \<and> (\<forall>r \<in> set rows. not_blank (ca_name r))"

definition supplier_row_ok :: "supplier_row \<Rightarrow> bool" where
  "supplier_row_ok r \<longleftrightarrow> not_blank (su_name r) \<and> 0 \<le> su_lead_time_days r \<and> su_lead_time_days r \<le> 60 \<and> weekdays_valid (su_delivery_weekdays r)"

definition suppliers_ok :: "text_lib \<Rightarrow> supplier_row list \<Rightarrow> bool" where
  "suppliers_ok T rows \<longleftrightarrow> distinct (map su_id rows) \<and> distinct (map (\<lambda>r. (su_tenant r, tlLower T (su_name r))) rows)
     \<and> (\<forall>r \<in> set rows. supplier_row_ok r)"

definition items_ok :: "text_lib \<Rightarrow> 'd db \<Rightarrow> bool" where
  "items_ok T st \<longleftrightarrow> distinct (map it_id (items st)) \<and> distinct (map (\<lambda>r. (it_tenant r, tlLower T (it_name r))) (items st))
     \<and> (\<forall>r \<in> set (items st). item_checks r = Inr () \<and> item_references r st = Inr ())"

definition terms_row_ok :: "'d db \<Rightarrow> supplier_item_row \<Rightarrow> bool" where
  "terms_row_ok st r \<longleftrightarrow> 0 < si_unit_factor r \<and> 0 \<le> si_min_order_qty r \<and> 0 \<le> si_pack_multiple r
     \<and> supplier_exists (si_tenant r) (si_supplier r) st \<and> item_exists (si_tenant r) (si_item r) st"

definition catalog_inv :: "text_lib \<Rightarrow> 'd db \<Rightarrow> bool" where
  "catalog_inv T st \<longleftrightarrow> categories_ok T (categories st) \<and> suppliers_ok T (suppliers st) \<and> items_ok T st
     \<and> distinct (map (\<lambda>r. (si_supplier r, si_item r)) (supplier_items st)) \<and> (\<forall>r \<in> set (supplier_items st). terms_row_ok st r)
     \<and> (\<forall>b \<in> set (balances st). ba_item b \<in> it_id ` set (items st))"

text \<open>The look-ups of the references only see the tables of the catalogue, and more rows break none.\<close>

lemma references_mono:
  assumes "item_references r st = Inr ()" and "set (categories st) \<subseteq> set (categories st')" and "set (suppliers st) \<subseteq> set (suppliers st')"
  shows "item_references r st' = Inr ()"
  using assms by (auto simp: item_references_def opt_exists_def category_exists_def supplier_exists_def list_ex_iff bindE_Inr_iff
      split: option.splits)

lemma terms_row_mono:
  assumes "terms_row_ok st r" and "set (suppliers st) \<subseteq> set (suppliers st')"
    and "\<And>i. i \<in> set (items st) \<Longrightarrow> \<exists>i' \<in> set (items st'). it_id i' = it_id i \<and> it_tenant i' = it_tenant i"
  shows "terms_row_ok st' r"
  using assms(1,2,3) unfolding terms_row_ok_def supplier_exists_def item_exists_def list_ex_iff by (metis subsetD)

text \<open>What the catalogue depends on.\<close>

definition same_catalog :: "'d db \<Rightarrow> 'd db \<Rightarrow> bool" where
  "same_catalog st st' \<longleftrightarrow> categories st' = categories st \<and> suppliers st' = suppliers st \<and> items st' = items st
     \<and> supplier_items st' = supplier_items st \<and> ba_item ` set (balances st') \<subseteq> ba_item ` set (balances st)"

lemma same_catalog_inv:
  assumes "same_catalog st st'" and "catalog_inv T st"
  shows "catalog_inv T st'"
proof -
  have "category_exists tid st' = category_exists tid st" for tid
    using assms(1) by (auto simp: category_exists_def same_catalog_def)
  then have "item_references r st' = item_references r st" and "terms_row_ok st' x = terms_row_ok st x" for r x
    using assms(1) by (simp_all add: item_references_def terms_row_ok_def supplier_exists_def item_exists_def same_catalog_def)
  moreover have "\<forall>b \<in> set (balances st'). ba_item b \<in> it_id ` set (items st')"
  proof
    fix b assume "b \<in> set (balances st')"
    then obtain b' where "b' \<in> set (balances st)" "ba_item b = ba_item b'" using assms(1) by (auto simp: same_catalog_def)
    then show "ba_item b \<in> it_id ` set (items st')" using assms by (auto simp: catalog_inv_def same_catalog_def)
  qed
  ultimately show ?thesis using assms by (simp add: catalog_inv_def items_ok_def same_catalog_def)
qed

section \<open>The writing queries\<close>

lemma CreateCategory_q_Inr:
  assumes "CreateCategory_q T w cid tid name st = Inr (r, st')"
  shows "grows tid st st'" and "catalog_inv T st \<Longrightarrow> catalog_inv T st'"
    and "st' = st\<lparr>categories := categories st @ [r]\<rparr>" and "ca_id r = cid" and "ca_tenant r = tid" and "ca_name r = name"
proof -
  let ?r = "\<lparr>ca_id = cid, ca_tenant = tid, ca_name = name, ca_created_at = pg_Time w\<rparr>"
  have *: "r = ?r" "st' = st\<lparr>categories := categories st @ [?r]\<rparr>" "not_blank name"
    "\<not> list_ex (\<lambda>x. ca_id x = cid) (categories st)"
    "\<not> list_ex (\<lambda>x. ca_tenant x = tid \<and> tlLower T (ca_name x) = tlLower T name) (categories st)"
    using assms by (auto simp: CreateCategory_q_def Let_def)
  show "st' = st\<lparr>categories := categories st @ [r]\<rparr>" "ca_id r = cid" "ca_tenant r = tid" "ca_name r = name"
    using * by simp_all
  show "grows tid st st'"
    using * by (intro grows_tables) (simp_all add: tenant_view_def)
  assume inv: "catalog_inv T st"
  have "categories_ok T (categories st')"
    using inv * by (auto simp: catalog_inv_def categories_ok_def list_ex_iff)
  moreover have "item_references x st = Inr () \<Longrightarrow> item_references x st' = Inr ()" for x
    by (erule references_mono) (auto simp: *(2))
  moreover have "terms_row_ok st x \<Longrightarrow> terms_row_ok st' x" for x
    by (erule terms_row_mono) (auto simp: *(2))
  ultimately show "catalog_inv T st'"
    using inv by (auto simp: catalog_inv_def items_ok_def *(2))
qed

lemma CreateSupplier_q_Inr:
  assumes "CreateSupplier_q T w row st = Inr (r, st')"
  shows "grows (su_tenant row) st st'" and "catalog_inv T st \<Longrightarrow> catalog_inv T st'"
    and "st' = st\<lparr>suppliers := suppliers st @ [r]\<rparr>" and "r = row\<lparr>su_archived_at := None, su_created_at := pg_Time w\<rparr>"
proof -
  let ?r = "row\<lparr>su_archived_at := None, su_created_at := pg_Time w\<rparr>"
  have *: "r = ?r" "st' = st\<lparr>suppliers := suppliers st @ [?r]\<rparr>" "supplier_row_ok ?r"
    "\<not> list_ex (\<lambda>x. su_id x = su_id row) (suppliers st)"
    "\<not> list_ex (\<lambda>x. su_tenant x = su_tenant row \<and> tlLower T (su_name x) = tlLower T (su_name row)) (suppliers st)"
    using assms by (auto simp: CreateSupplier_q_def Let_def supplier_row_ok_def)
  show "st' = st\<lparr>suppliers := suppliers st @ [r]\<rparr>" "r = ?r" using * by simp_all
  show "grows (su_tenant row) st st'"
    using * by (intro grows_tables) (simp_all add: tenant_view_def)
  assume inv: "catalog_inv T st"
  have "suppliers_ok T (suppliers st')"
    using inv * by (auto simp: catalog_inv_def suppliers_ok_def list_ex_iff)
  moreover have "item_references x st = Inr () \<Longrightarrow> item_references x st' = Inr ()" for x
    by (erule references_mono) (auto simp: *(2))
  moreover have "terms_row_ok st x \<Longrightarrow> terms_row_ok st' x" for x
    by (erule terms_row_mono) (auto simp: *(2))
  ultimately show "catalog_inv T st'"
    using inv by (auto simp: catalog_inv_def items_ok_def *(2))
qed

lemma CreateItem_q_Inr:
  assumes "CreateItem_q T w row st = Inr (r, st')"
  shows "grows (it_tenant row) st st'" and "catalog_inv T st \<Longrightarrow> catalog_inv T st'"
    and "st' = st\<lparr>items := items st @ [r]\<rparr>"
    and "r = row\<lparr>it_manual_min_qty := round_places 3 (it_manual_min_qty row), it_archived_at := None, it_created_at := pg_Time w\<rparr>"
    and "it_id row \<notin> it_id ` set (items st)" and "item_checks r = Inr ()"
proof -
  let ?r = "row\<lparr>it_manual_min_qty := round_places 3 (it_manual_min_qty row), it_archived_at := None, it_created_at := pg_Time w\<rparr>"
  have *: "r = ?r" "st' = st\<lparr>items := items st @ [?r]\<rparr>" "item_checks ?r = Inr ()" "item_references ?r st = Inr ()"
    "\<not> list_ex (\<lambda>x. it_id x = it_id row) (items st)" "item_name_free T ?r st"
    using assms by (auto simp: CreateItem_q_def Let_def numeric_14_3_Inr)
  show "st' = st\<lparr>items := items st @ [r]\<rparr>" "r = ?r" "it_id row \<notin> it_id ` set (items st)" "item_checks r = Inr ()"
    using * by (auto simp: list_ex_iff)
  show "grows (it_tenant row) st st'"
    using * by (intro grows_tables) (simp_all add: tenant_view_def)
  assume inv: "catalog_inv T st"
  have refs: "item_references x st = Inr () \<Longrightarrow> item_references x st' = Inr ()" for x
    by (erule references_mono) (auto simp: *(2))
  have "items_ok T st'"
    using inv * refs by (auto simp: catalog_inv_def items_ok_def list_ex_iff item_name_free_def)
  moreover have "terms_row_ok st x \<Longrightarrow> terms_row_ok st' x" for x
    by (erule terms_row_mono) (auto simp: *(2))
  ultimately show "catalog_inv T st'"
    using inv by (auto simp: catalog_inv_def *(2))
qed

lemma distinct_map_update:
  assumes "distinct (map f rows)" and "\<And>x. x \<in> set rows \<Longrightarrow> P x \<Longrightarrow> f (g x) = f x"
  shows "distinct (map f (update_rows P g rows))"
proof -
  have "map f (update_rows P g rows) = map f rows" using assms(2) by (auto simp: update_rows_def)
  then show ?thesis using assms(1) by simp
qed

lemma update_rows_set: "x \<in> set (update_rows P g rows) \<Longrightarrow> x \<in> set rows \<and> \<not> P x \<or> (\<exists>y \<in> set rows. P y \<and> x = g y)"
  by (auto simp: update_rows_def split: if_splits)

lemma GetItem_Some:
  assumes "GetItem tid iid st = Some old"
  shows "old \<in> set (items st)" and "it_tenant old = tid" and "it_id old = iid"
  using find_visible[OF assms[unfolded GetItem_def]] by auto

lemma distinct_map_replace:
  assumes "distinct (map f rows)" and "distinct (map k rows)"
    and "\<And>x. x \<in> set rows \<Longrightarrow> P x \<Longrightarrow> k x = k0" and "\<And>x. x \<in> set rows \<Longrightarrow> \<not> P x \<Longrightarrow> f x \<noteq> f r"
  shows "distinct (map f (update_rows P (\<lambda>_. r) rows))"
  using assms
proof (induction rows)
  case (Cons x xs)
  have ind: "distinct (map f (update_rows P (\<lambda>_. r) xs))" using Cons by simp
  show ?case
  proof (cases "P x")
    case True
    then have none: "\<forall>y \<in> set xs. \<not> P y" using Cons.prems(2,3) by (metis distinct.simps(2) image_eqI list.set_map list.simps(9) list.set_intros)
    then have "update_rows P (\<lambda>_. r) xs = xs" by (auto simp: update_rows_def intro!: map_idI)
    then show ?thesis using True none Cons.prems(1,4) by (fastforce simp: update_rows_def)
  next
    case False
    have "f x \<notin> f ` set (update_rows P (\<lambda>_. r) xs)"
    proof
      assume "f x \<in> f ` set (update_rows P (\<lambda>_. r) xs)"
      then obtain y where y: "y \<in> set (update_rows P (\<lambda>_. r) xs)" "f x = f y" by auto
      from update_rows_set[OF y(1)] show False using y(2) False Cons.prems(1,4) by auto
    qed
    moreover have "update_rows P (\<lambda>_. r) (x # xs) = x # update_rows P (\<lambda>_. r) xs" using False by (simp add: update_rows_def)
    ultimately show ?thesis using ind by simp
  qed
qed (simp add: update_rows_def)

text \<open>Changing the fields of one item, its id and tenant kept.\<close>

lemma replace_item_inv:
  assumes inv: "catalog_inv T st" and old: "GetItem tid iid st = Some old"
    and r: "it_id r = iid" "it_tenant r = tid" "item_checks r = Inr ()" "item_references r st = Inr ()" "item_name_free T r st"
    and st': "st' = st\<lparr>items := update_rows (\<lambda>x. it_tenant x = tid \<and> it_id x = iid) (\<lambda>_. r) (items st)\<rparr>"
  shows "catalog_inv T st'"
proof -
  let ?P = "\<lambda>x. it_tenant x = tid \<and> it_id x = iid"
  let ?key = "\<lambda>r. (it_tenant r, tlLower T (it_name r))"
  note o = GetItem_Some[OF old]
  have d: "distinct (map it_id (items st))" and n: "distinct (map ?key (items st))"
    using inv by (simp_all add: catalog_inv_def items_ok_def)
  have keys: "?key x \<noteq> ?key r" if "x \<in> set (items st)" "\<not> ?P x" for x
  proof
    assume e: "?key x = ?key r"
    then have "it_id x \<noteq> it_id r" using that(2) r by simp
    with r(5) that(1) e show False by (auto simp: item_name_free_def list_ex_iff)
  qed
  have names: "distinct (map ?key (update_rows ?P (\<lambda>_. r) (items st)))"
    by (rule distinct_map_replace[OF n d]) (use keys in auto)
  have items: "items st' = update_rows ?P (\<lambda>_. r) (items st)" by (simp add: st')
  have refs: "item_references x st = Inr () \<Longrightarrow> item_references x st' = Inr ()" for x
    by (erule references_mono) (auto simp: st')
  have rows: "item_checks x = Inr () \<and> item_references x st' = Inr ()" if "x \<in> set (items st')" for x
    using update_rows_set[OF that[unfolded items]] inv r refs by (auto simp: catalog_inv_def items_ok_def)
  have "distinct (map it_id (items st'))"
    unfolding items by (rule distinct_map_update[OF d]) (simp add: r(1))
  then have "items_ok T st'" using names rows by (simp add: items_ok_def items)
  moreover have same: "\<exists>i' \<in> set (items st'). it_id i' = it_id i \<and> it_tenant i' = it_tenant i" if "i \<in> set (items st)" for i
    using that r(1,2) by (cases "?P i") (force simp: items update_rows_def)+
  moreover have "terms_row_ok st x \<Longrightarrow> terms_row_ok st' x" for x
    by (erule terms_row_mono) (use same in \<open>auto simp: st'\<close>)
  moreover have "\<forall>b \<in> set (balances st'). ba_item b \<in> it_id ` set (items st')"
  proof
    fix b assume "b \<in> set (balances st')"
    then obtain i where "i \<in> set (items st)" "ba_item b = it_id i" using inv by (auto simp: catalog_inv_def st')
    then show "ba_item b \<in> it_id ` set (items st')" using same[of i] by (metis image_eqI)
  qed
  ultimately show ?thesis using inv by (auto simp: catalog_inv_def st')
qed

lemma replace_item_grows:
  assumes "it_tenant r = tid" and "st' = st\<lparr>items := update_rows (\<lambda>x. it_tenant x = tid \<and> it_id x = iid) f (items st)\<rparr>"
    and "\<And>x. it_tenant x = tid \<Longrightarrow> it_tenant (f x) = tid"
  shows "grows tid st st'"
proof (rule grows_tables)
  fix other assume "other \<noteq> tid"
  then have "visible other it_tenant (update_rows (\<lambda>x. it_tenant x = tid \<and> it_id x = iid) f rows) = visible other it_tenant rows" for rows
    using assms(3) by (induction rows) (auto simp: visible_def update_rows_def)
  then show "tenant_view other st' = tenant_view other st" by (simp add: tenant_view_def assms(2))
qed (simp_all add: assms(2))

lemma UpdateItem_q_Inr:
  assumes "UpdateItem_q T tid iid p st = Inr (r, st')"
  obtains old where "GetItem tid iid st = Some old" and "it_id r = iid" and "it_tenant r = tid"
    and "st' = st\<lparr>items := update_rows (\<lambda>x. it_tenant x = tid \<and> it_id x = iid) (\<lambda>_. r) (items st)\<rparr>"
    and "item_checks r = Inr ()" and "item_references r st = Inr ()" and "item_name_free T r st"
    and "r = old\<lparr>it_name := coalesce (ipName p) (it_name old),
           it_category := (if ipCategory p = None then it_category old else ipCategory p),
           it_default_supplier := (if ipSupplier p = None then it_default_supplier old else ipSupplier p),
           it_service_level := coalesce (ipServiceLevel p) (it_service_level old),
           it_manual_min_qty := coalesce (map_option (round_places 3) (ipManualMin p)) (it_manual_min_qty old)\<rparr>"
proof -
  from assms obtain old m where o: "GetItem tid iid st = Some old" and m: "numeric_null numeric_14_3 (ipManualMin p) = Inr m"
    and x: "bindE (item_checks (old\<lparr>it_name := coalesce (ipName p) (it_name old),
           it_category := (if ipCategory p = None then it_category old else ipCategory p),
           it_default_supplier := (if ipSupplier p = None then it_default_supplier old else ipSupplier p),
           it_service_level := coalesce (ipServiceLevel p) (it_service_level old),
           it_manual_min_qty := coalesce m (it_manual_min_qty old)\<rparr>)) (\<lambda>_.
       bindE (guardE (item_name_free T (old\<lparr>it_name := coalesce (ipName p) (it_name old),
           it_category := (if ipCategory p = None then it_category old else ipCategory p),
           it_default_supplier := (if ipSupplier p = None then it_default_supplier old else ipSupplier p),
           it_service_level := coalesce (ipServiceLevel p) (it_service_level old),
           it_manual_min_qty := coalesce m (it_manual_min_qty old)\<rparr>) st) (UniqueViolation ''items_tenant_name_idx'')) (\<lambda>_.
       bindE (item_references (old\<lparr>it_name := coalesce (ipName p) (it_name old),
           it_category := (if ipCategory p = None then it_category old else ipCategory p),
           it_default_supplier := (if ipSupplier p = None then it_default_supplier old else ipSupplier p),
           it_service_level := coalesce (ipServiceLevel p) (it_service_level old),
           it_manual_min_qty := coalesce m (it_manual_min_qty old)\<rparr>) st) (\<lambda>_.
       Inr (old\<lparr>it_name := coalesce (ipName p) (it_name old),
           it_category := (if ipCategory p = None then it_category old else ipCategory p),
           it_default_supplier := (if ipSupplier p = None then it_default_supplier old else ipSupplier p),
           it_service_level := coalesce (ipServiceLevel p) (it_service_level old),
           it_manual_min_qty := coalesce m (it_manual_min_qty old)\<rparr>, st\<lparr>items := update_rows (\<lambda>x. it_tenant x = tid \<and> it_id x = iid) (\<lambda>_. old\<lparr>it_name := coalesce (ipName p) (it_name old),
           it_category := (if ipCategory p = None then it_category old else ipCategory p),
           it_default_supplier := (if ipSupplier p = None then it_default_supplier old else ipSupplier p),
           it_service_level := coalesce (ipServiceLevel p) (it_service_level old),
           it_manual_min_qty := coalesce m (it_manual_min_qty old)\<rparr>) (items st)\<rparr>)))) = Inr (r, st')"
    by (auto simp: UpdateItem_q_def Let_def split: option.splits)
  have "m = map_option (round_places 3) (ipManualMin p)"
    using m by (auto simp: numeric_null_def numeric_14_3_Inr split: option.splits)
  with o x show thesis using GetItem_Some[OF o] by (intro that[of old]) auto
qed

lemma ArchiveItem_q_Inr:
  assumes "ArchiveItem_q tid iid t st = Inr (u, st')"
  shows "grows tid st st'" and "catalog_inv T st \<Longrightarrow> catalog_inv T st'"
proof -
  let ?f = "\<lambda>x. x\<lparr>it_archived_at := Some (pg_Time t)\<rparr>" and ?P = "\<lambda>x. it_tenant x = tid \<and> it_id x = iid"
  have st': "st' = st\<lparr>items := update_rows ?P ?f (items st)\<rparr>"
    using assms by (simp add: ArchiveItem_q_def)
  show "grows tid st st'"
    by (rule grows_tables) (simp_all add: st' tenant_view_def)
  assume inv: "catalog_inv T st"
  have keep: "map (\<lambda>x. (it_id x, it_tenant x, it_name x)) (items st') = map (\<lambda>x. (it_id x, it_tenant x, it_name x)) (items st)"
    by (auto simp: st' update_rows_def)
  then have ids: "map it_id (items st') = map it_id (items st)"
    and names: "map (\<lambda>x. (it_tenant x, tlLower T (it_name x))) (items st') = map (\<lambda>x. (it_tenant x, tlLower T (it_name x))) (items st)"
    by (auto simp: st' update_rows_def)
  have same: "\<exists>i' \<in> set (items st'). it_id i' = it_id i \<and> it_tenant i' = it_tenant i" if "i \<in> set (items st)" for i
    using that by (intro bexI[of _ "if ?P i then ?f i else i"]) (auto simp: st' update_rows_def)
  have refs: "item_references x st = Inr () \<Longrightarrow> item_references x st' = Inr ()" for x
    by (erule references_mono) (auto simp: st')
  have "item_checks x = Inr () \<and> item_references x st' = Inr ()" if x: "x \<in> set (items st')" for x
  proof -
    from x obtain y where y: "y \<in> set (items st)" "x = y \<or> x = ?f y" by (auto simp: st' update_rows_def)
    then have "item_checks x = item_checks y" "item_references x st' = item_references y st'"
      by (auto simp: item_checks_def item_references_def)
    then show ?thesis using y(1) inv refs by (auto simp: catalog_inv_def items_ok_def)
  qed
  then have "items_ok T st'" using inv by (simp only: catalog_inv_def items_ok_def ids names) blast
  moreover have "terms_row_ok st x \<Longrightarrow> terms_row_ok st' x" for x
    by (erule terms_row_mono) (use same in \<open>auto simp: st'\<close>)
  moreover have "set (map it_id (items st')) = set (map it_id (items st))" by (simp only: ids)
  ultimately show "catalog_inv T st'" using inv by (auto simp: catalog_inv_def st')
qed

lemma UpsertSupplierItem_Inr:
  assumes "UpsertSupplierItem row st = Inr (r, st')"
  shows "grows (si_tenant row) st st'" and "catalog_inv T st \<Longrightarrow> catalog_inv T st'"
    and "r = row\<lparr>si_unit_factor := round_places 3 (si_unit_factor row), si_min_order_qty := round_places 3 (si_min_order_qty row),
       si_pack_multiple := round_places 3 (si_pack_multiple row), si_price := map_option (round_places 2) (si_price row)\<rparr>"
    and "items st' = items st" and "balances st' = balances st" and "movements st' = movements st"
proof -
  have "\<exists>f m p c rows. numeric_14_3 (si_unit_factor row) = Inr f \<and> numeric_14_3 (si_min_order_qty row) = Inr m
    \<and> numeric_14_3 (si_pack_multiple row) = Inr p \<and> numeric_null numeric_14_2 (si_price row) = Inr c
    \<and> r = row\<lparr>si_unit_factor := f, si_min_order_qty := m, si_pack_multiple := p, si_price := c\<rparr>
    \<and> 0 < f \<and> 0 \<le> m \<and> 0 \<le> p
    \<and> upsert_tx (si_tenant r) si_tenant (\<lambda>x. si_supplier x = si_supplier r \<and> si_item x = si_item r)
       (\<lambda>x. x\<lparr>si_purchase_unit := si_purchase_unit r, si_unit_factor := f, si_min_order_qty := m,
          si_pack_multiple := p, si_price := c\<rparr>) r (supplier_items st) = Inr rows
    \<and> supplier_exists (si_tenant r) (si_supplier r) st \<and> item_exists (si_tenant r) (si_item r) st
    \<and> st' = st\<lparr>supplier_items := rows\<rparr>"
    using assms by (auto simp: UpsertSupplierItem_def Let_def bindE_Inr_iff)
  then obtain f m p c rows where n: "numeric_14_3 (si_unit_factor row) = Inr f" "numeric_14_3 (si_min_order_qty row) = Inr m"
      "numeric_14_3 (si_pack_multiple row) = Inr p" "numeric_null numeric_14_2 (si_price row) = Inr c"
    and r: "r = row\<lparr>si_unit_factor := f, si_min_order_qty := m, si_pack_multiple := p, si_price := c\<rparr>"
    and pos: "0 < f" "0 \<le> m" "0 \<le> p"
    and up: "upsert_tx (si_tenant r) si_tenant (\<lambda>x. si_supplier x = si_supplier r \<and> si_item x = si_item r)
       (\<lambda>x. x\<lparr>si_purchase_unit := si_purchase_unit r, si_unit_factor := f, si_min_order_qty := m,
          si_pack_multiple := p, si_price := c\<rparr>) r (supplier_items st) = Inr rows"
    and refs: "supplier_exists (si_tenant r) (si_supplier r) st" "item_exists (si_tenant r) (si_item r) st"
    and st': "st' = st\<lparr>supplier_items := rows\<rparr>" by blast
  have "f = round_places 3 (si_unit_factor row)" "m = round_places 3 (si_min_order_qty row)" "p = round_places 3 (si_pack_multiple row)"
    "c = map_option (round_places 2) (si_price row)"
    using n by (auto simp: numeric_14_3_Inr numeric_null_def numeric_14_2_def Let_def split: option.splits if_splits)
  then show "r = row\<lparr>si_unit_factor := round_places 3 (si_unit_factor row), si_min_order_qty := round_places 3 (si_min_order_qty row),
       si_pack_multiple := round_places 3 (si_pack_multiple row), si_price := map_option (round_places 2) (si_price row)\<rparr>"
    by (simp add: r)
  show "items st' = items st" "balances st' = balances st" "movements st' = movements st" by (simp_all add: st')
  have tr: "si_tenant r = si_tenant row" by (simp add: r)
  show "grows (si_tenant row) st st'"
  proof (rule grows_tables)
    fix other assume "other \<noteq> si_tenant row"
    then show "tenant_view other st' = tenant_view other st"
      using upsert_visible_other[OF up refl] by (simp add: st' tenant_view_def tr)
  qed (simp_all add: st')
  assume inv: "catalog_inv T st"
  have terms: "terms_row_ok st' x" if "x \<in> set rows" for x
  proof -
    have *: "terms_row_ok st' y" if "terms_row_ok st y" for y using that
      by (simp add: terms_row_ok_def supplier_exists_def item_exists_def st')
    have "terms_row_ok st r" using pos refs by (simp add: terms_row_ok_def r)
    moreover have "terms_row_ok st (y\<lparr>si_purchase_unit := si_purchase_unit r, si_unit_factor := f, si_min_order_qty := m,
          si_pack_multiple := p, si_price := c\<rparr>)" if "y \<in> set (supplier_items st)" for y
      using that inv pos by (auto simp: catalog_inv_def terms_row_ok_def)
    ultimately have "terms_row_ok st x"
      using that up inv by (auto simp: upsert_tx_def upsert_row_def update_rows_def catalog_inv_def split: if_splits)
    then show ?thesis by (rule *)
  qed
  have "distinct (map (\<lambda>r. (si_supplier r, si_item r)) rows)"
  proof -
    have "distinct (map (\<lambda>r. (si_supplier r, si_item r)) (update_rows P g (supplier_items st)))"
      if "\<And>x. si_supplier (g x) = si_supplier x \<and> si_item (g x) = si_item x" for P g
      by (rule distinct_map_update) (use inv that in \<open>auto simp: catalog_inv_def\<close>)
    then show ?thesis
      using up inv by (auto simp: upsert_tx_def upsert_row_def list_ex_iff catalog_inv_def split: if_splits) blast
  qed
  moreover have "item_references x st' = item_references x st" for x
    by (auto simp: item_references_def st' category_exists_def supplier_exists_def opt_exists_def split: option.splits)
  ultimately show "catalog_inv T st'" using inv terms by (simp add: catalog_inv_def items_ok_def st')
qed

section \<open>Transactions as chains of steps\<close>

text \<open>A relation between states that holds along every successful run of a transaction.\<close>

definition tx_steps :: "('s \<Rightarrow> 's \<Rightarrow> bool) \<Rightarrow> ('s, 'e, 'a) tx \<Rightarrow> bool" where
  "tx_steps R m \<longleftrightarrow> (\<forall>s x s'. m s = Inr (x, s') \<longrightarrow> R s s')"

locale step_relation =
  fixes R :: "'s \<Rightarrow> 's \<Rightarrow> bool"
  assumes step_refl: "R s s" and step_trans: "R a b \<Longrightarrow> R b c \<Longrightarrow> R a c"
begin

lemma steps_return: "tx_steps R (tx_return x)"
  and steps_get: "tx_steps R (tx_get f)"
  and steps_of_sum: "tx_steps R (tx_of_sum r)"
  and steps_guard: "tx_steps R (tx_guard b e)"
  by (auto simp: tx_steps_def tx_of_sum_def step_refl split: sum.splits)

lemma steps_bind: "tx_steps R m \<Longrightarrow> (\<And>x. tx_steps R (f x)) \<Longrightarrow> tx_steps R (tx_bind m f)"
  unfolding tx_steps_def by (blast intro: step_trans)

lemma steps_lift: "tx_steps R m \<Longrightarrow> tx_steps R (tx_lift w m)"
  by (simp add: tx_steps_def)

lemma steps_if: "(b \<Longrightarrow> tx_steps R m) \<Longrightarrow> (\<not> b \<Longrightarrow> tx_steps R n) \<Longrightarrow> tx_steps R (if b then m else n)"
  by simp

lemma steps_for: "(\<And>x. x \<in> set xs \<Longrightarrow> tx_steps R (f x)) \<Longrightarrow> tx_steps R (tx_for xs f)"
  by (induction xs) (simp_all add: steps_return steps_bind)

lemma steps_tenant_tx: "tx_steps R m \<Longrightarrow> InTenantTx m s = (r, s') \<Longrightarrow> R s s'"
  by (cases rule: InTenantTx_cases[of m s]) (auto simp: tx_steps_def step_refl)

lemmas steps = steps_return steps_get steps_of_sum steps_guard steps_bind steps_lift

end

text \<open>The steps of the catalogue keep both invariants and let the stock of one tenant grow.\<close>

definition catalog_step :: "text_lib \<Rightarrow> uuid \<Rightarrow> 'd db \<Rightarrow> 'd db \<Rightarrow> bool" where
  "catalog_step T tid st st' \<longleftrightarrow> (stock_inv st \<and> catalog_inv T st \<longrightarrow> stock_inv st' \<and> catalog_inv T st' \<and> grows tid st st')"

interpretation cat: step_relation "catalog_step T tid" for T tid
  by unfold_locales (auto simp: catalog_step_def intro: grows_trans)

lemma catalog_stepI: "grows tid st st' \<Longrightarrow> (catalog_inv T st \<Longrightarrow> catalog_inv T st') \<Longrightarrow> catalog_step T tid st st'"
  by (auto simp: catalog_step_def grows_def)

lemma new_uuid_steps: "tx_steps (catalog_step T tid) new_uuid"
proof -
  have "catalog_step T tid st (st\<lparr>uuid_supply := Suc (uuid_supply st)\<rparr>)" for st :: "'d db"
  proof (rule catalog_stepI)
    show "grows tid st (st\<lparr>uuid_supply := Suc (uuid_supply st)\<rparr>)"
      by (rule grows_tables) (simp_all add: tenant_view_def)
    show "catalog_inv T st \<Longrightarrow> catalog_inv T (st\<lparr>uuid_supply := Suc (uuid_supply st)\<rparr>)"
      by (rule same_catalog_inv[of st]) (simp_all add: same_catalog_def)
  qed
  then show ?thesis by (auto simp: tx_steps_def new_uuid_def)
qed

lemma catalog_query_steps:
  "tx_steps (catalog_step T tid) (CreateCategory_q T w cid tid name)"
  "su_tenant sr = tid \<Longrightarrow> tx_steps (catalog_step T tid) (CreateSupplier_q T w sr)"
  "it_tenant ir = tid \<Longrightarrow> tx_steps (catalog_step T tid) (CreateItem_q T w ir)"
  "tx_steps (catalog_step T tid) (ArchiveItem_q tid iid now)"
  "si_tenant tr = tid \<Longrightarrow> tx_steps (catalog_step T tid) (UpsertSupplierItem tr)"
proof -
  show "tx_steps (catalog_step T tid) (CreateCategory_q T w cid tid name)"
    unfolding tx_steps_def by (intro allI impI catalog_stepI; erule CreateCategory_q_Inr(1,2); assumption?)
  show "tx_steps (catalog_step T tid) (ArchiveItem_q tid iid now)"
    unfolding tx_steps_def by (intro allI impI catalog_stepI; erule ArchiveItem_q_Inr(1,2); assumption?)
  show "tx_steps (catalog_step T tid) (CreateSupplier_q T w sr)" if "su_tenant sr = tid"
    unfolding tx_steps_def that[symmetric] by (intro allI impI catalog_stepI; erule CreateSupplier_q_Inr(1,2); assumption?)
  show "tx_steps (catalog_step T tid) (CreateItem_q T w ir)" if "it_tenant ir = tid"
    unfolding tx_steps_def that[symmetric] by (intro allI impI catalog_stepI; erule CreateItem_q_Inr(1,2); assumption?)
  show "tx_steps (catalog_step T tid) (UpsertSupplierItem tr)" if "si_tenant tr = tid"
    unfolding tx_steps_def that[symmetric] by (intro allI impI catalog_stepI; erule UpsertSupplierItem_Inr(1,2); assumption?)
qed

lemma UpdateItem_q_steps: "tx_steps (catalog_step T tid) (UpdateItem_q T tid iid p)"
  unfolding tx_steps_def
proof (intro allI impI)
  fix st x st' assume "UpdateItem_q T tid iid p st = Inr (x, st')"
  then show "catalog_step T tid st st'"
  proof (rule UpdateItem_q_Inr)
    fix old
    assume a: "GetItem tid iid st = Some old" "it_id x = iid" "it_tenant x = tid" "item_checks x = Inr ()"
      "item_references x st = Inr ()" "item_name_free T x st"
      "st' = st\<lparr>items := update_rows (\<lambda>x. it_tenant x = tid \<and> it_id x = iid) (\<lambda>_. x) (items st)\<rparr>"
    have "grows tid st st'" by (rule replace_item_grows[OF a(3,7)]) (simp add: a(3))
    then show "catalog_step T tid st st'" by (rule catalog_stepI) (rule replace_item_inv[OF _ a(1-6) a(7)])
  qed
qed

lemma EnsureBalance_steps: "tx_steps (catalog_step T tid) (EnsureBalance tid wid iid w)"
  unfolding tx_steps_def
proof (intro allI impI)
  fix st :: "'d db" and x st' assume e: "EnsureBalance tid wid iid w st = Inr (x, st')"
  show "catalog_step T tid st st'"
    unfolding catalog_step_def
  proof
    assume inv: "stock_inv st \<and> catalog_inv T st"
    obtain bs where b: "st' = st\<lparr>balances := balances st @ bs\<rparr>" "\<forall>b \<in> set bs. ba_tenant b = tid \<and> ba_on_hand b = 0"
      using EnsureBalance_Inr(3)[OF e] inv by blast
    have view: "tenant_view other st' = tenant_view other st" if "other \<noteq> tid" for other
      using b that by (auto simp: tenant_view_def visible_def filter_empty_conv)
    have "ba_item b \<in> it_id ` set (items st)" if "b \<in> set (balances st')" for b
      using e that inv by (auto simp: EnsureBalance_def catalog_inv_def item_exists_def list_ex_iff split: if_splits)
    moreover have "item_references x st' = item_references x st" "terms_row_ok st' y = terms_row_ok st y" for x y
      by (auto simp: b(1) item_references_def opt_exists_def category_exists_def supplier_exists_def
          terms_row_ok_def item_exists_def split: option.splits)
    ultimately have "catalog_inv T st'"
      using inv by (simp add: catalog_inv_def items_ok_def b(1))
    then show "stock_inv st' \<and> catalog_inv T st' \<and> grows tid st st'"
      using EnsureBalance_Inr(1)[OF e] inv view by (auto simp: grows_def b(1))
  qed
qed

text \<open>An opening balance is a movement applied to the balance of the new item.\<close>

lemma import_opening_Inr:
  assumes "import_opening D cl w t wid by_id iid q st = Inr (u, st')" and inv: "stock_inv st" and wf: "wfq D q"
  shows "stock_inv st'" and "\<exists>ms. movements st' = movements st @ ms \<and> length ms = (if qIsPositive D q then 1 else 0)
      \<and> (\<forall>m \<in> set ms. mv_tenant m = tenantID t \<and> mv_type m = TypeOpening \<and> mv_warehouse m = wid \<and> mv_item m = iid \<and> mv_qty m = qval D q)"
    and "on_hand_of st' a i = on_hand_of st a i + (if a = wid \<and> i = iid \<and> qIsPositive D q then qval D q else 0)"
    and "\<exists>ms bs k. st' = st\<lparr>movements := ms, balances := bs, uuid_supply := uuid_supply st + k\<rparr> \<and> map ba_item bs = map ba_item (balances st)"
    and "\<forall>other. other \<noteq> tenantID t \<longrightarrow> tenant_view other st' = tenant_view other st"
proof -
  let ?tid = "tenantID t" and ?m = "opening_movement D (tenant_Now t cl w) (tenantID t) wid iid (uuid_supply st) by_id q"
  let ?goal = "stock_inv st' \<and> (\<exists>ms. movements st' = movements st @ ms \<and> length ms = (if qIsPositive D q then 1 else 0)
      \<and> (\<forall>m \<in> set ms. mv_tenant m = tenantID t \<and> mv_type m = TypeOpening \<and> mv_warehouse m = wid \<and> mv_item m = iid \<and> mv_qty m = qval D q))
    \<and> (\<forall>a i. on_hand_of st' a i = on_hand_of st a i + (if a = wid \<and> i = iid \<and> qIsPositive D q then qval D q else 0))
    \<and> (\<exists>ms bs k. st' = st\<lparr>movements := ms, balances := bs, uuid_supply := uuid_supply st + k\<rparr> \<and> map ba_item bs = map ba_item (balances st))
    \<and> (\<forall>other. other \<noteq> tenantID t \<longrightarrow> tenant_view other st' = tenant_view other st)"
  have ?goal
  proof (cases "qIsPositive D q")
    case False
    then have "st' = st" using assms(1) by (simp add: import_opening_def)
    moreover have "st = st\<lparr>movements := movements st, balances := balances st, uuid_supply := uuid_supply st + 0\<rparr>" by simp
    then have "\<exists>ms bs k. st = st\<lparr>movements := ms, balances := bs, uuid_supply := uuid_supply st + k\<rparr> \<and> map ba_item bs = map ba_item (balances st)"
      by blast
    moreover have "\<exists>ms. movements st = movements st @ ms \<and> length ms = 0 \<and> (\<forall>m \<in> set ms. P m)" for P
      by (intro exI[of _ "[]"]) simp
    ultimately show ?thesis using inv False by simp
  next
    case True
    let ?st0 = "st\<lparr>uuid_supply := Suc (uuid_supply st)\<rparr>"
    obtain r st1 v where i: "InsertMovement w ?m ?st0 = Inr (r, st1)"
      and a: "ApplyMovementToBalance ?tid wid iid (DecimalOf D q) (clock_Now cl w) st1 = Inr (v, st')"
      using assms(1) True by (auto simp: import_opening_def Let_def new_uuid_def catdb_def)
    have mq: "mv_qty ?m = DecimalOf D q" "scale3 (mv_qty ?m)" "mv_warehouse ?m = wid" "mv_item ?m = iid" "mv_id ?m < uuid_supply ?st0"
      using wf by (simp_all add: opening_movement_def DecimalOf_qval wfq_def)
    have inv0: "stock_inv ?st0"
      using inv by (auto simp: stock_inv_def on_hand_of_def journal_def)
    have rev: "reverses_ok (movements ?st0) ?m" by (simp add: reverses_ok_def opening_movement_def)
    note A = insert_apply[OF inv0 i a[folded mq(1)] mq(3,4,2,5) rev]
    note r = InsertMovement_Inr(1)[OF i mq(2)]
    have oh: "on_hand_of ?st0 = on_hand_of st" by (intro ext) (simp add: on_hand_of_def)
    have bal: "map ba_item (balances st') = map ba_item (balances st)"
      and vis: "other \<noteq> ?tid \<Longrightarrow> visible other ba_tenant (balances st') = visible other ba_tenant (balances st)" for other
      using a InsertMovement_Inr(2)[OF i mq(2)]
      by (auto simp: ApplyMovementToBalance_def bindE_Inr_iff split: option.splits if_splits) (simp add: update_rows_def)
    have s: "st' = st\<lparr>movements := movements st', balances := balances st', uuid_supply := Suc (uuid_supply st)\<rparr>"
      by (rule trans[OF A(7)]) (cases st; simp)
    have view: "tenant_view other st' = tenant_view other st" if "other \<noteq> ?tid" for other
      using vis[OF that] that by (subst s) (simp add: tenant_view_def A(6) r opening_movement_def)
    have "mv_qty r = qval D q" by (simp add: r opening_movement_def DecimalOf_qval)
    then have "\<exists>ms. movements st' = movements st @ ms \<and> length ms = (if qIsPositive D q then 1 else 0)
      \<and> (\<forall>m \<in> set ms. mv_tenant m = tenantID t \<and> mv_type m = TypeOpening \<and> mv_warehouse m = wid \<and> mv_item m = iid \<and> mv_qty m = qval D q)"
      using A(6) True by (intro exI[of _ "[r]"]) (simp add: r opening_movement_def DecimalOf_qval)
    moreover have "on_hand_of st' a i = on_hand_of st a i + (if a = wid \<and> i = iid \<and> qIsPositive D q then qval D q else 0)" for a i
      using A(2,5) True by (simp add: oh mq(1) DecimalOf_qval)
    moreover have "\<exists>ms bs k. st' = st\<lparr>movements := ms, balances := bs, uuid_supply := uuid_supply st + k\<rparr> \<and> map ba_item bs = map ba_item (balances st)"
      using s bal by (intro exI[of _ "movements st'"] exI[of _ "balances st'"] exI[of _ 1]) simp
    ultimately show ?thesis using A(1) view by blast
  qed
  then show "stock_inv st'" and "\<exists>ms. movements st' = movements st @ ms \<and> length ms = (if qIsPositive D q then 1 else 0)
      \<and> (\<forall>m \<in> set ms. mv_tenant m = tenantID t \<and> mv_type m = TypeOpening \<and> mv_warehouse m = wid \<and> mv_item m = iid \<and> mv_qty m = qval D q)"
    and "on_hand_of st' a i = on_hand_of st a i + (if a = wid \<and> i = iid \<and> qIsPositive D q then qval D q else 0)"
    and "\<exists>ms bs k. st' = st\<lparr>movements := ms, balances := bs, uuid_supply := uuid_supply st + k\<rparr> \<and> map ba_item bs = map ba_item (balances st)"
    and "\<forall>other. other \<noteq> tenantID t \<longrightarrow> tenant_view other st' = tenant_view other st"
    by blast+
qed

lemma import_opening_steps:
  assumes "wfq D q"
  shows "tx_steps (catalog_step T (tenantID t)) (import_opening D cl w t wid by_id iid q)"
  unfolding tx_steps_def
proof (intro allI impI)
  fix st x st' assume o: "import_opening D cl w t wid by_id iid q st = Inr (x, st')"
  show "catalog_step T (tenantID t) st st'"
    unfolding catalog_step_def
  proof
    assume inv: "stock_inv st \<and> catalog_inv T st"
    note O = import_opening_Inr[OF o _ assms]
    obtain ms bs k where s: "st' = st\<lparr>movements := ms, balances := bs, uuid_supply := uuid_supply st + k\<rparr>"
      and b: "map ba_item bs = map ba_item (balances st)"
      using O(4) inv by blast
    have "catalog_inv T st'"
    proof (rule same_catalog_inv)
      have "set (map ba_item bs) = set (map ba_item (balances st))" by (simp only: b)
      then show "same_catalog st st'" by (simp add: same_catalog_def s)
    qed (use inv in blast)
    moreover have "grows (tenantID t) st st'"
      using O(1,2,5) inv by (auto simp: grows_def s)
    ultimately show "stock_inv st' \<and> catalog_inv T st' \<and> grows (tenantID t) st st'" using O(1) inv by blast
  qed
qed

section \<open>The operations keep the invariants\<close>

lemma tx_steps_split: "(\<And>a b. tx_steps R (f a b)) \<Longrightarrow> tx_steps R (case p of (a, b) \<Rightarrow> f a b)"
  by (cases p) simp

lemma add_categories_steps: "tx_steps (catalog_step T tid) (add_categories T w tid rows ns)"
proof (induction T w tid rows ns rule: add_categories.induct)
  case (2 T w tid row rows m k)
  then show ?case unfolding add_categories.simps Let_def
    by (auto intro!: cat.steps_bind new_uuid_steps cat.steps_lift catalog_query_steps simp: catdb_def)
qed (simp only: add_categories.simps cat.steps_return)

lemma add_suppliers_steps: "tx_steps (catalog_step T tid) (add_suppliers T w tid rows ns)"
proof (induction T w tid rows ns rule: add_suppliers.induct)
  case (2 T w tid row rows m k)
  then show ?case unfolding add_suppliers.simps Let_def
    by (auto intro!: cat.steps_bind new_uuid_steps cat.steps_lift catalog_query_steps simp: catdb_def imported_supplier_def)
qed (simp only: add_suppliers.simps cat.steps_return)

lemma importItem_steps: "tx_steps (catalog_step T tid) (importItem D T w tid cats sups row)"
  unfolding importItem_def catdb_def
  by (intro cat.steps_bind new_uuid_steps cat.steps_lift catalog_query_steps)
    (auto simp: imported_item_def imported_terms_def cat.steps_return split: option.splits
      intro!: cat.steps_bind cat.steps_lift catalog_query_steps)

lemma importTx_steps:
  assumes "\<forall>row \<in> set rows. wfq D (irOpening row)"
  shows "tx_steps (catalog_step T (tenantID t)) (importTx D T cl w t by_id rows)"
  unfolding importTx_def Let_def resolveCategories_def resolveSuppliers_def
  by (intro cat.steps cat.steps_for tx_steps_split add_categories_steps add_suppliers_steps)
    (use assms in \<open>auto simp: import_row_def Let_def catdb_def
      intro!: cat.steps_bind cat.steps_lift importItem_steps EnsureBalance_steps import_opening_steps\<close>)

text \<open>One call of an operation of the catalogue that may write, whatever it returns.\<close>

inductive catalog_op :: "'d decimal_lib \<Rightarrow> text_lib \<Rightarrow> clock \<Rightarrow> tenant \<Rightarrow> 'd db \<Rightarrow> 'd db \<Rightarrow> bool"
  for D :: "'d decimal_lib" and T :: text_lib and cl :: clock and t :: tenant where
  op_create_item: "CreateItem D T w t inp st = (r, st') \<Longrightarrow> catalog_op D T cl t st st'"
| op_update_item: "UpdateItem D T t iid upd st = (r, st') \<Longrightarrow> catalog_op D T cl t st st'"
| op_archive_item: "catalog_ArchiveItem cl w t iid st = (a, st') \<Longrightarrow> catalog_op D T cl t st st'"
| op_create_category: "CreateCategory T w t name st = (c, st') \<Longrightarrow> catalog_op D T cl t st st'"
| op_create_supplier: "CreateSupplier T w t spi st = (s, st') \<Longrightarrow> catalog_op D T cl t st st'"
| op_set_terms: "SetTerms D t tm st = (e, st') \<Longrightarrow> catalog_op D T cl t st st'"
| op_import: "Import D T cl w t parsed by_id dryRun st = (i, st') \<Longrightarrow> \<forall>row \<in> set (prRows parsed). wfq D (irOpening row)
    \<Longrightarrow> catalog_op D T cl t st st'"

lemma catalog_op_step:
  assumes "catalog_op D T cl t st st'"
  shows "catalog_step T (tenantID t) st st'"
  using assms
proof cases
  case (op_create_item w inp r)
  have *: "tx_steps (catalog_step T (tenantID t)) (createItemTx D T w t i)" for i
    unfolding createItemTx_def Let_def catdb_def
    by (intro cat.steps new_uuid_steps catalog_query_steps EnsureBalance_steps) (simp add: new_item_row_def)
  show ?thesis using op_create_item cat.steps_tenant_tx[OF *] by (auto simp: CreateItem_def Let_def cat.step_refl split: if_splits)
next
  case (op_update_item iid upd r)
  have *: "tx_steps (catalog_step T (tenantID t)) (tx_bind (tx_lift update_error (UpdateItem_q T (tenantID t) iid p)) (\<lambda>row. tx_return (itemFromRow D row)))" for p
    by (intro cat.steps UpdateItem_q_steps)
  show ?thesis using op_update_item cat.steps_tenant_tx[OF *] by (auto simp: UpdateItem_def cat.step_refl split: sum.splits)
next
  case (op_archive_item w iid a)
  then show ?thesis unfolding catalog_ArchiveItem_def catdb_def
    by (rule cat.steps_tenant_tx[rotated]) (intro cat.steps catalog_query_steps)
next
  case (op_create_category w name c)
  have *: "tx_steps (catalog_step T (tenantID t)) (tx_bind new_uuid (\<lambda>newid.
       tx_bind (tx_lift (name_error ''category'') (CreateCategory_q T w newid (tenantID t) n)) (\<lambda>row.
       tx_return \<lparr>cgID = ca_id row, cgName = ca_name row\<rparr>)))" for n
    by (intro cat.steps new_uuid_steps catalog_query_steps)
  show ?thesis using op_create_category cat.steps_tenant_tx[OF *] by (auto simp: CreateCategory_def Let_def cat.step_refl split: if_splits)
next
  case (op_create_supplier w spi s)
  have *: "tx_steps (catalog_step T (tenantID t)) (tx_bind new_uuid (\<lambda>newid.
       tx_bind (tx_lift (name_error ''supplier'') (CreateSupplier_q T w (new_supplier_row (tenantID t) newid i))) (\<lambda>row.
       tx_return (supplierFromRow row))))" for i
    by (intro cat.steps new_uuid_steps catalog_query_steps) (simp add: new_supplier_row_def)
  show ?thesis using op_create_supplier cat.steps_tenant_tx[OF *] by (auto simp: CreateSupplier_def Let_def cat.step_refl split: if_splits)
next
  case (op_set_terms tm e)
  have *: "tx_steps (catalog_step T (tenantID t)) (tx_bind (tx_lift terms_error (UpsertSupplierItem (terms_row D (tenantID t) tm))) (\<lambda>row.
       tx_return (termsFromRow D row)))"
    by (intro cat.steps catalog_query_steps) (simp add: terms_row_def)
  show ?thesis using op_set_terms cat.steps_tenant_tx[OF *] by (auto simp: SetTerms_def cat.step_refl split: if_splits)
next
  case (op_import w parsed by_id dryRun i)
  show ?thesis using op_import cat.steps_tenant_tx[OF importTx_steps]
    by (auto simp: Import_def Let_def cat.step_refl split: if_splits prod.splits sum.splits)
qed

text \<open>(C24) Every operation of the catalogue, failing or not, keeps its rules - names unique per tenant up to
  letter case, no blank name, known units and service levels, references only to rows that exist - together
  with the books of the stock; the journal only grows, the orders stay, and no other tenant sees a difference.\<close>
theorem catalog_rules_kept:
  assumes "catalog_op D T cl t st st'" and "stock_inv st" and "catalog_inv T st"
  shows "stock_inv st' \<and> catalog_inv T st' \<and> (\<exists>ms. movements st' = movements st @ ms)
    \<and> purchase_orders st' = purchase_orders st \<and> order_lines st' = order_lines st
    \<and> (\<forall>other. other \<noteq> tenantID t \<longrightarrow> tenant_view other st' = tenant_view other st)"
  using catalog_op_step[OF assms(1)] assms(2,3) by (auto simp: catalog_step_def grows_def)

definition sample_new_item :: "string \<Rightarrow> dec create_item_input" where
  "sample_new_item name = \<lparr>cnName = name, cnBaseUnit = ''kg'', cnCategory = None, cnSupplier = None, cnServiceLevel = 0,
     cnManualMin = qFromInt dec_lib 2\<rparr>"

lemma sample_catalog_ok: "catalog_inv sample_text sample_db"
  by (simp add: catalog_inv_def categories_ok_def suppliers_ok_def items_ok_def item_checks_def item_references_def
      supplier_row_ok_def sample_db_def sample_item_def not_blank_def weekdays_valid_def
      opt_exists_def)

theorem catalog_rules_kept_witness:
  "let st' = snd (CreateItem dec_lib sample_text 0 sample_tenant (sample_new_item '' rice '') sample_db)
   in catalog_inv sample_text st' \<and> stock_inv st'"
  using catalog_rules_kept[OF op_create_item[OF prod.collapse[symmetric]] sample_ok(3) sample_catalog_ok]
  by (simp add: Let_def)

end
