(* ===== verification/Cleanup.thy ===== *)
theory Cleanup
  imports Accounts Pipeline
begin

text \<open>
  \<open>internal/sandbox/cleanup.go\<close>: the hourly removal of expired demo tenants, with the service that the other files of
  the package share. The database may refuse to answer or to delete (a lock, a timeout); when it does is a parameter of
  the loop. Logging and the metric are left out.
\<close>

section \<open>The service\<close>

record 'd sandbox_service =
  sbClock :: clock
  sbPipeline :: "'d pipeline_service"
  sbTtl :: int

definition NewSandboxService :: "clock \<Rightarrow> 'd pipeline_service \<Rightarrow> int \<Rightarrow> 'd sandbox_service" where
  "NewSandboxService cl pipe ttl = \<lparr>sbClock = cl, sbPipeline = pipe, sbTtl = (if ttl \<le> 0 then 24 * hour else ttl)\<rparr>"

section \<open>Cleanup\<close>

definition CleanupBatch :: nat where "CleanupBatch = 20"

text \<open>Whether the database fails to list, and to delete a tenant, in a round of the loop.\<close>

record faults =
  faList :: "nat \<Rightarrow> bool"
  faDelete :: "nat \<Rightarrow> uuid \<Rightarrow> bool"

text \<open>One batch: a failed deletion is passed over.\<close>

fun delete_batch :: "(uuid \<Rightarrow> bool) \<Rightarrow> uuid list \<Rightarrow> nat \<times> 'd site \<Rightarrow> nat \<times> 'd site" where
  "delete_batch fails [] x = x"
| "delete_batch fails (i # ids) (deleted, s) = (if fails i then delete_batch fails ids (deleted, s)
     else delete_batch fails ids (Suc deleted, DeleteTenant i s))"

text \<open>The loop, which ends when a batch is not full. The flag says that the list failed.\<close>

partial_function (option) cleanup_loop :: "faults \<Rightarrow> instant \<Rightarrow> nat \<Rightarrow> nat \<times> 'd site \<Rightarrow> (bool \<times> nat \<times> 'd site) option" where
  "cleanup_loop fa now k x = (if faList fa k then Some (True, x) else
     let batch = ListExpiredSandboxes (pg_Time now) CleanupBatch (snd x) in
     if batch = [] then Some (False, x) else
     let y = delete_batch (faDelete fa k) batch x in
     if length batch < CleanupBatch then Some (False, y) else cleanup_loop fa now (Suc k) y)"

definition Cleanup :: "'d sandbox_service \<Rightarrow> faults \<Rightarrow> instant \<Rightarrow> 'd site \<Rightarrow> (bool \<times> nat \<times> 'd site) option" where
  "Cleanup sb fa w s = cleanup_loop fa (clock_Now (sbClock sb) w) 0 (0, s)"

definition ActiveCount :: "'d sandbox_service \<Rightarrow> instant \<Rightarrow> 'd site \<Rightarrow> int" where
  "ActiveCount sb w s = CountActiveSandboxes (pg_Time (clock_Now (sbClock sb) w)) s"

definition drop_tenant :: "uuid \<Rightarrow> 'd site \<Rightarrow> 'd site" where
  "drop_tenant tid s = DeleteTenant tid s"

definition SetAutopilot :: "uuid \<Rightarrow> bool \<Rightarrow> 'd site \<Rightarrow> 'd site" where
  "SetAutopilot tid on s = SetTenantAutopilot tid tid on s"

section \<open>Deleting a tenant\<close>

lemma visible_of_others [simp]:
  "other \<noteq> tid \<Longrightarrow> visible other tn (rows_of_others tid tn rows) = visible other tn rows"
  "visible tid tn (rows_of_others tid tn rows) = []"
  by (induction rows) (auto simp: visible_def rows_of_others_def)

lemma erase_tenant_other: "other \<noteq> tid \<Longrightarrow> tenant_view other (erase_tenant tid st) = tenant_view other st"
  by (simp add: tenant_view_def erase_tenant_def)

definition no_rows :: "'d db" where
  "no_rows = \<lparr>categories = [], items = [], warehouses = [], users = [], suppliers = [], supplier_items = [], movements = [],
     balances = [], counts = [], count_lines = [], purchase_orders = [], order_lines = [], daily = [], forecasts = [],
     forecast_metrics = [], item_status = [], notifications = [], outbox = [], uuid_supply = 0\<rparr>"

lemma erase_tenant_own: "tenant_view tid (erase_tenant tid st) = no_rows"
  by (simp add: tenant_view_def erase_tenant_def no_rows_def)

text \<open>The site without the tenants of a set: what is left of the tables, and of the sessions, the codes and the audit log.\<close>

definition user_of :: "uuid set \<Rightarrow> 'd site \<Rightarrow> uuid \<Rightarrow> bool" where
  "user_of G s uid \<longleftrightarrow> (\<exists>u \<in> set (users (siDb s)). us_id u = uid \<and> us_tenant u \<in> G)"

definition erase_tenants :: "uuid set \<Rightarrow> 'd db \<Rightarrow> 'd db" where
  "erase_tenants G st = st\<lparr>categories := filter (\<lambda>r. ca_tenant r \<notin> G) (categories st),
     items := filter (\<lambda>r. it_tenant r \<notin> G) (items st), warehouses := filter (\<lambda>r. wh_tenant r \<notin> G) (warehouses st),
     users := filter (\<lambda>r. us_tenant r \<notin> G) (users st), suppliers := filter (\<lambda>r. su_tenant r \<notin> G) (suppliers st),
     supplier_items := filter (\<lambda>r. si_tenant r \<notin> G) (supplier_items st), movements := filter (\<lambda>r. mv_tenant r \<notin> G) (movements st),
     balances := filter (\<lambda>r. ba_tenant r \<notin> G) (balances st), counts := filter (\<lambda>r. sc_tenant r \<notin> G) (counts st),
     count_lines := filter (\<lambda>r. cl_tenant r \<notin> G) (count_lines st),
     purchase_orders := filter (\<lambda>r. po_tenant r \<notin> G) (purchase_orders st),
     order_lines := filter (\<lambda>r. ol_tenant r \<notin> G) (order_lines st),
     daily := filter (\<lambda>r. dc_tenant r \<notin> G) (daily st), forecasts := filter (\<lambda>r. fc_tenant r \<notin> G) (forecasts st),
     forecast_metrics := filter (\<lambda>r. fm_tenant r \<notin> G) (forecast_metrics st),
     item_status := filter (\<lambda>r. is_tenant r \<notin> G) (item_status st),
     notifications := filter (\<lambda>r. nt_tenant r \<notin> G) (notifications st), outbox := filter (\<lambda>r. ob_tenant r \<notin> G) (outbox st)\<rparr>"

definition site_without :: "uuid set \<Rightarrow> 'd site \<Rightarrow> 'd site" where
  "site_without G s = s\<lparr>siDb := erase_tenants G (siDb s), siTenants := filter (\<lambda>r. tn_id r \<notin> G) (siTenants s),
     siSessions := filter (\<lambda>r. se_tenant r \<notin> G \<and> \<not> user_of G s (se_user r)) (siSessions s),
     siAudit := filter (\<lambda>r. au_tenant r \<notin> G) (siAudit s),
     siCodes := filter (\<lambda>r. lc_tenant r \<notin> G \<and> \<not> user_of G s (lc_user r)) (siCodes s)\<rparr>"

lemma visible_outside: "visible i tn (filter (\<lambda>r. tn r \<notin> G) rows) = (if i \<in> G then [] else visible i tn rows)"
  by (induction rows) (auto simp: visible_def)

lemma erase_tenants_view: "tenant_view i (erase_tenants G st) = (if i \<in> G then no_rows else tenant_view i st)"
  by (simp add: tenant_view_def erase_tenants_def no_rows_def visible_outside)

lemma site_without_none [simp]: "site_without {} s = s"
  by (simp add: site_without_def erase_tenants_def user_of_def)

lemma erase_tenants_twice: "erase_tenants H (erase_tenants G st) = erase_tenants (G \<union> H) st"
  by (simp add: erase_tenants_def conj_commute)

lemma user_of_twice: "user_of G s u \<or> user_of H (site_without G s) u \<longleftrightarrow> user_of (G \<union> H) s u"
  by (auto simp: user_of_def site_without_def erase_tenants_def)

lemma site_without_parts:
  "siDb (site_without G s) = erase_tenants G (siDb s)"
  "siTenants (site_without G s) = filter (\<lambda>r. tn_id r \<notin> G) (siTenants s)"
  "siSessions (site_without G s) = filter (\<lambda>r. se_tenant r \<notin> G \<and> \<not> user_of G s (se_user r)) (siSessions s)"
  "siAudit (site_without G s) = filter (\<lambda>r. au_tenant r \<notin> G) (siAudit s)"
  "siCodes (site_without G s) = filter (\<lambda>r. lc_tenant r \<notin> G \<and> \<not> user_of G s (lc_user r)) (siCodes s)"
  by (simp_all add: site_without_def)

lemma outside_twice:
  "filter (\<lambda>r. f r \<notin> H \<and> \<not> user_of H (site_without G s) (u r)) (filter (\<lambda>r. f r \<notin> G \<and> \<not> user_of G s (u r)) xs)
     = filter (\<lambda>r. f r \<notin> G \<union> H \<and> \<not> user_of (G \<union> H) s (u r)) xs"
  by (induction xs) (auto simp: user_of_twice[symmetric])

lemma site_without_twice: "site_without H (site_without G s) = site_without (G \<union> H) s"
  by (rule site.equality; (simp only: site_without_parts outside_twice erase_tenants_twice)?;
      (simp add: site_without_def conj_commute)?)

lemma DeleteTenant_without: "tenant_exists s i \<Longrightarrow> DeleteTenant i s = site_without {i} s"
  by (simp add: DeleteTenant_def Let_def site_without_def erase_tenant_def erase_tenants_def rows_of_others_def
      user_of_def list_ex_iff conj_commute)

lemma delete_batch_without:
  assumes "distinct ids" and "set ids \<subseteq> tn_id ` set (siTenants (snd x))"
  shows "snd (delete_batch fails ids x) = site_without {i \<in> set ids. \<not> fails i} (snd x)"
  using assms
proof (induction fails ids x rule: delete_batch.induct)
  case (2 fails i ids deleted s)
  show ?case
  proof (cases "fails i")
    case True
    then have "{j \<in> set (i # ids). \<not> fails j} = {j \<in> set ids. \<not> fails j}" by auto
    with 2 True show ?thesis by simp
  next
    case False
    have "tenant_exists s i" using "2.prems"(2) by (auto simp: tenant_exists_def list_ex_iff)
    then have d: "DeleteTenant i s = site_without {i} s" by (rule DeleteTenant_without)
    have "set ids \<subseteq> tn_id ` set (siTenants (site_without {i} s))"
    proof
      fix j assume j: "j \<in> set ids"
      then obtain r where "r \<in> set (siTenants s)" "tn_id r = j" using "2.prems"(2) by auto
      moreover have "j \<noteq> i" using "2.prems"(1) j by auto
      ultimately show "j \<in> tn_id ` set (siTenants (site_without {i} s))" by (auto simp: site_without_def)
    qed
    then have "snd (delete_batch fails ids (Suc deleted, site_without {i} s))
        = site_without {j \<in> set ids. \<not> fails j} (site_without {i} s)"
      using "2.IH"(2)[OF False] "2.prems"(1) by (simp add: d)
    moreover have "{i} \<union> {j \<in> set ids. \<not> fails j} = {j \<in> set (i # ids). \<not> fails j}" using False by auto
    ultimately show ?thesis using False by (simp add: d site_without_twice)
  qed
qed simp

lemma delete_batch_count:
  "fst (delete_batch fails ids x) = fst x + length (filter (\<lambda>i. \<not> fails i) ids)"
  by (induction fails ids x rule: delete_batch.induct) auto

section \<open>The loop ends\<close>

definition expired_ids :: "instant \<Rightarrow> 'd site \<Rightarrow> uuid set" where
  "expired_ids now s = tn_id ` {r \<in> set (siTenants s). expired_sandbox (pg_Time now) r}"

lemma batch_ids:
  assumes "distinct (map tn_id (siTenants s))"
  shows "distinct (ListExpiredSandboxes (pg_Time now) n s)" and "set (ListExpiredSandboxes (pg_Time now) n s) \<subseteq> expired_ids now s"
    and "length (ListExpiredSandboxes (pg_Time now) n s) = min n (card (expired_ids now s))"
proof -
  let ?L = "sort_key (\<lambda>r. case tn_expires_at r of None \<Rightarrow> 0 | Some e \<Rightarrow> e) (filter (expired_sandbox (pg_Time now)) (siTenants s))"
  have d: "distinct (map tn_id ?L)"
    using assms by (simp add: distinct_map inj_on_def)
  show "distinct (ListExpiredSandboxes (pg_Time now) n s)" unfolding ListExpiredSandboxes_def by (rule distinct_take[OF d])
  have s: "set (map tn_id ?L) = expired_ids now s" by (simp add: expired_ids_def)
  then show "set (ListExpiredSandboxes (pg_Time now) n s) \<subseteq> expired_ids now s"
    unfolding ListExpiredSandboxes_def using set_take_subset by metis
  have "length (map tn_id ?L) = card (expired_ids now s)" using d s distinct_card by metis
  then show "length (ListExpiredSandboxes (pg_Time now) n s) = min n (card (expired_ids now s))"
    by (simp add: ListExpiredSandboxes_def)
qed


lemma expired_without [simp]: "expired_ids now (site_without G s) = expired_ids now s - G"
  by (auto simp: expired_ids_def site_without_def)

lemma tenants_without: "distinct (map tn_id (siTenants s)) \<Longrightarrow> distinct (map tn_id (siTenants (site_without G s)))"
  by (simp add: site_without_def distinct_map_filter)

lemma batch_without:
  assumes "distinct ids" and "set ids \<subseteq> expired_ids now (snd x)"
  shows "snd (delete_batch fails ids x) = site_without {i \<in> set ids. \<not> fails i} (snd x)"
  using assms by (intro delete_batch_without) (auto simp: expired_ids_def)

lemma delete_batch_card:
  assumes "distinct ids" and "set ids \<subseteq> expired_ids now (snd x)"
  shows "fst (delete_batch fails ids x) + card (expired_ids now (snd (delete_batch fails ids x))) = fst x + card (expired_ids now (snd x))"
proof -
  let ?gone = "{i \<in> set ids. \<not> fails i}"
  have f: "finite (expired_ids now (snd x))" by (simp add: expired_ids_def)
  have g: "?gone = set (filter (\<lambda>i. \<not> fails i) ids)" by auto
  have "card ?gone = length (filter (\<lambda>i. \<not> fails i) ids)" unfolding g by (rule distinct_card) (simp add: assms(1))
  moreover have "?gone \<subseteq> expired_ids now (snd x)" using assms(2) by auto
  ultimately show ?thesis
    using f card_mono[OF f, of ?gone]
    by (simp add: batch_without[OF assms] delete_batch_count card_Diff_subset finite_subset[of ?gone])
qed

text \<open>What the loop guarantees of its result.\<close>

definition cleaned :: "faults \<Rightarrow> instant \<Rightarrow> nat \<times> 'd site \<Rightarrow> bool \<times> nat \<times> 'd site \<Rightarrow> bool" where
  "cleaned fa now x res \<longleftrightarrow> (case res of (err, y) \<Rightarrow>
     fst y + card (expired_ids now (snd y)) = fst x + card (expired_ids now (snd x))
     \<and> (\<exists>G \<subseteq> expired_ids now (snd x). snd y = site_without G (snd x))
     \<and> (\<not> err \<longrightarrow> (\<exists>k. \<forall>i \<in> expired_ids now (snd y). faDelete fa k i)))"

lemma cleaned_trans:
  assumes "cleaned fa now x (e, y)" and "cleaned fa now y z"
  shows "cleaned fa now x z"
proof -
  obtain err w where z: "z = (err, w)" by (cases z) simp
  obtain G where G: "G \<subseteq> expired_ids now (snd x)" "snd y = site_without G (snd x)"
    using assms(1) by (auto simp: cleaned_def)
  obtain H where H: "H \<subseteq> expired_ids now (snd y)" "snd w = site_without H (snd y)"
    using assms(2) by (auto simp: cleaned_def z)
  have "G \<union> H \<subseteq> expired_ids now (snd x)" using G H(1) by auto
  moreover have "snd w = site_without (G \<union> H) (snd x)" by (simp add: G(2) H(2) site_without_twice)
  ultimately have "\<exists>G \<subseteq> expired_ids now (snd x). snd w = site_without G (snd x)" by blast
  then show ?thesis using assms unfolding cleaned_def z prod.case by simp
qed

lemma batch_cleaned:
  assumes "distinct (map tn_id (siTenants (snd x)))" and "ids = ListExpiredSandboxes (pg_Time now) n (snd x)"
  shows "cleaned fa now x (True, delete_batch fails ids x)"
proof -
  note b = batch_ids[OF assms(1), of now n, folded assms(2)]
  have "{i \<in> set ids. \<not> fails i} \<subseteq> expired_ids now (snd x)" using b(2) by auto
  with delete_batch_card[OF b(1,2)] batch_without[OF b(1,2)] show ?thesis by (auto simp: cleaned_def)
qed

lemma cleanup_ends:
  assumes "distinct (map tn_id (siTenants (snd x)))" and "\<forall>k. card {i \<in> expired_ids now (snd x). faDelete fa k i} < CleanupBatch"
  shows "\<exists>res. cleanup_loop fa now k x = Some res \<and> cleaned fa now x res \<and> (fst res \<longrightarrow> (\<exists>k. faList fa k))"
  using assms
proof (induction "card (expired_ids now (snd x))" arbitrary: k x rule: less_induct)
  case less
  let ?ids = "ListExpiredSandboxes (pg_Time now) CleanupBatch (snd x)"
  let ?y = "delete_batch (faDelete fa k) ?ids x"
  note b = batch_ids[OF less.prems(1), of now CleanupBatch]
  have f: "finite (expired_ids now (snd x))" by (simp add: expired_ids_def)
  have c: "cleaned fa now x (True, ?y)" by (rule batch_cleaned[OF less.prems(1) refl])
  have y: "snd ?y = site_without {i \<in> set ?ids. \<not> faDelete fa k i} (snd x)" by (rule batch_without[OF b(1,2)])
  consider "faList fa k" | "\<not> faList fa k" "?ids = []" | "\<not> faList fa k" "?ids \<noteq> []" "length ?ids < CleanupBatch"
    | "\<not> faList fa k" "?ids \<noteq> []" "CleanupBatch \<le> length ?ids" by linarith
  then show ?case
  proof cases
    case 1
    then show ?thesis by (subst cleanup_loop.simps) (auto simp: cleaned_def)
  next
    case 2
    then have "card (expired_ids now (snd x)) = 0" using b(3) by (simp add: CleanupBatch_def)
    then have "expired_ids now (snd x) = {}" using f by simp
    then show ?thesis using 2 by (subst cleanup_loop.simps) (simp add: cleaned_def)
  next
    case 3
    then have "length ?ids = card (expired_ids now (snd x))" using b(3) by simp
    then have "set ?ids = expired_ids now (snd x)" using b(1,2) f by (metis card_subset_eq distinct_card)
    then have "\<forall>i \<in> expired_ids now (snd ?y). faDelete fa k i" by (auto simp: y)
    then have "cleaned fa now x (False, ?y)" using c by (auto simp: cleaned_def)
    then show ?thesis using 3 by (subst cleanup_loop.simps) (simp add: Let_def)
  next
    case 4
    let ?fail = "{i \<in> expired_ids now (snd x). faDelete fa k i}"
    have "card ?fail < card (set ?ids)"
      using less_le_trans[OF spec[OF less.prems(2), of k] 4(3)] distinct_card[OF b(1)] by simp
    then have "\<not> set ?ids \<subseteq> ?fail" using card_mono[of ?fail "set ?ids"] f by auto
    then have "expired_ids now (snd ?y) \<subset> expired_ids now (snd x)" using b(2) by (auto simp: y)
    then have small: "card (expired_ids now (snd ?y)) < card (expired_ids now (snd x))" by (rule psubset_card_mono[OF f])
    have "card {i \<in> expired_ids now (snd ?y). faDelete fa j i} \<le> card {i \<in> expired_ids now (snd x). faDelete fa j i}" for j
      using f by (intro card_mono) (auto simp: y)
    then have "\<forall>j. card {i \<in> expired_ids now (snd ?y). faDelete fa j i} < CleanupBatch" using less.prems(2) le_less_trans by blast
    from less.hyps[OF small tenants_without[OF less.prems(1), of "{i \<in> set ?ids. \<not> faDelete fa k i}", folded y] this]
    obtain res where r: "cleanup_loop fa now (Suc k) ?y = Some res" "cleaned fa now ?y res" "fst res \<longrightarrow> (\<exists>k. faList fa k)" by blast
    have "cleaned fa now x res" by (rule cleaned_trans[OF c r(2)])
    then show ?thesis using 4 r(1,3) by (subst cleanup_loop.simps) (simp add: Let_def)
  qed
qed


text \<open>The result is the site without some of the expired tenants.\<close>

lemma Cleanup_result:
  assumes "distinct (map tn_id (siTenants s))"
    and "\<forall>k. card {i \<in> expired_ids (clock_Now (sbClock sb) w) s. faDelete fa k i} < CleanupBatch"
  obtains err n gone where "Cleanup sb fa w s = Some (err, n, site_without gone s)" and "n = card gone"
    and "gone \<subseteq> expired_ids (clock_Now (sbClock sb) w) s"
    and "if err then \<exists>k. faList fa k else \<exists>k. \<forall>i \<in> expired_ids (clock_Now (sbClock sb) w) s - gone. faDelete fa k i"
proof -
  let ?now = "clock_Now (sbClock sb) w"
  obtain res where r: "cleanup_loop fa ?now 0 (0, s) = Some res" "cleaned fa ?now (0, s) res" "fst res \<longrightarrow> (\<exists>k. faList fa k)"
    using cleanup_ends[of "(0, s)" ?now fa 0] assms by auto
  obtain err n s' where res: "res = (err, n, s')" by (cases res) auto
  obtain gone where g: "gone \<subseteq> expired_ids ?now s" "s' = site_without gone s" using r(2) by (auto simp: cleaned_def res)
  have f: "finite (expired_ids ?now s)" by (simp add: expired_ids_def)
  have "n + card (expired_ids ?now s - gone) = card (expired_ids ?now s)" using r(2) g(2) by (simp add: cleaned_def res)
  then have n: "n = card gone" using f g(1) card_mono[OF f g(1)] by (simp add: card_Diff_subset finite_subset)
  show thesis
    by (rule that[OF _ n g(1), of err]) (use r g in \<open>auto simp: Cleanup_def cleaned_def res\<close>)
qed

text \<open>(C38) The cleanup ends whenever fewer than a full batch of the expired sandboxes resist deletion at a time: it counts what it
  deleted, and what it leaves of them resisted in its last round unless the list failed. Of a deleted tenant nothing
  remains, in no table, with no session, audit record or link code, of it or of its users; every other tenant is there
  as before with all its rows, and the sessions, audit records and codes of the others are the same rows in the same order.\<close>
theorem Cleanup_ends:
  assumes "distinct (map tn_id (siTenants s))"
    and "\<forall>k. card {i \<in> expired_ids (clock_Now (sbClock sb) w) s. faDelete fa k i} < CleanupBatch"
  shows "\<exists>err n s' gone. Cleanup sb fa w s = Some (err, n, s') \<and> n = card gone \<and> gone \<subseteq> expired_ids (clock_Now (sbClock sb) w) s
    \<and> siTenants s' = filter (\<lambda>r. tn_id r \<notin> gone) (siTenants s)
    \<and> (if err then \<exists>k. faList fa k else \<exists>k. \<forall>i \<in> expired_ids (clock_Now (sbClock sb) w) s - gone. faDelete fa k i)
    \<and> (\<forall>i. tenant_view i (siDb s') = (if i \<in> gone then no_rows else tenant_view i (siDb s)))
    \<and> siSessions s' = filter (\<lambda>r. se_tenant r \<notin> gone \<and> \<not> user_of gone s (se_user r)) (siSessions s)
    \<and> siAudit s' = filter (\<lambda>r. au_tenant r \<notin> gone) (siAudit s)
    \<and> siCodes s' = filter (\<lambda>r. lc_tenant r \<notin> gone \<and> \<not> user_of gone s (lc_user r)) (siCodes s)"
proof -
  obtain err n gone where c: "Cleanup sb fa w s = Some (err, n, site_without gone s)" "n = card gone"
    "gone \<subseteq> expired_ids (clock_Now (sbClock sb) w) s"
    "if err then \<exists>k. faList fa k else \<exists>k. \<forall>i \<in> expired_ids (clock_Now (sbClock sb) w) s - gone. faDelete fa k i"
    by (rule Cleanup_result[OF assms])
  then show ?thesis
    by (intro exI[of _ err] exI[of _ n] exI[of _ "site_without gone s"] exI[of _ gone])
      (simp add: site_without_def erase_tenants_view)
qed

text \<open>When the twenty sandboxes that expired first resist every time, the loop lists them again for ever.\<close>

lemma resisting_batch: "\<forall>i \<in> set ids. fails i \<Longrightarrow> delete_batch fails ids x = x"
  by (induction fails ids x rule: delete_batch.induct) auto

lemma Cleanup_stuck:
  assumes "\<forall>k. \<not> faList fa k" and "length (ListExpiredSandboxes (pg_Time now) CleanupBatch s) = CleanupBatch"
    and "\<forall>k. \<forall>i \<in> set (ListExpiredSandboxes (pg_Time now) CleanupBatch s). faDelete fa k i"
  shows "cleanup_loop fa now k (n, s) = None"
proof -
  let ?P = "\<lambda>fa' now' k x y. \<not> (fa' = fa \<and> now' = now \<and> x = (n, s))"
  have step: "?P fa' now' k x y"
    if ih: "\<And>fa' now' k x y. loop fa' now' k x = Some y \<Longrightarrow> ?P fa' now' k x y"
      and step: "(if faList fa' k then Some (True, x) else
         let batch = ListExpiredSandboxes (pg_Time now') CleanupBatch (snd x) in
         if batch = [] then Some (False, x) else
         let y = delete_batch (faDelete fa' k) batch x in
         if length batch < CleanupBatch then Some (False, y) else loop fa' now' (Suc k) y) = Some y" for loop fa' now' k x y
  proof
    assume "fa' = fa \<and> now' = now \<and> x = (n, s)"
    then have "loop fa now (Suc k) (n, s) = Some y"
      using step assms by (auto simp: Let_def resisting_batch CleanupBatch_def split: if_splits)
    from ih[OF this] show False by simp
  qed
  have "?P fa now k (n, s) y" if l: "cleanup_loop fa now k (n, s) = Some y" for y
  proof -
    have "(case (((fa, now), k), (n, s)) of (a, x) \<Rightarrow> (case a of (a, k) \<Rightarrow> (case a of (f, t) \<Rightarrow> ?P f t) k) x) y"
      by (rule cleanup_loop.raw_induct, erule step, assumption, simp add: l)
    then show ?thesis by simp
  qed
  then show ?thesis by (cases "cleanup_loop fa now k (n, s)") auto
qed


section \<open>Example\<close>

definition old_sandbox :: tenant_row where
  "old_sandbox = \<lparr>tn_id = 3, tn_name = ''demo'', tn_timezone = [], tn_is_sandbox = True, tn_expires_at = Some 5000,
     tn_clock_offset = no_interval, tn_seed = 0, tn_autopilot = False, tn_settings = [], tn_created_at = 0\<rparr>"

text \<open>Two demo tenants, one of them expired, each with a user, a session and an audit record.\<close>

definition demo_user :: "uuid \<Rightarrow> uuid \<Rightarrow> string \<Rightarrow> user_row" where
  "demo_user i tid mail = \<lparr>us_id = i, us_tenant = tid, us_email = mail, us_password_hash = [], us_name = [], us_role = ''owner'',
     us_telegram = None, us_created_at = 0\<rparr>"

definition demo_session :: "uuid \<Rightarrow> uuid \<Rightarrow> string \<Rightarrow> session_row" where
  "demo_session u tid h = \<lparr>se_token_hash = h, se_user = u, se_tenant = tid, se_csrf_hash = [], se_user_agent = [],
     se_expires_at = 8000, se_last_seen_at = 0, se_created_at = 0\<rparr>"

definition demo_audit :: "uuid \<Rightarrow> uuid \<Rightarrow> audit_row" where
  "demo_audit i tid = \<lparr>au_id = i, au_tenant = tid, au_user = None, au_action = ''login'', au_entity = [], au_entity_id = None,
     au_diff = [], au_ip = None, au_at = 0\<rparr>"

definition demo_site :: "dec site" where
  "demo_site = \<lparr>siDb = no_rows\<lparr>users := [demo_user 31 3 ''a'', demo_user 41 4 ''b'']\<rparr>,
     siTenants = [old_sandbox, old_sandbox\<lparr>tn_id := 4, tn_expires_at := Some 9000\<rparr>],
     siSessions = [demo_session 31 3 ''x'', demo_session 41 4 ''y''], siAudit = [demo_audit 1 3, demo_audit 2 4], siCodes = []\<rparr>"

definition demo_pipeline :: "dec pipeline_service" where
  "demo_pipeline = NewPipelineService (Fixed 7000) None"

theorem Cleanup_ends_witness:
  "\<exists>err n s'. Cleanup (NewSandboxService (Fixed 7000) demo_pipeline 0) \<lparr>faList = (\<lambda>_. False), faDelete = (\<lambda>_ _. False)\<rparr> 0 demo_site = Some (err, n, s')
     \<and> \<not> err \<and> n = 1 \<and> map tn_id (siTenants s') = [4] \<and> map se_token_hash (siSessions s') = [''y''] \<and> map au_id (siAudit s') = [2]"
proof -
  let ?sb = "NewSandboxService (Fixed 7000) demo_pipeline 0" and ?fa = "\<lparr>faList = (\<lambda>_. False), faDelete = (\<lambda>_ _. False)\<rparr>"
  have t: "pg_Time (clock_Now (sbClock ?sb) 0) = 7000" by (simp add: NewSandboxService_def pg_Time_def)
  have "filter (expired_sandbox 7000) (siTenants demo_site) = [old_sandbox]"
    by (simp add: demo_site_def old_sandbox_def expired_sandbox_def)
  then have "tn_id ` set (filter (expired_sandbox 7000) (siTenants demo_site)) = {3}" by (simp add: old_sandbox_def del: set_filter)
  then have e: "expired_ids (clock_Now (sbClock ?sb) 0) demo_site = {3}" unfolding expired_ids_def t by simp
  have "distinct (map tn_id (siTenants demo_site))" by (simp add: demo_site_def old_sandbox_def)
  moreover have "\<forall>k. card {i \<in> expired_ids (clock_Now (sbClock ?sb) 0) demo_site. faDelete ?fa k i} < CleanupBatch"
    by (simp add: CleanupBatch_def)
  ultimately obtain err n s' gone where c: "Cleanup ?sb ?fa 0 demo_site = Some (err, n, s')" "n = card gone" "gone \<subseteq> {3}"
    "siTenants s' = filter (\<lambda>r. tn_id r \<notin> gone) (siTenants demo_site)" "\<not> err" "{3} - gone = {}"
    "siSessions s' = filter (\<lambda>r. se_tenant r \<notin> gone \<and> \<not> user_of gone demo_site (se_user r)) (siSessions demo_site)"
    "siAudit s' = filter (\<lambda>r. au_tenant r \<notin> gone) (siAudit demo_site)"
    using Cleanup_ends[of demo_site ?sb 0 ?fa] unfolding e by (auto split: if_splits)
  then have g: "gone = {3}" by auto
  have "map tn_id (siTenants s') = [4]" unfolding c(4) g by (simp add: demo_site_def old_sandbox_def)
  moreover have "map se_token_hash (siSessions s') = [''y'']"
    unfolding c(7) g by (simp add: user_of_def demo_site_def demo_session_def demo_user_def)
  moreover have "map au_id (siAudit s') = [2]" unfolding c(8) g by (simp add: demo_site_def demo_audit_def)
  ultimately show ?thesis using c(1,2,5) g by auto
qed

end
