(* ===== verification/Counts_Correct.thy ===== *)
theory Counts_Correct
  imports Counts
begin

text \<open>
  Correctness of stock counts: posting makes the balances equal to what was counted, refuses
  when the books moved since the count was opened, happens once and entirely or not at all.
\<close>

section \<open>One line\<close>

definition counts_ok :: "'d db \<Rightarrow> bool" where
  "counts_ok st \<longleftrightarrow> distinct (map (\<lambda>l. (cl_count l, cl_item l)) (count_lines st))
     \<and> (\<forall>l \<in> set (count_lines st). is_numeric (cl_expected_qty l)
          \<and> pred_option (\<lambda>q. is_numeric q \<and> 0 \<le> q) (cl_counted_qty l))"

lemma booked_documents:
  assumes "booked st tid wid iid q row v st'"
  shows "counts st' = counts st" and "count_lines st' = count_lines st"
    and "purchase_orders st' = purchase_orders st" and "order_lines st' = order_lines st"
proof -
  have s: "st' = st\<lparr>movements := movements st', balances := balances st', uuid_supply := Suc (uuid_supply st)\<rparr>"
    using assms unfolding booked_def by blast
  show "counts st' = counts st" "count_lines st' = count_lines st"
    "purchase_orders st' = purchase_orders st" "order_lines st' = order_lines st"
    by (subst s; simp)+
qed

lemma Ensure_advances:
  assumes e: "EnsureBalance tid wid iid w st = Inr (u, st')" and inv: "stock_inv st"
  shows "advances tid st st'" and "movements st' = movements st" and "counts st' = counts st"
    and "count_lines st' = count_lines st"
proof -
  obtain bs where b: "st' = st\<lparr>balances := balances st @ bs\<rparr>" "\<forall>b \<in> set bs. ba_tenant b = tid \<and> ba_on_hand b = 0"
    using EnsureBalance_Inr(3)[OF e inv] by blast
  have "tenant_view other st' = tenant_view other st" if "other \<noteq> tid" for other
    using b that by (auto simp: tenant_view_def visible_def filter_empty_conv)
  then show "advances tid st st'" using EnsureBalance_Inr(1)[OF e inv] EnsureBalance_placed[OF e] b(1) by (simp add: advances_def)
  show "movements st' = movements st" "counts st' = counts st" "count_lines st' = count_lines st"
    using b(1) by simp_all
qed

lemma advances_inv: "advances tid st st' \<Longrightarrow> stock_inv st \<Longrightarrow> stock_inv st'"
  by (simp add: advances_def)

text \<open>What the loop of \<open>PostCount\<close> does for one counted line.\<close>

definition line_posted :: "uuid \<Rightarrow> uuid \<Rightarrow> uuid \<Rightarrow> bool \<Rightarrow> count_line_row \<Rightarrow> 'd db \<Rightarrow> 'd count_line option \<Rightarrow> 'd db \<Rightarrow> bool" where
  "line_posted tid wid cid force l st c st' \<longleftrightarrow> advances tid st st' \<and> counts st' = counts st
     \<and> count_lines st' = count_lines st
     \<and> (case c of
          None \<Rightarrow> (force \<or> on_hand_of st wid (cl_item l) = cl_expected_qty l)
            \<and> (\<forall>a i. on_hand_of st' a i = (if a = wid \<and> i = cl_item l then the (cl_counted_qty l) else on_hand_of st a i))
            \<and> (\<exists>ms. movements st' = movements st @ ms \<and> length ms \<le> 1
                 \<and> (\<forall>m \<in> set ms. mv_type m = TypeAdjustment \<and> mv_count m = Some cid \<and> mv_warehouse m = wid
                      \<and> mv_item m = cl_item l
                      \<and> mv_qty m = the (cl_counted_qty l) - on_hand_of st wid (cl_item l)))
        | Some x \<Rightarrow> \<not> force \<and> on_hand_of st wid (cl_item l) \<noteq> cl_expected_qty l
            \<and> (\<forall>a i. on_hand_of st' a i = on_hand_of st a i) \<and> movements st' = movements st
            \<and> clnItem x = cl_item l)"

lemma post_line_posted:
  assumes D: "decimal_api D" and rc: "status_recalculator (ssStatus s)" and inv: "stock_inv st"
    and num: "is_numeric (cl_expected_qty l)" "cl_counted_qty l = Some q" "is_numeric q"
    and r: "post_line D s w t doc by_id force l st = Inr (c, st')"
  shows "line_posted (tenantID t) (sc_warehouse doc) (sc_id doc) force l st c st'"
proof -
  let ?tid = "tenantID t" and ?wid = "sc_warehouse doc" and ?iid = "cl_item l"
  let ?now = "tenant_Now t (ssClock s) w"
  let ?q = "QtyOrZero D (cl_counted_qty l)"
  obtain u st1 h st2 where e': "EnsureBalance ?tid ?wid ?iid w st = Inr (u, st1)"
    and l: "LockBalance ?tid ?wid ?iid st1 = Inr (h, st2)"
    and rest: "(if \<not> force \<and> \<not> qEqual D (pg_Qty D h) (pg_Qty D (cl_expected_qty l)) then
       tx_return (Some \<lparr>clnItem = ?iid, clnItemName = [], clnBaseUnit = [],
         ExpectedQty = pg_Qty D (cl_expected_qty l), CurrentQty = pg_Qty D h, CountedQty = Some ?q, clnDiff = None\<rparr>)
     else if qIsZero D (qSub D ?q (pg_Qty D h)) then tx_return None
     else tx_bind (adjust_balance D s w t doc by_id ?iid (pg_Qty D h) (qSub D ?q (pg_Qty D h))) (\<lambda>_. tx_return None))
     st2 = Inr (c, st')"
    using r unfolding post_line_def Let_def by (auto simp only: dbtx_Inr elim!: tx_bind_InrE)
  then have e: "EnsureBalance ?tid ?wid ?iid w st = Inr ((), st1)" by simp
  note E = EnsureBalance_Inr[OF e inv]
  note L = LockBalance_Inr[OF l E(1)]
  note A = Ensure_advances[OF e inv]
  have st2: "st2 = st1" by (rule L(1))
  have h: "h = on_hand_of st ?wid ?iid" using L(2) E(2) by simp
  have s3: "scale3 h" "scale3 q" "scale3 (cl_expected_qty l)" using L(3) num by (simp_all add: is_numeric_def)
  note qv = decimal_api.qval_ops[OF D] decimal_api.qtest_ops[OF D] decimal_api.pg_Qty_val[OF D]
  have cq: "qval D (QtyOrZero D (cl_counted_qty l)) = q" using s3 by (simp add: num(2) QtyOrZero_def NullQty_def qv)
  let ?d = "qSub D (QtyOrZero D (cl_counted_qty l)) (pg_Qty D h)"
  have dv: "qval D ?d = q - h" using s3 cq by (simp add: qv)
  have wf: "wfq D ?d" using s3 by (auto simp: wfq_def dv)
  show ?thesis
  proof (cases "\<not> force \<and> h \<noteq> cl_expected_qty l")
    case True
    then have "c = Some \<lparr>clnItem = ?iid, clnItemName = [], clnBaseUnit = [],
         ExpectedQty = pg_Qty D (cl_expected_qty l), CurrentQty = pg_Qty D h,
         CountedQty = Some (QtyOrZero D (cl_counted_qty l)), clnDiff = None\<rparr>" "st' = st1"
      using rest s3 by (simp_all add: qv st2)
    then show ?thesis using True A E(2) by (simp add: line_posted_def h)
  next
    case same: False
    then have neg: "(\<not> force \<and> \<not> qEqual D (pg_Qty D h) (pg_Qty D (cl_expected_qty l))) = False"
      using s3 by (auto simp: qv)
    have go: "(if qIsZero D ?d then tx_return None
       else tx_bind (adjust_balance D s w t doc by_id ?iid (pg_Qty D h) ?d) (\<lambda>_. tx_return None)) st2 = Inr (c, st')"
      using rest unfolding neg if_False .
    show ?thesis
    proof (cases "q = h")
      case True
      then have "c = None" "st' = st1" using go dv by (simp_all add: qv st2)
      then show ?thesis using same True A E(2) by (auto simp: line_posted_def h num(2))
    next
      case False
      from go dv False obtain row st4 v st5 x where
        i: "InsertMovement w (adjustment_of D ?tid ?wid ?iid ?d ?now by_id (sc_id doc) (uuid_supply st2))
             (st2\<lparr>uuid_supply := Suc (uuid_supply st2)\<rparr>) = Inr (row, st4)"
        and a: "ApplyMovementToBalance ?tid ?wid ?iid (DecimalOf D ?d) ?now st4 = Inr (v, st5)"
        and f: "ssStatus s w t ?iid st5 = Inr (x, st')" and c: "c = None"
        by (auto simp: qv Let_def new_uuid_def adjust_balance_def)
      have rv: "reverses_ok (movements st) (adjustment_of D ?tid ?wid ?iid ?d ?now by_id (sc_id doc) n)" for n
        by (simp add: reverses_ok_def adjustment_of_def)
      note B = decimal_api.steps_booked[OF D e l,
          where mk = "adjustment_of D ?tid ?wid ?iid ?d ?now by_id (sc_id doc)", OF i a inv wf _ _ _ _ rv]
      have b: "booked st ?tid ?wid ?iid (qval D ?d) row v st5" by (rule B(1)) (simp_all add: adjustment_of_def)
      have row: "row = (adjustment_of D ?tid ?wid ?iid ?d ?now by_id (sc_id doc) (uuid_supply st))
          \<lparr>mv_created_at := pg_Time w, mv_occurred_at := pg_Time ?now\<rparr>"
        using B(2) by (simp add: adjustment_of_def)
      have adv: "advances ?tid st st'"
        using booked_advances[OF b] status_recalculator.recalc_advances[OF rc f]
        by (auto simp: row adjustment_of_def intro: advances_trans)
      have fr: "stock_frame st5 st'" by (rule status_recalculator.recalc_frame[OF rc f])
      have m: "movements st' = movements st @ [row]" using b by (simp add: booked_def frame_stock[OF fr])
      have oh: "on_hand_of st' a i = (if a = ?wid \<and> i = ?iid then q else on_hand_of st a i)" for a i
        using b[unfolded dv] by (simp add: booked_def frame_stock[OF fr] h)
      have rq: "mv_qty row = q - h" "mv_type row = TypeAdjustment" "mv_count row = Some (sc_id doc)"
        "mv_warehouse row = ?wid" "mv_item row = ?iid"
        by (simp_all add: row adjustment_of_def DecimalOf_qval dv)
      have docs: "counts st' = counts st" "count_lines st' = count_lines st"
        using booked_documents[OF b] fr by (simp_all add: stock_frame_def)
      show ?thesis
        unfolding line_posted_def c option.case using same adv docs oh m rq by (auto simp: h num(2))
    qed
  qed
qed

section \<open>The loop\<close>

definition line_ok :: "count_line_row \<Rightarrow> bool" where
  "line_ok l \<longleftrightarrow> is_numeric (cl_expected_qty l) \<and> (\<exists>q. cl_counted_qty l = Some q \<and> is_numeric q)"

definition moved :: "bool \<Rightarrow> 'd db \<Rightarrow> uuid \<Rightarrow> count_line_row \<Rightarrow> bool" where
  "moved force st wid l \<longleftrightarrow> \<not> force \<and> on_hand_of st wid (cl_item l) \<noteq> cl_expected_qty l"

definition counted_balance :: "uuid \<Rightarrow> count_line_row list \<Rightarrow> 'd db \<Rightarrow> uuid \<Rightarrow> uuid \<Rightarrow> rat" where
  "counted_balance wid ls st a i = (if a = wid then
     (case find (\<lambda>l. cl_item l = i) ls of Some l \<Rightarrow> the (cl_counted_qty l) | None \<Rightarrow> on_hand_of st a i)
     else on_hand_of st a i)"

lemma line_posted_None:
  assumes "line_posted tid wid cid force l st None st'"
  shows "\<not> moved force st wid l" and "on_hand_of st' = counted_balance wid [l] st"
    and "\<exists>ms. movements st' = movements st @ ms \<and> (\<forall>m \<in> set ms. mv_type m = TypeAdjustment \<and> mv_count m = Some cid)"
  using assms by (auto simp: line_posted_def moved_def counted_balance_def fun_eq_iff)

lemma line_posted_Some:
  assumes "line_posted tid wid cid force l st (Some x) st'"
  shows "moved force st wid l" and "on_hand_of st' = on_hand_of st" and "movements st' = movements st"
    and "clnItem x = cl_item l"
  using assms by (auto simp: line_posted_def moved_def fun_eq_iff)

lemma line_posted_other:
  assumes "line_posted tid wid cid force l st c st'" and "i \<noteq> cl_item l"
  shows "on_hand_of st' a i = on_hand_of st a i"
  using assms by (auto simp: line_posted_def split: option.splits)

lemma post_lines_posted:
  assumes D: "decimal_api D" and rc: "status_recalculator (ssStatus s)"
    and "post_lines (post_line D s w t doc by_id force) ls st = Inr (cs, st')" and "stock_inv st"
    and "distinct (map cl_item ls)" and "list_all line_ok ls"
  shows "advances (tenantID t) st st' \<and> counts st' = counts st \<and> count_lines st' = count_lines st
    \<and> map clnItem cs = map cl_item (filter (moved force st (sc_warehouse doc)) ls)
    \<and> (cs = [] \<longrightarrow> on_hand_of st' = counted_balance (sc_warehouse doc) ls st)
    \<and> (\<exists>ms. movements st' = movements st @ ms
         \<and> (\<forall>m \<in> set ms. mv_type m = TypeAdjustment \<and> mv_count m = Some (sc_id doc)))"
  using assms(3-6)
proof (induction ls arbitrary: st cs)
  case Nil
  then show ?case by (simp add: counted_balance_def fun_eq_iff)
next
  case (Cons l ls)
  let ?wid = "sc_warehouse doc" and ?tid = "tenantID t"
  from Cons.prems(1) obtain c st1 cs1 where p: "post_line D s w t doc by_id force l st = Inr (c, st1)"
    and ps: "post_lines (post_line D s w t doc by_id force) ls st1 = Inr (cs1, st')"
    and cs: "cs = (case c of None \<Rightarrow> cs1 | Some x \<Rightarrow> x # cs1)"
    by (auto split: option.splits)
  have lok: "is_numeric (cl_expected_qty l)" and "\<exists>q. cl_counted_qty l = Some q \<and> is_numeric q"
    using Cons.prems(4) by (auto simp: line_ok_def)
  then obtain q where q: "cl_counted_qty l = Some q" "is_numeric q" by blast
  note P = post_line_posted[OF D rc Cons.prems(2) lok q p]
  have adv: "advances ?tid st st1" and docs: "counts st1 = counts st" "count_lines st1 = count_lines st"
    using P by (simp_all add: line_posted_def)
  have inv1: "stock_inv st1" by (rule advances_inv[OF adv Cons.prems(2)])
  have IH: "advances ?tid st1 st' \<and> counts st' = counts st1 \<and> count_lines st' = count_lines st1
    \<and> map clnItem cs1 = map cl_item (filter (moved force st1 ?wid) ls)
    \<and> (cs1 = [] \<longrightarrow> on_hand_of st' = counted_balance ?wid ls st1)
    \<and> (\<exists>ms. movements st' = movements st1 @ ms
         \<and> (\<forall>m \<in> set ms. mv_type m = TypeAdjustment \<and> mv_count m = Some (sc_id doc)))"
    by (rule Cons.IH[OF ps inv1]) (use Cons.prems in simp_all)
  have fresh: "cl_item l' \<noteq> cl_item l" if "l' \<in> set ls" for l'
    using Cons.prems(3) that by (metis distinct.simps(2) image_eqI list.simps(9) set_map)
  have "filter (moved force st1 ?wid) ls = filter (moved force st ?wid) ls"
    using line_posted_other[OF P fresh] by (intro filter_cong) (simp_all add: moved_def)
  moreover have nl: "find (\<lambda>x. cl_item x = cl_item l) ls = None" using fresh by (auto simp: find_None_all)
  ultimately show ?case
  proof (cases c)
    case None
    note N = line_posted_None[OF P[unfolded None]]
    have "on_hand_of st' = counted_balance ?wid (l # ls) st" if "cs = []"
      using IH that N(2) nl by (auto simp: None cs counted_balance_def fun_eq_iff split: option.splits)
    then show ?thesis
      using IH N(1,3) adv docs \<open>filter (moved force st1 ?wid) ls = filter (moved force st ?wid) ls\<close>
      by (auto simp: None cs intro: advances_trans)
  next
    case (Some x)
    note S = line_posted_Some[OF P[unfolded Some]]
    show ?thesis
      using IH S(1,3,4) adv docs \<open>filter (moved force st1 ?wid) ls = filter (moved force st ?wid) ls\<close>
      by (auto simp: Some cs intro: advances_trans)
  qed
qed

section \<open>Posting\<close>

lemma ListCountedLines_ok:
  assumes "counts_ok st"
  shows "distinct (map cl_item (ListCountedLines tid cid st))" and "list_all line_ok (ListCountedLines tid cid st)"
proof -
  let ?ls = "ListCountedLines tid cid st"
  have sub: "set ?ls \<subseteq> set (count_lines st)" and one: "\<And>l. l \<in> set ?ls \<Longrightarrow> cl_count l = cid \<and> cl_counted_qty l \<noteq> None"
    by (auto simp: ListCountedLines_def)
  have "distinct (map (\<lambda>l. (cl_count l, cl_item l)) ?ls)"
    using assms by (simp add: counts_ok_def ListCountedLines_def visible_def distinct_map_filter)
  then have "inj_on (\<lambda>l. (cl_count l, cl_item l)) (set ?ls)" "distinct ?ls" by (simp_all add: distinct_map)
  then show "distinct (map cl_item ?ls)" using one by (auto simp: distinct_map inj_on_def)
  show "list_all line_ok ?ls"
    unfolding list_all_iff
  proof
    fix l assume l: "l \<in> set ?ls"
    then have "is_numeric (cl_expected_qty l) \<and> pred_option (\<lambda>q. is_numeric q \<and> 0 \<le> q) (cl_counted_qty l)"
      using sub assms by (auto simp: counts_ok_def)
    with one[OF l] show "line_ok l" by (auto simp: line_ok_def)
  qed
qed

lemma GetStockCount_posted:
  assumes "PostStockCount tid cid ts by_id st = Inr (u, st')" and "GetStockCount tid cid st = Some c"
  shows "GetStockCount tid cid st' = Some (c\<lparr>sc_status := CountPosted, sc_posted_at := Some (pg_Time ts), sc_posted_by := Some by_id\<rparr>)"
  using assms by (auto simp: PostStockCount_def GetStockCount_def CountPosted_def find_visible_update)

lemma postCountTx_Inr:
  assumes D: "decimal_api D" and rc: "status_recalculator (ssStatus s)" and inv: "stock_inv st"
    and ok: "counts_ok st" and r: "postCountTx D s w t cid by_id force st = Inr (u, st')"
  obtains c where "GetStockCount (tenantID t) cid st = Some c" and "sc_status c \<noteq> CountPosted"
    and "advances (tenantID t) st st'"
    and "on_hand_of st' = counted_balance (sc_warehouse c) (ListCountedLines (tenantID t) cid st) st"
    and "filter (moved force st (sc_warehouse c)) (ListCountedLines (tenantID t) cid st) = []"
    and "\<exists>ms. movements st' = movements st @ ms \<and> (\<forall>m \<in> set ms. mv_type m = TypeAdjustment \<and> mv_count m = Some cid)"
    and "GetStockCount (tenantID t) cid st' = Some (c\<lparr>sc_status := CountPosted,
        sc_posted_at := Some (pg_Time (tenant_Now t (ssClock s) w)), sc_posted_by := Some by_id\<rparr>)"
proof -
  let ?tid = "tenantID t" and ?ls = "ListCountedLines (tenantID t) cid st"
  obtain c st1 where c: "GetStockCount ?tid cid st = Some c" "sc_status c \<noteq> CountPosted"
    and ps: "post_lines (post_line D s w t c by_id force) ?ls st = Inr ([], st1)"
    and p: "PostStockCount ?tid cid (tenant_Now t (ssClock s) w) by_id st1 = Inr (u, st')"
    using r by (auto simp: postCountTx_def Let_def from_opt_def split: option.splits)
  have id: "sc_id c = cid" using find_Some_in[OF c(1)[unfolded GetStockCount_def]] by simp
  note P = post_lines_posted[OF D rc ps inv ListCountedLines_ok(1)[OF ok] ListCountedLines_ok(2)[OF ok]]
  have f: "movements st' = movements st1" "balances st' = balances st1"
    using p by (auto simp: PostStockCount_def)
  have "tenant_view other st' = tenant_view other st1" if "other \<noteq> ?tid" for other
    using p that by (auto simp: PostStockCount_def tenant_view_def)
  then have "advances ?tid st1 st'" using p by (intro advances_documents) (auto simp: PostStockCount_def)
  then have adv: "advances ?tid st st'" using P by (blast intro: advances_trans)
  have "GetStockCount ?tid cid st1 = Some c" using c P by (simp add: GetStockCount_def)
  note G = GetStockCount_posted[OF p this]
  show thesis
    by (rule that[OF c adv _ _ _ G]) (use P f id in \<open>auto simp: on_hand_of_def fun_eq_iff\<close>)
qed

lemma PostCount_cases:
  assumes D: "decimal_api D" and rc: "status_recalculator (ssStatus s)" and inv: "stock_inv st"
    and ok: "counts_ok st"
  obtains (failed) e where "postCountTx D s w t cid by_id force st = Inl e"
      and "PostCount D s w t cid by_id force st = (Inl e, st)"
  | (posted) doc st' where "postCountTx D s w t cid by_id force st = Inr ((), st')"
      and "PostCount D s w t cid by_id force st = (Inr doc, st')"
proof (cases "postCountTx D s w t cid by_id force st")
  case (Inl e)
  then show thesis by (intro failed) (simp_all add: PostCount_def then_read_def InTenantTx_def)
next
  case (Inr r)
  then obtain st' where p: "postCountTx D s w t cid by_id force st = Inr ((), st')" by (cases r) auto
  obtain c where "GetStockCount (tenantID t) cid st' = Some c" by (rule postCountTx_Inr[OF D rc inv ok p])
  then have "\<exists>doc. GetCount D t cid st' = Inr (doc, st')" by (simp add: GetCount_def Let_def tx_bind_def)
  then obtain doc where "GetCount D t cid st' = Inr (doc, st')" by blast
  with p have "PostCount D s w t cid by_id force st = (Inr doc, st')"
    by (simp add: PostCount_def then_read_def InTenantTx_def)
  with p show thesis by (rule posted)
qed

text \<open>(C8) A posted count makes the books say what was counted: for every line with a counted
  quantity the balance of the count's warehouse is that quantity, every other balance is what
  it was, and the journal grew by adjustments of that count only. Without force this happens
  only if every counted line still has the balance it was opened with.\<close>
theorem PostCount_sets_counted:
  assumes "decimal_api D" and "status_recalculator (ssStatus s)" and "stock_inv st" and "counts_ok st"
    and "PostCount D s w t cid by_id force st = (Inr doc, st')"
  shows "\<exists>c. GetStockCount (tenantID t) cid st = Some c \<and> sc_status c \<noteq> CountPosted
      \<and> (\<forall>l \<in> set (ListCountedLines (tenantID t) cid st).
           on_hand_of st' (sc_warehouse c) (cl_item l) = the (cl_counted_qty l)
           \<and> (force \<or> on_hand_of st (sc_warehouse c) (cl_item l) = cl_expected_qty l))
      \<and> (\<forall>a i. a \<noteq> sc_warehouse c \<or> i \<notin> cl_item ` set (ListCountedLines (tenantID t) cid st) \<longrightarrow>
           on_hand_of st' a i = on_hand_of st a i)
      \<and> (\<exists>ms. movements st' = movements st @ ms
           \<and> (\<forall>m \<in> set ms. mv_type m = TypeAdjustment \<and> mv_count m = Some cid))
      \<and> stock_inv st'"
proof -
  let ?ls = "ListCountedLines (tenantID t) cid st"
  have p: "postCountTx D s w t cid by_id force st = Inr ((), st')"
    using assms(5) by (cases rule: PostCount_cases[OF assms(1-4), of w t cid by_id force]) auto
  show ?thesis
  proof (rule postCountTx_Inr[OF assms(1-4) p])
    fix c
    assume c: "GetStockCount (tenantID t) cid st = Some c" "sc_status c \<noteq> CountPosted"
      and a: "advances (tenantID t) st st'"
      and oh: "on_hand_of st' = counted_balance (sc_warehouse c) ?ls st"
      and mv: "filter (moved force st (sc_warehouse c)) ?ls = []"
      and ms: "\<exists>ms. movements st' = movements st @ ms \<and> (\<forall>m \<in> set ms. mv_type m = TypeAdjustment \<and> mv_count m = Some cid)"
    have d: "distinct (map cl_item ?ls)" by (rule ListCountedLines_ok(1)[OF assms(4)])
    have "find (\<lambda>x. cl_item x = cl_item l) ?ls = Some l" if "l \<in> set ?ls" for l
    proof -
      obtain y where "find (\<lambda>x. cl_item x = cl_item l) ?ls = Some y"
        using find_not_None[of l ?ls "\<lambda>x. cl_item x = cl_item l"] \<open>l \<in> set ?ls\<close> by auto
      moreover from find_Some_in[OF this] d that have "y = l" by (auto simp: distinct_map inj_on_def)
      ultimately show ?thesis by simp
    qed
    then have "\<forall>l \<in> set ?ls. on_hand_of st' (sc_warehouse c) (cl_item l) = the (cl_counted_qty l)"
      by (simp add: oh counted_balance_def)
    moreover have "\<forall>l \<in> set ?ls. force \<or> on_hand_of st (sc_warehouse c) (cl_item l) = cl_expected_qty l"
      using mv by (auto simp: filter_empty_conv moved_def)
    moreover have "on_hand_of st' a i = on_hand_of st a i" if "a \<noteq> sc_warehouse c \<or> i \<notin> cl_item ` set ?ls" for a i
      using that by (auto simp: oh counted_balance_def split: option.splits dest!: find_Some_in)
    ultimately show ?thesis using c ms advances_inv[OF a assms(3)] by (intro exI[of _ c]) auto
  qed
qed

text \<open>\<open>CountChanged\<close> has one source.\<close>

lemma wrap_not_changed [simp]:
  "wrapInsertError e \<noteq> CountChanged cs" "wrapBalanceError e a b \<noteq> CountChanged cs"
  "CountChanged cs \<noteq> wrapInsertError e" "CountChanged cs \<noteq> wrapBalanceError e a b"
  by (auto simp: wrapInsertError_def wrapBalanceError_def Let_def)

lemma tx_bind_Inl: "tx_bind m f s = Inl e \<longleftrightarrow> m s = Inl e \<or> (\<exists>x s'. m s = Inr (x, s') \<and> f x s' = Inl e)"
  by (auto simp: tx_bind_def split: sum.splits)

lemma tx_lift_Inl: "tx_lift g m s = Inl e \<longleftrightarrow> (\<exists>e'. m s = Inl e' \<and> e = g e')"
  by (auto simp: tx_lift_def split: sum.splits)

lemma post_lines_not_changed: "post_lines (post_line D s w t doc by_id force) ls st \<noteq> Inl (CountChanged cs)"
proof (induction ls arbitrary: st)
  case (Cons l ls)
  have "post_line D s w t doc by_id force l st' \<noteq> Inl (CountChanged cs)" for st'
    by (auto simp: post_line_def Let_def tx_bind_Inl tx_lift_Inl dbtx_def adjust_balance_def new_uuid_def
        split: if_splits)
  with Cons show ?case by (auto simp: tx_bind_Inl split: option.splits)
qed simp

lemma PostCount_changed:
  assumes D: "decimal_api D" and rc: "status_recalculator (ssStatus s)" and inv: "stock_inv st"
    and ok: "counts_ok st" and r: "postCountTx D s w t cid by_id force st = Inl (CountChanged cs)"
  shows "\<exists>c. GetStockCount (tenantID t) cid st = Some c \<and> \<not> force \<and> cs \<noteq> []
    \<and> map clnItem cs = map cl_item (filter (\<lambda>l. on_hand_of st (sc_warehouse c) (cl_item l) \<noteq> cl_expected_qty l)
        (ListCountedLines (tenantID t) cid st))"
proof -
  let ?ls = "ListCountedLines (tenantID t) cid st"
  obtain c st1 where c: "GetStockCount (tenantID t) cid st = Some c"
    and ps: "post_lines (post_line D s w t c by_id force) ?ls st = Inr (cs, st1)" and ne: "cs \<noteq> []"
    using r by (auto simp: post_lines_not_changed postCountTx_def Let_def tx_bind_Inl tx_lift_Inl from_opt_def PostStockCount_def split: option.splits)
  have m: "map clnItem cs = map cl_item (filter (moved force st (sc_warehouse c)) ?ls)"
    using post_lines_posted[OF D rc ps inv ListCountedLines_ok(1)[OF ok] ListCountedLines_ok(2)[OF ok]] by blast
  have nf: "\<not> force" using m ne by (auto simp: moved_def)
  then have "moved force st (sc_warehouse c) = (\<lambda>l. on_hand_of st (sc_warehouse c) (cl_item l) \<noteq> cl_expected_qty l)"
    by (simp add: fun_eq_iff moved_def)
  with m nf c ne show ?thesis by auto
qed

text \<open>(C9) Posting is all or nothing and happens once: a refused or failed posting changes
  nothing; the refusal names exactly the counted lines whose balance is no longer the one the
  count was opened with; a posted count cannot be posted again, forced or not.\<close>
theorem PostCount_atomic:
  assumes "decimal_api D" and "status_recalculator (ssStatus s)" and "stock_inv st" and "counts_ok st"
  shows "(\<forall>e st'. PostCount D s w t cid by_id force st = (Inl e, st') \<longrightarrow> st' = st)
    \<and> (\<forall>cs st'. PostCount D s w t cid by_id force st = (Inl (CountChanged cs), st') \<longrightarrow>
         (\<exists>c. GetStockCount (tenantID t) cid st = Some c \<and> \<not> force \<and> cs \<noteq> []
           \<and> map clnItem cs = map cl_item (filter (\<lambda>l. on_hand_of st (sc_warehouse c) (cl_item l) \<noteq> cl_expected_qty l)
               (ListCountedLines (tenantID t) cid st))))
    \<and> (\<forall>doc st'. PostCount D s w t cid by_id force st = (Inr doc, st') \<longrightarrow>
         PostCount D s w' t cid u force' st' = (Inl ErrCountPosted, st'))"
proof (rule PostCount_cases[OF assms, of w t cid by_id force])
  fix e
  assume "postCountTx D s w t cid by_id force st = Inl e" "PostCount D s w t cid by_id force st = (Inl e, st)"
  then show ?thesis using PostCount_changed[OF assms, of w t cid by_id force] by auto
next
  fix doc st'
  assume p: "postCountTx D s w t cid by_id force st = Inr ((), st')" "PostCount D s w t cid by_id force st = (Inr doc, st')"
  obtain c where "GetStockCount (tenantID t) cid st' = Some c" "sc_status c = CountPosted"
    by (rule postCountTx_Inr[OF assms p(1)]) simp
  then have "PostCount D s w' t cid u force' st' = (Inl ErrCountPosted, st')"
    by (simp add: PostCount_def then_read_def InTenantTx_def postCountTx_def Let_def tx_bind_def tx_guard_def)
  then show ?thesis using p by auto
qed

section \<open>A sample count\<close>

definition sample_count :: "rat \<Rightarrow> dec db" where
  "sample_count expected = sample_db\<lparr>
     balances := [\<lparr>ba_tenant = 1, ba_warehouse = 20, ba_item = 10, ba_on_hand = 3 / 2, ba_updated_at = 0\<rparr>],
     movements := [\<lparr>mv_id = 50, mv_tenant = 1, mv_warehouse = 20, mv_item = 10, mv_type = TypeReceipt,
       mv_qty = 3 / 2, mv_occurred_at = 0, mv_created_at = 0, mv_created_by = None, mv_reason = None,
       mv_comment = [], mv_order = None, mv_count = None, mv_reverses = None, mv_idempotency_key = None\<rparr>],
     counts := [\<lparr>sc_id = 60, sc_tenant = 1, sc_warehouse = 20, sc_status = CountDraft, sc_scope = ''all'',
       sc_note = [], sc_created_by = None, sc_posted_by = None, sc_posted_at = None, sc_created_at = 0\<rparr>],
     count_lines := [\<lparr>cl_tenant = 1, cl_count = 60, cl_item = 10, cl_expected_qty = expected,
       cl_counted_qty = Some 1\<rparr>]\<rparr>"

lemma sample_count_ok: "stock_inv (sample_count e)" "is_numeric e \<Longrightarrow> counts_ok (sample_count e)"
  by (simp_all add: stock_inv_def journal_ok_def balances_ok_def sample_count_def counts_ok_def
      sample_db_def on_hand_of_def journal_def is_numeric_def has_scale_def movement_checks_def
      reverses_ok_def movement_sign_ok_def writeoff_reason_ok_def type_names balance_key_def)

abbreviation sample_post where
  "sample_post force \<equiv> PostCount dec_lib sample_service 0 sample_tenant 60 7 force"

lemma adjustment_texts [simp]: "valid_text adjustment_comment" "valid_text []"
  by code_simp+

lemmas count_eval = movement_texts_def tx_eval stock_eval PostCount_def then_read_def postCountTx_def post_line_def
  adjust_balance_def adjustment_of_def GetStockCount_def ListCountedLines_def PostStockCount_def
  GetCount_def QtyOrZero_def NullQty_def CountDraft_def CountPosted_def

lemma sample_forced: obtains doc st' where "sample_post True (sample_count 1) = (Inr doc, st')"
proof -
  have "\<exists>doc st'. sample_post True (sample_count 1) = (Inr doc, st')"
    by (simp add: count_eval sample_count_def sample_defs has_scale_def)
  then show thesis using that by blast
qed

theorem PostCount_sets_counted_witness:
  "\<exists>doc st'. sample_post True (sample_count 1) = (Inr doc, st') \<and> on_hand_of st' 20 10 = 1"
proof -
  obtain doc st' where r: "sample_post True (sample_count 1) = (Inr doc, st')" by (rule sample_forced)
  have "is_numeric 1" by (simp add: is_numeric_def has_scale_def)
  from PostCount_sets_counted[OF sample_ok(1,2) sample_count_ok(1) sample_count_ok(2)[OF this] r] r show ?thesis
    by (auto simp: sample_count_def sample_tenant_def GetStockCount_def ListCountedLines_def visible_def)
qed

theorem PostCount_atomic_witness:
  "(\<exists>cs. sample_post False (sample_count 1) = (Inl (CountChanged cs), sample_count 1) \<and> map clnItem cs = [10])
    \<and> (\<exists>doc st'. sample_post True (sample_count 1) = (Inr doc, st')
         \<and> sample_post True st' = (Inl ErrCountPosted, st'))"
proof -
  have n: "is_numeric 1" by (simp add: is_numeric_def has_scale_def)
  note A = PostCount_atomic[OF sample_ok(1,2) sample_count_ok(1) sample_count_ok(2)[OF n],
      where w = 0 and t = sample_tenant and cid = 60 and by_id = 7]
  have "\<exists>cs. sample_post False (sample_count 1) = (Inl (CountChanged cs), sample_count 1)"
    by (simp add: count_eval sample_count_def sample_defs)
  moreover have "on_hand_of (sample_count 1) 20 10 = 3 / 2"
    by (simp add: on_hand_of_def sample_count_def balance_key_def)
  moreover obtain doc st' where r: "sample_post True (sample_count 1) = (Inr doc, st')" by (rule sample_forced)
  ultimately show ?thesis using A[of False] A[of True]
    by (auto simp: sample_count_def sample_tenant_def GetStockCount_def ListCountedLines_def visible_def)
qed

end
