(* ===== verification/Dashboard.thy ===== *)
theory Dashboard
  imports Replenish_Correct Order_Db
begin

text \<open>
  \<open>internal/dashboard\<close>: the main screen and the card of an item, with the queries of
  \<open>dashboard.sql.go\<close> they read. The packages only read; their transactions change nothing.
\<close>

section \<open>Queries\<close>

record dashboard_row =
  dbItem :: uuid
  dbItemName :: string
  dbBaseUnit :: string
  dbManualMinQty :: rat
  dbCategoryName :: "string option"
  dbOnHand :: rat
  dbOnOrder :: rat
  dbStatus :: status
  dbStockoutDate :: "day option"
  dbOrderBy :: "instant option"
  dbRecommendedQty :: rat
  dbTargetLevel :: rat
  dbSupplier :: "uuid option"
  dbSupplierName :: "string option"
  dbOrderCutoff :: "int option"
  dbPurchaseUnit :: string
  dbUnitFactor :: rat
  dbForecastModel :: "model option"
  dbWape :: f64
  dbBalanceUpdatedAt :: "instant option"

definition dashboard_row_of :: "item_row \<Rightarrow> category_row option \<Rightarrow> balance_row option \<Rightarrow> 'd item_status_row option \<Rightarrow>
    supplier_row option \<Rightarrow> supplier_item_row option \<Rightarrow> forecast_metrics_row option \<Rightarrow> dashboard_row" where
  "dashboard_row_of i c b r s si fm = \<lparr>dbItem = it_id i, dbItemName = it_name i, dbBaseUnit = it_base_unit i,
     dbManualMinQty = it_manual_min_qty i, dbCategoryName = map_option ca_name c, dbOnHand = or_else 0 ba_on_hand b,
     dbOnOrder = or_else 0 is_on_order r, dbStatus = or_else StatusNoForecast is_status r,
     dbStockoutDate = or_else None is_stockout_date r, dbOrderBy = or_else None is_order_by r,
     dbRecommendedQty = or_else 0 is_recommended_qty r, dbTargetLevel = or_else 0 is_target_level r,
     dbSupplier = map_option su_id s, dbSupplierName = map_option su_name s, dbOrderCutoff = map_option su_order_cutoff s,
     dbPurchaseUnit = or_else [] si_purchase_unit si, dbUnitFactor = or_else 1 si_unit_factor si,
     dbForecastModel = map_option fm_model fm, dbWape = or_else (Fin 1) fm_wape fm,
     dbBalanceUpdatedAt = map_option ba_updated_at b\<rparr>"

text \<open>The joins that the screen and the card share.\<close>

definition item_joins :: "uuid \<Rightarrow> 'd db \<Rightarrow> (item_row \<Rightarrow> category_row option \<Rightarrow> balance_row option \<Rightarrow> 'd item_status_row option \<Rightarrow>
    supplier_row option \<Rightarrow> supplier_item_row option \<Rightarrow> forecast_metrics_row option \<Rightarrow> 'r) \<Rightarrow> item_row \<Rightarrow> 'r list" where
  "item_joins tid st f i = [f i c b r s si fm.
     c \<leftarrow> left_join (filter (\<lambda>c. it_category i = Some (ca_id c)) (visible tid ca_tenant (categories st))),
     b \<leftarrow> left_join (filter (\<lambda>b. ba_item b = it_id i) (visible tid ba_tenant (balances st))),
     r \<leftarrow> left_join (filter (\<lambda>r. is_item r = it_id i) (visible tid is_tenant (item_status st))),
     s \<leftarrow> left_join (filter (\<lambda>s. it_default_supplier i = Some (su_id s)) (visible tid su_tenant (suppliers st))),
     si \<leftarrow> left_join (filter (\<lambda>x. si_item x = it_id i \<and> it_default_supplier i = Some (si_supplier x))
             (visible tid si_tenant (supplier_items st))),
     fm \<leftarrow> left_join (filter (\<lambda>x. fm_item x = it_id i) (visible tid fm_tenant (forecast_metrics st)))]"

definition status_rank :: "status \<Rightarrow> nat" where
  "status_rank s = (if s = StatusOutOfStock then 0 else if s = StatusCritical then 1 else if s = StatusOrderToday then 2
     else if s = StatusNoForecast then 3 else 4)"

definition nulls_last :: "day option \<Rightarrow> nat \<times> int" where
  "nulls_last d = (case d of None \<Rightarrow> (1, 0) | Some x \<Rightarrow> (0, dnum x))"

definition Dashboard :: "uuid \<Rightarrow> 'd db \<Rightarrow> dashboard_row list" where
  "Dashboard tid st = sort_key (\<lambda>r. (status_rank (dbStatus r), nulls_last (dbStockoutDate r), name_key (dbItemName r)))
     (concat (map (item_joins tid st dashboard_row_of) (filter (\<lambda>i. it_archived_at i = None) (visible tid it_tenant (items st)))))"

definition ItemHistory :: "uuid \<Rightarrow> uuid \<Rightarrow> day \<Rightarrow> 'd db \<Rightarrow> daily_row list" where
  "ItemHistory tid iid d st = sort_key (\<lambda>r. dnum (dc_day r))
     (filter (\<lambda>r. dc_item r = iid \<and> dnum d \<le> dnum (dc_day r)) (visible tid dc_tenant (daily st)))"

record 'd insights_row =
  irwItem :: uuid
  irwItemName :: string
  irwBaseUnit :: string
  irwServiceLevel :: int
  irwManualMinQty :: rat
  irwCategoryName :: "string option"
  irwOnHand :: rat
  irwOnOrder :: rat
  irwStatus :: status
  irwStockoutDate :: "day option"
  irwOrderBy :: "instant option"
  irwRecommendedQty :: rat
  irwTargetLevel :: rat
  irwSafetyStock :: rat
  irwExplanation :: "'d explanation option"
  irwSupplier :: "uuid option"
  irwSupplierName :: "string option"
  irwPurchaseUnit :: string
  irwUnitFactor :: rat
  irwForecastModel :: "model option"
  irwWape :: f64
  irwBias :: f64
  irwSigma :: f64
  irwDaysWithData :: int

definition insights_row_of :: "item_row \<Rightarrow> category_row option \<Rightarrow> balance_row option \<Rightarrow> 'd item_status_row option \<Rightarrow>
    supplier_row option \<Rightarrow> supplier_item_row option \<Rightarrow> forecast_metrics_row option \<Rightarrow> 'd insights_row" where
  "insights_row_of i c b r s si fm = \<lparr>irwItem = it_id i, irwItemName = it_name i, irwBaseUnit = it_base_unit i,
     irwServiceLevel = it_service_level i, irwManualMinQty = it_manual_min_qty i, irwCategoryName = map_option ca_name c,
     irwOnHand = or_else 0 ba_on_hand b, irwOnOrder = or_else 0 is_on_order r, irwStatus = or_else StatusNoForecast is_status r,
     irwStockoutDate = or_else None is_stockout_date r, irwOrderBy = or_else None is_order_by r,
     irwRecommendedQty = or_else 0 is_recommended_qty r, irwTargetLevel = or_else 0 is_target_level r,
     irwSafetyStock = or_else 0 is_safety_stock r, irwExplanation = map_option is_explanation r,
     irwSupplier = map_option su_id s, irwSupplierName = map_option su_name s,
     irwPurchaseUnit = or_else [] si_purchase_unit si, irwUnitFactor = or_else 1 si_unit_factor si,
     irwForecastModel = map_option fm_model fm, irwWape = or_else (Fin 1) fm_wape fm, irwBias = or_else (Fin 0) fm_bias fm,
     irwSigma = or_else (Fin 0) fm_sigma fm, irwDaysWithData = or_else 0 fm_days_with_data fm\<rparr>"

definition ItemInsights :: "uuid \<Rightarrow> uuid \<Rightarrow> 'd db \<Rightarrow> 'd insights_row option" where
  "ItemInsights tid iid st = (case concat (map (item_joins tid st insights_row_of)
       (filter (\<lambda>i. it_id i = iid) (visible tid it_tenant (items st)))) of [] \<Rightarrow> None | r # _ \<Rightarrow> Some r)"

section \<open>The main screen\<close>

datatype dashboard_error = DashNotFound | DashPanicked

record counters =
  cnOutOfStock :: int
  cnCritical :: int
  cnOrderToday :: int
  cnOK :: int
  cnNoForecast :: int
  cnTotal :: int

record 'd view_row =
  vrItem :: uuid
  vrName :: string
  vrBaseUnit :: string
  vrCategoryName :: string
  vrOnHand :: "'d qty"
  vrOnOrder :: "'d qty"
  vrStatus :: status
  vrStockoutDate :: "day option"
  vrOrderBy :: "instant option"
  vrRecommendedQty :: "'d qty"
  vrPurchaseQty :: "'d qty option"
  vrPurchaseUnit :: string
  vrSupplier :: "uuid option"
  vrSupplierName :: string
  vrAccuracy :: "f64 option"
  vrModel :: model

record 'd suggestion_line =
  slItem :: uuid
  slName :: string
  slBaseUnit :: string
  slOnHand :: "'d qty"
  slQty :: "'d qty"
  slPurchaseQty :: "'d qty option"
  slPurchaseUnit :: string
  slStockoutDate :: "day option"
  slStatus :: status

record 'd supplier_suggestion =
  ssgSupplier :: uuid
  ssgSupplierName :: string
  ssgContact :: string
  ssgOrderBy :: time_of_day
  ssgLines :: "'d suggestion_line list"

record 'd view =
  vwToday :: day
  vwCounters :: counters
  vwSuggestions :: "'d supplier_suggestion list"
  vwItems :: "'d view_row list"

text \<open>The outer option is the panic of a division by zero, the inner one the flag \<open>ok\<close>.\<close>

definition dash_inPurchaseUnits :: "'d decimal_lib \<Rightarrow> 'd qty \<Rightarrow> 'd qty \<Rightarrow> string \<Rightarrow> 'd qty option option" where
  "dash_inPurchaseUnits D base factor unt = (if unt = [] \<or> \<not> qIsPositive D factor then Some None
     else map_option (\<lambda>d. Some (qFromDecimal D d)) (dDiv D (qdec base) (qdec factor)))"

definition countStatus :: "status \<Rightarrow> counters \<Rightarrow> counters" where
  "countStatus s c = (if s = StatusOutOfStock then c\<lparr>cnOutOfStock := cnOutOfStock c + 1\<rparr>
     else if s = StatusCritical then c\<lparr>cnCritical := cnCritical c + 1\<rparr>
     else if s = StatusOrderToday then c\<lparr>cnOrderToday := cnOrderToday c + 1\<rparr>
     else if s = StatusNoForecast then c\<lparr>cnNoForecast := cnNoForecast c + 1\<rparr>
     else c\<lparr>cnOK := cnOK c + 1\<rparr>)"

definition shown_accuracy :: "f64 \<Rightarrow> f64" where
  "shown_accuracy wape = Accuracy \<lparr>metModel = [], WAPE = wape, Bias = Fin 0, Sigma = Fin 0, Alpha = Fin 0, WindowDays = 0, DaysWithData = 0\<rparr>"

text \<open>The body of the loop of \<open>Load\<close>.\<close>

definition view_row_of :: "'d decimal_lib \<Rightarrow> dashboard_row \<Rightarrow> 'd view_row option" where
  "view_row_of D r = (let rec = pg_Qty D (dbRecommendedQty r) in
     map_option (\<lambda>packs. \<lparr>vrItem = dbItem r, vrName = dbItemName r, vrBaseUnit = dbBaseUnit r,
         vrCategoryName = or_else [] id (dbCategoryName r), vrOnHand = pg_Qty D (dbOnHand r), vrOnOrder = pg_Qty D (dbOnOrder r),
         vrStatus = dbStatus r, vrStockoutDate = dbStockoutDate r, vrOrderBy = dbOrderBy r, vrRecommendedQty = rec,
         vrPurchaseQty = packs, vrPurchaseUnit = dbPurchaseUnit r, vrSupplier = dbSupplier r,
         vrSupplierName = or_else [] id (dbSupplierName r),
         vrAccuracy = (case dbForecastModel r of None \<Rightarrow> None
           | Some m \<Rightarrow> if m = ModelM0 then None else Some (shown_accuracy (dbWape r))),
         vrModel = or_else [] id (dbForecastModel r)\<rparr>)
       (if qIsPositive D rec then dash_inPurchaseUnits D rec (pg_Qty D (dbUnitFactor r)) (dbPurchaseUnit r) else Some None))"

fun load_rows :: "'d decimal_lib \<Rightarrow> counters \<Rightarrow> dashboard_row list \<Rightarrow> ('d view_row list \<times> counters) option" where
  "load_rows D c [] = Some ([], c)"
| "load_rows D c (r # rs) = (case view_row_of D r of None \<Rightarrow> None
     | Some v \<Rightarrow> map_option (\<lambda>(vs, c'). (v # vs, c')) (load_rows D (countStatus (vrStatus v) c) rs))"

definition suggestion_line_of :: "'d decimal_lib \<Rightarrow> suggestion_row \<Rightarrow> 'd suggestion_line option" where
  "suggestion_line_of D r = (let q = pg_Qty D (sgRecommendedQty r) in
     map_option (\<lambda>packs. \<lparr>slItem = sgItem r, slName = sgItemName r, slBaseUnit = sgBaseUnit r, slOnHand = pg_Qty D (sgOnHand r),
         slQty = q, slPurchaseQty = packs, slPurchaseUnit = sgPurchaseUnit r, slStockoutDate = sgStockoutDate r,
         slStatus = sgStatus r\<rparr>)
       (dash_inPurchaseUnits D q (pg_Qty D (sgUnitFactor r)) (sgPurchaseUnit r)))"

text \<open>The map \<open>index\<close> finds the block of a supplier; here the blocks are searched for it.\<close>

definition add_suggestion :: "suggestion_row \<Rightarrow> 'd suggestion_line \<Rightarrow> 'd supplier_suggestion list \<Rightarrow> 'd supplier_suggestion list" where
  "add_suggestion r l out = (if list_ex (\<lambda>g. ssgSupplier g = sgSupplier r) out
     then map (\<lambda>g. if ssgSupplier g = sgSupplier r then g\<lparr>ssgLines := ssgLines g @ [l]\<rparr> else g) out
     else out @ [\<lparr>ssgSupplier = sgSupplier r, ssgSupplierName = sgSupplierName r, ssgContact = sgContact r,
       ssgOrderBy = ClockTime (sgOrderCutoff r), ssgLines = [l]\<rparr>])"

fun group_from :: "'d decimal_lib \<Rightarrow> 'd supplier_suggestion list \<Rightarrow> suggestion_row list \<Rightarrow> 'd supplier_suggestion list option" where
  "group_from D out [] = Some out"
| "group_from D out (r # rs) = (case suggestion_line_of D r of None \<Rightarrow> None
     | Some l \<Rightarrow> group_from D (add_suggestion r l out) rs)"

definition groupSuggestions :: "'d decimal_lib \<Rightarrow> suggestion_row list \<Rightarrow> 'd supplier_suggestion list option" where
  "groupSuggestions D = group_from D []"

definition no_counters :: counters where
  "no_counters = \<lparr>cnOutOfStock = 0, cnCritical = 0, cnOrderToday = 0, cnOK = 0, cnNoForecast = 0, cnTotal = 0\<rparr>"

definition Load :: "'d decimal_lib \<Rightarrow> clock \<Rightarrow> instant \<Rightarrow> tenant \<Rightarrow> 'd db \<Rightarrow> (dashboard_error + 'd view) \<times> 'd db" where
  "Load D cl w t = InTenantTx (
     tx_bind (tx_get (Dashboard (tenantID t))) (\<lambda>rows.
     tx_bind (tx_of_sum (from_opt DashPanicked (load_rows D no_counters rows))) (\<lambda>(vs, c).
     tx_bind (tx_get (Suggestions (tenantID t))) (\<lambda>sug.
     tx_bind (tx_of_sum (from_opt DashPanicked (groupSuggestions D sug))) (\<lambda>groups.
     tx_return \<lparr>vwToday = Today t cl w, vwCounters = c\<lparr>cnTotal := int (length vs)\<rparr>, vwSuggestions = groups, vwItems = vs\<rparr>)))))"

section \<open>The card of an item\<close>

definition dashboard_HistoryDays :: int where "dashboard_HistoryDays = 60"

record 'd item_info =
  iiID :: uuid
  iiName :: string
  iiBaseUnit :: string
  iiCategoryName :: string
  iiServiceLevel :: int
  iiManualMinQty :: "'d qty"
  iiSupplierName :: string
  iiSupplier :: "uuid option"
  iiPurchaseUnit :: string
  iiUnitFactor :: "'d qty"

text \<open>Without a stored status the explanation is the zero value of the struct, here \<open>None\<close>.\<close>

record 'd status_info =
  siCode :: status
  siOnHand :: "'d qty"
  siOnOrder :: "'d qty"
  siStockoutDate :: "day option"
  siOrderBy :: "instant option"
  siRecommendedQty :: "'d qty"
  siPurchaseQty :: "'d qty option"
  siTargetLevel :: "'d qty"
  siSafetyStock :: "'d qty"
  siExplanation :: "'d explanation option"

record accuracy_info =
  acModel :: model
  acAccuracy :: f64
  acWAPE :: f64
  acBias :: f64
  acSigma :: f64
  acWindowDays :: int
  acDaysWithData :: int

record 'd history_point =
  hpDay :: day
  hpQty :: "'d qty"
  hpHasData :: bool
  hpStockout :: bool

record 'd forecast_point =
  fpDay :: day
  fpQty :: "'d qty"
  fpLower :: "'d qty"
  fpUpper :: "'d qty"

record 'd projection_point =
  ppDay :: day
  ppOnHand :: "'d qty"
  ppIncoming :: "'d qty"

record 'd incoming_delivery =
  inDay :: day
  inQty :: "'d qty"

record 'd insights =
  isgToday :: day
  isgItem :: "'d item_info"
  isgStatus :: "'d status_info"
  isgAccuracy :: accuracy_info
  isgHistory :: "'d history_point list"
  isgForecast :: "'d forecast_point list"
  isgProjection :: "'d projection_point list"
  isgIncoming :: "'d incoming_delivery list"

definition item_info_of :: "'d decimal_lib \<Rightarrow> 'd insights_row \<Rightarrow> 'd item_info" where
  "item_info_of D r = \<lparr>iiID = irwItem r, iiName = irwItemName r, iiBaseUnit = irwBaseUnit r,
     iiCategoryName = or_else [] id (irwCategoryName r), iiServiceLevel = irwServiceLevel r,
     iiManualMinQty = pg_Qty D (irwManualMinQty r), iiSupplierName = or_else [] id (irwSupplierName r),
     iiSupplier = irwSupplier r, iiPurchaseUnit = irwPurchaseUnit r, iiUnitFactor = pg_Qty D (irwUnitFactor r)\<rparr>"

definition status_info_of :: "'d decimal_lib \<Rightarrow> 'd insights_row \<Rightarrow> 'd status_info option" where
  "status_info_of D r = map_option (\<lambda>packs. \<lparr>siCode = irwStatus r, siOnHand = pg_Qty D (irwOnHand r),
       siOnOrder = pg_Qty D (irwOnOrder r), siStockoutDate = irwStockoutDate r, siOrderBy = irwOrderBy r,
       siRecommendedQty = pg_Qty D (irwRecommendedQty r), siPurchaseQty = packs, siTargetLevel = pg_Qty D (irwTargetLevel r),
       siSafetyStock = pg_Qty D (irwSafetyStock r), siExplanation = irwExplanation r\<rparr>)
     (dash_inPurchaseUnits D (pg_Qty D (irwRecommendedQty r)) (pg_Qty D (irwUnitFactor r)) (irwPurchaseUnit r))"

definition accuracy_info_of :: "'d insights_row \<Rightarrow> accuracy_info" where
  "accuracy_info_of r = \<lparr>acModel = or_else ModelM0 id (irwForecastModel r), acAccuracy = shown_accuracy (irwWape r),
     acWAPE = irwWape r, acBias = irwBias r, acSigma = irwSigma r, acWindowDays = int BacktestDays,
     acDaysWithData = irwDaysWithData r\<rparr>"

definition history_point_of :: "'d decimal_lib \<Rightarrow> daily_row \<Rightarrow> 'd history_point" where
  "history_point_of D h = \<lparr>hpDay = dc_day h, hpQty = pg_Qty D (dc_qty h), hpHasData = dc_has_data h, hpStockout = dc_stockout h\<rparr>"

definition forecast_point_of :: "'d decimal_lib \<Rightarrow> 'd qty \<Rightarrow> forecast_row \<Rightarrow> 'd forecast_point" where
  "forecast_point_of D band f = (let v = pg_Qty D (fc_qty f) in
     \<lparr>fpDay = fc_day f, fpQty = v, fpLower = qClampZero D (qSub D v band), fpUpper = qAdd D v band\<rparr>)"

text \<open>Orders without a day of delivery are passed over.\<close>

definition incoming_of :: "'d decimal_lib \<Rightarrow> (day option \<times> rat) list \<Rightarrow> 'd incoming_delivery list" where
  "incoming_of D rows = concat (map (\<lambda>(e, q). case e of None \<Rightarrow> [] | Some d \<Rightarrow> [\<lparr>inDay = d, inQty = pg_Qty D q\<rparr>]) rows)"

text \<open>The map \<open>byDay\<close> of \<open>project\<close>, read at a day: a missing key is zero.\<close>

fun arrived_on :: "'d decimal_lib \<Rightarrow> 'd incoming_delivery list \<Rightarrow> (day \<Rightarrow> 'd qty) \<Rightarrow> day \<Rightarrow> 'd qty" where
  "arrived_on D [] byDay = byDay"
| "arrived_on D (x # xs) byDay = arrived_on D xs (byDay(inDay x := qAdd D (byDay (inDay x)) (inQty x)))"

fun project_from :: "'d decimal_lib \<Rightarrow> (day \<Rightarrow> 'd qty) \<Rightarrow> 'd qty \<Rightarrow> 'd forecast_point list \<Rightarrow> 'd projection_point list" where
  "project_from D byDay balance [] = []"
| "project_from D byDay balance (p # ps) = (let arrived = byDay (fpDay p); b = qSub D (qAdd D balance arrived) (fpQty p) in
     \<lparr>ppDay = fpDay p, ppOnHand = b, ppIncoming = arrived\<rparr> # project_from D byDay b ps)"

definition project :: "'d decimal_lib \<Rightarrow> 'd qty \<Rightarrow> 'd forecast_point list \<Rightarrow> 'd incoming_delivery list \<Rightarrow> 'd projection_point list" where
  "project D onHand points incoming = project_from D (arrived_on D incoming (\<lambda>_. qZero D)) onHand points"

definition loadInsightsTx :: "'d decimal_lib \<Rightarrow> clock \<Rightarrow> instant \<Rightarrow> tenant \<Rightarrow> uuid \<Rightarrow> ('d db, dashboard_error, 'd insights) tx" where
  "loadInsightsTx D cl w t iid = (let tid = tenantID t; today = Today t cl w in
     tx_bind (tx_get (ItemInsights tid iid)) (\<lambda>found.
     tx_bind (tx_of_sum (from_opt DashNotFound found)) (\<lambda>row.
     tx_bind (tx_of_sum (from_opt DashPanicked (status_info_of D row))) (\<lambda>status.
     tx_bind (tx_get (ItemHistory tid iid (pg_Date (AddDays today (- dashboard_HistoryDays))))) (\<lambda>history.
     tx_bind (tx_get (ListForecastForItem tid iid (pg_Date today))) (\<lambda>frows.
     tx_bind (tx_of_sum (from_opt DashPanicked
       (qMulFloat D (qFromInt D 1) (fmul (ZFactor (irwServiceLevel row)) (irwSigma row))))) (\<lambda>band.
     let points = map (forecast_point_of D band) frows in
     tx_bind (tx_get (ListIncomingForItem tid iid)) (\<lambda>irows.
     let incoming = incoming_of D irows in
     tx_return \<lparr>isgToday = today, isgItem = item_info_of D row, isgStatus = status, isgAccuracy = accuracy_info_of row,
       isgHistory = map (history_point_of D) history, isgForecast = points,
       isgProjection = project D (siOnHand status) points incoming, isgIncoming = incoming\<rparr>))))))))"

definition LoadInsights :: "'d decimal_lib \<Rightarrow> clock \<Rightarrow> instant \<Rightarrow> tenant \<Rightarrow> uuid \<Rightarrow> 'd db \<Rightarrow> (dashboard_error + 'd insights) \<times> 'd db" where
  "LoadInsights D cl w t iid = InTenantTx (loadInsightsTx D cl w t iid)"

section \<open>The screen shows every item\<close>

text \<open>The keys of the tables that are joined; a balance is unique where a tenant has one warehouse.\<close>

definition join_keys :: "uuid \<Rightarrow> 'd db \<Rightarrow> bool" where
  "join_keys tid st \<longleftrightarrow> distinct (map ca_id (visible tid ca_tenant (categories st)))
     \<and> distinct (map ba_item (visible tid ba_tenant (balances st)))
     \<and> distinct (map is_item (visible tid is_tenant (item_status st)))
     \<and> distinct (map su_id (visible tid su_tenant (suppliers st)))
     \<and> distinct (map (\<lambda>x. (si_item x, si_supplier x)) (visible tid si_tenant (supplier_items st)))
     \<and> distinct (map fm_item (visible tid fm_tenant (forecast_metrics st)))"

lemma left_join_one:
  assumes "distinct (map key xs)" and "\<And>x. P x \<Longrightarrow> key x = k"
  shows "\<exists>y. left_join (filter P xs) = [y]"
proof -
  have "length (filter P xs) \<le> 1"
    using assms
  proof (induction xs)
    case (Cons x xs)
    have "filter P xs = []" if p: "P x"
    proof -
      have "\<not> P y" if "y \<in> set xs" for y
      proof
        assume "P y"
        then have "key y = key x" using Cons.prems(2) p by simp
        then show False using Cons.prems(1) imageI[OF that, of key] by simp
      qed
      then show ?thesis by (simp add: filter_empty_conv)
    qed
    then show ?case using Cons by (cases "P x") simp_all
  qed simp
  then show ?thesis by (cases "filter P xs") (auto simp: left_join_def)
qed

lemma item_joins_one:
  assumes "join_keys tid st"
  shows "\<exists>c b r s si fm. item_joins tid st f i = [f i c b r s si fm]"
proof -
  note k = assms[unfolded join_keys_def]
  have "\<exists>c. left_join (filter (\<lambda>c. it_category i = Some (ca_id c)) (visible tid ca_tenant (categories st))) = [c]"
    by (rule left_join_one[where key = ca_id and k = "the (it_category i)"]) (use k in auto)
  moreover have "\<exists>b. left_join (filter (\<lambda>b. ba_item b = it_id i) (visible tid ba_tenant (balances st))) = [b]"
    by (rule left_join_one[where key = ba_item and k = "it_id i"]) (use k in auto)
  moreover have "\<exists>r. left_join (filter (\<lambda>r. is_item r = it_id i) (visible tid is_tenant (item_status st))) = [r]"
    by (rule left_join_one[where key = is_item and k = "it_id i"]) (use k in auto)
  moreover have "\<exists>s. left_join (filter (\<lambda>s. it_default_supplier i = Some (su_id s)) (visible tid su_tenant (suppliers st))) = [s]"
    by (rule left_join_one[where key = su_id and k = "the (it_default_supplier i)"]) (use k in auto)
  moreover have "\<exists>si. left_join (filter (\<lambda>x. si_item x = it_id i \<and> it_default_supplier i = Some (si_supplier x))
      (visible tid si_tenant (supplier_items st))) = [si]"
    by (rule left_join_one[where key = "\<lambda>x. (si_item x, si_supplier x)" and k = "(it_id i, the (it_default_supplier i))"]) (use k in auto)
  moreover have "\<exists>fm. left_join (filter (\<lambda>x. fm_item x = it_id i) (visible tid fm_tenant (forecast_metrics st))) = [fm]"
    by (rule left_join_one[where key = fm_item and k = "it_id i"]) (use k in auto)
  ultimately obtain c b r s si fm where
    "left_join (filter (\<lambda>c. it_category i = Some (ca_id c)) (visible tid ca_tenant (categories st))) = [c]"
    "left_join (filter (\<lambda>b. ba_item b = it_id i) (visible tid ba_tenant (balances st))) = [b]"
    "left_join (filter (\<lambda>r. is_item r = it_id i) (visible tid is_tenant (item_status st))) = [r]"
    "left_join (filter (\<lambda>s. it_default_supplier i = Some (su_id s)) (visible tid su_tenant (suppliers st))) = [s]"
    "left_join (filter (\<lambda>x. si_item x = it_id i \<and> it_default_supplier i = Some (si_supplier x)) (visible tid si_tenant (supplier_items st))) = [si]"
    "left_join (filter (\<lambda>x. fm_item x = it_id i) (visible tid fm_tenant (forecast_metrics st))) = [fm]" by metis
  then have "item_joins tid st f i = [f i c b r s si fm]" by (simp add: item_joins_def)
  then show ?thesis by blast
qed

definition active_items :: "uuid \<Rightarrow> 'd db \<Rightarrow> item_row list" where
  "active_items tid st = filter (\<lambda>i. it_archived_at i = None) (visible tid it_tenant (items st))"

lemma Dashboard_items:
  assumes "join_keys tid st"
  shows "mset (map dbItem (Dashboard tid st)) = mset (map it_id (active_items tid st))"
proof -
  have one: "map dbItem (item_joins tid st dashboard_row_of i) = [it_id i]" for i
    using item_joins_one[OF assms, of dashboard_row_of i] by (auto simp: dashboard_row_of_def)
  have "map dbItem (concat (map (item_joins tid st dashboard_row_of) is)) = map it_id is" for "is"
    by (induction "is") (simp_all add: one)
  then have "mset (map dbItem (concat (map (item_joins tid st dashboard_row_of) (active_items tid st)))) = mset (map it_id (active_items tid st))"
    by simp
  then show ?thesis unfolding Dashboard_def active_items_def[symmetric] mset_map mset_sort .
qed

lemma in_packs_total:
  assumes "decimal_api D"
  shows "\<exists>p. dash_inPurchaseUnits D b f u = Some p"
  using decimal_api.rat_div[OF assms, of "qdec f" "qdec b"]
  by (auto simp: dash_inPurchaseUnits_def decimal_api.qtest_ops[OF assms] qval_def)

lemma view_row_total:
  assumes "decimal_api D"
  obtains v where "view_row_of D r = Some v" and "vrItem v = dbItem r" and "vrStatus v = dbStatus r"
    and "vrOnHand v = pg_Qty D (dbOnHand r)" and "vrRecommendedQty v = pg_Qty D (dbRecommendedQty r)"
proof -
  let ?packs = "if qIsPositive D (pg_Qty D (dbRecommendedQty r))
      then dash_inPurchaseUnits D (pg_Qty D (dbRecommendedQty r)) (pg_Qty D (dbUnitFactor r)) (dbPurchaseUnit r) else Some None"
  have "\<exists>p. ?packs = Some p" using in_packs_total[OF assms] by simp
  then obtain p where "?packs = Some p" by blast
  then have "\<exists>v. view_row_of D r = Some v" unfolding view_row_of_def Let_def by (simp del: if_split)
  then obtain v where v: "view_row_of D r = Some v" by blast
  then show thesis by (rule that) (use v in \<open>auto simp: view_row_of_def Let_def\<close>)
qed

definition with_status :: "status \<Rightarrow> 'd view_row list \<Rightarrow> int" where
  "with_status s vs = int (length (filter (\<lambda>v. vrStatus v = s) vs))"

definition counted_from :: "'d view_row list \<Rightarrow> counters \<Rightarrow> counters \<Rightarrow> bool" where
  "counted_from vs c c' \<longleftrightarrow> cnOutOfStock c' = cnOutOfStock c + with_status StatusOutOfStock vs
     \<and> cnCritical c' = cnCritical c + with_status StatusCritical vs
     \<and> cnOrderToday c' = cnOrderToday c + with_status StatusOrderToday vs
     \<and> cnNoForecast c' = cnNoForecast c + with_status StatusNoForecast vs
     \<and> cnOutOfStock c' + cnCritical c' + cnOrderToday c' + cnOK c' + cnNoForecast c'
       = cnOutOfStock c + cnCritical c + cnOrderToday c + cnOK c + cnNoForecast c + int (length vs)"

lemmas statuses = StatusOutOfStock_def StatusCritical_def StatusOrderToday_def StatusNoForecast_def

lemma load_rows_total:
  assumes "decimal_api D"
  shows "\<exists>vs c'. load_rows D c rows = Some (vs, c') \<and> list_all2 (\<lambda>r v. view_row_of D r = Some v \<and> vrItem v = dbItem r) rows vs
    \<and> counted_from vs c c'"
proof (induction rows arbitrary: c)
  case Nil
  then show ?case by (simp add: counted_from_def with_status_def)
next
  case (Cons r rows)
  obtain v where v: "view_row_of D r = Some v" "vrItem v = dbItem r" by (rule view_row_total[OF assms])
  obtain vs c' where "load_rows D (countStatus (vrStatus v) c) rows = Some (vs, c')"
    "list_all2 (\<lambda>r v. view_row_of D r = Some v \<and> vrItem v = dbItem r) rows vs" "counted_from vs (countStatus (vrStatus v) c) c'"
    using Cons by blast
  moreover from this(3) have "counted_from (v # vs) c c'"
    by (auto simp: counted_from_def with_status_def countStatus_def statuses)
  ultimately show ?case using v by (intro exI[of _ "v # vs"] exI[of _ c']) simp
qed

section \<open>The suggestions by supplier\<close>

definition grouped :: "'d decimal_lib \<Rightarrow> suggestion_row list \<Rightarrow> 'd supplier_suggestion list \<Rightarrow> bool" where
  "grouped D rows out \<longleftrightarrow> distinct (map ssgSupplier out) \<and> set (map ssgSupplier out) = set (map sgSupplier rows)
     \<and> (\<forall>g \<in> set out. map Some (ssgLines g) = map (suggestion_line_of D) (filter (\<lambda>r. sgSupplier r = ssgSupplier g) rows))"

lemma add_suggestion_grouped:
  assumes "grouped D rows out" and "suggestion_line_of D r = Some l"
  shows "grouped D (rows @ [r]) (add_suggestion r l out)"
proof -
  have d: "distinct (map ssgSupplier out)" and s: "set (map ssgSupplier out) = set (map sgSupplier rows)"
    and g: "\<And>g. g \<in> set out \<Longrightarrow> map Some (ssgLines g) = map (suggestion_line_of D) (filter (\<lambda>r. sgSupplier r = ssgSupplier g) rows)"
    using assms(1) by (simp_all add: grouped_def)
  have ex: "list_ex (\<lambda>g. ssgSupplier g = sgSupplier r) out \<longleftrightarrow> sgSupplier r \<in> set (map ssgSupplier out)"
    unfolding list_ex_iff set_map image_iff by metis
  show ?thesis
  proof (cases "sgSupplier r \<in> set (map ssgSupplier out)")
    case True
    let ?f = "\<lambda>g. if ssgSupplier g = sgSupplier r then g\<lparr>ssgLines := ssgLines g @ [l]\<rparr> else g"
    have out: "add_suggestion r l out = map ?f out" using True by (simp only: add_suggestion_def ex if_True)
    have ids: "map ssgSupplier (map ?f out) = map ssgSupplier out" by (simp add: comp_def)
    have "map Some (ssgLines (?f y)) = map (suggestion_line_of D) (filter (\<lambda>x. sgSupplier x = ssgSupplier (?f y)) (rows @ [r]))"
      if "y \<in> set out" for y using g[OF that] assms(2) by simp
    then have "\<forall>x \<in> set (map ?f out). map Some (ssgLines x) = map (suggestion_line_of D) (filter (\<lambda>y. sgSupplier y = ssgSupplier x) (rows @ [r]))"
      unfolding set_map by blast
    moreover have "set (map sgSupplier (rows @ [r])) = set (map ssgSupplier out)" using True unfolding s by auto
    ultimately show ?thesis unfolding grouped_def out ids using d by blast
  next
    case False
    let ?new = "\<lparr>ssgSupplier = sgSupplier r, ssgSupplierName = sgSupplierName r, ssgContact = sgContact r,
       ssgOrderBy = ClockTime (sgOrderCutoff r), ssgLines = [l]\<rparr>"
    have out: "add_suggestion r l out = out @ [?new]" using False by (simp only: add_suggestion_def ex if_False)
    have none: "filter (\<lambda>y. sgSupplier y = sgSupplier r) rows = []" using False unfolding s by (simp add: filter_empty_conv image_iff) metis
    have "map Some (ssgLines x) = map (suggestion_line_of D) (filter (\<lambda>y. sgSupplier y = ssgSupplier x) (rows @ [r]))"
      if "x \<in> set out" for x
    proof -
      have "sgSupplier r \<noteq> ssgSupplier x" using False that by auto
      then show ?thesis using g[OF that] by simp
    qed
    then show ?thesis using d False s none assms(2) by (simp add: grouped_def out)
  qed
qed

lemma group_from_grouped:
  assumes "decimal_api D" and "grouped D done_rows out"
  shows "\<exists>out'. group_from D out rows = Some out' \<and> grouped D (done_rows @ rows) out'"
  using assms(2)
proof (induction rows arbitrary: done_rows out)
  case (Cons r rows)
  obtain l where l: "suggestion_line_of D r = Some l"
    using in_packs_total[OF assms(1)] by (fastforce simp: suggestion_line_of_def Let_def)
  from Cons.IH[OF add_suggestion_grouped[OF Cons.prems l]] show ?case by (simp add: l)
qed simp

lemma groupSuggestions_grouped:
  assumes "decimal_api D"
  shows "\<exists>out. groupSuggestions D rows = Some out \<and> grouped D rows out"
  using group_from_grouped[OF assms, of "[]" "[]" rows] by (simp add: groupSuggestions_def grouped_def)

text \<open>(C32) The main screen shows every item that is not archived exactly once and nothing else, the counters count the
  items by status and add up to the total, and every recommendation stands once, in the block of its supplier, in
  order; each supplier has one block. Loading the screen never fails and changes nothing.\<close>
theorem Load_shows:
  assumes "decimal_api D" and "join_keys (tenantID t) st"
  shows "\<exists>v. Load D cl w t st = (Inr v, st) \<and> mset (map vrItem (vwItems v)) = mset (map it_id (active_items (tenantID t) st))
     \<and> cnOutOfStock (vwCounters v) = with_status StatusOutOfStock (vwItems v)
     \<and> cnCritical (vwCounters v) = with_status StatusCritical (vwItems v)
     \<and> cnOrderToday (vwCounters v) = with_status StatusOrderToday (vwItems v)
     \<and> cnNoForecast (vwCounters v) = with_status StatusNoForecast (vwItems v)
     \<and> cnOutOfStock (vwCounters v) + cnCritical (vwCounters v) + cnOrderToday (vwCounters v) + cnOK (vwCounters v)
         + cnNoForecast (vwCounters v) = cnTotal (vwCounters v)
     \<and> cnTotal (vwCounters v) = int (length (vwItems v))
     \<and> grouped D (Suggestions (tenantID t) st) (vwSuggestions v)"
proof -
  let ?tid = "tenantID t"
  obtain vs c where l: "load_rows D no_counters (Dashboard ?tid st) = Some (vs, c)"
    and all: "list_all2 (\<lambda>r v. view_row_of D r = Some v \<and> vrItem v = dbItem r) (Dashboard ?tid st) vs"
    and cn: "counted_from vs no_counters c" using load_rows_total[OF assms(1)] by blast
  obtain groups where g: "groupSuggestions D (Suggestions ?tid st) = Some groups" "grouped D (Suggestions ?tid st) groups"
    using groupSuggestions_grouped[OF assms(1)] by blast
  have "map vrItem vs = map dbItem (Dashboard ?tid st)"
    using all by (induction rule: list_all2_induct) simp_all
  then have "mset (map vrItem vs) = mset (map it_id (active_items ?tid st))" using Dashboard_items[OF assms(2)] by metis
  then show ?thesis using l g cn by (auto simp: Load_def InTenantTx_def tx_bind_def counted_from_def no_counters_def)
qed

section \<open>The projection\<close>

lemma arrived_on_val:
  assumes "decimal_api D"
  shows "qval D (arrived_on D xs byDay d) = qval D (byDay d) + sum_list (map (\<lambda>x. qval D (inQty x)) (filter (\<lambda>x. inDay x = d) xs))"
  by (induction xs arbitrary: byDay) (auto simp: decimal_api.qval_ops[OF assms])

lemma project_from_val:
  assumes "decimal_api D" and "k < length ps"
  shows "qval D (ppOnHand (project_from D byDay b ps ! k))
    = qval D b + (\<Sum>p \<leftarrow> take (Suc k) ps. qval D (byDay (fpDay p)) - qval D (fpQty p))"
  using assms(2)
proof (induction ps arbitrary: b k)
  case (Cons p ps)
  then show ?case by (cases k) (simp_all add: Let_def decimal_api.qval_ops[OF assms(1)])
qed simp

lemma project_from_days [simp]: "map ppDay (project_from D byDay b ps) = map fpDay ps" "length (project_from D byDay b ps) = length ps"
  by (induction ps arbitrary: b) (simp_all add: Let_def)

lemma ItemInsights_item:
  assumes "ItemInsights tid iid st = Some row"
  shows "irwItem row = iid" and "\<exists>i \<in> set (visible tid it_tenant (items st)). it_id i = iid"
proof -
  let ?rows = "concat (map (item_joins tid st insights_row_of) (filter (\<lambda>i. it_id i = iid) (visible tid it_tenant (items st))))"
  obtain xs where r: "?rows = row # xs" using assms unfolding ItemInsights_def by (cases ?rows) simp_all
  have "row \<in> set ?rows" unfolding r by simp
  then obtain i where i: "i \<in> set (visible tid it_tenant (items st))" "it_id i = iid" "row \<in> set (item_joins tid st insights_row_of i)"
    by auto
  then show "irwItem row = iid" by (auto simp: item_joins_def insights_row_of_def)
  show "\<exists>i \<in> set (visible tid it_tenant (items st)). it_id i = iid" using i by blast
qed

text \<open>The card of an item: the projected balance of a day is the balance plus what arrives and less what is forecast
  from today up to that day; the band of the forecast never goes below zero and is symmetric above it; deliveries
  without a day take no part. Loading the card changes nothing and finds the items of the tenant only.\<close>
theorem LoadInsights_projects:
  assumes "decimal_api D" and "LoadInsights D cl w t iid st = (Inr ins, st')" and "k < length (isgForecast ins)"
  shows "st' = st \<and> iiID (isgItem ins) = iid \<and> (\<exists>i \<in> set (visible (tenantID t) it_tenant (items st)). it_id i = iid)
     \<and> map ppDay (isgProjection ins) = map fpDay (isgForecast ins)
     \<and> qval D (ppOnHand (isgProjection ins ! k)) = qval D (siOnHand (isgStatus ins))
         + (\<Sum>p \<leftarrow> take (Suc k) (isgForecast ins).
             (\<Sum>x \<leftarrow> filter (\<lambda>x. inDay x = fpDay p) (isgIncoming ins). qval D (inQty x)) - qval D (fpQty p))
     \<and> (\<exists>band. \<forall>p \<in> set (isgForecast ins). qval D (fpUpper p) = qval D (fpQty p) + band
          \<and> qval D (fpLower p) = max 0 (qval D (fpQty p) - band))"
proof -
  obtain row status band where st': "st' = st" and row: "ItemInsights (tenantID t) iid st = Some row"
    and s: "isgStatus ins = status"
    and f: "isgForecast ins = map (forecast_point_of D band) (ListForecastForItem (tenantID t) iid (pg_Date (Today t cl w)) st)"
    and p: "isgProjection ins = project D (siOnHand status) (isgForecast ins) (isgIncoming ins)"
    and i: "isgItem ins = item_info_of D row"
    using assms(2) by (auto simp: LoadInsights_def InTenantTx_Inr loadInsightsTx_def Let_def from_opt_def simp del: map_eq_conv split: option.splits)
  have "qval D (ppOnHand (isgProjection ins ! k)) = qval D (siOnHand (isgStatus ins))
         + (\<Sum>p \<leftarrow> take (Suc k) (isgForecast ins).
             (\<Sum>x \<leftarrow> filter (\<lambda>x. inDay x = fpDay p) (isgIncoming ins). qval D (inQty x)) - qval D (fpQty p))"
    unfolding p project_def s project_from_val[OF assms(1,3)]
    by (simp add: arrived_on_val[OF assms(1)] decimal_api.qval_ops[OF assms(1)])
  moreover have "\<forall>p \<in> set (isgForecast ins). qval D (fpUpper p) = qval D (fpQty p) + qval D band
      \<and> qval D (fpLower p) = max 0 (qval D (fpQty p) - qval D band)"
    by (auto simp: f forecast_point_of_def Let_def decimal_api.qval_ops[OF assms(1)])
  ultimately show ?thesis
    using st' ItemInsights_item[OF row] p by (auto simp: i item_info_of_def project_def)
qed

section \<open>A sample card\<close>

definition sample_card :: "dec db" where
  "sample_card = sample_db\<lparr>
     balances := [\<lparr>ba_tenant = 1, ba_warehouse = 20, ba_item = 10, ba_on_hand = 5, ba_updated_at = 0\<rparr>],
     forecasts := [\<lparr>fc_tenant = 1, fc_item = 10, fc_day = Day 2030 1 2, fc_qty = 2, fc_model = ModelM1, fc_computed_at = 0\<rparr>]\<rparr>"

lemma sample_card_run:
  obtains ins st' where "LoadInsights dec_lib (Fixed 0) 0 sample_tenant 10 sample_card = (Inr ins, st')"
    and "length (isgForecast ins) = 1"
proof -
  let ?bal = "\<lparr>ba_tenant = 1, ba_warehouse = 20, ba_item = 10, ba_on_hand = 5, ba_updated_at = 0\<rparr>"
  let ?row = "insights_row_of sample_item None (Some ?bal) None None None None :: dec insights_row"
  have row: "ItemInsights 1 10 sample_card = Some ?row"
    by (simp add: ItemInsights_def item_joins_def left_join_def visible_def sample_card_def sample_db_def sample_item_def)
  have two: "is_double 2" and zero: "is_double 0" using is_double_exp2r[of 1] by (simp_all add: exp2r_def)
  have "ZFactor 95 = Fin (rnd (165 / 100))" using pack_bounded(1)[OF _ two, of "165 / 100"] by (simp add: ZFactor_def)
  then have z: "fmul (ZFactor (irwServiceLevel ?row)) (irwSigma ?row) = Fin 0"
    using zero by (simp add: insights_row_of_def sample_item_def or_else_def)
  obtain band where band: "qMulFloat dec_lib (qFromInt dec_lib 1) (fmul (ZFactor (irwServiceLevel ?row)) (irwSigma ?row)) = Some band"
    unfolding z using decimal_api.qMulFloat_Some[OF sample_ok(1) zero] by blast
  obtain status where status: "status_info_of dec_lib ?row = Some status"
    using in_packs_total[OF sample_ok(1)] by (fastforce simp: status_info_of_def)
  have fc: "length (ListForecastForItem 1 10 (pg_Date (Today sample_tenant (Fixed 0) 0)) sample_card) = 1" by code_simp
  have t: "tenantID sample_tenant = 1" by (simp add: sample_tenant_def)
  have "\<exists>ins. loadInsightsTx dec_lib (Fixed 0) 0 sample_tenant 10 sample_card = Inr (ins, sample_card)
      \<and> length (isgForecast ins) = 1"
    unfolding loadInsightsTx_def Let_def tx_bind_def t using fc
    by (simp add: row status band tx_get_def tx_of_sum_def from_opt_def tx_return_def del: One_nat_def)
  then show thesis using that by (auto simp: LoadInsights_def InTenantTx_def)
qed

theorem LoadInsights_projects_witness:
  "\<exists>ins. LoadInsights dec_lib (Fixed 0) 0 sample_tenant 10 sample_card = (Inr ins, sample_card)
     \<and> length (isgProjection ins) = 1 \<and> map ppDay (isgProjection ins) = map fpDay (isgForecast ins)"
proof -
  obtain ins st' where r: "LoadInsights dec_lib (Fixed 0) 0 sample_tenant 10 sample_card = (Inr ins, st')"
    "length (isgForecast ins) = 1" by (rule sample_card_run)
  from LoadInsights_projects[OF sample_ok(1) r(1), of 0] r(2)
  have "st' = sample_card" and m: "map ppDay (isgProjection ins) = map fpDay (isgForecast ins)" by auto
  moreover have "length (isgProjection ins) = 1" using arg_cong[OF m, of length] r(2) by simp
  ultimately show ?thesis using r(1) by blast
qed

theorem Load_shows_witness:
  "\<exists>v. Load dec_lib (Fixed 0) 0 sample_tenant sample_card = (Inr v, sample_card) \<and> map vrItem (vwItems v) = [10]
     \<and> cnTotal (vwCounters v) = 1"
proof -
  have "join_keys (tenantID sample_tenant) sample_card"
    by (simp add: join_keys_def sample_card_def sample_db_def sample_tenant_def visible_def)
  from Load_shows[OF sample_ok(1) this, of "Fixed 0" 0]
  obtain v where v: "Load dec_lib (Fixed 0) 0 sample_tenant sample_card = (Inr v, sample_card)"
    "mset (map vrItem (vwItems v)) = mset (map it_id (active_items (tenantID sample_tenant) sample_card))"
    "cnTotal (vwCounters v) = int (length (vwItems v))" by blast
  have "active_items (tenantID sample_tenant) sample_card = [sample_item]"
    by (simp add: active_items_def sample_card_def sample_db_def sample_tenant_def sample_item_def visible_def)
  then have "mset (map vrItem (vwItems v)) = {#10#}" using v(2) by (simp add: sample_item_def)
  then have "map vrItem (vwItems v) = [10]" by (cases "map vrItem (vwItems v)") (auto simp del: mset_map)
  then show ?thesis using v(1,3) by auto
qed

end
