(* ===== verification/Import_Correct.thy ===== *)
theory Import_Correct
  imports Catalog_Correct
begin

text \<open>
  What an import of the rows of a file writes: the categories and suppliers they name, one item and one opening
  balance each.
\<close>

section \<open>Names of categories and suppliers\<close>

definition category_names_ok :: "text_lib \<Rightarrow> uuid \<Rightarrow> (string \<rightharpoonup> uuid) \<Rightarrow> 'd db \<Rightarrow> bool" where
  "category_names_ok T tid m st \<longleftrightarrow> (\<forall>k i. m k = Some i \<longrightarrow> (\<exists>c \<in> set (categories st).
     ca_tenant c = tid \<and> ca_id c = i \<and> tlToLower T (ca_name c) = k))"

definition supplier_names_ok :: "text_lib \<Rightarrow> uuid \<Rightarrow> (string \<rightharpoonup> uuid) \<Rightarrow> 'd db \<Rightarrow> bool" where
  "supplier_names_ok T tid m st \<longleftrightarrow> (\<forall>k i. m k = Some i \<longrightarrow> (\<exists>s \<in> set (suppliers st).
     su_tenant s = tid \<and> su_id s = i \<and> tlToLower T (su_name s) = k))"

lemma map_of_rev_in: "map_of (rev (map (\<lambda>x. (f x, g x)) xs)) k = Some v \<Longrightarrow> \<exists>x \<in> set xs. f x = k \<and> g x = v"
  by (drule map_of_SomeD) auto

lemma category_names_listed: "category_names_ok T tid (category_names T (ListCategories tid st)) st"
  by (auto simp: category_names_ok_def category_names_def ListCategories_def visible_def dest!: map_of_rev_in)

lemma supplier_names_listed: "supplier_names_ok T tid (supplier_names T (ListSuppliers_q tid True st)) st"
  by (auto simp: supplier_names_ok_def supplier_names_def ListSuppliers_q_def visible_def dest!: map_of_rev_in)

text \<open>What stays when the names are resolved: everything an item needs.\<close>

definition keeps_items :: "'d db \<Rightarrow> 'd db \<Rightarrow> bool" where
  "keeps_items st st' \<longleftrightarrow> items st' = items st \<and> balances st' = balances st \<and> movements st' = movements st
     \<and> warehouses st' = warehouses st \<and> set (categories st) \<subseteq> set (categories st') \<and> set (suppliers st) \<subseteq> set (suppliers st')"

lemma keeps_items_refl [simp]: "keeps_items st st"
  and keeps_items_trans: "keeps_items a b \<Longrightarrow> keeps_items b c \<Longrightarrow> keeps_items a c"
  by (auto simp: keeps_items_def)

lemma map_le_Some: "m \<subseteq>\<^sub>m m' \<Longrightarrow> m k = Some v \<Longrightarrow> m' k = Some v"
  unfolding map_le_def by (metis domI)

lemma add_categories_Inr:
  assumes "add_categories T w tid rows (m, n) st = Inr ((m', n'), st')" and "category_names_ok T tid m st"
  shows "category_names_ok T tid m' st' \<and> keeps_items st st' \<and> suppliers st' = suppliers st \<and> m \<subseteq>\<^sub>m m'
    \<and> (\<forall>row \<in> set rows. irCategory row \<noteq> [] \<longrightarrow> m' (tlToLower T (irCategory row)) \<noteq> None)"
  using assms
proof (induction rows arbitrary: m n st)
  case (Cons row rows)
  let ?key = "tlToLower T (irCategory row)"
  show ?case
  proof (cases "irCategory row = [] \<or> m ?key \<noteq> None")
    case True
    with Cons.prems have "add_categories T w tid rows (m, n) st = Inr ((m', n'), st')" by (simp add: Let_def)
    from Cons.IH[OF this Cons.prems(2)] True show ?thesis by (fastforce simp: map_le_def dom_def)
  next
    case False
    let ?st0 = "st\<lparr>uuid_supply := Suc (uuid_supply st)\<rparr>"
    obtain c st1 where c: "CreateCategory_q T w (uuid_supply st) tid (irCategory row) ?st0 = Inr (c, st1)"
      and rest: "add_categories T w tid rows (m(?key \<mapsto> ca_id c), n + 1) st1 = Inr ((m', n'), st')"
      using Cons.prems(1) False by (auto simp: Let_def new_uuid_def catdb_def)
    note C = CreateCategory_q_Inr(3-6)[OF c]
    have "category_names_ok T tid (m(?key \<mapsto> ca_id c)) st1"
      using Cons.prems(2) C by (auto simp: category_names_ok_def)
    note IH = Cons.IH[OF rest this]
    have "keeps_items st st1" "suppliers st1 = suppliers st" using C(1) by (auto simp: keeps_items_def)
    moreover have "m \<subseteq>\<^sub>m m(?key \<mapsto> ca_id c)" using False by (auto simp: map_le_def)
    moreover have "m' ?key = Some (ca_id c)" by (rule map_le_Some[of "m(?key \<mapsto> ca_id c)"]) (use IH in blast, simp)
    moreover from calculation(3) have "m \<subseteq>\<^sub>m m'" by (rule map_le_trans) (use IH in blast)
    ultimately show ?thesis using IH by (auto intro: keeps_items_trans)
  qed
qed (simp_all)

lemma add_suppliers_Inr:
  assumes "add_suppliers T w tid rows (m, n) st = Inr ((m', n'), st')" and "supplier_names_ok T tid m st"
  shows "supplier_names_ok T tid m' st' \<and> keeps_items st st' \<and> categories st' = categories st \<and> m \<subseteq>\<^sub>m m'
    \<and> (\<forall>row \<in> set rows. irSupplier row \<noteq> [] \<longrightarrow> m' (tlToLower T (irSupplier row)) \<noteq> None)"
  using assms
proof (induction rows arbitrary: m n st)
  case (Cons row rows)
  let ?key = "tlToLower T (irSupplier row)"
  show ?case
  proof (cases "irSupplier row = [] \<or> m ?key \<noteq> None")
    case True
    with Cons.prems have "add_suppliers T w tid rows (m, n) st = Inr ((m', n'), st')" by (simp add: Let_def)
    from Cons.IH[OF this Cons.prems(2)] True show ?thesis by (fastforce simp: map_le_def dom_def)
  next
    case False
    let ?st0 = "st\<lparr>uuid_supply := Suc (uuid_supply st)\<rparr>"
    obtain s st1 where s: "CreateSupplier_q T w (imported_supplier tid (uuid_supply st) (irSupplier row)) ?st0 = Inr (s, st1)"
      and rest: "add_suppliers T w tid rows (m(?key \<mapsto> su_id s), n + 1) st1 = Inr ((m', n'), st')"
      using Cons.prems(1) False by (auto simp: Let_def new_uuid_def catdb_def)
    note S = CreateSupplier_q_Inr(3,4)[OF s]
    have "su_tenant s = tid" "su_name s = irSupplier row" by (simp_all add: S(2) imported_supplier_def)
    then have "supplier_names_ok T tid (m(?key \<mapsto> su_id s)) st1"
      using Cons.prems(2) S(1) by (auto simp: supplier_names_ok_def)
    note IH = Cons.IH[OF rest this]
    have "keeps_items st st1" "categories st1 = categories st" using S(1) by (auto simp: keeps_items_def)
    moreover have "m \<subseteq>\<^sub>m m(?key \<mapsto> su_id s)" using False by (auto simp: map_le_def)
    moreover have "m' ?key = Some (su_id s)" by (rule map_le_Some[of "m(?key \<mapsto> su_id s)"]) (use IH in blast, simp)
    moreover from calculation(3) have "m \<subseteq>\<^sub>m m'" by (rule map_le_trans) (use IH in blast)
    ultimately show ?thesis using IH by (auto intro: keeps_items_trans)
  qed
qed (simp_all)

section \<open>Rows become items\<close>

text \<open>The item a row of the file becomes.\<close>

definition imported_as :: "'d decimal_lib \<Rightarrow> text_lib \<Rightarrow> uuid \<Rightarrow> 'd db \<Rightarrow> 'd import_row \<Rightarrow> item_row \<Rightarrow> bool" where
  "imported_as D T tid st row r \<longleftrightarrow> it_tenant r = tid \<and> it_name r = irName row \<and> it_base_unit r = irBaseUnit row
     \<and> it_service_level r = sint (word_of_int (irServiceLevel row) :: 16 word)
     \<and> it_manual_min_qty r = round_places 3 (qval D (irManualMin row)) \<and> it_archived_at r = None
     \<and> (case it_category r of None \<Rightarrow> irCategory row = []
        | Some c \<Rightarrow> \<exists>x \<in> set (categories st). ca_tenant x = tid \<and> ca_id x = c \<and> tlToLower T (ca_name x) = tlToLower T (irCategory row))
     \<and> (case it_default_supplier r of None \<Rightarrow> irSupplier row = []
        | Some c \<Rightarrow> \<exists>x \<in> set (suppliers st). su_tenant x = tid \<and> su_id x = c \<and> tlToLower T (su_name x) = tlToLower T (irSupplier row))"

lemma importItem_Inr:
  assumes "importItem D T w tid cats sups row st = Inr (iid, st')"
    and cats: "category_names_ok T tid cats st" "irCategory row \<noteq> [] \<longrightarrow> cats (tlToLower T (irCategory row)) \<noteq> None"
    and sups: "supplier_names_ok T tid sups st" "irSupplier row \<noteq> [] \<longrightarrow> sups (tlToLower T (irSupplier row)) \<noteq> None"
  obtains r where "items st' = items st @ [r]" and "it_id r = iid" and "iid \<notin> it_id ` set (items st)" and "imported_as D T tid st row r"
    and "balances st' = balances st" and "movements st' = movements st" and "categories st' = categories st" and "suppliers st' = suppliers st"
proof -
  let ?st0 = "st\<lparr>uuid_supply := Suc (uuid_supply st)\<rparr>"
  let ?row = "imported_item D tid (uuid_supply st) (named T cats (irCategory row)) (named T sups (irSupplier row)) row"
  obtain r st1 where c: "CreateItem_q T w ?row ?st0 = Inr (r, st1)" and iid: "iid = it_id r"
    and terms: "(case named T sups (irSupplier row) of None \<Rightarrow> tx_return ()
       | Some sid \<Rightarrow> tx_bind (catdb ''terms'' (UpsertSupplierItem (imported_terms D tid sid (it_id r) row))) (\<lambda>_. tx_return ())) st1 = Inr ((), st')"
    using assms(1) by (auto simp: importItem_def new_uuid_def)
  note C = CreateItem_q_Inr(3-5)[OF c]
  have id: "it_id r = it_id ?row" by (simp add: C(2))
  have "items st' = items st1 \<and> balances st' = balances st1 \<and> movements st' = movements st1 \<and> categories st' = categories st1 \<and> suppliers st' = suppliers st1"
    using terms by (auto simp: catdb_def UpsertSupplierItem_def Let_def bindE_Inr_iff split: option.splits)
  moreover have "imported_as D T tid st row r"
    using cats sups
    by (auto simp: imported_as_def C(2) imported_item_def DecimalOf_qval named_def category_names_ok_def supplier_names_ok_def split: option.splits)
  ultimately show thesis
    by (intro that[of r]) (use C id iid in simp_all)
qed

lemma EnsureBalance_keeps:
  assumes "EnsureBalance tid wid iid w st = Inr (u, st')"
  shows "items st' = items st" and "movements st' = movements st" and "categories st' = categories st" and "suppliers st' = suppliers st"
  using assms by (auto simp: EnsureBalance_def split: if_splits)

lemma import_row_Inr:
  assumes r: "import_row D T cl w t wid by_id cats sups row st = Inr (u, st')"
    and inv: "stock_inv st" "catalog_inv T st" and wf: "wfq D (irOpening row)"
    and cats: "category_names_ok T (tenantID t) cats st" "irCategory row \<noteq> [] \<longrightarrow> cats (tlToLower T (irCategory row)) \<noteq> None"
    and sups: "supplier_names_ok T (tenantID t) sups st" "irSupplier row \<noteq> [] \<longrightarrow> sups (tlToLower T (irSupplier row)) \<noteq> None"
  obtains r ms where "items st' = items st @ [r]" and "it_id r \<notin> it_id ` set (items st)" and "imported_as D T (tenantID t) st row r"
    and "categories st' = categories st" and "suppliers st' = suppliers st"
    and "movements st' = movements st @ ms" and "length ms = (if qIsPositive D (irOpening row) then 1 else 0)"
    and "\<forall>m \<in> set ms. mv_type m = TypeOpening"
    and "\<forall>a i. on_hand_of st' a i = (if a = wid \<and> i = it_id r then if qIsPositive D (irOpening row) then qval D (irOpening row) else 0 else on_hand_of st a i)"
proof -
  obtain iid st1 st2 where i: "importItem D T w (tenantID t) cats sups row st = Inr (iid, st1)"
    and b: "EnsureBalance (tenantID t) wid iid w st1 = Inr ((), st2)"
    and o: "import_opening D cl w t wid by_id iid (irOpening row) st2 = Inr (u, st')"
    using r by (auto simp: import_row_def Let_def catdb_def)
  from importItem_Inr[OF i cats sups] obtain r where R: "items st1 = items st @ [r]" "it_id r = iid" "iid \<notin> it_id ` set (items st)"
    "imported_as D T (tenantID t) st row r" "balances st1 = balances st" "movements st1 = movements st"
    "categories st1 = categories st" "suppliers st1 = suppliers st" .
  have "catalog_step T (tenantID t) st st1" using importItem_steps i unfolding tx_steps_def by blast
  then have inv1: "stock_inv st1" using inv by (simp add: catalog_step_def)
  note B = EnsureBalance_Inr[OF b inv1] EnsureBalance_keeps[OF b]
  have inv2: "stock_inv st2" by (rule B(1))
  note O = import_opening_Inr[OF o inv2 wf]
  obtain mv bs k where s: "st' = st2\<lparr>movements := mv, balances := bs, uuid_supply := uuid_supply st2 + k\<rparr>" using O(4) by blast
  obtain ms where ms: "movements st' = movements st2 @ ms" "length ms = (if qIsPositive D (irOpening row) then 1 else 0)"
    "\<forall>m \<in> set ms. mv_type m = TypeOpening" using O(2) by blast
  have none: "on_hand_of st a iid = 0" for a
  proof -
    have "find (balance_key a iid) (balances st) = None"
      using inv(2) R(3) by (fastforce simp: find_None_iff balance_key_def catalog_inv_def)
    then show ?thesis by (simp add: on_hand_of_def)
  qed
  have "on_hand_of st1 a i = on_hand_of st a i" for a i by (simp add: on_hand_of_def R(5))
  then have oh: "on_hand_of st' a i = on_hand_of st a i + (if a = wid \<and> i = iid \<and> qIsPositive D (irOpening row) then qval D (irOpening row) else 0)" for a i
    using O(3) B(2) by simp
  show thesis
    by (rule that[of r ms]) (use R B ms oh none s in auto)
qed

text \<open>The loop over the rows.\<close>

lemma imported_as_mono: "imported_as D T tid st row r \<Longrightarrow> categories st' = categories st \<Longrightarrow> suppliers st' = suppliers st \<Longrightarrow>
    imported_as D T tid st' row r"
  by (simp only: imported_as_def)

lemma import_rows_Inr:
  assumes "tx_for rows (import_row D T cl w t wid by_id cats sups) st = Inr (u, st')"
    and "stock_inv st" and "catalog_inv T st" and "\<forall>row \<in> set rows. wfq D (irOpening row)"
    and "category_names_ok T (tenantID t) cats st" and "\<forall>row \<in> set rows. irCategory row \<noteq> [] \<longrightarrow> cats (tlToLower T (irCategory row)) \<noteq> None"
    and "supplier_names_ok T (tenantID t) sups st" and "\<forall>row \<in> set rows. irSupplier row \<noteq> [] \<longrightarrow> sups (tlToLower T (irSupplier row)) \<noteq> None"
  shows "\<exists>new ms. items st' = items st @ new \<and> list_all2 (imported_as D T (tenantID t) st) rows new
    \<and> it_id ` set new \<inter> it_id ` set (items st) = {} \<and> categories st' = categories st \<and> suppliers st' = suppliers st
    \<and> movements st' = movements st @ ms \<and> length ms = length (filter (\<lambda>row. qIsPositive D (irOpening row)) rows)
    \<and> (\<forall>m \<in> set ms. mv_type m = TypeOpening)
    \<and> list_all2 (\<lambda>row r. on_hand_of st' wid (it_id r) = (if qIsPositive D (irOpening row) then qval D (irOpening row) else 0)) rows new
    \<and> (\<forall>a i. a \<noteq> wid \<or> i \<notin> it_id ` set new \<longrightarrow> on_hand_of st' a i = on_hand_of st a i)"
  using assms
proof (induction rows arbitrary: st)
  case Nil
  then show ?case by simp
next
  case (Cons row rows)
  from Cons.prems(1) obtain v st1 where r: "import_row D T cl w t wid by_id cats sups row st = Inr (v, st1)"
    and rest: "tx_for rows (import_row D T cl w t wid by_id cats sups) st1 = Inr (u, st')" by auto
  have wf: "wfq D (irOpening row)" using Cons.prems(4) by simp
  have cat: "irCategory row \<noteq> [] \<longrightarrow> cats (tlToLower T (irCategory row)) \<noteq> None"
    and spl: "irSupplier row \<noteq> [] \<longrightarrow> sups (tlToLower T (irSupplier row)) \<noteq> None" using Cons.prems(6,8) by simp_all
  from import_row_Inr[OF r Cons.prems(2,3) wf Cons.prems(5) cat Cons.prems(7) spl] obtain n ms where
    N: "items st1 = items st @ [n]" "it_id n \<notin> it_id ` set (items st)" "imported_as D T (tenantID t) st row n"
      "categories st1 = categories st" "suppliers st1 = suppliers st"
    and M: "movements st1 = movements st @ ms" "length ms = (if qIsPositive D (irOpening row) then 1 else 0)"
      "\<forall>m \<in> set ms. mv_type m = TypeOpening"
    and O: "\<forall>a i. on_hand_of st1 a i = (if a = wid \<and> i = it_id n then if qIsPositive D (irOpening row) then qval D (irOpening row) else 0 else on_hand_of st a i)" .
  have "tx_steps (catalog_step T (tenantID t)) (import_row D T cl w t wid by_id cats sups row)"
    unfolding import_row_def Let_def catdb_def
    by (intro cat.steps importItem_steps EnsureBalance_steps import_opening_steps wf)
  then have "catalog_step T (tenantID t) st st1" using r unfolding tx_steps_def by blast
  then have inv1: "stock_inv st1" "catalog_inv T st1" using Cons.prems(2,3) by (simp_all add: catalog_step_def)
  have names: "category_names_ok T (tenantID t) cats st1" "supplier_names_ok T (tenantID t) sups st1"
    using Cons.prems(5,7) N(4,5) by (simp_all add: category_names_ok_def supplier_names_ok_def)
  obtain new ms' where I: "items st' = items st1 @ new" "list_all2 (imported_as D T (tenantID t) st1) rows new"
      "it_id ` set new \<inter> it_id ` set (items st1) = {}" "categories st' = categories st1" "suppliers st' = suppliers st1"
      "movements st' = movements st1 @ ms'" "length ms' = length (filter (\<lambda>row. qIsPositive D (irOpening row)) rows)"
      "\<forall>m \<in> set ms'. mv_type m = TypeOpening"
      "list_all2 (\<lambda>row r. on_hand_of st' wid (it_id r) = (if qIsPositive D (irOpening row) then qval D (irOpening row) else 0)) rows new"
      "\<forall>a i. a \<noteq> wid \<or> i \<notin> it_id ` set new \<longrightarrow> on_hand_of st' a i = on_hand_of st1 a i"
    using Cons.IH[OF rest inv1 _ names(1) _ names(2)] Cons.prems(4,6,8) by auto
  have imp: "list_all2 (imported_as D T (tenantID t) st) rows new"
    by (rule list_all2_mono[OF I(2)]) (erule imported_as_mono, use N(4,5) in auto)
  have "it_id n \<notin> it_id ` set new" using I(3) N(1) by auto
  then have oh: "on_hand_of st' wid (it_id n) = (if qIsPositive D (irOpening row) then qval D (irOpening row) else 0)"
    using I(10) O by simp
  have other: "\<forall>a i. a \<noteq> wid \<or> i \<notin> it_id ` set (n # new) \<longrightarrow> on_hand_of st' a i = on_hand_of st a i"
    using I(10) O by auto
  have len: "length (ms @ ms') = length (filter (\<lambda>row. qIsPositive D (irOpening row)) (row # rows))" using M(2) I(7) by simp
  have kinds: "\<forall>m \<in> set (ms @ ms'). mv_type m = TypeOpening" using M(3) I(8) by auto
  have dis: "it_id ` set (n # new) \<inter> it_id ` set (items st) = {}" using I(3) N(1,2) by auto
  show ?case
    by (intro exI[of _ "n # new"] exI[of _ "ms @ ms'"] conjI; (rule dis len kinds other)?)
      (use I imp oh N M in simp_all)
qed

text \<open>(C23) An import that succeeds wrote every row of the file: one new item each, with the row's name, unit, service
  level and minimum, in the category and from the supplier the row names (up to letter case), the opening quantity on
  hand in the default warehouse and booked by one opening movement per positive quantity; nothing else on hand moves.\<close>
theorem Import_books:
  assumes "Import D T cl w t parsed by_id False st = (Inr res, st')" and "prErrors parsed = []"
    and "stock_inv st" and "catalog_inv T st" and "\<forall>row \<in> set (prRows parsed). wfq D (irOpening row)"
  shows "\<exists>wh new ms. GetDefaultWarehouse (tenantID t) st = Some wh \<and> items st' = items st @ new
    \<and> list_all2 (imported_as D T (tenantID t) st') (prRows parsed) new
    \<and> list_all2 (\<lambda>row r. on_hand_of st' (wh_id wh) (it_id r) = (if qIsPositive D (irOpening row) then qval D (irOpening row) else 0))
        (prRows parsed) new
    \<and> (\<forall>a i. a \<noteq> wh_id wh \<or> i \<notin> it_id ` set new \<longrightarrow> on_hand_of st' a i = on_hand_of st a i)
    \<and> movements st' = movements st @ ms \<and> length ms = imWithOpening res \<and> (\<forall>m \<in> set ms. mv_type m = TypeOpening)"
proof -
  obtain created createdS where tx: "importTx D T cl w t by_id (prRows parsed) st = Inr ((created, createdS), st')"
    and res: "imWithOpening res = length (filter (\<lambda>row. qIsPositive D (irOpening row)) (prRows parsed))"
    using assms(1,2) by (auto simp: Import_def Let_def InTenantTx_def split: sum.splits prod.splits)
  obtain wh cats n st1 sups k st2 u where wh: "GetDefaultWarehouse (tenantID t) st = Some wh"
    and c: "add_categories T w (tenantID t) (prRows parsed) (category_names T (ListCategories (tenantID t) st), 0) st = Inr ((cats, n), st1)"
    and s: "add_suppliers T w (tenantID t) (prRows parsed) (supplier_names T (ListSuppliers_q (tenantID t) True st1), 0) st1 = Inr ((sups, k), st2)"
    and rows: "tx_for (prRows parsed) (import_row D T cl w t (wh_id wh) by_id cats sups) st2 = Inr (u, st')"
    using tx by (auto simp: importTx_def Let_def resolveCategories_def resolveSuppliers_def from_opt_def split: option.splits)
  note C = add_categories_Inr[OF c category_names_listed] and S = add_suppliers_Inr[OF s supplier_names_listed]
  have "catalog_step T (tenantID t) st st1" "catalog_step T (tenantID t) st1 st2"
    using add_categories_steps[of T "tenantID t"] add_suppliers_steps[of T "tenantID t"] c s unfolding tx_steps_def by blast+
  then have inv2: "stock_inv st2" "catalog_inv T st2" using assms(3,4) by (simp_all add: catalog_step_def)
  have cats2: "category_names_ok T (tenantID t) cats st2" using C S by (simp add: category_names_ok_def)
  have keep: "items st2 = items st" "balances st2 = balances st" "movements st2 = movements st"
    using C S by (simp_all add: keeps_items_def)
  have "\<forall>row \<in> set (prRows parsed). irCategory row \<noteq> [] \<longrightarrow> cats (tlToLower T (irCategory row)) \<noteq> None"
    "\<forall>row \<in> set (prRows parsed). irSupplier row \<noteq> [] \<longrightarrow> sups (tlToLower T (irSupplier row)) \<noteq> None"
    "supplier_names_ok T (tenantID t) sups st2" using C S by blast+
  from import_rows_Inr[OF rows inv2 assms(5) cats2 this(1,3,2)] obtain new ms where
    I: "items st' = items st2 @ new" "list_all2 (imported_as D T (tenantID t) st2) (prRows parsed) new"
      "categories st' = categories st2" "suppliers st' = suppliers st2"
      "movements st' = movements st2 @ ms" "length ms = length (filter (\<lambda>row. qIsPositive D (irOpening row)) (prRows parsed))"
      "\<forall>m \<in> set ms. mv_type m = TypeOpening"
      "list_all2 (\<lambda>row r. on_hand_of st' (wh_id wh) (it_id r) = (if qIsPositive D (irOpening row) then qval D (irOpening row) else 0)) (prRows parsed) new"
      "\<forall>a i. a \<noteq> wh_id wh \<or> i \<notin> it_id ` set new \<longrightarrow> on_hand_of st' a i = on_hand_of st2 a i" by blast
  have imp: "list_all2 (imported_as D T (tenantID t) st') (prRows parsed) new"
    by (rule list_all2_mono[OF I(2)]) (erule imported_as_mono, use I(3,4) in auto)
  have "on_hand_of st2 a i = on_hand_of st a i" for a i by (simp add: on_hand_of_def keep)
  then show ?thesis
    by (intro exI[of _ wh] exI[of _ new] exI[of _ ms]) (use I imp keep wh res in simp)
qed

definition sample_rice :: "dec import_row" where
  "sample_rice = sample_import\<lparr>irName := ''rice'', irBaseUnit := ''kg'', irCategory := ''dry'', irOpening := qFromInt dec_lib 5\<rparr>"

abbreviation sample_import_run where
  "sample_import_run \<equiv> Import dec_lib sample_text (Fixed 1000000000000) 0 sample_tenant \<lparr>prRows = [sample_rice], prErrors = []\<rparr> 7 False
     (sample_db\<lparr>users := [sample_owner\<lparr>us_id := 7\<rparr>]\<rparr>)"

lemma sample_import_ok: "\<exists>res st'. sample_import_run = (Inr res, st')"
proof -
  have "case fst sample_import_run of Inr _ \<Rightarrow> True | _ \<Rightarrow> False" by code_simp
  then show ?thesis by (cases sample_import_run) (auto split: sum.splits)
qed

theorem Import_books_witness:
  "\<exists>res st'. sample_import_run = (Inr res, st') \<and> length (items st') = 2 \<and> length (movements st') = imWithOpening res"
proof -
  obtain res st' where r: "sample_import_run = (Inr res, st')" using sample_import_ok by blast
  have inv: "stock_inv (sample_db\<lparr>users := us\<rparr>)" "catalog_inv sample_text (sample_db\<lparr>users := us\<rparr>)" for us
  proof -
    show "stock_inv (sample_db\<lparr>users := us\<rparr>)"
      using sample_ok(3) by (simp add: stock_inv_def on_hand_of_def journal_def)
    show "catalog_inv sample_text (sample_db\<lparr>users := us\<rparr>)"
      by (rule same_catalog_inv[OF _ sample_catalog_ok]) (simp add: same_catalog_def)
  qed
  have "wfq dec_lib (qFromInt dec_lib 5)" by (rule dec.wf_consts)
  then have "\<forall>row \<in> set (prRows \<lparr>prRows = [sample_rice], prErrors = []\<rparr>). wfq dec_lib (irOpening row)"
    by (simp add: sample_rice_def)
  from Import_books[OF r _ inv this] obtain new ms where
    "items st' = items (sample_db\<lparr>users := [sample_owner\<lparr>us_id := 7\<rparr>]\<rparr>) @ new"
    "list_all2 (imported_as dec_lib sample_text (tenantID sample_tenant) st') [sample_rice] new"
    "movements st' = movements (sample_db\<lparr>users := [sample_owner\<lparr>us_id := 7\<rparr>]\<rparr>) @ ms" "length ms = imWithOpening res"
    by auto
  then have "length (items st') = 2 \<and> length (movements st') = imWithOpening res"
    by (auto simp: sample_db_def dest: list_all2_lengthD)
  with r show ?thesis by blast
qed

end
