(* ===== verification/Link.thy ===== *)
theory Link
  imports Auth Notify_Correct Csv_Correct
begin

text \<open>
  \<open>internal/notify/link.go\<close>: linking a Telegram chat to a user by a code that works once and for a quarter of an hour.
  The code comes with a link; the botName hands it back with the chat. The bytes of \<open>rand.Read\<close> are an argument.
\<close>

section \<open>Codes\<close>

text \<open>\<open>base32.StdEncoding\<close> without padding, already in lower case: five bytes give eight letters, a rest of m bytes the
  first \<open>\<lceil>8 m / 5\<rceil>\<close> of the letters of the group filled up with zeros.\<close>

definition base32_letters :: string where
  "base32_letters = ''abcdefghijklmnopqrstuvwxyz234567''"

definition base32_group :: "nat list \<Rightarrow> string" where
  "base32_group bs = map (\<lambda>k. base32_letters ! (foldl (\<lambda>v b. 256 * v + b) 0 bs div 32 ^ k mod 32)) (rev [0..<8])"

function base32 :: "nat list \<Rightarrow> string" where
  "base32 bs = (if bs = [] then [] else
     take ((8 * min 5 (length bs) + 4) div 5) (base32_group (take 5 (bs @ replicate 4 0))) @ base32 (drop 5 bs))"
  by pat_completeness auto
termination by (relation "measure length") auto

declare base32.simps [simp del]

definition LinkCodeTTL :: int where "LinkCodeTTL = 15 * 60 * second"

datatype link_error = ErrLinkCodeInvalid | ErrChatTaken | NoBotName | LinkRandom | LinkDb db_error

record link_invite =
  liURL :: string
  liCode :: string
  liExpiresAt :: instant

definition newLinkCode :: "string option \<Rightarrow> string option" where
  "newLinkCode raw = map_option (\<lambda>bs. base32 (map of_char bs)) raw"

section \<open>Operations\<close>

definition link_row :: "tenant \<Rightarrow> uuid \<Rightarrow> string \<Rightarrow> instant \<Rightarrow> link_code_row" where
  "link_row t uid code expires = \<lparr>lc_code = code, lc_tenant = tenantID t, lc_user = uid, lc_expires_at = pg_Time expires,
     lc_used_at = None, lc_created_at = 0\<rparr>"

definition CreateLinkInvite :: "notify_service \<Rightarrow> instant \<Rightarrow> string option \<Rightarrow> tenant \<Rightarrow> uuid \<Rightarrow> string \<Rightarrow> 'd site \<Rightarrow>
    (link_error + link_invite) \<times> 'd site" where
  "CreateLinkInvite s w raw t uid botName st = (if botName = [] then (Inl NoBotName, st) else
     case newLinkCode raw of None \<Rightarrow> (Inl LinkRandom, st)
     | Some code \<Rightarrow> let expires = clock_Now (nsClock s) w + LinkCodeTTL in
         (case InTenantTx (tx_lift LinkDb (CreateTelegramLinkCode w (tenantID t) (link_row t uid code expires))) st of
            (Inl e, st1) \<Rightarrow> (Inl e, st1)
          | (Inr _, st1) \<Rightarrow> (Inr \<lparr>liURL = ''https://t.me/'' @ botName @ ''?start='' @ code, liCode = code, liExpiresAt = expires\<rparr>, st1)))"

text \<open>The greeting is the name of the user, when the user is found.\<close>

definition linkChatTx :: "notify_service \<Rightarrow> instant \<Rightarrow> string \<Rightarrow> int \<Rightarrow> ('d site, link_error, string) tx" where
  "linkChatTx s w code chat =
     tx_bind (tx_guard (valid_text code) (LinkDb BadEncoding)) (\<lambda>_.
     tx_bind (tx_lift (\<lambda>e. if e = NoRows then ErrLinkCodeInvalid else LinkDb e)
       (UseTelegramLinkCode code (pg_Time (clock_Now (nsClock s) w)))) (\<lambda>(tid, uid).
     tx_bind (tx_modify (ClearUserTelegramChatID chat)) (\<lambda>_.
     tx_bind (tx_lift LinkDb (SetUserTelegramChatID uid chat)) (\<lambda>_.
     tx_get (\<lambda>st. case GetUserByID uid st of None \<Rightarrow> [] | Some u \<Rightarrow> us_name u)))))"

definition LinkChat :: "notify_service \<Rightarrow> instant \<Rightarrow> string \<Rightarrow> int \<Rightarrow> 'd site \<Rightarrow> (link_error + string) \<times> 'd site" where
  "LinkChat s w code0 chat st = (let code = TrimSpace code0 in
     if code = [] then (Inl ErrLinkCodeInvalid, st) else InTenantTx (linkChatTx s w code chat) st)"

definition UnlinkChat :: "int \<Rightarrow> 'd site \<Rightarrow> 'd site" where
  "UnlinkChat chat = ClearUserTelegramChatID chat"

section \<open>Lemmas\<close>

lemma base32_visible: "c \<in> set (base32 bs) \<Longrightarrow> ascii_visible c"
proof (induction bs rule: base32.induct)
  case (1 bs)
  have letters: "\<forall>c \<in> set base32_letters. ascii_visible c" by (simp add: base32_letters_def ascii_visible_def)
  have "base32_letters ! (n mod 32) \<in> set base32_letters" for n by (rule nth_mem) (simp add: base32_letters_def)
  then have "\<forall>c \<in> set (base32_group xs). ascii_visible c" for xs using letters by (auto simp: base32_group_def)
  then show ?case using 1 by (subst (asm) (2) base32.simps) (auto split: if_splits dest: in_set_takeD)
qed

lemma base32_not_empty: "bs \<noteq> [] \<Longrightarrow> base32 bs \<noteq> []"
proof (cases bs)
  case (Cons b r)
  have "12 div 5 \<le> (12 + 8 * min 4 (length r)) div 5" by (rule div_le_mono) simp
  then have "0 < (12 + 8 * min 4 (length r)) div 5" by simp
  then show ?thesis by (simp add: Cons base32.simps[of "b # r"] base32_group_def upt_rec)
qed simp

lemma visible_text: "\<forall>c \<in> set s. ascii_visible c \<Longrightarrow> valid_text s"
  by (rule valid_text_ascii) (auto simp: ascii_visible_def)

text \<open>The users after a chat is linked to one of them.\<close>

definition linked :: "uuid \<Rightarrow> int \<Rightarrow> user_row \<Rightarrow> user_row" where
  "linked uid chat u = u\<lparr>us_telegram := if us_id u = uid then Some chat else if us_telegram u = Some chat then None else us_telegram u\<rparr>"

lemma linked_simps [simp]:
  "us_id (linked uid chat u) = us_id u" "us_telegram (linked uid chat u) = Some chat \<longleftrightarrow> us_id u = uid"
  by (auto simp: linked_def)

definition usable :: "string \<Rightarrow> instant \<Rightarrow> link_code_row \<Rightarrow> bool" where
  "usable code now r \<longleftrightarrow> lc_code r = code \<and> lc_used_at r = None \<and> now < lc_expires_at r"

lemma use_code:
  "UseTelegramLinkCode code now s = (case find (usable code now) (siCodes s) of None \<Rightarrow> Inl NoRows
     | Some r \<Rightarrow> Inr ((lc_tenant r, lc_user r), s\<lparr>siCodes := update_rows (usable code now) (\<lambda>r. r\<lparr>lc_used_at := Some now\<rparr>) (siCodes s)\<rparr>))"
proof -
  have u: "usable code now = (\<lambda>r. lc_code r = code \<and> lc_used_at r = None \<and> now < lc_expires_at r)"
    by (rule ext) (simp add: usable_def)
  show ?thesis by (simp add: UseTelegramLinkCode_def u Let_def split: option.splits)
qed

lemma set_after_clear:
  "SetUserTelegramChatID uid chat (ClearUserTelegramChatID chat s)
     = Inr ((), s\<lparr>siDb := (siDb s)\<lparr>users := map (linked uid chat) (users (siDb s))\<rparr>\<rparr>)"
  by (auto simp: SetUserTelegramChatID_def ClearUserTelegramChatID_def update_rows_def linked_def list_ex_iff)

lemma LinkChat_result:
  assumes "TrimSpace code0 = code" and "code \<noteq> []" and "valid_text code"
  shows "LinkChat s w code0 chat st = (let now = pg_Time (clock_Now (nsClock s) w) in
     case find (usable code now) (siCodes st) of None \<Rightarrow> (Inl ErrLinkCodeInvalid, st)
     | Some r \<Rightarrow> (Inr (case find (\<lambda>u. us_id u = lc_user r) (users (siDb st)) of None \<Rightarrow> [] | Some u \<Rightarrow> us_name u),
         st\<lparr>siDb := (siDb st)\<lparr>users := map (linked (lc_user r) chat) (users (siDb st))\<rparr>,
            siCodes := update_rows (usable code now) (\<lambda>r. r\<lparr>lc_used_at := Some now\<rparr>) (siCodes st)\<rparr>))"
proof -
  have f: "find (\<lambda>u. us_id u = i) (map (linked j chat) us) = map_option (linked j chat) (find (\<lambda>u. us_id u = i) us)" for i j us
    by (induction us) (auto simp: linked_def)
  have c: "ClearUserTelegramChatID chat (st\<lparr>siCodes := cs\<rparr>) = (ClearUserTelegramChatID chat st)\<lparr>siCodes := cs\<rparr>" for cs
    by (simp add: ClearUserTelegramChatID_def)
  show ?thesis
    using assms set_after_clear[of _ chat "st\<lparr>siCodes := _\<rparr>"]
    by (auto simp: LinkChat_def linkChatTx_def Let_def InTenantTx_def tx_bind_def tx_lift_def tx_guard_def use_code GetUserByID_def f
        linked_def split: option.splits)
qed

text \<open>(C35) A code links one chat once: until it expires it links the chat to the user who asked for it, and to no one else, whatever
  the chat or the user was linked to before; after that, and once used, it is refused and changes nothing.\<close>
theorem link_code_life:
  assumes inv: "CreateLinkInvite s w (Some bs) t uid botName st = (Inr i, st1)" and bytes: "length bs = 10"
    and trim: "TrimSpace code0 = liCode i"
  shows "if pg_Time (clock_Now (nsClock s) w1) < pg_Time (liExpiresAt i)
    then \<exists>name st2. LinkChat s w1 code0 chat st1 = (Inr name, st2)
      \<and> users (siDb st2) = map (linked uid chat) (users (siDb st)) \<and> siDb st2 = (siDb st)\<lparr>users := users (siDb st2)\<rparr>
      \<and> {us_id u | u. u \<in> set (users (siDb st2)) \<and> us_telegram u = Some chat} = {uid}
      \<and> (\<forall>w2 chat2. LinkChat s w2 code0 chat2 st2 = (Inl ErrLinkCodeInvalid, st2))
    else LinkChat s w1 code0 chat st1 = (Inl ErrLinkCodeInvalid, st1)"
proof -
  let ?row = "(link_row t uid (liCode i) (liExpiresAt i))\<lparr>lc_used_at := None, lc_created_at := pg_Time w\<rparr>"
  let ?now = "\<lambda>w. pg_Time (clock_Now (nsClock s) w)"
  have st1: "st1 = st\<lparr>siCodes := siCodes st @ [?row]\<rparr>" and fresh: "\<forall>x \<in> set (siCodes st). lc_code x \<noteq> liCode i" and ue: "user_exists st uid"
    and lc: "liCode i = base32 (map of_char bs)"
    using inv by (auto simp: CreateLinkInvite_def newLinkCode_def Let_def InTenantTx_def tx_lift_def CreateTelegramLinkCode_def bindE_def
        guardE_def link_row_def list_ex_iff split: option.splits sum.splits if_splits)
  have "bs \<noteq> []" using bytes by auto
  then have ne: "liCode i \<noteq> []" using base32_not_empty[of "map of_char bs"] by (simp add: lc)
  have "valid_text (liCode i)" by (rule visible_text) (simp add: lc base32_visible)
  with trim have code: "TrimSpace code0 = liCode i" "valid_text (liCode i)" by blast+
  have row: "lc_code ?row = liCode i" "lc_user ?row = uid" "lc_used_at ?row = None" "lc_expires_at ?row = pg_Time (liExpiresAt i)"
    by (simp_all add: link_row_def)
  have find1: "find (usable (liCode i) n) (siCodes st1) = (if n < pg_Time (liExpiresAt i) then Some ?row else None)" for n
  proof -
    have none: "find (usable (liCode i) n) (siCodes st) = None" using fresh by (auto simp: find_None_iff usable_def)
    have "find P (xs @ [x]) = (if P x then Some x else None)" if "find P xs = None" for P :: "link_code_row \<Rightarrow> bool" and xs x
      using that by (induction xs) (auto split: if_splits)
    from this[OF none, of ?row] show ?thesis using row by (simp add: st1 usable_def)
  qed
  show ?thesis
  proof (cases "?now w1 < pg_Time (liExpiresAt i)")
    case False
    then show ?thesis using LinkChat_result[OF code(1) ne code(2), of s w1 chat st1] find1[of "?now w1"] by (simp add: Let_def)
  next
    case True
    define st2 where "st2 = st1\<lparr>siDb := (siDb st1)\<lparr>users := map (linked uid chat) (users (siDb st1))\<rparr>,
      siCodes := update_rows (usable (liCode i) (?now w1)) (\<lambda>r. r\<lparr>lc_used_at := Some (?now w1)\<rparr>) (siCodes st1)\<rparr>"
    have l: "\<exists>name. LinkChat s w1 code0 chat st1 = (Inr name, st2)"
      using LinkChat_result[OF code(1) ne code(2), of s w1 chat st1] find1[of "?now w1"] True row by (simp add: Let_def st2_def)
    have none: "find (usable (liCode i) n) (siCodes st2) = None" for n
    proof -
      have "\<not> usable (liCode i) n r" if "r \<in> set (siCodes st2)" for r
        using that fresh row True by (auto simp: st2_def st1 update_rows_def usable_def split: if_splits)
      then show ?thesis by (auto simp: find_None_iff)
    qed
    have again: "LinkChat s w2 code0 chat2 st2 = (Inl ErrLinkCodeInvalid, st2)" for w2 chat2
      using LinkChat_result[OF code(1) ne code(2), of s w2 chat2 st2] none by (simp add: Let_def)
    have "{us_id u | u. u \<in> set (users (siDb st2)) \<and> us_telegram u = Some chat} = {uid}"
    proof -
      obtain u where "u \<in> set (users (siDb st))" "us_id u = uid" using ue by (auto simp: user_exists_def list_ex_iff)
      moreover have "{us_id u | u. u \<in> set (users (siDb st2)) \<and> us_telegram u = Some chat} = us_id ` {u \<in> set (users (siDb st)). us_id u = uid}"
      proof -
        have "{f u | u. u \<in> g ` A \<and> Q u} = (\<lambda>x. f (g x)) ` {x \<in> A. Q (g x)}" for f :: "user_row \<Rightarrow> uuid" and g A Q by auto
        from this[of us_id "linked uid chat" "set (users (siDb st))" "\<lambda>u. us_telegram u = Some chat"]
        show ?thesis by (simp add: st2_def st1)
      qed
      ultimately show ?thesis by auto
    qed
    then show ?thesis using l again True by (auto simp: st2_def st1)
  qed
qed


section \<open>Example\<close>

lemma TrimSpace_visible: "s \<noteq> [] \<Longrightarrow> \<forall>c \<in> set s. ascii_visible c \<Longrightarrow> TrimSpace s = s"
  by (cases s) (auto intro!: TrimSpace_plain)

theorem link_code_life_witness:
  "\<exists>i st1 name st2. CreateLinkInvite sample_notify 0 (Some (replicate 10 (CHR 0x07))) sample_tenant 10 ''zapas_bot'' (sample_site blank_db :: dec site) = (Inr i, st1)
     \<and> LinkChat sample_notify 0 (liCode i) 77 st1 = (Inr name, st2) \<and> map us_telegram (users (siDb st2)) = [Some 77]
     \<and> LinkChat sample_notify 0 (liCode i) 78 st2 = (Inl ErrLinkCodeInvalid, st2)"
proof -
  let ?bs = "replicate 10 (CHR 0x07)"
  have "\<exists>i st1. CreateLinkInvite sample_notify 0 (Some ?bs) sample_tenant 10 ''zapas_bot'' (sample_site blank_db :: dec site) = (Inr i, st1)"
    by (simp add: CreateLinkInvite_def newLinkCode_def Let_def InTenantTx_def tx_lift_def CreateTelegramLinkCode_def bindE_def guardE_def
        link_row_def sample_site_def tenant_exists_def user_exists_def sample_tenant_def sample_tenant_row_def sample_user_def)
  then obtain i st1 where i: "CreateLinkInvite sample_notify 0 (Some ?bs) sample_tenant 10 ''zapas_bot'' (sample_site blank_db :: dec site) = (Inr i, st1)"
    by blast
  then have c: "liCode i = base32 (map of_char ?bs)" "liExpiresAt i = clock_Now (nsClock sample_notify) 0 + LinkCodeTTL"
    by (auto simp: CreateLinkInvite_def newLinkCode_def Let_def split: prod.splits sum.splits)
  have "base32 (map of_char ?bs) \<noteq> []" by (rule base32_not_empty) simp
  then have t: "TrimSpace (liCode i) = liCode i" unfolding c(1) by (rule TrimSpace_visible) (auto dest: base32_visible)
  have "pg_Time n < pg_Time (n + LinkCodeTTL)" for n
  proof -
    have "n + LinkCodeTTL = n + 900000000 * 1000" by (simp add: LinkCodeTTL_def second_def)
    then show ?thesis by (simp add: pg_Time_def)
  qed
  then have "pg_Time (clock_Now (nsClock sample_notify) 0) < pg_Time (liExpiresAt i)" by (simp add: c(2))
  then obtain name st2 where l: "LinkChat sample_notify 0 (liCode i) 77 st1 = (Inr name, st2)"
    and u: "users (siDb st2) = map (linked 10 77) (users (siDb (sample_site blank_db :: dec site)))"
    and n: "LinkChat sample_notify 0 (liCode i) 78 st2 = (Inl ErrLinkCodeInvalid, st2)"
    using link_code_life[OF i _ t, of 0 77] by auto
  have tg: "map us_telegram (users (siDb st2)) = [Some 77]" by (simp add: u sample_site_def sample_user_def linked_def)
  show ?thesis by (intro exI conjI) (rule i, rule l, rule tg, rule n)
qed

end
