(* ===== verification/Pipeline_Correct.thy ===== *)
theory Pipeline_Correct
  imports Pipeline Orders_Correct
begin

text \<open>
  Correctness of the nightly run: spreading the corrections of counts over days loses nothing, every
  item gets one observation per day, the forecasts that are stored are the computed ones, a run leaves
  the stock and the data of other tenants alone, and repeating it changes nothing.
\<close>

section \<open>Days in order\<close>

lemma day_range_num: "valid_day d \<Longrightarrow> day_range d til = map day_of_num [dnum d..dnum til]"
proof (induction d til rule: day_range.induct)
  case (1 d til)
  show ?case
  proof (cases "dnum til < dnum d")
    case False
    then have "day_range d til = d # map day_of_num [dnum d + 1..dnum til]"
      using "1.IH" by (subst day_range.simps) (simp add: After_num)
    with False "1.prems" show ?thesis by (simp add: upto_rec1)
  qed (simp add: day_range.simps After_num)
qed

definition window_sum :: "'d decimal_lib \<Rightarrow> int \<Rightarrow> int \<Rightarrow> 'd daily \<Rightarrow> rat" where
  "window_sum D a b m = (\<Sum>i = a..b. qval D (m (day_of_num i)))"

lemma sum_day_range:
  "valid_day d \<Longrightarrow> sum_list (map (\<lambda>x. qval D (m x)) (day_range d til)) = window_sum D (dnum d) (dnum til) m"
  by (simp add: day_range_num window_sum_def comp_def sum_list_distinct_conv_sum_set)

lemma day_of_num_eq: "valid_day d \<Longrightarrow> day_of_num i = d \<longleftrightarrow> i = dnum d"
  by (metis day_of_dnum dnum_of_num)

context decimal_api begin

lemma window_add_on:
  assumes "valid_day d" and "a \<le> dnum d" and "dnum d \<le> b"
  shows "window_sum D a b (add_on D d q m) = window_sum D a b m + qval D q"
proof -
  have "qval D (add_on D d q m (day_of_num i)) = qval D (m (day_of_num i)) + (if i = dnum d then qval D q else 0)" for i
    using day_of_num_eq[OF assms(1), of i] by (auto simp: add_on_def)
  then show ?thesis using assms by (simp add: window_sum_def sum.distrib)
qed

lemma window_spread:
  assumes "spread_shares D share d e m s = (m', s')" and "valid_day d" and "a \<le> dnum d" and "dnum e \<le> b"
  shows "window_sum D a b m' - qval D s' = window_sum D a b m - qval D s"
    and "dnum x < dnum d \<or> dnum e \<le> dnum x \<Longrightarrow> m' x = m x"
  using assms
proof (induction D\<equiv>D share d e m s rule: spread_shares.induct)
  case (1 share d e m s)
  have step: "spread_shares D share d e m s = (if dnum d < dnum e
      then spread_shares D share (AddDays d 1) e (add_on D d share m) (qAdd D s share) else (m, s))"
    by (subst spread_shares.simps) (simp add: Before_num)
  {
    case 1
    then show ?case
    proof (cases "dnum d < dnum e")
      case True
      have "window_sum D a b m' - qval D s' = window_sum D a b (add_on D d share m) - qval D (qAdd D s share)"
        using True 1 step by (intro "1.hyps"(1)) (auto simp: Before_num)
      then show ?thesis using 1 True window_add_on[of d a b share m] by simp
    qed (use step in simp)
  next
    case 2
    then show ?case
    proof (cases "dnum d < dnum e")
      case True
      have "m' x = add_on D d share m x"
        using True 2 step by (intro "1.hyps"(2)) (auto simp: Before_num)
      then show ?thesis using 2 True by (auto simp: add_on_def)
    qed (use step in simp)
  }
qed

text \<open>The share of a day is a finite number: no panic.\<close>

lemma share_double:
  assumes "1 < n"
  shows "\<exists>v. fdiv (Fin 1) (f64_of_int n) = Fin v \<and> is_double v"
proof (cases "f64_of_int n")
  case (Fin v)
  have "1 \<le> rnd (of_int n)" using rnd_ge[of 1 "of_int n"] assms is_double_1 by (simp add: is_double_def)
  then have v: "1 \<le> v" using Fin by (auto simp: f64_of_int_def pack_def Let_def split: if_splits)
  then have "\<bar>1 / v\<bar> \<le> 1" by simp
  from pack_bounded(1)[OF this is_double_1] have p: "pack (1 / v) = Fin (rnd (1 / v))" .
  then have "is_double (rnd (1 / v))" using pack_wf[of "1 / v"] by simp
  then show ?thesis using p v Fin by simp
qed (use assms in \<open>auto simp: f64_of_int_def pack_def Let_def split: if_splits\<close>)

lemma share_Some:
  assumes "1 < n"
  obtains q where "qMulFloat D a (fdiv (Fin 1) (f64_of_int n)) = Some q"
  using share_double[OF assms] qMulFloat_Some by metis

lemma distribute_one_step:
  assumes "valid_day from_day" and "valid_day (rmDay mv)" and "dnum from_day \<le> dnum (rmDay mv)" and "dnum (rmDay mv) \<le> b"
  obtains m' prev' where "distribute_one D from_day (m, prev) mv = Some (m', prev')"
    and "window_sum D (dnum from_day) b m' = window_sum D (dnum from_day) b m - qval D (rmQty mv)"
    and "prev' = prev \<or> prev' = rmDay mv"
proof -
  have add: "window_sum D (dnum from_day) b (add_on D (rmDay mv) q m) = window_sum D (dnum from_day) b m + qval D q" for q m
    using assms(3,4) by (intro window_add_on assms(2)) auto
  let ?c = "qNeg D (rmQty mv)" and ?start = "count_start from_day prev"
  have start: "valid_day ?start" "dnum from_day \<le> dnum ?start"
    using assms(1) by (auto simp: count_start_def Let_def Before_num)
  note one = distribute_one_def Let_def prod.case
  show thesis
  proof (cases "FromCount mv \<and> \<not> (qIsNegative D ?c \<or> After ?start (rmDay mv)) \<and> 1 < day_Sub (rmDay mv) ?start + 1")
    case True
    then obtain share where q: "qMulFloat D ?c (fdiv (Fin 1) (f64_of_int (day_Sub (rmDay mv) ?start + 1))) = Some share"
      using share_Some by metis
    obtain m' s' where sp: "spread_shares D share ?start (rmDay mv) m (qZero D) = (m', s')" by fastforce
    have "distribute_one D from_day (m, prev) mv = Some (add_on D (rmDay mv) (qSub D ?c s') m', rmDay mv)"
      using True unfolding one by (simp add: q sp)
    then show thesis
      by (rule that) (use window_spread(1)[OF sp start assms(4)] add[of "qSub D ?c s'" m'] in simp_all)
  next
    case False
    then have "distribute_one D from_day (m, prev) mv = Some (add_on D (rmDay mv) ?c m, if FromCount mv then rmDay mv else prev)"
      unfolding one by auto
    then show thesis by (rule that) (use add[of ?c m] in simp_all)
  qed
qed

lemma distribute_all_sum:
  assumes "valid_day from_day" and "\<forall>mv \<in> set mvs. valid_day (rmDay mv) \<and> dnum from_day \<le> dnum (rmDay mv) \<and> dnum (rmDay mv) \<le> b"
  shows "\<exists>m' prev'. distribute_all D from_day (m, prev) mvs = Some (m', prev')
    \<and> window_sum D (dnum from_day) b m' = window_sum D (dnum from_day) b m - sum_list (map (\<lambda>mv. qval D (rmQty mv)) mvs)"
  using assms(2)
proof (induction mvs arbitrary: m prev)
  case (Cons mv mvs)
  then obtain m1 prev1 where 1: "distribute_one D from_day (m, prev) mv = Some (m1, prev1)"
    "window_sum D (dnum from_day) b m1 = window_sum D (dnum from_day) b m - qval D (rmQty mv)"
    using distribute_one_step[OF assms(1), of mv b m prev] by (metis list.set_intros(1))
  with Cons.IH[of m1 prev1] Cons.prems show ?case by auto
qed simp

lemma distribute_sum:
  assumes "valid_day from_day" and "\<forall>mv \<in> set mvs. valid_day (rmDay mv) \<and> dnum from_day \<le> dnum (rmDay mv) \<and> dnum (rmDay mv) \<le> b"
  obtains m where "distribute D mvs from_day = Some m"
    and "window_sum D (dnum from_day) b m = - sum_list (map (\<lambda>mv. qval D (rmQty mv)) mvs)"
  using distribute_all_sum[OF assms, of "\<lambda>_. qZero D" zero_day]
  by (auto simp: distribute_def window_sum_def intro: that)

end

lemma those_map_Some: "(\<And>x. x \<in> set xs \<Longrightarrow> f x = Some (g x)) \<Longrightarrow> those (map f xs) = Some (map g xs)"
  by (induction xs) auto

section \<open>The series\<close>

text \<open>(C22) The series of an item has one observation for each day of the window, in order, with the flags of
  that day, and the quantities add up to what the journal consumed: dividing the correction of a
  count over the days since the count before loses and adds nothing, whatever rounding the shares
  undergo. No input of the window makes it panic.\<close>
theorem buildSeries_conserves:
  assumes "decimal_api D" and "valid_day from_day" and "0 \<le> day_Sub to_day from_day + 1"
    and "\<forall>mv \<in> set mvs. valid_day (rmDay mv) \<and> dnum from_day \<le> dnum (rmDay mv) \<and> dnum (rmDay mv) \<le> dnum to_day"
  shows "\<exists>series. buildSeries D mvs daysWithData stockoutDays from_day to_day = Some series
    \<and> map fst series = remdups (map rmItem mvs)
    \<and> (\<forall>(i, obs) \<in> set series.
          map obsDay obs = map (\<lambda>k. AddDays from_day (int k)) [0..<nat (dnum to_day + 1 - dnum from_day)]
        \<and> sum_list (map (\<lambda>x. qval D (obsQty x)) obs) = - sum_list (map (\<lambda>mv. qval D (rmQty mv)) (filter (\<lambda>mv. rmItem mv = i) mvs))
        \<and> (\<forall>x \<in> set obs. (HasData x \<longleftrightarrow> obsDay x \<in> set daysWithData) \<and> (Stockout x \<longleftrightarrow> (i, obsDay x) \<in> set stockoutDays)))"
proof -
  define ms where "ms i = filter (\<lambda>mv. rmItem mv = i) mvs" for i
  have "\<exists>m. distribute D (ms i) from_day = Some m
      \<and> window_sum D (dnum from_day) (dnum to_day) m = - sum_list (map (\<lambda>mv. qval D (rmQty mv)) (ms i))" for i
    using decimal_api.distribute_sum[OF assms(1,2), of "ms i" "dnum to_day"] assms(4) by (auto simp: ms_def)
  then obtain f where f: "\<And>i. distribute D (ms i) from_day = Some (f i)"
    "\<And>i. window_sum D (dnum from_day) (dnum to_day) (f i) = - sum_list (map (\<lambda>mv. qval D (rmQty mv)) (ms i))" by metis
  define g where "g i = (i, map (observe (f i) daysWithData stockoutDays i) (day_range from_day to_day))" for i
  have "buildSeries D mvs daysWithData stockoutDays from_day to_day = those (map (Some \<circ> g) (remdups (map rmItem mvs)))"
    unfolding buildSeries_def by_item_def map_map
    by (rule arg_cong[where f = those], rule map_cong) (use assms(3) f(1) in \<open>simp_all add: ms_def[symmetric] g_def\<close>)
  then have b: "buildSeries D mvs daysWithData stockoutDays from_day to_day = Some (map g (remdups (map rmItem mvs)))"
    using those_map_Some[of "remdups (map rmItem mvs)" "Some \<circ> g" g] by simp
  have days: "day_range from_day to_day = map (\<lambda>k. AddDays from_day (int k)) [0..<nat (dnum to_day + 1 - dnum from_day)]"
    unfolding day_range_num[OF assms(2)] by (rule nth_equalityI) (auto simp: AddDays_num)
  have sum: "sum_list (map (\<lambda>x. qval D (obsQty x)) (snd (g i))) = - sum_list (map (\<lambda>mv. qval D (rmQty mv)) (ms i))" for i
    using sum_day_range[OF assms(2), of D "f i" to_day] f(2)[of i] by (simp add: g_def observe_def comp_def)
  show ?thesis
    unfolding b
  proof (intro exI[of _ "map g (remdups (map rmItem mvs))"] conjI refl)
    show "map fst (map g (remdups (map rmItem mvs))) = remdups (map rmItem mvs)" by (simp add: g_def comp_def)
  qed (auto simp: g_def observe_def comp_def days[symmetric] sum[unfolded g_def snd_conv observe_def map_map comp_def, simplified] ms_def)
qed

section \<open>Keyed tables\<close>

text \<open>The row \<open>new\<close> is in the table and it is the only one with its key.\<close>

definition stored :: "('r \<Rightarrow> 'k) \<Rightarrow> 'r \<Rightarrow> 'r list \<Rightarrow> bool" where
  "stored key new rows \<longleftrightarrow> new \<in> set rows \<and> (\<forall>x \<in> set rows. key x = key new \<longrightarrow> x = new)"

definition others :: "('r \<Rightarrow> 'k) \<Rightarrow> 'k set \<Rightarrow> 'r list \<Rightarrow> 'r list" where
  "others key ks rows = filter (\<lambda>x. key x \<notin> ks) rows"

lemma others_others: "others key ks (others key js rows) = others key (ks \<union> js) rows"
  by (auto simp: others_def intro!: filter_cong)

lemma others_mono: "others key ks rows' = others key ks rows \<Longrightarrow> ks \<subseteq> js \<Longrightarrow> others key js rows' = others key js rows"
  by (metis others_others sup.absorb1)

lemma stored_others: "others key ks rows' = others key ks rows \<Longrightarrow> key r \<notin> ks \<Longrightarrow> stored key r rows' \<longleftrightarrow> stored key r rows"
proof -
  have "stored key r xs \<longleftrightarrow> stored key r (others key ks xs)" if "key r \<notin> ks" for xs
    using that by (auto simp: stored_def others_def)
  then show "others key ks rows' = others key ks rows \<Longrightarrow> key r \<notin> ks \<Longrightarrow> ?thesis" by metis
qed

lemma stored_find:
  assumes "stored key r rows" and "tn r = tid"
  shows "find (\<lambda>x. key x = key r) (visible tid tn rows) = Some r"
proof -
  have "r \<in> set (visible tid tn rows)" using assms by (simp add: stored_def visible_def)
  then obtain x where x: "find (\<lambda>x. key x = key r) (visible tid tn rows) = Some x"
    by (metis (mono_tags, lifting) find_None_iff not_None_eq)
  then have "x \<in> set rows" "key x = key r" by (auto simp: find_Some_iff visible_def dest!: nth_mem)
  then show ?thesis using x assms(1) by (simp add: stored_def)
qed

lemma upsert_stored:
  assumes "upsert_tx tid tn (\<lambda>x. key x = key new) f new rows = Inr rows'" and "tn new = tid"
    and "\<And>x. key x = key new \<Longrightarrow> tn x = tid \<Longrightarrow> f x = new"
  shows "stored key new rows' \<and> others key {key new} rows' = others key {key new} rows"
proof -
  have own: "\<forall>x \<in> set rows. key x = key new \<longrightarrow> f x = new"
    using assms(1,3) by (auto simp: upsert_tx_def list_ex_iff split: if_splits)
  have eq: "rows' = upsert_row (\<lambda>x. key x = key new) f new rows"
    using assms(1) by (auto simp: upsert_tx_def split: if_splits)
  have "others key {key new} (update_rows (\<lambda>x. key x = key new) f rows) = others key {key new} rows"
    using own by (induction rows) (auto simp: others_def update_rows_def)
  then show ?thesis
    using own by (auto simp: eq upsert_row_def stored_def others_def update_rows_def list_ex_iff)
qed

lemma upsert_again:
  assumes "stored key new rows" and "tn new = tid" and "f new = new"
  shows "upsert_tx tid tn (\<lambda>x. key x = key new) f new rows = Inr rows"
proof -
  have "update_rows (\<lambda>x. key x = key new) f rows = rows"
    using assms(1,3) by (auto simp: update_rows_def stored_def intro!: map_idI)
  then show ?thesis
    using assms by (auto simp: upsert_tx_def upsert_row_def list_ex_iff stored_def)
qed

section \<open>Forecasts and days written in bulk\<close>

definition fc_key :: "forecast_row \<Rightarrow> uuid \<times> day" where "fc_key r = (fc_item r, fc_day r)"
definition dc_key :: "daily_row \<Rightarrow> uuid \<times> day" where "dc_key r = (dc_item r, dc_day r)"

text \<open>The rows as they are stored.\<close>

definition fc_stored :: "forecast_row \<Rightarrow> forecast_row" where
  "fc_stored r = r\<lparr>fc_qty := round_places 3 (fc_qty r), fc_day := pg_Date (fc_day r), fc_computed_at := pg_Time (fc_computed_at r)\<rparr>"

definition dc_stored :: "daily_row \<Rightarrow> daily_row" where
  "dc_stored r = r\<lparr>dc_qty := round_places 3 (dc_qty r), dc_day := pg_Date (dc_day r)\<rparr>"

definition fm_stored :: "forecast_metrics_row \<Rightarrow> forecast_metrics_row" where
  "fm_stored r = r\<lparr>fm_computed_at := pg_Time (fm_computed_at r)\<rparr>"

text \<open>How a bulk insert writes one row, and the same row once more.\<close>

locale row_writer =
  fixes tbl :: "'d db \<Rightarrow> 'r list" and put :: "'r list \<Rightarrow> 'd db \<Rightarrow> 'd db" and ins :: "'r \<Rightarrow> 'd db \<Rightarrow> db_error + 'd db"
    and key :: "'r \<Rightarrow> 'k" and norm :: "'r \<Rightarrow> 'r" and tn :: "'r \<Rightarrow> uuid"
  assumes ins_stores: "ins r st = Inr st' \<Longrightarrow> \<exists>rows. st' = put rows st \<and> stored key (norm r) rows
      \<and> others key {key (norm r)} rows = others key {key (norm r)} (tbl st)
      \<and> (\<forall>other. other \<noteq> tn r \<longrightarrow> visible other tn rows = visible other tn (tbl st))"
    and ins_again: "ins r st = Inr st' \<Longrightarrow> items st2 = items st \<Longrightarrow> stored key (norm r) (tbl st2) \<Longrightarrow> ins r st2 = Inr st2"
    and put_simps: "tbl (put rows st) = rows" "items (put rows st) = items st" "put rows (put rows' st) = put rows st" "put (tbl st) st = st"
begin

lemma rows_stored:
  assumes "foldM_rows ins rs st = Inr st'" and "distinct (map (\<lambda>r. key (norm r)) rs)" and "\<forall>r \<in> set rs. tn r = tid"
  shows "\<exists>rows. st' = put rows st \<and> (\<forall>r \<in> set rs. stored key (norm r) rows)
    \<and> others key ((\<lambda>r. key (norm r)) ` set rs) rows = others key ((\<lambda>r. key (norm r)) ` set rs) (tbl st)
    \<and> (\<forall>other. other \<noteq> tid \<longrightarrow> visible other tn rows = visible other tn (tbl st))"
  using assms
proof (induction rs arbitrary: st)
  case Nil
  then show ?case by (intro exI[of _ "tbl st"]) (simp add: put_simps)
next
  case (Cons r rs)
  let ?k = "\<lambda>r. key (norm r)"
  from Cons.prems(1) obtain st1 where i: "ins r st = Inr st1" and rest: "foldM_rows ins rs st1 = Inr st'" by auto
  from ins_stores[OF i] obtain rows1 where 1: "st1 = put rows1 st" "stored key (norm r) rows1"
    "others key {?k r} rows1 = others key {?k r} (tbl st)"
    "\<forall>other. other \<noteq> tn r \<longrightarrow> visible other tn rows1 = visible other tn (tbl st)" by blast
  from Cons.IH[OF rest] Cons.prems obtain rows where 2: "st' = put rows st1" "\<forall>r \<in> set rs. stored key (norm r) rows"
    "others key (?k ` set rs) rows = others key (?k ` set rs) (tbl st1)"
    "\<forall>other. other \<noteq> tid \<longrightarrow> visible other tn rows = visible other tn (tbl st1)" by auto
  have t: "tbl st1 = rows1" by (simp add: 1(1) put_simps)
  have "stored key (norm r) rows"
    using stored_others[OF 2(3)[unfolded t], of "norm r"] 1(2) Cons.prems(2) by auto
  moreover have "others key (?k ` set (r # rs)) rows = others key (?k ` set (r # rs)) (tbl st)"
    using others_mono[OF 2(3)[unfolded t], of "?k ` set (r # rs)"] others_mono[OF 1(3), of "?k ` set (r # rs)"] by auto
  ultimately show ?case
    using 1 2 t Cons.prems(3) by (intro exI[of _ rows]) (auto simp: put_simps)
qed

lemma rows_again:
  assumes "foldM_rows ins rs st = Inr st'" and "items st2 = items st" and "\<forall>r \<in> set rs. stored key (norm r) (tbl st2)"
  shows "foldM_rows ins rs st2 = Inr st2"
  using assms
proof (induction rs arbitrary: st)
  case (Cons r rs)
  from Cons.prems(1) obtain st1 where i: "ins r st = Inr st1" and rest: "foldM_rows ins rs st1 = Inr st'" by auto
  have "items st1 = items st" using ins_stores[OF i] by (auto simp: put_simps)
  then have "foldM_rows ins rs st2 = Inr st2" using Cons.IH[OF rest] Cons.prems by simp
  moreover have "ins r st2 = Inr st2" using ins_again[OF i] Cons.prems by simp
  ultimately show ?case by simp
qed simp

end

lemma forecast_writer: "row_writer forecasts (\<lambda>rows st. st\<lparr>forecasts := rows\<rparr>) insert_forecast fc_key fc_stored fc_tenant"
proof
  fix r :: forecast_row and st st' :: "'d db"
  let ?n = "fc_stored r"
  let ?f = "\<lambda>x. x\<lparr>fc_qty := fc_qty ?n, fc_model := fc_model ?n, fc_computed_at := fc_computed_at ?n\<rparr>"
  assume "insert_forecast r st = Inr st'"
  then obtain rows where q: "numeric_14_3 (fc_qty r) = Inr (fc_qty ?n)" and nn: "0 \<le> fc_qty ?n"
    and up: "upsert_tx (fc_tenant r) fc_tenant (\<lambda>x. fc_key x = fc_key ?n) ?f ?n (forecasts st) = Inr rows"
    and it: "item_exists (fc_tenant r) (fc_item r) st" and st': "st' = st\<lparr>forecasts := rows\<rparr>"
    by (auto simp: insert_forecast_def Let_def numeric_14_3_Inr fc_stored_def fc_key_def)
  have t: "fc_tenant ?n = fc_tenant r" "?f ?n = ?n" by (simp_all add: fc_stored_def)
  have f: "fc_key x = fc_key ?n \<Longrightarrow> fc_tenant x = fc_tenant r \<Longrightarrow> ?f x = ?n" for x
    by (simp add: fc_key_def fc_stored_def)
  have "stored fc_key ?n rows \<and> others fc_key {fc_key ?n} rows = others fc_key {fc_key ?n} (forecasts st)"
    by (rule upsert_stored[OF up t(1) f])
  moreover have "visible other fc_tenant rows = visible other fc_tenant (forecasts st)" if "other \<noteq> fc_tenant r" for other
    by (rule upsert_visible_other[OF up t(1) _ that]) simp
  ultimately show "\<exists>rows. st' = st\<lparr>forecasts := rows\<rparr> \<and> stored fc_key ?n rows
      \<and> others fc_key {fc_key ?n} rows = others fc_key {fc_key ?n} (forecasts st)
      \<and> (\<forall>other. other \<noteq> fc_tenant r \<longrightarrow> visible other fc_tenant rows = visible other fc_tenant (forecasts st))"
    using st' by blast
  fix st2 :: "'d db"
  assume s: "items st2 = items st" "stored fc_key ?n (forecasts st2)"
  have "upsert_tx (fc_tenant r) fc_tenant (\<lambda>x. fc_key x = fc_key ?n) ?f ?n (forecasts st2) = Inr (forecasts st2)"
    by (rule upsert_again) (use s(2) t in simp_all)
  then show "insert_forecast r st2 = Inr st2"
    using it s(1) nn q by (simp add: insert_forecast_def Let_def item_exists_def fc_stored_def fc_key_def)
qed simp_all

lemma daily_writer: "row_writer daily (\<lambda>rows st. st\<lparr>daily := rows\<rparr>) insert_daily dc_key dc_stored dc_tenant"
proof
  fix r :: daily_row and st st' :: "'d db"
  let ?n = "dc_stored r"
  let ?f = "\<lambda>x. x\<lparr>dc_qty := dc_qty ?n, dc_has_data := dc_has_data ?n, dc_stockout := dc_stockout ?n\<rparr>"
  assume "insert_daily r st = Inr st'"
  then obtain rows where q: "numeric_14_3 (dc_qty r) = Inr (dc_qty ?n)"
    and up: "upsert_tx (dc_tenant r) dc_tenant (\<lambda>x. dc_key x = dc_key ?n) ?f ?n (daily st) = Inr rows"
    and it: "item_exists (dc_tenant r) (dc_item r) st" and st': "st' = st\<lparr>daily := rows\<rparr>"
    by (auto simp: insert_daily_def Let_def numeric_14_3_Inr dc_stored_def dc_key_def)
  have t: "dc_tenant ?n = dc_tenant r" "?f ?n = ?n" by (simp_all add: dc_stored_def)
  have f: "dc_key x = dc_key ?n \<Longrightarrow> dc_tenant x = dc_tenant r \<Longrightarrow> ?f x = ?n" for x
    by (simp add: dc_key_def dc_stored_def)
  have "stored dc_key ?n rows \<and> others dc_key {dc_key ?n} rows = others dc_key {dc_key ?n} (daily st)"
    by (rule upsert_stored[OF up t(1) f])
  moreover have "visible other dc_tenant rows = visible other dc_tenant (daily st)" if "other \<noteq> dc_tenant r" for other
    by (rule upsert_visible_other[OF up t(1) _ that]) simp
  ultimately show "\<exists>rows. st' = st\<lparr>daily := rows\<rparr> \<and> stored dc_key ?n rows
      \<and> others dc_key {dc_key ?n} rows = others dc_key {dc_key ?n} (daily st)
      \<and> (\<forall>other. other \<noteq> dc_tenant r \<longrightarrow> visible other dc_tenant rows = visible other dc_tenant (daily st))"
    using st' by blast
  fix st2 :: "'d db"
  assume s: "items st2 = items st" "stored dc_key ?n (daily st2)"
  have "upsert_tx (dc_tenant r) dc_tenant (\<lambda>x. dc_key x = dc_key ?n) ?f ?n (daily st2) = Inr (daily st2)"
    by (rule upsert_again) (use s(2) t in simp_all)
  then show "insert_daily r st2 = Inr st2"
    using it s(1) q by (simp add: insert_daily_def Let_def item_exists_def dc_stored_def dc_key_def)
qed simp_all

interpretation forecast_rows: row_writer forecasts "\<lambda>rows st. st\<lparr>forecasts := rows\<rparr>" insert_forecast fc_key fc_stored fc_tenant
  by (rule forecast_writer)

interpretation daily_rows: row_writer daily "\<lambda>rows st. st\<lparr>daily := rows\<rparr>" insert_daily dc_key dc_stored dc_tenant
  by (rule daily_writer)

lemma foldM_items:
  assumes "foldM_rows f rs st = Inr st'" and "\<And>r st st'. f r st = Inr st' \<Longrightarrow> items st' = items st"
  shows "items st' = items st"
  using assms(1) by (induction rs arbitrary: st) (auto dest: assms(2))

definition upsert_metrics :: "forecast_metrics_row \<Rightarrow> 'd db \<Rightarrow> db_error + 'd db" where
  "upsert_metrics r st = bindE (UpsertForecastMetrics r st) (\<lambda>(u, st'). Inr st')"

lemma metrics_writer: "row_writer forecast_metrics (\<lambda>rows st. st\<lparr>forecast_metrics := rows\<rparr>) upsert_metrics fm_item fm_stored fm_tenant"
proof
  fix r :: forecast_metrics_row and st st' :: "'d db"
  let ?n = "fm_stored r"
  let ?f = "\<lambda>x. ?n\<lparr>fm_tenant := fm_tenant x, fm_item := fm_item x\<rparr>"
  assume "upsert_metrics r st = Inr st'"
  then obtain rows where up: "upsert_tx (fm_tenant r) fm_tenant (\<lambda>x. fm_item x = fm_item ?n) ?f ?n (forecast_metrics st) = Inr rows"
    and it: "item_exists (fm_tenant r) (fm_item r) st" and st': "st' = st\<lparr>forecast_metrics := rows\<rparr>"
    by (auto simp: upsert_metrics_def UpsertForecastMetrics_def Let_def fm_stored_def)
  have t: "fm_tenant ?n = fm_tenant r" "?f ?n = ?n" by (simp_all add: fm_stored_def)
  have "stored fm_item ?n rows \<and> others fm_item {fm_item ?n} rows = others fm_item {fm_item ?n} (forecast_metrics st)"
    by (rule upsert_stored[OF up t(1)]) (simp add: fm_stored_def)
  moreover have "visible other fm_tenant rows = visible other fm_tenant (forecast_metrics st)" if "other \<noteq> fm_tenant r" for other
    by (rule upsert_visible_other[OF up t(1) _ that]) simp
  ultimately show "\<exists>rows. st' = st\<lparr>forecast_metrics := rows\<rparr> \<and> stored fm_item ?n rows
      \<and> others fm_item {fm_item ?n} rows = others fm_item {fm_item ?n} (forecast_metrics st)
      \<and> (\<forall>other. other \<noteq> fm_tenant r \<longrightarrow> visible other fm_tenant rows = visible other fm_tenant (forecast_metrics st))"
    using st' by blast
  fix st2 :: "'d db"
  assume s: "items st2 = items st" "stored fm_item ?n (forecast_metrics st2)"
  have "upsert_tx (fm_tenant r) fm_tenant (\<lambda>x. fm_item x = fm_item ?n) ?f ?n (forecast_metrics st2) = Inr (forecast_metrics st2)"
    by (rule upsert_again) (use s(2) t in simp_all)
  then show "upsert_metrics r st2 = Inr st2"
    using it s(1) by (simp add: upsert_metrics_def UpsertForecastMetrics_def Let_def item_exists_def fm_stored_def)
qed simp_all

interpretation metrics_rows: row_writer forecast_metrics "\<lambda>rows st. st\<lparr>forecast_metrics := rows\<rparr>" upsert_metrics fm_item fm_stored fm_tenant
  by (rule metrics_writer)

lemma metrics_loop:
  "tx_for results (\<lambda>(i, r). dbtx tag (UpsertForecastMetrics (mk i r))) st = Inr (u, st') \<longleftrightarrow>
     foldM_rows upsert_metrics (map (\<lambda>(i, r). mk i r) results) st = Inr st'"
proof (induction results arbitrary: st)
  case (Cons a results)
  have one: "upsert_metrics m st = Inr st1 \<longleftrightarrow> dbtx tag (UpsertForecastMetrics m) st = Inr ((), st1)" for m st1
    by (auto simp: upsert_metrics_def bindE_Inr_iff)
  show ?case
    by (simp only: tx_for.simps foldM_rows.simps list.map tx_bind_Inr bindE_Inr_iff split_def one Cons[unfolded split_def] ex_simps split_paired_Ex) simp
qed simp

section \<open>Storing\<close>

definition all_points :: "'d decimal_lib \<Rightarrow> tenant \<Rightarrow> instant \<Rightarrow> (uuid \<times> 'd forecast_result) list \<Rightarrow> forecast_row list" where
  "all_points D t now results = concat (map (point_rows D t now) (filter (\<lambda>(i, r). \<not> without_model r) results))"

definition without_items :: "(uuid \<times> 'd forecast_result) list \<Rightarrow> uuid list" where
  "without_items results = map fst (filter (\<lambda>(i, r). without_model r) results)"

definition cleared :: "uuid \<Rightarrow> day \<Rightarrow> uuid list \<Rightarrow> forecast_row list \<Rightarrow> forecast_row list" where
  "cleared tid d ids rows = filter (\<lambda>r. \<not> (fc_tenant r = tid \<and> dnum d \<le> dnum (fc_day r) \<and> fc_item r \<in> set ids)) rows"

lemma storeAllTx_Inr:
  "storeAllTx D t results today now st = Inr (u, st') \<longleftrightarrow> (\<exists>st1.
     foldM_rows upsert_metrics (map (\<lambda>(i, r). metrics_row t now i r) results) st = Inr st1
     \<and> distinct (map (\<lambda>r. (fc_item r, pg_Date (fc_day r))) (all_points D t now results))
     \<and> foldM_rows insert_forecast (all_points D t now results)
         (st1\<lparr>forecasts := cleared (tenantID t) (pg_Date today) (without_items results) (forecasts st1)\<rparr>) = Inr st')"
proof -
  have clear: "(if without_items results = [] then tx_return ()
        else dbtx ''clear'' (DeleteForecastsFromForItems (tenantID t) (pg_Date today) (without_items results))) st1 =
      Inr ((), st1\<lparr>forecasts := cleared (tenantID t) (pg_Date today) (without_items results) (forecasts st1)\<rparr>)" for st1
    by (simp add: DeleteForecastsFromForItems_def cleared_def)
  have bulk: "(if rows = [] then tx_return () else dbtx ''forecasts'' (BulkUpsertForecasts rows)) st2 = Inr (u, st') \<longleftrightarrow>
      distinct (map (\<lambda>r. (fc_item r, pg_Date (fc_day r))) rows) \<and> foldM_rows insert_forecast rows st2 = Inr st'" for rows st2
    by (cases "rows = []") (auto simp: BulkUpsertForecasts_def bindE_Inr_iff)
  show ?thesis
    unfolding storeAllTx_def Let_def without_items_def[symmetric] all_points_def[symmetric] tx_bind_Inr clear bulk metrics_loop
    by blast
qed

text \<open>What the tables hold for the results: the metrics of every item, the points of an item with a model,
  and no later day of an item without one.\<close>

definition results_stored :: "'d decimal_lib \<Rightarrow> tenant \<Rightarrow> (uuid \<times> 'd forecast_result) list \<Rightarrow> day \<Rightarrow> instant \<Rightarrow> 'd db \<Rightarrow> bool" where
  "results_stored D t results today now st \<longleftrightarrow>
     (\<forall>(i, r) \<in> set results. stored fm_item (fm_stored (metrics_row t now i r)) (forecast_metrics st))
   \<and> (\<forall>row \<in> set (all_points D t now results). stored fc_key (fc_stored row) (forecasts st))
   \<and> cleared (tenantID t) (pg_Date today) (without_items results) (forecasts st) = forecasts st"

lemma points_items: "row \<in> set (all_points D t now results) \<Longrightarrow> \<exists>r. (fc_item row, r) \<in> set results \<and> \<not> without_model r"
  by (auto simp: all_points_def point_rows_def)

lemma points_tenant: "\<forall>row \<in> set (all_points D t now results). fc_tenant row = tenantID t"
  by (auto simp: all_points_def point_rows_def)

lemma points_with_model:
  assumes "distinct (map fst results)" and "row \<in> set (all_points D t now results)"
  shows "fc_item row \<notin> set (without_items results)"
proof
  assume "fc_item row \<in> set (without_items results)"
  then obtain r where r: "(fc_item row, r) \<in> set results" "without_model r" by (auto simp: without_items_def)
  from points_items[OF assms(2)] obtain r' where r': "(fc_item row, r') \<in> set results" "\<not> without_model r'" by blast
  then show False using r eq_key_imp_eq_value[OF assms(1)] by blast
qed

lemma storeAllTx_stores:
  assumes "storeAllTx D t results today now st = Inr (u, st')" and "distinct (map fst results)"
  obtains ms fs where "st' = st\<lparr>forecast_metrics := ms, forecasts := fs\<rparr>" and "results_stored D t results today now st'"
    and "others fm_item (fst ` set results) ms = others fm_item (fst ` set results) (forecast_metrics st)"
    and "others fc_item (fst ` set results) fs = others fc_item (fst ` set results) (forecasts st)"
    and "\<forall>other. other \<noteq> tenantID t \<longrightarrow> visible other fm_tenant ms = visible other fm_tenant (forecast_metrics st)
      \<and> visible other fc_tenant fs = visible other fc_tenant (forecasts st)"
proof -
  let ?tid = "tenantID t" and ?rows = "all_points D t now results"
  let ?mrows = "map (\<lambda>(i, r). metrics_row t now i r) results"
  have mi: "map (\<lambda>r. fm_item (fm_stored r)) ?mrows = map fst results"
    by (auto simp: fm_stored_def metrics_row_def Let_def)
  from assms(1)[unfolded storeAllTx_Inr] obtain st1 where
    m: "foldM_rows upsert_metrics ?mrows st = Inr st1"
    and d: "distinct (map (\<lambda>r. (fc_item r, pg_Date (fc_day r))) ?rows)"
    and b: "foldM_rows insert_forecast ?rows (st1\<lparr>forecasts := cleared ?tid (pg_Date today) (without_items results) (forecasts st1)\<rparr>) = Inr st'"
    by blast
  have mt: "\<forall>r \<in> set ?mrows. fm_tenant r = ?tid" by (auto simp: metrics_row_def Let_def)
  have md: "distinct (map (\<lambda>r. fm_item (fm_stored r)) ?mrows)" unfolding mi by (rule assms(2))
  have mset: "(\<lambda>r. fm_item (fm_stored r)) ` set ?mrows = fst ` set results"
    using arg_cong[OF mi, of set] by (simp add: image_image)
  from metrics_rows.rows_stored[OF m md mt] obtain ms where ms: "st1 = st\<lparr>forecast_metrics := ms\<rparr>"
    "\<forall>r \<in> set ?mrows. stored fm_item (fm_stored r) ms"
    "others fm_item (fst ` set results) ms = others fm_item (fst ` set results) (forecast_metrics st)"
    "\<forall>other. other \<noteq> ?tid \<longrightarrow> visible other fm_tenant ms = visible other fm_tenant (forecast_metrics st)"
    unfolding mset by blast
  define fs0 where "fs0 = cleared ?tid (pg_Date today) (without_items results) (forecasts st)"
  have keys: "(\<lambda>r. (fc_item r, pg_Date (fc_day r))) = (\<lambda>r. fc_key (fc_stored r))" by (auto simp: fc_key_def fc_stored_def)
  from forecast_rows.rows_stored[OF b d[unfolded keys] points_tenant] obtain fs where
    fs: "st' = st\<lparr>forecast_metrics := ms, forecasts := fs\<rparr>" "\<forall>r \<in> set ?rows. stored fc_key (fc_stored r) fs"
    "others fc_key ((\<lambda>r. fc_key (fc_stored r)) ` set ?rows) fs = others fc_key ((\<lambda>r. fc_key (fc_stored r)) ` set ?rows) fs0"
    "\<forall>other. other \<noteq> ?tid \<longrightarrow> visible other fc_tenant fs = visible other fc_tenant fs0"
    unfolding ms(1) fs0_def by auto
  have old: "x \<in> set fs \<longleftrightarrow> x \<in> set fs0" if "fc_key x \<notin> (\<lambda>r. fc_key (fc_stored r)) ` set ?rows" for x
  proof -
    have "x \<in> set (others fc_key ((\<lambda>r. fc_key (fc_stored r)) ` set ?rows) fs) \<longleftrightarrow> x \<in> set (others fc_key ((\<lambda>r. fc_key (fc_stored r)) ` set ?rows) fs0)"
      using fs(3) by simp
    then show ?thesis using that by (simp add: others_def)
  qed
  have "cleared ?tid (pg_Date today) (without_items results) fs = fs"
    unfolding cleared_def
  proof (rule filter_True, rule ballI, rule notI)
    fix x assume x: "x \<in> set fs" and c: "fc_tenant x = ?tid \<and> dnum (pg_Date today) \<le> dnum (fc_day x) \<and> fc_item x \<in> set (without_items results)"
    then have "fc_key x \<notin> (\<lambda>r. fc_key (fc_stored r)) ` set ?rows"
      using points_with_model[OF assms(2)] by (auto simp: fc_key_def fc_stored_def)
    with old x have "x \<in> set fs0" by blast
    then show False using c by (simp add: fs0_def cleared_def)
  qed
  then have rs: "results_stored D t results today now st'"
    using ms(2) fs(1,2) by (auto simp: results_stored_def)
  have "others fc_item (fst ` set results) fs = others fc_item (fst ` set results) (forecasts st)"
  proof -
    have k: "others fc_item (fst ` set results) xs = others fc_item (fst ` set results) (others fc_key ((\<lambda>r. fc_key (fc_stored r)) ` set ?rows) xs)" for xs
      unfolding others_def filter_filter
      by (rule filter_cong) (use points_items in \<open>force simp: fc_key_def fc_stored_def\<close>)+
    have c: "others fc_item (fst ` set results) fs0 = others fc_item (fst ` set results) (forecasts st)"
      unfolding others_def fs0_def cleared_def filter_filter
      by (rule filter_cong) (auto simp: without_items_def)
    show ?thesis by (metis k fs(3) c)
  qed
  moreover have "visible other fc_tenant fs = visible other fc_tenant (forecasts st)" if "other \<noteq> ?tid" for other
  proof -
    have "visible other fc_tenant fs0 = visible other fc_tenant (forecasts st)"
      using that by (auto simp: visible_def fs0_def cleared_def intro!: filter_cong)
    then show ?thesis using fs(4) that by simp
  qed
  ultimately show thesis using that fs(1) rs ms(3,4) by blast
qed

lemma storeAllTx_again:
  assumes "storeAllTx D t results today now st = Inr (u, st')" and "items st2 = items st"
    and "results_stored D t results today now st2"
  shows "storeAllTx D t results today now st2 = Inr ((), st2)"
proof -
  from assms(1)[unfolded storeAllTx_Inr] obtain st1 where
    m: "foldM_rows upsert_metrics (map (\<lambda>(i, r). metrics_row t now i r) results) st = Inr st1"
    and d: "distinct (map (\<lambda>r. (fc_item r, pg_Date (fc_day r))) (all_points D t now results))"
    and b: "foldM_rows insert_forecast (all_points D t now results)
      (st1\<lparr>forecasts := cleared (tenantID t) (pg_Date today) (without_items results) (forecasts st1)\<rparr>) = Inr st'"
    by blast
  have "items st1 = items st"
    by (rule foldM_items[OF m]) (auto simp: upsert_metrics_def UpsertForecastMetrics_def Let_def)
  then have "foldM_rows insert_forecast (all_points D t now results) st2 = Inr st2"
    using assms(2,3) by (intro forecast_rows.rows_again[OF b]) (simp_all add: results_stored_def)
  moreover have "foldM_rows upsert_metrics (map (\<lambda>(i, r). metrics_row t now i r) results) st2 = Inr st2"
    using assms(2,3) by (intro metrics_rows.rows_again[OF m]) (auto simp: results_stored_def)
  moreover have "st2\<lparr>forecasts := cleared (tenantID t) (pg_Date today) (without_items results) (forecasts st2)\<rparr> = st2"
    using assms(3) by (simp add: results_stored_def)
  ultimately show ?thesis unfolding storeAllTx_Inr using d by auto
qed

section \<open>Rebuilding\<close>

definition series_of :: "'d decimal_lib \<Rightarrow> tenant \<Rightarrow> day \<Rightarrow> day \<Rightarrow> 'd db \<Rightarrow> 'd series option" where
  "series_of D t from_day today st = (let tid = tenantID t; tz = Loc t; since = day_Time from_day tz; til = day_Time today tz in
     map_option (with_all_items (ListActiveItemIDs tid st))
       (buildSeries D (map (raw_movement_of D) (ListConsumptionMovementsForSeries tid tz since til st))
          (ListDaysWithUsage tid tz since st) (ListStockoutDays tid tz til st) from_day (AddDays today (- 1))))"

definition day_row :: "'d decimal_lib \<Rightarrow> tenant \<Rightarrow> uuid \<Rightarrow> 'd observation \<Rightarrow> daily_row" where
  "day_row D t i x = \<lparr>dc_tenant = tenantID t, dc_item = i, dc_day = obsDay x, dc_qty = DecimalOf D (obsQty x),
     dc_has_data = HasData x, dc_stockout = Stockout x\<rparr>"

definition day_rows :: "'d decimal_lib \<Rightarrow> tenant \<Rightarrow> 'd series \<Rightarrow> daily_row list" where
  "day_rows D t series = concat (map (\<lambda>(i, obs). map (day_row D t i) obs) series)"

definition kept_days :: "uuid \<Rightarrow> day \<Rightarrow> daily_row list \<Rightarrow> daily_row list" where
  "kept_days tid d rows = filter (\<lambda>r. \<not> (dc_tenant r = tid \<and> dnum (dc_day r) < dnum d)) rows"

definition days_stored :: "'d decimal_lib \<Rightarrow> tenant \<Rightarrow> 'd series \<Rightarrow> day \<Rightarrow> 'd db \<Rightarrow> bool" where
  "days_stored D t series from_day st \<longleftrightarrow> (\<forall>row \<in> set (day_rows D t series). stored dc_key (dc_stored row) (daily st))
     \<and> kept_days (tenantID t) from_day (daily st) = daily st"

lemma rebuildSeriesTx_Inr:
  "rebuildSeriesTx D t from_day today st = Inr (series, st') \<longleftrightarrow> series_of D t from_day today st = Some series
     \<and> distinct (map (\<lambda>r. (dc_item r, pg_Date (dc_day r))) (day_rows D t series))
     \<and> (\<exists>st1. foldM_rows insert_daily (day_rows D t series) st = Inr st1
         \<and> st' = st1\<lparr>daily := kept_days (tenantID t) from_day (daily st1)\<rparr>)"
proof -
  have save: "saveSeries t D series st = Inr (u, st1) \<longleftrightarrow>
      distinct (map (\<lambda>r. (dc_item r, pg_Date (dc_day r))) (day_rows D t series))
      \<and> foldM_rows insert_daily (day_rows D t series) st = Inr st1" for u st1 series
    unfolding saveSeries_def Let_def day_row_def[symmetric] day_rows_def[symmetric]
    by (cases "day_rows D t series = []") (auto simp: BulkUpsertDailyConsumption_def bindE_Inr_iff)
  show ?thesis
    unfolding rebuildSeriesTx_def Let_def
    by (auto simp: tx_bind_Inr tx_of_sum_def from_opt_def save series_of_def Let_def DeleteDailyConsumptionBefore_def
        kept_days_def split: option.splits)
qed

lemma those_map_all2: "those (map f xs) = Some ys \<Longrightarrow> list_all2 (\<lambda>x y. f x = Some y) xs ys"
  by (induction xs arbitrary: ys) (auto split: option.splits)

lemma buildSeries_days:
  assumes "buildSeries D mvs withData outs from_day to_day = Some series"
  shows "map fst series = remdups (map rmItem mvs)" and "(i, obs) \<in> set series \<Longrightarrow> map obsDay obs = day_range from_day to_day"
proof -
  have l: "list_all2 (\<lambda>(i, ms) (j, obs). i = j \<and> map obsDay obs = day_range from_day to_day) (by_item mvs) series"
    using those_map_all2[OF assms[unfolded buildSeries_def]]
    by (rule list_all2_mono) (auto simp: observe_def comp_def bind_eq_Some_conv split: if_splits)
  have "map fst (by_item mvs) = map fst series"
    using l by (induction rule: list_all2_induct) auto
  then show "map fst series = remdups (map rmItem mvs)" by (simp add: by_item_def comp_def)
  show "(i, obs) \<in> set series \<Longrightarrow> map obsDay obs = day_range from_day to_day"
    using l by (induction rule: list_all2_induct) auto
qed

lemma series_of_Some:
  assumes "series_of D t from_day today st = Some series"
  shows "distinct (map fst series)" and "set (ListActiveItemIDs (tenantID t) st) \<subseteq> fst ` set series"
    and "(i, obs) \<in> set series \<Longrightarrow> obs = [] \<or> map obsDay obs = day_range from_day (AddDays today (- 1))"
proof -
  from assms obtain built mvs withData outs where b: "buildSeries D mvs withData outs from_day (AddDays today (- 1)) = Some built"
    and s: "series = with_all_items (ListActiveItemIDs (tenantID t) st) built"
    by (auto simp: series_of_def Let_def)
  show "distinct (map fst series)"
  proof -
    have "distinct (map fst built)" using buildSeries_days(1)[OF b] by simp
    then show ?thesis by (auto simp: s with_all_items_def comp_def)
  qed
  show "set (ListActiveItemIDs (tenantID t) st) \<subseteq> fst ` set series"
    unfolding s with_all_items_def set_append image_Un by (auto simp: image_image simp del: split_paired_Ex)
  show "(i, obs) \<in> set series \<Longrightarrow> obs = [] \<or> map obsDay obs = day_range from_day (AddDays today (- 1))"
    using buildSeries_days(2)[OF b] by (auto simp: s with_all_items_def)
qed

lemma series_of_cong:
  "stock_frame st st' \<Longrightarrow> series_of D t from_day today st' = series_of D t from_day today st"
  by (simp add: series_of_def Let_def stock_frame_def ListActiveItemIDs_def ListConsumptionMovementsForSeries_def
      ListDaysWithUsage_def ListStockoutDays_def)

lemma rebuildSeriesTx_stores:
  assumes "rebuildSeriesTx D t from_day today st = Inr (series, st')" and "valid_day from_day"
  obtains rows where "st' = st\<lparr>daily := rows\<rparr>" and "series_of D t from_day today st = Some series"
    and "days_stored D t series from_day st'"
    and "\<forall>other. other \<noteq> tenantID t \<longrightarrow> visible other dc_tenant rows = visible other dc_tenant (daily st)"
proof -
  let ?tid = "tenantID t" and ?rows = "day_rows D t series"
  from assms(1)[unfolded rebuildSeriesTx_Inr] obtain st1 where s: "series_of D t from_day today st = Some series"
    and d: "distinct (map (\<lambda>r. (dc_item r, pg_Date (dc_day r))) ?rows)" and b: "foldM_rows insert_daily ?rows st = Inr st1"
    and st': "st' = st1\<lparr>daily := kept_days ?tid from_day (daily st1)\<rparr>" by blast
  have keys: "(\<lambda>r. (dc_item r, pg_Date (dc_day r))) = (\<lambda>r. dc_key (dc_stored r))" by (auto simp: dc_key_def dc_stored_def)
  have "\<forall>r \<in> set ?rows. dc_tenant r = ?tid" by (auto simp: day_rows_def day_row_def)
  from daily_rows.rows_stored[OF b d[unfolded keys] this] obtain rows where rows: "st1 = st\<lparr>daily := rows\<rparr>"
    "\<forall>r \<in> set ?rows. stored dc_key (dc_stored r) rows"
    "\<forall>other. other \<noteq> ?tid \<longrightarrow> visible other dc_tenant rows = visible other dc_tenant (daily st)" by blast
  have late: "dnum from_day \<le> dnum (dc_day (dc_stored r))" if "r \<in> set ?rows" for r
  proof -
    from that obtain i obs x where o: "(i, obs) \<in> set series" "x \<in> set obs" "r = day_row D t i x" by (auto simp: day_rows_def)
    then have "map obsDay obs = day_range from_day (AddDays today (- 1))" using series_of_Some(3)[OF s o(1)] by auto
    moreover have "obsDay x \<in> set (map obsDay obs)" using o(2) by simp
    ultimately have "obsDay x \<in> set (day_range from_day (AddDays today (- 1)))" by simp
    then show ?thesis using o(3) by (auto simp: day_range_num[OF assms(2)] day_row_def dc_stored_def pg_Date_def)
  qed
  have "stored dc_key (dc_stored r) (kept_days ?tid from_day rows)" if "r \<in> set ?rows" for r
    using rows(2) late[OF that] that by (auto simp: stored_def kept_days_def)
  then have "days_stored D t series from_day st'"
    by (auto simp: days_stored_def st' rows(1) kept_days_def)
  moreover have "visible other dc_tenant (kept_days ?tid from_day rows) = visible other dc_tenant rows" if "other \<noteq> ?tid" for other
    using that by (auto simp: visible_def kept_days_def intro!: filter_cong)
  ultimately show thesis using that[of "kept_days ?tid from_day rows"] s rows(3) by (simp add: st' rows(1))
qed

lemma rebuildSeriesTx_again:
  assumes "rebuildSeriesTx D t from_day today st = Inr (series, st')" and "stock_frame st st2"
    and "days_stored D t series from_day st2"
  shows "rebuildSeriesTx D t from_day today st2 = Inr (series, st2)"
proof -
  from assms(1)[unfolded rebuildSeriesTx_Inr] obtain st1 where s: "series_of D t from_day today st = Some series"
    and d: "distinct (map (\<lambda>r. (dc_item r, pg_Date (dc_day r))) (day_rows D t series))"
    and b: "foldM_rows insert_daily (day_rows D t series) st = Inr st1" by blast
  have "foldM_rows insert_daily (day_rows D t series) st2 = Inr st2"
    using assms(2,3) by (intro daily_rows.rows_again[OF b]) (auto simp: days_stored_def stock_frame_def)
  moreover have "st2\<lparr>daily := kept_days (tenantID t) from_day (daily st2)\<rparr> = st2"
    using assms(3) by (simp add: days_stored_def)
  ultimately show ?thesis
    unfolding rebuildSeriesTx_Inr using d s series_of_cong[OF assms(2), of D t from_day today] by (intro conjI exI[of _ st2]) simp_all
qed

section \<open>The statuses after the forecast\<close>

text \<open>A step of a tenant that leaves the stock and what a run stores alone.\<close>

definition status_step :: "uuid \<Rightarrow> 'd db \<Rightarrow> 'd db \<Rightarrow> bool" where
  "status_step tid st st' \<longleftrightarrow> stock_frame st st' \<and> daily st' = daily st \<and> forecasts st' = forecasts st
     \<and> forecast_metrics st' = forecast_metrics st \<and> (\<forall>other. other \<noteq> tid \<longrightarrow> tenant_view other st' = tenant_view other st)"

lemma status_step_refl [simp]: "status_step tid st st"
  by (simp add: status_step_def)

lemma status_step_trans [trans]: "status_step tid a b \<Longrightarrow> status_step tid b c \<Longrightarrow> status_step tid a c"
  by (auto simp: status_step_def intro: stock_frame_trans)

locale status_refresher =
  fixes refresh :: "'d refresher"
  assumes refresh_step: "refresh w t st = (res, st') \<Longrightarrow> status_step (tenantID t) st st'"

lemma batch_item_step:
  assumes "batch_item D s w t mk previous row st = Inr (u, st')" and "alerts_ok s"
  shows "status_step (tenantID t) st st'"
proof -
  from assms(1) obtain d st1 where p: "persistBatch D s w t row d st = Inr ((), st1)"
    and a: "alert_red D s w t row (mk row) d (previous (stItem row)) st1 = Inr (u, st')"
    by (auto simp: batch_item_def Let_def tx_bind_Inr tx_of_sum_def from_opt_def split: option.splits)
  have up: "UpsertItemStatus (status_params D s w t row d) st = Inr ((), st1)" using p by (auto simp: persistBatch_def)
  then have "persist D s w t row d st = Inr ((), st1)"
    using p by (auto simp: persist_def persistBatch_def tx_bind_def tx_guard_def split: if_splits)
  note f = persist_Inr(1,4)[OF this] alert_red_Inr(1)[OF a assms(2)]
  have "status_step (tenantID t) st st1"
    using f(1,2) by (auto simp: status_step_def stock_frame_def)
  moreover have "status_step (tenantID t) st1 st'"
    using f(3) by (auto simp: status_step_def feed_step_def)
  ultimately show ?thesis by (rule status_step_trans)
qed

lemma RecalculateAll_refreshes:
  assumes "alerts_ok s"
  shows "status_refresher (RecalculateAll D s)"
proof
  fix w t st res st'
  assume r: "RecalculateAll D s w t st = (res, st')"
  have "status_step (tenantID t) st st1" if "recalculateAllTx D s w t st = Inr (u, st1)" for u st1
  proof -
    from that obtain mk previous where "tx_for (ListItemsForStatus (tenantID t) st) (batch_item D s w t mk previous) st = Inr (u, st1)"
      by (auto simp: recalculateAllTx_def Let_def tx_bind_Inr split: if_splits)
    then show ?thesis
      by (rule tx_for_invariant) (auto intro: status_step_trans batch_item_step[OF _ assms])
  qed
  with r show "status_step (tenantID t) st st'"
    by (auto simp: RecalculateAll_def InTenantTx_def split: sum.splits)
qed

interpretation plain_refresher: status_refresher "RecalculateAll D (NewReplenishService cl None)" for D cl
  by (rule RecalculateAll_refreshes) (simp add: alerts_ok_def NewReplenishService_def)

definition refreshes_ok :: "'d pipeline_service \<Rightarrow> bool" where
  "refreshes_ok s \<longleftrightarrow> (\<forall>f. ppStatuses s = Some f \<longrightarrow> status_refresher f)"

section \<open>Runs\<close>

definition run_from :: "'d pipeline_service \<Rightarrow> instant \<Rightarrow> tenant \<Rightarrow> day" where
  "run_from s w t = AddDays (Today t (ppClock s) w) (- HistoryDays)"

lemma compute_all_Some:
  assumes "compute_all D today series = Some computed"
  shows "map fst computed = map fst series"
    and "(i, obs) \<in> set series \<Longrightarrow> \<exists>r. (i, r) \<in> set computed \<and> Compute D obs today HorizonDays = Some r"
proof -
  have l: "list_all2 (\<lambda>(i, obs) (j, r). i = j \<and> Compute D obs today HorizonDays = Some r) series computed"
    using those_map_all2[OF assms[unfolded compute_all_def]] by (rule list_all2_mono) auto
  show "map fst computed = map fst series" using l by (induction rule: list_all2_induct) auto
  show "(i, obs) \<in> set series \<Longrightarrow> \<exists>r. (i, r) \<in> set computed \<and> Compute D obs today HorizonDays = Some r"
    using l by (induction rule: list_all2_induct) auto
qed

lemma Run_stages:
  assumes "Run D s w t st = (res, st')" and "refreshes_ok s"
  obtains (rolled_back) "st' = st" and "isl res"
  | (series_only) series st1 where "rebuildSeriesTx D t (run_from s w t) (Today t (ppClock s) w) st = Inr (series, st1)"
      and "st' = st1" and "isl res"
  | (complete) series computed st1 st2 where "rebuildSeriesTx D t (run_from s w t) (Today t (ppClock s) w) st = Inr (series, st1)"
      and "compute_all D (Today t (ppClock s) w) series = Some computed"
      and "storeAllTx D t computed (Today t (ppClock s) w) (tenant_Now t (ppClock s) w) st1 = Inr ((), st2)"
      and "status_step (tenantID t) st2 st'"
      and "ppStatuses s = None \<Longrightarrow> st' = st2 \<and> res = Inr (run_totals (tenant_Now t (ppClock s) w) computed)"
proof -
  let ?today = "Today t (ppClock s) w" and ?now = "tenant_Now t (ppClock s) w"
  note R = assms(1)[unfolded Run_def Let_def, folded run_from_def]
  show thesis
  proof (cases "rebuildSeriesTx D t (run_from s w t) ?today st")
    case (Inl e)
    with R have "st' = st" "isl res" by (auto simp: rebuildSeries_def InTenantTx_def)
    then show thesis by (rule rolled_back)
  next
    case (Inr a)
    obtain series st1 where a: "a = (series, st1)" by fastforce
    note r1 = Inr[unfolded a]
    show thesis
    proof (cases "compute_all D ?today series")
      case None
      with R r1 have "st' = st1" "isl res" by (auto simp: rebuildSeries_def InTenantTx_def)
      then show thesis by (rule series_only[OF r1])
    next
      case (Some computed)
      show thesis
      proof (cases "storeAllTx D t computed ?today ?now st1")
        case (Inl e)
        with R r1 Some have "st' = st1" "isl res" by (auto simp: rebuildSeries_def storeAll_def InTenantTx_def)
        then show thesis by (rule series_only[OF r1])
      next
        case (Inr b)
        obtain st2 where b: "b = ((), st2)" by (cases b) auto
        note r2 = Inr[unfolded b]
        have rest: "(case ppStatuses s of None \<Rightarrow> (Inr (run_totals ?now computed), st2)
            | Some refresh \<Rightarrow> (case refresh w t st2 of (Inl e, st3) \<Rightarrow> (Inl (Wrapped ''statuses'' e), st3)
              | (Inr _, st3) \<Rightarrow> (Inr (run_totals ?now computed), st3))) = (res, st')"
          using R r1 r2 Some by (simp add: rebuildSeries_def storeAll_def InTenantTx_def)
        show thesis
        proof (rule complete[OF r1 Some r2])
          show "status_step (tenantID t) st2 st'"
            using rest assms(2)
            by (auto simp: refreshes_ok_def split: option.splits prod.splits sum.splits intro: status_refresher.refresh_step)
        qed (use rest in auto)
      qed
    qed
  qed
qed

lemma valid_from: "valid_day (run_from s w t)"
  by (simp add: run_from_def)

lemma run_others:
  assumes "st1 = st\<lparr>daily := ds\<rparr>" and "st2 = st1\<lparr>forecast_metrics := ms, forecasts := fs\<rparr>"
    and "visible other dc_tenant ds = visible other dc_tenant (daily st)"
    and "visible other fm_tenant ms = visible other fm_tenant (forecast_metrics st1) \<and> visible other fc_tenant fs = visible other fc_tenant (forecasts st1)"
  shows "tenant_view other st2 = tenant_view other st"
  using assms by (simp add: tenant_view_def)


text \<open>A run may be repeated: with the same clock, a second run after a successful one stores nothing new,
  and without statuses to refresh it returns the same result and leaves the whole database as it is.\<close>
theorem Run_again:
  assumes "Run D s w t st = (Inr res, st1)" and "refreshes_ok s" and "Run D s w t st1 = (res2, st2)"
  shows "daily st2 = daily st1 \<and> forecasts st2 = forecasts st1 \<and> forecast_metrics st2 = forecast_metrics st1 \<and> stock_frame st1 st2
    \<and> (ppStatuses s = None \<longrightarrow> res2 = Inr res \<and> st2 = st1)"
  using assms(1,2)
proof (cases rule: Run_stages)
  case (complete series computed sa sb)
  let ?today = "Today t (ppClock s) w" and ?now = "tenant_Now t (ppClock s) w"
  obtain ds where ds: "sa = st\<lparr>daily := ds\<rparr>" and ser: "series_of D t (run_from s w t) ?today st = Some series"
    and stored_days: "days_stored D t series (run_from s w t) sa"
    using rebuildSeriesTx_stores[OF complete(1) valid_from] by metis
  have dist: "distinct (map fst computed)"
    using compute_all_Some(1)[OF complete(2)] series_of_Some(1)[OF ser] by simp
  obtain ms fs where sb: "sb = sa\<lparr>forecast_metrics := ms, forecasts := fs\<rparr>" and rs: "results_stored D t computed ?today ?now sb"
    using storeAllTx_stores[OF complete(3) dist] by metis
  have fr: "stock_frame st st1" "daily st1 = daily sa" "forecasts st1 = forecasts sb" "forecast_metrics st1 = forecast_metrics sb"
    using complete(4) by (auto simp: status_step_def stock_frame_def sb ds)
  have r1: "rebuildSeriesTx D t (run_from s w t) ?today st1 = Inr (series, st1)"
    using stored_days by (intro rebuildSeriesTx_again[OF complete(1) fr(1)]) (simp add: days_stored_def fr(2))
  have r2: "storeAllTx D t computed ?today ?now st1 = Inr ((), st1)"
    using rs fr(1) by (intro storeAllTx_again[OF complete(3)]) (auto simp: results_stored_def fr stock_frame_def ds)
  from assms(3,2) show ?thesis
  proof (cases rule: Run_stages)
    case rolled_back
    have "res2 = Inr res" if "ppStatuses s = None"
      using assms(3) r1 r2 complete(2,5) that by (auto simp: Run_def Let_def run_from_def[symmetric] rebuildSeries_def storeAll_def InTenantTx_def)
    then show ?thesis using rolled_back by simp
  next
    case (series_only series' sa')
    have "res2 = Inr res" if "ppStatuses s = None"
      using assms(3) r1 r2 complete(2,5) that by (auto simp: Run_def Let_def run_from_def[symmetric] rebuildSeries_def storeAll_def InTenantTx_def)
    then show ?thesis using series_only r1 by auto
  next
    case (complete series' computed' sa' sb')
    note second = complete
    have eq: "series' = series" "sa' = st1" using second(1) r1 by simp_all
    have "computed' = computed" using second(2) \<open>compute_all D ?today series = Some computed\<close> by (simp add: eq)
    then have sb': "sb' = st1" using second(3) r2 by (simp add: eq)
    have "status_step (tenantID t) st1 st2" using second(4) by (simp add: sb')
    moreover have "ppStatuses s = None \<Longrightarrow> res2 = Inr res \<and> st2 = st1"
      using second(5) \<open>ppStatuses s = None \<Longrightarrow> st1 = sb \<and> Inr res = Inr (run_totals ?now computed)\<close> \<open>computed' = computed\<close> sb' by simp
    ultimately show ?thesis by (simp add: status_step_def)
  qed
qed auto

section \<open>Examples\<close>

definition sample_usage :: "bool \<Rightarrow> int \<Rightarrow> int \<Rightarrow> dec raw_movement" where
  "sample_usage counted d n = \<lparr>rmItem = 10, rmDay = Day 2024 1 d, rmQty = Qty (Dec n (- 3)), FromCount = counted\<rparr>"

lemma sample_days: "1 \<le> d \<Longrightarrow> d \<le> 31 \<Longrightarrow> valid_day (Day 2024 1 d)" "dnum (Day 2024 1 d) = 19722 + d"
proof -
  show "1 \<le> d \<Longrightarrow> d \<le> 31 \<Longrightarrow> valid_day (Day 2024 1 d)"
    by (simp add: valid_day_def valid_civil_def days_in_def month_lengths_def)
  have "days_before_year 2024 + days_before_month 1 2024 - unix_day = 19723" by code_simp
  then show "dnum (Day 2024 1 d) = 19722 + d" by (simp add: dnum_def civil_to_days_def)
qed

theorem buildSeries_conserves_witness:
  "\<exists>obs. buildSeries dec_lib [sample_usage False 2 (- 3), sample_usage True 5 (- 1000)] [] [] (Day 2024 1 1) (Day 2024 1 5) = Some [(10, obs)]
     \<and> sum_list (map (\<lambda>x. qval dec_lib (obsQty x)) obs) = 1003 / 1000"
proof -
  have sub: "0 \<le> day_Sub (Day 2024 1 5) (Day 2024 1 1) + 1" by (subst day_Sub_num) (simp_all add: sample_days)
  have "\<forall>mv \<in> set [sample_usage False 2 (- 3), sample_usage True 5 (- 1000)]. valid_day (rmDay mv)
      \<and> dnum (Day 2024 1 1) \<le> dnum (rmDay mv) \<and> dnum (rmDay mv) \<le> dnum (Day 2024 1 5)"
    by (simp add: sample_usage_def sample_days)
  from buildSeries_conserves[OF sample_ok(1) _ sub this, of "[]" "[]"]
  obtain series where b: "buildSeries dec_lib [sample_usage False 2 (- 3), sample_usage True 5 (- 1000)] [] [] (Day 2024 1 1) (Day 2024 1 5) = Some series"
    and f: "map fst series = [10]" and s: "\<forall>(i, obs) \<in> set series. sum_list (map (\<lambda>x. qval dec_lib (obsQty x)) obs) =
      - sum_list (map (\<lambda>mv. qval dec_lib (rmQty mv)) (filter (\<lambda>mv. rmItem mv = i) [sample_usage False 2 (- 3), sample_usage True 5 (- 1000)]))"
    by (auto simp: sample_days sample_usage_def)
  from f obtain obs where series: "series = [(10, obs)]" by (cases series) auto
  have "qval dec_lib (rmQty (sample_usage c d n)) = of_int n / 1000" for c d n
    by (simp add: sample_usage_def qval_def dec_lib_eq dec_val_def pow10_def)
  then show ?thesis using b s by (auto simp: series sample_usage_def)
qed

text \<open>The share of a day is rounded to thousandths, so that the last day may get less than nothing: three
  thousandths over five days give four days one thousandth each and the last day minus one. A negative
  day is no usable observation.\<close>

lemma fifth_rounded:
  assumes "decimal_api D" and "qval D a = 3 / 1000"
  obtains q where "qMulFloat D a (fdiv (Fin 1) (f64_of_int 5)) = Some q" and "qval D q = 1 / 1000"
proof -
  have five: "f64_of_int 5 = Fin 5" using f64_of_int_exact[of 5] by simp
  define v where "v = rnd (1 / 5 :: rat)"
  have d: "is_double (1 / 4)" "is_double (3 / 16)" by (simp_all add: is_double_def f64_eval)
  have p: "pack (1 / 5) = Fin v" using pack_bounded(1)[of "1 / 5" 1] by (simp add: v_def)
  have v: "3 / 16 < v" "v < 1 / 4" by (simp_all add: v_def f64_eval)
  have dv: "is_double v" using pack_wf[of "1 / 5"] by (simp add: p)
  obtain q d' where q: "qMulFloat D a (Fin v) = Some q" "pack d' = Fin v" "qval D q = round_places 3 (qval D a * d')"
    using decimal_api.qMulFloat_Some[OF assms(1) dv] by blast
  have r: "rnd d' = v" using q(2) by (auto simp: pack_def Let_def split: if_splits)
  have "3 / 16 < d'" using rnd_le[of d' "3 / 16"] r v(1) d(2) by (force simp: is_double_def not_le)
  moreover have "d' < 1 / 4" using rnd_ge[of "1 / 4" d'] r v(2) d(1) by (force simp: is_double_def not_le)
  ultimately have "rha (3 * d') = 1" by (simp add: rha_def floor_eq_iff)
  then have "round_places 3 (3 / 1000 * d') = 1 / 1000" by (simp add: round_places_def)
  then show thesis using q by (intro that[of q]) (simp_all add: five p assms(2))
qed

lemma last_share_negative:
  assumes "decimal_api D" and "qval D (rmQty mv) = - 3 / 1000" and "FromCount mv" and "rmDay mv = Day 2024 1 5"
  shows "\<exists>m. distribute D [mv] (Day 2024 1 1) = Some m \<and> qval D (m (Day 2024 1 5)) = - 1 / 1000"
proof -
  note v = decimal_api.qval_ops[OF assms(1)]
  let ?c = "qNeg D (rmQty mv)"
  have c: "qval D ?c = 3 / 1000" using assms(2) by (simp add: v)
  obtain q where q: "qMulFloat D ?c (fdiv (Fin 1) (f64_of_int 5)) = Some q" "qval D q = 1 / 1000"
    by (rule fifth_rounded[OF assms(1) c])
  have add: "AddDays (Day 2024 1 d) 1 = Day 2024 1 (d + 1)" if "1 \<le> d" "d \<le> 30" for d
    using day_of_dnum[of "Day 2024 1 (d + 1)"] sample_days[of "d + 1"] sample_days(2)[of d] that by (simp add: AddDays_num add.assoc)
  have before: "Before (Day 2024 1 a) (Day 2024 1 b) \<longleftrightarrow> a < b" for a b by (simp add: Before_num sample_days)
  have sub: "day_Sub (Day 2024 1 5) (Day 2024 1 1) = 4" by (subst day_Sub_num) (simp_all add: sample_days)
  obtain m' s' where sp: "spread_shares D q (Day 2024 1 1) (Day 2024 1 5) (\<lambda>_. qZero D) (qZero D) = (m', s')" by fastforce
  have "qval D s' = 4 * qval D q \<and> qval D (m' (Day 2024 1 5)) = 0"
    using sp by (simp add: spread_shares.simps before add add_on_def) (auto simp: v)
  moreover have "count_start (Day 2024 1 1) zero_day = Day 2024 1 1" by (simp add: count_start_def IsZero_def)
  moreover have "\<not> qIsNegative D ?c" using c by (simp add: decimal_api.qtest_ops[OF assms(1)])
  ultimately show ?thesis
    using assms(3,4) q sub sp c
    by (simp add: distribute_def distribute_one_def Let_def After_num sample_days add_on_def v)
qed

definition sample_pipeline :: "dec pipeline_service" where
  "sample_pipeline = NewPipelineService System None"

lemma sample_pipeline_ok: "refreshes_ok sample_pipeline" "ppStatuses sample_pipeline = None"
  by (simp_all add: refreshes_ok_def sample_pipeline_def NewPipelineService_def)

lemma sample_run:
  obtains res st' where "Run dec_lib sample_pipeline 0 sample_tenant sample_db = (Inr res, st')"
proof -
  define today where "today = Today sample_tenant (ppClock sample_pipeline) 0"
  define now where "now = tenant_Now sample_tenant (ppClock sample_pipeline) 0"
  have t: "tenantID sample_tenant = 1" by (simp add: sample_tenant_def)
  obtain r where r: "Compute dec_lib [] today HorizonDays = Some r" "resModel r = ModelM0"
    by (auto simp: Compute_def cleanSeries_def clipOutliers_def MinDaysForM1_def Let_def)
  have ser: "series_of dec_lib sample_tenant (run_from sample_pipeline 0 sample_tenant) today sample_db = Some [(10, [])]"
    by (simp add: series_of_def Let_def t ListActiveItemIDs_def ListConsumptionMovementsForSeries_def visible_def sample_db_def
        sample_item_def buildSeries_def by_item_def with_all_items_def)
  have r1: "rebuildSeriesTx dec_lib sample_tenant (run_from sample_pipeline 0 sample_tenant) today sample_db = Inr ([(10, [])], sample_db)"
    unfolding rebuildSeriesTx_Inr using ser by (simp add: day_rows_def kept_days_def sample_db_def)
  have "\<exists>st1. upsert_metrics (metrics_row sample_tenant now 10 r) sample_db = Inr st1"
    by (simp add: upsert_metrics_def UpsertForecastMetrics_def Let_def metrics_row_def t upsert_tx_def sample_db_def item_exists_def sample_item_def)
  then obtain st1 where "upsert_metrics (metrics_row sample_tenant now 10 r) sample_db = Inr st1" ..
  then have "\<exists>st2. storeAllTx dec_lib sample_tenant [(10, r)] today now sample_db = Inr ((), st2)"
    unfolding storeAllTx_Inr using r(2) by (simp add: all_points_def without_model_def)
  then obtain st2 where "storeAllTx dec_lib sample_tenant [(10, r)] today now sample_db = Inr ((), st2)" ..
  moreover have "AddDays today (- HistoryDays) = run_from sample_pipeline 0 sample_tenant" by (simp add: run_from_def today_def)
  ultimately show thesis using r1 r(1)
    by (intro that) (simp add: Run_def Let_def today_def[symmetric] now_def[symmetric] rebuildSeries_def
        InTenantTx_def compute_all_def storeAll_def sample_pipeline_ok(2))
qed


theorem Run_again_witness:
  "\<exists>res st'. Run dec_lib sample_pipeline 0 sample_tenant sample_db = (Inr res, st')
     \<and> Run dec_lib sample_pipeline 0 sample_tenant st' = (Inr res, st')"
proof -
  obtain res st' where r: "Run dec_lib sample_pipeline 0 sample_tenant sample_db = (Inr res, st')" by (rule sample_run)
  obtain res2 st2 where r2: "Run dec_lib sample_pipeline 0 sample_tenant st' = (res2, st2)" by fastforce
  from Run_again[OF r sample_pipeline_ok(1) r2] sample_pipeline_ok(2) r r2 show ?thesis by auto
qed

end
