(* ===== verification/System.thy ===== *)
theory System
  imports Import_Correct Pipeline_Correct Outbox Counts_Correct Reversal
begin

text \<open>
  The system as a whole: the services wired as \<open>internal/api\<close> and \<open>cmd/app\<close> wire them, every writing
  operation of every service as one step relation, and what holds after any sequence of operations of
  any tenants.
\<close>

section \<open>The wiring\<close>

record 'd zapas =
  zpClock :: clock
  zpNotify :: notify_service
  zpReplenishment :: "'d replenish_service"
  zpStock :: "'d stock_service"
  zpOrders :: "'d order_service"
  zpPipeline :: "'d pipeline_service"

text \<open>\<open>api.New\<close>. The recalculation runs in the transaction of the movement, the notification in that of
  the event. \<open>local\<close> is \<open>time.Local\<close> and \<open>base\<close> the base URL of the configuration.\<close>

definition api_New :: "'d decimal_lib \<Rightarrow> uuid_lib \<Rightarrow> clock \<Rightarrow> location \<Rightarrow> string \<Rightarrow> 'd zapas" where
  "api_New D U cl local base = (let
       notifySvc = \<lparr>nsClock = cl, nsLocal = local, nsBaseURL = base\<rparr>;
       replenishmentSvc = NewReplenishService cl (Some (ItemWentRed D U notifySvc));
       stockSvc = NewStockService D cl local (Some (Recalculate D replenishmentSvc));
       ordersSvc = \<lparr>osClock = cl, osStatuses = Some replenishmentSvc, osStock = stockSvc,
         osNotifier = Some (ReceiptMismatch D U notifySvc)\<rparr>;
       pipelineSvc = NewPipelineService cl (Some (RecalculateAll D replenishmentSvc))
     in \<lparr>zpClock = cl, zpNotify = notifySvc, zpReplenishment = replenishmentSvc, zpStock = stockSvc,
         zpOrders = ordersSvc, zpPipeline = pipelineSvc\<rparr>)"

definition zapas_ok :: "'d zapas \<Rightarrow> bool" where
  "zapas_ok z \<longleftrightarrow> status_recalculator (ssStatus (zpStock z)) \<and> order_channels_ok (zpOrders z)
     \<and> alerts_ok (zpReplenishment z) \<and> refreshes_ok (zpPipeline z)"

text \<open>The services meet each other's contracts.\<close>

lemma api_New_ok: "zapas_ok (api_New D U cl local base)"
proof -
  let ?n = "\<lparr>nsClock = cl, nsLocal = local, nsBaseURL = base\<rparr>"
  let ?r = "NewReplenishService cl (Some (ItemWentRed D U ?n))"
  have a: "alerts_ok ?r" by (simp add: alerts_ok_def NewReplenishService_def red.alert_channel_axioms)
  have s: "status_recalculator (Recalculate D ?r)" by (rule alerting.status_recalculator_axioms)
  show ?thesis
    using a s RecalculateAll_refreshes[OF a] mismatch.mismatch_channel_axioms
    by (simp add: zapas_ok_def api_New_def Let_def NewStockService_def order_channels_ok_def order_service_ok_def
        refreshes_ok_def NewPipelineService_def)
qed

section \<open>Safe steps\<close>

definition system_inv :: "text_lib \<Rightarrow> 'd db \<Rightarrow> bool" where
  "system_inv T st \<longleftrightarrow> orders_wf st \<and> catalog_inv T st \<and> counts_ok st"

text \<open>What no step takes back: the journal, and the life of an order.\<close>

definition goes_on :: "'d db \<Rightarrow> 'd db \<Rightarrow> bool" where
  "goes_on st st' \<longleftrightarrow> (\<exists>ms. movements st' = movements st @ ms)
     \<and> (\<forall>r \<in> set (purchase_orders st). \<exists>r' \<in> set (purchase_orders st'). order_moves r r')"

lemma goes_on_refl [simp]: "goes_on st st"
  by (auto simp: goes_on_def intro: order_moves_refl)

lemma goes_on_trans: "goes_on a b \<Longrightarrow> goes_on b c \<Longrightarrow> goes_on a c"
  unfolding goes_on_def by (metis append.assoc order_moves_trans)

definition safe_step :: "text_lib \<Rightarrow> uuid \<Rightarrow> 'd db \<Rightarrow> 'd db \<Rightarrow> bool" where
  "safe_step T tid st st' \<longleftrightarrow> (system_inv T st \<longrightarrow> system_inv T st' \<and> goes_on st st'
     \<and> (\<forall>other. other \<noteq> tid \<longrightarrow> tenant_view other st' = tenant_view other st))"

interpretation safe: step_relation "safe_step T tid" for T tid
  by unfold_locales (auto simp: safe_step_def intro: goes_on_trans)

lemma catalog_inv_advances:
  assumes "advances tid st st'" and "catalog_inv T st"
  shows "catalog_inv T st'"
proof -
  have same: "categories st' = categories st" "suppliers st' = suppliers st" "items st' = items st" "supplier_items st' = supplier_items st"
    and placed: "balances_placed st st'" using assms(1) by (simp_all add: advances_def)
  let ?st = "st'\<lparr>balances := balances st\<rparr>"
  have "catalog_inv T ?st" by (rule same_catalog_inv[OF _ assms(2)]) (simp add: same_catalog_def same)
  moreover have "\<forall>b \<in> set (balances st'). ba_item b \<in> it_id ` set (items st)"
    using placed assms(2) by (auto simp: balances_placed_def catalog_inv_def)
  moreover have "item_references x ?st = item_references x st'" "terms_row_ok ?st y = terms_row_ok st' y" for x y
    by (auto simp: item_references_def opt_exists_def category_exists_def supplier_exists_def terms_row_ok_def item_exists_def split: option.splits)
  ultimately show ?thesis by (simp add: catalog_inv_def items_ok_def same)
qed

lemma life_goes_on: "order_life (purchase_orders st) (purchase_orders st') \<Longrightarrow> movements st' = movements st @ ms \<Longrightarrow> goes_on st st'"
  by (auto simp: goes_on_def dest: order_life_row)

lemma advances_safe:
  assumes "system_inv T st \<Longrightarrow> advances tid st st' \<and> order_life (purchase_orders st) (purchase_orders st')"
  shows "safe_step T tid st st'"
  unfolding safe_step_def
proof
  assume inv: "system_inv T st"
  with assms have a: "advances tid st st'" and l: "order_life (purchase_orders st) (purchase_orders st')" by blast+
  have "orders_wf st'" using inv a order_life_distinct[OF l] by (simp add: system_inv_def orders_wf_def advances_def)
  moreover have "counts_ok st'" using inv a by (simp add: system_inv_def counts_ok_def advances_def)
  moreover have "catalog_inv T st'" using inv catalog_inv_advances[OF a] by (simp add: system_inv_def)
  moreover have "goes_on st st'" using a life_goes_on[OF l] by (auto simp: advances_def)
  ultimately show "system_inv T st' \<and> goes_on st st' \<and> (\<forall>other. other \<noteq> tid \<longrightarrow> tenant_view other st' = tenant_view other st)"
    using a by (simp add: system_inv_def advances_def)
qed

lemma frame_safe:
  assumes "stock_frame st st'" and "\<And>other. other \<noteq> tid \<Longrightarrow> tenant_view other st' = tenant_view other st"
  shows "safe_step T tid st st'"
  by (rule advances_safe) (use assms stock_frame_advances[OF assms] in \<open>simp add: stock_frame_def\<close>)

lemma feed_safe: "feed_step tid st st' \<Longrightarrow> safe_step T tid st st'"
  by (rule frame_safe) (auto simp: feed_step_def)

lemma effect_safe: "(system_inv T st \<Longrightarrow> order_effect tid d st st') \<Longrightarrow> safe_step T tid st st'"
  by (rule advances_safe) (auto simp: order_effect_def)

lemma booked_safe:
  assumes "system_inv T st \<Longrightarrow> booked st tid wid iid q row v st1 \<and> mv_tenant row = tid"
    and "stock_frame st1 st'" and "\<And>other. other \<noteq> tid \<Longrightarrow> tenant_view other st' = tenant_view other st1"
  shows "safe_step T tid st st'"
proof (rule advances_safe)
  assume "system_inv T st"
  with assms(1) have b: "booked st tid wid iid q row v st1" "mv_tenant row = tid" by blast+
  have "purchase_orders st' = purchase_orders st"
    using booked_documents(3)[OF b(1)] assms(2) by (simp add: stock_frame_def)
  then show "advances tid st st' \<and> order_life (purchase_orders st) (purchase_orders st')"
    using advances_trans[OF booked_advances[OF b] stock_frame_advances[OF assms(2,3)]] by simp
qed

lemma catalog_safe:
  assumes "catalog_step T tid st st'"
  shows "safe_step T tid st st'"
  unfolding safe_step_def
proof
  assume inv: "system_inv T st"
  then have "stock_inv st' \<and> catalog_inv T st' \<and> grows tid st st'"
    using assms by (simp add: catalog_step_def system_inv_def orders_wf_def)
  then show "system_inv T st' \<and> goes_on st st' \<and> (\<forall>other. other \<noteq> tid \<longrightarrow> tenant_view other st' = tenant_view other st)"
    using inv by (auto simp: grows_def system_inv_def orders_wf_def counts_ok_def goes_on_def intro: order_moves_refl)
qed

text \<open>An operation of two transactions.\<close>

lemma safe_then_read:
  assumes "tx_steps (safe_step T tid) m" and "\<And>x. tx_steps (safe_step T tid) (g x)" and "then_read m g st = (r, st')"
  shows "safe_step T tid st st'"
proof (cases "m st")
  case (Inr p)
  obtain x st1 where p: "p = (x, st1)" by fastforce
  have "safe_step T tid st st1" using assms(1) Inr p by (simp add: tx_steps_def)
  moreover have "safe_step T tid st1 st'"
    by (rule safe.steps_tenant_tx[OF assms(2)]) (use assms(3) Inr p in \<open>simp add: then_read_def InTenantTx_def\<close>)
  ultimately show ?thesis by (rule safe.step_trans)
qed (use assms(3) in \<open>simp add: then_read_def InTenantTx_def safe.step_refl\<close>)

section \<open>The operations\<close>

lemma Record_safe:
  assumes D: "decimal_api D" and rc: "status_recalculator (ssStatus s)" and wf: "wfq D (rqQty req)"
    and r: "Record D s w t req st = (res, st')"
  shows "safe_step T (tenantID t) st st'"
proof (cases "validate D s w t req")
  case (Inl e)
  then show ?thesis using r by (simp add: Record_def safe.step_refl)
next
  case (Inr req')
  then have tx: "InTenantTx (recordTx D s w t req') st = (res, st')" using r by (simp add: Record_def)
  have wf': "wfq D (rqQty req')" using validate_Inr[OF Inr] wf by simp
  have "tx_steps (safe_step T (tenantID t)) (recordTx D s w t req')"
    unfolding tx_steps_def
  proof (intro allI impI)
    fix a x b assume "recordTx D s w t req' a = Inr (x, b)"
    then show "safe_step T (tenantID t) a b"
    proof (cases rule: recordTx_cases)
      case fresh
      show ?thesis
        unfolding safe_step_def
      proof
        assume inv: "system_inv T a"
        then have "stock_inv a" by (simp add: system_inv_def orders_wf_def)
        then have "safe_step T (tenantID t) a b"
        proof (rule decimal_api.record_new_booked[OF D rc fresh(1) _ wf'])
          fix wh row v st1
          assume bk: "booked a (tenantID t) (wh_id wh) (rqItem req') (qval D (signedQty D (rqType req') (rqQty req'))) row v st1"
            and row: "row = (movement_of_request D (tenantID t) (wh_id wh) req' (signedQty D (rqType req') (rqQty req')) (uuid_supply a))
               \<lparr>mv_created_at := pg_Time w, mv_occurred_at := pg_Time (rqOccurredAt req')\<rparr>"
            and f: "stock_frame st1 b" and v: "\<forall>other. other \<noteq> tenantID t \<longrightarrow> tenant_view other b = tenant_view other st1"
          have "mv_tenant row = tenantID t" by (simp add: row movement_of_request_def)
          with bk show "safe_step T (tenantID t) a b" by (intro booked_safe[OF _ f]) (use v in auto)
        qed
        with inv show "system_inv T b \<and> goes_on a b \<and> (\<forall>other. other \<noteq> tenantID t \<longrightarrow> tenant_view other b = tenant_view other a)"
          by (simp add: safe_step_def)
      qed
    qed (simp add: safe.step_refl)
  qed
  then show ?thesis using tx by (rule safe.steps_tenant_tx)
qed

lemma Reverse_safe:
  assumes D: "decimal_api D" and rc: "status_recalculator (ssStatus s)" and r: "Reverse D s w t mid by_id oth st = (res, st')"
  shows "safe_step T (tenantID t) st st'"
proof (cases res)
  case (Inl e)
  then have "st' = st" using r by (auto simp: Reverse_def InTenantTx_def split: sum.splits)
  then show ?thesis by (simp add: safe.step_refl)
next
  case (Inr x)
  show ?thesis
    unfolding safe_step_def
  proof
    assume inv: "system_inv T st"
    then have "stock_inv st" by (simp add: system_inv_def orders_wf_def)
    then have "safe_step T (tenantID t) st st'"
    proof (rule Reverse_booked[OF D rc _ r[unfolded Inr]])
      fix m row v st1
      assume bk: "booked st (tenantID t) (mv_warehouse m) (mv_item m) (- mv_qty m) row v st1" "mv_tenant row = tenantID t"
        and f: "stock_frame st1 st'" "\<forall>other. other \<noteq> tenantID t \<longrightarrow> tenant_view other st' = tenant_view other st1"
      from bk show "safe_step T (tenantID t) st st'" by (intro booked_safe[OF _ f(1)]) (use f(2) in auto)
    qed
    with inv show "system_inv T st' \<and> goes_on st st' \<and> (\<forall>other. other \<noteq> tenantID t \<longrightarrow> tenant_view other st' = tenant_view other st)"
      by (simp add: safe_step_def)
  qed
qed

subsection \<open>Stock counts\<close>

lemma UpsertStockCountLine_steps: "tx_steps (safe_step T tid) (UpsertStockCountLine tid cid iid e c)"
  unfolding tx_steps_def
proof (intro allI impI)
  fix a :: "'a db" and x b assume r: "UpsertStockCountLine tid cid iid e c a = Inr (x, b)"
  obtain q v rows where q: "is_numeric q" and v: "pred_option (\<lambda>q. is_numeric q \<and> 0 \<le> q) v"
    and up: "upsert_tx tid cl_tenant (\<lambda>r. cl_count r = cid \<and> cl_item r = iid) (\<lambda>r. r\<lparr>cl_expected_qty := q, cl_counted_qty := v\<rparr>)
       \<lparr>cl_tenant = tid, cl_count = cid, cl_item = iid, cl_expected_qty = q, cl_counted_qty = v\<rparr> (count_lines a) = Inr rows"
    and b: "b = a\<lparr>count_lines := rows\<rparr>"
  proof (cases c)
    case None
    with r show thesis by (auto simp: UpsertStockCountLine_def bindE_Inr_iff numeric_null_def intro!: that dest: numeric_14_3_is)
  next
    case (Some k)
    with r show thesis
      by (auto simp: UpsertStockCountLine_def bindE_Inr_iff numeric_null_def dest: numeric_14_3_is intro!: that[of _ "Some _"])
  qed
  let ?f = "\<lambda>r. r\<lparr>cl_expected_qty := q, cl_counted_qty := v\<rparr>" and ?P = "\<lambda>r. cl_count r = cid \<and> cl_item r = iid"
  let ?new = "\<lparr>cl_tenant = tid, cl_count = cid, cl_item = iid, cl_expected_qty = q, cl_counted_qty = v\<rparr>"
  have other: "visible other cl_tenant rows = visible other cl_tenant (count_lines a)" if "other \<noteq> tid" for other
    by (rule upsert_visible_other[OF up _ _ that]) simp_all
  have rows: "rows = upsert_row ?P ?f ?new (count_lines a)" using up by (auto simp: upsert_tx_def split: if_splits)
  show "safe_step T tid a b"
    unfolding safe_step_def
  proof
    assume inv: "system_inv T a"
    have keys: "map (\<lambda>l. (cl_count l, cl_item l)) (update_rows ?P ?f xs) = map (\<lambda>l. (cl_count l, cl_item l)) xs" for xs
      by (simp add: update_rows_def)
    have "distinct (map (\<lambda>l. (cl_count l, cl_item l)) (count_lines a))" using inv by (simp add: system_inv_def counts_ok_def)
    then have "distinct (map (\<lambda>l. (cl_count l, cl_item l)) rows)"
      by (auto simp: rows upsert_row_def keys list_ex_iff)
    moreover have "\<forall>l \<in> set rows. is_numeric (cl_expected_qty l) \<and> pred_option (\<lambda>q. is_numeric q \<and> 0 \<le> q) (cl_counted_qty l)"
      using inv q v by (auto simp: rows upsert_row_def update_rows_def system_inv_def counts_ok_def)
    ultimately have "counts_ok b" by (simp add: counts_ok_def b)
    moreover have "catalog_inv T b"
      by (rule same_catalog_inv[of a]) (use inv in \<open>simp_all add: same_catalog_def b system_inv_def\<close>)
    moreover have "orders_wf b"
      using inv by (simp add: system_inv_def orders_wf_def b stock_inv_def on_hand_of_def journal_def)
    moreover have "goes_on a b" by (auto simp: goes_on_def b intro: order_moves_refl)
    ultimately show "system_inv T b \<and> goes_on a b \<and> (\<forall>other. other \<noteq> tid \<longrightarrow> tenant_view other b = tenant_view other a)"
      using other by (simp add: system_inv_def tenant_view_def b)
  qed
qed

text \<open>A step that changes the documents of the counts alone.\<close>

lemma counts_steps:
  assumes "\<And>a x b. m a = Inr (x, b) \<Longrightarrow> \<exists>cs. b = a\<lparr>counts := cs\<rparr> \<and> (\<forall>other. other \<noteq> tid \<longrightarrow> visible other sc_tenant cs = visible other sc_tenant (counts a))"
  shows "tx_steps (safe_step T tid) m"
  unfolding tx_steps_def
proof (intro allI impI)
  fix a x b assume "m a = Inr (x, b)"
  from assms[OF this] obtain cs where b: "b = a\<lparr>counts := cs\<rparr>"
    and v: "\<forall>other. other \<noteq> tid \<longrightarrow> visible other sc_tenant cs = visible other sc_tenant (counts a)" by blast
  show "safe_step T tid a b"
    by (rule advances_safe, rule conjI, rule advances_documents) (use v in \<open>auto simp: b tenant_view_def\<close>)
qed

lemma new_uuid_safe: "tx_steps (safe_step T tid) new_uuid"
  unfolding tx_steps_def
  by (auto simp: new_uuid_def tenant_view_def stock_frame_def intro!: frame_safe)

lemma CreateStockCount_steps: "sc_tenant row = tid \<Longrightarrow> tx_steps (safe_step T tid) (CreateStockCount w row)"
  by (rule counts_steps) (auto simp: CreateStockCount_def Let_def bindE_Inr_iff visible_def)

lemma CreateCount_safe:
  assumes "CreateCount D w t scope note ids by_id st = (res, st')"
  shows "safe_step T (tenantID t) st st'"
proof -
  have "tx_steps (safe_step T (tenantID t)) (createCountTx D w t scope note ids by_id)"
    unfolding createCountTx_def Let_def dbtx_def
    by (intro safe.steps safe.steps_for new_uuid_safe CreateStockCount_steps UpsertStockCountLine_steps) simp
  moreover have "tx_steps (safe_step T (tenantID t)) (GetCount D t cid)" for cid
    unfolding GetCount_def Let_def by (intro safe.steps)
  ultimately show ?thesis using assms unfolding CreateCount_def by (rule safe_then_read)
qed

lemma SetCountLines_safe:
  assumes "SetCountLines D t cid lines st = (res, st')"
  shows "safe_step T (tenantID t) st st'"
proof -
  have "tx_steps (safe_step T (tenantID t)) (setCountLinesTx D t cid lines)"
    unfolding setCountLinesTx_def Let_def dbtx_def split_def
    by (intro safe.steps safe.steps_for UpsertStockCountLine_steps)
  then show ?thesis using assms unfolding SetCountLines_def by (rule safe.steps_tenant_tx)
qed

interpretation same_orders: step_relation "\<lambda>a b. purchase_orders b = purchase_orders a"
  by unfold_locales auto

lemma postCountTx_orders:
  assumes rc: "status_recalculator (ssStatus s)" and r: "postCountTx D s w t cid by_id force st = Inr (u, st')"
  shows "purchase_orders st' = purchase_orders st"
proof -
  let ?S = "tx_steps (\<lambda>a b. purchase_orders b = purchase_orders a)"
  have "?S new_uuid" "\<And>row. ?S (InsertMovement w row)" "\<And>tid wid iid q now. ?S (ApplyMovementToBalance tid wid iid q now)"
    "\<And>tid wid iid. ?S (EnsureBalance tid wid iid w)" "\<And>tid wid iid. ?S (LockBalance tid wid iid)" "\<And>tid cid now u. ?S (PostStockCount tid cid now u)"
    by (auto simp: tx_steps_def new_uuid_def InsertMovement_def ApplyMovementToBalance_def EnsureBalance_def LockBalance_def
        PostStockCount_def Let_def bindE_Inr_iff split: option.splits if_splits)
  moreover have "?S (ssStatus s w t iid)" for iid
    using status_recalculator.recalc_frame[OF rc] by (auto simp: tx_steps_def stock_frame_def)
  ultimately have line: "?S (post_line D s w t doc by_id force l)" for doc l
    unfolding post_line_def adjust_balance_def Let_def dbtx_def by (intro same_orders.steps same_orders.steps_if)
  have lines: "?S (post_lines (post_line D s w t doc by_id force) ls)" for doc ls
  proof (induction ls)
    case (Cons l ls)
    show ?case by (simp only: post_lines.simps) (intro same_orders.steps_bind line Cons same_orders.steps_return)
  qed (simp add: tx_steps_def)
  have "?S (postCountTx D s w t cid by_id force)"
    unfolding postCountTx_def Let_def
    by (intro same_orders.steps lines \<open>\<And>tid cid now u. ?S (PostStockCount tid cid now u)\<close>)
  with r show ?thesis by (simp add: tx_steps_def)
qed

lemma PostCount_safe:
  assumes D: "decimal_api D" and rc: "status_recalculator (ssStatus s)"
    and r: "PostCount D s w t cid by_id force st = (res, st')"
  shows "safe_step T (tenantID t) st st'"
proof -
  have "tx_steps (safe_step T (tenantID t)) (postCountTx D s w t cid by_id force)"
    unfolding tx_steps_def
  proof (intro allI impI advances_safe)
    fix a x b assume p: "postCountTx D s w t cid by_id force a = Inr (x, b)" and inv: "system_inv T a"
    then have "stock_inv a" "counts_ok a" by (simp_all add: system_inv_def orders_wf_def)
    then have "advances (tenantID t) a b" by (rule postCountTx_Inr[OF D rc _ _ p])
    then show "advances (tenantID t) a b \<and> order_life (purchase_orders a) (purchase_orders b)"
      by (simp add: postCountTx_orders[OF rc p])
  qed
  moreover have "tx_steps (safe_step T (tenantID t)) (GetCount D t cid)"
    unfolding GetCount_def Let_def by (intro safe.steps)
  ultimately show ?thesis using r unfolding PostCount_def by (rule safe_then_read)
qed

subsection \<open>Orders\<close>

lemma order_change_safe:
  assumes "then_read change (getOrderTx D s w t) st = (res, st')" and "\<And>x. change st = Inr (x, st') \<Longrightarrow> \<exists>d. order_effect (tenantID t) d st st'"
  shows "safe_step T (tenantID t) st st'"
  using assms(1)
proof (cases rule: then_get_cases)
  case (commit x)
  then obtain d where "order_effect (tenantID t) d st st'" using assms(2) by blast
  then show ?thesis by (rule effect_safe)
qed (simp add: safe.step_refl)

lemma CreateOrder_safe: "CreateOrder D s w t inp st = (res, st') \<Longrightarrow> safe_step T (tenantID t) st st'"
  unfolding CreateOrder_def by (erule order_change_safe) (blast intro: createOrderTx_effect(1))

lemma UpdateLines_safe: "UpdateLines D s w t oid lines st = (res, st') \<Longrightarrow> safe_step T (tenantID t) st st'"
  unfolding UpdateLines_def by (erule order_change_safe) (blast intro: updateLinesTx_effect(1))

lemma Send_safe: "Send D s w t oid st = (res, st') \<Longrightarrow> order_service_ok s \<Longrightarrow> safe_step T (tenantID t) st st'"
  unfolding Send_def by (erule order_change_safe) (blast intro: sendTx_effect)

lemma Cancel_safe: "Cancel D s w t oid st = (res, st') \<Longrightarrow> order_service_ok s \<Longrightarrow> safe_step T (tenantID t) st st'"
  unfolding Cancel_def by (erule order_change_safe) (blast intro: cancelTx_effect)

lemma Receive_safe:
  assumes D: "decimal_api D" and ok: "order_channels_ok s" and wf: "\<forall>a \<in> set actual. wfq D (rlQty a)"
    and r: "Receive D U s w t oid actual by_id key st = (res, st')"
  shows "safe_step T (tenantID t) st st'"
  using r ok
proof (cases rule: Receive_cases)
  case (commit st1)
  have ok': "order_service_ok s" using ok by (simp add: order_channels_ok_def)
  have "safe_step T (tenantID t) st st1"
    by (rule effect_safe) (rule receiveTx_effect[OF D ok' _ wf commit(1)], simp add: system_inv_def orders_wf_def)
  then show ?thesis using feed_safe[OF commit(2)] by (rule safe.step_trans)
qed (simp add: safe.step_refl)

subsection \<open>Statuses, forecasts and notifications\<close>

lemma status_safe: "status_step tid st st' \<Longrightarrow> safe_step T tid st st'"
  by (rule frame_safe) (auto simp: status_step_def)

lemma Run_safe:
  assumes "Run D s w t st = (res, st')" and "refreshes_ok s"
  shows "safe_step T (tenantID t) st st'"
proof -
  have days: "safe_step T (tenantID t) st st1"
    if "rebuildSeriesTx D t (run_from s w t) (Today t (ppClock s) w) st = Inr (series, st1)" for series st1
    by (rule rebuildSeriesTx_stores[OF that valid_from], rule frame_safe) (auto simp: stock_frame_def tenant_view_def)
  from assms show ?thesis
  proof (cases rule: Run_stages)
    case (series_only series st1)
    then show ?thesis using days by blast
  next
    case (complete series computed st1 st2)
    have "map fst computed = map fst series" by (rule compute_all_Some(1)[OF complete(2)])
    moreover have "distinct (map fst series)"
      by (rule rebuildSeriesTx_stores[OF complete(1) valid_from]) (rule series_of_Some(1))
    ultimately have d: "distinct (map fst computed)" by simp
    have "safe_step T (tenantID t) st1 st2"
      by (rule storeAllTx_stores[OF complete(3) d], rule frame_safe) (auto simp: stock_frame_def tenant_view_def)
    from safe.step_trans[OF days[OF complete(1)] this] status_safe[OF complete(4)] show ?thesis by (rule safe.step_trans)
  qed (simp add: safe.step_refl)
qed

lemma RecalculateAll_safe: "RecalculateAll D s w t st = (res, st') \<Longrightarrow> alerts_ok s \<Longrightarrow> safe_step T (tenantID t) st st'"
  by (rule status_safe, rule status_refresher.refresh_step[OF RecalculateAll_refreshes])

lemma Emit_steps: "tx_steps (safe_step T (tenantID t)) (Emit s w t kind key p)"
  unfolding tx_steps_def by (blast intro: feed_safe Emit_feed)

lemma SendDigest_safe: "SendDigest D s w t st = (res, st') \<Longrightarrow> safe_step T (tenantID t) st st'"
  unfolding SendDigest_def Let_def
  by (erule safe.steps_tenant_tx[rotated]) (intro safe.steps safe.steps_if Emit_steps)

lemma safe_steps_sum: "(\<And>x. tx_steps (safe_step T tid) (f x)) \<Longrightarrow> tx_steps (safe_step T tid) (tx_sum f xs)"
  by (induction xs) (auto intro!: safe.steps)

lemma SendCutoffReminders_safe: "SendCutoffReminders U s w t st = (res, st') \<Longrightarrow> safe_step T (tenantID t) st st'"
  unfolding SendCutoffReminders_def
  by (erule safe.steps_tenant_tx[rotated], intro safe.steps safe_steps_sum)
    (auto simp: remind_supplier_def Let_def split: prod.split intro!: safe.steps Emit_steps)

lemma MarkOrderLateNotified_steps: "tx_steps (safe_step T tid) (MarkOrderLateNotified tid oid moment)"
  unfolding tx_steps_def
proof (intro allI impI)
  fix a x and b :: "'a db" assume "MarkOrderLateNotified tid oid moment a = Inr (x, b)"
  then have b: "b = a\<lparr>purchase_orders := update_rows (\<lambda>r. po_tenant r = tid \<and> po_id r = oid)
      (\<lambda>r. r\<lparr>po_late_notified_at := Some (pg_Time moment)\<rparr>) (purchase_orders a)\<rparr>" by (simp add: MarkOrderLateNotified_def)
  have "order_life (purchase_orders a) (purchase_orders b)"
    unfolding b by (simp, rule update_rows_life) (simp add: order_moves_def)
  moreover have "advances tid a b"
    by (rule advances_documents) (auto simp: b tenant_view_def)
  ultimately show "safe_step T tid a b" by (intro advances_safe) simp
qed

lemma SendLateAlerts_safe: "SendLateAlerts U s w t st = (res, st') \<Longrightarrow> safe_step T (tenantID t) st st'"
  unfolding SendLateAlerts_def
  by (erule safe.steps_tenant_tx[rotated], intro safe.steps safe_steps_sum)
    (auto simp: alert_late_def Let_def dbtx_def intro!: safe.steps Emit_steps MarkOrderLateNotified_steps)

lemma MarkRead_safe: "MarkRead s w t uid ids st = (res, st') \<Longrightarrow> safe_step T (tenantID t) st st'"
proof -
  have "tx_steps (safe_step T tid) (MarkNotificationsRead tid uid now ids)" for tid now
    unfolding tx_steps_def
    by (auto simp: MarkNotificationsRead_def stock_frame_def tenant_view_def read_matches_def
        intro!: frame_safe visible_update_rows_other[where tid = tid])
  then have "tx_steps (safe_step T (tenantID t)) (dbtx ''read'' (MarkNotificationsRead (tenantID t) uid (clock_Now (nsClock s) w) ids))"
    unfolding dbtx_def by (rule safe.steps_lift)
  then show "MarkRead s w t uid ids st = (res, st') \<Longrightarrow> safe_step T (tenantID t) st st'"
    unfolding MarkRead_def by (rule safe.steps_tenant_tx)
qed

text \<open>The dispatcher, which works for all tenants, changes the outbox alone.\<close>

definition outbox_step :: "'d db \<Rightarrow> 'd db \<Rightarrow> bool" where
  "outbox_step st st' \<longleftrightarrow> (\<exists>obs. st' = st\<lparr>outbox := obs\<rparr>)"

lemma outbox_refl [simp]: "outbox_step st st"
  unfolding outbox_step_def by (rule exI[of _ "outbox st"]) simp

lemma outbox_trans: "outbox_step a b \<Longrightarrow> outbox_step b c \<Longrightarrow> outbox_step a c"
  by (auto simp: outbox_step_def)

lemma mark_outbox [simp]:
  "outbox_step st (markSent i now st)" "outbox_step st (markFailed i reason st)" "outbox_step st (reschedule i now reason st)"
proof -
  have u: "outbox_step st (update_outbox i f st)" for f by (auto simp: outbox_step_def update_outbox_def)
  show "outbox_step st (markSent i now st)" "outbox_step st (markFailed i reason st)" "outbox_step st (reschedule i now reason st)"
    using u by (simp_all add: markSent_def markFailed_def reschedule_def InTenantTx_def MarkOutboxSent_def RescheduleOutbox_def MarkOutboxFailed_def)
qed

lemma deliver_outbox: "deliver d now msg (w, st) = (out, (w', st')) \<Longrightarrow> outbox_step st st'"
  by (auto simp: deliver_def give_up_or_retry_def split: option.splits prod.splits send_result.splits if_splits)

lemma deliver_all_outbox: "deliver_all d now msgs res (w, st) = (res', (w', st')) \<Longrightarrow> outbox_step st st'"
proof (induction msgs arbitrary: res w st)
  case (Cons msg msgs)
  obtain out w1 st1 where "deliver d now msg (w, st) = (out, (w1, st1))" by (metis prod.exhaust)
  with Cons show ?case by (auto dest!: deliver_outbox intro: outbox_trans)
qed simp

lemma Dispatch_outbox:
  assumes "Dispatch d now (w, st) = (res, (w', st'))"
  shows "outbox_step st st'"
proof -
  obtain claimed obs where "InTenantTx (ClaimOutbox now (dpBatch d)) st = (Inr claimed, st\<lparr>outbox := obs\<rparr>)"
    by (auto simp: InTenantTx_def ClaimOutbox_def Let_def)
  then have "deliver_all d now claimed \<lparr>Claimed = int (length claimed), Sent = 0, Retried = 0, Failed = 0\<rparr> (w, st\<lparr>outbox := obs\<rparr>) = (res, (w', st'))"
    using assms by (simp add: Dispatch_def)
  then have "outbox_step (st\<lparr>outbox := obs\<rparr>) st'" by (rule deliver_all_outbox)
  then show ?thesis by (auto simp: outbox_step_def)
qed

section \<open>The system\<close>

text \<open>The operations of a tenant, with any outcome, at any time.\<close>

inductive tenant_op :: "'d decimal_lib \<Rightarrow> uuid_lib \<Rightarrow> text_lib \<Rightarrow> 'd zapas \<Rightarrow> tenant \<Rightarrow> 'd db \<Rightarrow> 'd db \<Rightarrow> bool"
  for D :: "'d decimal_lib" and U :: uuid_lib and T :: text_lib and z :: "'d zapas" and t :: tenant where
  op_record: "Record D (zpStock z) w t req st = (r1, st') \<Longrightarrow> wfq D (rqQty req) \<Longrightarrow> tenant_op D U T z t st st'"
| "Reverse D (zpStock z) w t mid by_id oth st = (r2, st') \<Longrightarrow> tenant_op D U T z t st st'"
| "CreateCount D w t scope note ids by_id st = (r3, st') \<Longrightarrow> tenant_op D U T z t st st'"
| "SetCountLines D t cid lines st = (r4, st') \<Longrightarrow> tenant_op D U T z t st st'"
| "PostCount D (zpStock z) w t cid by_id force st = (r5, st') \<Longrightarrow> tenant_op D U T z t st st'"
| "CreateOrder D (zpOrders z) w t inp st = (r6, st') \<Longrightarrow> tenant_op D U T z t st st'"
| "UpdateLines D (zpOrders z) w t oid olines st = (r7, st') \<Longrightarrow> tenant_op D U T z t st st'"
| "Send D (zpOrders z) w t oid st = (r8, st') \<Longrightarrow> tenant_op D U T z t st st'"
| "Cancel D (zpOrders z) w t oid st = (r9, st') \<Longrightarrow> tenant_op D U T z t st st'"
| "Receive D U (zpOrders z) w t oid actual by_id key st = (r10, st') \<Longrightarrow> \<forall>a \<in> set actual. wfq D (rlQty a) \<Longrightarrow> tenant_op D U T z t st st'"
| "RecalculateAll D (zpReplenishment z) w t st = (r11, st') \<Longrightarrow> tenant_op D U T z t st st'"
| "Run D (zpPipeline z) w t st = (r12, st') \<Longrightarrow> tenant_op D U T z t st st'"
| "SendDigest D (zpNotify z) w t st = (r13, st') \<Longrightarrow> tenant_op D U T z t st st'"
| "SendCutoffReminders U (zpNotify z) w t st = (r14, st') \<Longrightarrow> tenant_op D U T z t st st'"
| "SendLateAlerts U (zpNotify z) w t st = (r15, st') \<Longrightarrow> tenant_op D U T z t st st'"
| "MarkRead (zpNotify z) w t uid nids st = (r16, st') \<Longrightarrow> tenant_op D U T z t st st'"
| op_catalog: "catalog_op D T (zpClock z) t st st' \<Longrightarrow> tenant_op D U T z t st st'"

lemma tenant_op_safe:
  assumes "tenant_op D U T z t st st'" and D: "decimal_api D" and ok: "zapas_ok z"
  shows "safe_step T (tenantID t) st st'"
proof -
  have rc: "status_recalculator (ssStatus (zpStock z))" and oc: "order_channels_ok (zpOrders z)"
    and al: "alerts_ok (zpReplenishment z)" and rf: "refreshes_ok (zpPipeline z)"
    using ok by (simp_all add: zapas_ok_def)
  have os: "order_service_ok (zpOrders z)" using oc by (simp add: order_channels_ok_def)
  note ops = Record_safe[OF D rc] Reverse_safe[OF D rc] CreateCount_safe SetCountLines_safe PostCount_safe[OF D rc]
    CreateOrder_safe UpdateLines_safe Send_safe[OF _ os] Cancel_safe[OF _ os] Receive_safe[OF D oc]
    RecalculateAll_safe[OF _ al] Run_safe[OF _ rf] SendDigest_safe SendCutoffReminders_safe SendLateAlerts_safe MarkRead_safe
    catalog_safe[OF catalog_op_step]
  show ?thesis using assms(1) by cases (erule (1) ops | erule ops)+
qed

text \<open>One step of the running system: an operation of some tenant, or a pass of the dispatcher.\<close>

inductive system_op :: "'d decimal_lib \<Rightarrow> uuid_lib \<Rightarrow> text_lib \<Rightarrow> 'd zapas \<Rightarrow> ('d, 'w) dispatcher \<Rightarrow> 'w \<times> 'd db \<Rightarrow> 'w \<times> 'd db \<Rightarrow> bool"
  for D :: "'d decimal_lib" and U :: uuid_lib and T :: text_lib and z :: "'d zapas" and d :: "('d, 'w) dispatcher" where
  sys_tenant: "tenant_op D U T z t st st' \<Longrightarrow> system_op D U T z d (w, st) (w, st')"
| sys_dispatch: "Dispatch d now (w, st) = (res, (w', st')) \<Longrightarrow> system_op D U T z d (w, st) (w', st')"

definition system_step :: "text_lib \<Rightarrow> 'd db \<Rightarrow> 'd db \<Rightarrow> bool" where
  "system_step T st st' \<longleftrightarrow> (system_inv T st \<longrightarrow> system_inv T st' \<and> goes_on st st')"

lemma system_op_step:
  assumes "system_op D U T z d ws ws'" and "decimal_api D" and "zapas_ok z"
  shows "system_step T (snd ws) (snd ws')"
  using assms(1)
proof cases
  case (sys_tenant t st st' w)
  then show ?thesis using tenant_op_safe[OF sys_tenant(3) assms(2,3)] by (simp add: system_step_def safe_step_def)
next
  case (sys_dispatch now w st res w' st')
  then obtain obs where st': "st' = st\<lparr>outbox := obs\<rparr>" using Dispatch_outbox[OF sys_dispatch(3)] by (auto simp: outbox_step_def)
  have "catalog_inv T st \<Longrightarrow> catalog_inv T st'" by (rule same_catalog_inv[of st]) (simp_all add: same_catalog_def st')
  then have "system_step T st st'"
    by (auto simp: st' system_step_def system_inv_def orders_wf_def stock_inv_def on_hand_of_def journal_def counts_ok_def
        goes_on_def intro: order_moves_refl)
  then show ?thesis using sys_dispatch by simp
qed

lemma system_runs:
  assumes "(system_op D U T z d)\<^sup>*\<^sup>* ws ws'" and "decimal_api D" and "zapas_ok z"
  shows "system_step T (snd ws) (snd ws')"
  using assms(1)
proof (induction rule: rtranclp_induct)
  case (step a b)
  show ?case using step.IH system_op_step[OF step.hyps(2) assms(2,3)] by (auto simp: system_step_def intro: goes_on_trans)
qed (simp add: system_step_def)

text \<open>(C2) No operation of a tenant can be seen by another: whatever the services, wired as \<open>api.New\<close> wires them, do
  for one tenant, with any outcome and including the alerts and recalculations they set off in each other, every
  other tenant reads the same rows of every table as before.\<close>
theorem tenants_isolated:
  assumes "tenant_op D U T (api_New D U cl local base) t st st'" and "decimal_api D" and "system_inv T st"
    and "other \<noteq> tenantID t"
  shows "tenant_view other st' = tenant_view other st"
  using tenant_op_safe[OF assms(1,2) api_New_ok] assms(3,4) by (simp add: safe_step_def)

text \<open>(C1) Whatever operations the tenants run in whatever order, with whatever outcomes and with the dispatcher between
  them: the balances equal the sums of the journal, a quantity in stock is never negative, the rules of the
  catalogue and of the counts hold; no movement is ever changed or removed; every order that was there is there
  and has only moved along its life.\<close>
theorem system_sound:
  assumes "(system_op D U T (api_New D U cl local base) d)\<^sup>*\<^sup>* (w, st) (w', st')" and "decimal_api D" and "system_inv T st"
  shows "system_inv T st' \<and> (\<forall>a i. on_hand_of st' a i = journal st' a i \<and> 0 \<le> on_hand_of st' a i)
     \<and> (\<exists>ms. movements st' = movements st @ ms)
     \<and> (\<forall>r \<in> set (purchase_orders st). \<exists>r' \<in> set (purchase_orders st'). po_id r' = po_id r \<and> po_tenant r' = po_tenant r
          \<and> po_supplier r' = po_supplier r \<and> order_step\<^sup>*\<^sup>* (po_status r) (po_status r'))"
proof -
  have inv: "system_inv T st'" and g: "goes_on st st'"
    using system_runs[OF assms(1,2) api_New_ok] assms(3) by (simp_all add: system_step_def)
  then have s: "stock_inv st'" by (simp add: system_inv_def orders_wf_def)
  then have "\<forall>a i. on_hand_of st' a i = journal st' a i" by (simp add: stock_inv_def)
  then show ?thesis using inv g on_hand_nonneg[OF s] by (fastforce simp: goes_on_def order_moves_def)
qed

section \<open>A sample run\<close>

abbreviation sample_system :: "dec zapas" where
  "sample_system \<equiv> api_New dec_lib sample_uuid (Fixed 1000000000000) UTC []"

lemma sample_system_ok: "system_inv sample_text sample_db"
  using sample_ok(3) sample_catalog_ok by (simp add: system_inv_def orders_wf_def counts_ok_def) (simp add: sample_db_def)

lemma sample_system_op:
  obtains res st' where "catalog_ArchiveItem (zpClock sample_system) 0 sample_tenant 10 sample_db = (Inr res, st')"
    and "map it_archived_at (items st') = [Some 1000000000000]" and "tenant_op dec_lib sample_uuid sample_text sample_system sample_tenant sample_db st'"
proof -
  have "case catalog_ArchiveItem (zpClock sample_system) 0 sample_tenant 10 sample_db of
     (Inr _, st') \<Rightarrow> map it_archived_at (items st') = [Some 1000000000000] | _ \<Rightarrow> False"
    by (simp add: catalog_ArchiveItem_def catdb_def tx_lift_def sample_db_def sample_tenant_def sample_item_def api_New_def ArchiveItem_q_def GetItem_def visible_def update_rows_def pg_Time_def InTenantTx_def tx_bind_def Let_def tenant_Now_def)
  then obtain res st' where "catalog_ArchiveItem (zpClock sample_system) 0 sample_tenant 10 sample_db = (Inr res, st')"
    "map it_archived_at (items st') = [Some 1000000000000]" by (auto split: prod.splits sum.splits)
  then show thesis by (rule that) (rule op_catalog, rule op_archive_item, fact)
qed

theorem tenants_isolated_witness:
  "\<exists>st'. tenant_op dec_lib sample_uuid sample_text sample_system sample_tenant sample_db st' \<and> map it_archived_at (items st') = [Some 1000000000000]
     \<and> tenant_view 2 st' = tenant_view 2 sample_db"
proof -
  obtain st' where r: "map it_archived_at (items st') = [Some 1000000000000]" "tenant_op dec_lib sample_uuid sample_text sample_system sample_tenant sample_db st'"
    by (rule sample_system_op)
  have two: "(2::uuid) \<noteq> tenantID sample_tenant" by (simp add: sample_tenant_def)
  show ?thesis by (intro exI[of _ st'] conjI r tenants_isolated[OF r(2) sample_ok(1) sample_system_ok two])
qed

theorem system_sound_witness:
  "\<exists>st'. system_op dec_lib sample_uuid sample_text sample_system sample_dispatcher ((), sample_db) ((), st')
     \<and> map it_archived_at (items st') = [Some 1000000000000] \<and> system_inv sample_text st'"
proof -
  obtain st' where r: "map it_archived_at (items st') = [Some 1000000000000]" "tenant_op dec_lib sample_uuid sample_text sample_system sample_tenant sample_db st'"
    by (rule sample_system_op)
  have s: "system_op dec_lib sample_uuid sample_text sample_system sample_dispatcher ((), sample_db) ((), st')"
    by (rule sys_tenant[OF r(2)])
  show ?thesis
    by (intro exI[of _ st'] conjI s r system_sound[OF r_into_rtranclp[of "system_op _ _ _ _ _"], OF s sample_ok(1) sample_system_ok, THEN conjunct1])
qed

end
