(* ===== verification/Worker.thy ===== *)
theory Worker
  imports System Auth Cleanup
begin

text \<open>
  \<open>internal/worker\<close>: the tasks that run by schedule, each for all tenants that are alive, with the services as
  \<open>cmd/app\<close> wires them. The queue of tasks (asynq) calls them; logs and metrics are left out. A panic in a task ends it, the
  queue recovers it.
\<close>

section \<open>Tasks for every tenant\<close>

definition TaskForecast :: string where "TaskForecast = ''forecast:nightly''"
definition TaskDigest :: string where "TaskDigest = ''notify:digest''"
definition TaskCutoff :: string where "TaskCutoff = ''notify:cutoff''"
definition TaskLate :: string where "TaskLate = ''notify:late''"
definition TaskOutbox :: string where "TaskOutbox = ''notify:outbox''"
definition TaskReconcile :: string where "TaskReconcile = ''stock:reconcile''"
definition TaskSandboxGC :: string where "TaskSandboxGC = ''sandbox:cleanup''"

datatype task_result = TaskOk | TaskFailed nat nat | TaskPanicked

definition listTenants :: "auth_lib \<Rightarrow> 'd zapas \<Rightarrow> instant \<Rightarrow> 'd site \<Rightarrow> tenant list" where
  "listTenants L z w s = map (tenant_of L) (ListActiveTenants (pg_Time (clock_Now (zpClock z) w)) s)"

text \<open>A failure is counted and passed over; \<open>None\<close> is a panic.\<close>

fun for_each :: "(tenant \<Rightarrow> 's \<Rightarrow> ('d app_error + unit) \<times> 's) \<Rightarrow> tenant list \<Rightarrow> nat \<times> 's \<Rightarrow> nat option \<times> 's" where
  "for_each fn [] (failed, s) = (Some failed, s)"
| "for_each fn (t # ts) (failed, s) = (case fn t s of
     (Inr _, s1) \<Rightarrow> for_each fn ts (failed, s1)
   | (Inl e, s1) \<Rightarrow> if e = Panicked then (None, s1) else for_each fn ts (Suc failed, s1))"

definition forEachTenant :: "auth_lib \<Rightarrow> 'd zapas \<Rightarrow> instant \<Rightarrow> (tenant \<Rightarrow> 'd site \<Rightarrow> ('d app_error + unit) \<times> 'd site) \<Rightarrow>
    'd site \<Rightarrow> task_result \<times> 'd site" where
  "forEachTenant L z w fn s = (let tenants = listTenants L z w s in
     case for_each fn tenants (0, s) of
       (None, s1) \<Rightarrow> (TaskPanicked, s1)
     | (Some failed, s1) \<Rightarrow> (if 0 < failed then TaskFailed failed (length tenants) else TaskOk, s1))"

definition task_hour :: "'d zapas \<Rightarrow> instant \<Rightarrow> tenant \<Rightarrow> int" where
  "task_hour z w t = local_hour (tenant_Now t (zpClock z) w) (Loc t)"

definition forEachTenantAt :: "auth_lib \<Rightarrow> 'd zapas \<Rightarrow> instant \<Rightarrow> int \<Rightarrow> (tenant \<Rightarrow> 'd site \<Rightarrow> ('d app_error + unit) \<times> 'd site) \<Rightarrow>
    'd site \<Rightarrow> task_result \<times> 'd site" where
  "forEachTenantAt L z w h fn = forEachTenant L z w (\<lambda>t s. if task_hour z w t \<noteq> h then (Inr (), s) else fn t s)"

text \<open>An operation on the tables of the tenants, its result dropped.\<close>

definition task_op :: "('d db \<Rightarrow> ('e + 'a) \<times> 'd db) \<Rightarrow> 'd site \<Rightarrow> ('e + unit) \<times> 'd site" where
  "task_op f s = (case on_db f s of (Inl e, s1) \<Rightarrow> (Inl e, s1) | (Inr _, s1) \<Rightarrow> (Inr (), s1))"

section \<open>The tasks\<close>

definition RunForecast :: "'d decimal_lib \<Rightarrow> auth_lib \<Rightarrow> 'd zapas \<Rightarrow> instant \<Rightarrow> 'd site \<Rightarrow> task_result \<times> 'd site" where
  "RunForecast D L z w = forEachTenantAt L z w 3 (\<lambda>t. task_op (Run D (zpPipeline z) w t))"

definition RunDigest :: "'d decimal_lib \<Rightarrow> auth_lib \<Rightarrow> 'd zapas \<Rightarrow> instant \<Rightarrow> 'd site \<Rightarrow> task_result \<times> 'd site" where
  "RunDigest D L z w = forEachTenant L z w (\<lambda>t s. if IsSandbox t then (Inr (), s)
     else if task_hour z w t \<noteq> tHour (DigestAt (tenantSettings t)) then (Inr (), s)
     else task_op (SendDigest D (zpNotify z) w t) s)"

definition RunCutoffReminders :: "uuid_lib \<Rightarrow> auth_lib \<Rightarrow> 'd zapas \<Rightarrow> instant \<Rightarrow> 'd site \<Rightarrow> task_result \<times> 'd site" where
  "RunCutoffReminders U L z w = forEachTenant L z w (\<lambda>t s. if IsSandbox t then (Inr (), s)
     else task_op (SendCutoffReminders U (zpNotify z) w t) s)"

definition RunLateAlerts :: "uuid_lib \<Rightarrow> auth_lib \<Rightarrow> 'd zapas \<Rightarrow> instant \<Rightarrow> 'd site \<Rightarrow> task_result \<times> 'd site" where
  "RunLateAlerts U L z w = forEachTenant L z w (\<lambda>t. task_op (SendLateAlerts U (zpNotify z) w t))"

text \<open>What differs is logged, with the error level.\<close>

definition RunReconcile :: "'d decimal_lib \<Rightarrow> auth_lib \<Rightarrow> 'd zapas \<Rightarrow> instant \<Rightarrow> 'd site \<Rightarrow> task_result \<times> 'd site" where
  "RunReconcile D L z w = forEachTenant L z w (\<lambda>t. task_op (Reconcile D t))"

definition RunOutbox :: "('d, 'w) dispatcher \<Rightarrow> 'd zapas \<Rightarrow> instant \<Rightarrow> 'w \<times> 'd site \<Rightarrow> dispatch_result \<times> 'w \<times> 'd site" where
  "RunOutbox d z w ws = (case ws of (world, s) \<Rightarrow>
     (case Dispatch d (clock_Now (zpClock z) w) (world, siDb s) of (res, (world', st')) \<Rightarrow> (res, world', s\<lparr>siDb := st'\<rparr>)))"

section \<open>The schedule\<close>

definition schedule :: "(string \<times> string) list" where
  "schedule = [(''@every 30s'', TaskOutbox), (''0 * * * *'', TaskForecast), (''5 * * * *'', TaskDigest), (''*/15 * * * *'', TaskCutoff),
     (''10 * * * *'', TaskLate), (''20 4 * * *'', TaskReconcile), (''30 * * * *'', TaskSandboxGC)]"

text \<open>How long the queue waits before try \<open>n\<close>, in the width of \<open>time.Duration\<close>.\<close>

definition retry_delay :: "nat \<Rightarrow> int" where
  "retry_delay n = sint (push_bit n (1 :: 64 word) * word_of_int (60 * second))"

section \<open>Every tenant is reached\<close>

lemma for_each_trace:
  assumes "for_each fn ts (k, s) = (Some n, s')"
  shows "\<exists>states. length states = Suc (length ts) \<and> states ! 0 = s \<and> states ! length ts = s'
    \<and> (\<forall>i < length ts. states ! Suc i = snd (fn (ts ! i) (states ! i)))
    \<and> n = k + card {i. i < length ts \<and> (\<exists>e. fst (fn (ts ! i) (states ! i)) = Inl e)}"
  using assms
proof (induction ts arbitrary: k s)
  case (Cons t ts)
  obtain r s1 where f: "fn t s = (r, s1)" by (cases "fn t s")
  let ?k = "if \<exists>e. r = Inl e then Suc k else k"
  have "for_each fn ts (?k, s1) = (Some n, s')" using Cons.prems f by (cases r) (auto split: if_splits)
  from Cons.IH[OF this] obtain states where st: "length states = Suc (length ts)" "states ! 0 = s1" "states ! length ts = s'"
    "\<forall>i < length ts. states ! Suc i = snd (fn (ts ! i) (states ! i))"
    "n = ?k + card {i. i < length ts \<and> (\<exists>e. fst (fn (ts ! i) (states ! i)) = Inl e)}" by blast
  let ?P = "\<lambda>i. \<exists>e. fst (fn ((t # ts) ! i) ((s # states) ! i)) = Inl e"
  have "{i. i < length (t # ts) \<and> ?P i} = (if \<exists>e. r = Inl e then {0} else {}) \<union> Suc ` {i. i < length ts \<and> (\<exists>e. fst (fn (ts ! i) (states ! i)) = Inl e)}"
    using f by (auto simp: image_iff less_Suc_eq_0_disj nth_Cons')
  then have "card {i. i < length (t # ts) \<and> ?P i} = (if \<exists>e. r = Inl e then 1 else 0) + card {i. i < length ts \<and> (\<exists>e. fst (fn (ts ! i) (states ! i)) = Inl e)}"
    by (auto simp: card_image card_insert_if)
  then show ?case
    using st f by (intro exI[of _ "s # states"]) (auto simp: less_Suc_eq_0_disj split: if_splits)
qed (auto intro: exI[of _ "[s']"])


text \<open>(C34) One tenant cannot stop a task for the others: unless the program panics, the operation runs once for every tenant
  that is alive, in the order of their creation and each on what the one before left, and the task reports exactly how many
  failed.\<close>
theorem forEachTenant_reaches_all:
  assumes "forEachTenant L z w fn s = (r, s')" and "r \<noteq> TaskPanicked" and "ts = listTenants L z w s"
  shows "\<exists>states. length states = Suc (length ts) \<and> states ! 0 = s \<and> states ! length ts = s'
    \<and> (\<forall>i < length ts. states ! Suc i = snd (fn (ts ! i) (states ! i)))
    \<and> r = (let failed = card {i. i < length ts \<and> (\<exists>e. fst (fn (ts ! i) (states ! i)) = Inl e)}
           in if failed = 0 then TaskOk else TaskFailed failed (length ts))"
proof -
  obtain n where f: "for_each fn ts (0, s) = (Some n, s')" and r: "r = (if 0 < n then TaskFailed n (length ts) else TaskOk)"
    using assms by (auto simp: forEachTenant_def Let_def split: prod.splits option.splits if_splits)
  from for_each_trace[OF f] obtain states where "length states = Suc (length ts)" "states ! 0 = s" "states ! length ts = s'"
    "\<forall>i < length ts. states ! Suc i = snd (fn (ts ! i) (states ! i))"
    "n = 0 + card {i. i < length ts \<and> (\<exists>e. fst (fn (ts ! i) (states ! i)) = Inl e)}" by blast
  then show ?thesis using r by (intro exI[of _ states]) (auto simp: Let_def card_gt_0_iff)
qed

section \<open>Tasks are runs of the system\<close>

text \<open>A task does to the tables of the tenants what a sequence of operations of the system does, and to the others nothing.\<close>

definition site_run :: "'d decimal_lib \<Rightarrow> uuid_lib \<Rightarrow> text_lib \<Rightarrow> 'd zapas \<Rightarrow> ('d, 'w) dispatcher \<Rightarrow> 'w \<times> 'd site \<Rightarrow> 'w \<times> 'd site \<Rightarrow> bool" where
  "site_run D U T z d a b \<longleftrightarrow> (system_op D U T z d)\<^sup>*\<^sup>* (fst a, siDb (snd a)) (fst b, siDb (snd b))
     \<and> snd b = (snd a)\<lparr>siDb := siDb (snd b)\<rparr>"

lemma site_run_refl [simp]: "site_run D U T z d a a"
  by (simp add: site_run_def)

lemma site_run_trans: "site_run D U T z d a b \<Longrightarrow> site_run D U T z d b c \<Longrightarrow> site_run D U T z d a c"
  unfolding site_run_def by (auto intro: rtranclp_trans) (metis site.surjective site.update_convs(1))

lemma task_op_run:
  assumes "task_op f s = (r, s')" and "\<And>x st'. f (siDb s) = (x, st') \<Longrightarrow> tenant_op D U T z t (siDb s) st'"
  shows "site_run D U T z d (world, s) (world, s')"
proof -
  obtain x st' where f: "f (siDb s) = (x, st')" by (cases "f (siDb s)")
  then have "s' = s\<lparr>siDb := st'\<rparr>" using assms(1) by (cases x) (auto simp: task_op_def on_db_def)
  moreover have "system_op D U T z d (world, siDb s) (world, st')" by (rule sys_tenant[OF assms(2)[OF f]])
  ultimately show ?thesis by (auto simp: site_run_def)
qed

lemma for_each_run:
  assumes "\<And>t s r s'. fn t s = (r, s') \<Longrightarrow> site_run D U T z d (world, s) (world, s')" and "for_each fn ts (k, s) = (n, s')"
  shows "site_run D U T z d (world, s) (world, s')"
  using assms(2)
proof (induction ts arbitrary: k s)
  case (Cons t ts)
  obtain r s1 where f: "fn t s = (r, s1)" by (cases "fn t s")
  have "site_run D U T z d (world, s1) (world, s')" using Cons f by (cases r) (auto split: if_splits)
  with assms(1)[OF f] show ?case by (rule site_run_trans)
qed simp

lemma task_run:
  assumes "forEachTenant L z w fn s = (r, s')" and "\<And>t s r s'. fn t s = (r, s') \<Longrightarrow> site_run D U T z d (world, s) (world, s')"
  shows "site_run D U T z d (world, s) (world, s')"
proof -
  obtain n where "for_each fn (listTenants L z w s) (0, s) = (n, s')"
    using assms(1) by (auto simp: forEachTenant_def Let_def split: prod.splits option.splits if_splits)
  from for_each_run[OF assms(2) this] show ?thesis .
qed

lemma Reconcile_reads: "Reconcile D t st = (r, st') \<Longrightarrow> st' = st"
  by (auto simp: Reconcile_def InTenantTx_def tx_bind_def split: prod.splits sum.splits)

inductive task_step :: "'d decimal_lib \<Rightarrow> uuid_lib \<Rightarrow> auth_lib \<Rightarrow> 'd zapas \<Rightarrow> ('d, 'w) dispatcher \<Rightarrow> 'w \<times> 'd site \<Rightarrow> 'w \<times> 'd site \<Rightarrow> bool"
  for D :: "'d decimal_lib" and U :: uuid_lib and L :: auth_lib and z :: "'d zapas" and d :: "('d, 'w) dispatcher" where
  ts_forecast: "RunForecast D L z w s = (r, s') \<Longrightarrow> task_step D U L z d (world, s) (world, s')"
| ts_digest: "RunDigest D L z w s = (r, s') \<Longrightarrow> task_step D U L z d (world, s) (world, s')"
| ts_cutoff: "RunCutoffReminders U L z w s = (r, s') \<Longrightarrow> task_step D U L z d (world, s) (world, s')"
| ts_late: "RunLateAlerts U L z w s = (r, s') \<Longrightarrow> task_step D U L z d (world, s) (world, s')"
| ts_reconcile: "RunReconcile D L z w s = (r, s') \<Longrightarrow> task_step D U L z d (world, s) (world, s')"
| ts_outbox: "RunOutbox d z w (world, s) = (res, world', s') \<Longrightarrow> task_step D U L z d (world, s) (world', s')"

lemma task_step_run:
  assumes "task_step D U L z d a b"
  shows "site_run D U T z d a b"
  using assms
proof cases
  case (ts_forecast w s r s' world)
  show ?thesis unfolding ts_forecast(1,2)
    by (rule task_run[OF ts_forecast(3)[unfolded RunForecast_def forEachTenantAt_def]])
      (auto split: if_splits elim!: task_op_run intro: tenant_op.intros)
next
  case (ts_digest w s r s' world)
  show ?thesis unfolding ts_digest(1,2)
    by (rule task_run[OF ts_digest(3)[unfolded RunDigest_def]]) (auto split: if_splits elim!: task_op_run intro: tenant_op.intros)
next
  case (ts_cutoff w s r s' world)
  show ?thesis unfolding ts_cutoff(1,2)
    by (rule task_run[OF ts_cutoff(3)[unfolded RunCutoffReminders_def]]) (auto split: if_splits elim!: task_op_run intro: tenant_op.intros)
next
  case (ts_late w s r s' world)
  show ?thesis unfolding ts_late(1,2)
    by (rule task_run[OF ts_late(3)[unfolded RunLateAlerts_def]]) (auto elim!: task_op_run intro: tenant_op.intros)
next
  case (ts_reconcile w s r s' world)
  have "task_op (Reconcile D t) s1 = (r1, s2) \<Longrightarrow> s2 = s1" for t s1 r1 s2
    by (auto simp: task_op_def on_db_def split: prod.splits sum.splits dest: Reconcile_reads)
  then show ?thesis unfolding ts_reconcile(1,2)
    by (intro task_run[OF ts_reconcile(3)[unfolded RunReconcile_def]]) (metis site_run_refl)
next
  case (ts_outbox w world s res world' s')
  obtain st' where "Dispatch d (clock_Now (zpClock z) w) (world, siDb s) = (res, (world', st'))" "s' = s\<lparr>siDb := st'\<rparr>"
    using ts_outbox(3) by (auto simp: RunOutbox_def split: prod.splits)
  then show ?thesis unfolding ts_outbox(1,2) site_run_def by (auto intro: sys_dispatch)
qed

lemma task_steps_run: "(task_step D U L z d)\<^sup>*\<^sup>* a b \<Longrightarrow> site_run D U T z d a b"
  by (induction rule: rtranclp_induct) (auto dest: task_step_run[where T = T] intro: site_run_trans)



section \<open>Examples\<close>

definition two_shops :: "dec site" where
  "two_shops = \<lparr>siDb = sample_db, siTenants = [sample_tenant_row, sample_tenant_row\<lparr>tn_id := 2, tn_created_at := 1000\<rparr>],
     siSessions = [], siAudit = [], siCodes = []\<rparr>"

text \<open>The operation fails for the first shop and takes a number for the second.\<close>

definition half_broken :: "tenant \<Rightarrow> dec site \<Rightarrow> (dec app_error + unit) \<times> dec site" where
  "half_broken t = task_op (\<lambda>st. if tenantID t = 1 then (Inl ErrNotFound, st) else InTenantTx new_uuid st)"

theorem forEachTenant_reaches_all_witness:
  "\<exists>s'. forEachTenant sample_auth_lib sample_system 0 half_broken two_shops = (TaskFailed 1 2, s')
     \<and> (\<exists>states. length states = 3 \<and> states ! 0 = two_shops \<and> states ! 2 = s' \<and> states ! 2 = snd (half_broken (listTenants sample_auth_lib sample_system 0 two_shops ! 1) (states ! 1)))"
proof -
  have ts: "map tenantID (listTenants sample_auth_lib sample_system 0 two_shops) = [1, 2]"
    by (simp add: listTenants_def ListActiveTenants_def two_shops_def sample_tenant_row_def tenant_of_def)
  then obtain t1 t2 where t: "listTenants sample_auth_lib sample_system 0 two_shops = [t1, t2]" "tenantID t1 = 1" "tenantID t2 = 2"
    by (auto simp: map_eq_Cons_conv)
  have "\<exists>s'. forEachTenant sample_auth_lib sample_system 0 half_broken two_shops = (TaskFailed 1 2, s')"
    using t by (simp add: forEachTenant_def half_broken_def task_op_def on_db_def InTenantTx_def new_uuid_def)
  then obtain s' where f: "forEachTenant sample_auth_lib sample_system 0 half_broken two_shops = (TaskFailed 1 2, s')" by blast
  obtain states where st: "length states = Suc (length [t1, t2])" "states ! 0 = two_shops" "states ! length [t1, t2] = s'"
    "\<forall>i < length [t1, t2]. states ! Suc i = snd (half_broken ([t1, t2] ! i) (states ! i))"
    using forEachTenant_reaches_all[OF f _ refl] unfolding t(1) by blast
  from st(4) have "states ! Suc 1 = snd (half_broken ([t1, t2] ! 1) (states ! 1))" by simp
  then show ?thesis using f st t(1) by (intro exI[of _ s'] conjI exI[of _ states]) (simp_all add: numeral_2_eq_2 numeral_3_eq_3)
qed


end
