(* ===== verification/Spec2Isabelle.thy ===== *)
theory Spec2Isabelle
  imports
    Accounts Auth Calendar Catalog Catalog_Correct Catalog_Db Cleanup Counts
    Counts_Correct Csv Csv_Correct Cursor Dashboard Database Decimal Delivery_Window
    Float64 Forecast Forecast_Correct Forecast_Db Import Import_Correct Journal Link
    Messages Notify Notify_Correct Notify_Db Order_Db Order_Life Order_Model
    Order_Position Orders Orders_Correct Outbox Password Pipeline Pipeline_Correct Prelude
    Quantity Ratelimit Reorder Replenish Replenish_Correct Reversal Stock Stock_Correct
    Stock_Db Stock_Query System Tenant Worker
begin

text \<open>
  A verification development of zapas, a service for stock keeping and reordering in small shops: it keeps a
  journal of movements, forecasts the consumption of every item, decides what to order and when, follows
  orders to their receipt and notifies people. The code is under \<open>src/internal\<close>; each theory begins with the files
  it models, and its definitions bear the names of the functions and types there (with a suffix or prefix where
  Isabelle has the name already, as in \<open>day_String\<close> for the method \<open>String\<close> of \<open>Day\<close>).
\<close>

section \<open>Parts of the program and their theories\<close>

text \<open>
  Ground. \<open>Prelude\<close> holds the error monad \<open>bindE\<close>, \<open>guardE\<close> on sums, lemmas on lists and the loop combinators that the
  components share. \<open>Float64\<close> is the binary64 arithmetic of Go, each operation the exact rational result rounded to nearest,
  ties to even. \<open>Decimal\<close> is the interface of shopspring/decimal: a record of its operations, the locale
  \<open>decimal_api\<close> with their documented laws, and an instance on rationals that shows the laws consistent. \<open>Quantity\<close> is \<open>platform/qty\<close>,
  numbers of three decimals; \<open>Calendar\<close> is \<open>clock\<close> with what it uses of package \<open>time\<close> (days, instants in nanoseconds,
  locations as tables of offsets, texts of times); \<open>Tenant\<close> is \<open>tenant\<close>.

  Database. \<open>Database\<close> has the rows of all tables, the state \<open>db\<close>, transactions (\<open>InTenantTx\<close>: an error rolls back),
  the codecs of \<open>platform/postgres\<close> and row-level security. \<open>Stock_Db\<close>, \<open>Order_Db\<close>, \<open>Forecast_Db\<close>, \<open>Notify_Db\<close>, \<open>Catalog_Db\<close> and
  \<open>Accounts\<close> are the queries of \<open>platform/sqlc\<close> with the constraints of \<open>src/migrations\<close>; \<open>Accounts\<close> adds tenants, sessions, the audit
  log and link codes to a \<open>site\<close>.

  Stock. \<open>Stock\<close> is \<open>Record\<close>, \<open>RecordInTx\<close> and \<open>Reverse\<close>; \<open>Counts\<close> the stock counts; \<open>Cursor\<close> and \<open>Stock_Query\<close> the pages of
  the journal, balances and the reconciliation. \<open>Journal\<close> is the abstract specification: what it is for a balance to be the sum of
  its movements, and \<open>booked\<close>, the one step by which the books move. \<open>Stock_Correct\<close>, \<open>Reversal\<close> and \<open>Counts_Correct\<close> show that every
  operation is such a step or changes nothing, which requests are accepted, that keys make repeats harmless,
  that a reversal nets to zero and happens once, and that posting a count sets the counted quantities or nothing.

  Forecast and reordering. \<open>Forecast\<close> and \<open>Forecast_Correct\<close> are the models M0, M1 and M2 with the cleaning of the series and the
  backtest, operation by operation in floating point. \<open>Delivery_Window\<close> and \<open>Reorder\<close> are the delivery dates and the
  decision. \<open>Replenish\<close> stores the decision for one item or all items of a tenant and raises alerts; \<open>Pipeline\<close> is
  the nightly run. Their \<open>_Correct\<close> theories show what is stored, for whom, and that single and batch agree.

  Orders. \<open>Order_Model\<close> has the data and texts, \<open>Orders\<close> the operations; \<open>Orders_Correct\<close> gives each operation's effect,
  \<open>Order_Life\<close> the abstract life of an order (draft, sent, received or cancelled) and the refinement to it,
  \<open>Order_Position\<close> the passage of an order from in transit to the stock.

  Notifications. \<open>Messages\<close> has the keys and texts, \<open>Notify\<close> the service with digest, reminders, late alerts and the feed,
  \<open>Outbox\<close> the dispatcher; \<open>Notify_Correct\<close> and \<open>Outbox\<close> show that a notification is written once and that the queue drains.

  Catalogue. \<open>Catalog\<close> has items, categories, suppliers and terms, \<open>Csv\<close> the reader of files, \<open>Import\<close> the import. The
  \<open>_Correct\<close> theories show the rules of the catalogue kept, what a file yields, and that an import writes every row.

  Screens and accounts. \<open>Dashboard\<close> is the main screen and the card of an item. \<open>Password\<close>, \<open>Ratelimit\<close> and
  \<open>Auth\<close> are passwords, tokens, roles, the sliding-window limit, login and sessions.

  Background. \<open>Worker\<close> is the tasks for all tenants by schedule, with the proof that they are runs of the system; \<open>Link\<close> links a
  Telegram chat to a user.

  Sandboxes. \<open>Cleanup\<close> is the removal of expired demo tenants.

  The whole. \<open>System\<close> wires the services as \<open>api.New\<close> does, collects every writing operation in one step relation and
  shows the invariant of the system and the isolation of tenants over all its runs.
\<close>

section \<open>How components meet\<close>

text \<open>
  A service that the code gets through an interface is a field of the service's record, and what the caller relies
  on is a locale: \<open>status_recalculator\<close> (what \<open>Record\<close>, \<open>Receive\<close> and \<open>PostCount\<close> expect of the recalculation after a movement),
  \<open>alert_channel\<close> and \<open>mismatch_channel\<close> (of the notifications), \<open>step_relation\<close> (of every kind of safe step). Each is interpreted on
  the model's own definitions in the theory of the provider, and \<open>System.api_New_ok\<close> shows that the wired services
  meet all of them. The laws of an operation are stated over the state before and after it, with the frame: what it
  leaves alone is part of its lemma.
\<close>

section \<open>Conventions, parameters and bounds\<close>

text \<open>
  Strings are lists of bytes in UTF-8. A Go pair of value and error is a sum; a panic is a value of the error type of its own
  (\<open>Panicked\<close>) and rolls back. Wrapped errors keep the tag they are tested for. Maps that are ranged over are lists of their entries.
  \<open>int\<close> and \<open>time.Duration\<close> are unbounded where the code cannot reach the width; conversions from floats are at width
  (out of range gives the least value, as on amd64). The two zeros of binary64 are one; no fused multiply-add is used.
  A stable sort is \<open>sort_key\<close>. The clock is read once per operation, as the parameter \<open>w\<close>.

  A \<open>:one\<close> query takes the first row that matches; the order of rows without ORDER BY is that of the table. Collation is the
  order of bytes. \<open>numeric(14,3)\<close> holds rationals rounded to three places and overflows beyond eleven digits. New identifiers come from a
  counter in the state. Explanations and payloads in \<open>jsonb\<close> are stored as values. Transactions run one after
  the other, as row locks make them for the rows concerned; where the code works in several transactions, so
  does the model.

  Parameters stand for code that is not in the repository: shopspring/decimal (\<open>decimal_api\<close>, \<open>decimal_text\<close>), the text of a UUID
  (\<open>uuid_lib\<close>), Argon2id and SHA-256 (\<open>crypto_lib\<close>), the senders of messages, the tables of letters of Go and PostgreSQL
  (\<open>text_lib\<close>), the code page of old files, and the tz database; random bytes are arguments. Reading the settings of a tenant by \<open>encoding/json\<close> and of
  an address by \<open>net/netip\<close> are parameters too. The laws assumed of them are the named hypotheses of the theorems; each has an instance in a
  witness.

  Loops are structural recursion, or recursion with a measure (the stockout projection and the spreading of a count run up to a
  day and stop there). The dispatcher's passes and the pages of the journal are bounded in their theorems: a message needs at most
  \<open>MaxAttempts\<close> passes, a journal of n rows at most n + 1 pages (\<open>pages\<close>, which follows the cursors, takes that number as fuel). The cleanup of sandboxes
  is a loop that need not end: \<open>cleanup_loop\<close> is a \<open>partial_function\<close> to \<open>option\<close>, and \<open>Cleanup_ends\<close> says when it returns.
\<close>

section \<open>Not modelled\<close>

text \<open>
  The HTTP handlers (decoding, cookies, status codes), middleware, SMTP and Telegram as protocols, configuration, logging,
  metrics, migrations and the start of the program: input and output around the modelled services. The
  developers' seed and the test fixtures. The generated interface of the queries.
\<close>

end
